(* ===== verification/Prelude.thy ===== *)
theory Prelude
  imports Main "HOL-Library.Word" "HOL-Library.AList" "HOL-Library.Monad_Syntax" "HOL-Library.Code_Target_Nat"
begin

text \<open>
  Shared layer of the development.

  \<^item> Go's \<^verbatim>\<open>string\<close> and \<^verbatim>\<open>[]byte\<close> are lists of bytes (\<open>gostring\<close>); \<open>str\<close> turns an Isabelle
    literal into one.
  \<^item> A Go map that is iterated over is an association list with distinct keys. Go leaves the
    iteration order of a map unspecified; the order of the list stands for it, and the lemmas
    hold for every such list. Lookup is \<open>map_of\<close>, assignment \<open>AList.update\<close>, deletion
    \<open>AList.delete\<close>.
  \<^item> A Go function that may panic returns an \<open>option\<close>, \<open>None\<close> for the panic. The predicate
    \<open>returns\<close> says that such a call comes back, and with what; its rules (collected in
    \<open>returns_intros\<close>) carry the "no panic and the invariant is kept" proofs.
\<close>

named_theorems returns_intros
named_theorems codec_simps

type_synonym byte = "8 word"
type_synonym gostring = "8 word list"

definition str :: "string \<Rightarrow> gostring" where
  "str s = map (\<lambda>c. of_nat (of_char c)) s"

section \<open>Calls that come back\<close>

definition returns :: "'a option \<Rightarrow> ('a \<Rightarrow> bool) \<Rightarrow> bool" where
  "returns m Q \<longleftrightarrow> (\<exists>x. m = Some x \<and> Q x)"

lemma returns_None [simp]: "\<not> returns None Q"
  by (simp add: returns_def)

lemma returns_Some [simp]: "returns (Some x) Q \<longleftrightarrow> Q x"
  by (simp add: returns_def)

lemma returns_bind [returns_intros]:
  "returns m P \<Longrightarrow> (\<And>x. P x \<Longrightarrow> returns (f x) Q) \<Longrightarrow> returns (m \<bind> f) Q"
  by (auto simp: returns_def)

lemma returns_mono: "returns m P \<Longrightarrow> (\<And>x. P x \<Longrightarrow> Q x) \<Longrightarrow> returns m Q"
  by (auto simp: returns_def)

lemma returns_conj: "returns m P \<Longrightarrow> returns m Q \<Longrightarrow> returns m (\<lambda>x. P x \<and> Q x)"
  by (auto simp: returns_def)

lemma returns_if [returns_intros]:
  "(b \<Longrightarrow> returns x Q) \<Longrightarrow> (\<not> b \<Longrightarrow> returns y Q) \<Longrightarrow> returns (if b then x else y) Q"
  by simp

lemma returnsD: "returns m Q \<Longrightarrow> m = Some x \<Longrightarrow> Q x"
  by (simp add: returns_def)

section \<open>Association lists as Go maps\<close>

abbreviation keys :: "('k \<times> 'v) list \<Rightarrow> 'k list" where
  "keys al \<equiv> map fst al"

definition wf_map :: "('k \<times> 'v) list \<Rightarrow> bool" where
  "wf_map al \<longleftrightarrow> distinct (keys al)"

lemma wf_map_Nil [simp]: "wf_map []"
  by (simp add: wf_map_def)

lemma wf_map_update [simp]: "wf_map al \<Longrightarrow> wf_map (AList.update k v al)"
  by (simp add: wf_map_def distinct_update)

lemma wf_map_delete [simp]: "wf_map al \<Longrightarrow> wf_map (AList.delete k al)"
  by (simp add: wf_map_def distinct_delete)

lemma wf_map_filter [simp]: "wf_map al \<Longrightarrow> wf_map (filter P al)"
  by (induction al) (auto simp: wf_map_def)

lemma wf_map_map_snd [simp]: "wf_map (map (\<lambda>(k, v). (k, f k v)) al) = wf_map al"
  by (simp add: wf_map_def comp_def split_def)

lemma map_of_update [simp]: "map_of (AList.update k v al) = (map_of al)(k \<mapsto> v)"
  by (rule update_conv')

lemma map_of_delete [simp]: "map_of (AList.delete k al) = (map_of al)(k := None)"
  by (rule delete_conv')

lemma map_of_map_snd: "map_of (map (\<lambda>(k, v). (k, f k v)) al) x = map_option (f x) (map_of al x)"
  by (induction al) auto

lemma map_of_filter_wf:
  "wf_map al \<Longrightarrow> map_of (filter (\<lambda>(k, v). P k v) al) x =
     (case map_of al x of None \<Rightarrow> None | Some v \<Rightarrow> if P x v then Some v else None)"
  by (induction al)
    (auto simp: wf_map_def split: option.splits dest: map_of_SomeD intro: rev_image_eqI)

lemma in_set_map_of: "wf_map al \<Longrightarrow> (k, v) \<in> set al \<longleftrightarrow> map_of al k = Some v"
  by (auto simp: wf_map_def)

lemma length_update:
  "length (AList.update k v al) = (if k \<in> set (keys al) then length al else Suc (length al))"
  by (induction al) auto

lemma length_update_member [simp]:
  "map_of al k = Some w \<Longrightarrow> length (AList.update k v al) = length al"
  by (auto simp: length_update dest: map_of_SomeD intro: rev_image_eqI)

lemma length_delete_le: "length (AList.delete k al) \<le> length al"
  by (simp add: AList.length_delete_le)

lemma set_update_wf:
  "wf_map al \<Longrightarrow> set (AList.update k v al) = insert (k, v) {(x, w) \<in> set al. x \<noteq> k}"
  by (induction al) (auto simp: wf_map_def intro: rev_image_eqI)

lemma set_delete: "set (AList.delete k al) = {(x, w) \<in> set al. x \<noteq> k}"
  by (auto simp: AList.delete_eq)

section \<open>Little-endian integers\<close>

text \<open>\<^verbatim>\<open>encoding/binary.LittleEndian\<close>: \<open>PutUint16\<close>, \<open>PutUint32\<close>, \<open>Uint16\<close>, \<open>Uint32\<close>.\<close>

definition put_u16 :: "16 word \<Rightarrow> byte list" where
  "put_u16 v = [ucast v, ucast (drop_bit 8 v)]"

definition put_u32 :: "32 word \<Rightarrow> byte list" where
  "put_u32 v = [ucast v, ucast (drop_bit 8 v), ucast (drop_bit 16 v), ucast (drop_bit 24 v)]"

fun get_u16 :: "byte list \<Rightarrow> 16 word" where
  "get_u16 (a # b # _) = or (ucast a) (push_bit 8 (ucast b))"
| "get_u16 _ = 0"

fun get_u32 :: "byte list \<Rightarrow> 32 word" where
  "get_u32 (a # b # c # d # _) =
     or (ucast a) (or (push_bit 8 (ucast b)) (or (push_bit 16 (ucast c)) (push_bit 24 (ucast d))))"
| "get_u32 _ = 0"

lemma length_put_u16 [simp]: "length (put_u16 v) = 2"
  by (simp add: put_u16_def)

lemma length_put_u32 [simp]: "length (put_u32 v) = 4"
  by (simp add: put_u32_def)

lemma get_put_u16 [codec_simps]: "get_u16 (put_u16 v @ bs) = v"
proof (rule bit_word_eqI)
  fix n :: nat
  assume n: "n < LENGTH(16)"
  consider "n < 8" | "8 \<le> n"
    by linarith
  then show "bit (get_u16 (put_u16 v @ bs)) n = bit v n"
    using n by cases (auto simp: put_u16_def bit_simps)
qed

lemma get_put_u32 [codec_simps]: "get_u32 (put_u32 v @ bs) = v"
proof (rule bit_word_eqI)
  fix n :: nat
  assume n: "n < LENGTH(32)"
  consider "n < 8" | "8 \<le> n" "n < 16" | "16 \<le> n" "n < 24" | "24 \<le> n"
    by linarith
  then show "bit (get_u32 (put_u32 v @ bs)) n = bit v n"
    using n by cases (auto simp: put_u32_def bit_simps)
qed

lemma drop_put_u16 [codec_simps]: "drop 2 (put_u16 v @ bs) = bs"
  by (simp add: put_u16_def)

lemma drop_put_u32 [codec_simps]: "drop 4 (put_u32 v @ bs) = bs"
  by (simp add: put_u32_def)

section \<open>Transition systems\<close>

text \<open>Invariants of transition systems.\<close>

locale transition_system =
  fixes init :: "'s \<Rightarrow> bool" and step :: "'s \<Rightarrow> 's \<Rightarrow> bool" and inv :: "'s \<Rightarrow> bool"
  assumes inv_init: "init s \<Longrightarrow> inv s"
    and inv_step: "inv s \<Longrightarrow> step s t \<Longrightarrow> inv t"
begin

lemma reachable_inv: "step\<^sup>*\<^sup>* s t \<Longrightarrow> init s \<Longrightarrow> inv t"
  by (induction rule: rtranclp_induct) (auto intro: inv_init inv_step)

end

end
