(* ===== verification/Float64.thy ===== *)
theory Float64
  imports Complex_Main Prelude "HOL-Library.Log_Nat"
begin

text \<open>
  Go's \<^verbatim>\<open>float64\<close> and \<^verbatim>\<open>float32\<close>, as IEEE-754 values with round-to-nearest-even.

  A value is \<open>NaN\<close>, an infinity or a sign and a rational magnitude (so that \<open>-0\<close> and
  \<open>0\<close> differ, as they do on the wire). The operations compute the exact rational result and
  round it (\<open>rnd64\<close>); no operations are fused. \<open>rndq\<close> is the rounding of a non-negative
  rational to a grid of \<open>p\<close> significant bits above the smallest exponent \<open>emin\<close>; it is
  monotone and idempotent, which is what the bounds of the physics rest on.
\<close>

section \<open>Rounding\<close>

definition pow2 :: "int \<Rightarrow> rat" where
  "pow2 k = (if 0 \<le> k then 2 ^ nat k else 1 / 2 ^ nat (- k))"

lemma pow2_pos [simp]: "0 < pow2 k"
  by (simp add: pow2_def)

lemma pow2_nonneg [simp]: "0 \<le> pow2 k"
  using pow2_pos [of k] by linarith

lemma pow2_nonzero [simp]: "pow2 k \<noteq> 0"
  using pow2_pos [of k] by linarith

lemma pow2_0 [simp]: "pow2 0 = 1"
  by (simp add: pow2_def)

lemma pow2_powi: "pow2 k = 2 powi k"
  by (simp add: pow2_def power_int_def field_simps)

lemma pow2_add: "pow2 (a + b) = pow2 a * pow2 b"
  by (simp add: pow2_powi power_int_add)

lemma pow2_diff: "pow2 (a - b) = pow2 a / pow2 b"
  by (simp add: pow2_powi power_int_diff)

lemma pow2_mono: "a \<le> b \<Longrightarrow> pow2 a \<le> pow2 b"
  by (simp add: pow2_powi power_int_increasing)

lemma pow2_less_iff: "pow2 a < pow2 b \<longleftrightarrow> a < b"
proof
  show "a < b \<Longrightarrow> pow2 a < pow2 b"
    by (simp add: pow2_powi power_int_strict_increasing)
  show "pow2 a < pow2 b \<Longrightarrow> a < b"
    using pow2_mono [of b a] by linarith
qed

lemma pow2_nat: "0 \<le> k \<Longrightarrow> pow2 k = of_int (2 ^ nat k)"
  by (simp add: pow2_def)

definition log2floor :: "rat \<Rightarrow> int" where
  "log2floor q = (let (n, d) = quotient_of q; k = bitlen n - bitlen d
                  in if pow2 k \<le> q then k else k - 1)"

lemma bitlen_pow2: "0 < n \<Longrightarrow> pow2 (bitlen n - 1) \<le> of_int n \<and> of_int n < pow2 (bitlen n)"
proof -
  assume n: "0 < n"
  then have "1 \<le> bitlen n"
    by (simp add: bitlen_def floorlog_def)
  moreover have "2 ^ nat (bitlen n - 1) \<le> n \<and> n < 2 ^ nat (bitlen n)"
    by (rule bitlen_bounds [OF n])
  ultimately show ?thesis
    by (simp add: pow2_nat)
qed

lemma log2floor_bounds:
  assumes "0 < q"
  shows "pow2 (log2floor q) \<le> q" "q < pow2 (log2floor q + 1)"
proof -
  obtain n d where nd: "quotient_of q = (n, d)"
    by (cases "quotient_of q")
  have q: "q = of_int n / of_int d" and d: "0 < d"
    using quotient_of_div [OF nd] quotient_of_denom_pos [OF nd] by auto
  have n: "0 < n"
    using assms d by (simp add: q zero_less_divide_iff)
  let ?k = "bitlen n - bitlen d"
  have "q < pow2 (?k + 1)"
  proof -
    have "q < pow2 (bitlen n) / pow2 (bitlen d - 1)"
      unfolding q using bitlen_pow2 [OF n] bitlen_pow2 [OF d] d
      by (intro frac_less) (auto simp: n less_imp_le)
    then show ?thesis by (simp add: pow2_diff [symmetric] algebra_simps)
  qed
  moreover have "pow2 (?k - 1) \<le> q"
  proof -
    have "pow2 (bitlen n - 1) / pow2 (bitlen d) \<le> q"
      unfolding q using bitlen_pow2 [OF n] bitlen_pow2 [OF d] d
      by (intro frac_le) (auto simp: n less_imp_le)
    then show ?thesis by (simp add: pow2_diff [symmetric] algebra_simps)
  qed
  ultimately show "pow2 (log2floor q) \<le> q" "q < pow2 (log2floor q + 1)"
    by (auto simp: log2floor_def nd Let_def not_le)
qed

lemma log2floor_unique:
  assumes "pow2 k \<le> q" "q < pow2 (k + 1)"
  shows "log2floor q = k"
proof -
  have "0 < q"
    using assms(1) pow2_pos [of k] by linarith
  from log2floor_bounds [OF this] assms
  have "pow2 (log2floor q) < pow2 (k + 1)" "pow2 k < pow2 (log2floor q + 1)"
    by linarith+
  then show ?thesis by (simp add: pow2_less_iff)
qed

lemma log2floor_mono:
  assumes "0 < x" "x \<le> y"
  shows "log2floor x \<le> log2floor y"
proof -
  have "pow2 (log2floor x) < pow2 (log2floor y + 1)"
    using log2floor_bounds [of x] log2floor_bounds [of y] assms by linarith
  then show ?thesis by (simp add: pow2_less_iff)
qed

text \<open>Round to nearest integer, ties to even.\<close>

definition rnd_even :: "rat \<Rightarrow> int" where
  "rnd_even x = (let f = \<lfloor>x\<rfloor>; r = x - of_int f
                 in if r < 1 / 2 then f else if 1 / 2 < r then f + 1
                    else if even f then f else f + 1)"

lemma rnd_even_of_int [simp]: "rnd_even (of_int n) = n"
  by (simp add: rnd_even_def)

lemma rnd_even_floor: "\<lfloor>x\<rfloor> \<le> rnd_even x" "rnd_even x \<le> \<lfloor>x\<rfloor> + 1"
  by (auto simp: rnd_even_def Let_def)

lemma rnd_even_le: "x \<le> of_int n \<Longrightarrow> rnd_even x \<le> n"
proof (cases "x = of_int n")
  case False
  assume "x \<le> of_int n"
  with False have "\<lfloor>x\<rfloor> < n"
    by (metis floor_less_iff order_le_imp_less_or_eq)
  then show ?thesis using rnd_even_floor [of x] by linarith
qed simp

lemma rnd_even_ge: "of_int n \<le> x \<Longrightarrow> n \<le> rnd_even x"
  using rnd_even_floor [of x] by (meson le_floor_iff order_trans)

lemma rnd_even_mono:
  assumes "x \<le> y"
  shows "rnd_even x \<le> rnd_even y"
proof (cases "\<lfloor>x\<rfloor> = \<lfloor>y\<rfloor>")
  case True
  with assms show ?thesis
    by (auto simp: rnd_even_def Let_def)
next
  case False
  then have "\<lfloor>x\<rfloor> + 1 \<le> \<lfloor>y\<rfloor>"
    using floor_mono [OF assms] by linarith
  then show ?thesis
    using rnd_even_floor [of x] rnd_even_floor [of y] by linarith
qed

definition grid_exp :: "int \<Rightarrow> int \<Rightarrow> rat \<Rightarrow> int" where
  "grid_exp p emin q = max emin (log2floor q - (p - 1))"

definition rndq :: "int \<Rightarrow> int \<Rightarrow> rat \<Rightarrow> rat" where
  "rndq p emin q = (if q = 0 then 0
     else let u = pow2 (grid_exp p emin q) in of_int (rnd_even (q / u)) * u)"

lemma rndq_0 [simp]: "rndq p emin 0 = 0"
  by (simp add: rndq_def)

lemma rndq_nonneg: "0 \<le> q \<Longrightarrow> 0 \<le> rndq p emin q"
  using rnd_even_ge [of 0 "q / pow2 (grid_exp p emin q)"]
  by (simp add: rndq_def Let_def mult_nonneg_nonneg)

text \<open>A multiple of a grid step not finer than the one at \<open>q\<close> bounds the rounding of \<open>q\<close>.\<close>

lemma rndq_le_pow2:
  assumes "0 < q" "q \<le> pow2 k" "grid_exp p emin q \<le> k"
  shows "rndq p emin q \<le> pow2 k"
proof -
  let ?e = "grid_exp p emin q"
  have "q / pow2 ?e \<le> pow2 (k - ?e)"
    using assms by (simp add: pow2_diff divide_right_mono)
  also have "\<dots> = of_int (2 ^ nat (k - ?e))"
    using assms by (simp add: pow2_nat)
  finally have "rnd_even (q / pow2 ?e) \<le> 2 ^ nat (k - ?e)"
    by (rule rnd_even_le)
  then have "of_int (rnd_even (q / pow2 ?e)) \<le> pow2 (k - ?e)"
    using assms by (simp add: pow2_nat)
  then show ?thesis
    using assms by (simp add: rndq_def Let_def pow2_diff pos_le_divide_eq)
qed

lemma rndq_ge_pow2:
  assumes "pow2 k \<le> q" "grid_exp p emin q \<le> k"
  shows "pow2 k \<le> rndq p emin q"
proof -
  have "0 < q" using assms(1) pow2_pos [of k] by linarith
  let ?e = "grid_exp p emin q"
  have "of_int (2 ^ nat (k - ?e)) = pow2 (k - ?e)"
    using assms by (simp add: pow2_nat)
  also have "\<dots> \<le> q / pow2 ?e"
    using assms by (simp add: pow2_diff divide_right_mono)
  finally have "2 ^ nat (k - ?e) \<le> rnd_even (q / pow2 ?e)"
    by (rule rnd_even_ge)
  then have "pow2 (k - ?e) \<le> of_int (rnd_even (q / pow2 ?e))"
    using assms by (simp add: pow2_nat)
  then show ?thesis
    using \<open>0 < q\<close> by (simp add: rndq_def Let_def pow2_diff pos_divide_le_eq)
qed

lemma rndq_mono:
  assumes "0 \<le> x" "x \<le> y" "0 < p"
  shows "rndq p emin x \<le> rndq p emin y"
proof (cases "x = 0")
  case True
  with assms show ?thesis by (simp add: rndq_nonneg)
next
  case False
  then have x: "0 < x" and y: "0 < y" using assms by auto
  let ?ex = "grid_exp p emin x" and ?ey = "grid_exp p emin y"
  have le: "?ex \<le> ?ey"
    using log2floor_mono [OF x assms(2)] by (simp add: grid_exp_def)
  show ?thesis
  proof (cases "?ex = ?ey")
    case True
    have "rnd_even (x / pow2 ?ey) \<le> rnd_even (y / pow2 ?ey)"
      using assms by (intro rnd_even_mono divide_right_mono) (simp_all add: less_imp_le)
    with True x y show ?thesis
      by (simp add: rndq_def Let_def mult_right_mono less_imp_le)
  next
    case False
    let ?l = "log2floor y"
    from False le have ey: "?ey = ?l - (p - 1)" and lt: "log2floor x < ?l"
      by (auto simp: grid_exp_def)
    have "x \<le> pow2 ?l"
      using log2floor_bounds(2) [OF x] pow2_mono [of "log2floor x + 1" ?l] lt by linarith
    then have "rndq p emin x \<le> pow2 ?l"
      using le ey assms(3) by (intro rndq_le_pow2 [OF x]) auto
    also have "\<dots> \<le> rndq p emin y"
      using ey assms(3) log2floor_bounds(1) [OF y] by (intro rndq_ge_pow2) auto
    finally show ?thesis .
  qed
qed

text \<open>Every multiple \<open>m \<cdot> 2\<^sup>e\<close> with at most \<open>p\<close> bits is on the grid.\<close>

lemma rndq_exact:
  assumes "q = of_int m * pow2 e" "emin \<le> e" "0 \<le> m" "m \<le> 2 ^ nat p" "0 < p"
  shows "rndq p emin q = q"
proof (cases "m = 0")
  case True
  with assms show ?thesis by simp
next
  case False
  then have m: "0 < m" using assms by simp
  then have q: "0 < q" using assms by (simp add: mult_pos_pos)
  let ?e = "grid_exp p emin q"
  have "\<exists>n. q = of_int n * pow2 ?e"
  proof (cases "m = 2 ^ nat p")
    case True
    then have qp: "q = pow2 (e + p)"
      using assms by (simp add: pow2_add pow2_nat)
    have "log2floor q = e + p"
      unfolding qp by (rule log2floor_unique) (simp_all add: pow2_less_iff)
    then have ee: "?e \<le> e + 1" using assms by (simp add: grid_exp_def)
    have "of_int (2 ^ nat (e + p - ?e)) * pow2 ?e = pow2 (e + p - ?e) * pow2 ?e"
      using ee assms(5) by (subst pow2_nat) auto
    also have "\<dots> = q"
      by (simp add: qp pow2_add [symmetric])
    finally show ?thesis by metis
  next
    case False
    with assms have "m < 2 ^ nat p" by simp
    then have "rat_of_int m < rat_of_int (2 ^ nat p)"
      by (simp only: of_int_less_iff)
    then have "rat_of_int m < pow2 p"
      using assms(5) by (simp add: pow2_nat)
    then have "q < pow2 (e + p)"
      using assms by (simp add: pow2_add)
    then have "log2floor q < e + p"
      using log2floor_bounds(1) [OF q] by (meson order_le_less_trans pow2_less_iff)
    then have ee: "?e \<le> e" using assms by (simp add: grid_exp_def)
    have "of_int (m * 2 ^ nat (e - ?e)) * pow2 ?e = of_int m * (pow2 (e - ?e) * pow2 ?e)"
      using ee by (subst pow2_nat) auto
    also have "\<dots> = q"
      by (simp add: assms(1) pow2_add [symmetric])
    finally show ?thesis by metis
  qed
  then obtain n where n: "q = of_int n * pow2 ?e" ..
  then have "q / pow2 ?e = of_int n" by (simp add: field_simps)
  then show ?thesis using q n by (simp add: rndq_def Let_def)
qed

lemma rndq_idem:
  assumes "0 \<le> q" "0 < p"
  shows "rndq p emin (rndq p emin q) = rndq p emin q"
proof (cases "q = 0")
  case False
  then have q: "0 < q" using assms by simp
  let ?e = "grid_exp p emin q" and ?m = "rnd_even (q / pow2 (grid_exp p emin q))"
  have "q < pow2 (log2floor q + 1)"
    by (rule log2floor_bounds(2) [OF q])
  also have "\<dots> \<le> pow2 (?e + p)"
    by (rule pow2_mono) (auto simp: grid_exp_def)
  finally have "q / pow2 ?e \<le> pow2 p"
    by (simp add: pow2_add pos_divide_le_eq mult.commute)
  then have "q / pow2 ?e \<le> of_int (2 ^ nat p)"
    using assms(2) by (simp add: pow2_nat)
  then have m: "?m \<le> 2 ^ nat p" by (rule rnd_even_le)
  have "0 \<le> ?m" using rnd_even_ge [of 0 "q / pow2 ?e"] q by simp
  moreover have "emin \<le> ?e" by (simp add: grid_exp_def)
  moreover have "rndq p emin q = of_int ?m * pow2 ?e" using q by (simp add: rndq_def Let_def)
  ultimately show ?thesis using m assms(2) by (intro rndq_exact)
qed simp

text \<open>Magnitudes of at least \<open>2\<^sup>n\<close>, which overflow a format with largest exponent \<open>n - 1\<close>.\<close>

definition overflows :: "int \<Rightarrow> rat \<Rightarrow> bool" where
  "overflows n q \<longleftrightarrow> q \<noteq> 0 \<and> n \<le> log2floor q"

lemma overflows_iff:
  assumes "0 \<le> q"
  shows "overflows n q \<longleftrightarrow> pow2 n \<le> q"
proof (cases "q = 0")
  case True
  then show ?thesis
    using pow2_pos [of n] by (auto simp: overflows_def simp del: pow2_pos)
next
  case False
  with assms have q: "0 < q" by simp
  have "n \<le> log2floor q \<Longrightarrow> pow2 n \<le> q"
    using log2floor_bounds(1) [OF q] pow2_mono [of n "log2floor q"] by linarith
  moreover have "pow2 n \<le> q \<Longrightarrow> n \<le> log2floor q"
    using log2floor_bounds(2) [OF q] pow2_less_iff [of n "log2floor q + 1"] by simp
  ultimately show ?thesis using False by (auto simp: overflows_def)
qed

section \<open>Values\<close>

datatype f64 = NaN | Inf bool | Fin bool rat

text \<open>In \<open>Inf s\<close> and \<open>Fin s q\<close> the flag \<open>s\<close> is the sign bit and \<open>q\<close> the magnitude.\<close>

fun val :: "f64 \<Rightarrow> rat" where
  "val (Fin s q) = (if s then - q else q)"
| "val _ = 0"

fun finite64 :: "f64 \<Rightarrow> bool" where
  "finite64 (Fin s q) = True"
| "finite64 _ = False"

fun wf64 :: "f64 \<Rightarrow> bool" where
  "wf64 (Fin s q) = (0 \<le> q \<and> \<not> overflows 1024 q \<and> rndq 53 (-1074) q = q)"
| "wf64 _ = True"

definition rnd64 :: "bool \<Rightarrow> rat \<Rightarrow> f64" where
  "rnd64 s x = (let q = rndq 53 (-1074) \<bar>x\<bar>
                in if overflows 1024 q then Inf (x < 0) else Fin (if x = 0 then s else x < 0) q)"

text \<open>A floating-point constant of the source: its exact decimal value, rounded once.\<close>

definition flit :: "rat \<Rightarrow> f64" where
  "flit x = rnd64 False x"

definition f64_of_int :: "int \<Rightarrow> f64" where
  "f64_of_int n = rnd64 False (of_int n)"

section \<open>Arithmetic and comparisons\<close>

fun fneg :: "f64 \<Rightarrow> f64" where
  "fneg NaN = NaN"
| "fneg (Inf s) = Inf (\<not> s)"
| "fneg (Fin s q) = Fin (\<not> s) q"

fun fadd :: "f64 \<Rightarrow> f64 \<Rightarrow> f64" where
  "fadd NaN y = NaN"
| "fadd x NaN = NaN"
| "fadd (Inf s) (Inf t) = (if s = t then Inf s else NaN)"
| "fadd (Inf s) (Fin t q) = Inf s"
| "fadd (Fin s q) (Inf t) = Inf t"
| "fadd (Fin s q) (Fin t r) = rnd64 (s \<and> t) (val (Fin s q) + val (Fin t r))"

fun fmul :: "f64 \<Rightarrow> f64 \<Rightarrow> f64" where
  "fmul NaN y = NaN"
| "fmul x NaN = NaN"
| "fmul (Inf s) (Inf t) = Inf (s \<noteq> t)"
| "fmul (Inf s) (Fin t q) = (if q = 0 then NaN else Inf (s \<noteq> t))"
| "fmul (Fin s q) (Inf t) = (if q = 0 then NaN else Inf (s \<noteq> t))"
| "fmul (Fin s q) (Fin t r) = rnd64 (s \<noteq> t) (val (Fin s q) * val (Fin t r))"

fun fdiv :: "f64 \<Rightarrow> f64 \<Rightarrow> f64" where
  "fdiv NaN y = NaN"
| "fdiv x NaN = NaN"
| "fdiv (Inf s) (Inf t) = NaN"
| "fdiv (Inf s) (Fin t q) = Inf (s \<noteq> t)"
| "fdiv (Fin s q) (Inf t) = Fin (s \<noteq> t) 0"
| "fdiv (Fin s q) (Fin t r) =
     (if r = 0 then (if q = 0 then NaN else Inf (s \<noteq> t))
      else rnd64 (s \<noteq> t) (val (Fin s q) / val (Fin t r)))"

fun fless :: "f64 \<Rightarrow> f64 \<Rightarrow> bool" where
  "fless NaN y = False"
| "fless x NaN = False"
| "fless (Inf s) (Inf t) = (s \<and> \<not> t)"
| "fless (Inf s) (Fin t q) = s"
| "fless (Fin s q) (Inf t) = (\<not> t)"
| "fless (Fin s q) (Fin t r) = (val (Fin s q) < val (Fin t r))"

fun fle :: "f64 \<Rightarrow> f64 \<Rightarrow> bool" where
  "fle NaN y = False"
| "fle x NaN = False"
| "fle (Inf s) (Inf t) = (s \<or> \<not> t)"
| "fle (Inf s) (Fin t q) = s"
| "fle (Fin s q) (Inf t) = (\<not> t)"
| "fle (Fin s q) (Fin t r) = (val (Fin s q) \<le> val (Fin t r))"

fun fabs :: "f64 \<Rightarrow> f64" where
  "fabs NaN = NaN"
| "fabs (Inf s) = Inf False"
| "fabs (Fin s q) = Fin False q"

text \<open>The operators of the source: \<open>+\<close>, \<open>-\<close>, \<open>*\<close>, \<open>/\<close>, \<open><\<close>, \<open>\<le>\<close>; \<open>feq\<close> is \<^verbatim>\<open>==\<close>.\<close>

instantiation f64 :: "{zero, plus, uminus, minus, times, inverse, ord, abs}"
begin

definition zero_f64 :: f64 where "0 = Fin False 0"

definition plus_f64 :: "f64 \<Rightarrow> f64 \<Rightarrow> f64" where "x + y = fadd x y"

definition uminus_f64 :: "f64 \<Rightarrow> f64" where "- x = fneg x"

definition minus_f64 :: "f64 \<Rightarrow> f64 \<Rightarrow> f64" where "x - y = fadd x (fneg y)"

definition times_f64 :: "f64 \<Rightarrow> f64 \<Rightarrow> f64" where "x * y = fmul x y"

definition divide_f64 :: "f64 \<Rightarrow> f64 \<Rightarrow> f64" where "divide x y = fdiv x y"

definition inverse_f64 :: "f64 \<Rightarrow> f64" where "inverse x = fdiv (Fin False 1) x"

definition less_f64 :: "f64 \<Rightarrow> f64 \<Rightarrow> bool" where "x < y \<longleftrightarrow> fless x y"

definition less_eq_f64 :: "f64 \<Rightarrow> f64 \<Rightarrow> bool" where "x \<le> y \<longleftrightarrow> fle x y"

definition abs_f64 :: "f64 \<Rightarrow> f64" where "\<bar>x\<bar> = fabs x"

instance ..

end

lemmas f64_ops = zero_f64_def plus_f64_def uminus_f64_def minus_f64_def times_f64_def
  divide_f64_def less_f64_def less_eq_f64_def abs_f64_def

definition feq :: "f64 \<Rightarrow> f64 \<Rightarrow> bool" where
  "feq x y \<longleftrightarrow> x \<le> y \<and> y \<le> x"

definition isNaN :: "f64 \<Rightarrow> bool" where
  "isNaN x \<longleftrightarrow> x = NaN"

definition isInf :: "f64 \<Rightarrow> bool" where
  "isInf x \<longleftrightarrow> x = Inf False \<or> x = Inf True"

text \<open>The built-in \<^verbatim>\<open>min\<close> and \<^verbatim>\<open>max\<close>: NaN if an argument is NaN, and \<open>-0 < 0\<close>.\<close>

definition fmin :: "f64 \<Rightarrow> f64 \<Rightarrow> f64" where
  "fmin x y = (if isNaN x \<or> isNaN y then NaN else if x < y then x else if y < x then y
     else case x of Fin True q \<Rightarrow> x | _ \<Rightarrow> y)"

definition fmax :: "f64 \<Rightarrow> f64 \<Rightarrow> f64" where
  "fmax x y = (if isNaN x \<or> isNaN y then NaN else if x < y then y else if y < x then x
     else case x of Fin True q \<Rightarrow> y | _ \<Rightarrow> x)"

text \<open>
  \<^verbatim>\<open>int(f)\<close> truncates towards zero. Out of the range of \<open>int64\<close> the language leaves the result
  open; the model takes the value amd64 gives.
\<close>

definition trunc_rat :: "rat \<Rightarrow> int" where
  "trunc_rat x = (if x < 0 then - \<lfloor>- x\<rfloor> else \<lfloor>x\<rfloor>)"

fun int_of_f64 :: "f64 \<Rightarrow> int" where
  "int_of_f64 (Fin s q) =
     (let n = trunc_rat (val (Fin s q)) in if - (2 ^ 63) \<le> n \<and> n < 2 ^ 63 then n else - (2 ^ 63))"
| "int_of_f64 _ = - (2 ^ 63)"

text \<open>\<^verbatim>\<open>math.Round\<close>: nearest integer, halves away from zero.\<close>

fun fround :: "f64 \<Rightarrow> f64" where
  "fround (Fin s q) = Fin s (of_int \<lfloor>q + 1 / 2\<rfloor>)"
| "fround x = x"

text \<open>
  \<^verbatim>\<open>math.Sqrt\<close> is the correctly rounded root. The integer root \<open>isqrt\<close> of the magnitude scaled
  by \<open>4 ^ k\<close> has more than 54 bits, so appending a sticky bit and rounding once gives it.
\<close>

function isqrt :: "int \<Rightarrow> int" where
  "isqrt n = (if n \<le> 0 then 0
     else let r = 2 * isqrt (n div 4) in if (r + 1) * (r + 1) \<le> n then r + 1 else r)"
  by pat_completeness auto
termination
  by (relation "measure nat") auto

declare isqrt.simps [simp del]

definition sqrt_scale :: "rat \<Rightarrow> nat" where
  "sqrt_scale q = nat (60 - log2floor q div 2)"

definition sqrt_approx :: "rat \<Rightarrow> rat" where
  "sqrt_approx q = (let k = sqrt_scale q; y = q * 4 ^ k; s = isqrt \<lfloor>y\<rfloor>;
       sticky = (if of_int (s * s) = y then 0 else 1 / 2)
     in (of_int s + sticky) / 2 ^ k)"

fun fsqrt :: "f64 \<Rightarrow> f64" where
  "fsqrt NaN = NaN"
| "fsqrt (Inf s) = (if s then NaN else Inf False)"
| "fsqrt (Fin s q) = (if q = 0 then Fin s q else if s then NaN else rnd64 False (sqrt_approx q))"

text \<open>\<^verbatim>\<open>math.Hypot\<close>.\<close>

definition fhypot :: "f64 \<Rightarrow> f64 \<Rightarrow> f64" where
  "fhypot p q =
     (let p = \<bar>p\<bar>; q = \<bar>q\<bar>
      in if p = Inf False \<or> q = Inf False then Inf False
         else if isNaN p \<or> isNaN q then NaN
         else let (p, q) = (if p < q then (q, p) else (p, q))
              in if feq p 0 then 0 else let q = q / p in p * fsqrt (Fin False 1 + q * q))"

section \<open>float32\<close>

text \<open>
  The conversion \<^verbatim>\<open>float32(x)\<close> rounds to the \<open>float32\<close> grid; \<^verbatim>\<open>math.Float32bits\<close> and
  \<^verbatim>\<open>math.Float32frombits\<close> read and build the bit pattern. A NaN has the canonical quiet pattern.
\<close>

fun f32_round :: "f64 \<Rightarrow> f64" where
  "f32_round (Fin s q) = (let r = rndq 24 (-149) q in if overflows 128 r then Inf s else Fin s r)"
| "f32_round x = x"

definition sign_bit :: "bool \<Rightarrow> int" where
  "sign_bit s = (if s then 2 ^ 31 else 0)"

fun Float32bits :: "f64 \<Rightarrow> 32 word" where
  "Float32bits NaN = 0x7FC00000"
| "Float32bits (Inf s) = of_int (sign_bit s + 0x7F800000)"
| "Float32bits (Fin s q) = of_int (sign_bit s +
     (if q = 0 then 0
      else let e = log2floor q
           in if e < -126 then \<lfloor>q / pow2 (-149)\<rfloor>
              else (e + 127) * 2 ^ 23 + \<lfloor>q / pow2 (e - 23)\<rfloor> - 2 ^ 23))"

definition Float32frombits :: "32 word \<Rightarrow> f64" where
  "Float32frombits w = (let s = bit w 31; e = uint w div 2 ^ 23 mod 256; m = uint w mod 2 ^ 23
     in if e = 255 then (if m = 0 then Inf s else NaN)
        else if e = 0 then Fin s (of_int m * pow2 (-149))
        else Fin s (of_int (m + 2 ^ 23) * pow2 (e - 150)))"

definition float32_bits :: "f64 \<Rightarrow> 32 word" where
  "float32_bits x = Float32bits (f32_round x)"

text \<open>The values of type \<^verbatim>\<open>float32\<close>.\<close>

fun wf32 :: "f64 \<Rightarrow> bool" where
  "wf32 (Fin s q) = (0 \<le> q \<and> \<not> overflows 128 q \<and> rndq 24 (-149) q = q)"
| "wf32 _ = True"

section \<open>Laws of the operations\<close>

lemma rnd64_finite: "finite64 (rnd64 s x) \<longleftrightarrow> \<not> overflows 1024 (rndq 53 (-1074) \<bar>x\<bar>)"
  by (simp add: rnd64_def Let_def)

lemma rnd64_abs: "finite64 (rnd64 s x) \<Longrightarrow> \<bar>val (rnd64 s x)\<bar> = rndq 53 (-1074) \<bar>x\<bar>"
  by (simp add: rnd64_def Let_def rndq_nonneg split: if_splits)

lemma rnd64_nonneg: "0 \<le> x \<Longrightarrow> 0 \<le> val (rnd64 s x)"
  by (auto simp: rnd64_def Let_def rndq_nonneg)

lemma rnd64_nonpos: "x \<le> 0 \<Longrightarrow> val (rnd64 s x) \<le> 0"
  by (auto simp: rnd64_def Let_def rndq_nonneg)

lemma rnd64_not_NaN [simp]: "rnd64 s x \<noteq> NaN" "NaN \<noteq> rnd64 s x"
  by (simp_all add: rnd64_def Let_def)

lemma wf64_rnd64 [simp]: "wf64 (rnd64 s x)"
  by (simp add: rnd64_def Let_def rndq_nonneg rndq_idem)

text \<open>Rounding does not leave an interval whose ends are floating-point numbers.\<close>

lemma rnd64_bound:
  assumes "wf64 (Fin t b)" "\<bar>x\<bar> \<le> b"
  shows "finite64 (rnd64 s x)" "\<bar>val (rnd64 s x)\<bar> \<le> b"
proof -
  have "rndq 53 (-1074) \<bar>x\<bar> \<le> rndq 53 (-1074) b"
    using assms(2) by (intro rndq_mono) auto
  then have le: "rndq 53 (-1074) \<bar>x\<bar> \<le> b"
    using assms(1) by simp
  then show fin: "finite64 (rnd64 s x)"
    using assms(1) by (auto simp: rnd64_finite overflows_iff rndq_nonneg)
  from le show "\<bar>val (rnd64 s x)\<bar> \<le> b"
    by (simp add: rnd64_abs [OF fin])
qed

lemma rnd64_ge:
  assumes "wf64 (Fin t b)" "b \<le> x"
  shows "finite64 (rnd64 s x) \<Longrightarrow> b \<le> val (rnd64 s x)" "\<not> finite64 (rnd64 s x) \<Longrightarrow> rnd64 s x = Inf False"
proof -
  have b: "0 \<le> b" using assms(1) by simp
  have "rndq 53 (-1074) b \<le> rndq 53 (-1074) \<bar>x\<bar>"
    using assms(2) b by (intro rndq_mono) auto
  then have "b \<le> rndq 53 (-1074) \<bar>x\<bar>" using assms(1) by simp
  then show "finite64 (rnd64 s x) \<Longrightarrow> b \<le> val (rnd64 s x)"
    using rnd64_abs [of s x] rnd64_nonneg [of x s] assms(2) b by simp
  show "\<not> finite64 (rnd64 s x) \<Longrightarrow> rnd64 s x = Inf False"
    using assms(2) b by (auto simp: rnd64_def Let_def split: if_splits)
qed

lemma rnd64_exact: "wf64 (Fin t q) \<Longrightarrow> \<bar>x\<bar> = q \<Longrightarrow> finite64 (rnd64 s x) \<and> val (rnd64 s x) = x"
  by (auto simp: rnd64_def Let_def)

lemma val_abs_wf: "wf64 x \<Longrightarrow> finite64 x \<Longrightarrow> wf64 (Fin s \<bar>val x\<bar>)"
  by (cases x) auto

lemma fadd_finite:
  "finite64 x \<Longrightarrow> finite64 y \<Longrightarrow> \<exists>s. x + y = rnd64 s (val x + val y)"
  by (cases x; cases y) (auto simp: f64_ops)

lemma fsub_finite:
  "finite64 x \<Longrightarrow> finite64 y \<Longrightarrow> \<exists>s. x - y = rnd64 s (val x - val y)"
  by (cases x; cases y) (auto simp: f64_ops intro!: exI)

lemma fmul_finite:
  "finite64 x \<Longrightarrow> finite64 y \<Longrightarrow> \<exists>s. x * y = rnd64 s (val x * val y)"
  by (cases x; cases y) (auto simp: f64_ops)

lemma fdiv_finite:
  "finite64 x \<Longrightarrow> finite64 y \<Longrightarrow> val y \<noteq> 0 \<Longrightarrow> \<exists>s. x / y = rnd64 s (val x / val y)"
  by (cases x; cases y) (auto simp: f64_ops)

lemma fle_finite: "finite64 x \<Longrightarrow> finite64 y \<Longrightarrow> x \<le> y \<longleftrightarrow> val x \<le> val y"
  by (cases x; cases y) (auto simp: f64_ops)

lemma fless_finite: "finite64 x \<Longrightarrow> finite64 y \<Longrightarrow> x < y \<longleftrightarrow> val x < val y"
  by (cases x; cases y) (auto simp: f64_ops)

lemma feq_finite: "finite64 x \<Longrightarrow> finite64 y \<Longrightarrow> feq x y \<longleftrightarrow> val x = val y"
  by (auto simp: feq_def fle_finite)

lemma fabs_laws [simp]:
  "finite64 \<bar>x :: f64\<bar> = finite64 x" "wf64 x \<Longrightarrow> val \<bar>x\<bar> = \<bar>val x\<bar>" "wf64 x \<Longrightarrow> wf64 \<bar>x\<bar>"
  by (cases x; simp add: f64_ops)+

lemma fneg_laws [simp]:
  "finite64 (- x :: f64) = finite64 x" "val (- x) = - val x" "wf64 x \<Longrightarrow> wf64 (- x)"
  by (cases x; simp add: f64_ops)+

lemma f64_zero_laws [simp]: "finite64 0" "val 0 = 0" "wf64 0"
  by (simp_all add: zero_f64_def overflows_def)

lemma wf64_fadd [simp]: "wf64 x \<Longrightarrow> wf64 y \<Longrightarrow> wf64 (x + y)"
  by (cases x; cases y) (simp_all add: f64_ops)

lemma wf64_fsub [simp]: "wf64 x \<Longrightarrow> wf64 y \<Longrightarrow> wf64 (x - y)"
  by (cases x; cases y) (simp_all add: f64_ops)

lemma wf64_fmul [simp]: "wf64 x \<Longrightarrow> wf64 y \<Longrightarrow> wf64 (x * y)"
  by (cases x; cases y) (simp_all add: f64_ops)

lemma wf64_fdiv [simp]: "wf64 x \<Longrightarrow> wf64 y \<Longrightarrow> wf64 (x / y)"
  by (cases x; cases y) (simp_all add: f64_ops overflows_def)

lemma wf64_flit [simp]: "wf64 (flit x)"
  by (simp add: flit_def)

lemma fmin_cases: "fmin x y = NaN \<or> fmin x y = x \<or> fmin x y = y"
  by (auto simp: fmin_def split: f64.split bool.split)

lemma fmax_cases: "fmax x y = NaN \<or> fmax x y = x \<or> fmax x y = y"
  by (auto simp: fmax_def split: f64.split bool.split)

lemma wf64_fmin [simp]: "wf64 x \<Longrightarrow> wf64 y \<Longrightarrow> wf64 (fmin x y)"
  using fmin_cases [of x y] by auto

lemma wf64_fmax [simp]: "wf64 x \<Longrightarrow> wf64 y \<Longrightarrow> wf64 (fmax x y)"
  using fmax_cases [of x y] by auto

lemma wf64_simple: "q = of_int m * pow2 e \<Longrightarrow> -1074 \<le> e \<Longrightarrow> e \<le> 900 \<Longrightarrow> 0 \<le> m \<Longrightarrow> m \<le> 2 ^ 53 \<Longrightarrow> wf64 (Fin s q)"
proof -
  assume *: "q = of_int m * pow2 e" "-1074 \<le> e" "e \<le> 900" "0 \<le> m" "m \<le> 2 ^ 53"
  have "rndq 53 (-1074) q = q"
    using * by (intro rndq_exact [of q m e]) simp_all
  moreover have "q \<le> pow2 953"
  proof -
    have "of_int m \<le> pow2 53"
      using *(5) by (simp add: pow2_nat)
    then have "q \<le> pow2 53 * pow2 900"
      using *(1,3,4) by (auto intro!: mult_mono pow2_mono)
    then show ?thesis by (simp flip: pow2_add)
  qed
  moreover have "pow2 953 < pow2 1024" by (simp only: pow2_less_iff)
  moreover have "0 \<le> q" using * by simp
  ultimately show "wf64 (Fin s q)" by (auto simp: overflows_iff)
qed

lemma wf64_1 [simp]: "wf64 (Fin s 1)"
  by (rule wf64_simple [of _ 1 0]) simp_all

lemma wf64_2: "wf64 (Fin s 2)"
  by (rule wf64_simple [of _ 2 0]) simp_all


section \<open>Square root and hypotenuse\<close>

lemma isqrt_bounds:
  "0 \<le> n \<Longrightarrow> 0 \<le> isqrt n \<and> isqrt n * isqrt n \<le> n \<and> n < (isqrt n + 1) * (isqrt n + 1)"
proof (induction n rule: isqrt.induct)
  case (1 n)
  show ?case
  proof (cases "n = 0")
    case True
    then show ?thesis by (simp add: isqrt.simps)
  next
    case False
    let ?h = "isqrt (n div 4)"
    have IH: "0 \<le> ?h" "?h * ?h \<le> n div 4" "n div 4 < (?h + 1) * (?h + 1)"
      using "1.IH" "1.prems" False by auto
    have "4 * (?h * ?h) \<le> n" using IH(2) by linarith
    moreover have "n < 4 * ((?h + 1) * (?h + 1))" using IH(3) by linarith
    ultimately show ?thesis
      using False "1.prems" IH(1) by (simp add: isqrt.simps [of n] Let_def algebra_simps)
  qed
qed

lemma sqrt_approx_bounds:
  assumes "1 \<le> q"
  shows "1 \<le> sqrt_approx q" "q \<le> 2 \<Longrightarrow> sqrt_approx q \<le> 2"
proof -
  define k where "k = sqrt_scale q"
  define y where "y = q * 4 ^ k"
  define s where "s = isqrt \<lfloor>y\<rfloor>"
  have y: "4 ^ k \<le> y" using assms by (simp add: y_def)
  then have y0: "(0 :: int) \<le> \<lfloor>y\<rfloor>"
    by (meson order_trans zero_le_floor zero_le_numeral zero_le_power)
  note sb = isqrt_bounds [OF y0, folded s_def]
  have four: "(4 :: int) ^ k = 2 ^ k * 2 ^ k" by (simp add: power_mult_distrib [symmetric])
  have "(4 :: int) ^ k \<le> \<lfloor>y\<rfloor>"
    using y by (simp add: le_floor_iff)
  then have "(2 :: int) ^ k * 2 ^ k < (s + 1) * (s + 1)" using sb four by linarith
  then have "(2 :: int) ^ k < s + 1"
    using sb by (intro power2_less_imp_less [of "2 ^ k"]) (simp_all add: power2_eq_square)
  then have "rat_of_int (2 ^ k) \<le> of_int s" by (simp only: of_int_le_iff)
  then have "(2 :: rat) ^ k \<le> of_int s + (if of_int (s * s) = y then 0 else 1 / 2)"
    by (simp only: of_int_power of_int_numeral) (simp add: add_increasing2)
  moreover have eq: "sqrt_approx q = (of_int s + (if of_int (s * s) = y then 0 else 1 / 2)) / 2 ^ k"
    by (simp add: sqrt_approx_def Let_def s_def y_def k_def)
  ultimately show "1 \<le> sqrt_approx q" by simp
  assume "q \<le> 2"
  then have "y < 4 * 4 ^ k" using y by (simp add: y_def)
  then have "\<lfloor>y\<rfloor> < 4 * 4 ^ k" by (simp add: floor_less_iff)
  then have "s * s < (2 * 2 ^ k) * (2 * 2 ^ k)" using sb four by linarith
  then have "s < 2 * 2 ^ k"
    by (intro power2_less_imp_less [of s]) (simp_all add: power2_eq_square)
  then have "s + 1 \<le> 2 * 2 ^ k" by simp
  then have "rat_of_int (s + 1) \<le> of_int (2 * 2 ^ k)" by (simp only: of_int_le_iff)
  then have "rat_of_int s + 1 \<le> 2 * 2 ^ k" by simp
  then show "sqrt_approx q \<le> 2" by (simp add: eq field_simps)
qed

lemma fsqrt_unit:
  assumes "wf64 x" "finite64 x" "1 \<le> val x" "val x \<le> 2"
  shows "finite64 (fsqrt x) \<and> 1 \<le> val (fsqrt x) \<and> val (fsqrt x) \<le> 2"
proof -
  obtain q where x: "x = Fin False q" and q: "1 \<le> q" "q \<le> 2"
    using assms by (cases x) (auto split: if_splits)
  note b = sqrt_approx_bounds [OF q(1)]
  have fin: "finite64 (rnd64 False (sqrt_approx q))" "\<bar>val (rnd64 False (sqrt_approx q))\<bar> \<le> 2"
    using b(1) b(2) [OF q(2)] by (auto intro!: rnd64_bound [OF wf64_2 [of False]])
  moreover have "1 \<le> val (rnd64 False (sqrt_approx q))"
    using rnd64_ge(1) [OF wf64_1 b(1) fin(1)] .
  ultimately show ?thesis using x q by auto
qed

text \<open>The quotient of a value by one that is not smaller in magnitude lies in \<open>[-1, 1]\<close>.\<close>

lemma fdiv_unit:
  assumes "finite64 x" "finite64 d" "\<bar>val x\<bar> \<le> \<bar>val d\<bar>" "val d \<noteq> 0"
  shows "finite64 (x / d)" "\<bar>val (x / d)\<bar> \<le> 1"
proof -
  obtain s where s: "x / d = rnd64 s (val x / val d)"
    using fdiv_finite [OF assms(1,2,4)] by blast
  have "\<bar>val x / val d\<bar> \<le> 1"
    using assms(3,4) by (simp add: abs_divide)
  then show "finite64 (x / d)" "\<bar>val (x / d)\<bar> \<le> 1"
    unfolding s by (rule rnd64_bound [OF wf64_1 [of False]])+
qed

text \<open>The product with a value of magnitude at most 1 does not grow.\<close>

lemma fmul_shrink:
  assumes "finite64 x" "finite64 y" "wf64 y" "\<bar>val x\<bar> \<le> 1"
  shows "finite64 (x * y)" "\<bar>val (x * y)\<bar> \<le> \<bar>val y\<bar>"
proof -
  obtain s where s: "x * y = rnd64 s (val x * val y)"
    using fmul_finite [OF assms(1,2)] by blast
  have "\<bar>val x * val y\<bar> \<le> \<bar>val y\<bar>"
    using mult_right_mono [OF assms(4) abs_ge_zero [of "val y"]] by (simp add: abs_mult)
  then show "finite64 (x * y)" "\<bar>val (x * y)\<bar> \<le> \<bar>val y\<bar>"
    unfolding s by (rule rnd64_bound [OF val_abs_wf [OF assms(3,2), of False]])+
qed

lemma hypot_factor:
  assumes "wf64 p" "finite64 p" "wf64 q" "finite64 q" "\<bar>val q\<bar> \<le> val p" "0 < val p"
  defines "r \<equiv> q / p"
  shows "finite64 (fsqrt (Fin False 1 + r * r))" "1 \<le> val (fsqrt (Fin False 1 + r * r))"
    "val (fsqrt (Fin False 1 + r * r)) \<le> 2"
proof -
  have r: "finite64 r" "\<bar>val r\<bar> \<le> 1" "wf64 r"
    using assms fdiv_unit [of q p] by (auto simp: r_def)
  then have rr: "finite64 (r * r)" "\<bar>val (r * r)\<bar> \<le> 1" "wf64 (r * r)"
    using fmul_shrink [of r r] by auto
  obtain s where "r * r = rnd64 s (val r * val r)"
    using fmul_finite [OF r(1) r(1)] by blast
  then have pos: "0 \<le> val (r * r)" by (simp add: rnd64_nonneg)
  let ?t = "Fin False 1 + r * r"
  obtain u where u: "?t = rnd64 u (1 + val (r * r))"
    using fadd_finite [of "Fin False 1" "r * r"] rr by auto
  have "\<bar>1 + val (r * r)\<bar> \<le> 2" using rr(2) pos by linarith
  then have t: "finite64 ?t" "\<bar>val ?t\<bar> \<le> 2"
    unfolding u by (rule rnd64_bound [OF wf64_2 [of False]])+
  moreover have "1 \<le> val ?t"
    using t(1) pos unfolding u by (intro rnd64_ge(1) [OF wf64_1 [of False]]) simp_all
  ultimately have "finite64 (fsqrt ?t) \<and> 1 \<le> val (fsqrt ?t) \<and> val (fsqrt ?t) \<le> 2"
    by (intro fsqrt_unit) (simp_all add: u)
  then show "finite64 (fsqrt ?t)" "1 \<le> val (fsqrt ?t)" "val (fsqrt ?t) \<le> 2" by auto
qed

text \<open>A hypotenuse is not shorter than its legs (it may overflow), and is zero only at the origin.\<close>

definition hyp_of :: "f64 \<Rightarrow> f64 \<Rightarrow> f64 \<Rightarrow> bool" where
  "hyp_of x y h \<longleftrightarrow> wf64 h \<and> (h = Inf False \<or>
     (finite64 h \<and> \<bar>val x\<bar> \<le> val h \<and> \<bar>val y\<bar> \<le> val h \<and> (val h = 0 \<longrightarrow> val x = 0 \<and> val y = 0)))"

lemma fhypot_ordered:
  assumes "wf64 p" "finite64 p" "wf64 q" "finite64 q" "\<bar>val q\<bar> \<le> val p"
  shows "hyp_of p q (if feq p 0 then 0 else p * fsqrt (Fin False 1 + q / p * (q / p)))"
proof (cases "val p = 0")
  case True
  then show ?thesis using assms by (simp add: feq_finite hyp_of_def)
next
  case False
  then have pos: "0 < val p" using assms(5) by linarith
  let ?f = "fsqrt (Fin False 1 + q / p * (q / p))"
  note f = hypot_factor [OF assms pos]
  obtain s where s: "p * ?f = rnd64 s (val p * val ?f)"
    using fmul_finite [OF assms(2) f(1)] by blast
  have "\<bar>val p\<bar> \<le> val p * val ?f" using pos f(2) by simp
  note ge = rnd64_ge [OF val_abs_wf [OF assms(1,2), of False] this, of s, folded s]
  have "hyp_of p q (p * ?f)"
    using ge pos assms(5) by (cases "finite64 (p * ?f)") (auto simp: hyp_of_def s)
  with False show ?thesis using assms by (simp add: feq_finite)
qed

lemma fhypot_hyp_of:
  assumes "wf64 x" "finite64 x" "wf64 y" "finite64 y"
  shows "hyp_of x y (fhypot x y)"
proof -
  let ?p = "\<bar>x\<bar>" and ?q = "\<bar>y\<bar>"
  have fin: "finite64 ?p" "finite64 ?q" "wf64 ?p" "wf64 ?q" "val ?p = \<bar>val x\<bar>" "val ?q = \<bar>val y\<bar>"
    using assms by simp_all
  have notspecial: "?p \<noteq> Inf False" "?q \<noteq> Inf False" "\<not> isNaN ?p" "\<not> isNaN ?q"
    using assms(2,4) by (cases x; cases y; simp add: isNaN_def f64_ops)+
  show ?thesis
  proof (cases "?p < ?q")
    case True
    then have "\<bar>val ?p\<bar> \<le> val ?q" using fin by (simp add: fless_finite)
    from fhypot_ordered [OF fin(4) fin(2) fin(3) fin(1) this]
    have "hyp_of ?q ?p (fhypot x y)" using True notspecial by (simp add: fhypot_def Let_def split: if_splits)
    then show ?thesis using fin by (auto simp: hyp_of_def)
  next
    case False
    then have "\<bar>val ?q\<bar> \<le> val ?p" using fin by (simp add: fless_finite)
    from fhypot_ordered [OF fin(3) fin(1) fin(4) fin(2) this]
    have "hyp_of ?p ?q (fhypot x y)" using False notspecial by (simp add: fhypot_def Let_def split: if_splits)
    then show ?thesis using fin by (auto simp: hyp_of_def)
  qed
qed

section \<open>The bit pattern of a float32 determines it\<close>

lemma wf32_f32_round: "wf64 x \<Longrightarrow> wf32 (f32_round x)"
  by (cases x) (auto simp: Let_def rndq_nonneg rndq_idem)

lemma f32_fields:
  fixes E M :: int and s :: bool
  assumes "0 \<le> E" "E < 256" "0 \<le> M" "M < 2 ^ 23"
  defines "w \<equiv> (of_int (sign_bit s + (E * 2 ^ 23 + M)) :: 32 word)"
  shows "bit w 31 = s" "uint w div 2 ^ 23 mod 256 = E" "uint w mod 2 ^ 23 = M"
proof -
  have u: "uint w = sign_bit s + (E * 2 ^ 23 + M)"
    unfolding w_def uint_word_of_int using assms(1-4)
    by (intro mod_pos_pos_trivial) (auto simp: sign_bit_def)
  have "bit w 31 \<longleftrightarrow> odd (uint w div 2 ^ 31)"
    using bit_uint_iff [of w 31] by (simp add: bit_iff_odd [of "uint w"])
  also have "uint w div 2 ^ 31 = (if s then 1 else 0)"
    using assms(1-4) unfolding u by (auto simp: sign_bit_def)
  finally show "bit w 31 = s" by simp
  have um: "uint w = 2 ^ 23 * ((if s then 256 else 0) + E) + M" by (simp add: u sign_bit_def)
  then have "uint w div 2 ^ 23 = (if s then 256 else 0) + E"
    by (rule int_div_pos_eq) (use assms(1-4) in auto)
  then show "uint w div 2 ^ 23 mod 256 = E" using assms(1-4) by auto
  show "uint w mod 2 ^ 23 = M" by (rule int_mod_pos_eq [OF um]) (use assms(1-4) in auto)
qed

lemma grid_int:
  assumes "rndq p emin q = q" "q \<noteq> 0"
  shows "q = of_int \<lfloor>q / pow2 (grid_exp p emin q)\<rfloor> * pow2 (grid_exp p emin q)"
proof -
  have "q = of_int (rnd_even (q / pow2 (grid_exp p emin q))) * pow2 (grid_exp p emin q)"
    using assms by (simp add: rndq_def Let_def)
  then have "q / pow2 (grid_exp p emin q) = of_int (rnd_even (q / pow2 (grid_exp p emin q)))"
    by (metis nonzero_mult_div_cancel_right pow2_nonzero)
  then show ?thesis
    by (metis floor_of_int nonzero_mult_div_cancel_right pow2_nonzero times_divide_eq_left)
qed

lemma Float32bits_frombits:
  assumes "wf32 x"
  shows "Float32frombits (Float32bits x) = x"
proof (cases x)
  case NaN
  have "Float32frombits (Float32bits NaN) = NaN" by code_simp
  with NaN show ?thesis by simp
next
  case (Inf s)
  then show ?thesis using f32_fields [of 255 0 s] by (simp add: Float32frombits_def)
next
  case (Fin s q)
  show ?thesis
  proof (cases "q = 0")
    case True
    then show ?thesis using f32_fields [of 0 0 s] Fin by (simp add: Float32frombits_def)
  next
    case False
    with assms Fin have q: "0 < q" "rndq 24 (-149) q = q" "\<not> overflows 128 q" by auto
    let ?e = "log2floor q"
    note lb = log2floor_bounds [OF q(1)]
    have e: "?e < 128" using q by (simp add: overflows_def)
    show ?thesis
    proof (cases "?e < -126")
      case True
      let ?m = "\<lfloor>q / pow2 (-149)\<rfloor>"
      have g: "grid_exp 24 (-149) q = -149" using True by (simp add: grid_exp_def)
      have qm: "q = of_int ?m * pow2 (-149)" using grid_int [OF q(2) False] unfolding g .
      have "q < pow2 (-126)" using lb(2) pow2_mono [of "?e + 1" "-126"] True by linarith
      then have "of_int ?m * pow2 (-149) < pow2 23 * pow2 (-149)"
        using qm pow2_add [of 23 "-149"] by simp
      then have "of_int ?m < (of_int (2 ^ 23) :: rat)"
        using pow2_nat [of 23] by (simp only: mult_less_cancel_right_pos pow2_pos) simp
      then have m: "?m < 2 ^ 23" by (simp only: of_int_less_iff)
      have m0: "0 \<le> ?m" using q(1) by simp
      show ?thesis
        using f32_fields [of 0 ?m s] m m0 qm True False Fin by (simp add: Float32frombits_def Let_def)
    next
      case False
      let ?m = "\<lfloor>q / pow2 (?e - 23)\<rfloor>"
      have g: "grid_exp 24 (-149) q = ?e - 23" using False by (simp add: grid_exp_def)
      have qm: "q = of_int ?m * pow2 (?e - 23)" using grid_int [OF q(2)] q(1) unfolding g by simp
      have "pow2 23 * pow2 (?e - 23) \<le> of_int ?m * pow2 (?e - 23)"
        "of_int ?m * pow2 (?e - 23) < pow2 24 * pow2 (?e - 23)"
        using lb qm pow2_add [of 23 "?e - 23"] pow2_add [of 24 "?e - 23"] by (simp_all add: add.commute)
      then have "(of_int (2 ^ 23) :: rat) \<le> of_int ?m" "of_int ?m < (of_int (2 ^ 24) :: rat)"
        using pow2_nat [of 23] pow2_nat [of 24]
        by (simp_all only: mult_less_cancel_right_pos mult_le_cancel_right_pos pow2_pos) simp_all
      then have m: "2 ^ 23 \<le> ?m" "?m < 2 ^ 24" by (simp_all only: of_int_less_iff of_int_le_iff)
      let ?E = "?e + 127" and ?M = "?m - 2 ^ 23"
      have "Float32bits x = of_int (sign_bit s + (?E * 2 ^ 23 + ?M))"
        using False Fin q(1) by (simp add: Let_def algebra_simps)
      moreover have "?E - 150 = ?e - 23" by simp
      ultimately show ?thesis
        using f32_fields [of ?E ?M s] m e False Fin qm
        by (simp only: Float32frombits_def Let_def) auto
    qed
  qed
qed

end
