(* ===== verification/Float_Bounds.thy ===== *)
theory Float_Bounds
  imports Float64
begin

text \<open>
  Interval reasoning over floating-point values: \<open>btw lo hi x\<close> says that \<open>x\<close> is a finite number between
  \<open>lo\<close> and \<open>hi\<close>. Rounding is monotone, so an operation stays between any two floating-point numbers
  between which its exact result lies; \<open>isfloat\<close> is decided by evaluation.
\<close>

definition isfloat :: "rat \<Rightarrow> bool" where
  "isfloat q \<longleftrightarrow> wf64 (Fin False \<bar>q\<bar>)"

definition fin64 :: "f64 \<Rightarrow> bool" where
  "fin64 x \<longleftrightarrow> wf64 x \<and> finite64 x"

definition btw :: "rat \<Rightarrow> rat \<Rightarrow> f64 \<Rightarrow> bool" where
  "btw lo hi x \<longleftrightarrow> fin64 x \<and> lo \<le> val x \<and> val x \<le> hi"

lemma btw_fin [simp, dest]: "btw lo hi x \<Longrightarrow> fin64 x"
  by (simp add: btw_def)

lemma btw_mono: "btw lo hi x \<Longrightarrow> lo' \<le> lo \<Longrightarrow> hi \<le> hi' \<Longrightarrow> btw lo' hi' x"
  by (auto simp: btw_def)

lemma isfloat_val: "fin64 x \<Longrightarrow> isfloat (val x)"
  by (cases x) (auto simp: fin64_def isfloat_def)

lemma isfloat_minus [simp]: "isfloat (- q) = isfloat q"
  by (simp add: isfloat_def)

lemma isfloat_0 [simp]: "isfloat 0"
  by (simp add: isfloat_def overflows_def)

lemma isfloat_small: "\<bar>m\<bar> \<le> 2 ^ 53 \<Longrightarrow> isfloat (of_int m)"
  unfolding isfloat_def by (rule wf64_simple [of _ "\<bar>m\<bar>" 0]) simp_all

lemma isfloat_numeral [simp]: "isfloat 1" "isfloat 2" "isfloat 3" "isfloat 4"
  using isfloat_small [of 1] isfloat_small [of 2] isfloat_small [of 3] isfloat_small [of 4] by simp_all

lemma isfloat_half [simp]: "isfloat (1 / 2)" "isfloat (1 / 4)"
  unfolding isfloat_def
  using wf64_simple [of "1 / 2" 1 "-1" False] wf64_simple [of "1 / 4" 1 "-2" False]
  by (simp_all add: pow2_powi power_int_minus)

section \<open>Rounding\<close>

lemma rnd64_finite_btw:
  assumes "isfloat lo" "isfloat hi" "lo \<le> x" "x \<le> hi"
  shows "finite64 (rnd64 s x)"
proof (cases "0 \<le> x")
  case True
  then show ?thesis using assms by (intro rnd64_bound(1) [of False "\<bar>hi\<bar>"]) (auto simp: isfloat_def)
next
  case False
  then show ?thesis using assms by (intro rnd64_bound(1) [of False "\<bar>lo\<bar>"]) (auto simp: isfloat_def)
qed

lemma rnd64_minus: "finite64 (rnd64 s x) \<Longrightarrow> val (rnd64 t (- x)) = - val (rnd64 s x)"
  by (auto simp: rnd64_def Let_def split: if_splits)

lemma rnd64_upper:
  assumes "isfloat hi" "x \<le> hi" "finite64 (rnd64 s x)"
  shows "val (rnd64 s x) \<le> hi"
proof (cases "0 \<le> hi")
  case True
  show ?thesis
  proof (cases "0 \<le> x")
    case x: True
    then have "\<bar>val (rnd64 s x)\<bar> \<le> \<bar>hi\<bar>"
      using assms True by (intro rnd64_bound(2) [of False]) (auto simp: isfloat_def)
    then show ?thesis using True by simp
  next
    case False
    then show ?thesis using rnd64_nonpos [of x s] True by simp
  qed
next
  case False
  have fin: "finite64 (rnd64 s (- x))"
    using assms(3) by (auto simp: rnd64_finite)
  have "\<bar>hi\<bar> \<le> val (rnd64 s (- x))"
    using assms False by (intro rnd64_ge(1) [of False, OF _ _ fin]) (auto simp: isfloat_def)
  then show ?thesis using rnd64_minus [OF assms(3), of s] False by simp
qed

lemma rnd64_lower:
  assumes "isfloat lo" "lo \<le> x" "finite64 (rnd64 s x)"
  shows "lo \<le> val (rnd64 s x)"
proof -
  have fin: "finite64 (rnd64 s (- x))" using assms(3) by (auto simp: rnd64_finite)
  have "val (rnd64 s (- x)) \<le> - lo" using assms by (intro rnd64_upper [OF _ _ fin]) auto
  then show ?thesis using rnd64_minus [OF assms(3), of s] by simp
qed

lemma rnd64_btw:
  assumes "isfloat lo" "isfloat hi" "lo \<le> x" "x \<le> hi"
  shows "btw lo hi (rnd64 s x)"
  using rnd64_finite_btw [OF assms, of s] rnd64_upper [OF assms(2,4)] rnd64_lower [OF assms(1,3)]
  by (auto simp: btw_def fin64_def)

lemma flit_btw: "isfloat lo \<Longrightarrow> isfloat hi \<Longrightarrow> lo \<le> x \<Longrightarrow> x \<le> hi \<Longrightarrow> btw lo hi (flit x)"
  unfolding flit_def by (rule rnd64_btw)

lemma flit_float: "isfloat q \<Longrightarrow> fin64 (flit q) \<and> val (flit q) = q"
  using flit_btw [of q q q] by (auto simp: btw_def)

section \<open>Operations\<close>

lemma btw_add:
  assumes "btw a b x" "btw c d y" "isfloat lo" "isfloat hi" "lo \<le> a + c" "b + d \<le> hi"
  shows "btw lo hi (x + y)"
proof -
  obtain s where "x + y = rnd64 s (val x + val y)"
    using fadd_finite [of x y] assms(1,2) by (auto simp: btw_def fin64_def)
  moreover have "btw lo hi (rnd64 s (val x + val y))"
    using assms by (intro rnd64_btw) (auto simp: btw_def)
  ultimately show ?thesis by simp
qed

lemma btw_sub:
  assumes "btw a b x" "btw c d y" "isfloat lo" "isfloat hi" "lo \<le> a - d" "b - c \<le> hi"
  shows "btw lo hi (x - y)"
proof -
  obtain s where "x - y = rnd64 s (val x - val y)"
    using fsub_finite [of x y] assms(1,2) by (auto simp: btw_def fin64_def)
  moreover have "btw lo hi (rnd64 s (val x - val y))"
    using assms by (intro rnd64_btw) (auto simp: btw_def)
  ultimately show ?thesis by simp
qed

lemma btw_mul_abs:
  assumes "btw (- a) a x" "btw (- b) b y" "isfloat c" "a * b \<le> c"
  shows "btw (- c) c (x * y)"
proof -
  obtain s where "x * y = rnd64 s (val x * val y)"
    using fmul_finite [of x y] assms(1,2) by (auto simp: btw_def fin64_def)
  moreover have "\<bar>val x\<bar> * \<bar>val y\<bar> \<le> a * b"
    using assms(1,2) by (intro mult_mono) (auto simp: btw_def)
  then have "\<bar>val x * val y\<bar> \<le> c" using assms(4) by (simp add: abs_mult)
  then have "btw (- c) c (rnd64 s (val x * val y))"
    using assms(3) by (intro rnd64_btw) auto
  ultimately show ?thesis by simp
qed

lemma btw_mul_nonneg:
  assumes "btw 0 a x" "btw 0 b y" "isfloat c" "a * b \<le> c"
  shows "btw 0 c (x * y)"
proof -
  obtain s where "x * y = rnd64 s (val x * val y)"
    using fmul_finite [of x y] assms(1,2) by (auto simp: btw_def fin64_def)
  moreover have "val x * val y \<le> a * b" "0 \<le> val x * val y"
    using assms(1,2) by (auto simp: btw_def intro!: mult_mono)
  then have "btw 0 c (rnd64 s (val x * val y))"
    using assms by (intro rnd64_btw) auto
  ultimately show ?thesis by simp
qed

lemma btw_neg: "btw lo hi x \<Longrightarrow> btw (- hi) (- lo) (- x)"
  by (auto simp: btw_def fin64_def)

lemma btw_abs: "btw (- a) a x \<Longrightarrow> btw 0 a \<bar>x\<bar>"
  by (auto simp: btw_def fin64_def)

lemma fin_abs [simp]: "fin64 x \<Longrightarrow> fin64 \<bar>x\<bar>"
  by (simp add: fin64_def)

lemma fin_neg [simp]: "fin64 x \<Longrightarrow> fin64 (- x)"
  by (simp add: fin64_def)

lemma fin_0_btw: "btw 0 0 0"
  by (simp add: btw_def fin64_def)

lemma fin_0 [simp]: "fin64 0"
  by (simp add: fin64_def)

lemma fin_mul: "fin64 x \<Longrightarrow> btw (- 1) 1 y \<Longrightarrow> fin64 (x * y)"
proof -
  assume *: "fin64 x" "btw (- 1) 1 y"
  then have "x * y = y * x" by (cases x; cases y) (auto simp: f64_ops mult.commute fin64_def)
  then show ?thesis using * fmul_shrink(1) [of y x] by (auto simp: btw_def fin64_def)
qed

text \<open>Adding a small number to a finite one does not overflow: the largest float plus 4 rounds back.\<close>

definition max_float :: rat where
  "max_float = of_int (2 ^ 53 - 1) * pow2 971"

lemma pow2_step: "pow2 1024 = of_int (2 ^ 53) * pow2 971" "pow2 1023 = of_int (2 ^ 52) * pow2 971" "4 < pow2 971 / 4"
proof -
  show "pow2 1024 = of_int (2 ^ 53) * pow2 971" "pow2 1023 = of_int (2 ^ 52) * pow2 971"
    using pow2_add [of 53 971] pow2_add [of 52 971] pow2_nat [of 53] pow2_nat [of 52] by simp_all
  have "pow2 4 < pow2 971" by (simp only: pow2_less_iff)
  then show "4 < pow2 971 / 4" using pow2_nat [of 4] by simp
qed

lemma fin_le_max: "fin64 x \<Longrightarrow> \<bar>val x\<bar> \<le> max_float"
proof -
  assume "fin64 x"
  then have "isfloat (val x)" by (rule isfloat_val)
  define q where "q = \<bar>val x\<bar>"
  with \<open>isfloat (val x)\<close> have q: "rndq 53 (-1074) q = q" "q < pow2 1024" "0 \<le> q"
    by (auto simp: isfloat_def overflows_iff)
  show ?thesis
  proof (cases "q < pow2 1023")
    case True
    have "of_int (2 ^ 52) * pow2 971 \<le> of_int (2 ^ 53 - 1) * pow2 971"
      by (intro mult_right_mono) simp_all
    then have "pow2 1023 \<le> max_float" using pow2_step(2) unfolding max_float_def by linarith
    with True show ?thesis unfolding q_def by linarith
  next
    case False
    then have q0: "0 < q" using pow2_pos [of 1023] q(3) by linarith
    have "log2floor q = 1023"
      using False q(2) by (intro log2floor_unique) simp_all
    then have g: "grid_exp 53 (-1074) q = 971" by (simp add: grid_exp_def)
    have m: "q = of_int \<lfloor>q / pow2 971\<rfloor> * pow2 971" using grid_int [OF q(1)] q0 unfolding g by simp
    have "of_int \<lfloor>q / pow2 971\<rfloor> * pow2 971 < of_int (2 ^ 53) * pow2 971"
      using q(2) m pow2_step(1) by linarith
    then have "(of_int \<lfloor>q / pow2 971\<rfloor> :: rat) < of_int (2 ^ 53)"
      using pow2_pos [of 971] by (simp only: mult_less_cancel_right_pos)
    then have "\<lfloor>q / pow2 971\<rfloor> \<le> 2 ^ 53 - 1" unfolding of_int_less_iff by linarith
    then have "(of_int \<lfloor>q / pow2 971\<rfloor> :: rat) \<le> of_int (2 ^ 53 - 1)" by (simp only: of_int_le_iff)
    then have "q \<le> max_float"
      unfolding max_float_def by (subst m) (intro mult_right_mono, simp_all)
    then show ?thesis by (simp add: q_def)
  qed
qed

lemma max_float_round: "rndq 53 (-1074) (max_float + 4) = max_float"
proof -
  let ?z = "max_float + 4"
  have lt: "?z < pow2 1024" and ge: "pow2 1023 \<le> ?z"
  proof -
    have "max_float + pow2 971 = pow2 1024"
      unfolding max_float_def pow2_step(1) by (simp add: algebra_simps)
    then show "?z < pow2 1024" using pow2_step(3) pow2_pos [of 971] by linarith
    have "of_int (2 ^ 52) * pow2 971 \<le> of_int (2 ^ 53 - 1) * pow2 971"
      by (intro mult_right_mono) simp_all
    then show "pow2 1023 \<le> ?z" using pow2_step(2) unfolding max_float_def by linarith
  qed
  have z0: "0 < ?z" using ge pow2_pos [of 1023] by linarith
  have "log2floor ?z = 1023" using lt ge by (intro log2floor_unique) simp_all
  then have g: "grid_exp 53 (-1074) ?z = 971" by (simp add: grid_exp_def)
  have d: "?z / pow2 971 = of_int (2 ^ 53 - 1) + 4 / pow2 971"
    by (simp add: max_float_def add_divide_distrib)
  have e: "0 < 4 / pow2 971" "4 / pow2 971 < 1 / 4"
    using pow2_step(3) pow2_pos [of 971] by (simp_all add: field_simps)
  have fl: "\<lfloor>?z / pow2 971\<rfloor> = 2 ^ 53 - 1"
    unfolding d using e by (intro floor_unique) simp_all
  have "rnd_even (?z / pow2 971) = 2 ^ 53 - 1"
    unfolding rnd_even_def fl Let_def unfolding d using e by simp
  moreover have "?z \<noteq> 0" using z0 by simp
  ultimately have "rndq 53 (-1074) ?z = of_int (2 ^ 53 - 1) * pow2 971"
    by (simp only: rndq_def g Let_def if_False)
  then show ?thesis by (simp only: max_float_def)
qed


lemma fin_add_small:
  assumes "fin64 x" "btw (- 4) 4 y"
  shows "fin64 (x + y)"
proof -
  obtain s where s: "x + y = rnd64 s (val x + val y)"
    using fadd_finite [of x y] assms by (auto simp: btw_def fin64_def)
  have "\<bar>val x + val y\<bar> \<le> max_float + 4"
    using fin_le_max [OF assms(1)] assms(2) by (auto simp: btw_def)
  then have "rndq 53 (-1074) \<bar>val x + val y\<bar> \<le> max_float"
    using rndq_mono [of "\<bar>val x + val y\<bar>" "max_float + 4" 53 "-1074"] max_float_round by simp
  moreover have "max_float < pow2 1024"
    unfolding max_float_def pow2_step(1) by (intro mult_strict_right_mono) simp_all
  ultimately have "finite64 (rnd64 s (val x + val y))"
    by (auto simp: rnd64_finite overflows_iff rndq_nonneg)
  then show ?thesis using s by (simp add: fin64_def)
qed

lemma fsub_add: "x - y = x + (- y)" for x y :: f64
  by (simp add: f64_ops)

lemma fadd_commute: "fin64 x \<Longrightarrow> fin64 y \<Longrightarrow> x + y = y + x"
  by (cases x; cases y) (auto simp: f64_ops fin64_def add.commute conj_commute)

lemma fin_sub_small: "fin64 x \<Longrightarrow> btw (- 4) 4 y \<Longrightarrow> fin64 (x - y) \<and> fin64 (y - x)"
  using fin_add_small [of x "- y"] fin_add_small [of "- x" y] btw_neg [of "- 4" 4 y]
    fadd_commute [of y "- x"] by (auto simp: fsub_add)

section \<open>Comparisons, clamping, truncation, directions\<close>

lemma fle_fin: "fin64 x \<Longrightarrow> fin64 y \<Longrightarrow> x \<le> y \<longleftrightarrow> val x \<le> val y"
  and fless_fin: "fin64 x \<Longrightarrow> fin64 y \<Longrightarrow> x < y \<longleftrightarrow> val x < val y"
  by (simp_all add: fin64_def fle_finite fless_finite)

lemma fin_not_NaN: "fin64 x \<Longrightarrow> \<not> isNaN x"
  by (cases x) (auto simp: fin64_def isNaN_def)

lemma fmin_fin: "fin64 x \<Longrightarrow> fin64 y \<Longrightarrow> fin64 (fmin x y) \<and> val (fmin x y) = min (val x) (val y)"
  using fin_not_NaN [of x] fin_not_NaN [of y] fless_fin [of x y] fless_fin [of y x]
  by (auto simp: fmin_def split: f64.split bool.split)

lemma fmax_fin: "fin64 x \<Longrightarrow> fin64 y \<Longrightarrow> fin64 (fmax x y) \<and> val (fmax x y) = max (val x) (val y)"
  using fin_not_NaN [of x] fin_not_NaN [of y] fless_fin [of x y] fless_fin [of y x]
  by (auto simp: fmax_def split: f64.split bool.split)

lemma fclamp_btw:
  assumes "fin64 c" "0 \<le> val c" "fin64 x"
  shows "btw (- val c) (val c) (fmax (- c) (fmin c x))"
  using assms fmin_fin [of c x] fmax_fin [of "- c" "fmin c x"] by (auto simp: btw_def)

lemma int_of_f64_btw:
  assumes "btw (of_int a) (of_int b) x" "0 \<le> a" "b < 2 ^ 63"
  shows "a \<le> int_of_f64 x" "int_of_f64 x \<le> b"
proof -
  obtain s q where x: "x = Fin s q" using assms(1) by (cases x) (auto simp: btw_def fin64_def)
  let ?v = "val (Fin s q)"
  have v: "of_int a \<le> ?v" "?v \<le> of_int b" using assms(1) x by (auto simp: btw_def)
  then have "0 \<le> ?v" using assms(2) by (metis of_int_0_le_iff order_trans)
  then have t: "trunc_rat ?v = \<lfloor>?v\<rfloor>" by (simp add: trunc_rat_def)
  have f: "a \<le> \<lfloor>?v\<rfloor>" "\<lfloor>?v\<rfloor> \<le> b" using v by (auto simp: le_floor_iff floor_le_iff)
  then have "- (2 ^ 63) \<le> \<lfloor>?v\<rfloor> \<and> \<lfloor>?v\<rfloor> < 2 ^ 63" using assms(2,3) by linarith
  then have "int_of_f64 x = \<lfloor>?v\<rfloor>" unfolding x int_of_f64.simps t Let_def by (simp only: if_True simp_thms)
  then show "a \<le> int_of_f64 x" "int_of_f64 x \<le> b" using f by auto
qed

lemma fdiv_Inf: "fin64 x \<Longrightarrow> btw 0 0 (x / Inf False)"
  by (cases x) (auto simp: f64_ops btw_def fin64_def overflows_def)

text \<open>The components of a direction: a leg divided by the hypotenuse lies in \<open>[-1, 1]\<close>.\<close>

lemma direction_btw:
  assumes "fin64 x" "fin64 y" "\<not> fhypot x y \<le> 0"
  shows "btw (- 1) 1 (x / fhypot x y)" "btw (- 1) 1 (y / fhypot x y)"
proof -
  have h: "hyp_of x y (fhypot x y)" using assms fhypot_hyp_of by (auto simp: fin64_def)
  show "btw (- 1) 1 (x / fhypot x y)" "btw (- 1) 1 (y / fhypot x y)"
  proof (atomize(full), cases "fhypot x y = Inf False")
    case True
    then show "btw (- 1) 1 (x / fhypot x y) \<and> btw (- 1) 1 (y / fhypot x y)"
      using btw_mono [OF fdiv_Inf [OF assms(1)]] btw_mono [OF fdiv_Inf [OF assms(2)]] by simp
  next
    case False
    then have f: "fin64 (fhypot x y)" "\<bar>val x\<bar> \<le> val (fhypot x y)" "\<bar>val y\<bar> \<le> val (fhypot x y)"
      using h by (auto simp: hyp_of_def fin64_def)
    then have "0 < val (fhypot x y)" using assms(3) fle_fin [OF f(1) fin_0] by simp
    then show "btw (- 1) 1 (x / fhypot x y) \<and> btw (- 1) 1 (y / fhypot x y)"
      using fdiv_unit [of x "fhypot x y"] fdiv_unit [of y "fhypot x y"] f assms(1,2)
      by (auto simp: btw_def fin64_def abs_le_iff)
  qed
qed

lemma fhypot_ge_0: "fin64 x \<Longrightarrow> fin64 y \<Longrightarrow> fhypot x y = Inf False \<or> fin64 (fhypot x y) \<and> 0 \<le> val (fhypot x y)"
  using fhypot_hyp_of [of x y] by (auto simp: hyp_of_def fin64_def)

lemma isfloat_dyadic: "\<bar>m\<bar> \<le> 2 ^ 53 \<Longrightarrow> k \<le> 1000 \<Longrightarrow> isfloat (of_int m / 2 ^ k)"
  unfolding isfloat_def
  by (rule wf64_simple [of _ "\<bar>m\<bar>" "- int k"]) (simp_all add: pow2_powi power_int_minus divide_inverse abs_mult)

lemma wf64_fsqrt [simp]: "wf64 x \<Longrightarrow> wf64 (fsqrt x)"
  by (cases x) (simp_all add: overflows_def)

lemma fhypot_ordered_le:
  assumes "fin64 p" "fin64 q" "\<bar>val q\<bar> \<le> val p" "val p \<le> a" "isfloat (2 * a)"
  shows "btw 0 (2 * a) (if feq p 0 then 0 else p * fsqrt (Fin False 1 + q / p * (q / p)))"
proof (cases "val p = 0")
  case True
  then show ?thesis using assms by (auto simp: feq_finite fin64_def btw_def)
next
  case False
  let ?f = "fsqrt (Fin False 1 + q / p * (q / p))"
  have pos: "0 < val p" using False assms(3) by linarith
  have f: "finite64 ?f" "1 \<le> val ?f" "val ?f \<le> 2"
    using hypot_factor [of p q] assms pos by (auto simp: fin64_def)
  have "wf64 ?f"
    using assms(1,2) by (intro wf64_fsqrt wf64_fadd wf64_fmul wf64_fdiv wf64_1) (simp_all add: fin64_def)
  then have "btw 0 2 ?f" using f by (simp add: btw_def fin64_def)
  moreover have "btw 0 a p" using assms pos by (simp add: btw_def)
  ultimately have "btw 0 (2 * a) (p * ?f)" using assms(5) by (intro btw_mul_nonneg [of a _ 2]) auto
  then show ?thesis using False assms(1) by (simp add: feq_finite fin64_def)
qed

lemma fhypot_le:
  assumes "fin64 x" "fin64 y" "\<bar>val x\<bar> \<le> a" "\<bar>val y\<bar> \<le> a" "isfloat (2 * a)"
  shows "btw 0 (2 * a) (fhypot x y)"
proof -
  let ?p = "\<bar>x\<bar>" and ?q = "\<bar>y\<bar>"
  have v: "val ?p = \<bar>val x\<bar>" "val ?q = \<bar>val y\<bar>" using assms(1,2) by (simp_all add: fin64_def)
  have notspecial: "?p \<noteq> Inf False" "?q \<noteq> Inf False" "\<not> isNaN ?p" "\<not> isNaN ?q"
    using assms(1,2) by (cases x; cases y; simp add: isNaN_def f64_ops fin64_def)+
  have less: "?p < ?q \<longleftrightarrow> \<bar>val x\<bar> < \<bar>val y\<bar>" using fless_fin [of ?p ?q] assms(1,2) v by simp
  have "btw 0 (2 * a) (if feq ?q 0 then 0 else ?q * fsqrt (Fin False 1 + ?p / ?q * (?p / ?q)))"
    if "\<bar>val x\<bar> \<le> \<bar>val y\<bar>"
    using that assms v by (intro fhypot_ordered_le) auto
  moreover have "btw 0 (2 * a) (if feq ?p 0 then 0 else ?p * fsqrt (Fin False 1 + ?q / ?p * (?q / ?p)))"
    if "\<bar>val y\<bar> \<le> \<bar>val x\<bar>"
    using that assms v by (intro fhypot_ordered_le) auto
  moreover have "\<bar>val y\<bar> \<le> \<bar>val x\<bar>" if "\<not> ?p < ?q" using that less by linarith
  moreover have "\<bar>val x\<bar> \<le> \<bar>val y\<bar>" if "?p < ?q" using that less by linarith
  ultimately show ?thesis
    using notspecial by (cases "?p < ?q") (simp_all add: fhypot_def Let_def split: if_splits)
qed

text \<open>A square of more than a quarter is visible in a rounded sum of squares.\<close>

lemma square_sum_lower:
  assumes "fin64 x" "fin64 y" "1/2 < \<bar>val x\<bar>" "fin64 c" "val c < 1/4"
  shows "x * x + y * y > c" "y * y + x * x > c"
proof -
  have sq: "\<exists>z. w * w = z \<and> (z = Inf False \<or> fin64 z \<and> 0 \<le> val z \<and> (1/2 < \<bar>val w\<bar> \<longrightarrow> 1/4 \<le> val z))"
    if w: "fin64 w" for w
  proof -
    obtain s where s: "w * w = rnd64 s (val w * val w)" using fmul_finite [of w w] w by (auto simp: fin64_def)
    have "1/4 \<le> val w * val w" if "1/2 < \<bar>val w\<bar>"
      using that mult_mono [of "1/2" "\<bar>val w\<bar>" "1/2" "\<bar>val w\<bar>"] by simp
    then show ?thesis
      unfolding s using rnd64_lower [of "1/4" "val w * val w" s] rnd64_nonneg [of "val w * val w" s]
        rnd64_ge(2) [of False 0 "val w * val w" s]
      by (cases "finite64 (rnd64 s (val w * val w))") (auto simp: fin64_def overflows_def)
  qed
  obtain a where a: "x * x = a" "a = Inf False \<or> fin64 a \<and> 1/4 \<le> val a" using sq [OF assms(1)] assms(3) by auto
  obtain b where b: "y * y = b" "b = Inf False \<or> fin64 b \<and> 0 \<le> val b" using sq [OF assms(2)] by auto
  have c: "c < Inf False" using assms(4) by (cases c) (auto simp: fin64_def f64_ops)
  have sum: "u + v = Inf False \<or> fin64 (u + v) \<and> 1/4 \<le> val (u + v)"
    if u: "fin64 u" and v: "fin64 v" and uv: "1/4 \<le> val u + val v" for u v
  proof -
    obtain s where s: "u + v = rnd64 s (val u + val v)" using fadd_finite [of u v] u v by (auto simp: fin64_def)
    show ?thesis unfolding s using uv rnd64_lower [of "1/4" "val u + val v" s]
      rnd64_ge(2) [of False 0 "val u + val v" s]
      by (cases "finite64 (rnd64 s (val u + val v))") (auto simp: fin64_def overflows_def)
  qed
  have inf: "Inf False + u = Inf False \<and> u + Inf False = Inf False" if "u = Inf False \<or> fin64 u" for u
    using that by (cases u) (auto simp: f64_ops fin64_def)
  have "a + b = Inf False \<or> fin64 (a + b) \<and> 1/4 \<le> val (a + b)"
    using a(2) b(2) sum [of a b] inf [of a] inf [of b] by (elim disjE) simp_all
  moreover have "b + a = Inf False \<or> fin64 (b + a) \<and> 1/4 \<le> val (b + a)"
    using a(2) b(2) sum [of b a] inf [of a] inf [of b] by (elim disjE) simp_all
  moreover have "c < z" if "z = Inf False \<or> fin64 z \<and> 1/4 \<le> val z" for z
    using that c assms(4,5) fless_fin [of c z] by (elim disjE conjE) simp_all
  ultimately show "x * x + y * y > c" "y * y + x * x > c" unfolding a(1) b(1) by blast+
qed

end
