(* ===== verification/Random_Source.thy ===== *)
theory Random_Source
  imports Float_Bounds
begin

text \<open>
  The randomness of the game (\<^verbatim>\<open>RNGSource\<close> in \<^verbatim>\<open>game/state.go\<close>, \<^verbatim>\<open>rngSource\<close> in
  \<^verbatim>\<open>domain/domain.go\<close>): a source is what its successive calls return, \<open>r_float k\<close> for
  \<^verbatim>\<open>Float64()\<close> and \<open>r_int k n\<close> for \<^verbatim>\<open>IntN(n)\<close> as the \<open>k\<close>-th call, and the number of calls made.
  \<open>rng_ok\<close> is what \<^verbatim>\<open>math/rand/v2\<close> documents: \<open>Float64\<close> is in \<open>[0, 1)\<close>, \<open>IntN n\<close> in \<open>[0, n)\<close>.
\<close>

record rng =
  r_float :: "nat \<Rightarrow> f64"
  r_int :: "nat \<Rightarrow> nat \<Rightarrow> nat"
  r_pos :: nat

definition rng_Float64 :: "rng \<Rightarrow> f64 \<times> rng" where
  "rng_Float64 g = (r_float g (r_pos g), g\<lparr>r_pos := Suc (r_pos g)\<rparr>)"

definition rng_IntN :: "nat \<Rightarrow> rng \<Rightarrow> nat \<times> rng" where
  "rng_IntN n g = (r_int g (r_pos g) n, g\<lparr>r_pos := Suc (r_pos g)\<rparr>)"

definition unit_float :: "f64 \<Rightarrow> bool" where
  "unit_float x \<longleftrightarrow> wf64 x \<and> finite64 x \<and> 0 \<le> val x \<and> val x < 1"

definition rng_ok :: "rng \<Rightarrow> bool" where
  "rng_ok g \<longleftrightarrow> (\<forall>k. unit_float (r_float g k)) \<and> (\<forall>k n. 0 < n \<longrightarrow> r_int g k n < n)"

text \<open>The contract a client of a random source relies on, and what follows from it.\<close>

locale random_source =
  fixes float_next :: "'g \<Rightarrow> f64 \<times> 'g"
    and int_next :: "nat \<Rightarrow> 'g \<Rightarrow> nat \<times> 'g"
    and good :: "'g \<Rightarrow> bool"
  assumes float_range: "good g \<Longrightarrow> unit_float (fst (float_next g))"
    and float_good: "good g \<Longrightarrow> good (snd (float_next g))"
    and int_range: "good g \<Longrightarrow> 0 < n \<Longrightarrow> fst (int_next n g) < n"
    and int_good: "good g \<Longrightarrow> good (snd (int_next n g))"
begin

lemma floatE:
  assumes "good g"
  obtains x g' where "float_next g = (x, g')" "unit_float x" "good g'"
  using float_range [OF assms] float_good [OF assms] by (cases "float_next g") auto

lemma intE:
  assumes "good g" "0 < n"
  obtains i g' where "int_next n g = (i, g')" "i < n" "good g'"
  using int_range [OF assms] int_good [OF assms(1), of n] by (cases "int_next n g") auto

end

interpretation rs: random_source rng_Float64 rng_IntN rng_ok
  by unfold_locales (auto simp: rng_Float64_def rng_IntN_def rng_ok_def)

lemma unit_float_btw: "unit_float r \<Longrightarrow> btw 0 1 r"
  by (simp add: unit_float_def btw_def fin64_def)

text \<open>A concrete source, for evaluation: every float is 0 and every integer 0.\<close>

definition zero_rng :: rng where
  "zero_rng = \<lparr>r_float = (\<lambda>_. 0), r_int = (\<lambda>_ _. 0), r_pos = 0\<rparr>"

lemma zero_rng_ok: "rng_ok zero_rng"
  by (simp add: rng_ok_def zero_rng_def unit_float_def)

end
