(* ===== verification/Text.thy ===== *)
theory Text
  imports Prelude
begin

text \<open>
  Go strings as UTF-8: \<^verbatim>\<open>unicode/utf8\<close>, the conversions \<^verbatim>\<open>[]rune(s)\<close> and \<^verbatim>\<open>string(runes)\<close>,
  \<^verbatim>\<open>strings.TrimSpace\<close> and \<^verbatim>\<open>regexp.ReplaceAllString\<close> for a character class.

  \<open>segs s\<close> is the sequence of code points a Go program sees in \<open>s\<close>, each with the bytes it was
  read from. A byte that starts no valid encoding is one segment with the code point U+FFFD, as
  in Go, and keeps its byte when a replacement copies it.
\<close>

section \<open>Decoding and encoding one rune\<close>

definition RuneError :: nat where
  "RuneError = 0xFFFD"

text \<open>The first-byte table: length of the sequence and the range of its second byte.\<close>

definition first_info :: "nat \<Rightarrow> (nat \<times> nat \<times> nat) option" where
  "first_info b =
     (if 0xC2 \<le> b \<and> b \<le> 0xDF then Some (2, 0x80, 0xBF)
      else if b = 0xE0 then Some (3, 0xA0, 0xBF)
      else if b = 0xED then Some (3, 0x80, 0x9F)
      else if 0xE1 \<le> b \<and> b \<le> 0xEF then Some (3, 0x80, 0xBF)
      else if b = 0xF0 then Some (4, 0x90, 0xBF)
      else if 0xF1 \<le> b \<and> b \<le> 0xF3 then Some (4, 0x80, 0xBF)
      else if b = 0xF4 then Some (4, 0x80, 0x8F)
      else None)"

definition cont_byte :: "nat \<Rightarrow> bool" where
  "cont_byte b \<longleftrightarrow> 0x80 \<le> b \<and> b \<le> 0xBF"

definition decode_rune :: "gostring \<Rightarrow> nat \<times> nat" where
  "decode_rune s = (case map unat s of
       [] \<Rightarrow> (RuneError, 0)
     | b0 # rest \<Rightarrow>
         if b0 < 0x80 then (b0, 1)
         else case first_info b0 of
             None \<Rightarrow> (RuneError, 1)
           | Some (n, lo, hi) \<Rightarrow>
               (case rest of
                  b1 # rest1 \<Rightarrow>
                    if \<not> (lo \<le> b1 \<and> b1 \<le> hi) then (RuneError, 1)
                    else if n = 2 then (b0 mod 32 * 64 + b1 mod 64, 2)
                    else (case rest1 of
                        b2 # rest2 \<Rightarrow>
                          if \<not> cont_byte b2 then (RuneError, 1)
                          else if n = 3 then (b0 mod 16 * 4096 + b1 mod 64 * 64 + b2 mod 64, 3)
                          else (case rest2 of
                              b3 # _ \<Rightarrow>
                                if \<not> cont_byte b3 then (RuneError, 1)
                                else (b0 mod 8 * 262144 + b1 mod 64 * 4096 + b2 mod 64 * 64 + b3 mod 64, 4)
                            | [] \<Rightarrow> (RuneError, 1))
                      | [] \<Rightarrow> (RuneError, 1))
                | [] \<Rightarrow> (RuneError, 1)))"

text \<open>Code points that have an encoding: all but the surrogates, up to U+10FFFF.\<close>

definition scalar :: "nat \<Rightarrow> bool" where
  "scalar r \<longleftrightarrow> r < 0xD800 \<or> 0xDFFF < r \<and> r \<le> 0x10FFFF"

definition encode_scalar :: "nat \<Rightarrow> nat list" where
  "encode_scalar r =
     (if r \<le> 0x7F then [r]
      else if r \<le> 0x7FF then [0xC0 + r div 64, 0x80 + r mod 64]
      else if r \<le> 0xFFFF then [0xE0 + r div 4096, 0x80 + r div 64 mod 64, 0x80 + r mod 64]
      else [0xF0 + r div 262144, 0x80 + r div 4096 mod 64, 0x80 + r div 64 mod 64, 0x80 + r mod 64])"

definition encode_rune :: "nat \<Rightarrow> gostring" where
  "encode_rune r = map of_nat (encode_scalar (if scalar r then r else RuneError))"

lemma unat_of_nat_byte: "n < 256 \<Longrightarrow> unat (of_nat n :: byte) = n"
  by (simp add: unat_of_nat)

lemma encode_scalar_bytes: "scalar r \<Longrightarrow> b \<in> set (encode_scalar r) \<Longrightarrow> b < 256"
  by (auto simp: encode_scalar_def scalar_def split: if_splits)

lemma map_unat_encode: "scalar r \<Longrightarrow> map unat (encode_rune r) = encode_scalar r"
  by (auto simp: encode_rune_def intro!: map_idI unat_of_nat_byte encode_scalar_bytes [of r])

lemma length_encode_rune: "length (encode_rune r) \<le> 4" "encode_rune r \<noteq> []"
  by (auto simp: encode_rune_def encode_scalar_def)

lemma lead_mod:
  "x < 32 \<Longrightarrow> (192 + x) mod 32 = (x :: nat)" "x < 16 \<Longrightarrow> (224 + x) mod 16 = x" "x < 8 \<Longrightarrow> (240 + x) mod 8 = x"
  using mod_mult_self2 [of x 32 6] mod_mult_self2 [of x 16 14] mod_mult_self2 [of x 8 30]
  by (simp_all add: add.commute)

lemma cont_mod: "(128 + x mod 64) mod 64 = x mod (64 :: nat)"
  using mod_mult_self2 [of "x mod 64" 64 2] by (simp add: add.commute)

lemma cont_small: "x < 64 \<Longrightarrow> (128 + x) mod 64 = (x :: nat)"
  using cont_mod [of x] by simp

lemma digits64:
  "r div 64 * 64 + r mod 64 = (r :: nat)"
  "r div 4096 * 4096 + r div 64 mod 64 * 64 + r mod 64 = r"
  "r div 262144 * 262144 + r div 4096 mod 64 * 4096 + r div 64 mod 64 * 64 + r mod 64 = r"
proof -
  have d: "r div 4096 = r div 64 div 64" "r div 262144 = r div 64 div 64 div 64"
    by (simp_all flip: div_mult2_eq)
  have e: "q div 64 * 64 + q mod 64 = q" for q :: nat by simp
  show "r div 64 * 64 + r mod 64 = r" by (rule e)
  show two: "r div 4096 * 4096 + r div 64 mod 64 * 64 + r mod 64 = r"
    using e [of r] e [of "r div 64"] unfolding d by linarith
  show "r div 262144 * 262144 + r div 4096 mod 64 * 4096 + r div 64 mod 64 * 64 + r mod 64 = r"
    using two e [of "r div 4096"] unfolding d by linarith
qed

lemma decode_encode:
  assumes "scalar r"
  shows "decode_rune (encode_rune r @ t) = (r, length (encode_rune r))"
proof -
  have len: "length (encode_rune r) = length (encode_scalar r)"
    using map_unat_encode [OF assms] by (metis length_map)
  consider "r \<le> 0x7F" | "0x7F < r" "r \<le> 0x7FF" | "0x7FF < r" "r \<le> 0xFFFF" | "0xFFFF < r"
    by linarith
  then show ?thesis
  proof cases
    case 1
    then show ?thesis
      unfolding decode_rune_def len by (simp add: map_unat_encode [OF assms] encode_scalar_def)
  next
    case 2
    then have a: "r div 64 < 32" "2 \<le> r div 64" by auto
    from 2 a show ?thesis
      unfolding decode_rune_def len
      by (auto simp: map_unat_encode [OF assms] encode_scalar_def first_info_def
          lead_mod cont_mod digits64)
  next
    case 3
    define a b c where "a = r div 4096" and "b = r div 64 mod 64" and "c = r mod 64"
    have r: "r = a * 4096 + b * 64 + c" and small: "a < 16" "b < 64" "c < 64"
      using digits64(2) [of r] 3 by (auto simp: a_def b_def c_def)
    have es: "encode_scalar r = [224 + a, 128 + b, 128 + c]"
      using 3 by (simp add: encode_scalar_def a_def b_def c_def)
    have "a = 0 \<Longrightarrow> 32 \<le> b" "a = 13 \<Longrightarrow> b < 32"
      using 3 assms small r unfolding scalar_def by linarith+
    then have "decode_rune (encode_rune r @ t) = (a * 4096 + b * 64 + c, 3)"
      using small unfolding decode_rune_def map_append map_unat_encode [OF assms] es
      by (auto simp: first_info_def cont_byte_def lead_mod cont_small)
    then show ?thesis using r es len by simp
  next
    case 4
    define a b c d where "a = r div 262144" and "b = r div 4096 mod 64"
      and "c = r div 64 mod 64" and "d = r mod 64"
    have r: "r = a * 262144 + b * 4096 + c * 64 + d"
      and small: "a < 5" "b < 64" "c < 64" "d < 64"
      using digits64(3) [of r] 4 assms by (auto simp: a_def b_def c_def d_def scalar_def)
    have es: "encode_scalar r = [240 + a, 128 + b, 128 + c, 128 + d]"
      using 4 by (simp add: encode_scalar_def a_def b_def c_def d_def)
    have "a = 0 \<Longrightarrow> 16 \<le> b" "a = 4 \<Longrightarrow> b < 16" "a = 4 \<or> a \<le> 3"
      using 4 assms small r unfolding scalar_def by linarith+
    then have "decode_rune (encode_rune r @ t) = (a * 262144 + b * 4096 + c * 64 + d, 4)"
      using small unfolding decode_rune_def map_append map_unat_encode [OF assms] es
      by (auto simp: first_info_def cont_byte_def lead_mod cont_small)
    then show ?thesis using r es len by simp
  qed
qed


lemma undigits64:
  assumes "c < (64 :: nat)" "b < 64" "d < 64"
  shows "(a * 64 + b) div 64 = a" "(a * 64 + b) mod 64 = b"
    "(a * 4096 + b * 64 + c) div 4096 = a" "(a * 4096 + b * 64 + c) div 64 mod 64 = b"
    "(a * 4096 + b * 64 + c) mod 64 = c"
    "(a * 262144 + b * 4096 + c * 64 + d) div 262144 = a"
    "(a * 262144 + b * 4096 + c * 64 + d) div 4096 mod 64 = b"
    "(a * 262144 + b * 4096 + c * 64 + d) div 64 mod 64 = c"
    "(a * 262144 + b * 4096 + c * 64 + d) mod 64 = d"
proof -
  have e: "(q * 64 + x) div 64 = q" "(q * 64 + x) mod 64 = x" if "x < 64" for q x :: nat
    using that by auto
  have three: "a * 4096 + b * 64 + c = (a * 64 + b) * 64 + c" by simp
  have four: "a * 262144 + b * 4096 + c * 64 + d = ((a * 64 + b) * 64 + c) * 64 + d" by simp
  have d: "n div 4096 = n div 64 div 64" "n div 262144 = n div 64 div 64 div 64" for n :: nat
    by (simp_all flip: div_mult2_eq)
  show "(a * 64 + b) div 64 = a" "(a * 64 + b) mod 64 = b"
    "(a * 4096 + b * 64 + c) div 4096 = a" "(a * 4096 + b * 64 + c) div 64 mod 64 = b"
    "(a * 4096 + b * 64 + c) mod 64 = c"
    "(a * 262144 + b * 4096 + c * 64 + d) div 262144 = a"
    "(a * 262144 + b * 4096 + c * 64 + d) div 4096 mod 64 = b"
    "(a * 262144 + b * 4096 + c * 64 + d) div 64 mod 64 = c"
    "(a * 262144 + b * 4096 + c * 64 + d) mod 64 = d"
    unfolding four three d by (simp_all only: e assms)
qed

lemma encode_scalar2:
  assumes "2 \<le> a" "a < 32" "b < 64"
  shows "scalar (a * 64 + b)" "0x80 \<le> a * 64 + b" "encode_scalar (a * 64 + b) = [192 + a, 128 + b]"
  using assms by (auto simp: encode_scalar_def scalar_def undigits64)

lemma encode_scalar3:
  assumes "a < 16" "b < 64" "c < 64" "a = 0 \<Longrightarrow> 32 \<le> b" "a = 13 \<Longrightarrow> b < 32"
  shows "scalar (a * 4096 + b * 64 + c)" "0x80 \<le> a * 4096 + b * 64 + c"
    "encode_scalar (a * 4096 + b * 64 + c) = [224 + a, 128 + b, 128 + c]"
proof -
  have "2048 \<le> a * 4096 + b * 64 + c" using assms by (cases "a = 0") auto
  moreover have "a * 4096 + b * 64 + c \<le> 65535" using assms by linarith
  moreover have "a < 13 \<or> a = 13 \<or> 14 \<le> a" by linarith
  ultimately show "scalar (a * 4096 + b * 64 + c)" "0x80 \<le> a * 4096 + b * 64 + c"
    "encode_scalar (a * 4096 + b * 64 + c) = [224 + a, 128 + b, 128 + c]"
    using assms by (auto simp: encode_scalar_def scalar_def undigits64)
qed

lemma encode_scalar4:
  assumes "a < 5" "b < 64" "c < 64" "d < 64" "a = 0 \<Longrightarrow> 16 \<le> b" "a = 4 \<Longrightarrow> b < 16"
  shows "scalar (a * 262144 + b * 4096 + c * 64 + d)" "0x80 \<le> a * 262144 + b * 4096 + c * 64 + d"
    "encode_scalar (a * 262144 + b * 4096 + c * 64 + d) = [240 + a, 128 + b, 128 + c, 128 + d]"
proof -
  have "65536 \<le> a * 262144 + b * 4096 + c * 64 + d" using assms by (cases "a = 0") auto
  moreover have "a * 262144 + b * 4096 + c * 64 + d \<le> 0x10FFFF"
    using assms by (cases "a = 4") auto
  ultimately show "scalar (a * 262144 + b * 4096 + c * 64 + d)"
    "0x80 \<le> a * 262144 + b * 4096 + c * 64 + d"
    "encode_scalar (a * 262144 + b * 4096 + c * 64 + d) = [240 + a, 128 + b, 128 + c, 128 + d]"
    using assms by (auto simp: encode_scalar_def scalar_def undigits64)
qed

text \<open>What \<open>decode_rune\<close> finds: an ASCII byte, an invalid byte, or the encoding of the rune.\<close>

inductive decodes :: "gostring \<Rightarrow> nat \<Rightarrow> nat \<Rightarrow> bool" where
  ascii: "unat b < 0x80 \<Longrightarrow> decodes (b # t) (unat b) 1"
| invalid: "0x80 \<le> unat b \<Longrightarrow> decodes (b # t) RuneError 1"
| multi: "scalar r \<Longrightarrow> 0x80 \<le> r \<Longrightarrow> decodes (encode_rune r @ t) r (length (encode_rune r))"

lemma decodes_multi:
  assumes "scalar r" "0x80 \<le> r" "map unat s = encode_scalar r" "n = length s"
  shows "decodes (s @ t) r n"
proof -
  have "s = map of_nat (map unat s)" by (simp add: comp_def)
  also have "\<dots> = encode_rune r" using assms(1,3) by (simp add: encode_rune_def)
  finally show ?thesis using assms by (simp add: decodes.multi)
qed

lemma first_info_cases:
  assumes "first_info b0 = Some (n, lo, hi)"
  obtains a where "n = 2" "lo = 128" "hi = 191" "b0 = 192 + a" "2 \<le> a" "a < 32"
  | a where "n = 3" "128 \<le> lo" "hi \<le> 191" "b0 = 224 + a" "a < 16" "a = 0 \<Longrightarrow> lo = 160" "a = 13 \<Longrightarrow> hi = 159"
  | a where "n = 4" "128 \<le> lo" "hi \<le> 191" "b0 = 240 + a" "a < 5" "a = 0 \<Longrightarrow> lo = 144" "a = 4 \<Longrightarrow> hi = 143"
proof -
  consider "b0 < 0xE0" | "0xE0 \<le> b0" "b0 < 0xF0" | "0xF0 \<le> b0" by linarith
  then show ?thesis
  proof cases
    case 1
    with assms show ?thesis
      by (intro that(1) [of "b0 - 192"]) (auto simp: first_info_def split: if_splits)
  next
    case 2
    with assms show ?thesis
      by (intro that(2) [of "b0 - 224"]) (auto simp: first_info_def split: if_splits)
  next
    case 3
    with assms show ?thesis
      by (intro that(3) [of "b0 - 240"]) (auto simp: first_info_def split: if_splits)
  qed
qed

lemma cont_byteE:
  assumes "128 \<le> (x :: nat)" "x \<le> 191"
  obtains y where "x = 128 + y" "y < 64"
  using assms that [of "x - 128"] by auto

lemma decode_rune_decodes:
  assumes "s \<noteq> []"
  shows "decodes s (fst (decode_rune s)) (snd (decode_rune s))"
proof -
  obtain w0 t where s: "s = w0 # t" using assms by (cases s) auto
  let ?goal = "decodes s (fst (decode_rune s)) (snd (decode_rune s))"
  have bad: "decode_rune s = (RuneError, 1) \<Longrightarrow> 0x80 \<le> unat w0 \<Longrightarrow> ?goal"
    using decodes.invalid [of w0 t] by (simp add: s)
  show ?thesis
  proof (cases "unat w0 < 0x80")
    case True
    then show ?thesis using decodes.ascii [of w0 t] by (simp add: s decode_rune_def)
  next
    case high: False
    show ?thesis
    proof (cases "first_info (unat w0)")
      case None
      with high show ?thesis by (intro bad) (auto simp: s decode_rune_def)
    next
      case (Some info)
      then obtain n lo hi where fi: "first_info (unat w0) = Some (n, lo, hi)" by (cases info) auto
      show ?thesis
      proof (cases "snd (decode_rune s) = 1 \<and> fst (decode_rune s) = RuneError")
        case True
        then show ?thesis using high by (intro bad) (auto simp: prod_eq_iff)
      next
        case ok: False
        obtain w1 t1 where t: "t = w1 # t1" and w1: "lo \<le> unat w1" "unat w1 \<le> hi"
          using ok high fi by (cases t) (auto simp: s decode_rune_def split: if_splits)
        from fi show ?thesis
        proof (cases rule: first_info_cases)
          case (1 a)
          obtain b where b: "unat w1 = 128 + b" "b < 64"
            using w1 1 by (auto elim: cont_byteE)
          have "decode_rune s = (a * 64 + b, 2)"
            using high fi w1 1 b by (simp add: s t decode_rune_def lead_mod cont_small)
          moreover have "decodes ([w0, w1] @ t1) (a * 64 + b) 2"
            using 1 b by (intro decodes_multi) (simp_all add: encode_scalar2)
          ultimately show ?thesis by (simp add: s t)
        next
          case (2 a)
          obtain w2 t2 where t1: "t1 = w2 # t2" and w2: "cont_byte (unat w2)"
            using ok high fi w1 2 by (cases t1) (auto simp: s t decode_rune_def split: if_splits)
          obtain b where b: "unat w1 = 128 + b" "b < 64"
            using w1 2 by (meson cont_byteE order_trans)
          obtain c where c: "unat w2 = 128 + c" "c < 64"
            using w2 by (auto simp: cont_byte_def elim: cont_byteE)
          have "decode_rune s = (a * 4096 + b * 64 + c, 3)"
            using high fi w1 2 w2 b c by (simp add: s t t1 decode_rune_def lead_mod cont_small)
          moreover have lim: "a = 0 \<Longrightarrow> 32 \<le> b" "a = 13 \<Longrightarrow> b < 32"
            using 2 b w1 by fastforce+
          have "decodes ([w0, w1, w2] @ t2) (a * 4096 + b * 64 + c) 3"
            using encode_scalar3 [OF \<open>a < 16\<close> b(2) c(2) lim] 2 b c by (intro decodes_multi) auto
          ultimately show ?thesis by (simp add: s t t1)
        next
          case (3 a)
          obtain w2 t2 where t1: "t1 = w2 # t2" and w2: "cont_byte (unat w2)"
            using ok high fi w1 3 by (cases t1) (auto simp: s t decode_rune_def split: if_splits)
          obtain w3 t3 where t2: "t2 = w3 # t3" and w3: "cont_byte (unat w3)"
            using ok high fi w1 w2 3 by (cases t2) (auto simp: s t t1 decode_rune_def split: if_splits)
          obtain b where b: "unat w1 = 128 + b" "b < 64"
            using w1 3 by (meson cont_byteE order_trans)
          obtain c where c: "unat w2 = 128 + c" "c < 64"
            using w2 by (auto simp: cont_byte_def elim: cont_byteE)
          obtain d where d: "unat w3 = 128 + d" "d < 64"
            using w3 by (auto simp: cont_byte_def elim: cont_byteE)
          have "decode_rune s = (a * 262144 + b * 4096 + c * 64 + d, 4)"
            using high fi w1 3 w2 w3 b c d
            by (simp add: s t t1 t2 decode_rune_def lead_mod cont_small)
          moreover have lim: "a = 0 \<Longrightarrow> 16 \<le> b" "a = 4 \<Longrightarrow> b < 16"
            using 3 b w1 by fastforce+
          have "decodes ([w0, w1, w2, w3] @ t3) (a * 262144 + b * 4096 + c * 64 + d) 4"
            using encode_scalar4 [OF \<open>a < 5\<close> b(2) c(2) d(2) lim] 3 b c d by (intro decodes_multi) auto
          ultimately show ?thesis by (simp add: s t t1 t2)
        qed
      qed
    qed
  qed
qed

lemma decode_rune_size:
  "s \<noteq> [] \<Longrightarrow> 0 < snd (decode_rune s) \<and> snd (decode_rune s) \<le> 4"
  using decode_rune_decodes [of s] length_encode_rune by (auto elim!: decodes.cases)

lemma decode_rune_scalar: "s \<noteq> [] \<Longrightarrow> scalar (fst (decode_rune s))"
  using decode_rune_decodes [of s] by (auto elim!: decodes.cases simp: RuneError_def scalar_def)

section \<open>Strings as sequences of runes\<close>

function segs :: "gostring \<Rightarrow> (nat \<times> gostring) list" where
  "segs [] = []"
| "segs (b # bs) = (let d = decode_rune (b # bs)
                    in (fst d, take (snd d) (b # bs)) # segs (drop (snd d) (b # bs)))"
  by pat_completeness auto
termination
  by (relation "measure length") (auto simp: decode_rune_size)

text \<open>\<^verbatim>\<open>[]rune(s)\<close>, \<^verbatim>\<open>string(runes)\<close> and \<^verbatim>\<open>utf8.RuneCountInString\<close>.\<close>

definition runes :: "gostring \<Rightarrow> nat list" where
  "runes s = map fst (segs s)"

definition string_of_runes :: "nat list \<Rightarrow> gostring" where
  "string_of_runes rs = concat (map encode_rune rs)"

definition rune_count :: "gostring \<Rightarrow> nat" where
  "rune_count s = length (segs s)"

text \<open>A string all of whose segments are encodings of their rune.\<close>

definition valid_utf8 :: "gostring \<Rightarrow> bool" where
  "valid_utf8 s \<longleftrightarrow> (\<forall>(r, bs) \<in> set (segs s). bs = encode_rune r)"

text \<open>\<^verbatim>\<open>re.ReplaceAllString(s, "")\<close> for a character class \<open>P\<close>.\<close>

definition del_class :: "(nat \<Rightarrow> bool) \<Rightarrow> gostring \<Rightarrow> gostring" where
  "del_class P s = concat (map snd (filter (\<lambda>(r, bs). \<not> P r) (segs s)))"

text \<open>
  \<^verbatim>\<open>re.ReplaceAllString(s, " ")\<close> for one or more runes of the class \<open>P\<close>; the flag says that the
  rune before was in the class.
\<close>

fun squeeze :: "(nat \<Rightarrow> bool) \<Rightarrow> bool \<Rightarrow> (nat \<times> gostring) list \<Rightarrow> (nat \<times> gostring) list" where
  "squeeze P inrun [] = []"
| "squeeze P inrun ((r, bs) # rest) =
     (if P r then (if inrun then [] else [(0x20, [0x20])]) @ squeeze P True rest
      else (r, bs) # squeeze P False rest)"

definition collapse_class :: "(nat \<Rightarrow> bool) \<Rightarrow> gostring \<Rightarrow> gostring" where
  "collapse_class P s = concat (map snd (squeeze P False (segs s)))"

text \<open>\<^verbatim>\<open>strings.TrimSpace\<close>, with the white space of \<^verbatim>\<open>unicode.IsSpace\<close>.\<close>

definition unicode_space :: "nat \<Rightarrow> bool" where
  "unicode_space r \<longleftrightarrow> 0x09 \<le> r \<and> r \<le> 0x0D \<or> r = 0x20 \<or> r = 0x85 \<or> r = 0xA0 \<or> r = 0x1680
     \<or> 0x2000 \<le> r \<and> r \<le> 0x200A \<or> r = 0x2028 \<or> r = 0x2029 \<or> r = 0x202F \<or> r = 0x205F \<or> r = 0x3000"

definition trim_segs :: "(nat \<times> gostring) list \<Rightarrow> (nat \<times> gostring) list" where
  "trim_segs ss = rev (dropWhile (\<lambda>(r, bs). unicode_space r)
                    (rev (dropWhile (\<lambda>(r, bs). unicode_space r) ss)))"

definition TrimSpace :: "gostring \<Rightarrow> gostring" where
  "TrimSpace s = concat (map snd (trim_segs (segs s)))"

section \<open>Laws\<close>

lemma concat_segs [simp]: "concat (map snd (segs s)) = s"
  by (induction s rule: segs.induct) (simp_all add: Let_def)

inductive seg_ok :: "nat \<times> gostring \<Rightarrow> bool" where
  seg_ascii: "unat b < 0x80 \<Longrightarrow> seg_ok (unat b, [b])"
| seg_invalid: "0x80 \<le> unat b \<Longrightarrow> seg_ok (RuneError, [b])"
| seg_multi: "scalar r \<Longrightarrow> 0x80 \<le> r \<Longrightarrow> seg_ok (r, encode_rune r)"

lemma decodes_seg_ok: "decodes s r n \<Longrightarrow> seg_ok (r, take n s)"
  by (induction rule: decodes.induct) (auto intro: seg_ok.intros)

lemma segs_ok: "x \<in> set (segs s) \<Longrightarrow> seg_ok x"
proof (induction s rule: segs.induct)
  case (2 b bs)
  then show ?case
    using decodes_seg_ok [OF decode_rune_decodes [of "b # bs"]] by (auto simp: Let_def)
qed simp

lemma seg_okD:
  "seg_ok (r, bs) \<Longrightarrow> bs \<noteq> [] \<and> length bs \<le> 4 \<and> scalar r"
  using length_encode_rune [of r]
  by (elim seg_ok.cases) (auto simp: scalar_def RuneError_def simp del: One_nat_def)

text \<open>An ASCII byte of a segment is the whole segment.\<close>

lemma encode_rune_high: "scalar r \<Longrightarrow> 0x80 \<le> r \<Longrightarrow> b \<in> set (encode_rune r) \<Longrightarrow> 0x80 \<le> unat b"
proof -
  assume *: "scalar r" "0x80 \<le> r" "b \<in> set (encode_rune r)"
  then have "unat b \<in> set (encode_scalar r)"
    by (metis image_eqI list.set_map map_unat_encode)
  with * show ?thesis by (auto simp: encode_scalar_def split: if_splits)
qed

lemma seg_ok_ascii:
  assumes "seg_ok (r, bs)" "b \<in> set bs" "unat b < 0x80"
  shows "r = unat b" "bs = [b]"
  using assms encode_rune_high [of r b] by (auto elim!: seg_ok.cases)

lemma encode_rune_ascii: "unat b < 0x80 \<Longrightarrow> encode_rune (unat b) = [b]"
  by (simp add: encode_rune_def encode_scalar_def scalar_def)

lemma segs_concat:
  assumes "\<forall>(r, bs) \<in> set xs. scalar r \<and> bs = encode_rune r"
  shows "segs (concat (map snd xs)) = xs"
  using assms
proof (induction xs)
  case (Cons x xs)
  obtain r where x: "x = (r, encode_rune r)" and r: "scalar r"
    using Cons.prems by (cases x) auto
  let ?rest = "concat (map snd xs)"
  have d: "decode_rune (encode_rune r @ ?rest) = (r, length (encode_rune r))"
    by (rule decode_encode [OF r])
  obtain b bs where eb: "encode_rune r = b # bs"
    using length_encode_rune(2) [of r] by (cases "encode_rune r") auto
  have "segs (encode_rune r @ ?rest) = (r, encode_rune r) # segs ?rest"
    using d by (simp add: eb Let_def)
  then show ?case using Cons x by simp
qed simp

lemma runes_string_of_runes: "\<forall>r \<in> set rs. scalar r \<Longrightarrow> runes (string_of_runes rs) = rs"
proof -
  assume "\<forall>r \<in> set rs. scalar r"
  then have "segs (concat (map snd (map (\<lambda>r. (r, encode_rune r)) rs))) = map (\<lambda>r. (r, encode_rune r)) rs"
    by (intro segs_concat) auto
  then show ?thesis by (simp add: runes_def string_of_runes_def comp_def)
qed

lemma runes_scalar: "r \<in> set (runes s) \<Longrightarrow> scalar r"
  using segs_ok seg_okD by (fastforce simp: runes_def)

lemma valid_segs:
  "valid_utf8 s \<Longrightarrow> x \<in> set (segs s) \<Longrightarrow> scalar (fst x) \<and> snd x = encode_rune (fst x)"
  using segs_ok [of x s] seg_okD [of "fst x" "snd x"] by (auto simp: valid_utf8_def)

text \<open>On valid UTF-8 the segments of a sub-sequence of segments are that sub-sequence.\<close>

lemma segs_sub:
  assumes "valid_utf8 s" "set xs \<subseteq> set (segs s)"
  shows "segs (concat (map snd xs)) = xs"
  using assms valid_segs [OF assms(1)] by (intro segs_concat) fastforce

lemma bytes_of_segs:
  assumes "b \<in> set (concat (map snd xs))" "set xs \<subseteq> set (segs s)"
  shows "b \<in> set s"
proof -
  obtain x where "x \<in> set xs" "b \<in> set (snd x)" using assms(1) by auto
  with assms(2) have "b \<in> set (concat (map snd (segs s)))" by (auto simp del: concat_segs)
  then show ?thesis by (simp only: concat_segs)
qed

lemma length_bytes_of_segs: "\<forall>x \<in> set xs. seg_ok x \<Longrightarrow> length (concat (map snd xs)) \<le> 4 * length xs"
  by (induction xs) (use seg_okD in \<open>fastforce simp: split_def\<close>)+

lemma del_class_ascii:
  assumes "b \<in> set (del_class P s)" "unat b < 0x80"
  shows "b \<in> set s" "\<not> P (unat b)"
proof -
  obtain r bs where x: "(r, bs) \<in> set (segs s)" "\<not> P r" "b \<in> set bs"
    using assms(1) by (auto simp: del_class_def)
  then show "\<not> P (unat b)"
    using seg_ok_ascii(1) [OF segs_ok [OF x(1)] x(3) assms(2)] by simp
  show "b \<in> set s" using bytes_of_segs [of b "[(r, bs)]" s] x by simp
qed


lemma set_squeeze: "set (squeeze P b ss) \<subseteq> insert (0x20, [0x20]) (set ss)"
  by (induction P b ss rule: squeeze.induct) auto

lemma set_trim_segs: "set (trim_segs ss) \<subseteq> set ss"
  by (auto simp: trim_segs_def dest!: set_dropWhileD)

lemma TrimSpace_bytes: "b \<in> set (TrimSpace s) \<Longrightarrow> b \<in> set s"
  unfolding TrimSpace_def by (rule bytes_of_segs [OF _ set_trim_segs])

lemma collapse_class_bytes: "b \<in> set (collapse_class P s) \<Longrightarrow> b = 0x20 \<or> b \<in> set s"
proof -
  assume "b \<in> set (collapse_class P s)"
  then obtain x where x: "x \<in> set (squeeze P False (segs s))" "b \<in> set (snd x)"
    by (auto simp: collapse_class_def)
  then have "x = (0x20, [0x20]) \<or> x \<in> set (segs s)" using set_squeeze by fastforce
  then show ?thesis using x(2) bytes_of_segs [of b "[x]" s] by auto
qed

text \<open>On valid UTF-8 every stage works on the runes: the runes of the result are known.\<close>

lemma valid_concat:
  assumes "\<forall>x \<in> set xs. scalar (fst x) \<and> snd x = encode_rune (fst x)"
  shows "segs (concat (map snd xs)) = xs" "valid_utf8 (concat (map snd xs))"
proof -
  show "segs (concat (map snd xs)) = xs"
    using assms by (intro segs_concat) auto
  then show "valid_utf8 (concat (map snd xs))"
    using assms by (auto simp: valid_utf8_def)
qed

lemma valid_del_class:
  assumes "valid_utf8 s"
  shows "valid_utf8 (del_class P s)" "set (runes (del_class P s)) = {r \<in> set (runes s). \<not> P r}"
proof -
  have *: "\<forall>x \<in> set (filter (\<lambda>(r, bs). \<not> P r) (segs s)). scalar (fst x) \<and> snd x = encode_rune (fst x)"
    using valid_segs [OF assms] by auto
  show "valid_utf8 (del_class P s)"
    unfolding del_class_def by (rule valid_concat(2) [OF *])
  show "set (runes (del_class P s)) = {r \<in> set (runes s). \<not> P r}"
    unfolding del_class_def runes_def valid_concat(1) [OF *] by force
qed

lemma valid_TrimSpace:
  assumes "valid_utf8 s"
  shows "valid_utf8 (TrimSpace s)" "set (runes (TrimSpace s)) \<subseteq> set (runes s)"
proof -
  have *: "\<forall>x \<in> set (trim_segs (segs s)). scalar (fst x) \<and> snd x = encode_rune (fst x)"
    using valid_segs [OF assms] set_trim_segs by blast
  show "valid_utf8 (TrimSpace s)"
    unfolding TrimSpace_def by (rule valid_concat(2) [OF *])
  show "set (runes (TrimSpace s)) \<subseteq> set (runes s)"
    unfolding TrimSpace_def runes_def valid_concat(1) [OF *] using set_trim_segs by fastforce
qed

lemma valid_collapse_class:
  assumes "valid_utf8 s"
  shows "valid_utf8 (collapse_class P s)" "set (runes (collapse_class P s)) \<subseteq> insert 0x20 (set (runes s))"
proof -
  have "scalar 0x20 \<and> [0x20] = encode_rune 0x20"
    by (simp add: scalar_def encode_rune_def encode_scalar_def)
  then have *: "\<forall>x \<in> set (squeeze P False (segs s)). scalar (fst x) \<and> snd x = encode_rune (fst x)"
    using valid_segs [OF assms] set_squeeze [of P False "segs s"] by fastforce
  show "valid_utf8 (collapse_class P s)"
    unfolding collapse_class_def by (rule valid_concat(2) [OF *])
  show "set (runes (collapse_class P s)) \<subseteq> insert 0x20 (set (runes s))"
    unfolding collapse_class_def runes_def valid_concat(1) [OF *] using set_squeeze by fastforce
qed

section \<open>Bytes and runes\<close>

lemma runes_ascii: "\<forall>b \<in> set s. unat b < 0x80 \<Longrightarrow> runes s = map unat s"
proof -
  assume *: "\<forall>b \<in> set s. unat b < 0x80"
  let ?xs = "map (\<lambda>b. (unat b, [b])) s"
  have "segs (concat (map snd ?xs)) = ?xs"
    using * by (intro segs_concat) (auto simp: encode_rune_ascii scalar_def)
  then show ?thesis by (simp add: runes_def comp_def)
qed

text \<open>The ASCII bytes of a string are the ASCII runes of it.\<close>

lemma ascii_byte_rune: "b \<in> set s \<Longrightarrow> unat b < 0x80 \<Longrightarrow> unat b \<in> set (runes s)"
proof -
  assume b: "b \<in> set s" "unat b < 0x80"
  then have "b \<in> set (concat (map snd (segs s)))" by simp
  then obtain r bs where x: "(r, bs) \<in> set (segs s)" "b \<in> set bs" by (auto simp del: concat_segs)
  with seg_ok_ascii(1) [OF segs_ok [OF x(1)] x(2) b(2)] show ?thesis by (force simp: runes_def)
qed

lemma ascii_rune_byte: "r \<in> set (runes s) \<Longrightarrow> r < 0x80 \<Longrightarrow> of_nat r \<in> set s"
proof -
  assume r: "r \<in> set (runes s)" "r < 0x80"
  then obtain bs where x: "(r, bs) \<in> set (segs s)" by (auto simp: runes_def)
  then have "bs = [of_nat r]"
    using r(2) segs_ok [OF x] by (auto elim!: seg_ok.cases simp: RuneError_def)
  then show ?thesis using bytes_of_segs [of "of_nat r" "[(r, bs)]" s] x by simp
qed

lemma string_of_runes_ascii:
  assumes "b \<in> set (string_of_runes rs)" "unat b < 0x80" "\<forall>r \<in> set rs. scalar r"
  shows "unat b \<in> set rs"
proof -
  obtain r where r: "r \<in> set rs" "b \<in> set (encode_rune r)"
    using assms(1) by (auto simp: string_of_runes_def)
  then have "r < 0x80" using encode_rune_high [of r b] assms by force
  then have "encode_rune r = [of_nat r]" using encode_rune_ascii [of "of_nat r"] by (simp add: unat_of_nat_byte)
  then show ?thesis using r \<open>r < 0x80\<close> by (auto simp: unat_of_nat_byte)
qed

lemma length_string_of_runes: "length (string_of_runes rs) \<le> 4 * length rs"
proof (induction rs)
  case (Cons r rs)
  then show ?case using length_encode_rune(1) [of r] by (simp add: string_of_runes_def)
qed (simp add: string_of_runes_def)

lemma length_runes: "length s \<le> 4 * length (runes s)"
  using length_bytes_of_segs [of "segs s"] segs_ok by (auto simp: runes_def)

lemma valid_string_of_runes: "\<forall>r \<in> set rs. scalar r \<Longrightarrow> valid_utf8 (string_of_runes rs)"
  using valid_concat(2) [of "map (\<lambda>r. (r, encode_rune r)) rs"]
  by (simp add: string_of_runes_def comp_def)

end
