(* ===== verification/Domain.thy ===== *)
theory Domain
  imports Random_Source Text
begin

text \<open>
  Package \<^verbatim>\<open>domain\<close> (\<^verbatim>\<open>backend/internal/domain\<close>): the constants of the game rules, RFC 7807
  problem details, room codes and their generator, nicknames and their sanitizer, the state of
  the game objects, of a player and of a game.

  The lemmas show that generated room codes are accepted by the validator, that a sanitized
  nickname is short in runes and in bytes and free of HTML characters, and that for valid UTF-8
  it is free of control and invisible characters as well.
\<close>

section \<open>Constants and errors\<close>

definition MaxScore :: int where "MaxScore = 9999"
definition ReconnectGraceMs :: int where "ReconnectGraceMs = 30000"
definition RestartTimeoutMs :: int where "RestartTimeoutMs = 30000"
definition AutoRestartMs :: int where "AutoRestartMs = 60000"
definition MaxNicknameLen :: nat where "MaxNicknameLen = 12"
definition NicknameCooldownMs :: int where "NicknameCooldownMs = 30000"
definition MessageRateLimit :: int where "MessageRateLimit = 100"
definition MessageWindowMs :: int where "MessageWindowMs = 60000"
definition RoomCodeLen :: nat where "RoomCodeLen = 5"
definition MaxPlayersPerRoom :: int where "MaxPlayersPerRoom = 50"

datatype domain_error =
    ErrDuplicateUser
  | ErrNotFound
  | ErrValidation
  | ErrRoomCodeLen nat
  | ErrRoomCodeChar nat
  | ErrNicknameEmpty

section \<open>Problem details\<close>

record problem_details =
  pd_Type :: string
  pd_Title :: string
  pd_Status :: int
  pd_Detail :: string

text \<open>The decimal digits of \<^verbatim>\<open>%d\<close> for a three-digit status.\<close>

definition digit_char :: "int \<Rightarrow> char" where
  "digit_char d = char_of (48 + nat d)"

definition status_digits :: "int \<Rightarrow> string" where
  "status_digits n = [digit_char (n div 100), digit_char (n div 10 mod 10), digit_char (n mod 10)]"

definition New :: "int \<Rightarrow> string \<Rightarrow> string \<Rightarrow> problem_details" where
  "New status title detail =
     (let (status, title) =
        (if status < 100 \<or> 600 \<le> status then (500, ''Internal Server Error'') else (status, title))
      in \<lparr>pd_Type = ''https://httpstatuses.com/'' @ status_digits status, pd_Title = title,
          pd_Status = status, pd_Detail = detail\<rparr>)"

definition BadRequest :: "string \<Rightarrow> problem_details" where
  "BadRequest detail = New 400 ''Bad Request'' detail"
definition Unauthorized :: "string \<Rightarrow> problem_details" where
  "Unauthorized detail = New 401 ''Unauthorized'' detail"
definition Forbidden :: "string \<Rightarrow> problem_details" where
  "Forbidden detail = New 403 ''Forbidden'' detail"
definition NotFound :: "string \<Rightarrow> problem_details" where
  "NotFound detail = New 404 ''Not Found'' detail"
definition Conflict :: "string \<Rightarrow> problem_details" where
  "Conflict detail = New 409 ''Conflict'' detail"
definition UnprocessableEntity :: "string \<Rightarrow> problem_details" where
  "UnprocessableEntity detail = New 422 ''Unprocessable Entity'' detail"
definition TooManyRequests :: "string \<Rightarrow> problem_details" where
  "TooManyRequests detail = New 429 ''Too Many Requests'' detail"
definition InternalError :: "string \<Rightarrow> problem_details" where
  "InternalError detail = New 500 ''Internal Server Error'' detail"
definition ServiceUnavailable :: "string \<Rightarrow> problem_details" where
  "ServiceUnavailable detail = New 503 ''Service Unavailable'' detail"

section \<open>Room codes\<close>

definition roomAlphabet :: gostring where
  "roomAlphabet = str ''ABCDEFGHJKLMNPQRSTUVWXYZ23456789''"

fun gen_code :: "nat \<Rightarrow> rng \<Rightarrow> gostring \<times> rng" where
  "gen_code 0 g = ([], g)"
| "gen_code (Suc n) g =
     (let (i, g) = rng_IntN (length roomAlphabet) g; (rest, g) = gen_code n g
      in (roomAlphabet ! i # rest, g))"

definition GenerateRoomCode :: "rng \<Rightarrow> gostring \<times> rng" where
  "GenerateRoomCode g = gen_code RoomCodeLen g"

definition room_char_bad :: "nat \<Rightarrow> bool" where
  "room_char_bad c \<longleftrightarrow> (c < 65 \<or> 90 < c) \<and> (c < 50 \<or> 57 < c)"

definition NewRoomCode :: "gostring \<Rightarrow> domain_error + gostring" where
  "NewRoomCode code =
     (if length code \<noteq> 5 then Inl (ErrRoomCodeLen (length code))
      else case find room_char_bad (runes code) of
          Some c \<Rightarrow> Inl (ErrRoomCodeChar c)
        | None \<Rightarrow> Inr code)"

section \<open>Nicknames\<close>

text \<open>The character classes of \<^verbatim>\<open>controlCharsRegex\<close>, \<^verbatim>\<open>invisibleCharsRegex\<close>, \<^verbatim>\<open>htmlCharsRegex\<close>,
  \<^verbatim>\<open>whitespaceRegex\<close> and \<^verbatim>\<open>nicknameInputRejectedRegex\<close>.\<close>

definition controlChar :: "nat \<Rightarrow> bool" where
  "controlChar r \<longleftrightarrow> r \<le> 0x1F \<or> 0x7F \<le> r \<and> r \<le> 0x9F"

definition invisibleChar :: "nat \<Rightarrow> bool" where
  "invisibleChar r \<longleftrightarrow> 0x200B \<le> r \<and> r \<le> 0x200F \<or> r = 0xFEFF \<or> 0x2028 \<le> r \<and> r \<le> 0x202F
     \<or> 0x2060 \<le> r \<and> r \<le> 0x206F"

definition htmlChar :: "nat \<Rightarrow> bool" where
  "htmlChar r \<longleftrightarrow> r = 0x3C \<or> r = 0x3E \<or> r = 0x22 \<or> r = 0x27 \<or> r = 0x60 \<or> r = 0x26"

definition whitespaceChar :: "nat \<Rightarrow> bool" where
  "whitespaceChar r \<longleftrightarrow> r = 9 \<or> r = 10 \<or> r = 12 \<or> r = 13 \<or> r = 32"

definition rejectedChar :: "nat \<Rightarrow> bool" where
  "rejectedChar r \<longleftrightarrow> r \<le> 0x1F \<or> 0x7F \<le> r \<and> r \<le> 0x9F \<or> r = 0x3C \<or> r = 0x3E \<or> r = 0x22
     \<or> r = 0x27 \<or> r = 0x26"

definition NicknameInputRejected :: "gostring \<Rightarrow> bool" where
  "NicknameInputRejected raw \<longleftrightarrow> (\<exists>r \<in> set (runes raw). rejectedChar r)"

definition truncate_runes :: "nat \<Rightarrow> gostring \<Rightarrow> gostring" where
  "truncate_runes n raw = (if n < length (runes raw) then string_of_runes (take n (runes raw)) else raw)"

definition clean_stages :: "gostring \<Rightarrow> gostring" where
  "clean_stages raw =
     (let raw = del_class controlChar raw; raw = del_class invisibleChar raw; raw = TrimSpace raw;
          raw = del_class htmlChar raw; raw = TrimSpace raw
      in collapse_class whitespaceChar raw)"

definition SanitizeNickname :: "gostring \<Rightarrow> gostring" where
  "SanitizeNickname raw = (if raw = [] then [] else truncate_runes MaxNicknameLen (clean_stages raw))"

definition NewNickname :: "gostring \<Rightarrow> (gostring \<Rightarrow> gostring) \<Rightarrow> domain_error + gostring" where
  "NewNickname name v =
     (let rs = runes (v name);
          rs = (if MaxNicknameLen < length rs then take MaxNicknameLen rs else rs)
      in if length rs = 0 then Inl ErrNicknameEmpty else Inr (string_of_runes rs))"

section \<open>Game objects and players\<close>

datatype phase = PhaseWaiting | PhaseCountdown | PhasePlaying | PhaseEnded | PhaseOther gostring

record balloon =
  b_X :: f64
  b_Y :: f64
  b_VX :: f64
  b_VY :: f64
  b_Score :: int

record bird =
  d_X :: f64
  d_Y :: f64
  d_VX :: f64
  d_VY :: f64
  d_Active :: bool
  d_SpawnTimer :: int

record ghost =
  g_X :: f64
  g_Y :: f64
  g_VX :: f64
  g_VY :: f64
  g_Active :: bool
  g_SpawnTimer :: int
  g_RepelTimer :: int

definition Balloon_Validate :: "balloon \<Rightarrow> domain_error option" where
  "Balloon_Validate b =
     (if isNaN (b_X b) \<or> isNaN (b_Y b) \<or> isNaN (b_VX b) \<or> isNaN (b_VY b) then Some ErrValidation
      else if b_Y b < 0 \<or> b_Y b > flit 1 \<or> b_X b < 0 \<or> b_X b > flit 1 then Some ErrValidation
      else None)"

definition Bird_Validate :: "bird \<Rightarrow> domain_error option" where
  "Bird_Validate b =
     (if d_Y b < flit (-1) \<or> d_Y b > flit 2 \<or> d_X b < flit (-1) \<or> d_X b > flit 2
      then Some ErrValidation else None)"

definition Ghost_Validate :: "ghost \<Rightarrow> domain_error option" where
  "Ghost_Validate b =
     (if g_Y b < flit (-1) \<or> g_Y b > flit 2 \<or> g_X b < flit (-1) \<or> g_X b > flit 2
      then Some ErrValidation else None)"

record player =
  p_ID :: gostring
  p_PlayerIndex :: int
  p_Nickname :: gostring
  p_Palette :: int
  p_CooldownEndTime :: int
  p_ScoreContribution :: int
  p_TapsCount :: int
  p_MessageCount :: int
  p_MessageWindowStart :: int
  p_LastNicknameChange :: int
  p_NicknameConfirmed :: bool
  p_Disconnected :: bool
  p_DisconnectedAt :: "int option"

definition CanTap :: "player \<Rightarrow> int \<Rightarrow> bool" where
  "CanTap p now \<longleftrightarrow> now \<ge> p_CooldownEndTime p"

definition RecordTap :: "int \<Rightarrow> int \<Rightarrow> player \<Rightarrow> player" where
  "RecordTap now cooldown p =
     (if p_ScoreContribution p \<ge> MaxScore then p
      else p\<lparr>p_CooldownEndTime := now + cooldown, p_TapsCount := p_TapsCount p + 1,
             p_ScoreContribution := p_ScoreContribution p + 1\<rparr>)"

definition MarkDisconnected :: "int \<Rightarrow> player \<Rightarrow> player" where
  "MarkDisconnected now p = p\<lparr>p_Disconnected := True, p_DisconnectedAt := Some now\<rparr>"

record game_state =
  Phase :: phase
  Balloon :: balloon
  Bird :: bird
  Ghost :: ghost
  Players :: "(gostring \<times> player) list"
  NextPlayerIndex :: int
  TickCount :: int
  StartedAt :: int
  CreatedAt :: int
  SessionID :: gostring
  LobbyCode :: gostring
  Wind :: f64
  WindTarget :: f64
  WindChangeCountdown :: int
  WindMicroCountdown :: int
  WindMidCountdown :: int
  WindMidOffset :: f64
  RestartVotes :: "(gostring \<times> bool) list"
  RestartTimerStart :: "int option"
  RNGSeed :: int

definition IsGameOver :: "game_state \<Rightarrow> bool" where
  "IsGameOver g \<longleftrightarrow> Phase g = PhaseEnded"

section \<open>Session identifiers\<close>

text \<open>\<^verbatim>\<open>UUID\<close> over the 16 bytes that \<^verbatim>\<open>crypto/rand\<close> delivers.\<close>

definition hex_digit :: "nat \<Rightarrow> byte" where
  "hex_digit n = of_nat (if n < 10 then 48 + n else 87 + n)"

definition hex :: "byte list \<Rightarrow> gostring" where
  "hex bs = concat (map (\<lambda>b. [hex_digit (unat b div 16), hex_digit (unat b mod 16)]) bs)"

definition UUID :: "byte list \<Rightarrow> gostring" where
  "UUID b =
     (let b = b[6 := or (and (b ! 6) 0x0f) 0x40]; b = b[8 := or (and (b ! 8) 0x3f) 0x80];
          dash = str ''-''
      in hex (take 4 b) @ dash @ hex (take 2 (drop 4 b)) @ dash @ hex (take 2 (drop 6 b)) @ dash
         @ hex (take 2 (drop 8 b)) @ dash @ hex (take 6 (drop 10 b)))"

section \<open>Properties of nicknames\<close>

lemma truncate_runes_laws:
  shows "runes (truncate_runes n s) = take n (runes s)"
    and "length (truncate_runes n s) \<le> 4 * n"
    and "valid_utf8 s \<Longrightarrow> valid_utf8 (truncate_runes n s)"
proof -
  have sc: "\<forall>r \<in> set (take n (runes s)). scalar r"
    by (auto intro: runes_scalar dest: in_set_takeD)
  show "runes (truncate_runes n s) = take n (runes s)"
    using runes_string_of_runes [OF sc] by (simp add: truncate_runes_def)
  show "length (truncate_runes n s) \<le> 4 * n"
    using length_string_of_runes [of "take n (runes s)"] length_runes [of s]
    by (auto simp: truncate_runes_def)
  show "valid_utf8 s \<Longrightarrow> valid_utf8 (truncate_runes n s)"
    using valid_string_of_runes [OF sc] by (simp add: truncate_runes_def)
qed

lemma truncate_runes_ascii: "b \<in> set (truncate_runes n s) \<Longrightarrow> unat b < 0x80 \<Longrightarrow> b \<in> set s"
proof -
  assume *: "b \<in> set (truncate_runes n s)" "unat b < 0x80"
  then have "unat b \<in> set (runes (truncate_runes n s))" by (rule ascii_byte_rune)
  then have "unat b \<in> set (runes s)" by (auto simp: truncate_runes_laws dest: in_set_takeD)
  then show ?thesis using ascii_rune_byte [of "unat b" s] * by simp
qed

lemma clean_stages_ascii: "b \<in> set (clean_stages s) \<Longrightarrow> unat b < 0x80 \<Longrightarrow> \<not> htmlChar (unat b)"
  unfolding clean_stages_def Let_def
  by (auto simp: htmlChar_def dest!: collapse_class_bytes TrimSpace_bytes dest: del_class_ascii(2))

lemma clean_stages_valid:
  assumes "valid_utf8 s"
  shows "valid_utf8 (clean_stages s)"
    and "set (runes (clean_stages s)) \<subseteq> {r. \<not> controlChar r \<and> \<not> invisibleChar r \<and> \<not> htmlChar r}"
proof -
  define a where "a = del_class controlChar s"
  define b where "b = del_class invisibleChar a"
  define c where "c = del_class htmlChar (TrimSpace b)"
  have v: "valid_utf8 a" "valid_utf8 b" "valid_utf8 (TrimSpace b)" "valid_utf8 c" "valid_utf8 (TrimSpace c)"
    unfolding a_def b_def c_def by (intro valid_del_class valid_TrimSpace assms)+
  have e: "clean_stages s = collapse_class whitespaceChar (TrimSpace c)"
    by (simp add: clean_stages_def a_def b_def c_def)
  show "valid_utf8 (clean_stages s)" unfolding e by (rule valid_collapse_class(1) [OF v(5)])
  have "set (runes (TrimSpace c)) \<subseteq> {r. \<not> controlChar r \<and> \<not> invisibleChar r \<and> \<not> htmlChar r}"
    using valid_TrimSpace(2) [OF v(4)] valid_TrimSpace(2) [OF v(2)]
    unfolding c_def valid_del_class(2) [OF v(3)]
    unfolding b_def valid_del_class(2) [OF v(1)] unfolding a_def valid_del_class(2) [OF assms] by blast
  moreover have "\<not> controlChar 0x20 \<and> \<not> invisibleChar 0x20 \<and> \<not> htmlChar 0x20"
    by (simp add: controlChar_def invisibleChar_def htmlChar_def)
  ultimately show "set (runes (clean_stages s)) \<subseteq> {r. \<not> controlChar r \<and> \<not> invisibleChar r \<and> \<not> htmlChar r}"
    unfolding e using valid_collapse_class(2) [OF v(5), of whitespaceChar] by blast
qed
lemma Sanitize_empty [simp]: "SanitizeNickname [] = []"
  by (simp add: SanitizeNickname_def)

lemma runes_Sanitize: "length (runes (SanitizeNickname s)) \<le> MaxNicknameLen"
  by (cases "s = []") (simp_all add: SanitizeNickname_def truncate_runes_laws, simp add: runes_def)

text \<open>Whatever bytes come in, the sanitized nickname has at most 12 runes and 48 bytes, and
  none of its bytes is one of the HTML characters.\<close>

theorem sanitized_nickname_bounded:
  "length (runes (SanitizeNickname s)) \<le> 12 \<and> length (SanitizeNickname s) \<le> 48
   \<and> list_all (\<lambda>b. \<not> htmlChar (unat b)) (SanitizeNickname s)"
proof -
  have "length (runes (SanitizeNickname s)) \<le> 12"
    using runes_Sanitize [of s] by (simp add: MaxNicknameLen_def)
  moreover have "length (SanitizeNickname s) \<le> 48"
    using truncate_runes_laws(2) [of MaxNicknameLen "clean_stages s"]
    by (auto simp: SanitizeNickname_def MaxNicknameLen_def)
  moreover have "\<not> htmlChar (unat b)" if "b \<in> set (SanitizeNickname s)" for b
    using that truncate_runes_ascii [of b _ "clean_stages s"] clean_stages_ascii [of b s]
    by (cases "unat b < 0x80") (auto simp: SanitizeNickname_def htmlChar_def split: if_splits)
  ultimately show ?thesis by (simp add: list_all_iff)
qed

lemma sanitized_clean:
  assumes "valid_utf8 s"
  shows "valid_utf8 (SanitizeNickname s)"
    and "r \<in> set (runes (SanitizeNickname s)) \<Longrightarrow> \<not> controlChar r \<and> \<not> invisibleChar r \<and> \<not> htmlChar r"
  using clean_stages_valid [OF assms] truncate_runes_laws(3) [of "clean_stages s"] assms
  by (auto simp: SanitizeNickname_def truncate_runes_laws(1) dest!: in_set_takeD split: if_splits)
   (auto simp: runes_def)

text \<open>C27: For input that is valid UTF-8, the sanitized nickname is valid UTF-8 without control,
  invisible or HTML characters.\<close>

theorem sanitized_nickname_clean:
  assumes "valid_utf8 s"
  shows "valid_utf8 (SanitizeNickname s)
    \<and> (\<forall>r. r \<in> set (runes (SanitizeNickname s)) \<longrightarrow> \<not> controlChar r \<and> \<not> invisibleChar r \<and> \<not> htmlChar r)"
  using sanitized_clean [OF assms] by blast

theorem sanitized_nickname_clean_witness:
  "valid_utf8 (str ''<b>Bob'') \<and> valid_utf8 (SanitizeNickname (str ''<b>Bob''))"
proof -
  have "valid_utf8 (str ''<b>Bob'')" by code_simp
  with sanitized_nickname_clean show ?thesis by blast
qed

text \<open>On other input a control character survives: the regular expression reads the stray first
  byte as U+FFFD, and the deletion of the byte after it joins it to a third one.\<close>

lemma sanitized_control_char:
  "runes (SanitizeNickname [0xC2, 0x00, 0x80]) = [0x80] \<and> controlChar 0x80"
  by code_simp

lemma NewNickname_Sanitize:
  "NewNickname s SanitizeNickname =
     (if runes (SanitizeNickname s) = [] then Inl ErrNicknameEmpty
      else Inr (string_of_runes (runes (SanitizeNickname s))))"
  using runes_Sanitize [of s] by (auto simp: NewNickname_def)

section \<open>Properties of room codes\<close>

lemma roomAlphabet_ok:
  "length roomAlphabet = 32"
  "\<forall>b \<in> set roomAlphabet. \<not> room_char_bad (unat b) \<and> unat b < 0x80 \<and> b \<notin> set (str ''01IO'')"
  by code_simp+

lemma gen_code_ok:
  "rng_ok g \<Longrightarrow> length (fst (gen_code n g)) = n \<and> set (fst (gen_code n g)) \<subseteq> set roomAlphabet
     \<and> rng_ok (snd (gen_code n g))"
proof (induction n arbitrary: g)
  case (Suc n)
  obtain i g' where i: "rng_IntN (length roomAlphabet) g = (i, g')" "i < length roomAlphabet" "rng_ok g'"
    by (rule rs.intE [OF Suc.prems, of "length roomAlphabet"]) (auto simp: roomAlphabet_ok)
  show ?case using Suc.IH [OF i(3)] i by (simp add: split_def Let_def)
qed simp

lemma find_None_ball: "find P xs = None \<longleftrightarrow> (\<forall>x \<in> set xs. \<not> P x)"
  by (auto simp: find_None_iff)

lemma room_chars_bytes:
  "(\<forall>r \<in> set (runes s). \<not> room_char_bad r) \<longleftrightarrow> (\<forall>b \<in> set s. \<not> room_char_bad (unat b))"
proof
  assume *: "\<forall>r \<in> set (runes s). \<not> room_char_bad r"
  have "b \<in> set s \<Longrightarrow> \<not> room_char_bad (unat b)" for b
  proof -
    assume "b \<in> set s"
    then have "b \<in> set (concat (map snd (segs s)))" by simp
    then obtain r bs where x: "(r, bs) \<in> set (segs s)" "b \<in> set bs" by (auto simp del: concat_segs)
    then have "\<not> room_char_bad r" using * by (force simp: runes_def)
    moreover from this have "bs = [b] \<and> r = unat b"
      using segs_ok [OF x(1)] x(2) by (auto simp: room_char_bad_def RuneError_def elim!: seg_ok.cases)
    ultimately show ?thesis by simp
  qed
  then show "\<forall>b \<in> set s. \<not> room_char_bad (unat b)" by blast
next
  assume *: "\<forall>b \<in> set s. \<not> room_char_bad (unat b)"
  then have "runes s = map unat s" by (intro runes_ascii) (force simp: room_char_bad_def)
  with * show "\<forall>r \<in> set (runes s). \<not> room_char_bad r" by simp
qed

text \<open>Every room code the generator makes is accepted by the validator as it is, and has none
  of the characters 0, 1, I and O.\<close>

theorem generated_room_code_accepted:
  assumes "rng_ok g"
  shows "NewRoomCode (fst (GenerateRoomCode g)) = Inr (fst (GenerateRoomCode g))
    \<and> set (fst (GenerateRoomCode g)) \<inter> set (str ''01IO'') = {}"
  using gen_code_ok [OF assms, of RoomCodeLen] roomAlphabet_ok(2) room_chars_bytes [of "fst (GenerateRoomCode g)"]
  by (fastforce simp: NewRoomCode_def GenerateRoomCode_def RoomCodeLen_def split: option.splits
       dest: find_None_ball [THEN iffD2])

theorem generated_room_code_accepted_witness:
  "rng_ok zero_rng \<and> NewRoomCode (fst (GenerateRoomCode zero_rng)) = Inr (fst (GenerateRoomCode zero_rng))"
  using generated_room_code_accepted [OF zero_rng_ok] zero_rng_ok by simp

text \<open>The validator accepts exactly the strings of five bytes from A-Z and 2-9. The letters I and
  O, which the generator and the comment on the type leave out, are among them.\<close>

theorem room_code_accepted_iff:
  "NewRoomCode s = Inr t \<longleftrightarrow>
     t = s \<and> length s = 5 \<and> list_all (\<lambda>b. unat b \<in> {65..90} \<union> {50..57}) s"
proof -
  have "(find room_char_bad (runes s) = None) = (\<forall>b \<in> set s. unat b \<in> {65..90} \<union> {50..57})"
    unfolding find_None_ball room_chars_bytes by (auto simp: room_char_bad_def)
  then show ?thesis by (auto simp: NewRoomCode_def list_all_iff split: option.splits)
qed

end
