(* ===== verification/Nicknames.thy ===== *)
theory Nicknames
  imports Domain
begin

text \<open>
  Package \<^verbatim>\<open>nicknames\<close> (\<^verbatim>\<open>backend/internal/nicknames\<close>): the word pools and the generator of random
  nicknames. \<^verbatim>\<open>crypto/rand\<close> is a tape of results, \<open>None\<close> an error of the reader; a set of used
  names (\<^verbatim>\<open>map[string]bool\<close>, with only true entries) is a set of strings.

  The lemmas show that a generated name is short, and that it is unused whenever fewer than 96 names
  are in use, whatever the random source delivers.
\<close>

section \<open>Word pools\<close>

text \<open>The words as code points; the program holds their UTF-8 bytes.\<close>

definition NicknameAdjectives :: "nat list list" where
  "NicknameAdjectives = [
    [0x5FEB, 0x4E50, 0x7684], [0x52C7, 0x6562, 0x7684], [0x795E, 0x79D8, 0x7684],
    [0x806A, 0x660E, 0x7684], [0x5E78, 0x8FD0, 0x7684], [0x98DE, 0x7FD4, 0x7684],
    [0x95EA, 0x8000, 0x7684], [0x654F, 0x6377, 0x7684], [0x6E29, 0x67D4, 0x7684],
    [0x72C2, 0x91CE, 0x7684], [0x4F18, 0x96C5, 0x7684], [0x8C03, 0x76AE, 0x7684],
    [0x51B7, 0x9759, 0x7684], [0x70ED, 0x60C5, 0x7684], [0x6C89, 0x9ED8, 0x7684],
    [0x6D3B, 0x6CFC, 0x7684], [0x673A, 0x667A, 0x7684], [0x61A8, 0x539A, 0x7684],
    [0x7075, 0x5DE7, 0x7684], [0x5A01, 0x6B66, 0x7684], [0x6175, 0x61D2, 0x7684],
    [0x4E13, 0x6CE8, 0x7684], [0x98D8, 0x9038, 0x7684], [0x575A, 0x5B9A, 0x7684],
    [0x597D, 0x5947, 0x7684], [0x60A0, 0x95F2, 0x7684], [0x9738, 0x6C14, 0x7684],
    [0x5446, 0x840C, 0x7684], [0x777F, 0x667A, 0x7684], [0x6F47, 0x6D12, 0x7684],
    [0x987D, 0x5F3A, 0x7684], [0x7480, 0x74A8, 0x7684], [0x6726, 0x80E7, 0x7684],
    [0x70BD, 0x70ED, 0x7684], [0x51B0, 0x51B7, 0x7684], [0x8FC5, 0x6377, 0x7684],
    [0x6C89, 0x7A33, 0x7684], [0x5929, 0x771F, 0x7684], [0x6DF1, 0x6C89, 0x7684],
    [0x4ECE, 0x5BB9, 0x7684], [0x6267, 0x7740, 0x7684], [0x8C6A, 0x8FC8, 0x7684],
    [0x7075, 0x52A8, 0x7684], [0x68A6, 0x5E7B, 0x7684], [0x5BC2, 0x9759, 0x7684],
    [0x5954, 0x653E, 0x7684], [0x7EC6, 0x817B, 0x7684], [0x8C6A, 0x653E, 0x7684],
    [0x6E05, 0x65B0, 0x7684], [0x7EDA, 0x70C2, 0x7684], [0x60A0, 0x7136, 0x7684],
    [0x575A, 0x97E7, 0x7684], [0x5F00, 0x6717, 0x7684], [0x5185, 0x655B, 0x7684],
    [0x6D6A, 0x6F2B, 0x7684], [0x6734, 0x5B9E, 0x7684], [0x534E, 0x4E3D, 0x7684],
    [0x7D20, 0x96C5, 0x7684]]"

definition NicknameAnimals :: "nat list list" where
  "NicknameAnimals = [
    [0x6C14, 0x7403], [0x8001, 0x9E70], [0x6D77, 0x8C5A], [0x72D0, 0x72F8], [0x718A, 0x732B],
    [0x732B, 0x54AA], [0x5C0F, 0x9E7F], [0x98DE, 0x9E1F], [0x9CB8, 0x9C7C], [0x8774, 0x8776],
    [0x677E, 0x9F20], [0x5154, 0x5B50], [0x732B, 0x5934, 0x9E70], [0x4F01, 0x9E45],
    [0x6D77, 0x9F9F], [0x8424, 0x706B, 0x866B], [0x523A, 0x732C], [0x6D77, 0x9E25],
    [0x71D5, 0x5B50], [0x77E5, 0x66F4, 0x9E1F], [0x72EC, 0x89D2, 0x517D], [0x9F99, 0x732B],
    [0x5C0F, 0x718A], [0x6D63, 0x718A], [0x7070, 0x72FC], [0x96EA, 0x8C79]]"

definition NicknameJobs :: "nat list list" where
  "NicknameJobs = [
    [0x63A2, 0x9669, 0x5BB6], [0x98DE, 0x884C, 0x5458], [0x5192, 0x9669, 0x8005],
    [0x68A6, 0x60F3, 0x5BB6], [0x65C5, 0x884C, 0x8005], [0x5B88, 0x62A4, 0x8005],
    [0x8FFD, 0x9010, 0x8005], [0x822A, 0x6D77, 0x5BB6], [0x5DE5, 0x7A0B, 0x5E08],
    [0x827A, 0x672F, 0x5BB6], [0x97F3, 0x4E50, 0x5BB6], [0x8BD7, 0x4EBA], [0x9A91, 0x58EB],
    [0x6E38, 0x4FA0], [0x6CD5, 0x5E08], [0x70BC, 0x91D1, 0x5E08],
    [0x5929, 0x6587, 0x5B66, 0x5BB6], [0x56ED, 0x4E01], [0x9762, 0x5305, 0x5E08],
    [0x949F, 0x8868, 0x5320], [0x6444, 0x5F71, 0x5E08], [0x6536, 0x85CF, 0x5BB6],
    [0x5EFA, 0x7B51, 0x5E08], [0x5DE5, 0x5320], [0x730E, 0x4EBA], [0x5B66, 0x8005]]"

definition NicknameNature :: "nat list list" where
  "NicknameNature = [
    [0x661F, 0x8FB0], [0x6708, 0x5149], [0x5FAE, 0x98CE], [0x6668, 0x9732], [0x665A, 0x971E],
    [0x5F69, 0x8679], [0x96EA, 0x82B1], [0x9633, 0x5149], [0x4E91, 0x6735], [0x6D77, 0x6D6A],
    [0x5C71, 0x5CE6], [0x68EE, 0x6797], [0x6EAA, 0x6D41], [0x82B1, 0x6735], [0x843D, 0x53F6],
    [0x6D41, 0x661F], [0x6781, 0x5149], [0x6625, 0x96E8], [0x590F, 0x65E5], [0x79CB, 0x98CE],
    [0x51AC, 0x96EA], [0x671D, 0x96FE], [0x661F, 0x7A7A], [0x94F6, 0x6CB3], [0x6F6E, 0x6C50],
    [0x6668, 0x66E6]]"

definition NicknameScifi :: "nat list list" where
  "NicknameScifi = [
    [0x91CF, 0x5B50], [0x5149, 0x5B50], [0x661F, 0x8230], [0x866B, 0x6D1E], [0x661F, 0x4E91],
    [0x9ED1, 0x6D1E], [0x5F57, 0x661F], [0x536B, 0x661F], [0x53CD, 0x5E94, 0x5806],
    [0x5F15, 0x64CE], [0x82AF, 0x7247], [0x4EE3, 0x7801], [0x50CF, 0x7D20], [0x6570, 0x636E],
    [0x4FE1, 0x53F7], [0x9891, 0x6BB5], [0x8F68, 0x9053], [0x7A7A, 0x95F4, 0x7AD9],
    [0x4F20, 0x9001, 0x95E8], [0x529B, 0x573A], [0x6FC0, 0x5149], [0x7B49, 0x79BB, 0x5B50],
    [0x4E2D, 0x5B50], [0x8D85, 0x65B0, 0x661F], [0x9668, 0x77F3], [0x661F, 0x5C18]]"


definition NicknameCategories :: "nat list list list" where
  "NicknameCategories = [NicknameAnimals, NicknameJobs, NicknameNature, NicknameScifi]"

section \<open>The generator\<close>

record crand =
  cr_int :: "nat \<Rightarrow> nat \<Rightarrow> nat option"
  cr_pos :: nat

text \<open>\<^verbatim>\<open>rand.Int(reader, n)\<close> is documented to be in \<open>[0, n)\<close>.\<close>

definition crand_ok :: "crand \<Rightarrow> bool" where
  "crand_ok g \<longleftrightarrow> (\<forall>k n i. 0 < n \<and> cr_int g k n = Some i \<longrightarrow> i < n)"

definition randomIndex :: "nat \<Rightarrow> crand \<Rightarrow> nat \<times> crand" where
  "randomIndex n g =
     (if n \<le> 0 then (0, g)
      else (case cr_int g (cr_pos g) n of None \<Rightarrow> 0 | Some r \<Rightarrow> r, g\<lparr>cr_pos := Suc (cr_pos g)\<rparr>))"

definition pickRandomCombo :: "crand \<Rightarrow> gostring \<times> crand" where
  "pickRandomCombo g =
     (let (i, g) = randomIndex (length NicknameAdjectives) g; adj = NicknameAdjectives ! i;
          (j, g) = randomIndex (length NicknameCategories) g; cat = NicknameCategories ! j;
          (k, g) = randomIndex (length cat) g; noun = cat ! k
      in (string_of_runes adj @ string_of_runes noun, g))"

text \<open>\<^verbatim>\<open>strconv.Itoa\<close> on the numbers that occur, none of them negative.\<close>

definition digit :: "nat \<Rightarrow> byte" where
  "digit d = of_nat (48 + d)"

fun Itoa :: "nat \<Rightarrow> gostring" where
  "Itoa n = (if n < 10 then [digit n] else Itoa (n div 10) @ [digit (n mod 10)])"

declare Itoa.simps [simp del]

definition maxSuffixAttempts :: nat where
  "maxSuffixAttempts = 98"

fun combo_loop :: "nat \<Rightarrow> gostring set \<Rightarrow> crand \<Rightarrow> gostring option \<times> crand" where
  "combo_loop 0 used g = (None, g)"
| "combo_loop (Suc n) used g =
     (let (candidate, g) = pickRandomCombo g
      in if candidate \<notin> used then (Some candidate, g) else combo_loop n used g)"

definition suffixed :: "gostring \<Rightarrow> nat \<Rightarrow> gostring" where
  "suffixed base i = base @ str ''#'' @ Itoa i"

definition suffix_loop :: "gostring \<Rightarrow> gostring set \<Rightarrow> gostring option" where
  "suffix_loop base used = find (\<lambda>c. rune_count c \<le> MaxNicknameLen \<and> c \<notin> used)
     (map (suffixed base) [2..<maxSuffixAttempts])"

definition numbered_player :: "crand \<Rightarrow> gostring \<times> crand" where
  "numbered_player g = (let (i, g) = randomIndex 10000 g in (str ''Player'' @ Itoa i, g))"

fun player_loop :: "nat \<Rightarrow> gostring set \<Rightarrow> crand \<Rightarrow> gostring option \<times> crand" where
  "player_loop 0 used g = (None, g)"
| "player_loop (Suc n) used g =
     (let (candidate, g) = numbered_player g
      in if candidate \<notin> used then (Some candidate, g) else player_loop n used g)"

definition GenerateRandom :: "gostring set \<Rightarrow> crand \<Rightarrow> gostring \<times> crand" where
  "GenerateRandom used g =
     (case combo_loop 10 used g of
        (Some c, g) \<Rightarrow> (c, g)
      | (None, g) \<Rightarrow>
          let (baseName, g) = pickRandomCombo g
          in case suffix_loop baseName used of
               Some c \<Rightarrow> (c, g)
             | None \<Rightarrow>
                 (case player_loop maxSuffixAttempts used g of
                    (Some c, g) \<Rightarrow> (c, g)
                  | (None, g) \<Rightarrow> numbered_player g))"

section \<open>Generated names are short\<close>

text \<open>A rune that the sanitizer leaves alone wherever it stands.\<close>

definition plain_rune :: "nat \<Rightarrow> bool" where
  "plain_rune r \<longleftrightarrow> scalar r \<and> \<not> controlChar r \<and> \<not> invisibleChar r \<and> \<not> htmlChar r \<and> \<not> whitespaceChar r
     \<and> \<not> unicode_space r"

lemma pools_ok:
  "list_all (\<lambda>w. length w \<le> 3 \<and> list_all plain_rune w) NicknameAdjectives"
  "list_all (\<lambda>c. c \<noteq> [] \<and> list_all (\<lambda>w. length w \<le> 4 \<and> list_all plain_rune w) c) NicknameCategories"
  "NicknameAdjectives \<noteq> []" "NicknameCategories \<noteq> []"
  by code_simp+

lemma randomIndex_less:
  assumes "crand_ok g" "0 < n"
  shows "fst (randomIndex n g) < n" "crand_ok (snd (randomIndex n g))"
  using assms by (auto simp: randomIndex_def crand_ok_def split: option.splits)

lemma randomIndex_cases:
  assumes "crand_ok g" "0 < n"
  obtains i g' where "randomIndex n g = (i, g')" "i < n" "crand_ok g'"
  using randomIndex_less [OF assms] by (cases "randomIndex n g") auto

definition short_name :: "nat \<Rightarrow> gostring \<Rightarrow> bool" where
  "short_name n s \<longleftrightarrow> (\<exists>rs. s = string_of_runes rs \<and> length rs \<le> n \<and> list_all plain_rune rs)"

lemma segs_string_of_runes:
  "\<forall>r \<in> set rs. scalar r \<Longrightarrow> segs (string_of_runes rs) = map (\<lambda>r. (r, encode_rune r)) rs"
  using segs_concat [of "map (\<lambda>r. (r, encode_rune r)) rs"] by (simp add: string_of_runes_def comp_def split_def)

lemma short_name_laws:
  assumes "short_name n s"
  shows "length (runes s) \<le> n" "length s \<le> 4 * n" "valid_utf8 s"
proof -
  obtain rs where rs: "s = string_of_runes rs" "length rs \<le> n" "\<forall>r \<in> set rs. scalar r"
    using assms by (auto simp: short_name_def list_all_iff plain_rune_def)
  show "length (runes s) \<le> n" using rs runes_string_of_runes [OF rs(3)] by simp
  show "length s \<le> 4 * n" using rs length_string_of_runes [of rs] by simp
  show "valid_utf8 s" using rs valid_string_of_runes [OF rs(3)] by simp
qed

lemma squeeze_plain: "\<forall>x \<in> set ss. \<not> P (fst x) \<Longrightarrow> squeeze P b ss = ss"
  by (induction P b ss rule: squeeze.induct) auto

lemma dropWhile_none: "\<forall>x \<in> set xs. \<not> P x \<Longrightarrow> dropWhile P xs = xs"
  by (cases xs) auto

text \<open>The sanitizer leaves a short plain name as it is.\<close>

lemma Sanitize_short_name:
  assumes "short_name 12 s"
  shows "SanitizeNickname s = s"
proof -
  obtain rs where rs: "s = string_of_runes rs" "length rs \<le> 12" "list_all plain_rune rs"
    using assms by (auto simp: short_name_def)
  have sc: "\<forall>r \<in> set rs. scalar r" using rs(3) by (auto simp: list_all_iff plain_rune_def)
  let ?ss = "map (\<lambda>r. (r, encode_rune r)) rs"
  have seg: "segs s = ?ss" using segs_string_of_runes [OF sc] rs(1) by simp
  have s: "concat (map snd ?ss) = s" using rs(1) by (simp add: string_of_runes_def comp_def)
  have pl: "\<forall>x \<in> set ?ss. plain_rune (fst x)" using rs(3) by (auto simp: list_all_iff)
  have del: "del_class P s = s" if "\<And>r. plain_rune r \<Longrightarrow> \<not> P r" for P
  proof -
    have "filter (\<lambda>(r, bs). \<not> P r) ?ss = ?ss" using pl that by (auto simp: filter_id_conv)
    then show ?thesis using s by (simp only: del_class_def seg)
  qed
  have "trim_segs ?ss = ?ss"
    using pl by (simp add: trim_segs_def dropWhile_none plain_rune_def split_def)
  then have trim: "TrimSpace s = s" using s by (simp only: TrimSpace_def seg)
  have "squeeze whitespaceChar False ?ss = ?ss" using pl by (intro squeeze_plain) (simp add: plain_rune_def)
  then have col: "collapse_class whitespaceChar s = s" using s by (simp only: collapse_class_def seg)
  have "del_class controlChar s = s" "del_class invisibleChar s = s" "del_class htmlChar s = s"
    by (rule del, simp add: plain_rune_def)+
  then have "clean_stages s = s" by (simp add: clean_stages_def trim col)
  moreover have "length (runes s) \<le> 12" using short_name_laws(1) [OF assms] .
  ultimately show ?thesis by (simp add: SanitizeNickname_def truncate_runes_def MaxNicknameLen_def)
qed

lemma short_name_append: "short_name m s \<Longrightarrow> short_name n t \<Longrightarrow> short_name (m + n) (s @ t)"
proof -
  assume "short_name m s" "short_name n t"
  then obtain a b where "s = string_of_runes a" "length a \<le> m" "list_all plain_rune a"
    "t = string_of_runes b" "length b \<le> n" "list_all plain_rune b" by (auto simp: short_name_def)
  then show ?thesis by (auto simp: short_name_def string_of_runes_def intro!: exI [of _ "a @ b"])
qed

lemma short_name_mono: "short_name m s \<Longrightarrow> m \<le> n \<Longrightarrow> short_name n s"
  unfolding short_name_def using le_trans by blast

lemma short_name_runes: "length w \<le> n \<Longrightarrow> list_all plain_rune w \<Longrightarrow> short_name n (string_of_runes w)"
  by (auto simp: short_name_def)

definition plain_byte :: "byte \<Rightarrow> bool" where
  "plain_byte b \<longleftrightarrow> unat b < 0x80 \<and> plain_rune (unat b)"

lemma short_name_ascii:
  assumes "list_all plain_byte s"
  shows "short_name (length s) s"
proof -
  have "string_of_runes (map unat s) = s"
    using assms by (induction s) (auto simp: string_of_runes_def encode_rune_ascii plain_byte_def)
  moreover have "list_all plain_rune (map unat s)" using assms by (auto simp: list_all_iff plain_byte_def)
  ultimately show ?thesis using short_name_runes [of "map unat s" "length s"] by simp
qed

lemma pickRandomCombo_ok:
  assumes "crand_ok g"
  shows "short_name 7 (fst (pickRandomCombo g))" "crand_ok (snd (pickRandomCombo g))"
proof -
  obtain i g1 where i: "randomIndex (length NicknameAdjectives) g = (i, g1)" "i < length NicknameAdjectives" "crand_ok g1"
    using randomIndex_cases [OF assms] pools_ok(3) by blast
  obtain j g2 where j: "randomIndex (length NicknameCategories) g1 = (j, g2)" "j < length NicknameCategories" "crand_ok g2"
    using randomIndex_cases [OF i(3)] pools_ok(4) by blast
  have c: "NicknameCategories ! j \<noteq> []" "list_all (\<lambda>w. length w \<le> 4 \<and> list_all plain_rune w) (NicknameCategories ! j)"
    using pools_ok(2) j(2) by (auto simp: list_all_length)
  obtain k g3 where k: "randomIndex (length (NicknameCategories ! j)) g2 = (k, g3)"
    "k < length (NicknameCategories ! j)" "crand_ok g3"
    using randomIndex_cases [OF j(3)] c(1) by blast
  have a: "short_name 3 (string_of_runes (NicknameAdjectives ! i))"
    using pools_ok(1) i(2) by (intro short_name_runes) (simp_all add: list_all_length)
  have b: "short_name 4 (string_of_runes (NicknameCategories ! j ! k))"
    using c(2) k(2) by (intro short_name_runes) (simp_all add: list_all_length)
  show "short_name 7 (fst (pickRandomCombo g))" "crand_ok (snd (pickRandomCombo g))"
    using short_name_append [OF a b] i(1) j(1) k by (simp_all add: pickRandomCombo_def)
qed

lemma combo_loop_ok:
  assumes "crand_ok g"
  shows "(case fst (combo_loop n used g) of None \<Rightarrow> True | Some c \<Rightarrow> c \<notin> used \<and> short_name 7 c)
    \<and> crand_ok (snd (combo_loop n used g))"
  using assms
proof (induction n arbitrary: g)
  case (Suc n)
  show ?case using Suc pickRandomCombo_ok [OF Suc.prems] by (cases "pickRandomCombo g") auto
qed simp

lemma unat_digit: "d < 10 \<Longrightarrow> unat (digit d) = 48 + d"
  unfolding digit_def by (subst unat_of_nat_byte) auto

lemma plain_digit: "d < 10 \<Longrightarrow> plain_byte (digit d)"
  by (simp add: plain_byte_def unat_digit plain_rune_def scalar_def controlChar_def invisibleChar_def htmlChar_def
      whitespaceChar_def unicode_space_def)

lemma Itoa_plain: "list_all plain_byte (Itoa n)"
proof (induction n rule: Itoa.induct)
  case (1 n)
  then show ?case
    by (cases "n < 10") (auto simp: Itoa.simps [of n] plain_digit)
qed

lemma length_Itoa: "n < 10 ^ k \<Longrightarrow> 0 < k \<Longrightarrow> length (Itoa n) \<le> k"
proof (induction n arbitrary: k rule: Itoa.induct)
  case (1 n)
  show ?case
  proof (cases "n < 10")
    case False
    then obtain j where j: "k = Suc j" "0 < j" using "1.prems" by (cases k; cases "k - 1") auto
    have "n div 10 < 10 ^ j" using "1.prems" j by (auto simp: less_mult_imp_div_less)
    then show ?thesis using "1.IH" [OF False, of j] j False by (simp add: Itoa.simps [of n])
  qed (use "1.prems" in \<open>simp add: Itoa.simps [of n]\<close>)
qed

lemma short_Itoa: "n < 10 ^ k \<Longrightarrow> 0 < k \<Longrightarrow> short_name k (Itoa n)"
  by (rule short_name_mono [OF short_name_ascii length_Itoa]) (rule Itoa_plain)

lemma str_lengths:
  "length (str ''#'') = 1" "length (str ''Player'') = 6" "list_all plain_byte (str ''#Player'')"
  by code_simp+

lemma short_str:
  "short_name 1 (str ''#'')" "short_name 6 (str ''Player'')"
  using short_name_ascii [of "str ''#''", unfolded str_lengths] str_lengths(3)
    short_name_ascii [of "str ''Player''", unfolded str_lengths] by (simp_all add: str_def)

lemma short_suffixed: "short_name 7 base \<Longrightarrow> i < 100 \<Longrightarrow> short_name 10 (suffixed base i)"
  using short_name_append [OF _ short_name_append [OF short_str(1) short_Itoa [of i 2]], of 7 base]
  by (simp add: suffixed_def)

lemma numbered_player_ok:
  assumes "crand_ok g"
  shows "short_name 10 (fst (numbered_player g))" "crand_ok (snd (numbered_player g))"
proof -
  obtain i g' where i: "randomIndex 10000 g = (i, g')" "i < 10000" "crand_ok g'"
    by (rule randomIndex_cases [OF assms, of 10000]) auto
  show "short_name 10 (fst (numbered_player g))" "crand_ok (snd (numbered_player g))"
    using short_name_append [OF short_str(2) short_Itoa [of i 4]] i by (simp_all add: numbered_player_def)
qed

lemma player_loop_ok:
  assumes "crand_ok g"
  shows "(case fst (player_loop n used g) of None \<Rightarrow> True | Some c \<Rightarrow> c \<notin> used \<and> short_name 10 c)
    \<and> crand_ok (snd (player_loop n used g))"
  using assms
proof (induction n arbitrary: g)
  case (Suc n)
  show ?case using Suc numbered_player_ok [OF Suc.prems] by (cases "numbered_player g") auto
qed simp

lemma suffix_loop_ok:
  assumes "short_name 7 base" "suffix_loop base used = Some c"
  shows "short_name 10 c" "c \<notin> used"
proof -
  have c: "c \<in> set (map (suffixed base) [2..<maxSuffixAttempts])" "c \<notin> used"
    using assms(2) by (auto simp: suffix_loop_def find_Some_iff)
  then obtain i where "i < 98" "c = suffixed base i"
    by (auto simp: maxSuffixAttempts_def simp del: upt_rec_numeral)
  with c(2) show "short_name 10 c" "c \<notin> used" using short_suffixed [OF assms(1), of i] by auto
qed

lemma GenerateRandom_short:
  assumes "crand_ok g"
  shows "short_name 10 (fst (GenerateRandom used g))" "crand_ok (snd (GenerateRandom used g))"
proof -
  obtain r g1 where r: "combo_loop 10 used g = (r, g1)" by (cases "combo_loop 10 used g") auto
  obtain base g2 where b: "pickRandomCombo g1 = (base, g2)" by (cases "pickRandomCombo g1") auto
  obtain q g3 where q: "player_loop maxSuffixAttempts used g2 = (q, g3)"
    by (cases "player_loop maxSuffixAttempts used g2") auto
  note 1 = combo_loop_ok [OF assms, where n = 10 and used = used, unfolded r, simplified]
  note 2 = pickRandomCombo_ok [of g1, unfolded b, simplified]
  note 3 = player_loop_ok [of g2, where n = maxSuffixAttempts and used = used, unfolded q, simplified]
  note 4 = numbered_player_ok [of g3]
  have "short_name 10 (fst (GenerateRandom used g)) \<and> crand_ok (snd (GenerateRandom used g))"
    using 1 2 3 4 r b q suffix_loop_ok [of base used] short_name_mono [of 7 _ 10]
    by (auto simp: GenerateRandom_def split: option.splits prod.splits)
  then show "short_name 10 (fst (GenerateRandom used g))" "crand_ok (snd (GenerateRandom used g))" by auto
qed

section \<open>Generated names are unused\<close>

text \<open>The number a decimal numeral stands for.\<close>

definition num_of :: "gostring \<Rightarrow> nat" where
  "num_of s = foldl (\<lambda>n b. n * 10 + (unat b - 48)) 0 s"

lemma num_of_Itoa: "num_of (Itoa n) = n"
proof (induction n rule: Itoa.induct)
  case (1 n)
  then show ?case
    by (cases "n < 10") (auto simp: Itoa.simps [of n] num_of_def unat_digit)
qed

lemma inj_suffixed: "inj_on (suffixed base) A"
  by (rule inj_onI) (metis append_same_eq num_of_Itoa same_append_eq suffixed_def)

text \<open>96 numbered candidates cannot all be taken by fewer than 96 names.\<close>

lemma suffix_loop_finds:
  assumes "finite used" "card used < 96" "short_name 7 base"
  shows "suffix_loop base used \<noteq> None"
proof
  assume "suffix_loop base used = None"
  then have *: "suffixed base i \<in> used \<or> \<not> rune_count (suffixed base i) \<le> 12"
    if "i \<in> set [2..<maxSuffixAttempts]" for i
    using that unfolding suffix_loop_def find_None_iff MaxNicknameLen_def by auto
  have "rune_count (suffixed base i) \<le> 12" if "i < 98" for i
    using short_name_laws(1) [OF short_suffixed [OF assms(3), of i]] that by (simp add: rune_count_def runes_def)
  then have "suffixed base ` {2..<98} \<subseteq> used"
    using * by (auto simp: maxSuffixAttempts_def simp del: upt_rec_numeral)
  then have "card (suffixed base ` {2..<98}) \<le> card used" by (rule card_mono [OF assms(1)])
  then show False using assms(2) by (simp add: card_image [OF inj_suffixed])
qed

lemma GenerateRandom_fresh:
  assumes "crand_ok g" "finite used" "card used < 96"
  shows "fst (GenerateRandom used g) \<notin> used"
proof -
  obtain r g1 where r: "combo_loop 10 used g = (r, g1)" by (cases "combo_loop 10 used g") auto
  obtain base g2 where b: "pickRandomCombo g1 = (base, g2)" by (cases "pickRandomCombo g1") auto
  have 1: "(case r of None \<Rightarrow> True | Some c \<Rightarrow> c \<notin> used) \<and> crand_ok g1"
    using combo_loop_ok [OF assms(1), where n = 10 and used = used] by (auto simp: r split: option.splits)
  have 2: "short_name 7 base" using pickRandomCombo_ok(1) [of g1] 1 by (simp add: b)
  then obtain c where c: "suffix_loop base used = Some c" "c \<notin> used"
    using suffix_loop_finds [OF assms(2,3)] suffix_loop_ok(2) by blast
  show ?thesis using 1 r b c by (auto simp: GenerateRandom_def split: option.splits)
qed

text \<open>A random nickname has at most 10 runes, at most 40 bytes, is valid UTF-8 and, whenever fewer
  than 96 names are in use, is none of them, whatever the random source returns, errors included.\<close>

theorem random_nickname_fresh:
  assumes "crand_ok g" "finite used" "card used < 96"
  shows "fst (GenerateRandom used g) \<notin> used \<and> length (runes (fst (GenerateRandom used g))) \<le> 10
    \<and> length (fst (GenerateRandom used g)) \<le> 40 \<and> valid_utf8 (fst (GenerateRandom used g))"
  using GenerateRandom_fresh [OF assms] GenerateRandom_short(1) [OF assms(1), of used]
    short_name_laws [of 10 "fst (GenerateRandom used g)"] by simp

text \<open>A source that always fails, for evaluation.\<close>

definition failing_crand :: crand where
  "failing_crand = \<lparr>cr_int = (\<lambda>_ _. None), cr_pos = 0\<rparr>"

lemma failing_crand_ok: "crand_ok failing_crand"
  by (simp add: crand_ok_def failing_crand_def)

theorem random_nickname_fresh_witness:
  "fst (GenerateRandom {[65]} failing_crand) \<notin> {[65]}"
  using random_nickname_fresh [OF failing_crand_ok, of "{[65]}"] by simp

end
