(* ===== verification/Protocol.thy ===== *)
theory Protocol
  imports Domain
begin

text \<open>
  Package \<^verbatim>\<open>protocol\<close> (\<^verbatim>\<open>backend/internal/protocol\<close>): the constants of the wire format and of the
  physics, the encoders of every server message and the decoders of the client messages.

  A buffer is the list of the bytes written to it; \<open>None\<close> is a panic of the encoder. A field of
  type \<^verbatim>\<open>float32\<close> holds one of the values of \<open>wf32\<close>.
\<close>

section \<open>Constants\<close>

definition MsgTap :: byte where "MsgTap = 0x10"
definition MsgSetNickname :: byte where "MsgSetNickname = 0x11"
definition MsgRestartVote :: byte where "MsgRestartVote = 0x12"
definition MsgPing :: byte where "MsgPing = 0x20"

definition MsgSnapshot :: byte where "MsgSnapshot = 0x01"
definition MsgPlayerJoin :: byte where "MsgPlayerJoin = 0x02"
definition MsgPlayerLeave :: byte where "MsgPlayerLeave = 0x03"
definition MsgTapAccepted :: byte where "MsgTapAccepted = 0x04"
definition MsgTapRejected :: byte where "MsgTapRejected = 0x05"
definition MsgGameStateChange :: byte where "MsgGameStateChange = 0x06"
definition MsgRestartStatus :: byte where "MsgRestartStatus = 0x07"
definition MsgNicknameRejected :: byte where "MsgNicknameRejected = 0x08"
definition MsgPong :: byte where "MsgPong = 0x21"

definition PhaseCodeWaiting :: byte where "PhaseCodeWaiting = 0"
definition PhaseCodePlaying :: byte where "PhaseCodePlaying = 1"
definition PhaseCodeEnded :: byte where "PhaseCodeEnded = 2"
definition PhaseCodeCountdown :: byte where "PhaseCodeCountdown = 3"

definition EndReasonNone :: byte where "EndReasonNone = 0"
definition EndReasonGround :: byte where "EndReasonGround = 1"
definition EndReasonBird :: byte where "EndReasonBird = 2"
definition EndReasonGhost :: byte where "EndReasonGhost = 3"

definition NickRejectEmpty :: byte where "NickRejectEmpty = 0x01"
definition NickRejectDuplicate :: byte where "NickRejectDuplicate = 0x02"
definition NickRejectCooldown :: byte where "NickRejectCooldown = 0x03"
definition NickRejectDecodeError :: byte where "NickRejectDecodeError = 0x04"

fun PhaseToCode :: "phase \<Rightarrow> byte" where
  "PhaseToCode PhaseWaiting = PhaseCodeWaiting"
| "PhaseToCode PhasePlaying = PhaseCodePlaying"
| "PhaseToCode PhaseEnded = PhaseCodeEnded"
| "PhaseToCode PhaseCountdown = PhaseCodeCountdown"
| "PhaseToCode (PhaseOther s) = PhaseCodeWaiting"

lemmas msg_types = MsgTap_def MsgSetNickname_def MsgRestartVote_def MsgPing_def MsgSnapshot_def
  MsgPlayerJoin_def MsgPlayerLeave_def MsgTapAccepted_def MsgTapRejected_def MsgGameStateChange_def
  MsgRestartStatus_def MsgNicknameRejected_def MsgPong_def

lemmas phase_codes = PhaseCodeWaiting_def PhaseCodePlaying_def PhaseCodeEnded_def PhaseCodeCountdown_def

section \<open>Physics constants\<close>

text \<open>
  Constants that the physics mixes with variables are \<open>float64\<close> there: their value is the decimal
  one, rounded once. Those used in constant expressions are kept exact by the compiler.
\<close>

definition Gravity :: f64 where "Gravity = flit (5 / 10000)"
definition TapForce :: f64 where "TapForce = flit (25 / 1000)"
definition TapRange :: f64 where "TapRange = flit (35 / 100)"
definition TickRate :: int where "TickRate = 15"
definition CountdownTicks :: int where "CountdownTicks = 45"
definition EndResetTicks :: int where "EndResetTicks = 450"
definition BirdSpawnMin :: int where "BirdSpawnMin = 15"
definition BirdSpawnMax :: int where "BirdSpawnMax = 30"
definition BirdSpeed :: f64 where "BirdSpeed = flit (3 / 1000)"
definition BirdCollisionRadiusX :: rat where "BirdCollisionRadiusX = 20 / 1000"
definition BirdCollisionRadiusY :: rat where "BirdCollisionRadiusY = 35 / 1000"
definition GhostSpawnMin :: int where "GhostSpawnMin = 15"
definition GhostSpawnMax :: int where "GhostSpawnMax = 30"
definition GhostSpeed :: rat where "GhostSpeed = 2 / 1000"
definition GhostAttractRadius :: f64 where "GhostAttractRadius = flit (4 / 10)"
definition GhostCollisionRadiusX :: rat where "GhostCollisionRadiusX = 35 / 1000"
definition GhostCollisionRadiusY :: rat where "GhostCollisionRadiusY = 45 / 1000"
definition BalloonCollisionRadius :: rat where "BalloonCollisionRadius = 6 / 100"
definition GhostRepelRadius :: f64 where "GhostRepelRadius = flit (15 / 100)"
definition GhostRepelDuration :: int where "GhostRepelDuration = 30"
definition GhostRepelForce :: f64 where "GhostRepelForce = flit (1 / 100)"
definition GhostWanderChangeInterval :: int where "GhostWanderChangeInterval = 30"
definition GhostDamage :: f64 where "GhostDamage = flit (15 / 1000)"
definition WindMax :: f64 where "WindMax = flit (2 / 10000)"
definition WindLerpRate :: f64 where "WindLerpRate = flit (12 / 1000)"
definition WindChangeInterval :: int where "WindChangeInterval = 225"
definition WindJitter :: f64 where "WindJitter = flit (25 / 1000000)"
definition WindMicroInterval :: int where "WindMicroInterval = 10"
definition WindMidInterval :: int where "WindMidInterval = 75"
definition WindMidMagnitude :: f64 where "WindMidMagnitude = flit (2 / 10000)"
definition WindClamp :: f64 where "WindClamp = flit (65 / 100)"
definition WindTargetSpan :: f64 where "WindTargetSpan = flit 1"
definition WindEdgeSoftZone :: f64 where "WindEdgeSoftZone = flit (12 / 100)"
definition HorizontalDrag :: f64 where "HorizontalDrag = flit (99 / 100)"
definition CooldownBaseMs :: f64 where "CooldownBaseMs = flit 1000"
definition CooldownLogCoeff :: f64 where "CooldownLogCoeff = flit 2032"
definition CooldownMaxMs :: int where "CooldownMaxMs = 15000"
definition PaletteCount :: nat where "PaletteCount = 10"

section \<open>Message data\<close>

record wire_balloon =
  wb_X :: f64
  wb_Y :: f64
  wb_Vy :: f64
  wb_Vx :: f64

record wire_bird =
  wd_X :: f64
  wd_Y :: f64
  wd_Active :: bool

record wire_ghost =
  wg_X :: f64
  wg_Y :: f64
  wg_Active :: bool
  wg_RepelTimer :: "16 word"

record wire_player =
  wp_PlayerIndex :: "16 word"
  wp_CooldownMs :: "32 word"
  wp_Palette :: "32 word"
  wp_ScoreContribution :: "32 word"
  wp_Nickname :: gostring

record ripple =
  rp_PlayerIndex :: "16 word"
  rp_X :: f64
  rp_Y :: f64

section \<open>Encoders\<close>

definition calcSnapshotSize :: "wire_bird \<Rightarrow> wire_ghost \<Rightarrow> wire_player list \<Rightarrow> ripple list \<Rightarrow> nat" where
  "calcSnapshotSize bird ghost players ripples =
     (let size = 1 + 4 + 4 + 1 + 16 + 1;
          size = (if wd_Active bird then size + 8 else size);
          size = size + 1 + 1;
          size = (if wg_Active ghost then size + 8 + 2 else size);
          size = foldl (\<lambda>size p. size + 2 + 4 + 4 + 4 + 1 + length (wp_Nickname p)) size players;
          size = size + 1;
          size = foldl (\<lambda>size r. size + 2 + 4 + 4) size ripples
      in size + 4)"

definition encodeBalloon :: "wire_balloon \<Rightarrow> byte list" where
  "encodeBalloon b = put_u32 (Float32bits (wb_X b)) @ put_u32 (Float32bits (wb_Y b))
     @ put_u32 (Float32bits (wb_Vx b)) @ put_u32 (Float32bits (wb_Vy b))"

definition encodeBird :: "wire_bird \<Rightarrow> byte list" where
  "encodeBird b = (if wd_Active b
     then 1 # put_u32 (Float32bits (wd_X b)) @ put_u32 (Float32bits (wd_Y b)) else [0])"

definition encodeGhost :: "wire_ghost \<Rightarrow> byte list" where
  "encodeGhost g = (if wg_Active g
     then 1 # put_u32 (Float32bits (wg_X g)) @ put_u32 (Float32bits (wg_Y g)) @ put_u16 (wg_RepelTimer g)
     else [0])"

text \<open>The one-byte length that the encoders check before they write it.\<close>

definition checked_len :: "nat \<Rightarrow> byte option" where
  "checked_len n = (if n > 255 then None else Some (of_nat n))"

fun encodePlayers :: "wire_player list \<Rightarrow> byte list option" where
  "encodePlayers [] = Some []"
| "encodePlayers (p # ps) = do {
     n \<leftarrow> checked_len (length (wp_Nickname p));
     rest \<leftarrow> encodePlayers ps;
     Some (put_u16 (wp_PlayerIndex p) @ put_u32 (wp_CooldownMs p) @ put_u32 (wp_Palette p)
       @ put_u32 (wp_ScoreContribution p) @ n # wp_Nickname p @ rest)
   }"

definition encodeRipples :: "ripple list \<Rightarrow> byte list" where
  "encodeRipples rs = concat (map (\<lambda>r. put_u16 (rp_PlayerIndex r) @ put_u32 (Float32bits (rp_X r))
     @ put_u32 (Float32bits (rp_Y r))) rs)"

definition EncodeSnapshot ::
  "phase \<Rightarrow> 32 word \<Rightarrow> 32 word \<Rightarrow> wire_balloon \<Rightarrow> wire_bird \<Rightarrow> wire_ghost \<Rightarrow> wire_player list
   \<Rightarrow> ripple list \<Rightarrow> f64 \<Rightarrow> byte list option" where
  "EncodeSnapshot phase tickCount score balloon bird ghost players ripples wind = do {
     let buf = MsgSnapshot # put_u32 tickCount @ put_u32 score @ [PhaseToCode phase];
     let buf = buf @ encodeBalloon balloon @ encodeBird bird @ encodeGhost ghost;
     n \<leftarrow> checked_len (length players);
     ps \<leftarrow> encodePlayers players;
     let buf = buf @ n # ps;
     k \<leftarrow> checked_len (length ripples);
     Some (buf @ k # encodeRipples ripples @ put_u32 (float32_bits wind))
   }"

definition EncodeTapAccepted :: "16 word \<Rightarrow> 32 word \<Rightarrow> f64 \<Rightarrow> f64 \<Rightarrow> byte list" where
  "EncodeTapAccepted playerIndex cooldownMs balloonX balloonY =
     MsgTapAccepted # put_u16 playerIndex @ put_u32 cooldownMs @ put_u32 (Float32bits balloonX)
       @ put_u32 (Float32bits balloonY)"

definition EncodeTapRejected :: "byte list" where
  "EncodeTapRejected = [MsgTapRejected]"

definition EncodeNicknameRejected :: "byte \<Rightarrow> byte list" where
  "EncodeNicknameRejected reason = [MsgNicknameRejected, reason]"

definition EncodeGameStateChange :: "phase \<Rightarrow> 32 word list \<Rightarrow> byte list option" where
  "EncodeGameStateChange phase countdownRemainingMs =
     (if phase = PhaseCountdown
      then (case countdownRemainingMs of
              [] \<Rightarrow> None
            | ms # _ \<Rightarrow> Some (MsgGameStateChange # PhaseToCode phase # put_u32 ms))
      else Some [MsgGameStateChange, PhaseToCode phase])"

definition EncodeGameStateChangeEnded :: "byte \<Rightarrow> byte list" where
  "EncodeGameStateChangeEnded endReason = [MsgGameStateChange, PhaseToCode PhaseEnded, endReason]"

definition EncodeRestartStatus :: "byte \<Rightarrow> byte \<Rightarrow> 32 word \<Rightarrow> byte list" where
  "EncodeRestartStatus yesVotes totalPlayers countdownMs =
     MsgRestartStatus # yesVotes # totalPlayers # put_u32 countdownMs"

definition EncodePlayerJoin :: "16 word \<Rightarrow> gostring \<Rightarrow> 32 word \<Rightarrow> byte list option" where
  "EncodePlayerJoin playerIndex nickname palette = do {
     n \<leftarrow> checked_len (length nickname);
     Some (MsgPlayerJoin # put_u16 playerIndex @ n # nickname @ put_u32 palette)
   }"

definition EncodePlayerLeave :: "16 word \<Rightarrow> byte list" where
  "EncodePlayerLeave playerIndex = MsgPlayerLeave # put_u16 playerIndex"

definition EncodePong :: "byte list" where
  "EncodePong = [MsgPong]"

section \<open>Decoders\<close>

fun DecodeMessage :: "byte list \<Rightarrow> byte \<times> byte list" where
  "DecodeMessage [] = (0, [])"
| "DecodeMessage (b # bs) = (b, bs)"

definition WSMessageTypeName :: "byte \<Rightarrow> string" where
  "WSMessageTypeName msgType =
     (if msgType = MsgTap then ''tap''
      else if msgType = MsgSetNickname then ''set_nickname''
      else if msgType = MsgRestartVote then ''restart_vote''
      else if msgType = MsgPing then ''ping''
      else if msgType = MsgNicknameRejected then ''nickname_rejected''
      else ''unknown'')"

definition DecodeTap :: "byte list \<Rightarrow> (f64 \<times> f64) option" where
  "DecodeTap data =
     (if length data < 8 then None
      else Some (Float32frombits (get_u32 data), Float32frombits (get_u32 (drop 4 data))))"

definition DecodeNicknamePayload :: "byte list \<Rightarrow> gostring option" where
  "DecodeNicknamePayload data = (case data of
       [] \<Rightarrow> None
     | b # rest \<Rightarrow>
         let nickLen = unat b
         in if nickLen \<le> 0 then None
            else if length data < 1 + nickLen then None
            else Some (take nickLen rest))"

section \<open>When the snapshot encoder returns, and how much it writes\<close>

lemma checked_len_simps [simp]:
  "n \<le> 255 \<Longrightarrow> checked_len n = Some (of_nat n)" "255 < n \<Longrightarrow> checked_len n = None"
  "checked_len n = Some b \<longleftrightarrow> n \<le> 255 \<and> b = of_nat n"
  by (auto simp: checked_len_def)

definition player_bytes :: "wire_player \<Rightarrow> byte list" where
  "player_bytes p = put_u16 (wp_PlayerIndex p) @ put_u32 (wp_CooldownMs p) @ put_u32 (wp_Palette p)
     @ put_u32 (wp_ScoreContribution p) @ of_nat (length (wp_Nickname p)) # wp_Nickname p"

definition ripple_bytes :: "ripple \<Rightarrow> byte list" where
  "ripple_bytes r = put_u16 (rp_PlayerIndex r) @ put_u32 (Float32bits (rp_X r)) @ put_u32 (Float32bits (rp_Y r))"

lemma encodePlayers_eq:
  "encodePlayers ps = (if \<forall>p \<in> set ps. length (wp_Nickname p) \<le> 255
     then Some (concat (map player_bytes ps)) else None)"
  by (induction ps) (simp_all add: player_bytes_def [abs_def] checked_len_def)

lemma encodeRipples_eq: "encodeRipples rs = concat (map ripple_bytes rs)"
  unfolding encodeRipples_def ripple_bytes_def ..

definition snapshot_fits :: "wire_player list \<Rightarrow> ripple list \<Rightarrow> bool" where
  "snapshot_fits players ripples \<longleftrightarrow> length players \<le> 255
     \<and> (\<forall>p \<in> set players. length (wp_Nickname p) \<le> 255) \<and> length ripples \<le> 255"

lemma EncodeSnapshot_eq:
  "EncodeSnapshot ph tc sc bal bird gh ps rs w =
     (if snapshot_fits ps rs
      then Some (MsgSnapshot # put_u32 tc @ put_u32 sc @ PhaseToCode ph # encodeBalloon bal @ encodeBird bird
        @ encodeGhost gh @ of_nat (length ps) # concat (map player_bytes ps)
        @ of_nat (length rs) # concat (map ripple_bytes rs) @ put_u32 (float32_bits w))
      else None)"
  by (auto simp: EncodeSnapshot_def snapshot_fits_def encodePlayers_eq encodeRipples_eq Let_def checked_len_def)

lemma foldl_size: "foldl (\<lambda>n x. n + f x) n xs = n + sum_list (map f xs)" for n :: nat
  by (induction xs arbitrary: n) auto

lemma snapshot_size:
  "calcSnapshotSize bird gh ps rs =
     34 + (if wd_Active bird then 8 else 0) + (if wg_Active gh then 10 else 0)
     + (\<Sum>p\<leftarrow>ps. 15 + length (wp_Nickname p)) + 10 * length rs"
proof -
  have p: "foldl (\<lambda>size p. size + 2 + 4 + 4 + 4 + 1 + length (wp_Nickname p)) n ps =
      n + (\<Sum>p\<leftarrow>ps. 15 + length (wp_Nickname p))" for n
    using foldl_size [of "\<lambda>p. 15 + length (wp_Nickname p)" n ps] by (simp add: ac_simps)
  have r: "foldl (\<lambda>size r. size + 2 + 4 + 4) n rs = n + 10 * length rs" for n
    using foldl_size [of "\<lambda>r. 10" n rs] by (simp add: sum_list_triv ac_simps)
  show ?thesis unfolding calcSnapshotSize_def p r Let_def by simp
qed

lemma snapshot_length:
  assumes "EncodeSnapshot ph tc sc bal bird gh ps rs w = Some bs"
  shows "length bs = calcSnapshotSize bird gh ps rs"
proof -
  have "length (concat (map player_bytes ps)) = (\<Sum>p\<leftarrow>ps. 15 + length (wp_Nickname p))"
    by (simp add: length_concat comp_def player_bytes_def)
  moreover have "length (concat (map ripple_bytes rs)) = 10 * length rs"
    by (simp add: length_concat comp_def ripple_bytes_def sum_list_triv mult.commute)
  moreover have "snapshot_fits ps rs" using assms by (simp add: EncodeSnapshot_eq split: if_splits)
  ultimately show ?thesis using assms
    by (auto simp: EncodeSnapshot_eq snapshot_size encodeBalloon_def encodeBird_def encodeGhost_def)
qed

text \<open>The snapshot encoder returns, without a panic, exactly when there are at most 255 players
  with nicknames of at most 255 bytes and at most 255 ripples, and then it writes exactly the number of
  bytes it reserved: the buffer never grows.\<close>

theorem snapshot_returns_reserved_size:
  "(case EncodeSnapshot ph tc sc bal bird gh ps rs w of
      None \<Rightarrow> \<not> snapshot_fits ps rs
    | Some bs \<Rightarrow> snapshot_fits ps rs \<and> length bs = calcSnapshotSize bird gh ps rs)"
  using snapshot_length [of ph tc sc bal bird gh ps rs w]
  by (auto simp: EncodeSnapshot_eq split: option.splits if_splits)

end
