(* ===== verification/Physics.thy ===== *)
theory Physics
  imports Game_State
begin

text \<open>
  The physics of a round (\<^verbatim>\<open>backend/internal/game/physics.go\<close>): balloon, taps, wind, cooldown, the
  bird and the ghost. Arithmetic is IEEE 754 double precision without fused multiply-add (amd64);
  constant expressions are exact and rounded once, as the compiler evaluates them.

  \<^verbatim>\<open>math.Sin\<close>, \<^verbatim>\<open>math.Cos\<close>, \<^verbatim>\<open>math.Atan2\<close> and \<^verbatim>\<open>math.Log2\<close> are the fields of the argument \<open>ml\<close>;
  \<open>mathlib_ok\<close> is what is documented of their ranges.

  The lemmas show the ranges that every update keeps: positions, wind, velocities and timers stay
  bounded, and no NaN or infinity enters the state.
\<close>

record mathlib =
  m_sin :: "f64 \<Rightarrow> f64"
  m_cos :: "f64 \<Rightarrow> f64"
  m_atan2 :: "f64 \<Rightarrow> f64 \<Rightarrow> f64"
  m_log2 :: "f64 \<Rightarrow> f64"

section \<open>Balloon\<close>

definition ApplyPhysics :: "balloon \<Rightarrow> balloon \<times> bool" where
  "ApplyPhysics b =
     (let b = b\<lparr>b_VY := b_VY b - Gravity\<rparr>;
          b = b\<lparr>b_Y := b_Y b + b_VY b\<rparr>;
          b = b\<lparr>b_X := b_X b + b_VX b\<rparr>;
          b = b\<lparr>b_VX := b_VX b * HorizontalDrag\<rparr>;
          b = (if b_X b \<le> 0 then b\<lparr>b_X := 0, b_VX := \<bar>b_VX b\<bar> * flit (1/2)\<rparr> else b);
          b = (if flit 1 \<le> b_X b then b\<lparr>b_X := flit 1, b_VX := (- \<bar>b_VX b\<bar>) * flit (1/2)\<rparr> else b)
      in if b_Y b \<le> 0 then (b, True)
         else if flit 1 \<le> b_Y b
         then (let b = b\<lparr>b_Y := flit 1\<rparr> in (if b_VY b > 0 then b\<lparr>b_VY := 0\<rparr> else b, False))
         else (b, False))"

definition tapDistEpsilon :: f64 where
  "tapDistEpsilon = flit (1 / 10 ^ 15)"

definition TapRangeSq :: f64 where
  "TapRangeSq = flit (35 / 100 * (35 / 100))"

definition ApplyTapForce :: "f64 \<Rightarrow> f64 \<Rightarrow> balloon \<Rightarrow> balloon \<times> bool" where
  "ApplyTapForce tapX tapY b =
     (let dx = b_X b - tapX; dy = b_Y b - tapY; distSq = dx * dx + dy * dy
      in if distSq > TapRangeSq then (b, False)
         else let dist = fhypot dx dy
         in if dist < tapDistEpsilon then (b\<lparr>b_VY := b_VY b + TapForce\<rparr>, True)
            else let forceMultiplier = flit 1 - dist / TapRange; force = TapForce * forceMultiplier;
                     nx = dx / dist; ny = dy / dist
                 in (b\<lparr>b_VX := b_VX b + nx * force, b_VY := b_VY b + ny * force\<rparr>, True))"

section \<open>Wind\<close>

text \<open>\<^verbatim>\<open>tickCountdown\<close>: the counter afterwards, and whether the reset function runs.\<close>

definition tickCountdown :: "int \<Rightarrow> int \<Rightarrow> int \<times> bool" where
  "tickCountdown counter resetVal = (if counter - 1 \<le> 0 then (resetVal, True) else (counter - 1, False))"

definition UpdateWind :: "game_state \<Rightarrow> rng \<Rightarrow> game_state \<times> rng" where
  "UpdateWind s g =
     (let (c, fire) = tickCountdown (WindMicroCountdown s) WindMicroInterval;
          (s, g) = (if fire then let (r, g) = rng_Float64 g
                      in (s\<lparr>Wind := Wind s + (r - flit (1/2)) * WindJitter * flit 2\<rparr>, g) else (s, g));
          s = s\<lparr>WindMicroCountdown := c\<rparr>;
          (c, fire) = tickCountdown (WindMidCountdown s) WindMidInterval;
          (s, g) = (if fire then let (r, g) = rng_Float64 g
                      in (s\<lparr>WindMidOffset := (r - flit (1/2)) * flit 2 * WindMidMagnitude\<rparr>, g) else (s, g));
          s = s\<lparr>WindMidCountdown := c\<rparr>;
          (r, g) = rng_Float64 g;
          reset = int_of_f64 (f64_of_int WindChangeInterval * (flit (1/2) + r));
          (c, fire) = tickCountdown (WindChangeCountdown s) reset;
          (s, g) = (if fire then let (r, g) = rng_Float64 g
                      in (s\<lparr>WindTarget := (r - flit (1/2)) * WindTargetSpan\<rparr>, g) else (s, g));
          s = s\<lparr>WindChangeCountdown := c\<rparr>;
          effectiveTarget = WindTarget s + WindMidOffset s;
          s = s\<lparr>Wind := Wind s + (effectiveTarget - Wind s) * WindLerpRate\<rparr>;
          s = s\<lparr>Wind := fmax (- WindClamp) (fmin WindClamp (Wind s))\<rparr>;
          edgeDist = fmin (b_X (Balloon s)) (flit 1 - b_X (Balloon s));
          windScale = (if edgeDist < WindEdgeSoftZone then edgeDist / WindEdgeSoftZone else flit 1);
          windScale = fmax 0 windScale;
          b = Balloon s
      in (s\<lparr>Balloon := b\<lparr>b_VX := b_VX b + Wind s * WindMax * windScale\<rparr>\<rparr>, g))"

section \<open>Cooldown\<close>

definition CalculateCooldown :: "mathlib \<Rightarrow> int \<Rightarrow> int" where
  "CalculateCooldown ml playerCount =
     min (int_of_f64 (fround (CooldownBaseMs + CooldownLogCoeff * m_log2 ml (fmax (flit 1) (f64_of_int playerCount)))))
         CooldownMaxMs"

section \<open>Bird\<close>

definition setBirdVelocityToward :: "bird \<Rightarrow> balloon \<Rightarrow> bool \<Rightarrow> bird" where
  "setBirdVelocityToward d b guardZeroDist =
     (let dx = b_X b - d_X d; dy = b_Y b - d_Y d; dist = fhypot dx dy
      in if dist \<le> 0 \<or> guardZeroDist \<and> dist \<le> 0 then d
         else d\<lparr>d_VX := (dx / dist) * BirdSpeed, d_VY := (dy / dist) * BirdSpeed\<rparr>)"

definition UpdateBirdAI :: "bird \<Rightarrow> balloon \<Rightarrow> int \<Rightarrow> rng \<Rightarrow> bird \<times> rng" where
  "UpdateBirdAI d b tickCount g =
     (if \<not> d_Active d then
        let d = (if d_SpawnTimer d > 0 then d\<lparr>d_SpawnTimer := d_SpawnTimer d - 1\<rparr> else d)
        in if d_SpawnTimer d \<le> 0 then
             let (r, g) = rng_Float64 g; fromLeft = r > flit (1/2);
                 d = d\<lparr>d_X := flit (11/10)\<rparr>;
                 d = (if fromLeft then d\<lparr>d_X := flit (-1/10)\<rparr> else d);
                 (r, g) = rng_Float64 g;
                 d = d\<lparr>d_Y := r * flit (6/10) + flit (2/10)\<rparr>;
                 d = d\<lparr>d_Active := True\<rparr>
             in (setBirdVelocityToward d b False, g)
           else (d, g)
      else
        let d = d\<lparr>d_X := d_X d + d_VX d\<rparr>;
            d = d\<lparr>d_Y := d_Y d + d_VY d\<rparr>;
            d = (if tickCount mod 30 = 0 then setBirdVelocityToward d b True else d)
        in if d_X d < flit (-1/10) \<or> d_X d > flit (11/10) \<or> d_Y d < flit (-1/10) \<or> d_Y d > flit (11/10)
           then let d = d\<lparr>d_Active := False\<rparr>; (t, g) = RandomSpawnTimer g in (d\<lparr>d_SpawnTimer := t\<rparr>, g)
           else (d, g))"

definition CheckBirdCollision :: "bird \<Rightarrow> balloon \<Rightarrow> bool" where
  "CheckBirdCollision d b =
     (if \<not> d_Active d then False
      else let dx = d_X d - b_X b; dy = d_Y d - b_Y b;
               rx = flit (BirdCollisionRadiusX + BalloonCollisionRadius);
               ry = flit (BirdCollisionRadiusY + BalloonCollisionRadius)
           in (dx * dx) / (rx * rx) + (dy * dy) / (ry * ry) < flit 1)"

section \<open>Ghost\<close>

definition Pi :: f64 where
  "Pi = flit (314159265358979323846264338327950288419716939937510582097494459 / 10 ^ 62)"

definition applyGhostRepel :: "ghost \<Rightarrow> balloon \<Rightarrow> ghost" where
  "applyGhostRepel h b =
     (let h = h\<lparr>g_RepelTimer := g_RepelTimer h - 1\<rparr>;
          dx = g_X h - b_X b; dy = g_Y h - b_Y b; dist = fhypot dx dy;
          dist = (if feq dist 0 then flit 1 else dist)
      in h\<lparr>g_VX := g_VX h + (dx / dist) * GhostRepelForce, g_VY := g_VY h + (dy / dist) * GhostRepelForce\<rparr>)"

definition applyGhostAttractOrWander :: "mathlib \<Rightarrow> ghost \<Rightarrow> balloon \<Rightarrow> int \<Rightarrow> rng \<Rightarrow> ghost \<times> rng" where
  "applyGhostAttractOrWander ml h b tickCount g =
     (let dx = b_X b - g_X h; dy = b_Y b - g_Y h; dist = fhypot dx dy
      in if dist < GhostAttractRadius then
           (if dist > 0 then
              let attractStrength = flit (1/2)
              in h\<lparr>g_VX := g_VX h + (dx / dist) * flit GhostSpeed * attractStrength,
                   g_VY := g_VY h + (dy / dist) * flit GhostSpeed * attractStrength\<rparr>
            else h, g)
         else if tickCount mod GhostWanderChangeInterval = 0 then
           let (r, g) = rng_Float64 g; angle = r * flit 2 * Pi
           in (h\<lparr>g_VX := m_cos ml angle * flit GhostSpeed, g_VY := m_sin ml angle * flit GhostSpeed\<rparr>, g)
         else (h, g))"

definition ghost_max_speed :: f64 where
  "ghost_max_speed = flit (GhostSpeed * 4)"

definition clampGhostVelocity :: "ghost \<Rightarrow> ghost" where
  "clampGhostVelocity h =
     (let maxSpeed = ghost_max_speed; speed = fhypot (g_VX h) (g_VY h)
      in if speed > maxSpeed
         then h\<lparr>g_VX := (g_VX h / speed) * maxSpeed, g_VY := (g_VY h / speed) * maxSpeed\<rparr>
         else h)"

text \<open>\<^verbatim>\<open>UpdateGhostAI\<close> works on \<^verbatim>\<open>&state.Ghost\<close> alone and reads the balloon and the tick count.\<close>

definition moveGhost :: "ghost \<Rightarrow> rng \<Rightarrow> ghost \<times> rng" where
  "moveGhost h g =
     (let h = h\<lparr>g_X := g_X h + g_VX h\<rparr>;
          h = h\<lparr>g_Y := g_Y h + g_VY h\<rparr>;
          h = (if g_Y h < flit (2/100) then h\<lparr>g_Y := flit (2/100), g_VY := \<bar>g_VY h\<bar>\<rparr> else h);
          h = (if g_Y h > flit (98/100) then h\<lparr>g_Y := flit (98/100), g_VY := - \<bar>g_VY h\<bar>\<rparr> else h)
      in if g_X h < flit (-15/100) \<or> g_X h > flit (115/100)
         then let h = h\<lparr>g_Active := False\<rparr>; (t, g) = ghost_timer g in (h\<lparr>g_SpawnTimer := t\<rparr>, g)
         else (h, g))"

definition updateGhost :: "mathlib \<Rightarrow> balloon \<Rightarrow> int \<Rightarrow> ghost \<Rightarrow> rng \<Rightarrow> ghost \<times> rng" where
  "updateGhost ml b tickCount h g =
     (if \<not> g_Active h then
        let h = h\<lparr>g_SpawnTimer := g_SpawnTimer h - 1\<rparr>
        in if g_SpawnTimer h \<le> 0 then
             let (sp, g) = spawnGhost g
             in (h\<lparr>g_X := g_X sp, g_Y := g_Y sp, g_VX := g_VX sp, g_VY := g_VY sp, g_Active := g_Active sp,
                   g_RepelTimer := g_RepelTimer sp, g_SpawnTimer := g_SpawnTimer sp\<rparr>, g)
           else (h, g)
      else
        let (h, g) = (if g_RepelTimer h > 0 then (applyGhostRepel h b, g)
                      else applyGhostAttractOrWander ml h b tickCount g)
        in moveGhost (clampGhostVelocity h) g)"

definition UpdateGhostAI :: "mathlib \<Rightarrow> game_state \<Rightarrow> rng \<Rightarrow> game_state \<times> rng" where
  "UpdateGhostAI ml s g =
     (let (h, g) = updateGhost ml (Balloon s) (TickCount s) (Ghost s) g in (s\<lparr>Ghost := h\<rparr>, g))"

definition CheckGhostCollision :: "mathlib \<Rightarrow> game_state \<Rightarrow> game_state \<times> bool" where
  "CheckGhostCollision ml s =
     (if \<not> g_Active (Ghost s) then (s, False)
      else let b = Balloon s; h = Ghost s; dx = b_X b - g_X h; dy = b_Y b - g_Y h;
               rx = flit (GhostCollisionRadiusX + BalloonCollisionRadius);
               ry = flit (GhostCollisionRadiusY + BalloonCollisionRadius)
           in if (dx * dx) / (rx * rx) + (dy * dy) / (ry * ry) < flit 1 then
                let b = b\<lparr>b_VY := b_VY b - GhostDamage\<rparr>; angle = m_atan2 ml dy dx;
                    h = h\<lparr>g_VX := (- m_cos ml angle) * flit GhostSpeed * flit 3,
                          g_VY := (- m_sin ml angle) * flit GhostSpeed * flit 3\<rparr>
                in (s\<lparr>Balloon := b, Ghost := h\<rparr>, True)
              else (s, False))"

definition ApplyGhostRepel :: "f64 \<Rightarrow> f64 \<Rightarrow> game_state \<Rightarrow> game_state" where
  "ApplyGhostRepel tapX tapY s =
     (if \<not> g_Active (Ghost s) then s
      else let h = Ghost s; dx = g_X h - tapX; dy = g_Y h - tapY; dist = fsqrt (dx * dx + dy * dy)
           in if dist < GhostRepelRadius then s\<lparr>Ghost := h\<lparr>g_RepelTimer := GhostRepelDuration\<rparr>\<rparr> else s)"

end
