(* ===== verification/Physics_Ranges.thy ===== *)
theory Physics_Ranges
  imports Physics
begin

text \<open>
  What the physics keeps: \<open>phys_ok\<close> bounds every position, velocity, wind value and timer of a game
  state. It says in particular that all of them are finite numbers. Every operation of
  \<^verbatim>\<open>physics.go\<close> and \<^verbatim>\<open>state.go\<close> establishes or preserves its part of it.
\<close>

section \<open>Ranges\<close>

definition mathlib_ok :: "mathlib \<Rightarrow> bool" where
  "mathlib_ok ml \<longleftrightarrow> (\<forall>x. fin64 x \<longrightarrow> btw (- 1) 1 (m_sin ml x) \<and> btw (- 1) 1 (m_cos ml x))
     \<and> (\<forall>y x. fin64 y \<and> fin64 x \<longrightarrow> fin64 (m_atan2 ml y x))
     \<and> (\<forall>x. fin64 x \<and> 1 \<le> val x \<longrightarrow> btw 0 1024 (m_log2 ml x))"

definition balloon_ok :: "balloon \<Rightarrow> bool" where
  "balloon_ok b \<longleftrightarrow> btw 0 1 (b_X b) \<and> fin64 (b_Y b) \<and> val (b_Y b) \<le> 1 \<and> fin64 (b_VX b) \<and> fin64 (b_VY b)"

definition airborne :: "balloon \<Rightarrow> bool" where
  "airborne b \<longleftrightarrow> 0 < val (b_Y b)"

definition wind_ok :: "game_state \<Rightarrow> bool" where
  "wind_ok s \<longleftrightarrow> btw (- val WindClamp) (val WindClamp) (Wind s) \<and> btw (- 1/2) (1/2) (WindTarget s)
     \<and> btw (- val WindMidMagnitude) (val WindMidMagnitude) (WindMidOffset s)
     \<and> 1 \<le> WindMicroCountdown s \<and> WindMicroCountdown s \<le> 10
     \<and> 1 \<le> WindMidCountdown s \<and> WindMidCountdown s \<le> 75
     \<and> 1 \<le> WindChangeCountdown s \<and> WindChangeCountdown s \<le> 338"

definition bird_ok :: "bird \<Rightarrow> bool" where
  "bird_ok d \<longleftrightarrow> btw (- 2) 2 (d_X d) \<and> btw (- 2) 2 (d_Y d)
     \<and> btw (- val BirdSpeed) (val BirdSpeed) (d_VX d) \<and> btw (- val BirdSpeed) (val BirdSpeed) (d_VY d)
     \<and> 0 \<le> d_SpawnTimer d \<and> d_SpawnTimer d \<le> 30
     \<and> (if d_Active d then btw (val (flit (-1/10))) (val (flit (11/10))) (d_X d)
            \<and> btw (val (flit (-1/10))) (val (flit (11/10))) (d_Y d)
        else 1 \<le> d_SpawnTimer d)"

definition ghost_ok :: "ghost \<Rightarrow> bool" where
  "ghost_ok h \<longleftrightarrow> btw (- 2) 2 (g_X h) \<and> btw (val (flit (2/100))) (val (flit (98/100))) (g_Y h)
     \<and> btw (- val ghost_max_speed) (val ghost_max_speed) (g_VX h)
     \<and> btw (- val ghost_max_speed) (val ghost_max_speed) (g_VY h)
     \<and> 1 \<le> g_SpawnTimer h \<and> g_SpawnTimer h \<le> 30 \<and> 0 \<le> g_RepelTimer h \<and> g_RepelTimer h \<le> 30
     \<and> (g_Active h \<longrightarrow> btw (val (flit (-15/100))) (val (flit (115/100))) (g_X h))"

definition phys_ok :: "game_state \<Rightarrow> bool" where
  "phys_ok s \<longleftrightarrow> balloon_ok (Balloon s) \<and> bird_ok (Bird s) \<and> ghost_ok (Ghost s) \<and> wind_ok s
     \<and> (Phase s = PhasePlaying \<longrightarrow> airborne (Balloon s))"

lemma const_btw:
  "btw 0 (1/4) Gravity" "btw 0 (1/4) TapForce" "btw (1/4) (1/2) TapRange" "btw (1/2) 1 HorizontalDrag"
  "btw 0 (1/4) WindMax" "btw 0 (1/4) WindLerpRate" "btw 0 (1/4) WindJitter" "btw 0 (1/4) WindMidMagnitude"
  "btw (1/2) 1 WindClamp" "btw 1 1 WindTargetSpan" "btw 0 (1/4) BirdSpeed" "btw 0 (1/4) GhostRepelForce"
  "btw 0 (1/4) GhostDamage" "btw 0 (1/4) ghost_max_speed" "btw 0 (1/4) (flit GhostSpeed)"
  "btw (- 1/4) 0 (flit (- GhostSpeed))" "btw 1 1 (flit 1)" "btw (1/2) (1/2) (flit (1/2))" "btw 2 2 (flit 2)"
  "btw 3 3 (flit 3)" "btw (- 1/4) 0 (flit (-1/10))" "btw 1 2 (flit (11/10))" "btw 0 (1/4) (flit (2/10))"
  "btw (1/2) 1 (flit (6/10))" "btw 0 (1/4) (flit (2/100))" "btw (1/2) 1 (flit (98/100))"
  "btw (- 1/4) 0 (flit (-15/100))" "btw 1 2 (flit (115/100))" "btw (1/2) 1 (flit (95/100))"
  by (simp_all add: Gravity_def TapForce_def TapRange_def HorizontalDrag_def WindMax_def WindLerpRate_def
    WindJitter_def WindMidMagnitude_def WindClamp_def WindTargetSpan_def BirdSpeed_def GhostRepelForce_def
    GhostDamage_def ghost_max_speed_def GhostSpeed_def flit_btw)

lemmas const_fin = const_btw [THEN btw_fin]

lemmas float_consts = const_btw [THEN isfloat_val [OF btw_fin]]

lemma val_consts [simp]: "val (flit 1) = 1" "val (flit (1/2)) = 1/2" "val (flit 2) = 2" "val (flit 3) = 3"
  using const_btw(17-20) by (auto simp: btw_def)


lemma fin_add: "fin64 x \<Longrightarrow> btw a b y \<Longrightarrow> - 4 \<le> a \<Longrightarrow> b \<le> 4 \<Longrightarrow> fin64 (x + y)"
  using fin_add_small [of x y] btw_mono [of a b y "- 4" 4] by blast

lemma fin_sub: "fin64 x \<Longrightarrow> btw a b y \<Longrightarrow> - 4 \<le> a \<Longrightarrow> b \<le> 4 \<Longrightarrow> fin64 (x - y) \<and> fin64 (y - x)"
  using fin_sub_small [of x y] btw_mono [of a b y "- 4" 4] by blast

lemma fin_scale: "fin64 x \<Longrightarrow> btw a b y \<Longrightarrow> - 1 \<le> a \<Longrightarrow> b \<le> 1 \<Longrightarrow> fin64 (x * y)"
  using fin_mul [of x y] btw_mono [of a b y "- 1" 1] by blast

section \<open>The balloon\<close>

text \<open>The horizontal half of \<^verbatim>\<open>ApplyPhysics\<close>: the wall keeps the position in \<open>[0, 1]\<close>.\<close>

lemma wall_btw:
  assumes "fin64 x" "fin64 v"
  shows "btw 0 1 (if flit 1 \<le> (if x \<le> 0 then 0 else x) then flit 1 else (if x \<le> 0 then 0 else x))"
  using assms const_btw(17) fle_fin [of x 0] fle_fin [of "flit 1" x] fle_fin [of "flit 1" 0]
  by (auto simp: btw_def)

lemma ApplyPhysics_eq:
  "ApplyPhysics b =
    (let vy = b_VY b - Gravity; y = b_Y b + vy; x = b_X b + b_VX b; vx = b_VX b * HorizontalDrag;
         (x, vx) = (if x \<le> 0 then (0, \<bar>vx\<bar> * flit (1/2)) else (x, vx));
         (x, vx) = (if flit 1 \<le> x then (flit 1, (- \<bar>vx\<bar>) * flit (1/2)) else (x, vx))
     in if y \<le> 0 then (b\<lparr>b_X := x, b_VX := vx, b_Y := y, b_VY := vy\<rparr>, True)
        else if flit 1 \<le> y
        then (b\<lparr>b_X := x, b_VX := vx, b_Y := flit 1, b_VY := if vy > 0 then 0 else vy\<rparr>, False)
        else (b\<lparr>b_X := x, b_VX := vx, b_Y := y, b_VY := vy\<rparr>, False))"
  by (simp add: ApplyPhysics_def Let_def split_def)

lemma ApplyPhysics_ok:
  assumes "balloon_ok b" "airborne b"
  shows "balloon_ok (fst (ApplyPhysics b))" "snd (ApplyPhysics b) \<longleftrightarrow> \<not> airborne (fst (ApplyPhysics b))"
proof -
  have b: "btw 0 1 (b_X b)" "btw 0 1 (b_Y b)" "fin64 (b_VX b)" "fin64 (b_VY b)"
    using assms by (auto simp: balloon_ok_def airborne_def btw_def)
  define vy where "vy = b_VY b - Gravity"
  define y where "y = b_Y b + vy"
  define x where "x = b_X b + b_VX b"
  define vx where "vx = b_VX b * HorizontalDrag"
  have vy: "fin64 vy" using fin_sub [OF b(4) const_btw(1)] by (simp add: vy_def)
  have y: "fin64 y" using fin_add [OF vy b(2)] fadd_commute [of "b_Y b" vy] vy b(2) by (simp add: y_def btw_def)
  have x: "fin64 x" using fin_add [OF b(3) b(1)] fadd_commute [of "b_X b" "b_VX b"] b by (simp add: x_def btw_def)
  have vx: "fin64 vx" using fin_scale [OF b(3) const_btw(4)] by (simp add: vx_def)
  define x1 where "x1 = (if x \<le> 0 then 0 else x)"
  define vx1 where "vx1 = (if x \<le> 0 then \<bar>vx\<bar> * flit (1/2) else vx)"
  define x2 where "x2 = (if flit 1 \<le> x1 then flit 1 else x1)"
  define vx2 where "vx2 = (if flit 1 \<le> x1 then (- \<bar>vx1\<bar>) * flit (1/2) else vx1)"
  have half: "fin64 z \<Longrightarrow> fin64 (z * flit (1/2))" for z
    using fin_scale [OF _ const_btw(18)] by simp
  have vx2: "fin64 vx2" using vx half by (auto simp: vx1_def vx2_def)
  have x2: "btw 0 1 x2" unfolding x2_def x1_def by (rule wall_btw [OF x vx])
  have eq: "ApplyPhysics b = (if y \<le> 0 then (b\<lparr>b_X := x2, b_VX := vx2, b_Y := y, b_VY := vy\<rparr>, True)
      else if flit 1 \<le> y
      then (b\<lparr>b_X := x2, b_VX := vx2, b_Y := flit 1, b_VY := if vy > 0 then 0 else vy\<rparr>, False)
      else (b\<lparr>b_X := x2, b_VX := vx2, b_Y := y, b_VY := vy\<rparr>, False))"
    unfolding ApplyPhysics_eq vy_def [symmetric] y_def [symmetric] x_def [symmetric] vx_def [symmetric] Let_def
    by (simp add: x2_def x1_def vx2_def vx1_def split_def)
  have cmp: "y \<le> 0 \<longleftrightarrow> val y \<le> 0" "flit 1 \<le> y \<longleftrightarrow> 1 \<le> val y"
    using fle_fin [OF y fin_0] fle_fin [OF const_fin(17) y] by simp_all
  show "balloon_ok (fst (ApplyPhysics b))"
    unfolding eq using x2 vx2 vy y cmp const_fin(17) by (auto simp: balloon_ok_def)
  show "snd (ApplyPhysics b) \<longleftrightarrow> \<not> airborne (fst (ApplyPhysics b))"
    unfolding eq using cmp by (auto simp: airborne_def)
qed

lemma ApplyPhysics_score [simp]: "b_Score (fst (ApplyPhysics b)) = b_Score b"
  by (simp add: ApplyPhysics_def Let_def)

section \<open>Taps\<close>

lemma TapRangeSq_btw: "btw 0 (1/8) TapRangeSq"
proof -
  have "isfloat (1/8)" using isfloat_dyadic [of 1 3] by simp
  then show ?thesis unfolding TapRangeSq_def by (intro flit_btw) simp_all
qed

lemma btw_div_TapRange: "btw 0 1 x \<Longrightarrow> btw 0 4 (x / TapRange)"
proof -
  assume x: "btw 0 1 x"
  have t: "1/4 \<le> val TapRange" "fin64 TapRange" using const_btw(3) by (auto simp: btw_def)
  obtain s where s: "x / TapRange = rnd64 s (val x / val TapRange)"
    using fdiv_finite [of x TapRange] x t by (auto simp: btw_def fin64_def)
  have "val x / val TapRange \<le> 4" "0 \<le> val x / val TapRange"
    using x t by (auto simp: btw_def divide_le_eq)
  then show ?thesis unfolding s by (intro rnd64_btw) simp_all
qed

text \<open>An accepted tap changes each velocity by an impulse of magnitude at most 1.\<close>

lemma ApplyTapForce_impulse:
  assumes "balloon_ok b" "btw 0 1 tapX" "btw 0 1 tapY" "snd (ApplyTapForce tapX tapY b)"
  shows "\<exists>dvx dvy. btw (- 1) 1 dvx \<and> btw (- 1) 1 dvy \<and>
    (fst (ApplyTapForce tapX tapY b) = b\<lparr>b_VY := b_VY b + dvy\<rparr> \<or>
     fst (ApplyTapForce tapX tapY b) = b\<lparr>b_VX := b_VX b + dvx, b_VY := b_VY b + dvy\<rparr>)"
proof -
  define dx where "dx = b_X b - tapX"
  define dy where "dy = b_Y b - tapY"
  define dist where "dist = fhypot dx dy"
  define force where "force = TapForce * (flit 1 - dist / TapRange)"
  have fin: "fin64 dx" "fin64 dy"
    using assms(1-3) fin_sub [of "b_X b" 0 1 tapX] fin_sub [of "b_Y b" 0 1 tapY]
    by (auto simp: dx_def dy_def balloon_ok_def)
  have c: "fin64 TapRangeSq" "val TapRangeSq < 1/4" using TapRangeSq_btw by (auto simp: btw_def)
  have eq: "ApplyTapForce tapX tapY b =
      (if dx * dx + dy * dy > TapRangeSq then (b, False)
       else if dist < tapDistEpsilon then (b\<lparr>b_VY := b_VY b + TapForce\<rparr>, True)
       else (b\<lparr>b_VX := b_VX b + dx / dist * force, b_VY := b_VY b + dy / dist * force\<rparr>, True))"
    by (simp add: ApplyTapForce_def Let_def dx_def dy_def dist_def force_def)
  have near: "\<not> dx * dx + dy * dy > TapRangeSq" using assms(4) unfolding eq by (auto split: if_splits)
  have small: "\<bar>val dx\<bar> \<le> 1/2" "\<bar>val dy\<bar> \<le> 1/2"
    using near square_sum_lower(1) [OF fin _ c] square_sum_lower(2) [OF fin(2,1) _ c] by force+
  have dist: "btw 0 1 dist" using fhypot_le [OF fin small] by (simp add: dist_def)
  have tf: "btw (- 1/4) (1/4) TapForce" using const_btw(2) by (rule btw_mono) simp_all
  have m: "btw (- 4) 4 (flit 1 - dist / TapRange)"
    by (rule btw_sub [OF const_btw(17) btw_div_TapRange [OF dist]]) simp_all
  have f: "btw (- 1) 1 force" unfolding force_def using tf m by (intro btw_mul_abs [of "1/4" _ 4]) simp_all
  show ?thesis
  proof (cases "dist < tapDistEpsilon")
    case True
    then show ?thesis unfolding eq using near btw_mono [OF tf, of "- 1" 1] btw_mono [OF fin_0_btw, of "- 1" 1] by auto
  next
    case False
    have "btw (1/2^100) (1/4) tapDistEpsilon"
      unfolding tapDistEpsilon_def using isfloat_dyadic [of 1 100] by (intro flit_btw) simp_all
    then have "\<not> dist \<le> 0"
      using False dist fless_fin [of dist tapDistEpsilon] fle_fin [of dist 0] by (auto simp: btw_def)
    then have d: "btw (- 1) 1 (dx / dist)" "btw (- 1) 1 (dy / dist)"
      using direction_btw [OF fin] by (simp_all add: dist_def)
    have "btw (- 1) 1 (dx / dist * force)" "btw (- 1) 1 (dy / dist * force)"
      using d f by (auto intro!: btw_mul_abs [of 1 _ 1])
    then show ?thesis unfolding eq using near False by auto
  qed
qed

lemma ApplyTapForce_ok:
  assumes "balloon_ok b" "btw 0 1 tapX" "btw 0 1 tapY"
  shows "balloon_ok (fst (ApplyTapForce tapX tapY b))" "airborne (fst (ApplyTapForce tapX tapY b)) = airborne b"
    "b_Score (fst (ApplyTapForce tapX tapY b)) = b_Score b"
proof -
  let ?b = "fst (ApplyTapForce tapX tapY b)"
  have fin: "fin64 (b_VX b)" "fin64 (b_VY b)" using assms(1) by (simp_all add: balloon_ok_def)
  have "balloon_ok ?b \<and> airborne ?b = airborne b \<and> b_Score ?b = b_Score b"
  proof (cases "snd (ApplyTapForce tapX tapY b)")
    case True
    obtain dvx dvy where d: "btw (- 1) 1 dvx" "btw (- 1) 1 dvy"
      "?b = b\<lparr>b_VY := b_VY b + dvy\<rparr> \<or> ?b = b\<lparr>b_VX := b_VX b + dvx, b_VY := b_VY b + dvy\<rparr>"
      using ApplyTapForce_impulse [OF assms True] by blast
    have "fin64 (b_VX b + dvx)" "fin64 (b_VY b + dvy)"
      using fin_add [OF fin(1) d(1)] fin_add [OF fin(2) d(2)] by simp_all
    with d(3) assms(1) show ?thesis by (elim disjE) (simp_all add: balloon_ok_def airborne_def)
  next
    case False
    then have "?b = b" by (auto simp: ApplyTapForce_def Let_def split: if_splits)
    with assms(1) show ?thesis by simp
  qed
  then show "balloon_ok ?b" "airborne ?b = airborne b" "b_Score ?b = b_Score b" by auto
qed

lemma ApplyGhostRepel_ok: "ghost_ok (Ghost s) \<Longrightarrow> ghost_ok (Ghost (ApplyGhostRepel x y s))"
  by (auto simp: ApplyGhostRepel_def Let_def ghost_ok_def GhostRepelDuration_def)

section \<open>Random draws\<close>

lemma Float64_cases:
  assumes "rng_ok g"
  obtains r g' where "rng_Float64 g = (r, g')" "btw 0 1 r" "rng_ok g'"
  using rs.floatE [OF assms] unit_float_btw by metis

lemma RandomSpawnTimer_ok:
  assumes "rng_ok g"
  shows "15 \<le> fst (RandomSpawnTimer g) \<and> fst (RandomSpawnTimer g) \<le> 30" "rng_ok (snd (RandomSpawnTimer g))"
proof -
  obtain i g' where "rng_IntN 16 g = (i, g')" "i < 16" "rng_ok g'" by (rule rs.intE [OF assms, of 16]) simp
  then show "15 \<le> fst (RandomSpawnTimer g) \<and> fst (RandomSpawnTimer g) \<le> 30" "rng_ok (snd (RandomSpawnTimer g))"
    by (auto simp: RandomSpawnTimer_def BirdSpawnMin_def BirdSpawnMax_def Let_def)
qed

lemma flit_15: "btw 15 15 (flit 15)" "isfloat 15" "isfloat 30"
  using isfloat_small [of 15] isfloat_small [of 30] flit_btw [of 15 15 15] by simp_all

lemma ghost_timer_ok:
  assumes "rng_ok g"
  shows "15 \<le> fst (ghost_timer g) \<and> fst (ghost_timer g) \<le> 30" "rng_ok (snd (ghost_timer g))"
proof -
  obtain r g' where r: "rng_Float64 g = (r, g')" "btw 0 1 r" "rng_ok g'" by (rule Float64_cases [OF assms])
  have f: "btw 15 15 (f64_of_int 15)" unfolding f64_of_int_def using flit_15 by (intro rnd64_btw) simp_all
  have "btw 0 15 (r * f64_of_int 15)"
    using r(2) btw_mono [OF f, of 0 15] flit_15 by (intro btw_mul_nonneg [of 1 _ 15]) simp_all
  then have "btw 15 30 (flit 15 + r * f64_of_int 15)"
    by (rule btw_add [OF flit_15(1)]) (simp_all add: flit_15)
  then show "15 \<le> fst (ghost_timer g) \<and> fst (ghost_timer g) \<le> 30" "rng_ok (snd (ghost_timer g))"
    using int_of_f64_btw [of 15 30 "flit 15 + r * f64_of_int 15"] r
    by (simp_all add: ghost_timer_def GhostSpawnMin_def GhostSpawnMax_def)
qed

text \<open>\<^verbatim>\<open>rng.Float64() - 0.5\<close> and its multiples by numbers of magnitude at most 1 or 2.\<close>

lemma centred:
  assumes "btw 0 1 r"
  shows "btw (- (1/2)) (1/2) (r - flit (1/2))"
  by (rule btw_sub [OF assms const_btw(18)]) simp_all

section \<open>The ghost\<close>

lemma consts_order:
  "val (flit GhostSpeed) \<le> val ghost_max_speed" "3 * val (flit GhostSpeed) \<le> val ghost_max_speed"
  "val (flit (2/100)) \<le> val (flit (2/10))" "7/8 \<le> val (flit (98/100))"
  "0 \<le> val ghost_max_speed" "0 \<le> val (flit GhostSpeed)" "val (flit GhostSpeed) \<le> 1/4"
  "val (flit (2/10)) + val (flit (6/10)) \<le> 7/8"
  "val (flit (-15/100)) \<le> val (flit (-1/10))" "val (flit (11/10)) \<le> val (flit (115/100))"
  "val (flit (- GhostSpeed)) = - val (flit GhostSpeed)"
  by code_simp+

lemma btw_scale:
  assumes "btw (- 1) 1 x" "fin64 c" "0 \<le> val c"
  shows "btw (- val c) (val c) (x * c)"
  using assms isfloat_val [OF assms(2)] by (intro btw_mul_abs [of 1 _ "val c"]) (auto simp: btw_def)

lemma spawnGhost_ok:
  assumes "rng_ok g"
  shows "ghost_ok (fst (spawnGhost g))" "rng_ok (snd (spawnGhost g))" "g_Active (fst (spawnGhost g))"
proof -
  obtain r1 g1 where 1: "rng_Float64 g = (r1, g1)" "btw 0 1 r1" "rng_ok g1" by (rule Float64_cases [OF assms])
  obtain r2 g2 where 2: "rng_Float64 g1 = (r2, g2)" "btw 0 1 r2" "rng_ok g2" by (rule Float64_cases [OF 1(3)])
  obtain r3 g3 where 3: "rng_Float64 g2 = (r3, g3)" "btw 0 1 r3" "rng_ok g3" by (rule Float64_cases [OF 2(3)])
  obtain r4 g4 where 4: "rng_Float64 g3 = (r4, g4)" "btw 0 1 r4" "rng_ok g4" by (rule Float64_cases [OF 3(3)])
  obtain t g5 where 5: "ghost_timer g4 = (t, g5)" "15 \<le> t" "t \<le> 30" "rng_ok g5"
    using ghost_timer_ok [OF 4(3)] by (cases "ghost_timer g4") auto
  have r2: "btw 0 (1/2) (r2 * flit (1/2))"
    using 2(2) btw_mono [OF const_btw(18), of 0 "1/2"] by (intro btw_mul_nonneg [of 1 _ "1/2"]) simp_all
  have u: "btw (- 1) 1 (flit (1/2) + r2 * flit (1/2))"
    using btw_add [OF const_btw(18) r2, of 0 1] btw_mono [of 0 1 _ "- 1" 1] by simp
  have gs: "btw (- val (flit GhostSpeed)) (val (flit GhostSpeed)) (flit GhostSpeed)"
    "btw (- val (flit GhostSpeed)) (val (flit GhostSpeed)) (flit (- GhostSpeed))"
    using const_btw(15,16) consts_order(6,11) by (auto simp: btw_def)
  have vx: "btw (- val ghost_max_speed) (val ghost_max_speed) (k * (flit (1/2) + r2 * flit (1/2)))"
    if "btw (- val (flit GhostSpeed)) (val (flit GhostSpeed)) k" for k
    using that u consts_order(1) isfloat_val [OF const_fin(14)]
    by (intro btw_mul_abs [of "val (flit GhostSpeed)" _ 1]) auto
  have y1: "btw 0 (val (flit (6/10))) (r3 * flit (6/10))"
    using 3(2) const_btw(24) isfloat_val by (intro btw_mul_nonneg [of 1 _ "val (flit (6/10))"]) (auto simp: btw_def)
  have y2: "btw (val (flit (2/10))) (val (flit (2/10))) (flit (2/10))" using const_btw(23) by (auto simp: btw_def)
  have "isfloat (7/8)" using isfloat_dyadic [of 7 3] by simp
  then have "btw (val (flit (2/10))) (7/8) (flit (2/10) + r3 * flit (6/10))"
    using consts_order(8) isfloat_val [OF const_fin(23)] by (intro btw_add [OF y2 y1]) simp_all
  then have y: "btw (val (flit (2/100))) (val (flit (98/100))) (flit (2/10) + r3 * flit (6/10))"
    using consts_order(3,4) by (rule btw_mono)
  have vy: "btw (- val ghost_max_speed) (val ghost_max_speed) ((r4 - flit (1/2)) * flit GhostSpeed)"
    using btw_mono [OF btw_scale [OF btw_mono [OF centred [OF 4(2)]] const_fin(15)]] consts_order(1,6) by simp
  have x: "btw (val (flit (-15/100))) (val (flit (115/100))) (flit (-1/10))"
    "btw (val (flit (-15/100))) (val (flit (115/100))) (flit (11/10))"
    using consts_order(9,10) const_btw(21,22,27,28) by (auto simp: btw_def)
  have x2: "btw (- 2) 2 (flit (-1/10))" "btw (- 2) 2 (flit (11/10))"
    using btw_mono [OF const_btw(21)] btw_mono [OF const_btw(22)] by simp_all
  show "ghost_ok (fst (spawnGhost g))" "rng_ok (snd (spawnGhost g))" "g_Active (fst (spawnGhost g))"
    using 1(1) 2(1) 3(1) 4(1) 5 x x2 y vy vx [OF gs(1)] vx [OF gs(2)]
    by (simp_all add: spawnGhost_def ghost_ok_def Let_def)
qed

lemma fless_Inf: "fin64 x \<Longrightarrow> x < Inf False" and fle_Inf: "fin64 x \<Longrightarrow> x \<le> Inf False"
  by (cases x; simp add: fin64_def f64_ops)+

lemma clampGhostVelocity_ok:
  assumes "fin64 (g_VX h)" "fin64 (g_VY h)"
  shows "btw (- val ghost_max_speed) (val ghost_max_speed) (g_VX (clampGhostVelocity h))"
    "btw (- val ghost_max_speed) (val ghost_max_speed) (g_VY (clampGhostVelocity h))"
proof -
  let ?m = ghost_max_speed
  define sp where "sp = fhypot (g_VX h) (g_VY h)"
  have hyp: "hyp_of (g_VX h) (g_VY h) sp" using fhypot_hyp_of assms by (simp add: sp_def fin64_def)
  have m: "fin64 ?m" "0 \<le> val ?m" using const_fin(14) consts_order(5) by simp_all
  show "btw (- val ?m) (val ?m) (g_VX (clampGhostVelocity h))" "btw (- val ?m) (val ?m) (g_VY (clampGhostVelocity h))"
  proof (atomize(full), cases "sp > ?m")
    case True
    have "\<not> sp \<le> 0"
    proof (cases "sp = Inf False")
      case False
      then have "fin64 sp" using hyp by (auto simp: hyp_of_def fin64_def)
      then show ?thesis using True m fless_fin [of ?m sp] fle_fin [of sp 0] by simp
    qed (simp add: f64_ops)
    then have "btw (- 1) 1 (g_VX h / sp)" "btw (- 1) 1 (g_VY h / sp)"
      using direction_btw [OF assms] by (simp_all add: sp_def)
    then show "btw (- val ?m) (val ?m) (g_VX (clampGhostVelocity h)) \<and> btw (- val ?m) (val ?m) (g_VY (clampGhostVelocity h))"
      using btw_scale m True by (simp add: clampGhostVelocity_def Let_def sp_def)
  next
    case False
    then have "sp \<noteq> Inf False" using fless_Inf [OF m(1)] by auto
    then have "fin64 sp" "\<bar>val (g_VX h)\<bar> \<le> val sp" "\<bar>val (g_VY h)\<bar> \<le> val sp"
      using hyp by (auto simp: hyp_of_def fin64_def)
    moreover from this have "val sp \<le> val ?m" using False m fless_fin [of ?m sp] by simp
    ultimately show "btw (- val ?m) (val ?m) (g_VX (clampGhostVelocity h)) \<and> btw (- val ?m) (val ?m) (g_VY (clampGhostVelocity h))"
      using assms False by (auto simp: clampGhostVelocity_def Let_def sp_def btw_def)
  qed
qed

lemma clampGhostVelocity_frame [simp]:
  "g_X (clampGhostVelocity h) = g_X h" "g_Y (clampGhostVelocity h) = g_Y h"
  "g_Active (clampGhostVelocity h) = g_Active h" "g_SpawnTimer (clampGhostVelocity h) = g_SpawnTimer h"
  "g_RepelTimer (clampGhostVelocity h) = g_RepelTimer h"
  by (simp_all add: clampGhostVelocity_def Let_def)

text \<open>What steering leaves alone, and that it keeps the velocities finite.\<close>

definition steered :: "ghost \<Rightarrow> ghost \<Rightarrow> bool" where
  "steered h h' \<longleftrightarrow> g_X h' = g_X h \<and> g_Y h' = g_Y h \<and> g_Active h' = g_Active h
     \<and> g_SpawnTimer h' = g_SpawnTimer h \<and> 0 \<le> g_RepelTimer h' \<and> g_RepelTimer h' \<le> 30
     \<and> fin64 (g_VX h') \<and> fin64 (g_VY h')"

lemma ghost_delta_fin:
  assumes "ghost_ok h" "balloon_ok b"
  shows "fin64 (g_X h - b_X b)" "fin64 (g_Y h - b_Y b)" "fin64 (b_X b - g_X h)" "fin64 (b_Y b - g_Y h)"
proof -
  have y: "btw (- 2) 2 (g_Y h)"
    using assms(1) const_btw(25,26) by (auto simp: ghost_ok_def btw_def)
  show "fin64 (g_X h - b_X b)" "fin64 (g_Y h - b_Y b)" "fin64 (b_X b - g_X h)" "fin64 (b_Y b - g_Y h)"
    using fin_sub [of "b_X b" "- 2" 2 "g_X h"] fin_sub [of "b_Y b" "- 2" 2 "g_Y h"] y assms
    by (auto simp: ghost_ok_def balloon_ok_def)
qed

lemma applyGhostRepel_steered:
  assumes "ghost_ok h" "balloon_ok b" "0 < g_RepelTimer h"
  shows "steered h (applyGhostRepel h b)"
proof -
  define dx where "dx = g_X h - b_X b"
  define dy where "dy = g_Y h - b_Y b"
  define d where "d = (if feq (fhypot dx dy) 0 then flit 1 else fhypot dx dy)"
  have fin: "fin64 dx" "fin64 dy" using ghost_delta_fin [OF assms(1,2)] by (simp_all add: dx_def dy_def)
  have hyp: "hyp_of dx dy (fhypot dx dy)" using fhypot_hyp_of fin by (simp add: fin64_def)
  have dir: "btw (- 1) 1 (dx / d) \<and> btw (- 1) 1 (dy / d)"
  proof (cases "feq (fhypot dx dy) 0")
    case True
    then have "fhypot dx dy \<noteq> Inf False" by (auto simp: feq_def f64_ops)
    then have "val dx = 0" "val dy = 0"
      using True hyp feq_finite [of "fhypot dx dy" 0] by (auto simp: hyp_of_def)
    then show ?thesis
      using True fin const_fin(17) fdiv_unit [of dx "flit 1"] fdiv_unit [of dy "flit 1"]
      by (auto simp: d_def btw_def fin64_def abs_le_iff)
  next
    case False
    have "\<not> fhypot dx dy \<le> 0"
    proof
      assume le: "fhypot dx dy \<le> 0"
      then have "0 \<le> fhypot dx dy"
        using fhypot_ge_0 [OF fin] fle_fin [of 0 "fhypot dx dy"] fle_Inf [of 0] by auto
      with le False show False by (simp add: feq_def)
    qed
    then show ?thesis using direction_btw [OF fin] False by (simp add: d_def)
  qed
  have f: "fin64 GhostRepelForce" "0 \<le> val GhostRepelForce" "val GhostRepelForce \<le> 1/4"
    using const_btw(12) by (auto simp: btw_def)
  have "fin64 (g_VX h + dx / d * GhostRepelForce)" "fin64 (g_VY h + dy / d * GhostRepelForce)"
    using btw_scale [OF conjunct1 [OF dir] f(1,2)] btw_scale [OF conjunct2 [OF dir] f(1,2)] f(3) assms(1)
    by (auto simp: ghost_ok_def intro!: fin_add)
  then show ?thesis
    using assms(1,3) by (auto simp: steered_def applyGhostRepel_def Let_def dx_def dy_def d_def ghost_ok_def)
qed

lemma attract_steered:
  assumes "ghost_ok h" "balloon_ok b" "mathlib_ok ml" "rng_ok g"
  shows "steered h (fst (applyGhostAttractOrWander ml h b t g))" "rng_ok (snd (applyGhostAttractOrWander ml h b t g))"
proof -
  define dx where "dx = b_X b - g_X h"
  define dy where "dy = b_Y b - g_Y h"
  define d where "d = fhypot dx dy"
  have fin: "fin64 dx" "fin64 dy" using ghost_delta_fin [OF assms(1,2)] by (simp_all add: dx_def dy_def)
  obtain r g' where r: "rng_Float64 g = (r, g')" "btw 0 1 r" "rng_ok g'" by (rule Float64_cases [OF assms(4)])
  have gs: "fin64 (flit GhostSpeed)" "0 \<le> val (flit GhostSpeed)" using const_fin(15) consts_order(6) by simp_all
  have half: "fin64 (v + w * flit GhostSpeed * flit (1/2))" if "fin64 v" "btw (- 1) 1 w" for v w
  proof -
    have "btw (- (1/4)) (1/4) (w * flit GhostSpeed)"
      using btw_mono [OF btw_scale [OF that(2) gs], of "- (1/4)" "1/4"] consts_order(7) by simp
    then have "btw (- (1/4)) (1/4) (w * flit GhostSpeed * flit (1/2))"
      using btw_mono [OF const_btw(18), of "- 1" 1] by (rule btw_mul_abs [of "1/4" _ 1]) simp_all
    then show ?thesis using fin_add [OF that(1)] by simp
  qed
  have dir: "btw (- 1) 1 (dx / d)" "btw (- 1) 1 (dy / d)" if "0 < d"
  proof -
    have "\<not> Inf False \<le> (0 :: f64)" by (simp add: f64_ops)
    then have "\<not> d \<le> 0" using that fhypot_ge_0 [OF fin] fle_fin [of d 0] fless_fin [of 0 d]
      by (auto simp: d_def)
    then show "btw (- 1) 1 (dx / d)" "btw (- 1) 1 (dy / d)" using direction_btw [OF fin] by (simp_all add: d_def)
  qed
  have pi: "btw 0 4 Pi" unfolding Pi_def by (intro flit_btw) simp_all
  have r2: "btw 0 2 (r * flit 2)"
    using r(2) btw_mono [OF const_btw(19), of 0 2] by (intro btw_mul_nonneg [of 1 _ 2]) simp_all
  have "btw 0 8 (r * flit 2 * Pi)"
    by (rule btw_mul_nonneg [OF r2 pi]) (use isfloat_small [of 8] in simp_all)
  then have trig: "btw (- 1) 1 (m_cos ml (r * flit 2 * Pi))" "btw (- 1) 1 (m_sin ml (r * flit 2 * Pi))"
    using assms(3) by (auto simp: mathlib_ok_def)
  show "steered h (fst (applyGhostAttractOrWander ml h b t g))" "rng_ok (snd (applyGhostAttractOrWander ml h b t g))"
    unfolding applyGhostAttractOrWander_def dx_def [symmetric] dy_def [symmetric] d_def [symmetric] Let_def
    using assms(1,4) r half dir btw_scale [OF trig(1) gs] btw_scale [OF trig(2) gs]
    by (auto simp: steered_def ghost_ok_def)
qed

lemma consts_115: "val (flit (115/100)) \<le> 5/4"
  using flit_btw [of 1 "5/4" "115/100"] isfloat_dyadic [of 5 2] by (simp add: btw_def)

lemma btw_move:
  assumes "btw (- a) a v" "btw lo hi x" "- 2 \<le> lo - a" "hi + a \<le> 2"
  shows "btw (- 2) 2 (x + v)"
  using assms by (intro btw_add [OF assms(2,1)]) simp_all

lemma moveGhost_ok:
  assumes "btw (val (flit (-15/100))) (val (flit (115/100))) (g_X h)"
    "btw (val (flit (2/100))) (val (flit (98/100))) (g_Y h)"
    "btw (- val ghost_max_speed) (val ghost_max_speed) (g_VX h)"
    "btw (- val ghost_max_speed) (val ghost_max_speed) (g_VY h)"
    "1 \<le> g_SpawnTimer h" "g_SpawnTimer h \<le> 30" "0 \<le> g_RepelTimer h" "g_RepelTimer h \<le> 30" "rng_ok g"
  shows "ghost_ok (fst (moveGhost h g)) \<and> rng_ok (snd (moveGhost h g))"
proof -
  let ?m = "val ghost_max_speed" and ?lo = "flit (2/100)" and ?hi = "flit (98/100)"
  have m: "0 \<le> ?m" "?m \<le> 1/4" using const_btw(14) by (auto simp: btw_def)
  have lim: "val (flit (115/100)) + ?m \<le> 2" "- 2 \<le> val (flit (-15/100)) - ?m"
    "val ?hi + ?m \<le> 2" "- 2 \<le> val ?lo - ?m"
    using const_btw(25-28) m consts_115 by (auto simp: btw_def)
  define x where "x = g_X h + g_VX h"
  define y where "y = g_Y h + g_VY h"
  define vy where "vy = (if y < ?lo then \<bar>g_VY h\<bar> else g_VY h)"
  define y1 where "y1 = (if y < ?lo then ?lo else y)"
  define vy2 where "vy2 = (if y1 > ?hi then - \<bar>vy\<bar> else vy)"
  define y2 where "y2 = (if y1 > ?hi then ?hi else y1)"
  have x: "btw (- 2) 2 x" unfolding x_def by (rule btw_move [OF assms(3,1)]) (use lim in auto)
  have y: "fin64 y" unfolding y_def by (rule btw_fin, rule btw_move [OF assms(4,2)]) (use lim in auto)
  have av: "btw (- ?m) ?m \<bar>v\<bar>" "btw (- ?m) ?m (- \<bar>v\<bar>)" if "btw (- ?m) ?m v" for v
    using btw_mono [OF btw_abs [OF that], of "- ?m" ?m] m btw_neg [of "- ?m" ?m "\<bar>v\<bar>"] by simp_all
  have vy2: "btw (- ?m) ?m vy2" using assms(4) av by (simp add: vy2_def vy_def)
  have lh: "val ?lo \<le> val ?hi" "fin64 ?lo" "fin64 ?hi" using const_btw(25,26) by (auto simp: btw_def)
  have y2: "btw (val ?lo) (val ?hi) y2"
    using y lh fless_fin [of y ?lo] fless_fin [of ?hi y] fless_fin [of ?hi ?lo]
    by (auto simp: y2_def y1_def btw_def)
  have inx: "btw (val (flit (-15/100))) (val (flit (115/100))) x"
    if "\<not> (x < flit (-15/100) \<or> x > flit (115/100))"
    using that x const_fin(27,28) fless_fin [of x "flit (-15/100)"] fless_fin [of "flit (115/100)" x]
    by (auto simp: btw_def)
  obtain t g' where t: "ghost_timer g = (t, g')" "15 \<le> t" "t \<le> 30" "rng_ok g'"
    using ghost_timer_ok [OF assms(9)] by (cases "ghost_timer g") auto
  have eq: "moveGhost h g = (let h = h\<lparr>g_X := x, g_Y := y2, g_VY := vy2\<rparr>
      in if x < flit (-15/100) \<or> x > flit (115/100) then (h\<lparr>g_Active := False, g_SpawnTimer := t\<rparr>, g') else (h, g))"
    by (simp add: moveGhost_def Let_def x_def y_def y1_def y2_def vy_def vy2_def t(1))
  show ?thesis
    unfolding eq Let_def using x y2 vy2 inx assms t(2-) by (simp add: ghost_ok_def)
qed

lemma updateGhost_ok:
  assumes "ghost_ok h" "balloon_ok b" "mathlib_ok ml" "rng_ok g"
  shows "ghost_ok (fst (updateGhost ml b t h g)) \<and> rng_ok (snd (updateGhost ml b t h g))"
proof (cases "g_Active h")
  case False
  obtain sp g' where "spawnGhost g = (sp, g')" "ghost_ok sp" "rng_ok g'"
    using spawnGhost_ok [OF assms(4)] by (cases "spawnGhost g") auto
  then show ?thesis using False assms(1,4) by (simp add: updateGhost_def Let_def ghost_ok_def)
next
  case True
  obtain h1 g1 where p: "(if g_RepelTimer h > 0 then (applyGhostRepel h b, g)
      else applyGhostAttractOrWander ml h b t g) = (h1, g1)" by fastforce
  have h1: "steered h h1" "rng_ok g1"
    using p applyGhostRepel_steered [OF assms(1,2)] attract_steered [OF assms(1-4), of t] assms(4)
    by (auto split: if_splits)
  have "ghost_ok (fst (moveGhost (clampGhostVelocity h1) g1)) \<and> rng_ok (snd (moveGhost (clampGhostVelocity h1) g1))"
    using h1 assms(1) True clampGhostVelocity_ok [of h1]
    by (intro moveGhost_ok) (simp_all add: steered_def ghost_ok_def)
  then show ?thesis using True by (simp add: updateGhost_def p)
qed

lemma CheckGhostCollision_ok:
  assumes "ghost_ok (Ghost s)" "balloon_ok (Balloon s)" "mathlib_ok ml"
  shows "ghost_ok (Ghost (fst (CheckGhostCollision ml s)))" "balloon_ok (Balloon (fst (CheckGhostCollision ml s)))"
    "airborne (Balloon (fst (CheckGhostCollision ml s))) = airborne (Balloon s)"
proof -
  define a where "a = m_atan2 ml (b_Y (Balloon s) - g_Y (Ghost s)) (b_X (Balloon s) - g_X (Ghost s))"
  have "fin64 a" using ghost_delta_fin [OF assms(1,2)] assms(3) by (simp add: a_def mathlib_ok_def)
  then have trig: "btw (- 1) 1 (- m_cos ml a)" "btw (- 1) 1 (- m_sin ml a)"
    using assms(3) btw_neg [of "- 1" 1] by (auto simp: mathlib_ok_def)
  have gs: "fin64 (flit GhostSpeed)" "0 \<le> val (flit GhostSpeed)" using const_fin(15) consts_order(6) by simp_all
  have v: "btw (- val ghost_max_speed) (val ghost_max_speed) (w * flit GhostSpeed * flit 3)" if "btw (- 1) 1 w" for w
    using btw_scale [OF that gs] btw_mono [OF const_btw(20), of "- 3" 3] isfloat_val [OF const_fin(14)] consts_order(2)
    by (intro btw_mul_abs [of "val (flit GhostSpeed)" "w * flit GhostSpeed" 3 "flit 3"]) (simp_all add: mult.commute)
  have vy: "fin64 (b_VY (Balloon s) - GhostDamage)"
    using assms(2) fin_sub [OF _ const_btw(13)] by (simp add: balloon_ok_def)
  show "ghost_ok (Ghost (fst (CheckGhostCollision ml s)))"
    using assms(1) v [OF trig(1)] v [OF trig(2)]
    by (simp add: CheckGhostCollision_def Let_def ghost_ok_def a_def)
  show "balloon_ok (Balloon (fst (CheckGhostCollision ml s)))"
    "airborne (Balloon (fst (CheckGhostCollision ml s))) = airborne (Balloon s)"
    using assms(2) vy by (simp_all add: CheckGhostCollision_def Let_def balloon_ok_def airborne_def)
qed

section \<open>The bird\<close>

lemma setBirdVelocityToward_ok:
  assumes "fin64 (b_X b - d_X d)" "fin64 (b_Y b - d_Y d)"
    "btw (- val BirdSpeed) (val BirdSpeed) (d_VX d)" "btw (- val BirdSpeed) (val BirdSpeed) (d_VY d)"
  shows "btw (- val BirdSpeed) (val BirdSpeed) (d_VX (setBirdVelocityToward d b z))"
    "btw (- val BirdSpeed) (val BirdSpeed) (d_VY (setBirdVelocityToward d b z))"
  using assms(3,4) direction_btw [OF assms(1,2)] btw_scale const_btw(11)
  by (auto simp: setBirdVelocityToward_def Let_def btw_def)

lemma setBirdVelocityToward_frame [simp]:
  "d_X (setBirdVelocityToward d b z) = d_X d" "d_Y (setBirdVelocityToward d b z) = d_Y d"
  "d_Active (setBirdVelocityToward d b z) = d_Active d" "d_SpawnTimer (setBirdVelocityToward d b z) = d_SpawnTimer d"
  by (simp_all add: setBirdVelocityToward_def Let_def)

lemma bird_delta_fin:
  "balloon_ok b \<Longrightarrow> btw (- 2) 2 x \<Longrightarrow> btw (- 2) 2 y \<Longrightarrow> fin64 (b_X b - x) \<and> fin64 (b_Y b - y)"
  using fin_sub [of "b_X b" "- 2" 2 x] fin_sub [of "b_Y b" "- 2" 2 y] by (auto simp: balloon_ok_def)

lemma consts_11: "val (flit (11/10)) \<le> 5/4"
  using flit_btw [of 1 "5/4" "11/10"] isfloat_dyadic [of 5 2] by (simp add: btw_def)

lemma bird_moves_ok:
  assumes "bird_ok d" "d_Active d" "balloon_ok b" "rng_ok g"
  shows "bird_ok (fst (UpdateBirdAI d b t g)) \<and> rng_ok (snd (UpdateBirdAI d b t g))"
proof -
  let ?lo = "flit (-1/10)" and ?hi = "flit (11/10)" and ?m = "val BirdSpeed"
  have m: "0 \<le> ?m" "?m \<le> 1/4" using const_btw(11) by (auto simp: btw_def)
  have lim: "val ?hi + ?m \<le> 2" "- 2 \<le> val ?lo - ?m" using const_btw(21) consts_11 m by (auto simp: btw_def)
  define x where "x = d_X d + d_VX d"
  define y where "y = d_Y d + d_VY d"
  note d = assms(1) [unfolded bird_ok_def] assms(2)
  have x: "btw (- 2) 2 x" unfolding x_def by (rule btw_move [of ?m _ "val ?lo" "val ?hi"]) (use d lim in auto)
  have y: "btw (- 2) 2 y" unfolding y_def by (rule btw_move [of ?m _ "val ?lo" "val ?hi"]) (use d lim in auto)
  define d1 where "d1 = d\<lparr>d_X := x, d_Y := y\<rparr>"
  define d2 where "d2 = (if t mod 30 = 0 then setBirdVelocityToward d1 b True else d1)"
  have d1: "d_X d1 = x" "d_Y d1 = y" by (simp_all add: d1_def)
  have v: "btw (- ?m) ?m (d_VX d2)" "btw (- ?m) ?m (d_VY d2)"
    using setBirdVelocityToward_ok [of b d1 True] bird_delta_fin [OF assms(3) x y] d
    by (simp_all add: d2_def d1) (simp_all add: d1_def)
  have f: "d_X d2 = x" "d_Y d2 = y" "d_Active d2" "d_SpawnTimer d2 = d_SpawnTimer d"
    using assms(2) by (simp_all add: d2_def d1) (simp_all add: d1_def)
  obtain k g' where k: "RandomSpawnTimer g = (k, g')" "15 \<le> k" "k \<le> 30" "rng_ok g'"
    using RandomSpawnTimer_ok [OF assms(4)] by (cases "RandomSpawnTimer g") auto
  have eq: "UpdateBirdAI d b t g = (if x < ?lo \<or> x > ?hi \<or> y < ?lo \<or> y > ?hi
      then (d2\<lparr>d_Active := False, d_SpawnTimer := k\<rparr>, g') else (d2, g))"
    using assms(2) by (simp add: UpdateBirdAI_def Let_def k(1) f flip: d2_def d1_def x_def y_def)
      (simp add: d2_def d1_def x_def y_def)
  have inz: "btw (val ?lo) (val ?hi) z" if "btw (- 2) 2 z" "\<not> z < ?lo" "\<not> z > ?hi" for z
    using that const_fin(21,22) fless_fin [of z ?lo] fless_fin [of ?hi z] by (auto simp: btw_def)
  show ?thesis
    unfolding eq using v f x y inz [OF x] inz [OF y] k(2-) assms(4) d by (simp add: bird_ok_def)
qed

lemma bird_spawns_ok:
  assumes "bird_ok d" "\<not> d_Active d" "balloon_ok b" "rng_ok g"
  shows "bird_ok (fst (UpdateBirdAI d b t g)) \<and> rng_ok (snd (UpdateBirdAI d b t g))"
proof -
  obtain r1 g1 where 1: "rng_Float64 g = (r1, g1)" "btw 0 1 r1" "rng_ok g1" by (rule Float64_cases [OF assms(4)])
  obtain r2 g2 where 2: "rng_Float64 g1 = (r2, g2)" "btw 0 1 r2" "rng_ok g2" by (rule Float64_cases [OF 1(3)])
  let ?lo = "flit (-1/10)" and ?hi = "flit (11/10)" and ?m = "val BirdSpeed"
  define x where "x = (if r1 > flit (1/2) then ?lo else ?hi)"
  define y where "y = r2 * flit (6/10) + flit (2/10)"
  have y6: "btw 0 (val (flit (6/10))) (r2 * flit (6/10))"
    using 2(2) const_btw(24) isfloat_val by (intro btw_mul_nonneg [of 1 _ "val (flit (6/10))"]) (auto simp: btw_def)
  have y2: "btw 0 (val (flit (2/10))) (flit (2/10))" using const_btw(23) by (auto simp: btw_def)
  have y: "btw 0 1 y" unfolding y_def by (rule btw_add [OF y6 y2]) (use consts_order(8) in simp_all)
  have lim: "btw (val ?lo) (val ?hi) x" "btw (val ?lo) (val ?hi) y" "btw (- 2) 2 x" "btw (- 2) 2 y"
    using y const_btw(21,22) by (auto simp: x_def btw_def)
  define d1 where "d1 = d\<lparr>d_SpawnTimer := d_SpawnTimer d - 1\<rparr>"
  define d2 where "d2 = d1\<lparr>d_X := x, d_Y := y, d_Active := True\<rparr>"
  note d = assms(1) [unfolded bird_ok_def] assms(2)
  have t: "0 < d_SpawnTimer d" using d by simp
  have v: "btw (- ?m) ?m (d_VX (setBirdVelocityToward d2 b False))" "btw (- ?m) ?m (d_VY (setBirdVelocityToward d2 b False))"
    using setBirdVelocityToward_ok [of b d2 False] bird_delta_fin [OF assms(3) lim(3,4)] d
    by (simp_all add: d2_def d1_def)
  have eq: "UpdateBirdAI d b t g = (if d_SpawnTimer d \<le> 1 then (setBirdVelocityToward d2 b False, g2) else (d1, g))"
    using assms(2) t by (simp add: UpdateBirdAI_def Let_def 1(1) 2(1) d2_def d1_def x_def y_def)
  show ?thesis
    unfolding eq using v lim 2(3) assms(4) d t by (simp add: bird_ok_def) (simp add: d2_def d1_def)
qed

lemma UpdateBirdAI_ok:
  assumes "bird_ok d" "balloon_ok b" "rng_ok g"
  shows "bird_ok (fst (UpdateBirdAI d b t g))" "rng_ok (snd (UpdateBirdAI d b t g))"
  using bird_moves_ok [OF assms(1) _ assms(2,3)] bird_spawns_ok [OF assms(1) _ assms(2,3)] by blast+

section \<open>The wind\<close>

lemma WindClamp_pos: "0 \<le> val WindClamp" "val WindClamp \<le> 1" "fin64 WindClamp"
  using const_btw(9) by (auto simp: btw_def)

lemma initWind_ok:
  assumes "rng_ok g"
  shows "wind_ok (fst (initWind s g))" "rng_ok (snd (initWind s g))"
proof -
  obtain r g' where r: "rng_Float64 g = (r, g')" "btw 0 1 r" "rng_ok g'" by (rule Float64_cases [OF assms])
  have t: "btw (- (1/2)) (1/2) ((r - flit (1/2)) * WindTargetSpan)"
    using centred [OF r(2)] btw_mono [OF const_btw(10), of "- 1" 1] by (intro btw_mul_abs [of "1/2" _ 1]) simp_all
  then have "fin64 ((r - flit (1/2)) * WindTargetSpan * flit (6/10))"
    using fin_scale [OF _ const_btw(24)] by auto
  with t r show "wind_ok (fst (initWind s g))" "rng_ok (snd (initWind s g))"
    using fclamp_btw [OF WindClamp_pos(3,1)] const_btw(8)
    by (simp_all add: initWind_def initialWind_def wind_ok_def Let_def btw_def)
qed

lemma WindChange_reset:
  assumes "btw 0 1 r"
  shows "1 \<le> int_of_f64 (f64_of_int WindChangeInterval * (flit (1/2) + r))"
    "int_of_f64 (f64_of_int WindChangeInterval * (flit (1/2) + r)) \<le> 338"
proof -
  have f: "isfloat 225" "isfloat 338" using isfloat_small [of 225] isfloat_small [of 338] by simp_all
  have a: "btw 225 225 (f64_of_int WindChangeInterval)"
    unfolding f64_of_int_def WindChangeInterval_def using f by (intro rnd64_btw) simp_all
  have i: "isfloat (3/2)" using isfloat_dyadic [of 3 1] by simp
  have b: "btw (1/2) (3/2) (flit (1/2) + r)" by (rule btw_add [OF const_btw(18) assms]) (simp_all add: i)
  obtain s where s: "f64_of_int WindChangeInterval * (flit (1/2) + r) =
      rnd64 s (val (f64_of_int WindChangeInterval) * val (flit (1/2) + r))"
    using fmul_finite a b by (auto simp: btw_def fin64_def)
  have "btw 1 338 (f64_of_int WindChangeInterval * (flit (1/2) + r))"
    unfolding s using a b f by (intro rnd64_btw) (auto simp: btw_def)
  then show "1 \<le> int_of_f64 (f64_of_int WindChangeInterval * (flit (1/2) + r))"
    "int_of_f64 (f64_of_int WindChangeInterval * (flit (1/2) + r)) \<le> 338"
    using int_of_f64_btw [of 1 338] by simp_all
qed

lemma windScale_btw:
  assumes "btw 0 1 x"
  defines "e \<equiv> fmin x (flit 1 - x)"
  shows "btw 0 1 (fmax 0 (if e < WindEdgeSoftZone then e / WindEdgeSoftZone else flit 1))"
proof -
  have "btw 0 1 (flit 1 - x)" by (rule btw_sub [OF const_btw(17) assms(1)]) simp_all
  then have e: "btw 0 1 e" using assms(1) fmin_fin [of x "flit 1 - x"] by (auto simp: e_def btw_def)
  have z: "0 < val WindEdgeSoftZone" "fin64 WindEdgeSoftZone"
    using flit_btw [of "1/16" 1 "12/100"] isfloat_dyadic [of 1 4] by (auto simp: WindEdgeSoftZone_def btw_def)
  have "btw 0 1 (e / WindEdgeSoftZone)" if "e < WindEdgeSoftZone"
  proof -
    have l: "val e < val WindEdgeSoftZone" using that e z fless_fin by auto
    obtain s where s: "e / WindEdgeSoftZone = rnd64 s (val e / val WindEdgeSoftZone)"
      using fdiv_finite [of e WindEdgeSoftZone] e z by (auto simp: btw_def fin64_def)
    show ?thesis unfolding s using e z l by (intro rnd64_btw) (auto simp: btw_def)
  qed
  then have "btw 0 1 (if e < WindEdgeSoftZone then e / WindEdgeSoftZone else flit 1)"
    using const_btw(17) btw_mono [OF const_btw(17), of 0 1] by simp
  then show ?thesis using fmax_fin [of 0] by (auto simp: btw_def)
qed

text \<open>\<^verbatim>\<open>UpdateWind\<close> in stages: the three countdowns with their draws, then the drift and the push.\<close>

definition windMicro :: "game_state \<Rightarrow> rng \<Rightarrow> game_state \<times> rng" where
  "windMicro s g = (let (c, fire) = tickCountdown (WindMicroCountdown s) WindMicroInterval;
     (s, g) = (if fire then let (r, g) = rng_Float64 g
                 in (s\<lparr>Wind := Wind s + (r - flit (1/2)) * WindJitter * flit 2\<rparr>, g) else (s, g))
     in (s\<lparr>WindMicroCountdown := c\<rparr>, g))"

definition windMid :: "game_state \<Rightarrow> rng \<Rightarrow> game_state \<times> rng" where
  "windMid s g = (let (c, fire) = tickCountdown (WindMidCountdown s) WindMidInterval;
     (s, g) = (if fire then let (r, g) = rng_Float64 g
                 in (s\<lparr>WindMidOffset := (r - flit (1/2)) * flit 2 * WindMidMagnitude\<rparr>, g) else (s, g))
     in (s\<lparr>WindMidCountdown := c\<rparr>, g))"

definition windChange :: "game_state \<Rightarrow> rng \<Rightarrow> game_state \<times> rng" where
  "windChange s g = (let (r, g) = rng_Float64 g;
     reset = int_of_f64 (f64_of_int WindChangeInterval * (flit (1/2) + r));
     (c, fire) = tickCountdown (WindChangeCountdown s) reset;
     (s, g) = (if fire then let (r, g) = rng_Float64 g
                 in (s\<lparr>WindTarget := (r - flit (1/2)) * WindTargetSpan\<rparr>, g) else (s, g))
     in (s\<lparr>WindChangeCountdown := c\<rparr>, g))"

definition windPush :: "game_state \<Rightarrow> game_state" where
  "windPush s = (let effectiveTarget = WindTarget s + WindMidOffset s;
     s = s\<lparr>Wind := Wind s + (effectiveTarget - Wind s) * WindLerpRate\<rparr>;
     s = s\<lparr>Wind := fmax (- WindClamp) (fmin WindClamp (Wind s))\<rparr>;
     edgeDist = fmin (b_X (Balloon s)) (flit 1 - b_X (Balloon s));
     windScale = (if edgeDist < WindEdgeSoftZone then edgeDist / WindEdgeSoftZone else flit 1);
     windScale = fmax 0 windScale;
     b = Balloon s
     in s\<lparr>Balloon := b\<lparr>b_VX := b_VX b + Wind s * WindMax * windScale\<rparr>\<rparr>)"

lemma UpdateWind_stages:
  "UpdateWind s g = (let (s, g) = windMicro s g; (s, g) = windMid s g; (s, g) = windChange s g in (windPush s, g))"
  unfolding UpdateWind_def windMicro_def windMid_def windChange_def windPush_def Let_def split_def
  by (simp only: fst_conv snd_conv)

definition wind_mid_ok :: "game_state \<Rightarrow> bool" where
  "wind_mid_ok s \<longleftrightarrow> btw (- 2) 2 (Wind s) \<and> btw (- 1/2) (1/2) (WindTarget s)
     \<and> btw (- val WindMidMagnitude) (val WindMidMagnitude) (WindMidOffset s)
     \<and> 1 \<le> WindMicroCountdown s \<and> WindMicroCountdown s \<le> 10
     \<and> 1 \<le> WindMidCountdown s \<and> WindMidCountdown s \<le> 75
     \<and> 1 \<le> WindChangeCountdown s \<and> WindChangeCountdown s \<le> 338"

lemma windMicro_ok:
  assumes "wind_ok s" "rng_ok g"
  shows "wind_mid_ok (fst (windMicro s g)) \<and> rng_ok (snd (windMicro s g)) \<and> Balloon (fst (windMicro s g)) = Balloon s"
proof -
  obtain r g' where r: "rng_Float64 g = (r, g')" "btw 0 1 r" "rng_ok g'" by (rule Float64_cases [OF assms(2)])
  have j: "btw (- (1/4)) (1/4) WindJitter" using const_btw(7) by (rule btw_mono) simp_all
  have a: "btw (- (1/2)) (1/2) ((r - flit (1/2)) * WindJitter)"
    by (rule btw_mul_abs [OF centred [OF r(2)] j]) simp_all
  have b: "btw (- 1) 1 ((r - flit (1/2)) * WindJitter * flit 2)"
    using btw_mono [OF const_btw(19), of "- 2" 2] by (intro btw_mul_abs [OF a, of 2]) simp_all
  have w: "btw (- 1) 1 (Wind s)" using assms(1) WindClamp_pos by (auto simp: wind_ok_def btw_def)
  have "btw (- 2) 2 (Wind s + (r - flit (1/2)) * WindJitter * flit 2)" by (rule btw_add [OF w b]) simp_all
  then show ?thesis using assms r btw_mono [OF w, of "- 2" 2]
    by (simp add: windMicro_def tickCountdown_def wind_ok_def wind_mid_ok_def WindMicroInterval_def)
qed

lemma windMid_ok:
  assumes "wind_mid_ok s" "rng_ok g"
  shows "wind_mid_ok (fst (windMid s g)) \<and> rng_ok (snd (windMid s g)) \<and> Balloon (fst (windMid s g)) = Balloon s"
proof -
  obtain r g' where r: "rng_Float64 g = (r, g')" "btw 0 1 r" "rng_ok g'" by (rule Float64_cases [OF assms(2)])
  have a: "btw (- 1) 1 ((r - flit (1/2)) * flit 2)"
    using btw_mono [OF const_btw(19), of "- 2" 2] by (intro btw_mul_abs [OF centred [OF r(2)], of 2]) simp_all
  have "btw (- val WindMidMagnitude) (val WindMidMagnitude) ((r - flit (1/2)) * flit 2 * WindMidMagnitude)"
    using const_btw(8) by (intro btw_scale [OF a]) (auto simp: btw_def)
  then show ?thesis using assms r by (simp add: windMid_def tickCountdown_def wind_mid_ok_def WindMidInterval_def)
qed

lemma windChange_ok:
  assumes "wind_mid_ok s" "rng_ok g"
  shows "wind_mid_ok (fst (windChange s g)) \<and> rng_ok (snd (windChange s g)) \<and> Balloon (fst (windChange s g)) = Balloon s"
proof -
  obtain r g1 where r: "rng_Float64 g = (r, g1)" "btw 0 1 r" "rng_ok g1" by (rule Float64_cases [OF assms(2)])
  obtain q g2 where q: "rng_Float64 g1 = (q, g2)" "btw 0 1 q" "rng_ok g2" by (rule Float64_cases [OF r(3)])
  have "btw (- (1/2)) (1/2) ((q - flit (1/2)) * WindTargetSpan)"
    using btw_mono [OF const_btw(10), of "- 1" 1] by (intro btw_mul_abs [OF centred [OF q(2)], of 1]) simp_all
  then show ?thesis using assms r q WindChange_reset [OF r(2)]
    by (simp add: windChange_def tickCountdown_def wind_mid_ok_def Let_def)
qed

lemma windPush_ok:
  assumes "wind_mid_ok s" "balloon_ok (Balloon s)"
  shows "wind_ok (windPush s) \<and> balloon_ok (Balloon (windPush s)) \<and> airborne (Balloon (windPush s)) = airborne (Balloon s)"
proof -
  have w: "btw (- 2) 2 (Wind s)" and t: "btw (- (1/2)) (1/2) (WindTarget s)" and o1: "btw (- (1/4)) (1/4) (WindMidOffset s)"
    using assms(1) const_btw(8) by (auto simp: wind_mid_ok_def btw_def)
  have e: "btw (- 1) 1 (WindTarget s + WindMidOffset s)" by (rule btw_add [OF t o1]) simp_all
  have d: "btw (- 3) 3 (WindTarget s + WindMidOffset s - Wind s)" by (rule btw_sub [OF e w]) simp_all
  have l: "btw (- 3) 3 ((WindTarget s + WindMidOffset s - Wind s) * WindLerpRate)"
    using btw_mono [OF const_btw(6), of "- 1" 1] by (intro btw_mul_abs [OF d, of 1]) simp_all
  define w2 where "w2 = fmax (- WindClamp) (fmin WindClamp (Wind s + (WindTarget s + WindMidOffset s - Wind s) * WindLerpRate))"
  have w2: "btw (- val WindClamp) (val WindClamp) w2"
    unfolding w2_def using fin_add [OF btw_fin [OF w] l] by (intro fclamp_btw WindClamp_pos) simp
  define sc where "sc = (let e = fmin (b_X (Balloon s)) (flit 1 - b_X (Balloon s))
     in fmax 0 (if e < WindEdgeSoftZone then e / WindEdgeSoftZone else flit 1))"
  have sc: "btw 0 1 sc" using windScale_btw assms(2) by (simp add: sc_def Let_def balloon_ok_def)
  have p: "btw (- 1) 1 (w2 * WindMax)"
    using btw_mono [OF w2, of "- 1" 1] WindClamp_pos btw_mono [OF const_btw(5), of "- 1" 1]
    by (intro btw_mul_abs [of 1 _ 1]) simp_all
  have q: "btw (- 1) 1 (w2 * WindMax * sc)"
    using btw_mono [OF sc, of "- 1" 1] by (intro btw_mul_abs [OF p, of 1]) simp_all
  have "fin64 (b_VX (Balloon s) + w2 * WindMax * sc)"
    by (rule fin_add [OF _ q]) (use assms(2) in \<open>simp_all add: balloon_ok_def\<close>)
  moreover have "windPush s = s\<lparr>Wind := w2, Balloon := (Balloon s)\<lparr>b_VX := b_VX (Balloon s) + w2 * WindMax * sc\<rparr>\<rparr>"
    by (simp add: windPush_def Let_def w2_def sc_def)
  ultimately show ?thesis using assms w2 by (simp add: wind_ok_def wind_mid_ok_def balloon_ok_def airborne_def)
qed

lemma UpdateWind_ok:
  assumes "wind_ok s" "balloon_ok (Balloon s)" "rng_ok g"
  shows "wind_ok (fst (UpdateWind s g))" "balloon_ok (Balloon (fst (UpdateWind s g)))"
    "airborne (Balloon (fst (UpdateWind s g))) = airborne (Balloon s)" "rng_ok (snd (UpdateWind s g))"
proof -
  obtain s1 g1 where 1: "windMicro s g = (s1, g1)" by fastforce
  obtain s2 g2 where 2: "windMid s1 g1 = (s2, g2)" by fastforce
  obtain s3 g3 where 3: "windChange s2 g2 = (s3, g3)" by fastforce
  have a: "wind_mid_ok s1" "rng_ok g1" "Balloon s1 = Balloon s" using windMicro_ok [OF assms(1,3)] 1 by simp_all
  have b: "wind_mid_ok s2" "rng_ok g2" "Balloon s2 = Balloon s" using windMid_ok [OF a(1,2)] 2 a by simp_all
  have c: "wind_mid_ok s3" "rng_ok g3" "Balloon s3 = Balloon s" using windChange_ok [OF b(1,2)] 3 b by simp_all
  have eq: "UpdateWind s g = (windPush s3, g3)" by (simp add: UpdateWind_stages 1 2 3)
  show "wind_ok (fst (UpdateWind s g))" "balloon_ok (Balloon (fst (UpdateWind s g)))"
    "airborne (Balloon (fst (UpdateWind s g))) = airborne (Balloon s)" "rng_ok (snd (UpdateWind s g))"
    unfolding eq using windPush_ok [OF c(1)] c assms(2) by simp_all
qed

section \<open>States\<close>

lemma createInitial_ok:
  "balloon_ok createInitialBalloon" "airborne createInitialBalloon"
  "1 \<le> t \<Longrightarrow> t \<le> 30 \<Longrightarrow> bird_ok (createInitialBird t)"
proof -
  show "balloon_ok createInitialBalloon" "airborne createInitialBalloon"
    using const_btw(18,29) by (auto simp: createInitialBalloon_def balloon_ok_def airborne_def btw_def)
  have "btw (- 2) 2 0" "btw (- val BirdSpeed) (val BirdSpeed) 0" using const_btw(11) by (auto simp: btw_def)
  then show "1 \<le> t \<Longrightarrow> t \<le> 30 \<Longrightarrow> bird_ok (createInitialBird t)"
    by (simp add: createInitialBird_def bird_ok_def)
qed

lemma initWind_frame [simp]:
  "Balloon (fst (initWind s g)) = Balloon s" "Bird (fst (initWind s g)) = Bird s"
  "Ghost (fst (initWind s g)) = Ghost s" "Phase (fst (initWind s g)) = Phase s"
  by (simp_all add: initWind_def Let_def split_def)

lemma NewGameState_ok:
  assumes "rng_ok g"
  shows "phys_ok (fst (NewGameState now code seed g))" "rng_ok (snd (NewGameState now code seed g))"
proof -
  obtain t g1 where t: "RandomSpawnTimer g = (t, g1)" "15 \<le> t" "t \<le> 30" "rng_ok g1"
    using RandomSpawnTimer_ok [OF assms] by (cases "RandomSpawnTimer g") auto
  obtain h g2 where h: "spawnGhost g1 = (h, g2)" "ghost_ok h" "rng_ok g2"
    using spawnGhost_ok [OF t(4)] by (cases "spawnGhost g1") auto
  show "phys_ok (fst (NewGameState now code seed g))" "rng_ok (snd (NewGameState now code seed g))"
    using t h initWind_ok [OF h(3)] createInitial_ok by (simp_all add: NewGameState_def phys_ok_def Let_def)
qed

lemma ResetGameEntities_ok:
  assumes "rng_ok g" "1 \<le> t" "t \<le> 30"
  shows "phys_ok (fst (ResetGameEntities t s g))" "rng_ok (snd (ResetGameEntities t s g))"
proof -
  obtain h g2 where h: "spawnGhost g = (h, g2)" "ghost_ok h" "rng_ok g2"
    using spawnGhost_ok [OF assms(1)] by (cases "spawnGhost g") auto
  define s1 where "s1 = s\<lparr>Balloon := createInitialBalloon, Bird := createInitialBird t, Ghost := h, TickCount := 0\<rparr>"
  obtain s2 g3 where s2: "initWind s1 g2 = (s2, g3)" by fastforce
  have e: "s2 = fst (initWind s1 g2)" "g3 = snd (initWind s1 g2)" using s2 by simp_all
  have "wind_ok s2" "rng_ok g3" "Balloon s2 = createInitialBalloon" "Bird s2 = createInitialBird t" "Ghost s2 = h"
    unfolding e using initWind_ok [OF h(3), of s1] by (simp_all add: s1_def)
  moreover have "ResetGameEntities t s g = (s2\<lparr>RestartVotes := [], RestartTimerStart := None\<rparr>, g3)"
    using s2 by (simp add: ResetGameEntities_def Let_def h(1) s1_def)
  ultimately show "phys_ok (fst (ResetGameEntities t s g))" "rng_ok (snd (ResetGameEntities t s g))"
    using h createInitial_ok assms by (simp_all add: phys_ok_def wind_ok_def)
qed

section \<open>Cooldown\<close>

lemma fround_btw:
  assumes "btw (of_int a) (of_int b) x" "0 \<le> a" "b \<le> 2 ^ 40"
  shows "of_int a \<le> val (fround x) \<and> val (fround x) \<le> of_int b \<and> finite64 (fround x)"
proof -
  obtain s q where x: "x = Fin s q" using assms(1) by (cases x) (auto simp: btw_def fin64_def)
  have q: "0 \<le> q" using assms(1) x by (auto simp: btw_def fin64_def)
  have v: "of_int a \<le> val x" "val x \<le> of_int b" using assms(1) by (auto simp: btw_def)
  have a0: "(0 :: rat) \<le> of_int a" using assms(2) by simp
  show ?thesis
  proof (cases s)
    case True
    then have "q = 0" using v(1) a0 q x by (auto simp: algebra_simps)
    moreover have "\<lfloor>1/2 :: rat\<rfloor> = 0" by (simp add: floor_eq_iff)
    ultimately show ?thesis using v x by simp
  next
    case False
    have "a \<le> \<lfloor>q + 1/2\<rfloor>" "\<lfloor>q + 1/2\<rfloor> \<le> b" using v x False by (auto simp: le_floor_iff floor_le_iff)
    then show ?thesis using x False by simp
  qed
qed

lemma CalculateCooldown_range:
  assumes "mathlib_ok ml" "0 \<le> n" "n \<le> 2 ^ 53"
  shows "1000 \<le> CalculateCooldown ml n \<and> CalculateCooldown ml n \<le> 15000"
proof -
  have f: "isfloat 1000" "isfloat 2032" "isfloat (2032 * 1024)" "isfloat 3000000"
    using isfloat_small [of 1000] isfloat_small [of 2032] isfloat_small [of "2032 * 1024"] isfloat_small [of 3000000]
    by simp_all
  have n: "btw 0 (2 ^ 53) (f64_of_int n)"
    unfolding f64_of_int_def using assms(2,3) isfloat_small [of "2 ^ 53"] by (intro rnd64_btw) simp_all
  have "fin64 (fmax (flit 1) (f64_of_int n)) \<and> 1 \<le> val (fmax (flit 1) (f64_of_int n))"
    using fmax_fin [OF const_fin(17) btw_fin [OF n]] by simp
  then have l: "btw 0 1024 (m_log2 ml (fmax (flit 1) (f64_of_int n)))" using assms(1) by (simp add: mathlib_ok_def)
  define z where "z = CooldownBaseMs + CooldownLogCoeff * m_log2 ml (fmax (flit 1) (f64_of_int n))"
  have c: "btw 0 2032 CooldownLogCoeff" "btw 1000 1000 CooldownBaseMs"
    unfolding CooldownLogCoeff_def CooldownBaseMs_def using f by (auto intro!: flit_btw)
  have p: "btw 0 (2032 * 1024) (CooldownLogCoeff * m_log2 ml (fmax (flit 1) (f64_of_int n)))"
    by (rule btw_mul_nonneg [OF c(1) l]) (use f in simp_all)
  have "btw 1000 3000000 z" unfolding z_def by (rule btw_add [OF c(2) p]) (use f in simp_all)
  then have "btw (of_int 1000) (of_int 3000000) z" by simp
  then have r: "1000 \<le> val (fround z)" "val (fround z) \<le> 3000000" "finite64 (fround z)"
    using fround_btw [of 1000 3000000 z] by auto
  then have t: "trunc_rat (val (fround z)) = \<lfloor>val (fround z)\<rfloor>" by (simp add: trunc_rat_def)
  have "1000 \<le> \<lfloor>val (fround z)\<rfloor>" "\<lfloor>val (fround z)\<rfloor> \<le> 3000000" using r by (auto simp: le_floor_iff floor_le_iff)
  then have "1000 \<le> int_of_f64 (fround z)" using t r(3) by (cases "fround z") (auto simp: Let_def)
  then show ?thesis by (simp add: CalculateCooldown_def CooldownMaxMs_def flip: z_def)
qed

section \<open>Properties\<close>

text \<open>A mathematics library for evaluation: all four functions are constantly 0.\<close>

definition zero_math :: mathlib where
  "zero_math = \<lparr>m_sin = (\<lambda>_. 0), m_cos = (\<lambda>_. 0), m_atan2 = (\<lambda>_ _. 0), m_log2 = (\<lambda>_. 0)\<rparr>"

lemma zero_math_ok: "mathlib_ok zero_math"
  using btw_mono [OF fin_0_btw] by (simp add: mathlib_ok_def zero_math_def)

text \<open>C26: A physics step of a balloon in the air keeps it between the walls, with finite numbers and its score; the height is the old one
  plus the velocity less gravity, capped at the ceiling; and the step reports the end of the game exactly when this height is not
  above the ground. (On the ground the height is not clamped: it can be below zero until \<^verbatim>\<open>EndGameWithReason\<close> sets it to zero.)\<close>

theorem physics_step_bounded:
  assumes "balloon_ok b" "airborne b"
  shows "let (b', over) = ApplyPhysics b; y = b_Y b + (b_VY b - Gravity)
    in fin64 (b_X b') \<and> 0 \<le> val (b_X b') \<and> val (b_X b') \<le> 1 \<and> fin64 (b_VX b') \<and> fin64 (b_VY b') \<and> b_Score b' = b_Score b
     \<and> fin64 y \<and> (over \<longleftrightarrow> val y \<le> 0) \<and> b_Y b' = (if 1 \<le> val y then flit 1 else y) \<and> val (b_Y b') \<le> 1"
proof -
  obtain b' over where a: "ApplyPhysics b = (b', over)" by fastforce
  have vy: "fin64 (b_VY b - Gravity)" using fin_sub [OF _ const_btw(1)] assms(1) by (simp add: balloon_ok_def)
  have bt: "btw 0 1 (b_Y b)" using assms by (simp add: balloon_ok_def airborne_def btw_def)
  have y: "fin64 (b_Y b + (b_VY b - Gravity))"
    using fin_add [OF vy bt] fadd_commute [of "b_Y b" "b_VY b - Gravity"] vy bt by (simp add: btw_def)
  have cmp: "b_Y b + (b_VY b - Gravity) \<le> 0 \<longleftrightarrow> val (b_Y b + (b_VY b - Gravity)) \<le> 0"
    "flit 1 \<le> b_Y b + (b_VY b - Gravity) \<longleftrightarrow> 1 \<le> val (b_Y b + (b_VY b - Gravity))"
    using fle_fin [OF y fin_0] fle_fin [OF const_fin(17) y] by simp_all
  have e: "over \<longleftrightarrow> b_Y b + (b_VY b - Gravity) \<le> 0"
    "b_Y b' = (if \<not> over \<and> flit 1 \<le> b_Y b + (b_VY b - Gravity) then flit 1 else b_Y b + (b_VY b - Gravity))" "b_Score b' = b_Score b"
    using a by (auto simp: ApplyPhysics_def Let_def split: if_splits)
  show ?thesis using ApplyPhysics_ok(1) [OF assms] a e cmp y by (auto simp: balloon_ok_def btw_def)
qed

theorem physics_step_bounded_witness:
  "balloon_ok createInitialBalloon \<and> val (b_Y (fst (ApplyPhysics createInitialBalloon))) \<le> 1"
  using physics_step_bounded [OF createInitial_ok(1,2)] createInitial_ok(1) by (simp add: split_def Let_def)

text \<open>The cooldown after a tap is between one and fifteen seconds for every number of players.\<close>

theorem cooldown_range:
  assumes "mathlib_ok ml" "0 \<le> n" "n \<le> 2 ^ 53"
  shows "1000 \<le> CalculateCooldown ml n \<and> CalculateCooldown ml n \<le> 15000"
  by (rule CalculateCooldown_range [OF assms])

theorem cooldown_range_witness:
  "mathlib_ok zero_math \<and> 1000 \<le> CalculateCooldown zero_math 3 \<and> CalculateCooldown zero_math 3 \<le> 15000"
  using cooldown_range [OF zero_math_ok, of 3] zero_math_ok by simp

text \<open>A tap inside the playing field, accepted or not, leaves the balloon where it is and its velocities
  finite; an accepted tap changes each velocity component by at most 1.\<close>

theorem tap_force_bounded:
  assumes "balloon_ok b" "btw 0 1 tapX" "btw 0 1 tapY"
  shows "balloon_ok (fst (ApplyTapForce tapX tapY b))
    \<and> b_X (fst (ApplyTapForce tapX tapY b)) = b_X b \<and> b_Y (fst (ApplyTapForce tapX tapY b)) = b_Y b
    \<and> (\<exists>dvx dvy. btw (- 1) 1 dvx \<and> btw (- 1) 1 dvy
         \<and> b_VX (fst (ApplyTapForce tapX tapY b)) \<in> {b_VX b, b_VX b + dvx}
         \<and> b_VY (fst (ApplyTapForce tapX tapY b)) \<in> {b_VY b, b_VY b + dvy})"
proof (cases "snd (ApplyTapForce tapX tapY b)")
  case True
  with ApplyTapForce_impulse [OF assms True] ApplyTapForce_ok(1) [OF assms] show ?thesis by fastforce
next
  case False
  then have "fst (ApplyTapForce tapX tapY b) = b" by (auto simp: ApplyTapForce_def Let_def split: if_splits)
  then show ?thesis using assms(1) btw_mono [OF fin_0_btw, of "- 1" 1] by auto
qed

theorem tap_force_bounded_witness:
  "balloon_ok (fst (ApplyTapForce 0 0 createInitialBalloon))"
  using tap_force_bounded [OF createInitial_ok(1), of 0 0] btw_mono [OF fin_0_btw, of 0 1] by simp

end
