(* ===== verification/Client_Codec.thy ===== *)
theory Client_Codec
  imports Protocol
begin

text \<open>
  The other end of the wire: the decoder of snapshots and the encoders of client messages of the
  browser client (\<^verbatim>\<open>frontend/src/game/message_codec.ts\<close>, \<^verbatim>\<open>frontend/src/game/input.ts\<close>), with which
  the server's encoders and decoders have to agree.

  A \<^verbatim>\<open>DataView\<close> is the list of its bytes; a read out of range throws \<^verbatim>\<open>RangeError\<close>, which is \<open>None\<close>.
  A JavaScript string is the list of its code points. the readings of \<^verbatim>\<open>Date.now()\<close> during a call are one argument \<open>now\<close>, and
  \<^verbatim>\<open>TextDecoder.decode\<close> the argument \<open>dec\<close>, with \<open>text_decoder\<close> as what is documented of it.

  The lemmas show that a snapshot the server encodes is decoded by the client to the same data,
  and that a nickname or a tap the client sends is decoded by the server to what was sent.
\<close>

section \<open>Reading a view\<close>

definition getUint8 :: "byte list \<Rightarrow> nat \<Rightarrow> nat option" where
  "getUint8 v off = (if off < length v then Some (unat (v ! off)) else None)"

definition getUint16 :: "byte list \<Rightarrow> nat \<Rightarrow> 16 word option" where
  "getUint16 v off = (if off + 2 \<le> length v then Some (get_u16 (drop off v)) else None)"

definition getUint32 :: "byte list \<Rightarrow> nat \<Rightarrow> 32 word option" where
  "getUint32 v off = (if off + 4 \<le> length v then Some (get_u32 (drop off v)) else None)"

definition getFloat32 :: "byte list \<Rightarrow> nat \<Rightarrow> f64 option" where
  "getFloat32 v off = map_option Float32frombits (getUint32 v off)"

definition text_decoder :: "(gostring \<Rightarrow> nat list) \<Rightarrow> bool" where
  "text_decoder dec \<longleftrightarrow>
     (\<forall>s. valid_utf8 s \<and> runes s \<noteq> [] \<and> hd (runes s) \<noteq> 0xFEFF \<longrightarrow> dec s = runes s)"

section \<open>Decoding a snapshot\<close>

record client_balloon =
  cb_x :: f64
  cb_y :: f64
  cb_vx :: f64
  cb_vy :: f64

record client_bird =
  cd_active :: bool
  cd_x :: f64
  cd_y :: f64

record client_ghost =
  cg_active :: bool
  cg_x :: f64
  cg_y :: f64
  cg_repelTimer :: "16 word"

record client_player =
  cp_playerIndex :: "16 word"
  cp_cooldownEndTime :: int
  cp_palette :: "32 word"
  cp_scoreContribution :: "32 word"
  cp_nickname :: "nat list"

record client_ripple =
  cr_playerIndex :: "16 word"
  cr_x :: f64
  cr_y :: f64
  cr_time :: int

record client_snapshot =
  cs_timestamp :: "32 word"
  cs_score :: "32 word"
  cs_phase :: phase
  cs_balloon :: client_balloon
  cs_bird :: client_bird
  cs_ghost :: client_ghost
  cs_players :: "client_player list"
  cs_ripples :: "client_ripple list"
  cs_wind :: "f64 option"
  cs_playerCount :: nat

definition MAX_NICKNAME_RUNES :: nat where
  "MAX_NICKNAME_RUNES = 12"

definition truncateNickname :: "nat list \<Rightarrow> nat list" where
  "truncateNickname s = (if length s \<le> MAX_NICKNAME_RUNES then s else take MAX_NICKNAME_RUNES s)"

definition codeToPhase :: "nat \<Rightarrow> phase" where
  "codeToPhase code = (if code = 0 then PhaseWaiting else if code = 1 then PhasePlaying
     else if code = 2 then PhaseEnded else if code = 3 then PhaseCountdown else PhaseWaiting)"

definition readBalloon :: "byte list \<Rightarrow> nat \<Rightarrow> (client_balloon \<times> nat) option" where
  "readBalloon v off = do {
     x \<leftarrow> getFloat32 v off;
     y \<leftarrow> getFloat32 v (off + 4);
     vx \<leftarrow> getFloat32 v (off + 8);
     vy \<leftarrow> getFloat32 v (off + 12);
     Some (\<lparr>cb_x = x, cb_y = y, cb_vx = vx, cb_vy = vy\<rparr>, 16)
   }"

definition readBird :: "byte list \<Rightarrow> nat \<Rightarrow> (client_bird \<times> nat) option" where
  "readBird v off =
     (if length v < off + 1 then Some (\<lparr>cd_active = False, cd_x = 0, cd_y = 0\<rparr>, 0)
      else do {
        b \<leftarrow> getUint8 v off;
        let active = (b = 1);
        if \<not> active \<or> length v < off + 9 then Some (\<lparr>cd_active = active, cd_x = 0, cd_y = 0\<rparr>, 1)
        else do {
          x \<leftarrow> getFloat32 v (off + 1);
          y \<leftarrow> getFloat32 v (off + 5);
          Some (\<lparr>cd_active = active, cd_x = x, cd_y = y\<rparr>, 9)
        }
      })"

definition readGhost :: "byte list \<Rightarrow> nat \<Rightarrow> (client_ghost \<times> nat) option" where
  "readGhost v off =
     (if length v < off + 1 then Some (\<lparr>cg_active = False, cg_x = 0, cg_y = 0, cg_repelTimer = 0\<rparr>, 0)
      else do {
        b \<leftarrow> getUint8 v off;
        let active = (b = 1);
        if \<not> active \<or> length v < off + 11
        then Some (\<lparr>cg_active = active, cg_x = 0, cg_y = 0, cg_repelTimer = 0\<rparr>, 1)
        else do {
          x \<leftarrow> getFloat32 v (off + 1);
          y \<leftarrow> getFloat32 v (off + 5);
          t \<leftarrow> getUint16 v (off + 9);
          Some (\<lparr>cg_active = active, cg_x = x, cg_y = y, cg_repelTimer = t\<rparr>, 11)
        }
      })"

definition clampedNickLength :: "byte list \<Rightarrow> nat \<Rightarrow> nat option" where
  "clampedNickLength v off =
     (let maxLen = int (length v) - int off - 1
      in if maxLen > 0 then map_option (\<lambda>n. min n (nat maxLen)) (getUint8 v off) else Some 0)"

text \<open>The body of the player loop, and of the ripple loop; each returns the next start.\<close>

definition readPlayer ::
  "(gostring \<Rightarrow> nat list) \<Rightarrow> int \<Rightarrow> byte list \<Rightarrow> nat \<Rightarrow> (client_player \<times> nat) option" where
  "readPlayer dec now v off = do {
     playerIndex \<leftarrow> getUint16 v off;
     let off = off + 2;
     cooldownRemainingMs \<leftarrow> getUint32 v off;
     let off = off + 4;
     palette \<leftarrow> getUint32 v off;
     let off = off + 4;
     scoreContribution \<leftarrow> getUint32 v off;
     let off = off + 4;
     nickLen \<leftarrow> clampedNickLength v off;
     let off = off + 1;
     let nickname = (if nickLen > 0 then dec (take nickLen (drop off v)) else []);
     let nickname = truncateNickname nickname;
     let off = off + nickLen;
     Some (\<lparr>cp_playerIndex = playerIndex, cp_cooldownEndTime = now + uint cooldownRemainingMs,
            cp_palette = palette, cp_scoreContribution = scoreContribution, cp_nickname = nickname\<rparr>, off)
   }"

definition readRipple :: "int \<Rightarrow> byte list \<Rightarrow> nat \<Rightarrow> (client_ripple \<times> nat) option" where
  "readRipple now v off = do {
     pIdx \<leftarrow> getUint16 v off;
     let off = off + 2;
     rx \<leftarrow> getFloat32 v off;
     let off = off + 4;
     ry \<leftarrow> getFloat32 v off;
     let off = off + 4;
     Some (\<lparr>cr_playerIndex = pIdx, cr_x = rx, cr_y = ry, cr_time = now\<rparr>, off)
   }"

text \<open>\<^verbatim>\<open>for (let i = 0; i < count; i++) { if (view.byteLength < o + least) break; ... }\<close>\<close>

fun read_items ::
  "(byte list \<Rightarrow> nat \<Rightarrow> ('b \<times> nat) option) \<Rightarrow> nat \<Rightarrow> byte list \<Rightarrow> nat \<Rightarrow> nat \<Rightarrow> ('b list \<times> nat) option" where
  "read_items rd least v 0 off = Some ([], off)"
| "read_items rd least v (Suc k) off =
     (if length v < off + least then Some ([], off)
      else do {
        (x, off) \<leftarrow> rd v off;
        (xs, off) \<leftarrow> read_items rd least v k off;
        Some (x # xs, off)
      })"

definition readPlayers ::
  "(gostring \<Rightarrow> nat list) \<Rightarrow> int \<Rightarrow> byte list \<Rightarrow> nat \<Rightarrow> (client_player list \<times> nat \<times> nat) option" where
  "readPlayers dec now v start =
     (if length v < start + 1 then Some ([], 0, 0)
      else do {
        playerCount \<leftarrow> getUint8 v start;
        (players, off) \<leftarrow> read_items (readPlayer dec now) 15 v playerCount (start + 1);
        Some (players, playerCount, off - start)
      })"

text \<open>The result \<open>Some None\<close> is \<^verbatim>\<open>null\<close>.\<close>

definition decodeSnapshot ::
  "(gostring \<Rightarrow> nat list) \<Rightarrow> int \<Rightarrow> byte list \<Rightarrow> client_snapshot option option" where
  "decodeSnapshot dec now v =
     (if length v < 37 then Some None
      else do {
        let off = 1;
        timestamp \<leftarrow> getUint32 v off;
        let off = off + 4;
        score \<leftarrow> getUint32 v off;
        let off = off + 4;
        phaseCode \<leftarrow> getUint8 v off;
        let off = off + 1;
        let phase = codeToPhase phaseCode;
        (balloon, n) \<leftarrow> readBalloon v off;
        let off = off + n;
        (bird, n) \<leftarrow> readBird v off;
        let off = off + n;
        (ghost, n) \<leftarrow> readGhost v off;
        let off = off + n;
        (players, playerCount, n) \<leftarrow> readPlayers dec now v off;
        let off = off + n;
        (ripples, off) \<leftarrow>
          (if off < length v
           then do {
             rippleCount \<leftarrow> getUint8 v off;
             read_items (readRipple now) 10 v rippleCount (off + 1)
           }
           else Some ([], off));
        wind \<leftarrow> (if off + 4 \<le> length v then map_option Some (getFloat32 v off) else Some None);
        Some (Some \<lparr>cs_timestamp = timestamp, cs_score = score, cs_phase = phase, cs_balloon = balloon,
                    cs_bird = bird, cs_ghost = ghost, cs_players = players, cs_ripples = ripples,
                    cs_wind = wind, cs_playerCount = playerCount\<rparr>)
      })"

section \<open>Messages of the client\<close>

definition encodeSetNickname :: "nat list \<Rightarrow> byte list option" where
  "encodeSetNickname nickname =
     (let truncated = truncateNickname nickname; nickBytes = string_of_runes truncated
      in if length nickBytes > 255 then None
         else Some (MsgSetNickname # of_nat (length nickBytes) # nickBytes))"

definition createTapMessage :: "f64 \<Rightarrow> f64 \<Rightarrow> byte list" where
  "createTapMessage x y = MsgTap # put_u32 (float32_bits x) @ put_u32 (float32_bits y)"

section \<open>Reading what was written\<close>

text \<open>A reader meets the bytes that are left at its start: the facts below take the rest of the view.\<close>

lemma drop_rest: "drop off v = xs @ rest \<Longrightarrow> drop (off + length xs) v = rest"
  by (metis append_eq_conv_conj drop_drop add.commute)

lemma length_rest: "drop off v = xs \<Longrightarrow> xs \<noteq> [] \<Longrightarrow> length v = off + length xs"
  by (metis drop_eq_Nil le_add_diff_inverse length_drop linorder_not_le nat_less_le)

lemma get8_rest: "drop off v = b # rest \<Longrightarrow> getUint8 v off = Some (unat b)"
  using length_rest [of off v "b # rest"] nth_via_drop [of off v b rest] by (simp add: getUint8_def)

lemma put_nonempty [simp]: "put_u16 w \<noteq> []" "put_u32 w32 \<noteq> []"
  by (simp_all add: put_u16_def put_u32_def)

lemma get16_rest: "drop off v = put_u16 w @ rest \<Longrightarrow> getUint16 v off = Some w"
  using length_rest [of off v "put_u16 w @ rest"] by (simp add: getUint16_def get_put_u16)

lemma get32_rest: "drop off v = put_u32 w @ rest \<Longrightarrow> getUint32 v off = Some w"
  using length_rest [of off v "put_u32 w @ rest"] by (simp add: getUint32_def get_put_u32)

lemma getf_rest: "drop off v = put_u32 (Float32bits x) @ rest \<Longrightarrow> wf32 x \<Longrightarrow> getFloat32 v off = Some x"
  using get32_rest by (simp add: getFloat32_def Float32bits_frombits)

lemma drop16: "drop off v = put_u16 w @ rest \<Longrightarrow> drop (off + 2) v = rest"
  and drop32: "drop off v = put_u32 w32 @ rest \<Longrightarrow> drop (off + 4) v = rest"
  and drop8: "drop off v = b # rest \<Longrightarrow> drop (off + 1) v = rest"
  using drop_rest [of off v "put_u16 w" rest] drop_rest [of off v "put_u32 w32" rest]
    drop_rest [of off v "[b]" rest] by simp_all

lemmas reads = get8_rest get16_rest get32_rest getf_rest
lemmas moves = drop8 drop16 drop32

text \<open>A reader that takes back what an encoder wrote, and moves past it. Reading a counted sequence of
  such items gives all of them back.\<close>

locale wire_reader =
  fixes enc :: "'a \<Rightarrow> byte list" and read :: "byte list \<Rightarrow> nat \<Rightarrow> ('b \<times> nat) option"
    and ok :: "'a \<Rightarrow> bool" and img :: "'a \<Rightarrow> 'b" and least :: nat
  assumes read_enc: "ok x \<Longrightarrow> drop off v = enc x @ rest \<Longrightarrow> read v off = Some (img x, off + length (enc x))"
    and least_enc: "least \<le> length (enc x)" "0 < least"
begin

lemma read_items_enc:
  assumes "\<forall>x \<in> set xs. ok x" "drop off v = concat (map enc xs) @ rest"
  shows "read_items read least v (length xs) off = Some (map img xs, off + length (concat (map enc xs)))"
  using assms
proof (induction xs arbitrary: off)
  case (Cons x xs)
  have d: "drop off v = enc x @ (concat (map enc xs) @ rest)" using Cons.prems by simp
  have "enc x \<noteq> []" using least_enc(1) [of x] least_enc(2) by auto
  then have "length v = off + length (enc x) + length (concat (map enc xs) @ rest)"
    using length_rest [OF d] by simp
  then have "\<not> length v < off + least" using least_enc(1) [of x] by simp
  moreover have "read v off = Some (img x, off + length (enc x))"
    using read_enc [OF _ d] Cons.prems by simp
  moreover have "read_items read least v (length xs) (off + length (enc x)) =
      Some (map img xs, off + length (enc x) + length (concat (map enc xs)))"
    using Cons.IH [of "off + length (enc x)"] Cons.prems drop_rest [OF d] by simp
  ultimately show ?case by (simp add: ac_simps)
qed simp

end

definition client_player_of :: "(gostring \<Rightarrow> nat list) \<Rightarrow> int \<Rightarrow> wire_player \<Rightarrow> client_player" where
  "client_player_of dec now p = \<lparr>cp_playerIndex = wp_PlayerIndex p,
     cp_cooldownEndTime = now + uint (wp_CooldownMs p), cp_palette = wp_Palette p,
     cp_scoreContribution = wp_ScoreContribution p,
     cp_nickname = truncateNickname (if wp_Nickname p = [] then [] else dec (wp_Nickname p))\<rparr>"

definition client_ripple_of :: "int \<Rightarrow> ripple \<Rightarrow> client_ripple" where
  "client_ripple_of now r = \<lparr>cr_playerIndex = rp_PlayerIndex r, cr_x = rp_X r, cr_y = rp_Y r, cr_time = now\<rparr>"

definition wire_player_ok :: "wire_player \<Rightarrow> bool" where
  "wire_player_ok p \<longleftrightarrow> length (wp_Nickname p) \<le> 255"

definition wire_ripple_ok :: "ripple \<Rightarrow> bool" where
  "wire_ripple_ok r \<longleftrightarrow> wf32 (rp_X r) \<and> wf32 (rp_Y r)"

lemma clampedNick_rest:
  assumes "drop off v = of_nat (length s) # s @ rest" "length s \<le> 255"
  shows "clampedNickLength v off = Some (length s)"
proof -
  have "int (length v) - int off - 1 = int (length s + length rest)"
    using length_rest [OF assms(1)] by simp
  moreover have "getUint8 v off = Some (length s)"
    using get8_rest [OF assms(1)] assms(2) by (simp add: unat_of_nat_byte)
  ultimately show ?thesis
    by (cases "s = []"; cases "rest = []") (simp_all add: clampedNickLength_def Let_def add_pos_pos)
qed

lemma readPlayer_rest:
  assumes "wire_player_ok p" "drop off v = player_bytes p @ rest"
  shows "readPlayer dec now v off = Some (client_player_of dec now p, off + length (player_bytes p))"
proof -
  let ?n = "wp_Nickname p"
  have 0: "drop off v = put_u16 (wp_PlayerIndex p) @ put_u32 (wp_CooldownMs p) @ put_u32 (wp_Palette p)
      @ put_u32 (wp_ScoreContribution p) @ of_nat (length ?n) # ?n @ rest"
    using assms(2) by (simp add: player_bytes_def)
  note 1 = drop16 [OF 0]
  note 2 = drop32 [OF 1]
  note 3 = drop32 [OF 2]
  note 4 = drop32 [OF 3]
  note 5 = drop8 [OF 4]
  have n: "clampedNickLength v (off + 2 + 4 + 4 + 4) = Some (length ?n)"
    using clampedNick_rest [OF 4] assms(1) by (simp add: wire_player_ok_def)
  show ?thesis
    unfolding readPlayer_def get16_rest [OF 0] get32_rest [OF 1] get32_rest [OF 2] get32_rest [OF 3]
      Option.bind_lunit Let_def n 5
    by (simp add: client_player_of_def player_bytes_def)
qed

lemma readRipple_rest:
  assumes "wire_ripple_ok r" "drop off v = ripple_bytes r @ rest"
  shows "readRipple now v off = Some (client_ripple_of now r, off + length (ripple_bytes r))"
proof -
  have 0: "drop off v = put_u16 (rp_PlayerIndex r) @ put_u32 (Float32bits (rp_X r))
      @ put_u32 (Float32bits (rp_Y r)) @ rest"
    using assms(2) by (simp add: ripple_bytes_def)
  note 1 = drop16 [OF 0]
  note 2 = drop32 [OF 1]
  show ?thesis
    using assms(1) get16_rest [OF 0] getf_rest [OF 1] getf_rest [OF 2]
    by (simp add: readRipple_def wire_ripple_ok_def client_ripple_of_def ripple_bytes_def)
qed

interpretation pl: wire_reader player_bytes "readPlayer dec now" wire_player_ok "client_player_of dec now" 15
  for dec now
  by unfold_locales (auto simp: readPlayer_rest, auto simp: player_bytes_def)

interpretation rp: wire_reader ripple_bytes "readRipple now" wire_ripple_ok "client_ripple_of now" 10
  for now
  by unfold_locales (auto simp: readRipple_rest, auto simp: ripple_bytes_def)


section \<open>The round trips\<close>

lemma readBalloon_rest:
  assumes "drop off v = encodeBalloon b @ rest" "wf32 (wb_X b)" "wf32 (wb_Y b)" "wf32 (wb_Vx b)" "wf32 (wb_Vy b)"
  shows "readBalloon v off =
    Some (\<lparr>cb_x = wb_X b, cb_y = wb_Y b, cb_vx = wb_Vx b, cb_vy = wb_Vy b\<rparr>, length (encodeBalloon b))"
proof -
  have 0: "drop off v = put_u32 (Float32bits (wb_X b)) @ put_u32 (Float32bits (wb_Y b))
     @ put_u32 (Float32bits (wb_Vx b)) @ put_u32 (Float32bits (wb_Vy b)) @ rest"
    using assms(1) by (simp add: encodeBalloon_def)
  note 1 = drop32 [OF 0]
  note 2 = drop32 [OF 1]
  note 3 = drop32 [OF 2]
  show ?thesis
    using getf_rest [OF 0] getf_rest [OF 1] getf_rest [OF 2] getf_rest [OF 3] assms(2-)
    by (simp add: readBalloon_def encodeBalloon_def ac_simps)
qed

definition client_bird_of :: "wire_bird \<Rightarrow> client_bird" where
  "client_bird_of b = (if wd_Active b then \<lparr>cd_active = True, cd_x = wd_X b, cd_y = wd_Y b\<rparr>
     else \<lparr>cd_active = False, cd_x = 0, cd_y = 0\<rparr>)"

definition client_ghost_of :: "wire_ghost \<Rightarrow> client_ghost" where
  "client_ghost_of g = (if wg_Active g
     then \<lparr>cg_active = True, cg_x = wg_X g, cg_y = wg_Y g, cg_repelTimer = wg_RepelTimer g\<rparr>
     else \<lparr>cg_active = False, cg_x = 0, cg_y = 0, cg_repelTimer = 0\<rparr>)"

lemma readBird_rest:
  assumes "drop off v = encodeBird b @ rest" "wf32 (wd_X b)" "wf32 (wd_Y b)"
  shows "readBird v off = Some (client_bird_of b, length (encodeBird b))"
proof (cases "wd_Active b")
  case True
  then have 0: "drop off v = 1 # put_u32 (Float32bits (wd_X b)) @ put_u32 (Float32bits (wd_Y b)) @ rest"
    using assms(1) by (simp add: encodeBird_def)
  note 1 = drop8 [OF 0]
  note 2 = drop32 [OF 1]
  show ?thesis
    using get8_rest [OF 0] getf_rest [OF 1] getf_rest [OF 2] assms(2-) length_rest [OF 0] True
    by (simp add: readBird_def encodeBird_def client_bird_of_def ac_simps)
next
  case False
  then have 0: "drop off v = 0 # rest" using assms(1) by (simp add: encodeBird_def)
  show ?thesis
    using get8_rest [OF 0] length_rest [OF 0] False
    by (simp add: readBird_def encodeBird_def client_bird_of_def)
qed

lemma readGhost_rest:
  assumes "drop off v = encodeGhost g @ rest" "wf32 (wg_X g)" "wf32 (wg_Y g)"
  shows "readGhost v off = Some (client_ghost_of g, length (encodeGhost g))"
proof (cases "wg_Active g")
  case True
  then have 0: "drop off v = 1 # put_u32 (Float32bits (wg_X g)) @ put_u32 (Float32bits (wg_Y g))
      @ put_u16 (wg_RepelTimer g) @ rest"
    using assms(1) by (simp add: encodeGhost_def)
  note 1 = drop8 [OF 0]
  note 2 = drop32 [OF 1]
  note 3 = drop32 [OF 2]
  show ?thesis
    using get8_rest [OF 0] getf_rest [OF 1] getf_rest [OF 2] get16_rest [OF 3] assms(2-) length_rest [OF 0] True
    by (simp add: readGhost_def encodeGhost_def client_ghost_of_def ac_simps)
next
  case False
  then have 0: "drop off v = 0 # rest" using assms(1) by (simp add: encodeGhost_def)
  show ?thesis
    using get8_rest [OF 0] length_rest [OF 0] False
    by (simp add: readGhost_def encodeGhost_def client_ghost_of_def)
qed

lemma readPlayers_rest:
  assumes "drop off v = of_nat (length ps) # concat (map player_bytes ps) @ rest" "length ps \<le> 255"
    "\<forall>p \<in> set ps. wire_player_ok p"
  shows "readPlayers dec now v off =
    Some (map (client_player_of dec now) ps, length ps, 1 + length (concat (map player_bytes ps)))"
  using get8_rest [OF assms(1)] length_rest [OF assms(1)] assms(2)
    pl.read_items_enc [OF assms(3) drop8 [OF assms(1)], where dec = dec and now = now]
  by (simp add: readPlayers_def unat_of_nat_byte)

lemma codeToPhase_PhaseToCode: "\<forall>s. ph \<noteq> PhaseOther s \<Longrightarrow> codeToPhase (unat (PhaseToCode ph)) = ph"
  by (cases ph) (simp_all add: codeToPhase_def phase_codes)

definition wire_floats_ok :: "wire_balloon \<Rightarrow> wire_bird \<Rightarrow> wire_ghost \<Rightarrow> ripple list \<Rightarrow> bool" where
  "wire_floats_ok b d g rs \<longleftrightarrow> wf32 (wb_X b) \<and> wf32 (wb_Y b) \<and> wf32 (wb_Vx b) \<and> wf32 (wb_Vy b)
     \<and> wf32 (wd_X d) \<and> wf32 (wd_Y d) \<and> wf32 (wg_X g) \<and> wf32 (wg_Y g) \<and> (\<forall>r \<in> set rs. wire_ripple_ok r)"

lemma decode_encoded:
  assumes "EncodeSnapshot ph tc sc bal bird gh ps rs w = Some bs" "wire_floats_ok bal bird gh rs" "wf64 w"
    "37 \<le> length bs"
  shows "decodeSnapshot dec now bs = Some (Some
    \<lparr>cs_timestamp = tc, cs_score = sc, cs_phase = codeToPhase (unat (PhaseToCode ph)),
     cs_balloon = \<lparr>cb_x = wb_X bal, cb_y = wb_Y bal, cb_vx = wb_Vx bal, cb_vy = wb_Vy bal\<rparr>,
     cs_bird = client_bird_of bird, cs_ghost = client_ghost_of gh,
     cs_players = map (client_player_of dec now) ps, cs_ripples = map (client_ripple_of now) rs,
     cs_wind = Some (f32_round w), cs_playerCount = length ps\<rparr>)"
proof -
  have fits: "snapshot_fits ps rs" and bs: "drop 0 bs = MsgSnapshot # put_u32 tc @ put_u32 sc @ PhaseToCode ph
      # encodeBalloon bal @ encodeBird bird @ encodeGhost gh @ of_nat (length ps) # concat (map player_bytes ps)
      @ of_nat (length rs) # concat (map ripple_bytes rs) @ put_u32 (Float32bits (f32_round w)) @ []"
    using assms(1) by (simp_all add: EncodeSnapshot_eq float32_bits_def split: if_splits)
  have ok: "\<forall>p \<in> set ps. wire_player_ok p" "\<forall>r \<in> set rs. wire_ripple_ok r" "length ps \<le> 255" "length rs \<le> 255"
    using fits assms(2) by (auto simp: snapshot_fits_def wire_player_ok_def wire_floats_ok_def)
  note f = assms(2) [unfolded wire_floats_ok_def]
  note 1 = drop8 [OF bs, simplified add_0]
  note 2 = drop32 [OF 1]
  note 3 = drop32 [OF 2]
  note 4 = drop8 [OF 3]
  note 5 = drop_rest [OF 4]
  note 6 = drop_rest [OF 5]
  note 7 = drop_rest [OF 6]
  have 8: "drop (1 + 4 + 4 + 1 + length (encodeBalloon bal) + length (encodeBird bird)
      + length (encodeGhost gh) + (1 + length (concat (map player_bytes ps)))) bs = of_nat (length rs)
      # concat (map ripple_bytes rs) @ put_u32 (Float32bits (f32_round w)) @ []"
    using drop_rest [OF drop8 [OF 7]] by (simp only: add.assoc)
  note 9 = drop8 [OF 8]
  note 10 = drop_rest [OF 9]
  have rc: "getUint8 bs (1 + 4 + 4 + 1 + length (encodeBalloon bal) + length (encodeBird bird)
      + length (encodeGhost gh) + (1 + length (concat (map player_bytes ps)))) = Some (length rs)"
    using get8_rest [OF 8] ok(4) by (simp only: unat_of_nat_byte)
  have c: "(length bs < 37) = False" using assms(4) by simp
  have l: "k < length bs \<longleftrightarrow> True" if "drop k bs = b # ys" for k b ys
    using length_rest [OF that] by simp
  have l4: "k + 4 \<le> length bs \<longleftrightarrow> True" if "drop k bs = put_u32 u @ []" for k u
    using length_rest [OF that] by simp
  have bal: "readBalloon bs (1 + 4 + 4 + 1) =
    Some (\<lparr>cb_x = wb_X bal, cb_y = wb_Y bal, cb_vx = wb_Vx bal, cb_vy = wb_Vy bal\<rparr>, length (encodeBalloon bal))"
    using readBalloon_rest [OF 4] f by blast
  have bird: "readBird bs (1 + 4 + 4 + 1 + length (encodeBalloon bal)) =
      Some (client_bird_of bird, length (encodeBird bird))"
    using readBird_rest [OF 5] f by blast
  have gh: "readGhost bs (1 + 4 + 4 + 1 + length (encodeBalloon bal) + length (encodeBird bird)) =
      Some (client_ghost_of gh, length (encodeGhost gh))"
    using readGhost_rest [OF 6] f by blast
  have w: "wf32 (f32_round w)" by (rule wf32_f32_round [OF assms(3)])
  show ?thesis
    unfolding decodeSnapshot_def Let_def c if_False get32_rest [OF 1] get32_rest [OF 2] get8_rest [OF 3] bal
      Option.bind_lunit split_conv bird gh readPlayers_rest [OF 7 ok(3) ok(1)] l [OF 8] if_True rc
      rp.read_items_enc [OF ok(2) 9] l4 [OF 10] getf_rest [OF 10 w] option.map ..
qed

text \<open>A nickname that every client shows as it is.\<close>

definition shown_nickname :: "gostring \<Rightarrow> bool" where
  "shown_nickname s \<longleftrightarrow> valid_utf8 s \<and> length (runes s) \<le> 12 \<and> 0xFEFF \<notin> set (runes s)"

lemma client_nickname:
  assumes "text_decoder dec" "shown_nickname (wp_Nickname p)"
  shows "cp_nickname (client_player_of dec now p) = runes (wp_Nickname p)"
proof (cases "wp_Nickname p = []")
  case True
  then show ?thesis by (simp add: client_player_of_def truncateNickname_def runes_def)
next
  case False
  then have "runes (wp_Nickname p) \<noteq> []" by (cases "wp_Nickname p") (simp_all add: runes_def Let_def)
  then have "dec (wp_Nickname p) = runes (wp_Nickname p)"
    using assms hd_in_set unfolding text_decoder_def shown_nickname_def by metis
  then show ?thesis using assms(2) False
    by (simp add: client_player_of_def truncateNickname_def MAX_NICKNAME_RUNES_def shown_nickname_def)
qed

lemma bare_snapshot:
  "calcSnapshotSize bird gh ps rs < 37 \<longleftrightarrow> ps = [] \<and> rs = [] \<and> \<not> wd_Active bird \<and> \<not> wg_Active gh"
  by (cases ps; cases rs) (auto simp: snapshot_size)

lemma snapshot_decodes:
  assumes "EncodeSnapshot ph tc sc bal bird gh ps rs w = Some bs"
    and "wire_floats_ok bal bird gh rs" "wf64 w" "\<forall>s. ph \<noteq> PhaseOther s"
    and "text_decoder dec" "\<forall>p \<in> set ps. shown_nickname (wp_Nickname p)"
  shows "decodeSnapshot dec now bs =
    Some (if ps = [] \<and> rs = [] \<and> \<not> wd_Active bird \<and> \<not> wg_Active gh then None else Some
    \<lparr>cs_timestamp = tc, cs_score = sc, cs_phase = ph,
     cs_balloon = \<lparr>cb_x = wb_X bal, cb_y = wb_Y bal, cb_vx = wb_Vx bal, cb_vy = wb_Vy bal\<rparr>,
     cs_bird = client_bird_of bird, cs_ghost = client_ghost_of gh,
     cs_players = map (\<lambda>p. \<lparr>cp_playerIndex = wp_PlayerIndex p,
       cp_cooldownEndTime = now + uint (wp_CooldownMs p), cp_palette = wp_Palette p,
       cp_scoreContribution = wp_ScoreContribution p, cp_nickname = runes (wp_Nickname p)\<rparr>) ps,
     cs_ripples = map (client_ripple_of now) rs, cs_wind = Some (f32_round w), cs_playerCount = length ps\<rparr>)"
proof -
  have len: "length bs = calcSnapshotSize bird gh ps rs"
    using snapshot_length [OF assms(1)] .
  have "map (client_player_of dec now) ps = map (\<lambda>p. \<lparr>cp_playerIndex = wp_PlayerIndex p,
       cp_cooldownEndTime = now + uint (wp_CooldownMs p), cp_palette = wp_Palette p,
       cp_scoreContribution = wp_ScoreContribution p, cp_nickname = runes (wp_Nickname p)\<rparr>) ps"
    using client_nickname [OF assms(5)] assms(6) by (auto simp: client_player_of_def)
  then show ?thesis
    using decode_encoded [OF assms(1-3), of dec now] bare_snapshot [of bird gh ps rs] len
      codeToPhase_PhaseToCode [OF assms(4)]
    by (auto simp: decodeSnapshot_def)
qed

text \<open>What the server encodes as a snapshot the browser client decodes to the same tick, score,
  phase, balloon, bird, ghost, players with their nicknames, ripples and wind (rounded to \<^verbatim>\<open>float32\<close>).
  The one exception is the snapshot of an empty room with neither bird nor ghost: it has 34 bytes and
  the client, which asks for 37, ignores it.\<close>

theorem snapshot_roundtrip:
  assumes "EncodeSnapshot ph tc sc bal bird gh ps rs w = Some bs"
    and "wire_floats_ok bal bird gh rs" "wf64 w" "\<forall>s. ph \<noteq> PhaseOther s"
    and "text_decoder dec" "\<forall>p \<in> set ps. shown_nickname (wp_Nickname p)"
  shows "decodeSnapshot dec now bs =
    Some (if ps = [] \<and> rs = [] \<and> \<not> wd_Active bird \<and> \<not> wg_Active gh then None else Some
    \<lparr>cs_timestamp = tc, cs_score = sc, cs_phase = ph,
     cs_balloon = \<lparr>cb_x = wb_X bal, cb_y = wb_Y bal, cb_vx = wb_Vx bal, cb_vy = wb_Vy bal\<rparr>,
     cs_bird = client_bird_of bird, cs_ghost = client_ghost_of gh,
     cs_players = map (\<lambda>p. \<lparr>cp_playerIndex = wp_PlayerIndex p,
       cp_cooldownEndTime = now + uint (wp_CooldownMs p), cp_palette = wp_Palette p,
       cp_scoreContribution = wp_ScoreContribution p, cp_nickname = runes (wp_Nickname p)\<rparr>) ps,
     cs_ripples = map (client_ripple_of now) rs, cs_wind = Some (f32_round w), cs_playerCount = length ps\<rparr>)"
  by (rule snapshot_decodes [OF assms])

theorem snapshot_roundtrip_witness:
  "map_option (map_option cs_score) (decodeSnapshot runes 0 (the (EncodeSnapshot PhasePlaying 1 7
     \<lparr>wb_X = 0, wb_Y = 0, wb_Vy = 0, wb_Vx = 0\<rparr> \<lparr>wd_X = 0, wd_Y = 0, wd_Active = True\<rparr>
     \<lparr>wg_X = 0, wg_Y = 0, wg_Active = False, wg_RepelTimer = 0\<rparr>
     [\<lparr>wp_PlayerIndex = 0, wp_CooldownMs = 5, wp_Palette = 1, wp_ScoreContribution = 7, wp_Nickname = [65]\<rparr>]
     [] 0))) = Some (Some 7)"
proof -
  let ?e = "EncodeSnapshot PhasePlaying 1 7
     \<lparr>wb_X = 0, wb_Y = 0, wb_Vy = 0, wb_Vx = 0\<rparr> \<lparr>wd_X = 0, wd_Y = 0, wd_Active = True\<rparr>
     \<lparr>wg_X = 0, wg_Y = 0, wg_Active = False, wg_RepelTimer = 0\<rparr>
     [\<lparr>wp_PlayerIndex = 0, wp_CooldownMs = 5, wp_Palette = 1, wp_ScoreContribution = 7, wp_Nickname = [65]\<rparr>] [] 0"
  have "?e = Some (the ?e)" by (simp add: EncodeSnapshot_eq snapshot_fits_def)
  moreover have "shown_nickname [65]" by code_simp
  moreover have "wf32 0" by (simp add: zero_f64_def overflows_def)
  moreover have "text_decoder runes" by (simp add: text_decoder_def)
  ultimately show ?thesis
    by (subst snapshot_roundtrip [of PhasePlaying 1 7 _ _ _ _ _ 0]) (auto simp: wire_floats_ok_def)
qed

lemma shown_sanitized: "valid_utf8 s \<Longrightarrow> shown_nickname (SanitizeNickname s)"
  using sanitized_clean [of s] runes_Sanitize [of s]
  by (auto simp: shown_nickname_def invisibleChar_def MaxNicknameLen_def)

text \<open>C25: A nickname the client submits reaches the server cut to twelve code points, as the UTF-8 bytes of
  these, unless it is empty; a tap reaches it as the two coordinates rounded to \<^verbatim>\<open>float32\<close>.\<close>

theorem client_messages_decoded:
  assumes "wf64 x" "wf64 y" "s \<noteq> []"
  shows "DecodeMessage (createTapMessage x y) = (MsgTap, tl (createTapMessage x y))
      \<and> DecodeTap (tl (createTapMessage x y)) = Some (f32_round x, f32_round y)
      \<and> (\<exists>m. encodeSetNickname s = Some m \<and> fst (DecodeMessage m) = MsgSetNickname
           \<and> DecodeNicknamePayload (snd (DecodeMessage m)) = Some (string_of_runes (take 12 s)))"
proof -
  have "DecodeTap (tl (createTapMessage x y)) = Some (f32_round x, f32_round y)"
    using wf32_f32_round [OF assms(1)] wf32_f32_round [OF assms(2)] get_put_u32 [of "float32_bits y" "[]"]
    by (simp add: DecodeTap_def createTapMessage_def get_put_u32 drop_put_u32 float32_bits_def Float32bits_frombits)
  moreover have t: "truncateNickname s = take 12 s"
    by (simp add: truncateNickname_def MAX_NICKNAME_RUNES_def)
  have "length (string_of_runes (take 12 s)) \<le> 48"
    using length_string_of_runes [of "take 12 s"] by simp
  moreover have "string_of_runes (take 12 s) \<noteq> []"
    using assms(3) length_encode_rune(2) by (cases s) (simp_all add: string_of_runes_def)
  ultimately show ?thesis
    by (simp add: createTapMessage_def encodeSetNickname_def t Let_def DecodeNicknamePayload_def unat_of_nat_byte)
qed

theorem client_messages_decoded_witness:
  "DecodeTap (tl (createTapMessage 0 0)) = Some (f32_round 0, f32_round 0)
   \<and> (\<exists>m. encodeSetNickname [65] = Some m \<and> DecodeNicknamePayload (snd (DecodeMessage m)) = Some [65])"
proof -
  have "string_of_runes (take 12 [65]) = [65]" by code_simp
  with client_messages_decoded [of 0 0 "[65]"] show ?thesis by auto
qed

end
