(* ===== verification/Room_State.thy ===== *)
theory Room_State
  imports Physics
begin

text \<open>
  The state of a room (\<^verbatim>\<open>Room\<close>, \<^verbatim>\<open>RoomConnections\<close>, \<^verbatim>\<open>PlayerConn\<close> in \<^verbatim>\<open>game/room.go\<close>,
  \<^verbatim>\<open>OutboundManager\<close> in \<^verbatim>\<open>game/ws_session.go\<close>, \<^verbatim>\<open>PersistManager\<close> in \<^verbatim>\<open>game/room_persist.go\<close>)
  and the operations of these parts that the handlers of the room use.

  \<^item> A channel is the list of the messages in it, oldest first, with a flag once it is closed.
  \<^item> A \<^verbatim>\<open>*websocket.Conn\<close> is a number; closing it adds the number to \<open>closedConns\<close>.
  \<^item> A \<^verbatim>\<open>*time.Timer\<close> field is \<open>None\<close> or a timer: armed, with the time in milliseconds at which it is due,
    or stopped. What its callback does is an operation of its own.
  \<^item> \<open>env\<close> is what the environment decides: the successive readings of the clock, the random bytes
    of the session identifiers, and how the waits of the channel sends end (\<open>True\<close>: the receiver took
    a message in time). One position counts the consultations of all three.
  \<^item> Goroutines that write to the database are the operations they perform, in \<open>dbOps\<close>; the JSON
    bytes of a state are represented by the state they encode.
  \<^item> \<open>None\<close> as the result of an operation is a panic that reaches the caller.
\<close>

section \<open>Data\<close>

record conn =
  c_Conn :: nat
  c_Send :: "byte list list"
  c_closed :: bool
  c_drops :: int
  c_pendingDisconnect :: bool

record outbound_msg =
  o_payload :: "byte list"
  o_exclude :: gostring
  o_critical :: bool

record outbound_manager =
  ob_ch :: "outbound_msg list"
  ob_chClosed :: bool
  ob_closed :: bool

record persist_job =
  j_code :: gostring
  j_state :: game_state
  j_final :: bool

record persist_manager =
  pm_started :: bool
  pm_stopped :: bool
  pm_ch :: "persist_job list"
  pm_chClosed :: bool
  pm_pending :: "persist_job option"
  pm_written :: "persist_job list"

record environment =
  e_clock :: "nat \<Rightarrow> int"
  e_uuid :: "nat \<Rightarrow> byte list"
  e_wait :: "nat \<Rightarrow> bool"
  e_pos :: nat

record game_result_player =
  gr_UserID :: gostring
  gr_Nickname :: gostring
  gr_ScoreContribution :: int
  gr_TapsCount :: int

datatype db_op =
    CreateGameSession gostring gostring int
  | RecordGameResult gostring gostring int int "game_result_player list"

datatype timer = Armed int | Stopped

record room =
  connections :: "(gostring \<times> conn) list"
  closedConns :: "nat list"
  endGameAlarmVersion :: int
  endGameTimer :: "timer option"
  startDelayTimer :: "timer option"
  startDelay :: int
  countdownStart :: int
  tickCancel :: bool
  nicknameTimers :: "(gostring \<times> int) list"
  outbound :: outbound_manager
  syncOutbound :: bool
  state :: game_state
  usedNames :: "gostring set"
  hasStore :: bool
  maxPlayers :: int
  lobbyCode :: gostring
  closed :: bool
  persist :: persist_manager
  room_rng :: rng
  room_crand :: crand
  env :: environment
  dbOps :: "db_op list"

section \<open>Environment\<close>

definition tick_env :: "room \<Rightarrow> room" where
  "tick_env r = r\<lparr>env := (env r)\<lparr>e_pos := Suc (e_pos (env r))\<rparr>\<rparr>"

text \<open>\<^verbatim>\<open>time.Now().UnixMilli()\<close>, \<^verbatim>\<open>domain.UUID()\<close> and the outcome of a wait.\<close>

definition Now :: "room \<Rightarrow> int \<times> room" where
  "Now r = (e_clock (env r) (e_pos (env r)), tick_env r)"

definition NewUUID :: "room \<Rightarrow> gostring \<times> room" where
  "NewUUID r = (UUID (e_uuid (env r) (e_pos (env r))), tick_env r)"

definition Wait :: "room \<Rightarrow> bool \<times> room" where
  "Wait r = (e_wait (env r) (e_pos (env r)), tick_env r)"

section \<open>Connections\<close>

definition WSChannelBuffer :: nat where "WSChannelBuffer = 64"
definition outboundQueueSize :: nat where "outboundQueueSize = 256"

text \<open>A send that does not block: \<open>None\<close> when the channel is full.\<close>

definition try_send :: "nat \<Rightarrow> 'a \<Rightarrow> 'a list \<Rightarrow> 'a list option" where
  "try_send cap x q = (if length q < cap then Some (q @ [x]) else None)"

definition close_conn :: "nat \<Rightarrow> room \<Rightarrow> room" where
  "close_conn k r = r\<lparr>closedConns := closedConns r @ [k]\<rparr>"

definition set_conn :: "gostring \<Rightarrow> conn \<Rightarrow> room \<Rightarrow> room" where
  "set_conn pid pc r = r\<lparr>connections := AList.update pid pc (connections r)\<rparr>"

definition del_conn :: "gostring \<Rightarrow> room \<Rightarrow> room" where
  "del_conn pid r = r\<lparr>connections := AList.delete pid (connections r)\<rparr>"

definition GetConnection :: "room \<Rightarrow> gostring \<Rightarrow> conn option" where
  "GetConnection r pid = map_of (connections r) pid"

definition removeConnectionLocked :: "gostring \<Rightarrow> room \<Rightarrow> room" where
  "removeConnectionLocked pid r = (case map_of (connections r) pid of
       None \<Rightarrow> r
     | Some pc \<Rightarrow> del_conn pid (close_conn (c_Conn pc) r))"

definition sendToPlayer :: "gostring \<Rightarrow> byte list \<Rightarrow> room \<Rightarrow> room option" where
  "sendToPlayer pid data r = (case map_of (connections r) pid of
       None \<Rightarrow> Some r
     | Some pc \<Rightarrow>
         if c_closed pc then None
         else case try_send WSChannelBuffer data (c_Send pc) of
             None \<Rightarrow> Some r
           | Some q \<Rightarrow> Some (set_conn pid (pc\<lparr>c_Send := q\<rparr>) r))"

definition SnapshotTargets :: "gostring \<Rightarrow> room \<Rightarrow> gostring list" where
  "SnapshotTargets exclude r = filter (\<lambda>pid. pid \<noteq> exclude) (map fst (connections r))"

text \<open>Closing the \<^verbatim>\<open>Send\<close> channel of a connection panics if it is closed already.\<close>

definition closeAllConnections :: "room \<Rightarrow> room option" where
  "closeAllConnections r =
     (if \<exists>x \<in> set (connections r). c_closed (snd x) then None
      else Some (r\<lparr>closedConns := closedConns r @ map (c_Conn \<circ> snd) (connections r), connections := []\<rparr>))"

section \<open>Delivery of outbound messages\<close>

definition checkSlowClient :: "gostring \<Rightarrow> conn \<Rightarrow> room \<Rightarrow> room" where
  "checkSlowClient pid pc r =
     (if c_drops pc \<ge> 10 then close_conn (c_Conn pc) (set_conn pid (pc\<lparr>c_pendingDisconnect := True\<rparr>) r)
      else set_conn pid pc r)"

definition deliverNonCritical :: "gostring \<Rightarrow> conn \<Rightarrow> outbound_msg \<Rightarrow> room \<Rightarrow> room" where
  "deliverNonCritical pid pc m r = (case try_send WSChannelBuffer (o_payload m) (c_Send pc) of
       Some q \<Rightarrow> set_conn pid (pc\<lparr>c_Send := q, c_drops := 0\<rparr>) r
     | None \<Rightarrow> checkSlowClient pid (pc\<lparr>c_drops := c_drops pc + 1\<rparr>) r)"

definition deliverCritical :: "gostring \<Rightarrow> conn \<Rightarrow> outbound_msg \<Rightarrow> room \<Rightarrow> room" where
  "deliverCritical pid pc m r = (case try_send WSChannelBuffer (o_payload m) (c_Send pc) of
       Some q \<Rightarrow> set_conn pid (pc\<lparr>c_Send := q, c_drops := 0\<rparr>) r
     | None \<Rightarrow>
         let (taken, r) = Wait r
         in if taken then set_conn pid (pc\<lparr>c_Send := tl (c_Send pc) @ [o_payload m], c_drops := 0\<rparr>) r else r)"

text \<open>A send on a closed channel panics, and \<^verbatim>\<open>deliverToTargets\<close> recovers from it target by target.\<close>

definition deliverToTarget :: "outbound_msg \<Rightarrow> gostring \<Rightarrow> room \<Rightarrow> room" where
  "deliverToTarget m pid r = (case map_of (connections r) pid of
       None \<Rightarrow> r
     | Some pc \<Rightarrow>
         if c_closed pc then r
         else if o_critical m then deliverCritical pid pc m r else deliverNonCritical pid pc m r)"

definition deliverToTargets :: "gostring list \<Rightarrow> outbound_msg \<Rightarrow> room \<Rightarrow> room" where
  "deliverToTargets targets m r = fold (deliverToTarget m) targets r"

definition set_player :: "gostring \<Rightarrow> player \<Rightarrow> room \<Rightarrow> room" where
  "set_player pid p r = r\<lparr>state := (state r)\<lparr>Players := AList.update pid p (Players (state r))\<rparr>\<rparr>"

text \<open>The flag says whether \<^verbatim>\<open>TryLock\<close> got the lock of the room.\<close>

definition removePending :: "bool \<Rightarrow> gostring \<Rightarrow> room \<Rightarrow> room" where
  "removePending hasMu pid r = (case map_of (connections r) pid of
       None \<Rightarrow> r
     | Some pc \<Rightarrow>
         if \<not> c_pendingDisconnect pc then r
         else let r = (if hasMu then
                 (case map_of (Players (state r)) pid of
                    None \<Rightarrow> r
                  | Some p \<Rightarrow> let (now, r) = Now r in set_player pid (MarkDisconnected now p) r)
               else r)
              in del_conn pid r)"

definition RemovePendingDisconnects :: "bool \<Rightarrow> room \<Rightarrow> room" where
  "RemovePendingDisconnects hasMu r = fold (removePending hasMu) (map fst (connections r)) r"

definition deliver :: "bool \<Rightarrow> outbound_msg \<Rightarrow> room \<Rightarrow> room" where
  "deliver hasMu m r =
     RemovePendingDisconnects hasMu (deliverToTargets (SnapshotTargets (o_exclude m) r) m r)"

text \<open>One round of \<^verbatim>\<open>runLoop\<close>: take the oldest message from the channel and deliver it.\<close>

definition runLoop_round :: "bool \<Rightarrow> room \<Rightarrow> room" where
  "runLoop_round hasMu r = (case ob_ch (outbound r) of
       [] \<Rightarrow> r
     | m # ms \<Rightarrow> deliver hasMu m (r\<lparr>outbound := (outbound r)\<lparr>ob_ch := ms\<rparr>\<rparr>))"

text \<open>\<^verbatim>\<open>enqueueCritical\<close> waits while the lock of the room is held: if the wait ends well, the loop has
  taken a message in the meantime.\<close>

definition enqueueCritical :: "outbound_msg \<Rightarrow> room \<Rightarrow> room" where
  "enqueueCritical m r =
     (let (taken, r) = Wait r
      in if taken then
           let r = runLoop_round False r
           in r\<lparr>outbound := (outbound r)\<lparr>ob_ch := ob_ch (outbound r) @ [m]\<rparr>\<rparr>
         else r)"

definition Enqueue :: "byte list \<Rightarrow> gostring \<Rightarrow> bool \<Rightarrow> room \<Rightarrow> room" where
  "Enqueue payload exclude critical r =
     (if ob_closed (outbound r) then r
      else let m = \<lparr>o_payload = payload, o_exclude = exclude, o_critical = critical\<rparr>
           in if syncOutbound r then deliver False m r
              else if ob_chClosed (outbound r) then r
              else case try_send outboundQueueSize m (ob_ch (outbound r)) of
                  Some q \<Rightarrow> r\<lparr>outbound := (outbound r)\<lparr>ob_ch := q\<rparr>\<rparr>
                | None \<Rightarrow> if critical then enqueueCritical m r else r)"

definition broadcast :: "byte list \<Rightarrow> gostring \<Rightarrow> room \<Rightarrow> room" where
  "broadcast data exclude r = Enqueue data exclude False r"

definition broadcastCritical :: "byte list \<Rightarrow> room \<Rightarrow> room" where
  "broadcastCritical data r = Enqueue data [] True r"

definition stopOutbound :: "room \<Rightarrow> room" where
  "stopOutbound r = r\<lparr>outbound := (outbound r)\<lparr>ob_closed := True, ob_chClosed := True\<rparr>\<rparr>"

text \<open>The write pump of a connection takes the oldest message of its channel.\<close>

definition writePump_round :: "gostring \<Rightarrow> room \<Rightarrow> room" where
  "writePump_round pid r = (case map_of (connections r) pid of
       None \<Rightarrow> r
     | Some pc \<Rightarrow> set_conn pid (pc\<lparr>c_Send := tl (c_Send pc)\<rparr>) r)"

section \<open>Persistence\<close>

definition persistQueueSize :: nat where "persistQueueSize = 8"

text \<open>\<^verbatim>\<open>json.Marshal\<close> of a state fails exactly on a NaN or an infinity among its numbers.\<close>

definition state_floats :: "game_state \<Rightarrow> f64 list" where
  "state_floats s = [b_X (Balloon s), b_Y (Balloon s), b_VX (Balloon s), b_VY (Balloon s),
     d_X (Bird s), d_Y (Bird s), d_VX (Bird s), d_VY (Bird s),
     g_X (Ghost s), g_Y (Ghost s), g_VX (Ghost s), g_VY (Ghost s), Wind s, WindTarget s, WindMidOffset s]"

definition SerializeState :: "game_state \<Rightarrow> game_state option" where
  "SerializeState s = (if list_all finite64 (state_floats s) then Some s else None)"

definition canPersist :: "room \<Rightarrow> bool" where
  "canPersist r \<longleftrightarrow> hasStore r"

text \<open>\<^verbatim>\<open>startLoop\<close> creates the channel once, unless \<^verbatim>\<open>stop\<close> came first; a send on the closed channel panics,
  one on the channel that was never made is dropped.\<close>

definition pm_startLoop :: "persist_manager \<Rightarrow> persist_manager" where
  "pm_startLoop m = (if pm_started m \<or> pm_stopped m then m else m\<lparr>pm_started := True\<rparr>)"

definition enqueuePersist :: "game_state \<Rightarrow> gostring \<Rightarrow> persist_manager \<Rightarrow> persist_manager option" where
  "enqueuePersist data code m =
     (let m = pm_startLoop m; job = \<lparr>j_code = code, j_state = data, j_final = False\<rparr>
      in if \<not> pm_started m then Some m
         else if pm_chClosed m then None
         else case try_send persistQueueSize job (pm_ch m) of
             Some q \<Rightarrow> Some (m\<lparr>pm_ch := q\<rparr>)
           | None \<Rightarrow> Some m)"

definition requestPersist :: "room \<Rightarrow> room option" where
  "requestPersist r =
     (if \<not> canPersist r then Some r
      else case SerializeState (state r) of
          None \<Rightarrow> Some r
        | Some data \<Rightarrow> do {
            m \<leftarrow> enqueuePersist data (LobbyCode (state r)) (persist r);
            Some (r\<lparr>persist := m\<rparr>)
          })"

definition asyncSaveState :: "room \<Rightarrow> room option" where
  "asyncSaveState r = requestPersist r"

text \<open>The loop of the persistence manager: a job it receives is kept back until the debounce timer fires or
  a later job replaces it; a final job, and the closed channel, flush. \<open>pm_written\<close> are the calls of
  \<^verbatim>\<open>SaveLobbyState\<close>.\<close>

definition pm_write :: "persist_job \<Rightarrow> persist_manager \<Rightarrow> persist_manager" where
  "pm_write job m = m\<lparr>pm_written := pm_written m @ [job]\<rparr>"

definition pm_flush :: "persist_manager \<Rightarrow> persist_manager" where
  "pm_flush m = (case pm_pending m of None \<Rightarrow> m | Some job \<Rightarrow> pm_write job (m\<lparr>pm_pending := None\<rparr>))"

definition pm_receive :: "persist_manager \<Rightarrow> persist_manager" where
  "pm_receive m = (case pm_ch m of
       [] \<Rightarrow> if pm_chClosed m then pm_flush m else m
     | job # jobs \<Rightarrow>
         let m = m\<lparr>pm_ch := jobs\<rparr>
         in if j_final job then pm_write job (pm_flush m) else m\<lparr>pm_pending := Some job\<rparr>)"

definition pm_timer :: "persist_manager \<Rightarrow> persist_manager" where
  "pm_timer m = pm_flush m"

definition createGameSessionAsync :: "gostring \<Rightarrow> gostring \<Rightarrow> int \<Rightarrow> room \<Rightarrow> room" where
  "createGameSessionAsync sid code startedAt r =
     (if \<not> hasStore r then r else r\<lparr>dbOps := dbOps r @ [CreateGameSession sid code startedAt]\<rparr>)"

section \<open>Snapshots\<close>

definition wire_player_of :: "int \<Rightarrow> player \<Rightarrow> wire_player" where
  "wire_player_of now p =
     (let cooldownRemaining = (if p_CooldownEndTime p > now then p_CooldownEndTime p - now else 0)
      in \<lparr>wp_PlayerIndex = of_int (p_PlayerIndex p), wp_CooldownMs = of_int cooldownRemaining,
          wp_Palette = of_int (p_Palette p), wp_ScoreContribution = of_int (p_ScoreContribution p),
          wp_Nickname = p_Nickname p\<rparr>)"

definition snapshot_players :: "int \<Rightarrow> game_state \<Rightarrow> wire_player list" where
  "snapshot_players now s = map (wire_player_of now) (filter (\<lambda>p. \<not> p_Disconnected p) (map snd (Players s)))"

definition encode_state :: "int \<Rightarrow> game_state \<Rightarrow> byte list option" where
  "encode_state now s =
     EncodeSnapshot (Phase s) (of_int (TickCount s)) (of_int (b_Score (Balloon s)))
       \<lparr>wb_X = f32_round (b_X (Balloon s)), wb_Y = f32_round (b_Y (Balloon s)),
        wb_Vy = f32_round (b_VY (Balloon s)), wb_Vx = f32_round (b_VX (Balloon s))\<rparr>
       \<lparr>wd_X = f32_round (d_X (Bird s)), wd_Y = f32_round (d_Y (Bird s)), wd_Active = d_Active (Bird s)\<rparr>
       \<lparr>wg_X = f32_round (g_X (Ghost s)), wg_Y = f32_round (g_Y (Ghost s)), wg_Active = g_Active (Ghost s),
        wg_RepelTimer = of_int (g_RepelTimer (Ghost s))\<rparr>
       (snapshot_players now s) [] (Wind s)"

definition buildSnapshot :: "room \<Rightarrow> (byte list \<times> room) option" where
  "buildSnapshot r = (let (now, r) = Now r in map_option (\<lambda>bs. (bs, r)) (encode_state now (state r)))"

section \<open>A new room\<close>

text \<open>\<^verbatim>\<open>NewRoom\<close>: \<open>seed\<close> is \<^verbatim>\<open>time.Now().UnixNano()\<close>, \<open>g\<close> the generator seeded with it.\<close>

definition NewRoom :: "gostring \<Rightarrow> bool \<Rightarrow> int \<Rightarrow> int \<Rightarrow> int \<Rightarrow> rng \<Rightarrow> crand \<Rightarrow> environment \<Rightarrow> room" where
  "NewRoom code store maxPl now seed g c e =
     (let maxPl = (if maxPl \<le> 0 then MaxPlayersPerRoom else maxPl); (s, g) = NewGameState now code seed g
      in \<lparr>connections = [], closedConns = [], endGameAlarmVersion = 0, endGameTimer = None,
          startDelayTimer = None, startDelay = 2000, countdownStart = 0, tickCancel = False,
          nicknameTimers = [], outbound = \<lparr>ob_ch = [], ob_chClosed = False, ob_closed = False\<rparr>,
          syncOutbound = False, state = s, usedNames = {}, hasStore = store, maxPlayers = maxPl,
          lobbyCode = code, closed = False,
          persist = \<lparr>pm_started = False, pm_stopped = False, pm_ch = [], pm_chClosed = False,
                     pm_pending = None, pm_written = []\<rparr>,
          room_rng = g, room_crand = c, env = e, dbOps = []\<rparr>)"

end
