(* ===== verification/Room.thy ===== *)
theory Room
  imports Room_State
begin

text \<open>
  The handlers of a room: joining, leaving and reconnecting, the start and the end of a round, the
  timers (\<^verbatim>\<open>game/room_lifecycle.go\<close>), restart votes (\<^verbatim>\<open>game/room_restart_voting.go\<close>), client
  messages and the game tick (\<^verbatim>\<open>game/room_tick.go\<close>), and closing (\<^verbatim>\<open>game/room.go\<close>).

  A handler takes the room and returns it changed, or \<open>None\<close> when it panics; an error it returns is
  the first component of the result. Each handler runs under the lock of the room, so it is one
  operation here; what a timer callback does after it was started is an operation as well.
\<close>

datatype room_error = ErrRoomFull | ErrRateLimited | ErrNotEnded phase

definition upd_state :: "(game_state \<Rightarrow> game_state) \<Rightarrow> room \<Rightarrow> room" where
  "upd_state f r = r\<lparr>state := f (state r)\<rparr>"

section \<open>Timers and the tick loop\<close>

definition nicknameConfirmTimeout :: int where
  "nicknameConfirmTimeout = 60000"

definition clearNicknameTimerLocked :: "gostring \<Rightarrow> room \<Rightarrow> room" where
  "clearNicknameTimerLocked pid r = r\<lparr>nicknameTimers := AList.delete pid (nicknameTimers r)\<rparr>"

definition startNicknameTimer :: "gostring \<Rightarrow> room \<Rightarrow> room" where
  "startNicknameTimer pid r =
     (let r = clearNicknameTimerLocked pid r; (now, r) = Now r
      in r\<lparr>nicknameTimers := AList.update pid (now + nicknameConfirmTimeout) (nicknameTimers r)\<rparr>)"

definition clearAllNicknameTimers :: "room \<Rightarrow> room" where
  "clearAllNicknameTimers r = r\<lparr>nicknameTimers := []\<rparr>"

definition startTick :: "room \<Rightarrow> room" where
  "startTick r = (if tickCancel r then r else r\<lparr>tickCancel := True\<rparr>)"

definition stopTick :: "room \<Rightarrow> room" where
  "stopTick r = (if tickCancel r then r\<lparr>tickCancel := False\<rparr> else r)"

text \<open>\<^verbatim>\<open>restartTick\<close> cancels a running loop, waits for it and starts a new one. \<open>restartTickBegin\<close> is its first section under the
  lock, with the flag that it has to wait and start the loop (\<open>startTick\<close>) in a second one.\<close>

definition restartTick :: "room \<Rightarrow> room" where
  "restartTick r = r\<lparr>tickCancel := True\<rparr>"

definition restartTickBegin :: "room \<Rightarrow> bool \<times> room" where
  "restartTickBegin r = (if tickCancel r then (True, r\<lparr>tickCancel := False\<rparr>) else (False, startTick r))"

definition setEndGameAlarm :: "int \<Rightarrow> room \<Rightarrow> room" where
  "setEndGameAlarm when r =
     (let (now, r) = Now r; duration = (if when - now < 0 then 0 else when - now)
      in r\<lparr>endGameAlarmVersion := endGameAlarmVersion r + 1, endGameTimer := Some (Armed (now + duration))\<rparr>)"

definition alarm_in :: "int \<Rightarrow> room \<Rightarrow> room" where
  "alarm_in ms r = (let (now, r) = Now r in setEndGameAlarm (now + ms) r)"

definition countdownDurationMs :: int where
  "countdownDurationMs = (if TickRate = 0 then 3000 else CountdownTicks * 1000 div TickRate)"

definition countdownDurationMsU32 :: "32 word" where
  "countdownDurationMsU32 =
     (if TickRate = 0 then 3000 else of_int CountdownTicks * 1000 div of_int TickRate)"

definition scheduleCountdownFromNow :: "room \<Rightarrow> room" where
  "scheduleCountdownFromNow r = alarm_in countdownDurationMs r"

definition broadcastSnapshot :: "room \<Rightarrow> room option" where
  "broadcastSnapshot r = do {
     (snap, r) \<leftarrow> buildSnapshot r;
     Some (broadcast snap [] r)
   }"

definition broadcastCountdownPhase :: "room \<Rightarrow> room option" where
  "broadcastCountdownPhase r = do {
     m \<leftarrow> EncodeGameStateChange PhaseCountdown [countdownDurationMsU32];
     let r = broadcastCritical m r;
     broadcastSnapshot r
   }"

definition remainingCountdownMs :: "room \<Rightarrow> int \<times> room" where
  "remainingCountdownMs r =
     (let (now, r) = Now r; elapsed = now - countdownStart r; remaining = countdownDurationMs - elapsed
      in (if remaining < 100 then 100 else remaining, r))"

section \<open>Restart votes\<close>

definition countRestartYesVotes :: "(gostring \<times> player) list \<Rightarrow> (gostring \<times> bool) list \<Rightarrow> nat \<times> nat" where
  "countRestartYesVotes players votes =
     (let present = filter (\<lambda>p. \<not> p_Disconnected p) (map snd players)
      in (length (filter (\<lambda>p. map_of votes (p_ID p) = Some True) present), length present))"

text \<open>The loop over the players: who is gone is dropped with the name, who stays starts afresh.\<close>

fun cleanup_loop ::
  "(gostring \<Rightarrow> bool) \<Rightarrow> (gostring \<times> player) list \<Rightarrow> room \<Rightarrow> (gostring \<times> player) list \<times> room" where
  "cleanup_loop active [] r = ([], r)"
| "cleanup_loop active ((pid, p) # ps) r =
     (if \<not> active pid \<or> p_Disconnected p
      then cleanup_loop active ps (r\<lparr>usedNames := usedNames r - {p_Nickname p}\<rparr>)
      else let (now, r) = Now r;
               p = p\<lparr>p_ScoreContribution := 0, p_TapsCount := 0, p_CooldownEndTime := now,
                     p_MessageCount := 0, p_MessageWindowStart := 0, p_LastNicknameChange := 0\<rparr>;
               (qs, r) = cleanup_loop active ps r
           in ((pid, p) # qs, r))"

definition buildRestartState ::
  "gostring \<Rightarrow> (gostring \<times> player) list \<Rightarrow> int \<Rightarrow> int \<Rightarrow> room \<Rightarrow> game_state \<times> room" where
  "buildRestartState code players nextIndex seed r =
     (let (now, r) = Now r; (s, g) = NewGameState now code seed (room_rng r); r = r\<lparr>room_rng := g\<rparr>;
          s = s\<lparr>RestartVotes := [], RestartTimerStart := None, Players := players,
                NextPlayerIndex := nextIndex, Phase := PhaseCountdown\<rparr>;
          (now, r) = Now r; (uuid, r) = NewUUID r
      in (s\<lparr>StartedAt := now, SessionID := uuid\<rparr>, r))"

definition RestartAndStart :: "room \<Rightarrow> (room_error option \<times> room) option" where
  "RestartAndStart r =
     (if Phase (state r) \<noteq> PhaseEnded then Some (Some (ErrNotEnded (Phase (state r))), r)
      else
        let nextIndex = NextPlayerIndex (state r); active = (\<lambda>pid. pid \<in> set (keys (connections r)));
            (players, r) = cleanup_loop active (Players (state r)) r;
            originalCreatedAt = CreatedAt (state r)
        in if connections r = [] then do {
             let (now, r) = Now r;
             let (s, g) = NewGameState now (LobbyCode (state r)) (RNGSeed (state r)) (room_rng r);
             let r = r\<lparr>room_rng := g, state := s\<lparr>CreatedAt := originalCreatedAt, Phase := PhaseWaiting\<rparr>\<rparr>;
             let r = stopTick r;
             m \<leftarrow> EncodeGameStateChange PhaseWaiting [];
             let r = broadcast m [] r;
             r \<leftarrow> broadcastSnapshot r;
             r \<leftarrow> requestPersist r;
             Some (None, r)
           }
           else do {
             let (s, r) = buildRestartState (LobbyCode (state r)) players nextIndex (RNGSeed (state r)) r;
             let r = r\<lparr>state := s\<lparr>CreatedAt := originalCreatedAt\<rparr>\<rparr>;
             let (now, r) = Now r;
             let r = scheduleCountdownFromNow (r\<lparr>countdownStart := now\<rparr>);
             r \<leftarrow> requestPersist r;
             r \<leftarrow> broadcastCountdownPhase r;
             Some (None, r)
           })"

definition restartCountdownMs :: "room \<Rightarrow> 32 word \<times> room" where
  "restartCountdownMs r = (case RestartTimerStart (state r) of
       None \<Rightarrow> (0, r)
     | Some t0 \<Rightarrow>
         let (now, r) = Now r; elapsed = now - t0; remaining = RestartTimeoutMs - elapsed;
             remaining = (if remaining < 0 then 0 else remaining)
         in (of_int remaining, r))"

definition CheckRestartConsensus :: "room \<Rightarrow> (room_error option \<times> room) option" where
  "CheckRestartConsensus r =
     (let (yesVotes, connectedCount) = countRestartYesVotes (Players (state r)) (RestartVotes (state r));
          (countdownMs, r) = restartCountdownMs r;
          r = broadcast (EncodeRestartStatus (of_nat yesVotes) (of_nat connectedCount) countdownMs) [] r
      in if Phase (state r) \<noteq> PhaseEnded then Some (None, r)
         else if yesVotes \<ge> connectedCount \<and> connectedCount > 0 then RestartAndStart r
         else if RestartTimerStart (state r) = None then
           let (now, r) = Now r; r = upd_state (\<lambda>s. s\<lparr>RestartTimerStart := Some now\<rparr>) r
           in Some (None, alarm_in RestartTimeoutMs r)
         else Some (None, r))"

definition HandleRestartVote :: "player \<Rightarrow> room \<Rightarrow> (room_error option \<times> room) option" where
  "HandleRestartVote p r =
     (if Phase (state r) \<noteq> PhaseEnded then Some (None, r)
      else if map_of (RestartVotes (state r)) (p_ID p) \<noteq> None then CheckRestartConsensus r
      else CheckRestartConsensus
        (upd_state (\<lambda>s. s\<lparr>RestartVotes := AList.update (p_ID p) True (RestartVotes s)\<rparr>) r))"

section \<open>Start and end of a round\<close>

definition allConnectedPlayersReady :: "room \<Rightarrow> bool" where
  "allConnectedPlayersReady r \<longleftrightarrow> connections r \<noteq> [] \<and>
     list_all (\<lambda>pid. case map_of (Players (state r)) pid of
         None \<Rightarrow> False
       | Some p \<Rightarrow> \<not> p_Disconnected p \<and> p_NicknameConfirmed p) (keys (connections r))"

definition StartGame :: "room \<Rightarrow> room option" where
  "StartGame r =
     (if Phase (state r) \<noteq> PhaseWaiting then Some r
      else do {
        let r = upd_state (\<lambda>s. s\<lparr>Phase := PhaseCountdown\<rparr>) r;
        let (now, r) = Now r;
        let r = r\<lparr>countdownStart := now\<rparr>;
        let r = upd_state (\<lambda>s. s\<lparr>RestartVotes := [], RestartTimerStart := None\<rparr>) r;
        let (now, r) = Now r;
        let r = upd_state (\<lambda>s. s\<lparr>StartedAt := now\<rparr>) r;
        let (uuid, r) = NewUUID r;
        let r = upd_state (\<lambda>s. s\<lparr>SessionID := uuid\<rparr>) r;
        let (timer, g) = RandomSpawnTimer (room_rng r);
        let (s, g) = ResetGameEntities timer (state r) g;
        let r = r\<lparr>state := s, room_rng := g\<rparr>;
        let r = scheduleCountdownFromNow r;
        r \<leftarrow> broadcastCountdownPhase r;
        requestPersist r
      })"

definition tryStartWhenAllReady :: "room \<Rightarrow> room" where
  "tryStartWhenAllReady r =
     (if Phase (state r) \<noteq> PhaseWaiting then r
      else if \<not> allConnectedPlayersReady r then r
      else if startDelayTimer r \<noteq> None then r
      else let (now, r) = Now r in r\<lparr>startDelayTimer := Some (Armed (now + startDelay r))\<rparr>)"

text \<open>The callback of the start-delay timer.\<close>

definition startDelayFired :: "room \<Rightarrow> room option" where
  "startDelayFired r =
     (if closed r then Some r
      else let r = r\<lparr>startDelayTimer := None\<rparr>
           in if Phase (state r) = PhaseWaiting \<and> allConnectedPlayersReady r then StartGame r else Some r)"

text \<open>\<^verbatim>\<open>handleCountdownEnd\<close> under the lock; the flag says whether \<^verbatim>\<open>restartTick\<close> follows.\<close>

definition countdownEndLocked :: "room \<Rightarrow> (bool \<times> room) option" where
  "countdownEndLocked r =
     (if Phase (state r) \<noteq> PhaseCountdown then Some (False, r)
      else do {
        let r = upd_state (\<lambda>s. s\<lparr>Phase := PhasePlaying, TickCount := TickCount s + 1\<rparr>) r;
        m \<leftarrow> EncodeGameStateChange PhasePlaying [];
        let r = broadcastCritical m r;
        r \<leftarrow> broadcastSnapshot r;
        let r = (if hasStore r \<and> SessionID (state r) \<noteq> []
                 then createGameSessionAsync (SessionID (state r)) (LobbyCode (state r)) (StartedAt (state r)) r
                 else r);
        r \<leftarrow> requestPersist r;
        Some (True, r)
      })"

definition handleCountdownEnd :: "room \<Rightarrow> room option" where
  "handleCountdownEnd r = do {
     (go, r) \<leftarrow> countdownEndLocked r;
     Some (if go then restartTick r else r)
   }"

definition recordGameResultAsync :: "room \<Rightarrow> room" where
  "recordGameResultAsync r =
     (if \<not> hasStore r \<or> SessionID (state r) = [] then r
      else let (endedAt, r) = Now r;
               results = map (\<lambda>(pid, p). \<lparr>gr_UserID = p_ID p, gr_Nickname = p_Nickname p,
                 gr_ScoreContribution = p_ScoreContribution p, gr_TapsCount = p_TapsCount p\<rparr>) (Players (state r))
           in r\<lparr>dbOps := dbOps r @ [RecordGameResult (SessionID (state r)) (LobbyCode (state r)) endedAt
                 (b_Score (Balloon (state r))) results]\<rparr>)"

definition broadcastGameEnded :: "byte \<Rightarrow> room \<Rightarrow> room option" where
  "broadcastGameEnded reason r = do {
     r \<leftarrow> broadcastSnapshot r;
     let r = broadcastCritical (EncodeGameStateChangeEnded reason) r;
     requestPersist r
   }"

definition EndGameWithReason :: "byte \<Rightarrow> room \<Rightarrow> room option" where
  "EndGameWithReason reason r = do {
     let r = stopTick (upd_state (\<lambda>s. s\<lparr>Phase := PhaseEnded\<rparr>) r);
     let b = Balloon (state r);
     let r = (if b_Y b < 0 then upd_state (\<lambda>s. s\<lparr>Balloon := b\<lparr>b_Y := 0\<rparr>\<rparr>) r else r);
     r \<leftarrow> broadcastGameEnded reason r;
     let r = recordGameResultAsync r;
     Some (if connections r \<noteq> [] then alarm_in AutoRestartMs r
           else upd_state (\<lambda>s. s\<lparr>Phase := PhaseWaiting\<rparr>) r)
   }"

definition handleAutoRestart :: "room \<Rightarrow> room option" where
  "handleAutoRestart r =
     (let gone = (\<lambda>pid. case map_of (Players (state r)) pid of None \<Rightarrow> True | Some p \<Rightarrow> p_Disconnected p);
          r = upd_state (\<lambda>s. s\<lparr>RestartVotes := filter (\<lambda>(pid, v). \<not> gone pid) (RestartVotes s)\<rparr>) r
      in if connections r = [] then Some (upd_state (\<lambda>s. s\<lparr>Phase := PhaseWaiting\<rparr>) r)
         else let (yesVotes, connectedCount) = countRestartYesVotes (Players (state r)) (RestartVotes (state r))
              in if yesVotes > 0 \<and> yesVotes < connectedCount then Some (alarm_in RestartTimeoutMs r)
                 else do {
                   (err, r) \<leftarrow> RestartAndStart r;
                   Some r
                 })"

text \<open>The callback of the end-of-game timer: the version it captured decides whether it acts, the phase it
  reads decides how. The action takes the lock again and does not look at \<open>closed\<close> any more; \<open>handleCountdownEnd\<close> lets
  go of the lock once more before \<open>restartTick\<close>, which lets go of it while it waits for the loop it has cancelled.\<close>

datatype alarm_action = AlarmNothing | AlarmCountdownEnd | AlarmAutoRestart | AlarmRestartTick | AlarmStartTick

definition alarm_decide :: "int \<Rightarrow> room \<Rightarrow> alarm_action" where
  "alarm_decide captured r =
     (if closed r then AlarmNothing
      else if captured \<noteq> endGameAlarmVersion r then AlarmNothing
      else case Phase (state r) of
          PhaseCountdown \<Rightarrow> AlarmCountdownEnd
        | PhaseEnded \<Rightarrow> AlarmAutoRestart
        | _ \<Rightarrow> AlarmNothing)"

fun alarm_act :: "alarm_action \<Rightarrow> room \<Rightarrow> room option" where
  "alarm_act AlarmNothing r = Some r"
| "alarm_act AlarmCountdownEnd r = handleCountdownEnd r"
| "alarm_act AlarmAutoRestart r = handleAutoRestart r"
| "alarm_act AlarmRestartTick r = Some (restartTick r)"
| "alarm_act AlarmStartTick r = Some (startTick r)"

text \<open>The part of an action that runs under the lock at once, and what is left to do when the lock is free again.\<close>

fun alarm_section :: "alarm_action \<Rightarrow> room \<Rightarrow> (alarm_action list \<times> room) option" where
  "alarm_section AlarmNothing r = Some ([], r)"
| "alarm_section AlarmCountdownEnd r = do { (go, r) \<leftarrow> countdownEndLocked r; Some (if go then [AlarmRestartTick] else [], r) }"
| "alarm_section AlarmAutoRestart r = do { r \<leftarrow> handleAutoRestart r; Some ([], r) }"
| "alarm_section AlarmRestartTick r = (let (wait, r) = restartTickBegin r in Some (if wait then [AlarmStartTick] else [], r))"
| "alarm_section AlarmStartTick r = Some ([], startTick r)"

definition triggerAutoRestartIfEnded :: "room \<Rightarrow> room option" where
  "triggerAutoRestartIfEnded r =
     (if Phase (state r) \<noteq> PhaseEnded then Some r
      else if \<not> allConnectedPlayersReady r then Some r
      else handleAutoRestart r)"

section \<open>Joining and leaving\<close>

definition closeExistingConnection :: "gostring \<Rightarrow> player option \<Rightarrow> room \<Rightarrow> room" where
  "closeExistingConnection pid player r = (case player of
       None \<Rightarrow> r
     | Some p \<Rightarrow>
         if p_Disconnected p then r
         else if map_of (connections r) pid \<noteq> None then removeConnectionLocked pid r else r)"

definition addNewPlayer :: "gostring \<Rightarrow> nat \<Rightarrow> room \<Rightarrow> (room_error + player) \<times> room" where
  "addNewPlayer pid conn r =
     (if int (length (Players (state r))) \<ge> maxPlayers r
      then (Inl ErrRoomFull, close_conn conn (del_conn pid r))
      else
        let palette = NextPlayerIndex (state r) mod 10; (now, r) = Now r;
            (nick, c) = GenerateUniqueNickname [] (usedNames r) (room_crand r); r = r\<lparr>room_crand := c\<rparr>;
            nick = SanitizePlayerName nick;
            p = \<lparr>p_ID = pid, p_PlayerIndex = NextPlayerIndex (state r), p_Nickname = nick, p_Palette = palette,
                 p_CooldownEndTime = now, p_ScoreContribution = 0, p_TapsCount = 0, p_MessageCount = 0,
                 p_MessageWindowStart = 0, p_LastNicknameChange = 0, p_NicknameConfirmed = False,
                 p_Disconnected = False, p_DisconnectedAt = None\<rparr>;
            r = upd_state (\<lambda>s. s\<lparr>NextPlayerIndex := NextPlayerIndex s + 1\<rparr>) r;
            r = set_player pid p r
        in (Inr p, r\<lparr>usedNames := insert nick (usedNames r)\<rparr>))"

definition notifyJoin :: "gostring \<Rightarrow> player \<Rightarrow> room \<Rightarrow> room option" where
  "notifyJoin pid p r = do {
     (snap, r) \<leftarrow> buildSnapshot r;
     r \<leftarrow> sendToPlayer pid snap r;
     joinMsg \<leftarrow> EncodePlayerJoin (of_int (p_PlayerIndex p)) (p_Nickname p) (of_int (p_Palette p));
     let r = broadcast joinMsg pid r;
     requestPersist r
   }"

definition normalizePhaseForNicknameGate :: "room \<Rightarrow> room" where
  "normalizePhaseForNicknameGate r =
     (if Phase (state r) \<noteq> PhaseCountdown \<and> Phase (state r) \<noteq> PhasePlaying then r
      else if allConnectedPlayersReady r then r
      else
        let r = (if Phase (state r) = PhasePlaying then stopTick r else r);
            r = r\<lparr>endGameTimer := None, startDelayTimer := None\<rparr>
        in upd_state (\<lambda>s. s\<lparr>Phase := PhaseWaiting\<rparr>) r)"

definition transitionPhaseIfNeeded :: "room \<Rightarrow> room" where
  "transitionPhaseIfNeeded r = (if Phase (state r) = PhasePlaying \<and> \<not> tickCancel r then startTick r else r)"

definition resumeCountdownForReconnect :: "gostring \<Rightarrow> room \<Rightarrow> room option" where
  "resumeCountdownForReconnect pid r = do {
     let (remaining, r) = remainingCountdownMs r;
     m \<leftarrow> EncodeGameStateChange PhaseCountdown [of_int remaining];
     r \<leftarrow> sendToPlayer pid m r;
     Some (alarm_in remaining r)
   }"

definition reconnectPlayer :: "gostring \<Rightarrow> player \<Rightarrow> room \<Rightarrow> room option" where
  "reconnectPlayer pid p r = do {
     let p = p\<lparr>p_Disconnected := False, p_DisconnectedAt := None\<rparr>;
     let r = set_player pid p r;
     (snap, r) \<leftarrow> buildSnapshot r;
     r \<leftarrow> sendToPlayer pid snap r;
     r \<leftarrow> requestPersist r;
     let r = (if \<not> p_NicknameConfirmed p then startNicknameTimer pid r else r);
     case Phase (state r) of
       PhaseWaiting \<Rightarrow> Some (tryStartWhenAllReady r)
     | PhasePlaying \<Rightarrow> Some (if \<not> tickCancel r then startTick r else r)
     | PhaseCountdown \<Rightarrow> if \<not> tickCancel r then resumeCountdownForReconnect pid r else Some r
     | PhaseEnded \<Rightarrow> triggerAutoRestartIfEnded r
     | PhaseOther s \<Rightarrow> Some r
   }"

definition HandleJoin :: "gostring \<Rightarrow> nat \<Rightarrow> room \<Rightarrow> (room_error option \<times> room) option" where
  "HandleJoin pid conn r =
     (let player = map_of (Players (state r)) pid;
          r = closeExistingConnection pid player r;
          pc = \<lparr>c_Conn = conn, c_Send = [], c_closed = False, c_drops = 0, c_pendingDisconnect = False\<rparr>;
          r = set_conn pid pc r
      in case player of
           Some p \<Rightarrow>
             if p_Disconnected p then do { r \<leftarrow> reconnectPlayer pid p r; Some (None, r) }
             else do {
               r \<leftarrow> notifyJoin pid p r;
               Some (None, transitionPhaseIfNeeded (normalizePhaseForNicknameGate r))
             }
         | None \<Rightarrow>
             (case addNewPlayer pid conn r of
                (Inl err, r) \<Rightarrow> Some (Some err, r)
              | (Inr p, r) \<Rightarrow> do {
                  let r = (if \<not> p_NicknameConfirmed p then startNicknameTimer pid r else r);
                  r \<leftarrow> notifyJoin pid p r;
                  Some (None, transitionPhaseIfNeeded (normalizePhaseForNicknameGate r))
                }))"

definition HandleDisconnect :: "gostring \<Rightarrow> room \<Rightarrow> room" where
  "HandleDisconnect pid r = (case map_of (Players (state r)) pid of
       None \<Rightarrow> r
     | Some p \<Rightarrow>
         let r = clearNicknameTimerLocked pid (del_conn pid r); (now, r) = Now r
         in set_player pid (MarkDisconnected now p) r)"

definition drop_player :: "gostring \<Rightarrow> gostring \<Rightarrow> room \<Rightarrow> room" where
  "drop_player pid nick r =
     (let r = upd_state (\<lambda>s. s\<lparr>Players := AList.delete pid (Players s)\<rparr>) r;
          r = r\<lparr>usedNames := usedNames r - {nick}\<rparr>
      in upd_state (\<lambda>s. s\<lparr>RestartVotes := AList.delete pid (RestartVotes s)\<rparr>) r)"

text \<open>The callback of the nickname timer of a player.\<close>

definition nicknameTimeout :: "gostring \<Rightarrow> room \<Rightarrow> room" where
  "nicknameTimeout pid r =
     (if closed r then r
      else case map_of (Players (state r)) pid of
        None \<Rightarrow> clearNicknameTimerLocked pid r
      | Some p \<Rightarrow>
          if p_NicknameConfirmed p then clearNicknameTimerLocked pid r
          else let r = clearNicknameTimerLocked pid r;
                   r = drop_player pid (p_Nickname p) r;
                   r = removeConnectionLocked pid r;
                   r = broadcast (EncodePlayerLeave (of_int (p_PlayerIndex p))) [] r
               in tryStartWhenAllReady r)"

section \<open>Messages\<close>

definition enforceRateLimit :: "gostring \<Rightarrow> player \<Rightarrow> room \<Rightarrow> room_error option \<times> room" where
  "enforceRateLimit pid p r =
     (let (now, r) = Now r;
          p = (if now - p_MessageWindowStart p > MessageWindowMs
               then p\<lparr>p_MessageCount := 0, p_MessageWindowStart := now\<rparr> else p);
          p = p\<lparr>p_MessageCount := p_MessageCount p + 1\<rparr>
      in if p_MessageCount p > MessageRateLimit
         then (Some ErrRateLimited, removeConnectionLocked pid (set_player pid (MarkDisconnected now p) r))
         else (None, set_player pid p r))"

definition validateTapRequest :: "player \<Rightarrow> int \<Rightarrow> room \<Rightarrow> bool" where
  "validateTapRequest p now r \<longleftrightarrow> Phase (state r) = PhasePlaying \<and> CanTap p now"

definition decodeTapPayload :: "byte list \<Rightarrow> (f64 \<times> f64) option" where
  "decodeTapPayload payload =
     (if length payload < 8 then None
      else case DecodeTap payload of
          None \<Rightarrow> None
        | Some (x, y) \<Rightarrow>
            if isNaN x \<or> isNaN y \<or> isInf x \<or> isInf y \<or> x < 0 \<or> x > flit 1 \<or> y < 0 \<or> y > flit 1
            then None else Some (x, y))"

definition applyTapPhysics :: "f64 \<Rightarrow> f64 \<Rightarrow> game_state \<Rightarrow> game_state option" where
  "applyTapPhysics tapX tapY s =
     (let (b, hit) = ApplyTapForce tapX tapY (Balloon s)
      in if hit then Some (ApplyGhostRepel tapX tapY (s\<lparr>Balloon := b\<rparr>)) else None)"

definition updatePlayerStats :: "mathlib \<Rightarrow> gostring \<Rightarrow> player \<Rightarrow> int \<Rightarrow> room \<Rightarrow> int \<times> player \<times> room" where
  "updatePlayerStats ml pid p now r =
     (let cooldown = CalculateCooldown ml (int (length (Players (state r)))); p = RecordTap now cooldown p;
          r = set_player pid p r;
          r = upd_state (\<lambda>s. s\<lparr>Balloon := (Balloon s)\<lparr>b_Score := b_Score (Balloon s) + 1\<rparr>\<rparr>) r
      in (cooldown, p, r))"

definition broadcastTapResult :: "player \<Rightarrow> int \<Rightarrow> room \<Rightarrow> room" where
  "broadcastTapResult p cooldown r =
     broadcast (EncodeTapAccepted (of_int (p_PlayerIndex p)) (of_int cooldown)
       (f32_round (b_X (Balloon (state r)))) (f32_round (b_Y (Balloon (state r))))) [] r"

definition handleTap :: "mathlib \<Rightarrow> gostring \<Rightarrow> player \<Rightarrow> byte list \<Rightarrow> room \<Rightarrow> room option" where
  "handleTap ml pid p payload r =
     (let (now, r) = Now r
      in if \<not> validateTapRequest p now r then sendToPlayer pid EncodeTapRejected r
         else case decodeTapPayload payload of
           None \<Rightarrow> sendToPlayer pid EncodeTapRejected r
         | Some (tapX, tapY) \<Rightarrow>
             (case applyTapPhysics tapX tapY (state r) of
                None \<Rightarrow> sendToPlayer pid EncodeTapRejected r
              | Some s \<Rightarrow>
                  let (cooldown, p, r) = updatePlayerStats ml pid p now (r\<lparr>state := s\<rparr>)
                  in Some (broadcastTapResult p cooldown r)))"

definition nicknameAccepted :: "gostring \<Rightarrow> player \<Rightarrow> room \<Rightarrow> room option" where
  "nicknameAccepted pid p r = do {
     let r = set_player pid (p\<lparr>p_NicknameConfirmed := True\<rparr>) r;
     let r = clearNicknameTimerLocked (p_ID p) r;
     r \<leftarrow> requestPersist r;
     r \<leftarrow> broadcastSnapshot r;
     let r = tryStartWhenAllReady r;
     triggerAutoRestartIfEnded r
   }"

definition handleSetNicknameMsg :: "gostring \<Rightarrow> player \<Rightarrow> byte list \<Rightarrow> room \<Rightarrow> room option" where
  "handleSetNicknameMsg pid p payload r =
     (let decoded = DecodeNicknamePayload payload;
          sanitized = (case decoded of None \<Rightarrow> [] | Some n \<Rightarrow> SanitizeNickname n)
      in if sanitized = [] then
           sendToPlayer (p_ID p) (EncodeNicknameRejected
             (if decoded = None then NickRejectDecodeError else NickRejectEmpty)) r
         else if sanitized = p_Nickname p then nicknameAccepted pid p r
         else if sanitized \<in> usedNames r then
           sendToPlayer (p_ID p) (EncodeNicknameRejected NickRejectDuplicate) r
         else
           let (now, r) = Now r; (ok, p, used, c) = HandleSetNickname now p sanitized (usedNames r) (room_crand r);
               r = set_player pid p (r\<lparr>usedNames := used, room_crand := c\<rparr>)
           in if \<not> ok then sendToPlayer (p_ID p) (EncodeNicknameRejected NickRejectCooldown) r
              else nicknameAccepted pid p r)"

definition handleRestartVoteMsg :: "player \<Rightarrow> room \<Rightarrow> room option" where
  "handleRestartVoteMsg p r = do { (err, r) \<leftarrow> HandleRestartVote p r; Some r }"

definition handlePingMsg :: "gostring \<Rightarrow> room \<Rightarrow> room option" where
  "handlePingMsg pid r = sendToPlayer pid EncodePong r"

definition dispatchMessage :: "mathlib \<Rightarrow> gostring \<Rightarrow> player \<Rightarrow> byte \<Rightarrow> byte list \<Rightarrow> room \<Rightarrow> room option" where
  "dispatchMessage ml pid p msgType payload r =
     (if msgType = MsgTap then handleTap ml pid p payload r
      else if msgType = MsgSetNickname then handleSetNicknameMsg pid p payload r
      else if msgType = MsgRestartVote then handleRestartVoteMsg p r
      else if msgType = MsgPing then handlePingMsg pid r
      else Some r)"

definition HandleMessage ::
  "mathlib \<Rightarrow> gostring \<Rightarrow> byte \<Rightarrow> byte list \<Rightarrow> room \<Rightarrow> (room_error option \<times> room) option" where
  "HandleMessage ml pid msgType payload r = (case map_of (Players (state r)) pid of
       None \<Rightarrow> Some (None, r)
     | Some p \<Rightarrow>
         (case enforceRateLimit pid p r of
            (Some err, r) \<Rightarrow> Some (Some err, r)
          | (None, r) \<Rightarrow> do {
              p \<leftarrow> map_of (Players (state r)) pid;
              r \<leftarrow> dispatchMessage ml pid p msgType payload r;
              Some (None, r)
            }))"

section \<open>The game tick\<close>

definition persistIntervalTicks :: int where
  "persistIntervalTicks = 30"

definition expired :: "int \<Rightarrow> player \<Rightarrow> bool" where
  "expired now p \<longleftrightarrow> p_Disconnected p \<and>
     (case p_DisconnectedAt p of None \<Rightarrow> False | Some t \<Rightarrow> now - t > ReconnectGraceMs)"

definition cleanup_one :: "int \<Rightarrow> gostring \<times> player \<Rightarrow> room \<Rightarrow> room" where
  "cleanup_one now = (\<lambda>(pid, p) r.
     if expired now p
     then broadcast (EncodePlayerLeave (of_int (p_PlayerIndex p))) [] (drop_player pid (p_Nickname p) r)
     else r)"

definition cleanupDisconnected :: "int \<Rightarrow> room \<Rightarrow> room" where
  "cleanupDisconnected now r = fold (cleanup_one now) (Players (state r)) r"

text \<open>The physics of a tick, as \<^verbatim>\<open>tickOnceLocked\<close> strings it together: the state, the generator and the
  reason for which the round is over, if it is.\<close>

definition tick_physics :: "mathlib \<Rightarrow> game_state \<Rightarrow> rng \<Rightarrow> game_state \<times> rng \<times> byte option" where
  "tick_physics ml s g =
     (let s = s\<lparr>TickCount := TickCount s + 1\<rparr>; (b, over) = ApplyPhysics (Balloon s); s = s\<lparr>Balloon := b\<rparr>
      in if over then (s, g, Some EndReasonGround)
         else let (s, g) = UpdateWind s g;
                  (d, g) = UpdateBirdAI (Bird s) (Balloon s) (TickCount s) g; s = s\<lparr>Bird := d\<rparr>;
                  (s, g) = UpdateGhostAI ml s g;
                  (s, hit) = CheckGhostCollision ml s
              in if hit then (s, g, Some EndReasonGhost)
                 else if CheckBirdCollision (Bird s) (Balloon s) then (s, g, Some EndReasonBird)
                 else (s, g, None))"

definition tickOnceLocked :: "mathlib \<Rightarrow> int \<Rightarrow> room \<Rightarrow> (bool \<times> room) option" where
  "tickOnceLocked ml nowMs r =
     (let r = cleanupDisconnected nowMs r
      in if Phase (state r) \<noteq> PhasePlaying then Some (False, r)
         else if Players (state r) = [] \<or> connections r = [] then Some (False, stopTick r)
         else let (s, g, over) = tick_physics ml (state r) (room_rng r); r = r\<lparr>state := s, room_rng := g\<rparr>
              in case over of
                   Some reason \<Rightarrow> do { r \<leftarrow> EndGameWithReason reason r; Some (False, r) }
                 | None \<Rightarrow> Some (True, r))"

text \<open>One iteration of the tick loop.\<close>

definition tick_iteration :: "mathlib \<Rightarrow> room \<Rightarrow> room option" where
  "tick_iteration ml r = do {
     let (now, r) = Now r;
     (shouldBroadcast, r) \<leftarrow> tickOnceLocked ml now r;
     let tickCount = TickCount (state r);
     r \<leftarrow> (if shouldBroadcast then broadcastSnapshot r else Some r);
     if tickCount > 0 \<and> tickCount mod persistIntervalTicks = 0 then asyncSaveState r else Some r
   }"

section \<open>Closing\<close>

text \<open>The final job waits up to five seconds for a place in the queue; then the loop has taken a job, or it is given up.\<close>

definition flushSync :: "game_state \<Rightarrow> gostring \<Rightarrow> room \<Rightarrow> room option" where
  "flushSync data code r =
     (let m = pm_startLoop (persist r); job = \<lparr>j_code = code, j_state = data, j_final = True\<rparr>
      in if \<not> pm_started m then Some (r\<lparr>persist := m\<rparr>)
         else if pm_chClosed m then None
         else case try_send persistQueueSize job (pm_ch m) of
             Some q \<Rightarrow> Some (r\<lparr>persist := m\<lparr>pm_ch := q\<rparr>\<rparr>)
           | None \<Rightarrow>
               let (taken, r) = Wait r
               in Some (if taken then r\<lparr>persist := (pm_receive m)\<lparr>pm_ch := pm_ch (pm_receive m) @ [job]\<rparr>\<rparr>
                        else r\<lparr>persist := m\<rparr>))"

definition flushPersistSync :: "room \<Rightarrow> room option" where
  "flushPersistSync r =
     (if \<not> canPersist r then Some r
      else case SerializeState (state r) of
          None \<Rightarrow> Some r
        | Some data \<Rightarrow> flushSync data (LobbyCode (state r)) r)"

definition stopPersist :: "room \<Rightarrow> room option" where
  "stopPersist r =
     (let m = (persist r)\<lparr>pm_stopped := True\<rparr>
      in if \<not> pm_started m then Some (r\<lparr>persist := m\<rparr>)
         else if pm_chClosed m then None else Some (r\<lparr>persist := m\<lparr>pm_chClosed := True\<rparr>\<rparr>))"

text \<open>\<^verbatim>\<open>Close\<close> is a sequence of sections: setting the flag, the first section under the lock, stopping the outbound manager, the
  second section under the lock, and the two that end the persistence loop. Between them other goroutines run.\<close>

definition closeFlag :: "room \<Rightarrow> room" where
  "closeFlag r = r\<lparr>closed := True\<rparr>"

definition closeTick :: "room \<Rightarrow> room" where
  "closeTick r = clearAllNicknameTimers (stopTick r)"

definition stopTimers :: "room \<Rightarrow> room" where
  "stopTimers r = r\<lparr>endGameTimer := map_option (\<lambda>_. Stopped) (endGameTimer r),
     startDelayTimer := map_option (\<lambda>_. Stopped) (startDelayTimer r)\<rparr>"

definition closeConns :: "room \<Rightarrow> room option" where
  "closeConns r = closeAllConnections (stopTimers r)"

definition Close :: "room \<Rightarrow> room option" where
  "Close r = do {
     let r = closeFlag r;
     let r = closeTick r;
     let r = stopOutbound r;
     r \<leftarrow> closeConns r;
     r \<leftarrow> flushPersistSync r;
     stopPersist r
   }"

end
