(* ===== verification/Room_Queues.thy ===== *)
theory Room_Queues
  imports Physics_Ranges Client_Codec Room
begin

text \<open>
  The supporting operations of a room: delivery, broadcast, direct sends, the persistence queue and the timers.
  \<open>infra_ok\<close> collects the bounds of the queues; \<open>aux r r'\<close> says that an operation leaves the players, the names,
  the simulated world and the random sources alone and keeps these bounds. Each operation gets one \<open>aux\<close> lemma, so
  that the proofs about the handlers only deal with what the handlers change themselves.
\<close>

section \<open>Bounded channels\<close>

text \<open>The contract of a channel with a capacity: a send that does not block keeps the bound, keeps what is
  in the channel in order, and fails only when the channel is full.\<close>

locale bounded_channel =
  fixes send :: "'a \<Rightarrow> 'q \<Rightarrow> 'q option" and contents :: "'q \<Rightarrow> 'a list" and cap :: nat
  assumes send_contents: "send x q = Some q' \<Longrightarrow> contents q' = contents q @ [x]"
    and send_full: "send x q = None \<longleftrightarrow> cap \<le> length (contents q)"
begin

lemma send_bound: "length (contents q) \<le> cap \<Longrightarrow> send x q = Some q' \<Longrightarrow> length (contents q') \<le> cap"
  using send_contents [of x q q'] send_full [of x q] by simp

lemma send_space: "length (contents q) < cap \<Longrightarrow> \<exists>q'. send x q = Some q'"
  using send_full [of x q] by (cases "send x q") auto

end

interpretation ch: bounded_channel "try_send cap" "\<lambda>q. q" cap for cap
  by unfold_locales (auto simp: try_send_def split: if_splits)

section \<open>Connections, queues and the database worker\<close>

definition conn_ok :: "conn \<Rightarrow> bool" where
  "conn_ok pc \<longleftrightarrow> length (c_Send pc) \<le> WSChannelBuffer \<and> \<not> c_closed pc \<and> 0 \<le> c_drops pc"

definition infra_ok :: "room \<Rightarrow> bool" where
  "infra_ok r \<longleftrightarrow> wf_map (connections r) \<and> (\<forall>pid pc. map_of (connections r) pid = Some pc \<longrightarrow> conn_ok pc)
     \<and> length (ob_ch (outbound r)) \<le> outboundQueueSize
     \<and> length (pm_ch (persist r)) \<le> persistQueueSize \<and> \<not> pm_chClosed (persist r)"

text \<open>What the supporting operations leave alone, and that they keep the bounds.\<close>

definition same_core :: "room \<Rightarrow> room \<Rightarrow> bool" where
  "same_core r r' \<longleftrightarrow> state r' = state r \<and> usedNames r' = usedNames r \<and> maxPlayers r' = maxPlayers r
     \<and> room_rng r' = room_rng r \<and> room_crand r' = room_crand r \<and> closed r' = closed r"

definition aux :: "room \<Rightarrow> room \<Rightarrow> bool" where
  "aux r r' \<longleftrightarrow> same_core r r' \<and> (infra_ok r \<longrightarrow> infra_ok r')"

lemma aux_refl [simp, intro!]: "aux r r"
  by (simp add: aux_def same_core_def)

lemma aux_trans [trans]: "aux r s \<Longrightarrow> aux s t \<Longrightarrow> aux r t"
  by (simp add: aux_def same_core_def)

lemma aux_core: "aux r r' \<Longrightarrow> state r' = state r \<and> usedNames r' = usedNames r \<and> maxPlayers r' = maxPlayers r
     \<and> room_rng r' = room_rng r \<and> room_crand r' = room_crand r \<and> closed r' = closed r"
  by (simp add: aux_def same_core_def)

lemma aux_infra: "aux r r' \<Longrightarrow> infra_ok r \<Longrightarrow> infra_ok r'"
  by (simp add: aux_def)

lemma aux_simple:
  "aux r (tick_env r)" "aux r (close_conn k r)" "aux r (del_conn pid r)"
  "aux r (r\<lparr>endGameAlarmVersion := v\<rparr>)" "aux r (r\<lparr>endGameTimer := t\<rparr>)" "aux r (r\<lparr>startDelayTimer := t\<rparr>)"
  "aux r (r\<lparr>tickCancel := b\<rparr>)" "aux r (r\<lparr>nicknameTimers := n\<rparr>)" "aux r (r\<lparr>countdownStart := c\<rparr>)"
  "aux r (r\<lparr>dbOps := ops\<rparr>)"
  by (auto simp: aux_def same_core_def infra_ok_def tick_env_def close_conn_def del_conn_def)

lemma aux_set_conn: "conn_ok pc \<Longrightarrow> aux r (set_conn pid pc r)"
  by (auto simp: aux_def same_core_def infra_ok_def set_conn_def)

lemma aux_Now: "Now r = (t, r') \<Longrightarrow> aux r r'" and aux_Wait: "Wait r = (b, r') \<Longrightarrow> aux r r'"
  and aux_NewUUID: "NewUUID r = (u, r') \<Longrightarrow> aux r r'"
  using aux_simple(1) by (auto simp: Now_def Wait_def NewUUID_def)

lemma conn_ok_send: "try_send WSChannelBuffer x (c_Send pc) = Some q \<Longrightarrow> conn_ok pc \<Longrightarrow> length q \<le> WSChannelBuffer"
  using ch.send_bound [of "c_Send pc" WSChannelBuffer x q] by (simp add: conn_ok_def)

lemma aux_fold: "(\<And>x r. aux r (f x r)) \<Longrightarrow> aux r (fold f xs r)"
  by (induction xs arbitrary: r) (auto intro: aux_trans)

lemma conn_ok_of: "infra_ok r \<Longrightarrow> map_of (connections r) pid = Some pc \<Longrightarrow> conn_ok pc"
  by (simp add: infra_ok_def)

lemma aux_if_infra: "same_core r r' \<Longrightarrow> (infra_ok r \<Longrightarrow> aux r r') \<Longrightarrow> aux r r'"
  by (auto simp: aux_def)

lemma aux_removeConnectionLocked: "aux r (removeConnectionLocked pid r)"
  by (auto simp: removeConnectionLocked_def split: option.split intro: aux_trans [OF aux_simple(2) aux_simple(3)])

lemma aux_deliverNonCritical: "conn_ok pc \<Longrightarrow> aux r (deliverNonCritical pid pc m r)"
proof (cases "try_send WSChannelBuffer (o_payload m) (c_Send pc)")
  case None
  assume "conn_ok pc"
  then have "conn_ok (pc\<lparr>c_drops := c_drops pc + 1\<rparr>)"
    "conn_ok (pc\<lparr>c_drops := c_drops pc + 1, c_pendingDisconnect := True\<rparr>)" by (simp_all add: conn_ok_def)
  then show ?thesis using None aux_trans [OF aux_set_conn aux_simple(2)] aux_set_conn
    by (simp add: deliverNonCritical_def checkSlowClient_def)
next
  case (Some q)
  assume "conn_ok pc"
  then show ?thesis using Some conn_ok_send [OF Some] by (simp add: deliverNonCritical_def aux_set_conn conn_ok_def)
qed

lemma aux_deliverCritical: "conn_ok pc \<Longrightarrow> aux r (deliverCritical pid pc m r)"
proof (cases "try_send WSChannelBuffer (o_payload m) (c_Send pc)")
  case None
  assume ok: "conn_ok pc"
  have "length (tl (c_Send pc) @ [o_payload m]) \<le> WSChannelBuffer"
    using ok by (cases "c_Send pc") (auto simp: WSChannelBuffer_def conn_ok_def)
  then have "conn_ok (pc\<lparr>c_Send := tl (c_Send pc) @ [o_payload m], c_drops := 0\<rparr>)" using ok by (simp add: conn_ok_def)
  then show ?thesis using None aux_trans [OF aux_simple(1) aux_set_conn] aux_simple(1)
    by (simp add: deliverCritical_def Wait_def)
next
  case (Some q)
  assume "conn_ok pc"
  then show ?thesis using Some conn_ok_send [OF Some] by (simp add: deliverCritical_def aux_set_conn conn_ok_def)
qed

lemma aux_deliverToTarget: "aux r (deliverToTarget m pid r)"
proof (rule aux_if_infra)
  show "same_core r (deliverToTarget m pid r)"
    by (auto simp: same_core_def deliverToTarget_def deliverCritical_def deliverNonCritical_def checkSlowClient_def
        set_conn_def close_conn_def Wait_def tick_env_def Let_def split: option.split)
  assume "infra_ok r"
  then show "aux r (deliverToTarget m pid r)"
    using conn_ok_of [of r pid] aux_deliverCritical aux_deliverNonCritical
    by (auto simp: deliverToTarget_def split: option.split)
qed

lemma aux_removePending: "aux r (removePending False pid r)"
  by (auto simp: removePending_def intro: aux_simple split: option.split)

lemma aux_deliver: "aux r (deliver False m r)"
  unfolding deliver_def deliverToTargets_def RemovePendingDisconnects_def
  by (rule aux_trans [OF aux_fold [OF aux_deliverToTarget] aux_fold [OF aux_removePending]])

lemma aux_ob_ch: "length q \<le> outboundQueueSize \<Longrightarrow> aux r (r\<lparr>outbound := (outbound r)\<lparr>ob_ch := q\<rparr>\<rparr>)"
  by (simp add: aux_def same_core_def infra_ok_def)

lemma ob_ch_frame:
  "outbound (deliverToTarget m pid r) = outbound r" "outbound (removePending b pid r) = outbound r"
  by (simp_all add: deliverToTarget_def deliverCritical_def deliverNonCritical_def checkSlowClient_def set_conn_def
      close_conn_def Wait_def tick_env_def Let_def removePending_def del_conn_def set_player_def Now_def split: option.split)

lemma fold_frame: "(\<And>x r. g (f x r) = g r) \<Longrightarrow> g (fold f xs r) = g r"
  by (induction xs arbitrary: r) auto

lemma outbound_deliver [simp]: "outbound (deliver b m r) = outbound r"
  by (simp add: deliver_def deliverToTargets_def RemovePendingDisconnects_def fold_frame [where g = outbound, OF ob_ch_frame(1)]
      fold_frame [where g = outbound, OF ob_ch_frame(2)])

lemma runLoop_round_laws:
  "aux r (runLoop_round False r)" "ob_ch (outbound (runLoop_round b r)) = tl (ob_ch (outbound r))"
proof -
  show "aux r (runLoop_round False r)"
  proof (cases "ob_ch (outbound r)")
    case (Cons m ms)
    let ?s = "r\<lparr>outbound := (outbound r)\<lparr>ob_ch := ms\<rparr>\<rparr>"
    have "aux r ?s" using Cons by (simp add: aux_def same_core_def infra_ok_def)
    from aux_trans [OF this aux_deliver [of ?s m]] show ?thesis using Cons by (simp add: runLoop_round_def)
  qed (simp add: runLoop_round_def)
  show "ob_ch (outbound (runLoop_round b r)) = tl (ob_ch (outbound r))"
    by (simp add: runLoop_round_def split: list.split)
qed

lemma aux_enqueueCritical: "length (ob_ch (outbound r)) \<le> outboundQueueSize \<Longrightarrow> aux r (enqueueCritical m r)"
proof -
  assume len: "length (ob_ch (outbound r)) \<le> outboundQueueSize"
  let ?r = "runLoop_round False (tick_env r)"
  have o: "ob_ch (outbound ?r) = tl (ob_ch (outbound r))" by (simp add: runLoop_round_laws(2) tick_env_def)
  then have "length (ob_ch (outbound ?r) @ [m]) \<le> outboundQueueSize"
    using len by (cases "ob_ch (outbound r)") (auto simp: outboundQueueSize_def)
  then have "aux r (?r\<lparr>outbound := (outbound ?r)\<lparr>ob_ch := ob_ch (outbound ?r) @ [m]\<rparr>\<rparr>)"
    by (intro aux_trans [OF aux_simple(1) aux_trans [OF runLoop_round_laws(1) aux_ob_ch]])
  then show ?thesis using aux_simple(1) by (simp add: enqueueCritical_def Wait_def Let_def)
qed

lemma same_core_enqueueCritical: "same_core r (enqueueCritical m r)"
  using aux_core [OF runLoop_round_laws(1) [of "tick_env r"]]
  by (simp add: enqueueCritical_def Wait_def Let_def same_core_def) (simp add: tick_env_def)

lemma aux_ob_send: "try_send outboundQueueSize m (ob_ch (outbound r)) = Some q \<Longrightarrow> aux r (r\<lparr>outbound := (outbound r)\<lparr>ob_ch := q\<rparr>\<rparr>)"
  by (intro aux_ob_ch) (auto simp: try_send_def split: if_splits)

lemma aux_Enqueue: "aux r (Enqueue d x c r)"
proof -
  define m where "m = \<lparr>o_payload = d, o_exclude = x, o_critical = c\<rparr>"
  have c: "aux r (enqueueCritical m r)"
    by (rule aux_if_infra [OF same_core_enqueueCritical]) (simp add: aux_enqueueCritical infra_ok_def)
  show ?thesis
  proof (cases "try_send outboundQueueSize m (ob_ch (outbound r))")
    case None
    then show ?thesis using c aux_deliver [of r m] by (simp add: Enqueue_def Let_def flip: m_def)
  next
    case (Some q)
    then show ?thesis using aux_ob_send [OF Some] aux_deliver [of r m] by (simp add: Enqueue_def Let_def flip: m_def)
  qed
qed

lemma aux_broadcast: "aux r (broadcast d x r)" and aux_broadcastCritical: "aux r (broadcastCritical d r)"
  by (simp_all add: broadcast_def broadcastCritical_def aux_Enqueue)

lemma sendToPlayer_returns: "infra_ok r \<Longrightarrow> returns (sendToPlayer pid d r) (aux r)"
proof (cases "map_of (connections r) pid")
  case (Some pc)
  assume "infra_ok r"
  then have ok: "conn_ok pc" using Some conn_ok_of by blast
  show ?thesis
  proof (cases "try_send WSChannelBuffer d (c_Send pc)")
    case None
    then show ?thesis using Some ok by (simp add: sendToPlayer_def conn_ok_def)
  next
    case (Some q)
    then show ?thesis using \<open>map_of (connections r) pid = Some pc\<close> ok conn_ok_send [OF Some ok]
      by (simp add: sendToPlayer_def aux_set_conn conn_ok_def)
  qed
qed (simp add: sendToPlayer_def)

lemma requestPersist_returns: "infra_ok r \<Longrightarrow> returns (requestPersist r) (aux r)"
proof -
  assume r: "infra_ok r"
  have q: "length q \<le> persistQueueSize" if "try_send persistQueueSize j (pm_ch (persist r)) = Some q" for j q
    using r that ch.send_bound by (auto simp: infra_ok_def)
  show ?thesis using r q
    by (auto simp: requestPersist_def enqueuePersist_def pm_startLoop_def infra_ok_def aux_def same_core_def Let_def
        split: option.split)
qed

lemma aux_setEndGameAlarm: "aux r (setEndGameAlarm w r)"
proof -
  have "aux r (tick_env r)" by (rule aux_simple)
  also have "aux (tick_env r) (tick_env r\<lparr>endGameAlarmVersion := v\<rparr>)" for v by (rule aux_simple)
  also have "aux (tick_env r\<lparr>endGameAlarmVersion := v\<rparr>) (tick_env r\<lparr>endGameAlarmVersion := v, endGameTimer := t\<rparr>)" for v t
    by (rule aux_simple)
  finally show ?thesis by (simp add: setEndGameAlarm_def Now_def Let_def)
qed

lemma aux_alarm_in: "aux r (alarm_in ms r)"
  using aux_trans [OF aux_simple(1) aux_setEndGameAlarm] by (simp add: alarm_in_def Now_def)

lemma aux_timers:
  "aux r (clearNicknameTimerLocked pid r)" "aux r (startNicknameTimer pid r)" "aux r (startTick r)" "aux r (stopTick r)"
  "aux r (restartTick r)" "aux r (scheduleCountdownFromNow r)" "aux r (tryStartWhenAllReady r)"
  "aux r (recordGameResultAsync r)" "aux r (createGameSessionAsync a b c r)" "aux r (transitionPhaseIfNeeded r)"
  by (auto simp: aux_def same_core_def infra_ok_def clearNicknameTimerLocked_def startNicknameTimer_def startTick_def
      stopTick_def restartTick_def tryStartWhenAllReady_def recordGameResultAsync_def createGameSessionAsync_def
      transitionPhaseIfNeeded_def Now_def tick_env_def Let_def)
    (use aux_alarm_in in \<open>auto simp: scheduleCountdownFromNow_def aux_def same_core_def infra_ok_def\<close>)

end
