(* ===== verification/Room_Invariant.thy ===== *)
theory Room_Invariant
  imports Room_Queues
begin

text \<open>
  The invariant of an open room and the handlers that restart it.

  \<^item> \<open>players_ok\<close>: the players are stored under their identifiers, their nicknames are pairwise different, valid
    UTF-8 of at most 12 runes, and exactly the used names of the room; scores stay between 0 and the maximum.
  \<^item> \<open>world_ok\<close>: the simulated world is in range (\<open>phys_ok\<close>), and the balloon is in the air from the countdown on.
  \<^item> \<open>room_inv\<close>: both, the bound on the number of players, and the bounds of all queues (\<open>infra_ok\<close>).

  \<open>quiet r r'\<close> says that the invariant holds in \<open>r'\<close> and the phase is unchanged, \<open>keeps r r'\<close> that it holds and
  the phase moved along \<open>phase_step\<close>. For each handler there is one lemma that it returns and keeps the
  invariant; those of joining, messages and ticks are in \<open>Room_Safety\<close>.
\<close>

section \<open>The players of a room and their names\<close>

definition good_nick :: "gostring \<Rightarrow> bool" where
  "good_nick n \<longleftrightarrow> valid_utf8 n \<and> length (runes n) \<le> 12 \<and> length n \<le> 48"

definition player_ok :: "gostring \<Rightarrow> player \<Rightarrow> bool" where
  "player_ok pid p \<longleftrightarrow> p_ID p = pid \<and> good_nick (p_Nickname p)
     \<and> 0 \<le> p_ScoreContribution p \<and> p_ScoreContribution p \<le> MaxScore"

lemma player_ok_frame [simp]:
  "player_ok pid (p\<lparr>p_MessageCount := i\<rparr>) = player_ok pid p" "player_ok pid (p\<lparr>p_MessageWindowStart := i\<rparr>) = player_ok pid p"
  "player_ok pid (p\<lparr>p_Disconnected := b\<rparr>) = player_ok pid p" "player_ok pid (p\<lparr>p_DisconnectedAt := t\<rparr>) = player_ok pid p"
  "player_ok pid (p\<lparr>p_NicknameConfirmed := b\<rparr>) = player_ok pid p" "player_ok pid (p\<lparr>p_LastNicknameChange := i\<rparr>) = player_ok pid p"
  by (simp_all add: player_ok_def)

definition nick_of :: "(gostring \<times> player) list \<Rightarrow> gostring \<Rightarrow> gostring option" where
  "nick_of ps pid = map_option p_Nickname (map_of ps pid)"

definition players_ok :: "(gostring \<times> player) list \<Rightarrow> gostring set \<Rightarrow> bool" where
  "players_ok ps used \<longleftrightarrow> wf_map ps \<and> (\<forall>pid p. map_of ps pid = Some p \<longrightarrow> player_ok pid p)
     \<and> inj_on (nick_of ps) (dom (map_of ps)) \<and> nick_of ps ` dom (map_of ps) = Some ` used"

lemma players_okD:
  assumes "players_ok ps used" "map_of ps pid = Some p"
  shows "player_ok pid p \<and> p_Nickname p \<in> used"
proof -
  have "nick_of ps pid \<in> Some ` used" using assms unfolding players_ok_def by (metis domI imageI)
  then show ?thesis using assms by (auto simp: players_ok_def nick_of_def [of ps pid])
qed

lemma players_ok_Nil [simp]: "players_ok [] {}"
  by (simp add: players_ok_def)

lemma card_keys: "wf_map al \<Longrightarrow> card (dom (map_of al)) = length al"
  using distinct_card [of "keys al"] by (simp add: wf_map_def dom_map_of_conv_image_fst)

lemma players_card: "players_ok ps used \<Longrightarrow> finite used \<and> card used = length ps"
proof -
  assume ok: "players_ok ps used"
  then have "card (Some ` used) = card (dom (map_of ps))" "finite (Some ` used)"
    using card_image [of "nick_of ps" "dom (map_of ps)"] finite_dom_map_of [of ps] unfolding players_ok_def
    by (metis, metis finite_imageI)
  moreover have "card (Some ` used) = card used" "finite (Some ` used) \<Longrightarrow> finite used"
    using card_image [of Some used] finite_imageD [of Some used] by (simp_all add: inj_on_def)
  ultimately show ?thesis using ok card_keys [of ps] by (simp add: players_ok_def)
qed

lemma nick_of_update: "nick_of (AList.update pid q ps) = (nick_of ps)(pid \<mapsto> p_Nickname q)"
  by (auto simp: nick_of_def fun_eq_iff)

text \<open>The four ways in which handlers change the players.\<close>

lemma players_ok_same_name:
  assumes "players_ok ps used" "map_of ps pid = Some p" "player_ok pid q" "p_Nickname q = p_Nickname p"
  shows "players_ok (AList.update pid q ps) used"
proof -
  have "nick_of (AList.update pid q ps) = nick_of ps"
    using assms(2,4) by (simp add: nick_of_update fun_upd_idem_iff nick_of_def)
  moreover have "insert pid (dom (map_of ps)) = dom (map_of ps)" using assms(2) by auto
  ultimately show ?thesis using assms(1,3) unfolding players_ok_def by simp
qed

lemma players_ok_rename:
  assumes "players_ok ps used" "map_of ps pid = Some p" "player_ok pid q" "p_Nickname q \<notin> used"
  shows "players_ok (AList.update pid q ps) (insert (p_Nickname q) (used - {p_Nickname p}))"
proof -
  let ?K = "dom (map_of ps)"
  have pid: "pid \<in> ?K" using assms(2) by auto
  have inj: "inj_on (nick_of ps) ?K" and im: "nick_of ps ` ?K = Some ` used"
    and wf: "wf_map ps" and all: "\<forall>pid p. map_of ps pid = Some p \<longrightarrow> player_ok pid p"
    using assms(1) by (simp_all add: players_ok_def)
  have fresh: "Some (p_Nickname q) \<notin> nick_of ps ` ?K" using assms(4) im by auto
  have "inj_on ((nick_of ps)(pid \<mapsto> p_Nickname q)) ?K"
    using inj fresh by (rule inj_on_fun_updI)
  moreover have "((nick_of ps)(pid \<mapsto> p_Nickname q)) ` ?K = Some ` (insert (p_Nickname q) (used - {p_Nickname p}))"
  proof -
    have "((nick_of ps)(pid \<mapsto> p_Nickname q)) ` ?K = insert (Some (p_Nickname q)) (nick_of ps ` (?K - {pid}))"
      using pid by auto
    also have "nick_of ps ` (?K - {pid}) = nick_of ps ` ?K - {nick_of ps pid}"
      using inj_on_image_set_diff [OF inj, of ?K "{pid}"] pid by simp
    also have "\<dots> = Some ` (used - {p_Nickname p})" using im assms(2) by (auto simp: nick_of_def)
    finally show ?thesis by simp
  qed
  ultimately show ?thesis
    using wf all assms(3) pid unfolding players_ok_def nick_of_update map_of_update dom_fun_upd by (simp add: insert_absorb [OF pid])
qed

lemma players_ok_add:
  assumes "players_ok ps used" "map_of ps pid = None" "player_ok pid q" "p_Nickname q \<notin> used"
  shows "players_ok (AList.update pid q ps) (insert (p_Nickname q) used)"
proof -
  let ?K = "dom (map_of ps)"
  have pid: "pid \<notin> ?K" using assms(2) by auto
  have inj: "inj_on (nick_of ps) ?K" and im: "nick_of ps ` ?K = Some ` used"
    and wf: "wf_map ps" and all: "\<forall>pid p. map_of ps pid = Some p \<longrightarrow> player_ok pid p"
    using assms(1) by (simp_all add: players_ok_def)
  have old: "((nick_of ps)(pid \<mapsto> p_Nickname q)) ` ?K = nick_of ps ` ?K" using pid by (intro image_cong) auto
  have "inj_on ((nick_of ps)(pid \<mapsto> p_Nickname q)) ?K"
    using inj assms(4) im by (intro inj_on_fun_updI) auto
  then have "inj_on ((nick_of ps)(pid \<mapsto> p_Nickname q)) (insert pid ?K)"
    using assms(4) im pid old by (auto simp: inj_on_insert)
  moreover have "((nick_of ps)(pid \<mapsto> p_Nickname q)) ` insert pid ?K = Some ` insert (p_Nickname q) used"
    by (simp only: image_insert fun_upd_same old im)
  moreover have "dom (map_of (AList.update pid q ps)) = insert pid ?K" by simp
  ultimately show ?thesis
    using wf all assms(3) unfolding players_ok_def nick_of_update by (simp only: wf_map_update) simp
qed

lemma players_ok_delete:
  assumes "players_ok ps used" "map_of ps pid = Some p"
  shows "players_ok (AList.delete pid ps) (used - {p_Nickname p})"
proof -
  let ?K = "dom (map_of ps)"
  have pid: "pid \<in> ?K" using assms(2) by auto
  have inj: "inj_on (nick_of ps) ?K" and im: "nick_of ps ` ?K = Some ` used"
    and wf: "wf_map ps" and all: "\<forall>pid p. map_of ps pid = Some p \<longrightarrow> player_ok pid p"
    using assms(1) by (simp_all add: players_ok_def)
  have d: "nick_of (AList.delete pid ps) k = nick_of ps k" if "k \<noteq> pid" for k using that by (simp add: nick_of_def)
  have "inj_on (nick_of (AList.delete pid ps)) (?K - {pid})"
    using inj d by (auto simp: inj_on_def)
  moreover have "nick_of (AList.delete pid ps) ` (?K - {pid}) = nick_of ps ` (?K - {pid})"
    using d by (intro image_cong) auto
  moreover have "nick_of ps ` (?K - {pid}) = nick_of ps ` ?K - {nick_of ps pid}"
    using inj_on_image_set_diff [OF inj, of ?K "{pid}"] pid by simp
  moreover have "\<dots> = Some ` (used - {p_Nickname p})" using im assms(2) by (auto simp: nick_of_def)
  ultimately show ?thesis using wf all unfolding players_ok_def by simp
qed

lemma distinct_map_Some: "distinct (map (Some \<circ> f) xs) = distinct (map f xs)"
  by (induction xs) auto

lemma players_ok_distinct:
  assumes "players_ok ps used"
  shows "distinct (map (p_Nickname \<circ> snd) ps)"
proof -
  have "dom (map_of ps) = set (keys ps)" by (simp add: dom_map_of_conv_image_fst)
  then have "distinct (map (nick_of ps) (keys ps))"
    using assms unfolding players_ok_def wf_map_def by (simp only: distinct_map)
  moreover have "map (nick_of ps) (keys ps) = map (Some \<circ> (p_Nickname \<circ> snd)) ps"
    using assms by (auto simp: players_ok_def nick_of_def in_set_map_of)
  ultimately show ?thesis by (simp only: distinct_map_Some)
qed

lemma players_ok_map: "wf_map qs \<Longrightarrow> map_of qs = map_of ps \<Longrightarrow> players_ok ps used \<Longrightarrow> players_ok qs used"
  by (simp add: players_ok_def nick_of_def [abs_def])

lemma players_ok_Cons:
  "players_ok ((pid, p) # ps) used \<longleftrightarrow>
     map_of ps pid = None \<and> player_ok pid p \<and> p_Nickname p \<in> used \<and> players_ok ps (used - {p_Nickname p})"
proof
  assume ok: "players_ok ((pid, p) # ps) used"
  then have n: "map_of ps pid = None" by (simp add: players_ok_def wf_map_def map_of_eq_None_iff)
  then have "AList.delete pid ((pid, p) # ps) = ps"
    by (auto simp: map_of_eq_None_iff AList.delete_eq filter_id_conv image_iff split_def)
  then have "players_ok ps (used - {p_Nickname p})" using players_ok_delete [OF ok, of pid p] by simp
  then show "map_of ps pid = None \<and> player_ok pid p \<and> p_Nickname p \<in> used \<and> players_ok ps (used - {p_Nickname p})"
    using n players_okD [OF ok, of pid p] by simp
next
  assume a: "map_of ps pid = None \<and> player_ok pid p \<and> p_Nickname p \<in> used \<and> players_ok ps (used - {p_Nickname p})"
  then have "players_ok (AList.update pid p ps) (insert (p_Nickname p) (used - {p_Nickname p}))"
    by (intro players_ok_add) auto
  moreover have "insert (p_Nickname p) (used - {p_Nickname p}) = used" using a by auto
  moreover have "wf_map ((pid, p) # ps)" using a by (auto simp: wf_map_def players_ok_def map_of_eq_None_iff)
  moreover have "map_of ((pid, p) # ps) = map_of (AList.update pid p ps)" by auto
  ultimately show "players_ok ((pid, p) # ps) used" using players_ok_map by metis
qed

section \<open>The world a room simulates\<close>

definition world_ok :: "game_state \<Rightarrow> bool" where
  "world_ok s \<longleftrightarrow> phys_ok s \<and> (Phase s = PhaseCountdown \<longrightarrow> airborne (Balloon s)) \<and> (\<forall>t. Phase s \<noteq> PhaseOther t)"

lemma world_ok_frame [simp]:
  "world_ok (s\<lparr>Players := ps\<rparr>) = world_ok s" "world_ok (s\<lparr>NextPlayerIndex := i\<rparr>) = world_ok s"
  "world_ok (s\<lparr>TickCount := i\<rparr>) = world_ok s" "world_ok (s\<lparr>StartedAt := t\<rparr>) = world_ok s"
  "world_ok (s\<lparr>CreatedAt := t\<rparr>) = world_ok s" "world_ok (s\<lparr>SessionID := u\<rparr>) = world_ok s"
  "world_ok (s\<lparr>RestartVotes := v\<rparr>) = world_ok s" "world_ok (s\<lparr>RestartTimerStart := t'\<rparr>) = world_ok s"
  by (simp_all add: world_ok_def phys_ok_def wind_ok_def)

lemma world_ok_phase_frame [simp]:
  "world_ok (s\<lparr>Players := ps, Phase := p\<rparr>) = world_ok (s\<lparr>Phase := p\<rparr>)"
  "world_ok (s\<lparr>NextPlayerIndex := i, Phase := p\<rparr>) = world_ok (s\<lparr>Phase := p\<rparr>)"
  "world_ok (s\<lparr>CreatedAt := t, Phase := p\<rparr>) = world_ok (s\<lparr>Phase := p\<rparr>)"
  "world_ok (s\<lparr>RestartVotes := v, Phase := p\<rparr>) = world_ok (s\<lparr>Phase := p\<rparr>)"
  "world_ok (s\<lparr>RestartTimerStart := t', Phase := p\<rparr>) = world_ok (s\<lparr>Phase := p\<rparr>)"
  by (simp_all add: world_ok_def phys_ok_def wind_ok_def)

lemma world_ok_idle: "world_ok s \<Longrightarrow> p = PhaseWaiting \<or> p = PhaseEnded \<Longrightarrow> world_ok (s\<lparr>Phase := p\<rparr>)"
  by (auto simp: world_ok_def phys_ok_def wind_ok_def)

lemma NewGameState_frame:
  "Players (fst (NewGameState now code seed g)) = []" "Phase (fst (NewGameState now code seed g)) = PhaseWaiting"
  "Balloon (fst (NewGameState now code seed g)) = createInitialBalloon"
  by (simp_all add: NewGameState_def initWind_def split_def Let_def)

lemma NewGameState_world:
  "rng_ok g \<Longrightarrow> p \<in> {PhaseWaiting, PhaseCountdown} \<Longrightarrow> world_ok ((fst (NewGameState now code seed g))\<lparr>Phase := p\<rparr>)"
  using NewGameState_ok [of g] NewGameState_frame [of now code seed g] createInitial_ok
  by (auto simp: world_ok_def phys_ok_def wind_ok_def)

lemma ResetGameEntities_frame:
  "Players (fst (ResetGameEntities t s g)) = Players s" "Phase (fst (ResetGameEntities t s g)) = Phase s"
  "Balloon (fst (ResetGameEntities t s g)) = createInitialBalloon"
  by (simp_all add: ResetGameEntities_def initWind_def split_def Let_def)

lemma ResetGameEntities_world:
  "rng_ok g \<Longrightarrow> 1 \<le> t \<Longrightarrow> t \<le> 30 \<Longrightarrow> Phase s = PhaseCountdown \<Longrightarrow> world_ok (fst (ResetGameEntities t s g))"
  using ResetGameEntities_ok [of g t s] ResetGameEntities_frame [of t s g] createInitial_ok
  by (simp add: world_ok_def)

section \<open>The invariant of a room\<close>

definition core_ok :: "room \<Rightarrow> bool" where
  "core_ok r \<longleftrightarrow> players_ok (Players (state r)) (usedNames r) \<and> int (length (Players (state r))) \<le> maxPlayers r
     \<and> 1 \<le> maxPlayers r \<and> maxPlayers r \<le> 95 \<and> world_ok (state r) \<and> rng_ok (room_rng r) \<and> crand_ok (room_crand r)"

definition room_inv :: "room \<Rightarrow> bool" where
  "room_inv r \<longleftrightarrow> core_ok r \<and> infra_ok r"

text \<open>The phases a room moves between.\<close>

definition phase_step :: "phase \<Rightarrow> phase \<Rightarrow> bool" where
  "phase_step p q \<longleftrightarrow> p = q \<or> (p, q) \<in>
     {(PhaseWaiting, PhaseCountdown), (PhaseCountdown, PhasePlaying), (PhaseCountdown, PhaseWaiting),
      (PhasePlaying, PhaseEnded), (PhasePlaying, PhaseWaiting), (PhaseEnded, PhaseCountdown), (PhaseEnded, PhaseWaiting)}"

definition quiet :: "room \<Rightarrow> room \<Rightarrow> bool" where
  "quiet r r' \<longleftrightarrow> room_inv r' \<and> Phase (state r') = Phase (state r) \<and> closed r' = closed r \<and> maxPlayers r' = maxPlayers r"

definition keeps :: "room \<Rightarrow> room \<Rightarrow> bool" where
  "keeps r r' \<longleftrightarrow> room_inv r' \<and> phase_step (Phase (state r)) (Phase (state r')) \<and> closed r' = closed r \<and> maxPlayers r' = maxPlayers r"

lemma phase_step_refl [simp]: "phase_step p p"
  by (simp add: phase_step_def)

lemma quiet_refl: "room_inv r \<Longrightarrow> quiet r r" and quiet_inv: "quiet r r' \<Longrightarrow> room_inv r'"
  and keeps_inv: "keeps r r' \<Longrightarrow> room_inv r'" and quiet_keeps: "quiet r r' \<Longrightarrow> keeps r r'"
  by (simp_all add: quiet_def keeps_def)

lemma quiet_trans [trans]: "quiet r s \<Longrightarrow> quiet s t \<Longrightarrow> quiet r t"
  and quiet_keeps_trans [trans]: "quiet r s \<Longrightarrow> keeps s t \<Longrightarrow> keeps r t"
  and keeps_quiet_trans [trans]: "keeps r s \<Longrightarrow> quiet s t \<Longrightarrow> keeps r t"
  by (simp_all add: quiet_def keeps_def)

lemma aux_inv: "aux r r' \<Longrightarrow> room_inv r \<Longrightarrow> room_inv r'"
  using aux_core [of r r'] aux_infra [of r r'] by (simp add: room_inv_def core_ok_def)

lemma aux_quiet: "aux r r' \<Longrightarrow> room_inv r \<Longrightarrow> quiet r r'"
  using aux_core [of r r'] aux_inv [of r r'] by (simp add: quiet_def)

lemma inv_infra: "room_inv r \<Longrightarrow> infra_ok r" and inv_core: "room_inv r \<Longrightarrow> core_ok r"
  by (simp_all add: room_inv_def)

lemma inv_player: "room_inv r \<Longrightarrow> map_of (Players (state r)) pid = Some p \<Longrightarrow> player_ok pid p \<and> p_Nickname p \<in> usedNames r"
  using players_okD [of "Players (state r)" "usedNames r" pid p] by (simp add: room_inv_def core_ok_def)

text \<open>A change of the state alone.\<close>

lemma infra_frame [simp]:
  "infra_ok (r\<lparr>state := s\<rparr>) = infra_ok r" "infra_ok (r\<lparr>usedNames := u\<rparr>) = infra_ok r"
  "infra_ok (r\<lparr>room_rng := g\<rparr>) = infra_ok r" "infra_ok (r\<lparr>room_crand := c\<rparr>) = infra_ok r"
  "infra_ok (r\<lparr>countdownStart := t\<rparr>) = infra_ok r" "infra_ok (tick_env r) = infra_ok r"
  by (simp_all add: infra_ok_def tick_env_def)

lemma tick_env_frame [simp]:
  "state (tick_env r) = state r" "usedNames (tick_env r) = usedNames r" "maxPlayers (tick_env r) = maxPlayers r"
  "room_rng (tick_env r) = room_rng r" "room_crand (tick_env r) = room_crand r" "closed (tick_env r) = closed r"
  "connections (tick_env r) = connections r" "core_ok (tick_env r) = core_ok r" "room_inv (tick_env r) = room_inv r"
  by (simp_all add: tick_env_def core_ok_def room_inv_def infra_ok_def)

lemma set_player_quiet:
  "room_inv r \<Longrightarrow> map_of (Players (state r)) pid = Some p \<Longrightarrow> player_ok pid q \<Longrightarrow> p_Nickname q = p_Nickname p
    \<Longrightarrow> quiet r (set_player pid q r)"
  using players_ok_same_name [of "Players (state r)" "usedNames r" pid p q]
  by (simp add: quiet_def room_inv_def core_ok_def set_player_def)

lemma upd_state_quiet:
  "room_inv r \<Longrightarrow> Players (f (state r)) = Players (state r) \<Longrightarrow> Phase (f (state r)) = Phase (state r) \<Longrightarrow>
    world_ok (f (state r)) \<Longrightarrow> quiet r (upd_state f r)"
  by (simp add: quiet_def room_inv_def core_ok_def upd_state_def)

lemma upd_votes_quiet: "room_inv r \<Longrightarrow> quiet r (upd_state (\<lambda>s. s\<lparr>RestartVotes := f s\<rparr>) r)"
  by (rule upd_state_quiet) (simp_all add: room_inv_def core_ok_def)

lemma idle_inv:
  "room_inv r \<Longrightarrow> p = PhaseWaiting \<or> p = PhaseEnded \<Longrightarrow> room_inv (upd_state (\<lambda>s. s\<lparr>Phase := p\<rparr>) r)"
  using world_ok_idle [of "state r" p] by (simp add: room_inv_def core_ok_def upd_state_def)

lemma to_waiting_keeps: "room_inv r \<Longrightarrow> keeps r (upd_state (\<lambda>s. s\<lparr>Phase := PhaseWaiting\<rparr>) r)"
  using idle_inv [of r PhaseWaiting]
  by (cases "Phase (state r)") (auto simp: keeps_def phase_step_def upd_state_def room_inv_def core_ok_def world_ok_def)


section \<open>Snapshots and messages that always succeed\<close>

lemma snapshot_ok:
  assumes "core_ok r"
  shows "snapshot_fits (snapshot_players now (state r)) []"
proof -
  have p: "players_ok (Players (state r)) (usedNames r)" "int (length (Players (state r))) \<le> 95"
    using assms by (auto simp: core_ok_def)
  have "length (snapshot_players now (state r)) \<le> length (Players (state r))"
    unfolding snapshot_players_def length_map by (rule order_trans [OF length_filter_le]) simp
  then have "length (snapshot_players now (state r)) \<le> 255" using p(2) by simp
  moreover have "length (p_Nickname q) \<le> 255" if "q \<in> snd ` set (Players (state r))" for q
    using that p(1) by (fastforce simp: players_ok_def in_set_map_of player_ok_def good_nick_def)
  then have "\<forall>q \<in> set (snapshot_players now (state r)). length (wp_Nickname q) \<le> 255"
    by (auto simp: snapshot_players_def wire_player_of_def Let_def image_iff)
  ultimately show ?thesis by (simp add: snapshot_fits_def)
qed

lemma buildSnapshot_returns: "core_ok r \<Longrightarrow> returns (buildSnapshot r) (\<lambda>(snap, r'). r' = tick_env r)"
  using snapshot_ok [of r "fst (Now r)"] by (simp add: buildSnapshot_def Now_def encode_state_def EncodeSnapshot_eq)

lemma broadcastSnapshot_returns: "room_inv r \<Longrightarrow> returns (broadcastSnapshot r) (aux r)"
  unfolding broadcastSnapshot_def
  by (rule returns_bind [OF buildSnapshot_returns]) (auto simp: inv_core intro: aux_trans [OF aux_simple(1) aux_broadcast])

lemma phase_messages:
  "EncodeGameStateChange PhaseWaiting [] = Some [MsgGameStateChange, PhaseToCode PhaseWaiting]"
  "EncodeGameStateChange PhasePlaying [] = Some [MsgGameStateChange, PhaseToCode PhasePlaying]"
  "EncodeGameStateChange PhaseCountdown [ms] = Some (MsgGameStateChange # PhaseToCode PhaseCountdown # put_u32 ms)"
  by (simp_all add: EncodeGameStateChange_def)

text \<open>An operation that leaves the core alone can be run first.\<close>

lemma aux_then:
  "returns m (aux r) \<Longrightarrow> room_inv r \<Longrightarrow> (\<And>r'. aux r r' \<Longrightarrow> room_inv r' \<Longrightarrow> returns (f r') Q) \<Longrightarrow> returns (m \<bind> f) Q"
  by (erule returns_bind) (blast intro: aux_inv)

lemma broadcastCountdownPhase_returns: "room_inv r \<Longrightarrow> returns (broadcastCountdownPhase r) (aux r)"
proof -
  assume r: "room_inv r"
  let ?m = "MsgGameStateChange # PhaseToCode PhaseCountdown # put_u32 countdownDurationMsU32"
  have "returns (broadcastSnapshot (broadcastCritical ?m r)) (aux r)"
    using broadcastSnapshot_returns [OF aux_inv [OF aux_broadcastCritical r]] aux_trans [OF aux_broadcastCritical]
    by (rule returns_mono)
  then show ?thesis by (simp add: broadcastCountdownPhase_def phase_messages)
qed

lemma broadcastGameEnded_returns: "room_inv r \<Longrightarrow> returns (broadcastGameEnded reason r) (aux r)"
  unfolding broadcastGameEnded_def Let_def
  by (rule aux_then [OF broadcastSnapshot_returns])
    (auto intro: returns_mono [OF requestPersist_returns] aux_trans aux_broadcastCritical
      dest: aux_infra [OF aux_broadcastCritical] inv_infra)

lemma sendToPlayer_quiet: "room_inv r \<Longrightarrow> returns (sendToPlayer pid d r) (quiet r)"
  by (rule returns_mono [OF sendToPlayer_returns]) (auto intro: aux_quiet inv_infra)

lemma requestPersist_quiet: "room_inv r \<Longrightarrow> returns (requestPersist r) (quiet r)"
  by (rule returns_mono [OF requestPersist_returns]) (auto intro: aux_quiet inv_infra)

section \<open>Restarting\<close>

lemma cleanup_loop_frame:
  "cleanup_loop active ps r = (qs, r') \<Longrightarrow> state r' = state r \<and> connections r' = connections r \<and> outbound r' = outbound r
    \<and> persist r' = persist r \<and> maxPlayers r' = maxPlayers r \<and> room_rng r' = room_rng r \<and> room_crand r' = room_crand r
    \<and> closed r' = closed r"
proof (induction active ps r arbitrary: qs r' rule: cleanup_loop.induct)
  case (2 active pid p ps r)
  show ?case
  proof (cases "\<not> active pid \<or> p_Disconnected p")
    case True
    then show ?thesis using 2 by simp
  next
    case False
    obtain q s where "cleanup_loop active ps (tick_env r) = (q, s)" by fastforce
    then show ?thesis using False 2(2) [OF False refl] 2(3) by (auto simp: Now_def) (auto simp: tick_env_def)
  qed
qed simp

lemma cleanup_loop_players:
  "cleanup_loop active ps r = (qs, r') \<Longrightarrow> players_ok ps U \<Longrightarrow> usedNames r = U \<union> E \<Longrightarrow> U \<inter> E = {} \<Longrightarrow>
    \<exists>V. V \<subseteq> U \<and> players_ok qs V \<and> usedNames r' = V \<union> E \<and> length qs \<le> length ps \<and> dom (map_of qs) \<subseteq> dom (map_of ps)"
proof (induction active ps r arbitrary: qs r' U E rule: cleanup_loop.induct)
  case (1 active r)
  then show ?case by (intro exI [of _ U]) simp
next
  case (2 active pid p ps r)
  let ?n = "p_Nickname p"
  have p: "map_of ps pid = None" "player_ok pid p" "?n \<in> U" "players_ok ps (U - {?n})"
    using 2(4) by (simp_all add: players_ok_Cons)
  show ?case
  proof (cases "\<not> active pid \<or> p_Disconnected p")
    case True
    have "usedNames (r\<lparr>usedNames := usedNames r - {?n}\<rparr>) = (U - {?n}) \<union> E" "(U - {?n}) \<inter> E = {}"
      using 2(5,6) p(3) by auto
    from 2(1) [OF True _ p(4) this] obtain V where "V \<subseteq> U - {?n}" "players_ok qs V" "usedNames r' = V \<union> E"
      "length qs \<le> length ps" "dom (map_of qs) \<subseteq> dom (map_of ps)"
      using 2(3) True by auto
    then show ?thesis by (intro exI [of _ V]) auto
  next
    case False
    obtain ts s where t: "cleanup_loop active ps (tick_env r) = (ts, s)" by fastforce
    define p' where "p' = p\<lparr>p_ScoreContribution := 0, p_TapsCount := 0, p_CooldownEndTime := fst (Now r),
      p_MessageCount := 0, p_MessageWindowStart := 0, p_LastNicknameChange := 0\<rparr>"
    have qs: "qs = (pid, p') # ts" "r' = s" using False t 2(3) by (auto simp: Now_def p'_def)
    have "usedNames (tick_env r) = (U - {?n}) \<union> insert ?n E" "(U - {?n}) \<inter> insert ?n E = {}"
      using 2(5,6) p(3) by auto
    from 2(2) [OF False refl Now_def [symmetric] refl t p(4) this] obtain V where V: "V \<subseteq> U - {?n}" "players_ok ts V" "usedNames s = V \<union> insert ?n E"
      "length ts \<le> length ps" "dom (map_of ts) \<subseteq> dom (map_of ps)" by blast
    have p': "player_ok pid p'" "p_Nickname p' = ?n" using p(2) by (simp_all add: p'_def player_ok_def MaxScore_def)
    have "map_of ts pid = None" using V(5) p(1) by (metis domIff subsetD)
    moreover have "insert ?n V - {?n} = V" using V(1) by auto
    ultimately have "players_ok qs (insert ?n V)" using V(2) p' by (simp add: qs players_ok_Cons)
    moreover have "dom (map_of qs) \<subseteq> dom (map_of ((pid, p) # ps))" unfolding qs using V(5) by auto
    moreover have "insert ?n V \<subseteq> U" "usedNames r' = insert ?n V \<union> E" "length qs \<le> length ((pid, p) # ps)"
      using V(1,3,4) qs p(3) by auto
    ultimately show ?thesis by blast
  qed
qed

lemma cleanup_loop_none: "(\<And>pid. \<not> active pid) \<Longrightarrow> fst (cleanup_loop active ps r) = []"
  by (induction active ps r rule: cleanup_loop.induct) auto


lemma stopTick_frame [simp]:
  "state (stopTick r) = state r" "usedNames (stopTick r) = usedNames r" "connections (stopTick r) = connections r"
  by (simp_all add: stopTick_def)

lemma aux_stopTick: "aux r (stopTick r)" and aux_schedule: "aux r (scheduleCountdownFromNow r)"
  by (rule aux_timers)+

text \<open>What the two branches of a restart do once the players are sorted out.\<close>

lemma restart_announce:
  "room_inv r \<Longrightarrow> returns (do { r \<leftarrow> broadcastSnapshot (broadcast m x (stopTick r)); r \<leftarrow> requestPersist r; Some (e, r) })
     (\<lambda>(e', r'). e' = e \<and> aux r r')"
proof -
  assume r: "room_inv r"
  have 1: "aux r (broadcast m x (stopTick r))" by (rule aux_trans [OF aux_stopTick aux_broadcast])
  show ?thesis
    by (rule aux_then [OF broadcastSnapshot_returns [OF aux_inv [OF 1 r]] aux_inv [OF 1 r]],
        rule returns_bind [OF requestPersist_returns])
      (auto simp: inv_infra intro!: aux_trans [OF 1] intro: aux_trans)
qed

lemma restart_countdown:
  "room_inv r \<Longrightarrow> returns (do { r \<leftarrow> requestPersist (scheduleCountdownFromNow r); r \<leftarrow> broadcastCountdownPhase r; Some (e, r) })
     (\<lambda>(e', r'). e' = e \<and> aux r r')"
proof -
  assume r: "room_inv r"
  have 1: "aux r (scheduleCountdownFromNow r)" by (rule aux_schedule)
  show ?thesis
    by (rule aux_then [OF requestPersist_returns [OF inv_infra [OF aux_inv [OF 1 r]]] aux_inv [OF 1 r]],
        rule returns_bind [OF broadcastCountdownPhase_returns])
      (auto intro!: aux_trans [OF 1] intro: aux_trans)
qed

lemma restart_core:
  assumes r: "room_inv r" and ph: "Phase (state r) = PhaseEnded"
    and cl: "cleanup_loop active (Players (state r)) r = (qs, r1)"
  shows "players_ok qs (usedNames r1)" "int (length qs) \<le> maxPlayers r1" "1 \<le> maxPlayers r1" "maxPlayers r1 \<le> 95"
    "rng_ok (room_rng r1)" "crand_ok (room_crand r1)" "infra_ok r1"
proof -
  note f = cleanup_loop_frame [OF cl]
  have ok: "players_ok (Players (state r)) (usedNames r)" "int (length (Players (state r))) \<le> maxPlayers r"
    using r by (simp_all add: room_inv_def core_ok_def)
  from cleanup_loop_players [OF cl ok(1), of "{}"]
  show "players_ok qs (usedNames r1)" "int (length qs) \<le> maxPlayers r1" using ok(2) f by auto
  show "1 \<le> maxPlayers r1" "maxPlayers r1 \<le> 95" "rng_ok (room_rng r1)" "crand_ok (room_crand r1)" "infra_ok r1"
    using r f by (simp_all add: room_inv_def core_ok_def infra_ok_def)
qed

lemma restart_to_countdown:
  assumes r: "room_inv r" and ph: "Phase (state r) = PhaseEnded" and conns: "connections r \<noteq> []"
    and cl: "cleanup_loop (\<lambda>pid. pid \<in> set (keys (connections r))) (Players (state r)) r = (qs, r1)"
  obtains r3 where "room_inv r3" "keeps r r3" "Players (state r3) = qs" "Phase (state r3) = PhaseCountdown"
    "TickCount (state r3) = 0" "Balloon (state r3) = createInitialBalloon" "RestartVotes (state r3) = []"
    "RestartAndStart r = do { r \<leftarrow> requestPersist (scheduleCountdownFromNow r3); r \<leftarrow> broadcastCountdownPhase r; Some (None, r) }"
proof -
  note core = restart_core [OF r ph cl] and frame = cleanup_loop_frame [OF cl]
  obtain s r2 where b: "buildRestartState (LobbyCode (state r1)) qs (NextPlayerIndex (state r)) (RNGSeed (state r1)) r1 = (s, r2)"
    by fastforce
  define r3 where "r3 = (tick_env (r2\<lparr>state := s\<lparr>CreatedAt := CreatedAt (state r1)\<rparr>\<rparr>))
    \<lparr>countdownStart := fst (Now (r2\<lparr>state := s\<lparr>CreatedAt := CreatedAt (state r1)\<rparr>\<rparr>))\<rparr>"
  have s: "Players s = qs" "Phase s = PhaseCountdown" "TickCount s = 0" "Balloon s = createInitialBalloon" "RestartVotes s = []"
    using b by (auto simp: buildRestartState_def Let_def split_def Now_def NewUUID_def NewGameState_def initWind_def)
  moreover have "world_ok s" "rng_ok (room_rng r2)" "usedNames r2 = usedNames r1"
    "maxPlayers r2 = maxPlayers r1" "room_crand r2 = room_crand r1" "closed r2 = closed r1" "infra_ok r2"
    using b NewGameState_world [OF core(5), of PhaseCountdown] NewGameState_ok(2) [OF core(5)] core(7)
    by (auto simp: buildRestartState_def Let_def split_def Now_def NewUUID_def)
  ultimately have "room_inv r3" "keeps r r3"
    using core frame ph by (auto simp: r3_def keeps_def room_inv_def core_ok_def phase_step_def)
  moreover have "RestartAndStart r = do { r \<leftarrow> requestPersist (scheduleCountdownFromNow r3); r \<leftarrow> broadcastCountdownPhase r; Some (None, r) }"
    using ph cl conns frame b by (simp add: RestartAndStart_def Let_def split_def Now_def r3_def)
  ultimately show ?thesis using s by (intro that) (simp_all add: r3_def)
qed

lemma RestartAndStart_keeps:
  assumes r: "room_inv r"
  shows "returns (RestartAndStart r) (\<lambda>(e, r'). keeps r r')"
proof (cases "Phase (state r) = PhaseEnded")
  case False
  then show ?thesis using r by (simp add: RestartAndStart_def quiet_keeps quiet_refl)
next
  case ph: True
  define active where "active = (\<lambda>pid. pid \<in> set (keys (connections r)))"
  obtain qs r1 where cl: "cleanup_loop active (Players (state r)) r = (qs, r1)" by fastforce
  note core = restart_core [OF r ph cl] and frame = cleanup_loop_frame [OF cl]
  show ?thesis
  proof (cases "connections r1 = []")
    case True
    let ?g = "NewGameState (fst (Now r1)) (LobbyCode (state r)) (RNGSeed (state r)) (room_rng r1)"
    define r2 where "r2 = (tick_env r1)\<lparr>room_rng := snd ?g, state := (fst ?g)\<lparr>CreatedAt := CreatedAt (state r), Phase := PhaseWaiting\<rparr>\<rparr>"
    have "qs = []" using cleanup_loop_none [of active "Players (state r)" r] cl frame True by (simp add: active_def)
    then have "usedNames r1 = {}" using players_card [OF core(1)] by auto
    then have inv: "room_inv r2" and ph2: "keeps r r2"
      using core frame ph NewGameState_world [OF core(5), of PhaseWaiting] NewGameState_ok(2) [OF core(5)] NewGameState_frame
      by (auto simp: r2_def keeps_def room_inv_def core_ok_def phase_step_def)
    have "RestartAndStart r = do { r \<leftarrow> broadcastSnapshot (broadcast [MsgGameStateChange, PhaseToCode PhaseWaiting] [] (stopTick r2));
        r \<leftarrow> requestPersist r; Some (None, r) }"
      using ph cl True frame by (simp add: RestartAndStart_def active_def Let_def split_def Now_def phase_messages r2_def)
    then show ?thesis
      by (simp only:) (rule returns_mono [OF restart_announce [OF inv]], auto intro: keeps_quiet_trans [OF ph2 aux_quiet [OF _ inv]])
  next
    case False
    then have "connections r \<noteq> []" using frame by simp
    from restart_to_countdown [OF r ph this cl [unfolded active_def]] obtain r3 where r3: "room_inv r3" "keeps r r3"
      "RestartAndStart r = do { r \<leftarrow> requestPersist (scheduleCountdownFromNow r3); r \<leftarrow> broadcastCountdownPhase r; Some (None, r) }"
      by blast
    show ?thesis unfolding r3(3)
      by (rule returns_mono [OF restart_countdown [OF r3(1)]]) (auto intro: keeps_quiet_trans [OF r3(2) aux_quiet [OF _ r3(1)]])
  qed
qed

lemma aux_restartCountdownMs: "restartCountdownMs r = (ms, r') \<Longrightarrow> aux r r'"
  using aux_simple(1) by (auto simp: restartCountdownMs_def Now_def Let_def split: option.splits)

lemma CheckRestartConsensus_keeps:
  assumes r: "room_inv r"
  shows "returns (CheckRestartConsensus r) (\<lambda>(e, r'). keeps r r')"
proof -
  obtain y n where c: "countRestartYesVotes (Players (state r)) (RestartVotes (state r)) = (y, n)" by fastforce
  obtain ms r1 where m: "restartCountdownMs r = (ms, r1)" by fastforce
  define r2 where "r2 = broadcast (EncodeRestartStatus (of_nat y) (of_nat n) ms) [] r1"
  have q: "quiet r r2" using aux_quiet [OF aux_trans [OF aux_restartCountdownMs [OF m] aux_broadcast] r] by (simp add: r2_def)
  note inv = quiet_inv [OF q]
  define r3 where "r3 = upd_state (\<lambda>s. s\<lparr>RestartTimerStart := Some (fst (Now r2))\<rparr>) (tick_env r2)"
  have "quiet r2 (tick_env r2)" by (rule aux_quiet [OF aux_simple(1) inv])
  also have "quiet (tick_env r2) r3" unfolding r3_def
    using inv by (intro upd_state_quiet) (simp_all add: room_inv_def core_ok_def)
  finally have "quiet r2 r3" .
  also have "quiet r3 (alarm_in RestartTimeoutMs r3)"
    using aux_quiet [OF aux_alarm_in] quiet_inv [OF \<open>quiet r2 r3\<close>] by blast
  finally have a: "quiet r (alarm_in RestartTimeoutMs r3)" using quiet_trans [OF q] by blast
  have n: "Now r2 = (fst (Now r2), tick_env r2)" by (simp add: Now_def)
  have "returns (RestartAndStart r2) (\<lambda>(e, r'). keeps r r')"
    by (rule returns_mono [OF RestartAndStart_keeps [OF inv]]) (auto intro: quiet_keeps_trans [OF q])
  then show ?thesis
    using quiet_keeps [OF a] quiet_keeps [OF q] n
    unfolding CheckRestartConsensus_def c m Let_def prod.case r2_def [symmetric]
    by (subst n, unfold prod.case r3_def [symmetric]) simp
qed

lemma HandleRestartVote_keeps: "room_inv r \<Longrightarrow> returns (HandleRestartVote p r) (\<lambda>(e, r'). keeps r r')"
proof -
  assume r: "room_inv r"
  let ?r = "upd_state (\<lambda>s. s\<lparr>RestartVotes := AList.update (p_ID p) True (RestartVotes s)\<rparr>) r"
  have q: "quiet r ?r" by (rule upd_votes_quiet [OF r])
  have "returns (CheckRestartConsensus ?r) (\<lambda>(e, r'). keeps r r')"
    using returns_mono [OF CheckRestartConsensus_keeps [OF quiet_inv [OF q]]] quiet_keeps_trans [OF q] by (auto split: prod.splits)
  then show ?thesis using CheckRestartConsensus_keeps [OF r] r
    by (simp add: HandleRestartVote_def quiet_keeps quiet_refl)
qed

lemma handleAutoRestart_keeps:
  assumes r: "room_inv r"
  shows "returns (handleAutoRestart r) (keeps r)"
proof -
  define r1 where "r1 = upd_state (\<lambda>s. s\<lparr>RestartVotes := filter (\<lambda>(pid, v). \<not> (case map_of (Players (state r)) pid of
      None \<Rightarrow> True | Some p \<Rightarrow> p_Disconnected p)) (RestartVotes s)\<rparr>) r"
  have q: "quiet r r1" unfolding r1_def by (rule upd_votes_quiet [OF r])
  note inv = quiet_inv [OF q]
  have 1: "keeps r (upd_state (\<lambda>s. s\<lparr>Phase := PhaseWaiting\<rparr>) r1)" "keeps r (alarm_in RestartTimeoutMs r1)"
    using quiet_keeps_trans [OF q to_waiting_keeps [OF inv]] quiet_keeps [OF quiet_trans [OF q aux_quiet [OF aux_alarm_in inv]]] by auto
  have 2: "returns (do { (err, r) \<leftarrow> RestartAndStart r1; Some r }) (keeps r)"
    by (rule returns_bind [OF RestartAndStart_keeps [OF inv]]) (auto intro: quiet_keeps_trans [OF q])
  obtain y n where "countRestartYesVotes (Players (state r1)) (RestartVotes (state r1)) = (y, n)" by fastforce
  then show ?thesis using 1 2 unfolding handleAutoRestart_def Let_def r1_def [symmetric] by simp
qed

lemma triggerAutoRestartIfEnded_keeps: "room_inv r \<Longrightarrow> returns (triggerAutoRestartIfEnded r) (keeps r)"
  by (simp add: triggerAutoRestartIfEnded_def handleAutoRestart_keeps quiet_keeps quiet_refl)

section \<open>Start and end of a round\<close>

lemma StartGame_keeps:
  assumes r: "room_inv r"
  shows "returns (StartGame r) (keeps r)"
proof (cases "Phase (state r) = PhaseWaiting")
  case False
  then show ?thesis using r by (simp add: StartGame_def quiet_keeps quiet_refl)
next
  case True
  obtain t g1 where t: "RandomSpawnTimer (room_rng r) = (t, g1)" by fastforce
  have ok: "15 \<le> t" "t \<le> 30" "rng_ok g1"
    using RandomSpawnTimer_ok [of "room_rng r"] r t by (simp_all add: room_inv_def core_ok_def)
  define s1 where "s1 = (state r)\<lparr>Phase := PhaseCountdown, RestartVotes := [], RestartTimerStart := None,
    StartedAt := fst (Now (tick_env r)), SessionID := fst (NewUUID (tick_env (tick_env r)))\<rparr>"
  obtain s2 g2 where s2: "ResetGameEntities t s1 g1 = (s2, g2)" by fastforce
  have s2_ok: "world_ok s2" "Players s2 = Players (state r)" "Phase s2 = PhaseCountdown" "rng_ok g2"
    using ResetGameEntities_world [OF ok(3), of t s1] ResetGameEntities_frame [of t s1 g1] ok s2
      ResetGameEntities_ok(2) [OF ok(3), of t s1] by (simp_all add: s1_def)
  define r1 where "r1 = r\<lparr>countdownStart := fst (Now r), env := env (tick_env (tick_env (tick_env r))), state := s2, room_rng := g2\<rparr>"
  have inv: "room_inv r1" and k: "keeps r r1"
    using r s2_ok True by (auto simp: r1_def room_inv_def core_ok_def keeps_def phase_step_def infra_ok_def)
  have "StartGame r = do { r \<leftarrow> broadcastCountdownPhase (scheduleCountdownFromNow r1); requestPersist r }"
    using True t s2 by (simp add: StartGame_def Let_def split_def Now_def NewUUID_def upd_state_def r1_def s1_def tick_env_def)
  moreover have "returns (do { r \<leftarrow> broadcastCountdownPhase (scheduleCountdownFromNow r1); requestPersist r }) (keeps r)"
    by (rule aux_then [OF broadcastCountdownPhase_returns aux_inv [OF aux_schedule inv]])
      (auto intro!: aux_inv [OF aux_schedule inv] returns_mono [OF requestPersist_quiet]
        intro: keeps_quiet_trans [OF k] quiet_trans aux_quiet [OF aux_schedule inv] aux_quiet [OF _ aux_inv [OF aux_schedule inv]])
  ultimately show ?thesis by simp
qed

end
