(* ===== verification/Room_Safety.thy ===== *)
theory Room_Safety
  imports Room_Invariant
begin

text \<open>
  Every handler of an open room returns and keeps its invariant: the start and the end of a round, joining and
  leaving, client messages and the tick.
\<close>

section \<open>Timers\<close>

lemma startDelayFired_keeps: "room_inv r \<Longrightarrow> returns (startDelayFired r) (keeps r)"
proof -
  assume r: "room_inv r"
  have q: "quiet r (r\<lparr>startDelayTimer := None\<rparr>)" by (rule aux_quiet [OF aux_simple(6) r])
  have "returns (StartGame (r\<lparr>startDelayTimer := None\<rparr>)) (keeps r)"
    by (rule returns_mono [OF StartGame_keeps [OF quiet_inv [OF q]]]) (rule quiet_keeps_trans [OF q])
  then show ?thesis using q r by (simp add: startDelayFired_def Let_def quiet_keeps quiet_refl)
qed

lemma countdownEndLocked_keeps:
  assumes r: "room_inv r"
  shows "returns (countdownEndLocked r) (\<lambda>(go, r'). keeps r r')"
proof (cases "Phase (state r) = PhaseCountdown")
  case False
  then show ?thesis using r by (simp add: countdownEndLocked_def quiet_keeps quiet_refl)
next
  case True
  define r1 where "r1 = upd_state (\<lambda>s. s\<lparr>Phase := PhasePlaying, TickCount := TickCount s + 1\<rparr>) r"
  let ?s = "\<lambda>r. if hasStore r \<and> SessionID (state r) \<noteq> []
       then createGameSessionAsync (SessionID (state r)) (LobbyCode (state r)) (StartedAt (state r)) r else r"
  have inv: "room_inv r1" and k: "keeps r r1"
    using r True by (auto simp: r1_def upd_state_def room_inv_def core_ok_def keeps_def phase_step_def world_ok_def phys_ok_def wind_ok_def)
  let ?m = "[MsgGameStateChange, PhaseToCode PhasePlaying]"
  note i2 = aux_inv [OF aux_broadcastCritical [where d = ?m] inv]
  have "returns (do { r \<leftarrow> broadcastSnapshot (broadcastCritical ?m r1); r \<leftarrow> requestPersist (?s r); Some (True, r) })
      (\<lambda>(go, r'). keeps r r')"
  proof (rule aux_then [OF broadcastSnapshot_returns [OF i2] i2])
    fix r2
    assume a: "aux (broadcastCritical ?m r1) r2"
    have "aux r1 (?s r2)" using aux_trans [OF aux_broadcastCritical a] aux_trans [OF _ aux_timers(9)] by auto
    from aux_quiet [OF this inv] have q: "quiet r1 (?s r2)" .
    show "returns (do { r \<leftarrow> requestPersist (?s r2); Some (True, r) }) (\<lambda>(go, r'). keeps r r')"
      by (rule returns_bind [OF requestPersist_quiet [OF quiet_inv [OF q]]])
        (auto intro: keeps_quiet_trans [OF keeps_quiet_trans [OF k q]])
  qed
  then show ?thesis using True by (simp add: countdownEndLocked_def phase_messages Let_def flip: r1_def)
qed

lemma handleCountdownEnd_keeps: "room_inv r \<Longrightarrow> returns (handleCountdownEnd r) (keeps r)"
  unfolding handleCountdownEnd_def
  by (rule returns_bind [OF countdownEndLocked_keeps])
    (auto, metis keeps_quiet_trans aux_quiet aux_timers(5) keeps_inv)

lemma EndGameWithReason_keeps:
  assumes r: "room_inv (upd_state (\<lambda>s. s\<lparr>Phase := PhaseEnded\<rparr>) r)"
    and ph: "Phase (state r) = PhasePlaying \<or> Phase (state r) = PhaseEnded"
  shows "returns (EndGameWithReason reason r) (keeps r)"
proof -
  define r1 where "r1 = stopTick (upd_state (\<lambda>s. s\<lparr>Phase := PhaseEnded\<rparr>) r)"
  have i1: "room_inv r1" and k1: "Phase (state r1) = PhaseEnded" "closed r1 = closed r" "maxPlayers r1 = maxPlayers r"
    using aux_inv [OF aux_stopTick r] by (auto simp: r1_def stopTick_def upd_state_def)
  define r2 where "r2 = (if b_Y (Balloon (state r1)) < 0
    then upd_state (\<lambda>s. s\<lparr>Balloon := (Balloon (state r1))\<lparr>b_Y := 0\<rparr>\<rparr>) r1 else r1)"
  have "world_ok ((state r1)\<lparr>Balloon := (Balloon (state r1))\<lparr>b_Y := 0\<rparr>\<rparr>)"
    using i1 k1(1) fin_0_btw by (auto simp: room_inv_def core_ok_def world_ok_def phys_ok_def wind_ok_def balloon_ok_def btw_def)
  then have q2: "quiet r1 r2" using i1 by (simp add: r2_def quiet_refl upd_state_quiet)
  have end_ok: "keeps r (if connections r' \<noteq> [] then alarm_in AutoRestartMs r'
      else upd_state (\<lambda>s. s\<lparr>Phase := PhaseWaiting\<rparr>) r')" if "quiet r1 r'" for r'
  proof -
    have i: "room_inv r'" using that by (rule quiet_inv)
    have "quiet r1 (alarm_in AutoRestartMs r')" by (rule quiet_trans [OF that aux_quiet [OF aux_alarm_in i]])
    moreover have "room_inv (upd_state (\<lambda>s. s\<lparr>Phase := PhaseWaiting\<rparr>) r')" using idle_inv [OF i] by simp
    ultimately show ?thesis using that ph k1 by (auto simp: keeps_def quiet_def phase_step_def upd_state_def)
  qed
  have "returns (do { r \<leftarrow> broadcastGameEnded reason r2; let r = recordGameResultAsync r;
      Some (if connections r \<noteq> [] then alarm_in AutoRestartMs r else upd_state (\<lambda>s. s\<lparr>Phase := PhaseWaiting\<rparr>) r) }) (keeps r)"
    unfolding Let_def
    by (rule aux_then [OF broadcastGameEnded_returns [OF quiet_inv [OF q2]] quiet_inv [OF q2]])
      (auto simp only: returns_Some intro!: end_ok quiet_trans [OF q2] aux_quiet [OF _ quiet_inv [OF q2]] aux_trans [OF _ aux_timers(8)])
  then show ?thesis unfolding EndGameWithReason_def Let_def r1_def [symmetric] r2_def [symmetric] .
qed

lemma alarm_act_keeps: "room_inv r \<Longrightarrow> returns (alarm_act a r) (keeps r)"
  by (cases a) (simp_all add: quiet_keeps quiet_refl handleCountdownEnd_keeps handleAutoRestart_keeps aux_quiet aux_timers)

lemma alarm_section_keeps: "room_inv r \<Longrightarrow> returns (alarm_section a r) (\<lambda>(left, r'). keeps r r')"
proof (cases a)
  case AlarmCountdownEnd
  assume "room_inv r"
  then show ?thesis using AlarmCountdownEnd by (auto intro!: returns_bind [OF countdownEndLocked_keeps])
next
  case AlarmAutoRestart
  assume "room_inv r"
  then show ?thesis using AlarmAutoRestart by (auto intro!: returns_bind [OF handleAutoRestart_keeps])
qed (simp_all add: quiet_keeps quiet_refl aux_quiet aux_timers aux_simple restartTickBegin_def)

text \<open>An action is the sequence of its sections when nothing comes between them.\<close>

fun alarm_sections :: "nat \<Rightarrow> alarm_action \<Rightarrow> room \<Rightarrow> room option" where
  "alarm_sections 0 a r = None"
| "alarm_sections (Suc n) a r = do {
     (left, r) \<leftarrow> alarm_section a r;
     case left of [] \<Rightarrow> Some r | b # _ \<Rightarrow> alarm_sections n b r
   }"

lemma alarm_act_sections: "alarm_act a r = alarm_sections 3 a r"
  by (cases a) (auto simp: handleCountdownEnd_def restartTick_def restartTickBegin_def startTick_def eval_nat_numeral split: Option.bind_split)

section \<open>Joining and leaving\<close>

lemma closeExisting_aux: "aux r (closeExistingConnection pid p r)"
  by (auto simp: closeExistingConnection_def aux_removeConnectionLocked split: option.split)

lemma random_name:
  assumes "core_ok r" "GenerateUniqueNickname [] (usedNames r) (room_crand r) = (nick, c)"
  shows "SanitizePlayerName nick = nick" "good_nick nick" "nick \<notin> usedNames r" "crand_ok c"
proof -
  have c: "crand_ok (room_crand r)" "finite (usedNames r)" "card (usedNames r) < 96"
    using assms(1) players_card [of "Players (state r)" "usedNames r"] by (auto simp: core_ok_def)
  have n: "nick = fst (GenerateRandom (usedNames r) (room_crand r))" "c = snd (GenerateRandom (usedNames r) (room_crand r))"
    using assms(2) by (simp_all add: GenerateUniqueNickname_def GenerateRandomNickname_def)
  have s: "short_name 12 nick" using short_name_mono [OF GenerateRandom_short(1) [OF c(1)]] n by simp
  then show "SanitizePlayerName nick = nick" "good_nick nick"
    using Sanitize_short_name [OF s] short_name_laws [OF s] by (simp_all add: SanitizePlayerName_def good_nick_def)
  show "nick \<notin> usedNames r" "crand_ok c"
    using GenerateRandom_fresh [OF c] GenerateRandom_short(2) [OF c(1)] n by simp_all
qed

lemma addNewPlayer_ok:
  assumes r: "room_inv r" and new: "map_of (Players (state r)) pid = None"
  shows "quiet r (snd (addNewPlayer pid conn r))"
    "fst (addNewPlayer pid conn r) = Inr p \<Longrightarrow> good_nick (p_Nickname p)"
proof -
  obtain nick c where n: "GenerateUniqueNickname [] (usedNames r) (room_crand r) = (nick, c)" by fastforce
  note name = random_name [OF inv_core [OF r] n]
  have full: "quiet r (close_conn conn (del_conn pid r))"
    by (rule aux_quiet [OF aux_trans [OF aux_simple(3,2)] r])
  show "fst (addNewPlayer pid conn r) = Inr p \<Longrightarrow> good_nick (p_Nickname p)"
    using name by (auto simp: addNewPlayer_def Now_def n Let_def split: if_splits)
  show "quiet r (snd (addNewPlayer pid conn r))"
  proof (cases "maxPlayers r \<le> int (length (Players (state r)))")
    case True
    then show ?thesis using full by (simp add: addNewPlayer_def)
  next
    case False
    have "length (AList.update pid q (Players (state r))) = Suc (length (Players (state r)))" for q
      using new by (simp add: length_update map_of_eq_None_iff)
    moreover have "players_ok (AList.update pid q (Players (state r))) (insert nick (usedNames r))"
      if "player_ok pid q" "p_Nickname q = nick" for q
      using players_ok_add [OF _ new that(1)] that(2) name(3) r by (simp add: room_inv_def core_ok_def)
    ultimately show ?thesis using False name r
      by (simp add: addNewPlayer_def Now_def n Let_def quiet_def room_inv_def core_ok_def upd_state_def set_player_def
          player_ok_def MaxScore_def)
  qed
qed

lemma notifyJoin_quiet:
  assumes r: "room_inv r" and p: "good_nick (p_Nickname p)"
  shows "returns (notifyJoin pid p r) (quiet r)"
proof -
  obtain snap where b: "buildSnapshot r = Some (snap, tick_env r)"
    using buildSnapshot_returns [OF inv_core [OF r]] by (auto simp: returns_def)
  obtain m where m: "EncodePlayerJoin (of_int (p_PlayerIndex p)) (p_Nickname p) (of_int (p_Palette p)) = Some m"
    using p by (simp add: EncodePlayerJoin_def good_nick_def)
  have q: "quiet r (tick_env r)" by (rule aux_quiet [OF aux_simple(1) r])
  have "returns (do { r \<leftarrow> sendToPlayer pid snap (tick_env r); requestPersist (broadcast m pid r) }) (quiet r)"
  proof (rule returns_bind [OF sendToPlayer_quiet [OF quiet_inv [OF q]]])
    fix r2 assume "quiet (tick_env r) r2"
    then have "quiet r (broadcast m pid r2)" using quiet_trans [OF q] quiet_trans [OF _ aux_quiet [OF aux_broadcast quiet_inv]] by blast
    then show "returns (requestPersist (broadcast m pid r2)) (quiet r)"
      by (intro returns_mono [OF requestPersist_quiet]) (auto intro: quiet_trans quiet_inv)
  qed
  then show ?thesis by (simp add: notifyJoin_def b m)
qed


lemma normalize_keeps: "room_inv r \<Longrightarrow> keeps r (normalizePhaseForNicknameGate r)"
proof -
  assume r: "room_inv r"
  define r1 where "r1 = (if Phase (state r) = PhasePlaying then stopTick r else r)"
  have "aux r r1" by (simp add: r1_def aux_stopTick)
  also have "aux r1 (r1\<lparr>endGameTimer := None\<rparr>)" by (rule aux_simple)
  also have "aux (r1\<lparr>endGameTimer := None\<rparr>) (r1\<lparr>endGameTimer := None, startDelayTimer := None\<rparr>)" by (rule aux_simple)
  finally have q: "quiet r (r1\<lparr>endGameTimer := None, startDelayTimer := None\<rparr>)" using r by (rule aux_quiet)
  note quiet_keeps_trans [OF q to_waiting_keeps [OF quiet_inv [OF q]]]
  then show ?thesis using quiet_keeps [OF quiet_refl [OF r]]
    unfolding normalizePhaseForNicknameGate_def Let_def r1_def [symmetric] by simp
qed

lemma transition_quiet: "room_inv r \<Longrightarrow> quiet r (transitionPhaseIfNeeded r)"
  by (rule aux_quiet [OF aux_timers(10)])

lemma gate_keeps: "room_inv r \<Longrightarrow> keeps r (transitionPhaseIfNeeded (normalizePhaseForNicknameGate r))"
  by (rule keeps_quiet_trans [OF normalize_keeps transition_quiet [OF keeps_inv [OF normalize_keeps]]])

lemma resumeCountdown_quiet:
  assumes r: "room_inv r"
  shows "returns (resumeCountdownForReconnect pid r) (quiet r)"
proof -
  obtain ms r1 where m: "remainingCountdownMs r = (ms, r1)" by fastforce
  then have "aux r r1" using aux_simple(1) by (auto simp: remainingCountdownMs_def Now_def Let_def)
  then have q: "quiet r r1" using r by (rule aux_quiet)
  have "returns (do { r \<leftarrow> sendToPlayer pid x r1; Some (alarm_in ms r) }) (quiet r)" for x
    by (rule returns_bind [OF sendToPlayer_quiet [OF quiet_inv [OF q]]])
      (auto intro: quiet_trans [OF q] quiet_trans aux_quiet [OF aux_alarm_in] quiet_inv)
  then show ?thesis by (simp add: resumeCountdownForReconnect_def m phase_messages)
qed

lemma reconnectPlayer_keeps:
  assumes r: "room_inv r" and p: "map_of (Players (state r)) pid = Some p"
  shows "returns (reconnectPlayer pid p r) (keeps r)"
proof -
  define r1 where "r1 = set_player pid (p\<lparr>p_Disconnected := False, p_DisconnectedAt := None\<rparr>) r"
  have q1: "quiet r r1" using inv_player [OF r p] set_player_quiet [OF r p] by (simp add: r1_def player_ok_def)
  obtain snap where b: "buildSnapshot r1 = Some (snap, tick_env r1)"
    using buildSnapshot_returns [OF inv_core [OF quiet_inv [OF q1]]] by (auto simp: returns_def)
  have q2: "quiet r (tick_env r1)" by (rule quiet_trans [OF q1 aux_quiet [OF aux_simple(1) quiet_inv [OF q1]]])
  have tail: "returns (let r = (if \<not> p_NicknameConfirmed p then startNicknameTimer pid r' else r') in case Phase (state r) of
       PhaseWaiting \<Rightarrow> Some (tryStartWhenAllReady r)
     | PhasePlaying \<Rightarrow> Some (if \<not> tickCancel r then startTick r else r)
     | PhaseCountdown \<Rightarrow> if \<not> tickCancel r then resumeCountdownForReconnect pid r else Some r
     | PhaseEnded \<Rightarrow> triggerAutoRestartIfEnded r
     | PhaseOther s \<Rightarrow> Some r) (keeps r)" if "quiet r r'" for r'
  proof -
    define r3 where "r3 = (if \<not> p_NicknameConfirmed p then startNicknameTimer pid r' else r')"
    have q: "quiet r r3" using that quiet_trans [OF that aux_quiet [OF aux_timers(2) quiet_inv [OF that]]] by (simp add: r3_def)
    note i = quiet_inv [OF q]
    have "quiet r (tryStartWhenAllReady r3)" "quiet r (startTick r3)"
      by (auto intro!: quiet_trans [OF q] aux_quiet [OF _ i] aux_timers)
    moreover have "returns (resumeCountdownForReconnect pid r3) (keeps r)"
      by (rule returns_mono [OF resumeCountdown_quiet [OF i]]) (auto intro: quiet_keeps quiet_trans [OF q])
    moreover have "returns (triggerAutoRestartIfEnded r3) (keeps r)"
      by (rule returns_mono [OF triggerAutoRestartIfEnded_keeps [OF i]]) (auto intro: quiet_keeps_trans [OF q])
    ultimately show ?thesis using q unfolding Let_def r3_def [symmetric]
      by (auto simp: quiet_keeps split: phase.split)
  qed
  have "returns (do { r \<leftarrow> sendToPlayer pid snap (tick_env r1); r \<leftarrow> requestPersist r;
      let r = (if \<not> p_NicknameConfirmed p then startNicknameTimer pid r else r); case Phase (state r) of
       PhaseWaiting \<Rightarrow> Some (tryStartWhenAllReady r)
     | PhasePlaying \<Rightarrow> Some (if \<not> tickCancel r then startTick r else r)
     | PhaseCountdown \<Rightarrow> if \<not> tickCancel r then resumeCountdownForReconnect pid r else Some r
     | PhaseEnded \<Rightarrow> triggerAutoRestartIfEnded r
     | PhaseOther s \<Rightarrow> Some r }) (keeps r)"
    by (rule returns_bind [OF sendToPlayer_quiet [OF quiet_inv [OF q2]]],
        rule returns_bind [OF requestPersist_quiet], erule quiet_inv, rule tail)
      (blast intro: quiet_trans [OF q2] quiet_trans)
  moreover have "p_NicknameConfirmed (p\<lparr>p_Disconnected := False, p_DisconnectedAt := None\<rparr>) = p_NicknameConfirmed p" by simp
  ultimately show ?thesis unfolding reconnectPlayer_def Let_def r1_def [symmetric] b by (simp only: bind.bind_lunit prod.case)
qed

lemma HandleJoin_keeps:
  assumes r: "room_inv r"
  shows "returns (HandleJoin pid conn r) (\<lambda>(e, r'). keeps r r')"
proof -
  define pl where "pl = map_of (Players (state r)) pid"
  define r1 where "r1 = set_conn pid \<lparr>c_Conn = conn, c_Send = [], c_closed = False, c_drops = 0, c_pendingDisconnect = False\<rparr>
    (closeExistingConnection pid pl r)"
  have a1: "aux r r1" unfolding r1_def
    by (rule aux_trans [OF closeExisting_aux aux_set_conn]) (simp add: conn_ok_def WSChannelBuffer_def)
  note q1 = aux_quiet [OF a1 r] and i1 = aux_inv [OF a1 r]
  have ps: "Players (state r1) = Players (state r)" using aux_core [OF a1] by simp
  have join: "returns (do { r \<leftarrow> notifyJoin pid p r2; Some (None :: room_error option, transitionPhaseIfNeeded (normalizePhaseForNicknameGate r)) })
      (\<lambda>(e, r'). keeps r r')" if "quiet r r2" "good_nick (p_Nickname p)" for r2 p
    by (rule returns_bind [OF notifyJoin_quiet [OF quiet_inv [OF that(1)] that(2)]])
      (auto intro: quiet_keeps_trans [OF quiet_trans [OF that(1)] gate_keeps] quiet_inv)
  show ?thesis
  proof (cases pl)
    case (Some p)
    then have p: "map_of (Players (state r1)) pid = Some p" by (simp add: pl_def ps)
    have "returns (do { r \<leftarrow> reconnectPlayer pid p r1; Some (None :: room_error option, r) }) (\<lambda>(e, r'). keeps r r')"
      by (rule returns_bind [OF reconnectPlayer_keeps [OF i1 p]]) (auto intro: quiet_keeps_trans [OF q1])
    moreover have "good_nick (p_Nickname p)" using inv_player [OF i1 p] by (simp add: player_ok_def)
    ultimately show ?thesis using join [OF q1] Some
      unfolding HandleJoin_def Let_def pl_def [symmetric] r1_def [symmetric] by simp
  next
    case None
    then have new: "map_of (Players (state r1)) pid = None" by (simp add: pl_def ps)
    obtain res r2 where a: "addNewPlayer pid conn r1 = (res, r2)" by fastforce
    have q2: "quiet r r2" using quiet_trans [OF q1 addNewPlayer_ok(1) [OF i1 new]] a by (metis snd_conv)
    show ?thesis
    proof (cases res)
      case (Inl e)
      then show ?thesis using None a q2
        unfolding HandleJoin_def Let_def pl_def [symmetric] r1_def [symmetric] by (simp add: quiet_keeps)
    next
      case (Inr p)
      then have "good_nick (p_Nickname p)" using addNewPlayer_ok(2) [OF i1 new] a by (metis fst_conv)
      moreover have "quiet r (if \<not> p_NicknameConfirmed p then startNicknameTimer pid r2 else r2)"
        using q2 quiet_trans [OF q2 aux_quiet [OF aux_timers(2) quiet_inv [OF q2]]] by simp
      ultimately show ?thesis using join None a Inr
        unfolding HandleJoin_def Let_def pl_def [symmetric] r1_def [symmetric] by simp
    qed
  qed
qed


lemma mark_quiet:
  "room_inv r \<Longrightarrow> map_of (Players (state r)) pid = Some p \<Longrightarrow> quiet r (set_player pid (MarkDisconnected now p) r)"
  using inv_player [of r pid p] by (intro set_player_quiet) (auto simp: MarkDisconnected_def player_ok_def)

lemma HandleDisconnect_quiet:
  assumes r: "room_inv r"
  shows "quiet r (HandleDisconnect pid r)"
proof (cases "map_of (Players (state r)) pid")
  case (Some p)
  let ?r = "tick_env (clearNicknameTimerLocked pid (del_conn pid r))"
  have a: "aux r ?r" by (rule aux_trans [OF aux_simple(3) aux_trans [OF aux_timers(1) aux_simple(1)]])
  have "map_of (Players (state ?r)) pid = Some p" using Some aux_core [OF a] by simp
  from quiet_trans [OF aux_quiet [OF a r] mark_quiet [OF aux_inv [OF a r] this]] show ?thesis
    using Some by (simp add: HandleDisconnect_def Let_def Now_def)
qed (use r in \<open>simp add: HandleDisconnect_def quiet_refl\<close>)

lemma drop_player_quiet:
  assumes r: "room_inv r" and p: "map_of (Players (state r)) pid = Some p"
  shows "quiet r (drop_player pid (p_Nickname p) r)"
proof -
  have "players_ok (AList.delete pid (Players (state r))) (usedNames r - {p_Nickname p})"
    using players_ok_delete [OF _ p] r by (simp add: room_inv_def core_ok_def)
  moreover have "int (length (AList.delete pid (Players (state r)))) \<le> maxPlayers r"
    using length_delete_le [of pid "Players (state r)"] r by (simp add: room_inv_def core_ok_def)
  ultimately show ?thesis using r
    by (simp add: drop_player_def Let_def upd_state_def quiet_def room_inv_def core_ok_def)
qed

lemma nicknameTimeout_quiet:
  assumes r: "room_inv r"
  shows "quiet r (nicknameTimeout pid r)"
proof (cases "map_of (Players (state r)) pid")
  case None
  then show ?thesis using r aux_quiet [OF aux_timers(1) r] by (simp add: nicknameTimeout_def quiet_refl)
next
  case (Some p)
  define r1 where "r1 = clearNicknameTimerLocked pid r"
  have q1: "quiet r r1" unfolding r1_def by (rule aux_quiet [OF aux_timers(1) r])
  have "map_of (Players (state r1)) pid = Some p" using Some by (simp add: r1_def clearNicknameTimerLocked_def)
  from drop_player_quiet [OF quiet_inv [OF q1] this] have q2: "quiet r (drop_player pid (p_Nickname p) r1)"
    by (rule quiet_trans [OF q1])
  have "quiet r (tryStartWhenAllReady (broadcast m [] (removeConnectionLocked pid (drop_player pid (p_Nickname p) r1))))" for m
    by (rule quiet_trans [OF q2 aux_quiet [OF _ quiet_inv [OF q2]]],
        rule aux_trans [OF aux_removeConnectionLocked aux_trans [OF aux_broadcast aux_timers(7)]])
  then show ?thesis using Some q1 r unfolding nicknameTimeout_def Let_def r1_def [symmetric] by (simp add: quiet_refl)
qed

section \<open>Messages\<close>

lemma enforceRateLimit_quiet:
  assumes r: "room_inv r" and p: "map_of (Players (state r)) pid = Some p"
  shows "quiet r (snd (enforceRateLimit pid p r))"
    "fst (enforceRateLimit pid p r) = None \<Longrightarrow> \<exists>q. map_of (Players (state (snd (enforceRateLimit pid p r)))) pid = Some q"
proof -
  have i: "room_inv (tick_env r)" and q0: "quiet r (tick_env r)" using aux_quiet [OF aux_simple(1) r] r by auto
  have p': "map_of (Players (state (tick_env r))) pid = Some p" using p by simp
  have set: "quiet r (set_player pid q (tick_env r))" if "player_ok pid q" "p_Nickname q = p_Nickname p" for q
    by (rule quiet_trans [OF q0 set_player_quiet [OF i p' that]])
  have rem: "quiet r (removeConnectionLocked pid s)" if "quiet r s" for s
    by (rule quiet_trans [OF that aux_quiet [OF aux_removeConnectionLocked quiet_inv [OF that]]])
  show "quiet r (snd (enforceRateLimit pid p r))"
    using inv_player [OF r p] by (simp add: enforceRateLimit_def Now_def Let_def MarkDisconnected_def set rem)
  show "fst (enforceRateLimit pid p r) = None \<Longrightarrow> \<exists>q. map_of (Players (state (snd (enforceRateLimit pid p r)))) pid = Some q"
    by (auto simp: enforceRateLimit_def Now_def Let_def set_player_def split: if_splits)
qed

lemma wf64_Float32frombits: "wf64 (Float32frombits w)"
proof -
  define e where "e = uint w div 2 ^ 23 mod 256"
  define m where "m = uint w mod 2 ^ 23"
  have m: "0 \<le> m" "m < 2 ^ 23" by (simp_all add: m_def)
  have e: "0 \<le> e" "e < 256" by (simp_all add: e_def)
  have "wf64 (Fin s (of_int m * pow2 (-149)))" "wf64 (Fin s (of_int (m + 2 ^ 23) * pow2 (e - 150)))" for s
    by (rule wf64_simple [OF refl]; use m e in simp)+
  then show ?thesis unfolding Float32frombits_def Let_def e_def [symmetric] m_def [symmetric] by simp
qed

lemma finite_cases: "\<not> isNaN x \<Longrightarrow> \<not> isInf x \<Longrightarrow> finite64 x"
  by (cases x) (auto simp: isNaN_def isInf_def)

lemma tap_in_range:
  assumes "decodeTapPayload payload = Some (x, y)"
  shows "btw 0 1 x \<and> btw 0 1 y"
proof -
  have w: "wf64 x" "wf64 y" and c: "\<not> (isNaN x \<or> isNaN y \<or> isInf x \<or> isInf y \<or> x < 0 \<or> x > flit 1 \<or> y < 0 \<or> y > flit 1)"
    using assms wf64_Float32frombits by (auto simp: decodeTapPayload_def DecodeTap_def split: if_splits)
  have "fin64 x" "fin64 y" using w c finite_cases by (auto simp: fin64_def)
  moreover have "fin64 (flit 1)" "val (flit 1) = 1" "fin64 0" "val 0 = 0"
    using const_btw(17) fin_0_btw by (auto simp: btw_def)
  ultimately show ?thesis using c by (auto simp: btw_def fless_fin)
qed

lemma handleTap_quiet:
  assumes ml: "mathlib_ok ml" and r: "room_inv r" and p: "map_of (Players (state r)) pid = Some p"
  shows "returns (handleTap ml pid p payload r) (quiet r)"
proof -
  have q0: "quiet r (tick_env r)" using aux_quiet [OF aux_simple(1) r] .
  have rej: "returns (sendToPlayer pid EncodeTapRejected (tick_env r)) (quiet r)"
    by (rule returns_mono [OF sendToPlayer_quiet [OF quiet_inv [OF q0]]]) (rule quiet_trans [OF q0])
  have hit: "quiet r (broadcastTapResult p' cd r')"
    if v: "validateTapRequest p now (tick_env r)" and d: "decodeTapPayload payload = Some (x, y)"
      and a: "applyTapPhysics x y (state (tick_env r)) = Some s"
      and u: "updatePlayerStats ml pid p now ((tick_env r)\<lparr>state := s\<rparr>) = (cd, p', r')" for now x y s cd p' r'
  proof -
    obtain b hit where b: "ApplyTapForce x y (Balloon (state r)) = (b, hit)" by fastforce
    have s: "s = ApplyGhostRepel x y ((state r)\<lparr>Balloon := b\<rparr>)"
      using a b by (auto simp: applyTapPhysics_def split: if_splits)
    have w: "world_ok (state r)" using r by (simp add: room_inv_def core_ok_def)
    have "balloon_ok b" "airborne b = airborne (Balloon (state r))"
      using ApplyTapForce_ok(1,2) [of "Balloon (state r)" x y] tap_in_range [OF d] w b by (simp_all add: world_ok_def phys_ok_def)
    then have w1: "world_ok ((state r)\<lparr>Balloon := b\<rparr>)" using w by (simp add: world_ok_def phys_ok_def wind_ok_def)
    then have "ghost_ok (Ghost s)" using ApplyGhostRepel_ok s by (simp add: world_ok_def phys_ok_def)
    moreover have "s = (state r)\<lparr>Balloon := b, Ghost := Ghost s\<rparr>"
      by (simp add: s ApplyGhostRepel_def Let_def)
    ultimately obtain h where e: "s = (state r)\<lparr>Balloon := b, Ghost := h\<rparr>" and h: "ghost_ok h" by blast
    have w2: "world_ok s" using w1 h by (simp add: e world_ok_def phys_ok_def wind_ok_def)
    have "Players s = Players (state r)" "Phase s = Phase (state r)" by (simp_all add: e)
    then have q1: "quiet r ((tick_env r)\<lparr>state := s\<rparr>)" and p1: "map_of (Players s) pid = Some p"
      using r w2 p by (simp_all add: quiet_def room_inv_def core_ok_def)
    have "player_ok pid (RecordTap now cd p)" "p_Nickname (RecordTap now cd p) = p_Nickname p"
      using inv_player [OF r p] by (auto simp: RecordTap_def player_ok_def)
    from set_player_quiet [OF quiet_inv [OF q1] _ this] p1
    have q2: "quiet r (set_player pid (RecordTap now cd p) ((tick_env r)\<lparr>state := s\<rparr>))" by (intro quiet_trans [OF q1]) simp
    have "quiet r r'" using u quiet_trans [OF q2 upd_state_quiet [OF quiet_inv [OF q2]]] w2
      by (auto simp: updatePlayerStats_def Let_def set_player_def world_ok_def phys_ok_def wind_ok_def balloon_ok_def airborne_def)
    from quiet_trans [OF this aux_quiet [OF aux_broadcast quiet_inv [OF this]]] show ?thesis
      unfolding broadcastTapResult_def .
  qed
  show ?thesis using rej hit
    by (auto simp: handleTap_def Now_def Let_def split: option.split prod.split)
qed


lemma truncate_good: "valid_utf8 s \<Longrightarrow> good_nick (truncate_runes MaxNicknameLen s)"
  using truncate_runes_laws [where n = MaxNicknameLen and s = s] by (simp add: MaxNicknameLen_def good_nick_def)

lemma rebuilt_good: "good_nick (string_of_runes (runes (SanitizeNickname s)))"
proof -
  have sc: "\<forall>r \<in> set (runes (SanitizeNickname s)). scalar r" by (auto intro: runes_scalar)
  then show ?thesis
    using valid_string_of_runes [OF sc] runes_string_of_runes [OF sc] runes_Sanitize [of s]
      length_string_of_runes [of "runes (SanitizeNickname s)"] by (simp add: good_nick_def MaxNicknameLen_def)
qed

lemma unique_name:
  assumes "core_ok r" "GenerateUniqueNickname name (usedNames r) (room_crand r) = (nick, c)" "valid_utf8 name"
  shows "good_nick nick \<and> nick \<notin> usedNames r \<and> crand_ok c"
  using assms(2) random_name [OF assms(1)] truncate_good [OF assms(3)] assms(1)
  by (auto simp: GenerateUniqueNickname_def Let_def core_ok_def split: if_splits)

lemma HandleSetNickname_ok:
  assumes r: "room_inv r" and p: "map_of (Players (state r)) pid = Some p"
    and h: "HandleSetNickname now p nick (usedNames r) (room_crand r) = (ok, q, used, c)"
  shows "quiet r (set_player pid q (r\<lparr>usedNames := used, room_crand := c\<rparr>))"
proof -
  have p_ok: "player_ok pid p" using inv_player [OF r p] by simp
  have same: "quiet r (set_player pid p (r\<lparr>usedNames := usedNames r, room_crand := room_crand r\<rparr>))"
    using set_player_quiet [OF r p p_ok refl] by simp
  have new: "quiet r (set_player pid (p\<lparr>p_LastNicknameChange := now, p_Nickname := n\<rparr>)
      (r\<lparr>usedNames := insert n (usedNames r - {p_Nickname p}), room_crand := d\<rparr>))"
    if n: "good_nick n \<and> n \<notin> usedNames r \<and> crand_ok d" for n d
  proof -
    have "player_ok pid (p\<lparr>p_LastNicknameChange := now, p_Nickname := n\<rparr>)" using p_ok n by (simp add: player_ok_def)
    from players_ok_rename [OF _ p this] n r show ?thesis using p
      by (simp add: quiet_def room_inv_def core_ok_def set_player_def)
  qed
  show ?thesis
  proof (cases "p_LastNicknameChange p \<noteq> 0 \<and> now - p_LastNicknameChange p < NicknameCooldownMs")
    case True
    then show ?thesis using h same by (simp add: HandleSetNickname_def)
  next
    case False
    show ?thesis
    proof (cases "NewNickname nick SanitizeNickname")
      case (Inl e)
      then show ?thesis using h same False by (auto simp: HandleSetNickname_def)
    next
      case (Inr n)
      then have "n = string_of_runes (runes (SanitizeNickname nick))"
        using NewNickname_Sanitize [of nick] by (simp split: if_splits)
      then have len: "good_nick n" "valid_utf8 n" using rebuilt_good [of nick] by (simp_all add: good_nick_def)
      obtain m d where u: "GenerateUniqueNickname n (usedNames r) (room_crand r) = (m, d)" by fastforce
      have "crand_ok (room_crand r)" using r by (simp add: room_inv_def core_ok_def)
      then show ?thesis using h False Inr same new [OF unique_name [OF inv_core [OF r] u len(2)]] new [of n "room_crand r"] len u
        by (auto simp: HandleSetNickname_def Let_def split: if_splits)
    qed
  qed
qed

lemma nicknameAccepted_keeps:
  assumes r: "room_inv r" and p: "map_of (Players (state r)) pid = Some q" "player_ok pid p" "p_Nickname p = p_Nickname q"
  shows "returns (nicknameAccepted pid p r) (keeps r)"
proof -
  define r1 where "r1 = clearNicknameTimerLocked (p_ID p) (set_player pid (p\<lparr>p_NicknameConfirmed := True\<rparr>) r)"
  have "quiet r (set_player pid (p\<lparr>p_NicknameConfirmed := True\<rparr>) r)" using p by (intro set_player_quiet [OF r p(1)]) auto
  then have q1: "quiet r r1" unfolding r1_def
    using quiet_trans aux_quiet [OF aux_timers(1)] quiet_inv by blast
  have "returns (do { r \<leftarrow> requestPersist r1; r \<leftarrow> broadcastSnapshot r; triggerAutoRestartIfEnded (tryStartWhenAllReady r) }) (keeps r)"
  proof (rule returns_bind [OF requestPersist_quiet [OF quiet_inv [OF q1]]],
      rule aux_then [OF broadcastSnapshot_returns], erule quiet_inv, erule quiet_inv)
    fix r2 r3 assume q2: "quiet r1 r2" and a: "aux r2 r3"
    have a3: "aux r2 (tryStartWhenAllReady r3)" by (rule aux_trans [OF a aux_timers(7)])
    have q3: "quiet r (tryStartWhenAllReady r3)"
      by (rule quiet_trans [OF quiet_trans [OF q1 q2] aux_quiet [OF a3 quiet_inv [OF q2]]])
    show "returns (triggerAutoRestartIfEnded (tryStartWhenAllReady r3)) (keeps r)"
      by (rule returns_mono [OF triggerAutoRestartIfEnded_keeps [OF quiet_inv [OF q3]]]) (rule quiet_keeps_trans [OF q3])
  qed
  then show ?thesis unfolding nicknameAccepted_def Let_def r1_def [symmetric] .
qed

lemma handleSetNicknameMsg_keeps:
  assumes r: "room_inv r" and p: "map_of (Players (state r)) pid = Some p"
  shows "returns (handleSetNicknameMsg pid p payload r) (keeps r)"
proof -
  define nick where "nick = (case DecodeNicknamePayload payload of None \<Rightarrow> [] | Some n \<Rightarrow> SanitizeNickname n)"
  have rej: "returns (sendToPlayer a b s) (keeps r)" if "quiet r s" for a b s
    by (rule returns_mono [OF sendToPlayer_quiet [OF quiet_inv [OF that]]]) (blast intro: quiet_keeps quiet_trans [OF that])
  have same: "returns (nicknameAccepted pid p r) (keeps r)"
    using nicknameAccepted_keeps [OF r p] inv_player [OF r p] by simp
  obtain ok q used c where h: "HandleSetNickname (fst (Now r)) p nick (usedNames r) (room_crand r) = (ok, q, used, c)"
    by (metis prod_cases4)
  define r1 where "r1 = set_player pid q ((tick_env r)\<lparr>usedNames := used, room_crand := c\<rparr>)"
  have i: "room_inv (tick_env r)" and p': "map_of (Players (state (tick_env r))) pid = Some p" using r p by simp_all
  have h': "HandleSetNickname (fst (Now r)) p nick (usedNames (tick_env r)) (room_crand (tick_env r)) = (ok, q, used, c)"
    using h by simp
  have q1: "quiet r r1" unfolding r1_def
    using quiet_trans [OF aux_quiet [OF aux_simple(1) r] HandleSetNickname_ok [OF i p' h']] .
  have "map_of (Players (state r1)) pid = Some q" by (simp add: r1_def set_player_def)
  then have "returns (nicknameAccepted pid q r1) (keeps r1)"
    using nicknameAccepted_keeps [OF quiet_inv [OF q1]] inv_player [OF quiet_inv [OF q1]] by blast
  then have new: "returns (nicknameAccepted pid q r1) (keeps r)"
    by (rule returns_mono) (rule quiet_keeps_trans [OF q1])
  have n: "Now r = (fst (Now r), tick_env r)" by (simp add: Now_def)
  have "handleSetNicknameMsg pid p payload r =
    (if nick = [] then sendToPlayer (p_ID p) (EncodeNicknameRejected (if DecodeNicknamePayload payload = None then NickRejectDecodeError else NickRejectEmpty)) r
     else if nick = p_Nickname p then nicknameAccepted pid p r
     else if nick \<in> usedNames r then sendToPlayer (p_ID p) (EncodeNicknameRejected NickRejectDuplicate) r
     else if \<not> ok then sendToPlayer (p_ID q) (EncodeNicknameRejected NickRejectCooldown) r1 else nicknameAccepted pid q r1)"
    unfolding handleSetNicknameMsg_def Let_def nick_def [symmetric] by (subst n) (simp add: h r1_def)
  then show ?thesis using rej [OF quiet_refl [OF r]] rej [OF q1] same new by simp
qed

lemma HandleMessage_keeps:
  assumes ml: "mathlib_ok ml" and r: "room_inv r"
  shows "returns (HandleMessage ml pid t payload r) (\<lambda>(e, r'). keeps r r')"
proof (cases "map_of (Players (state r)) pid")
  case None
  then show ?thesis using r by (simp add: HandleMessage_def quiet_keeps quiet_refl)
next
  case (Some p)
  obtain e r1 where e: "enforceRateLimit pid p r = (e, r1)" by fastforce
  have q1: "quiet r r1" using enforceRateLimit_quiet(1) [OF r Some] e by (metis snd_conv)
  note i1 = quiet_inv [OF q1]
  show ?thesis
  proof (cases e)
    case (Some err)
    then show ?thesis using \<open>map_of (Players (state r)) pid = Some p\<close> e q1 by (simp add: HandleMessage_def quiet_keeps)
  next
    case None
    then obtain q where q: "map_of (Players (state r1)) pid = Some q"
      using enforceRateLimit_quiet(2) [OF r Some] e by (metis fst_conv snd_conv)
    have "returns (dispatchMessage ml pid q t payload r1) (keeps r1)"
      using handleTap_quiet [OF ml i1 q, THEN returns_mono] handleSetNicknameMsg_keeps [OF i1 q] i1
        returns_bind [OF HandleRestartVote_keeps [OF i1], of "\<lambda>(e, r). Some r" "keeps r1" q]
        sendToPlayer_quiet [OF i1, THEN returns_mono, of "keeps r1" pid EncodePong]
      by (auto simp: dispatchMessage_def handleRestartVoteMsg_def handlePingMsg_def quiet_keeps quiet_refl)
    then have "returns (do { r \<leftarrow> dispatchMessage ml pid q t payload r1; Some (None :: room_error option, r) }) (\<lambda>(e, r'). keeps r r')"
      by (rule returns_bind) (auto intro: quiet_keeps_trans [OF q1])
    then show ?thesis using Some e None q by (simp add: HandleMessage_def)
  qed
qed


section \<open>The tick\<close>

lemma UpdateWind_frame:
  "Players (fst (UpdateWind s g)) = Players s" "Phase (fst (UpdateWind s g)) = Phase s"
  "Bird (fst (UpdateWind s g)) = Bird s" "Ghost (fst (UpdateWind s g)) = Ghost s"
  by (simp_all add: UpdateWind_def split_def Let_def)

lemma CheckGhostCollision_frame:
  "Players (fst (CheckGhostCollision ml s)) = Players s" "Phase (fst (CheckGhostCollision ml s)) = Phase s"
  "Bird (fst (CheckGhostCollision ml s)) = Bird s" "wind_ok (fst (CheckGhostCollision ml s)) = wind_ok s"
  by (simp_all add: CheckGhostCollision_def Let_def wind_ok_def)

lemma tick_physics_ok:
  assumes w: "world_ok s" and ph: "Phase s = PhasePlaying" and ml: "mathlib_ok ml" and g: "rng_ok g"
    and t: "tick_physics ml s g = (s', g', over)"
  shows "Players s' = Players s" "Phase s' = PhasePlaying" "rng_ok g'" "world_ok (s'\<lparr>Phase := PhaseEnded\<rparr>)"
    "over = None \<Longrightarrow> world_ok s'"
proof -
  obtain b ov where b: "ApplyPhysics (Balloon s) = (b, ov)" by fastforce
  define s1 where "s1 = s\<lparr>TickCount := TickCount s + 1, Balloon := b\<rparr>"
  have b_ok: "balloon_ok b" "ov \<longleftrightarrow> \<not> airborne b"
    using ApplyPhysics_ok [of "Balloon s"] w ph b by (simp_all add: world_ok_def phys_ok_def)
  have s1: "bird_ok (Bird s1)" "ghost_ok (Ghost s1)" "wind_ok s1" "Balloon s1 = b" "Phase s1 = PhasePlaying" "Players s1 = Players s"
    using w ph by (simp_all add: s1_def world_ok_def phys_ok_def wind_ok_def)
  define s2 where "s2 = fst (UpdateWind s1 g)"
  define g2 where "g2 = snd (UpdateWind s1 g)"
  have s2: "wind_ok s2" "balloon_ok (Balloon s2)" "airborne (Balloon s2) = airborne b" "rng_ok g2" "bird_ok (Bird s2)"
    "ghost_ok (Ghost s2)" "Phase s2 = PhasePlaying" "Players s2 = Players s"
    using UpdateWind_ok [of s1 g] UpdateWind_frame [of s1 g] s1 b_ok g by (simp_all add: s2_def g2_def)
  define d where "d = fst (UpdateBirdAI (Bird s2) (Balloon s2) (TickCount s2) g2)"
  define g3 where "g3 = snd (UpdateBirdAI (Bird s2) (Balloon s2) (TickCount s2) g2)"
  have d: "bird_ok d" "rng_ok g3" using UpdateBirdAI_ok [OF s2(5,2,4)] by (simp_all add: d_def g3_def)
  define h where "h = fst (updateGhost ml (Balloon s2) (TickCount s2) (Ghost s2) g3)"
  define g4 where "g4 = snd (updateGhost ml (Balloon s2) (TickCount s2) (Ghost s2) g3)"
  have h: "ghost_ok h" "rng_ok g4" using updateGhost_ok [OF s2(6,2) ml d(2)] by (simp_all add: h_def g4_def)
  define s4 where "s4 = s2\<lparr>Bird := d, Ghost := h\<rparr>"
  define s5 where "s5 = fst (CheckGhostCollision ml s4)"
  have "ghost_ok (Ghost s5)" "balloon_ok (Balloon s5)" "airborne (Balloon s5) = airborne b" "Players s5 = Players s"
    "Phase s5 = PhasePlaying" "bird_ok (Bird s5)" "wind_ok s5"
    using CheckGhostCollision_ok [of s4 ml] CheckGhostCollision_frame [of ml s4] s2 d h ml
    by (simp_all add: s5_def s4_def wind_ok_def)
  note s5 = this
  have t': "(s', g', over) = (if ov then (s1, g, Some EndReasonGround)
     else if snd (CheckGhostCollision ml s4) then (s5, g4, Some EndReasonGhost)
     else if CheckBirdCollision (Bird s5) (Balloon s5) then (s5, g4, Some EndReasonBird) else (s5, g4, None))"
    using t [symmetric] b
    by (simp add: tick_physics_def Let_def UpdateGhostAI_def split_def s1_def s2_def g2_def d_def g3_def h_def g4_def s4_def s5_def)
  show "Players s' = Players s" "Phase s' = PhasePlaying" "rng_ok g'" "world_ok (s'\<lparr>Phase := PhaseEnded\<rparr>)" "over = None \<Longrightarrow> world_ok s'"
    using t' s1 s5 b_ok h g by (auto simp: world_ok_def phys_ok_def wind_ok_def split: if_splits)
qed

lemma cleanup_fold_quiet:
  "room_inv r \<Longrightarrow> wf_map ps \<Longrightarrow> (\<And>pid p. (pid, p) \<in> set ps \<Longrightarrow> map_of (Players (state r)) pid = Some p) \<Longrightarrow>
    quiet r (fold (cleanup_one now) ps r)"
proof (induction ps arbitrary: r)
  case (Cons x ps)
  obtain pid p where x: "x = (pid, p)" by fastforce
  have p: "map_of (Players (state r)) pid = Some p" using Cons.prems(3) x by simp
  define r1 where "r1 = cleanup_one now x r"
  have e: "r1 = (if expired now p then broadcast (EncodePlayerLeave (of_int (p_PlayerIndex p))) [] (drop_player pid (p_Nickname p) r) else r)"
    by (simp add: r1_def cleanup_one_def x)
  have q: "quiet r r1"
    using drop_player_quiet [OF Cons.prems(1) p] quiet_trans [OF _ aux_quiet [OF aux_broadcast quiet_inv]]
    unfolding e by (auto intro: quiet_refl [OF Cons.prems(1)])
  have "Players (state r1) = (if expired now p then AList.delete pid (Players (state r)) else Players (state r))"
    using aux_core [OF aux_broadcast] by (simp add: e drop_player_def Let_def upd_state_def)
  moreover have "wf_map ps" "a \<noteq> pid" if "(a, b) \<in> set ps" for a b
    using Cons.prems(2) that x by (auto simp: wf_map_def intro: rev_image_eqI)
  ultimately have "(a, b) \<in> set ps \<Longrightarrow> map_of (Players (state r1)) a = Some b" for a b
    using Cons.prems(3) [of a b] by auto
  from Cons.IH [OF quiet_inv [OF q] _ this] Cons.prems(2) have "quiet r1 (fold (cleanup_one now) ps r1)"
    by (simp add: wf_map_def)
  then show ?case using quiet_trans [OF q] by (simp add: r1_def)
qed (simp add: quiet_refl)

lemma cleanupDisconnected_quiet: "room_inv r \<Longrightarrow> quiet r (cleanupDisconnected now r)"
  unfolding cleanupDisconnected_def
  by (rule cleanup_fold_quiet) (auto simp: room_inv_def core_ok_def players_ok_def in_set_map_of)

lemma tickOnceLocked_keeps:
  assumes ml: "mathlib_ok ml" and r: "room_inv r"
  shows "returns (tickOnceLocked ml now r) (\<lambda>(b, r'). keeps r r')"
proof -
  define r1 where "r1 = cleanupDisconnected now r"
  have q1: "quiet r r1" unfolding r1_def by (rule cleanupDisconnected_quiet [OF r])
  note i1 = quiet_inv [OF q1]
  have stop: "quiet r (stopTick r1)" by (rule quiet_trans [OF q1 aux_quiet [OF aux_stopTick i1]])
  show ?thesis
  proof (cases "Phase (state r1) = PhasePlaying \<and> Players (state r1) \<noteq> [] \<and> connections r1 \<noteq> []")
    case False
    then show ?thesis using quiet_keeps [OF q1] quiet_keeps [OF stop]
      by (auto simp: tickOnceLocked_def Let_def simp flip: r1_def)
  next
    case True
    obtain s g over where t: "tick_physics ml (state r1) (room_rng r1) = (s, g, over)" by (metis prod_cases3)
    have w: "world_ok (state r1)" "rng_ok (room_rng r1)" using i1 by (simp_all add: room_inv_def core_ok_def)
    note ok = tick_physics_ok [OF w(1) conjunct1 [OF True] ml w(2) t]
    define r2 where "r2 = r1\<lparr>state := s, room_rng := g\<rparr>"
    have "returns (EndGameWithReason reason r2) (keeps r2)" for reason
      using ok i1 by (intro EndGameWithReason_keeps) (simp_all add: r2_def room_inv_def core_ok_def upd_state_def)
    then have "returns (EndGameWithReason reason r2) (keeps r)" for reason
      by (rule returns_mono) (use q1 ok True in \<open>auto simp: keeps_def quiet_def r2_def\<close>)
    then have e: "returns (do { r \<leftarrow> EndGameWithReason reason r2; Some (False, r) }) (\<lambda>(b, r'). keeps r r')" for reason
      by (rule returns_bind) simp
    have "over = None \<Longrightarrow> keeps r r2"
      using ok i1 q1 True by (auto simp: keeps_def quiet_def r2_def room_inv_def core_ok_def)
    then show ?thesis using True t e
      by (auto simp: tickOnceLocked_def Let_def simp flip: r1_def r2_def split: option.split)
  qed
qed

lemma tick_iteration_keeps:
  assumes ml: "mathlib_ok ml" and r: "room_inv r"
  shows "returns (tick_iteration ml r) (keeps r)"
proof -
  have q: "quiet r (tick_env r)" by (rule aux_quiet [OF aux_simple(1) r])
  have tail: "returns (do { r2 \<leftarrow> (if b then broadcastSnapshot r1 else Some r1);
      if tc > 0 \<and> tc mod persistIntervalTicks = 0 then asyncSaveState r2 else Some r2 }) (keeps r)"
    if k: "keeps r r1" for b r1 tc
  proof -
    have i: "room_inv r1" using k by (rule keeps_inv)
    have "returns (if b then broadcastSnapshot r1 else Some r1) (aux r1)" by (simp add: broadcastSnapshot_returns [OF i])
    then show ?thesis
    proof (rule aux_then [OF _ i])
      fix r2 assume a: "aux r1 r2" and i2: "room_inv r2"
      have k2: "keeps r r2" by (rule keeps_quiet_trans [OF k aux_quiet [OF a i]])
      have "returns (asyncSaveState r2) (keeps r)" unfolding asyncSaveState_def
        by (rule returns_mono [OF requestPersist_quiet [OF i2]]) (rule keeps_quiet_trans [OF k2])
      with k2 show "returns (if tc > 0 \<and> tc mod persistIntervalTicks = 0 then asyncSaveState r2 else Some r2) (keeps r)" by simp
    qed
  qed
  have "returns (do { (b, r) \<leftarrow> tickOnceLocked ml (fst (Now r)) (tick_env r); let tc = TickCount (state r);
      r2 \<leftarrow> (if b then broadcastSnapshot r else Some r);
      if tc > 0 \<and> tc mod persistIntervalTicks = 0 then asyncSaveState r2 else Some r2 }) (keeps r)"
    by (rule returns_bind [OF tickOnceLocked_keeps [OF ml quiet_inv [OF q]]])
      (auto simp only: prod.case Let_def intro!: tail quiet_keeps_trans [OF q])
  then show ?thesis by (simp add: tick_iteration_def Now_def)
qed

end
