(* ===== verification/Room_Machine.thy ===== *)
theory Room_Machine
  imports Room_Safety
begin

text \<open>
  The room as a state machine: what can happen to it (\<open>room_event\<close>, \<open>room_op\<close>), the step relation with the pending
  decisions of the alarm and the sections of closing (\<open>sys_step\<close>), the rooms reachable from \<^verbatim>\<open>NewRoom\<close>, and the invariants of the aggregate
  that the comment above \<^verbatim>\<open>type Room\<close> in \<^verbatim>\<open>game/room.go\<close> lists.
\<close>

section \<open>Delivery and the workers\<close>

lemma quiet_fold: "(\<And>x r. room_inv r \<Longrightarrow> quiet r (f x r)) \<Longrightarrow> room_inv r \<Longrightarrow> quiet r (fold f xs r)"
proof (induction xs arbitrary: r)
  case (Cons x xs)
  have q: "quiet r (f x r)" using Cons.prems by simp
  from quiet_trans [OF q Cons.IH [OF Cons.prems(1) quiet_inv [OF q]]] show ?case by simp
qed (simp add: quiet_refl)

lemma removePending_quiet: "room_inv r \<Longrightarrow> quiet r (removePending hasMu pid r)"
proof -
  assume r: "room_inv r"
  define r1 where "r1 = (if hasMu then (case map_of (Players (state r)) pid of
      None \<Rightarrow> r | Some p \<Rightarrow> let (now, r) = Now r in set_player pid (MarkDisconnected now p) r) else r)"
  have q0: "quiet r (tick_env r)" by (rule aux_quiet [OF aux_simple(1) r])
  have "quiet r r1" using quiet_refl [OF r] quiet_trans [OF q0 mark_quiet [OF quiet_inv [OF q0]]]
    by (auto simp: r1_def Now_def split: option.split)
  then have "quiet r (del_conn pid r1)" using quiet_trans aux_quiet [OF aux_simple(3)] quiet_inv by blast
  then show ?thesis using quiet_refl [OF r] unfolding removePending_def Let_def r1_def [unfolded Let_def, symmetric]
    by (simp split: option.split)
qed

lemma deliver_quiet:
  assumes r: "room_inv r"
  shows "quiet r (deliver hasMu m r)"
proof -
  let ?r = "fold (deliverToTarget m) (SnapshotTargets (o_exclude m) r) r"
  have q: "quiet r ?r" by (rule aux_quiet [OF aux_fold [OF aux_deliverToTarget] r])
  from quiet_trans [OF q quiet_fold [OF removePending_quiet quiet_inv [OF q]]] show ?thesis
    by (simp add: deliver_def deliverToTargets_def RemovePendingDisconnects_def)
qed

lemma runLoop_round_quiet: "room_inv r \<Longrightarrow> quiet r (runLoop_round hasMu r)"
proof (cases "ob_ch (outbound r)")
  case (Cons m ms)
  assume r: "room_inv r"
  let ?s = "r\<lparr>outbound := (outbound r)\<lparr>ob_ch := ms\<rparr>\<rparr>"
  have "aux r ?s" using Cons by (simp add: aux_def same_core_def infra_ok_def)
  from aux_quiet [OF this r] have q: "quiet r ?s" .
  from quiet_trans [OF q deliver_quiet [OF quiet_inv [OF q]]] show ?thesis using Cons by (simp add: runLoop_round_def)
qed (simp add: runLoop_round_def quiet_refl)

lemma writePump_round_quiet: "room_inv r \<Longrightarrow> quiet r (writePump_round pid r)"
proof (cases "map_of (connections r) pid")
  case (Some pc)
  assume r: "room_inv r"
  have "conn_ok pc" by (rule conn_ok_of [OF inv_infra [OF r] Some])
  then have "conn_ok (pc\<lparr>c_Send := tl (c_Send pc)\<rparr>)" by (auto simp: conn_ok_def)
  from aux_quiet [OF aux_set_conn [OF this] r] show ?thesis using Some by (simp add: writePump_round_def)
qed (simp add: writePump_round_def quiet_refl)

lemma pm_frames [simp]:
  "pm_ch (pm_flush m) = pm_ch m" "pm_chClosed (pm_flush m) = pm_chClosed m" "pm_started (pm_flush m) = pm_started m"
  "pm_stopped (pm_flush m) = pm_stopped m"
  "pm_chClosed (pm_receive m) = pm_chClosed m" "pm_ch (pm_receive m) = tl (pm_ch m)"
  "pm_started (pm_receive m) = pm_started m" "pm_stopped (pm_receive m) = pm_stopped m"
  by (simp_all add: pm_flush_def pm_receive_def pm_write_def Let_def split: option.split list.split)

lemma persist_quiet:
  "room_inv r \<Longrightarrow> quiet r (r\<lparr>persist := pm_receive (persist r)\<rparr>)" "room_inv r \<Longrightarrow> quiet r (r\<lparr>persist := pm_timer (persist r)\<rparr>)"
  by (auto simp: pm_timer_def aux_def same_core_def infra_ok_def intro!: aux_quiet)

section \<open>Closing\<close>

text \<open>\<^verbatim>\<open>Close\<close> as the sections between which other goroutines run.\<close>

datatype close_section = CloseFlag | CloseTick | CloseOutbound | CloseConns | CloseFlush | ClosePersist

definition close_plan :: "close_section list" where
  "close_plan = [CloseFlag, CloseTick, CloseOutbound, CloseConns, CloseFlush, ClosePersist]"

fun close_act :: "close_section \<Rightarrow> room \<Rightarrow> room option" where
  "close_act CloseFlag r = Some (closeFlag r)"
| "close_act CloseTick r = Some (closeTick r)"
| "close_act CloseOutbound r = Some (stopOutbound r)"
| "close_act CloseConns r = closeConns r"
| "close_act CloseFlush r = flushPersistSync r"
| "close_act ClosePersist r = stopPersist r"

fun close_acts :: "close_section list \<Rightarrow> room \<Rightarrow> room option" where
  "close_acts [] r = Some r"
| "close_acts (x # xs) r = do { r \<leftarrow> close_act x r; close_acts xs r }"

lemma close_acts_eta: "close_acts [] = Some" "close_acts (x # xs) = (\<lambda>r. close_act x r \<bind> close_acts xs)"
  "close_act CloseFlush = flushPersistSync" "close_act ClosePersist = stopPersist"
  by (rule ext, simp)+

lemma Close_acts: "Close r = close_acts close_plan r"
  by (simp add: Close_def close_plan_def Let_def close_acts_eta del: close_acts.simps cong: Option.bind_cong)

text \<open>\<^verbatim>\<open>Close\<close> with what other goroutines do to the room before each of its sections.\<close>

fun close_among :: "(close_section \<Rightarrow> room \<Rightarrow> room) \<Rightarrow> close_section list \<Rightarrow> room \<Rightarrow> room option" where
  "close_among others [] r = Some r"
| "close_among others (x # xs) r = do { r \<leftarrow> close_act x (others x r); close_among others xs r }"

lemma close_among_id: "close_among (\<lambda>x s. s) xs r = close_acts xs r"
  by (induction xs arbitrary: r) (simp_all cong: Option.bind_cong)

lemmas close_defs = closeFlag_def closeTick_def stopTimers_def stopOutbound_def clearAllNicknameTimers_def stopTick_def

text \<open>Every section before the last keeps the invariant, from whatever state the other goroutines have left it; the last one
  may end the persistence loop, after which an operation that wants to store the state panics.\<close>

definition close_keeps :: "close_section \<Rightarrow> room \<Rightarrow> room \<Rightarrow> bool" where
  "close_keeps x r r' \<longleftrightarrow> core_ok r' \<and> state r' = state r \<and> maxPlayers r' = maxPlayers r \<and> (x = CloseFlag \<or> closed r \<longrightarrow> closed r')
     \<and> (x \<noteq> ClosePersist \<or> \<not> pm_chClosed (persist r') \<longrightarrow> room_inv r')"

lemma close_conns:
  assumes "room_inv r"
  shows "closeConns r = Some ((stopTimers r)\<lparr>closedConns := closedConns r @ map (c_Conn \<circ> snd) (connections r), connections := []\<rparr>)"
proof -
  have "\<not> c_closed pc" if "(pid, pc) \<in> set (connections r)" for pid pc
    using inv_infra [OF assms] that by (auto simp: infra_ok_def in_set_map_of conn_ok_def)
  then show ?thesis by (force simp: closeConns_def closeAllConnections_def stopTimers_def)
qed

lemma flushPersistSync_aux:
  assumes "infra_ok r"
  shows "returns (flushPersistSync r) (aux r)"
proof -
  have q: "length q \<le> persistQueueSize" if "try_send persistQueueSize j (pm_ch (persist r)) = Some q" for j q
    using assms that ch.send_bound by (auto simp: infra_ok_def)
  show ?thesis using assms q
    by (auto simp: flushPersistSync_def flushSync_def pm_startLoop_def infra_ok_def aux_def same_core_def Let_def Wait_def tick_env_def
        persistQueueSize_def split: option.split)
qed

lemma close_act_returns:
  assumes r: "room_inv r"
  shows "returns (close_act x r) (close_keeps x r)"
proof -
  have i: "core_ok r" "infra_ok r" using inv_core [OF r] inv_infra [OF r] .
  show ?thesis
  proof (cases x)
    case CloseFlush
    have "close_keeps CloseFlush r r'" if "aux r r'" for r'
      using aux_inv [OF that r] that by (simp add: close_keeps_def aux_def same_core_def inv_core)
    then show ?thesis using flushPersistSync_aux [OF i(2)] CloseFlush by (auto simp: returns_def)
  next
    case CloseConns
    then show ?thesis using i
      by (auto simp: close_conns [OF r] close_keeps_def close_defs room_inv_def core_ok_def infra_ok_def wf_map_def)
  qed (use i in \<open>auto simp: close_keeps_def close_defs stopPersist_def room_inv_def core_ok_def infra_ok_def Let_def\<close>)
qed

lemma close_keeps_trans:
  "close_keeps x r s \<Longrightarrow> x \<noteq> ClosePersist \<Longrightarrow> close_keeps y s t \<Longrightarrow> close_keeps y r t"
  by (auto simp: close_keeps_def)

lemma close_act_state: "close_act x r = Some r' \<Longrightarrow> state r' = state r"
  by (cases x) (auto simp: close_defs closeConns_def closeAllConnections_def flushPersistSync_def flushSync_def stopPersist_def
      Let_def Wait_def tick_env_def split: if_splits option.splits)

lemma Close_returns:
  assumes r: "room_inv r"
  shows "returns (Close r) (\<lambda>r'. core_ok r' \<and> closed r' \<and> state r' = state r \<and> maxPlayers r' = maxPlayers r)"
proof -
  have step: "returns (close_acts (x # xs) s) P" if "room_inv s" "\<And>t. close_keeps x s t \<Longrightarrow> returns (close_acts xs t) P" for x xs s P
    unfolding close_acts.simps by (rule returns_bind [OF close_act_returns [OF that(1)] that(2)])
  show ?thesis unfolding Close_acts close_plan_def
    by (intro step r) (auto simp: close_keeps_def)
qed

section \<open>The room as a state machine\<close>

text \<open>
  What can happen to a room. What runs under one holding of the lock of the room is one step, so an operation is one step; the
  callback of the end-of-game timer decides under the lock and acts later, under the lock again, in the sections of
  \<open>alarm_section\<close>, and \<^verbatim>\<open>Close\<close> runs in the sections of \<open>close_plan\<close>. What the callbacks and \<^verbatim>\<open>Close\<close> have still to do is
  part of the state of the system. Timers may fire at any time, and the loops of the outbound and the
  persistence manager make a round at any time: every order that the scheduler can produce is a sequence of steps, also while
  the room is being closed. The steps end when \<^verbatim>\<open>stopPersist\<close>, the last section of \<^verbatim>\<open>Close\<close>, has closed the channel of the
  persistence loop: an operation that stores the state panics from then on.
\<close>

datatype room_event =
    EvJoin gostring nat | EvDisconnect gostring | EvMessage gostring byte "byte list" | EvTick
  | EvDeliver bool | EvWrite gostring | EvPersist | EvPersistTimer
  | EvStartDelay | EvNicknameTimeout gostring | EvClose

fun room_op :: "mathlib \<Rightarrow> room_event \<Rightarrow> room \<Rightarrow> room option" where
  "room_op ml (EvJoin pid conn) r = map_option snd (HandleJoin pid conn r)"
| "room_op ml (EvDisconnect pid) r = Some (HandleDisconnect pid r)"
| "room_op ml (EvMessage pid t payload) r = map_option snd (HandleMessage ml pid t payload r)"
| "room_op ml EvTick r = tick_iteration ml r"
| "room_op ml (EvDeliver hasMu) r = Some (runLoop_round hasMu r)"
| "room_op ml (EvWrite pid) r = Some (writePump_round pid r)"
| "room_op ml EvPersist r = Some (r\<lparr>persist := pm_receive (persist r)\<rparr>)"
| "room_op ml EvPersistTimer r = Some (r\<lparr>persist := pm_timer (persist r)\<rparr>)"
| "room_op ml EvStartDelay r = startDelayFired r"
| "room_op ml (EvNicknameTimeout pid) r = Some (nicknameTimeout pid r)"
| "room_op ml EvClose r = Close r"

record system =
  sys_room :: room
  sys_alarms :: "alarm_action list"
  sys_closing :: "close_section list"

definition sys_live :: "system \<Rightarrow> bool" where
  "sys_live s \<longleftrightarrow> \<not> pm_chClosed (persist (sys_room s))"

inductive sys_step :: "mathlib \<Rightarrow> system \<Rightarrow> system \<Rightarrow> bool" for ml where
  operation: "sys_live s \<Longrightarrow> ev \<noteq> EvClose \<Longrightarrow> room_op ml ev (sys_room s) = Some r \<Longrightarrow> sys_step ml s (s\<lparr>sys_room := r\<rparr>)"
| alarm_fires: "sys_live s \<Longrightarrow> sys_step ml s (s\<lparr>sys_alarms := alarm_decide v (sys_room s) # sys_alarms s\<rparr>)"
| alarm_runs: "sys_live s \<Longrightarrow> a \<in> set (sys_alarms s) \<Longrightarrow> alarm_section a (sys_room s) = Some (left, r) \<Longrightarrow>
    sys_step ml s (s\<lparr>sys_room := r, sys_alarms := left @ remove1 a (sys_alarms s)\<rparr>)"
| closing: "sys_closing s = x # xs \<Longrightarrow> close_act x (sys_room s) = Some r \<Longrightarrow>
    sys_step ml s (s\<lparr>sys_room := r, sys_closing := xs\<rparr>)"

inductive_cases sys_stepE: "sys_step ml s t"

definition sys_init :: "system \<Rightarrow> bool" where
  "sys_init s \<longleftrightarrow> (\<exists>code store maxPl now seed g c e. sys_room s = NewRoom code store maxPl now seed g c e
     \<and> maxPl \<le> 95 \<and> rng_ok g \<and> crand_ok c) \<and> sys_alarms s = [] \<and> sys_closing s = close_plan"

lemma room_op_keeps:
  assumes "mathlib_ok ml" "room_inv r" "ev \<noteq> EvClose"
  shows "returns (room_op ml ev r) (keeps r)"
proof -
  have snd: "returns m (\<lambda>(e, r'). keeps r r') \<Longrightarrow> returns (map_option snd m) (keeps r)" for m :: "(room_error option \<times> room) option"
    by (auto simp: returns_def)
  show ?thesis
    using assms HandleDisconnect_quiet runLoop_round_quiet writePump_round_quiet persist_quiet nicknameTimeout_quiet
      tick_iteration_keeps startDelayFired_keeps HandleJoin_keeps HandleMessage_keeps
    by (cases ev) (auto simp: quiet_keeps intro: snd)
qed

definition sys_inv :: "system \<Rightarrow> bool" where
  "sys_inv s \<longleftrightarrow> core_ok (sys_room s) \<and> (sys_live s \<longrightarrow> room_inv (sys_room s)) \<and> (closed (sys_room s) \<or> sys_live s)
     \<and> (\<exists>n. sys_closing s = drop n close_plan \<and> (0 < n \<longrightarrow> closed (sys_room s)) \<and> (n < 6 \<longrightarrow> sys_live s))"

lemma sys_inv_open: "sys_inv s \<Longrightarrow> \<not> closed (sys_room s) \<Longrightarrow> room_inv (sys_room s)"
  by (auto simp: sys_inv_def)

lemma close_plan_drop:
  "drop n close_plan = x # xs \<Longrightarrow> n < 6 \<and> x = close_plan ! n \<and> xs = drop (Suc n) close_plan \<and> (x = ClosePersist \<longleftrightarrow> n = 5) \<and> (x = CloseFlag \<longleftrightarrow> n = 0)"
proof -
  assume d: "drop n close_plan = x # xs"
  have n: "n < 6"
  proof (rule ccontr)
    assume "\<not> n < 6"
    then have "drop n close_plan = []" by (simp add: close_plan_def)
    then show False using d by simp
  qed
  then have "n = 0 \<or> n = 1 \<or> n = 2 \<or> n = 3 \<or> n = 4 \<or> n = 5" by arith
  then show ?thesis using d by (auto simp: close_plan_def eval_nat_numeral)
qed

lemma NewGameState_world': "rng_ok g \<Longrightarrow> world_ok (fst (NewGameState now code seed g))"
  using NewGameState_ok(1) [of g now code seed] NewGameState_frame(2) [of now code seed g] by (simp add: world_ok_def)

lemma NewRoom_inv:
  assumes "maxPl \<le> 95" "rng_ok g" "crand_ok c"
  shows "room_inv (NewRoom code store maxPl now seed g c e)"
  using NewGameState_world' [OF assms(2), of now code seed] NewGameState_ok(2) [OF assms(2), of now code seed]
    NewGameState_frame [of now code seed g] assms
  by (auto simp: NewRoom_def room_inv_def core_ok_def infra_ok_def MaxPlayersPerRoom_def Let_def split_def)

lemma sys_inv_keeps:
  "sys_inv s \<Longrightarrow> keeps (sys_room s) r \<Longrightarrow> sys_inv (s\<lparr>sys_room := r\<rparr>)" "sys_inv (s\<lparr>sys_alarms := acts\<rparr>) \<longleftrightarrow> sys_inv s"
  by (auto simp: sys_inv_def sys_live_def keeps_def room_inv_def infra_ok_def)

lemma sys_step_inv:
  assumes ml: "mathlib_ok ml" and s: "sys_inv s" and t: "sys_step ml s t"
  shows "sys_inv t"
  using t
proof (cases rule: sys_step.cases)
  case (operation ev r)
  then have "room_inv (sys_room s)" using s by (simp add: sys_inv_def)
  from returnsD [OF room_op_keeps [OF ml this operation(3)] operation(4)] show ?thesis
    using operation(1) sys_inv_keeps(1) [OF s] by simp
next
  case (alarm_fires v)
  then show ?thesis using s sys_inv_keeps(2) by simp
next
  case (alarm_runs a left r)
  then have "room_inv (sys_room s)" using s by (simp add: sys_inv_def)
  from returnsD [OF alarm_section_keeps [OF this] alarm_runs(4)] have "sys_inv (s\<lparr>sys_room := r\<rparr>)"
    using sys_inv_keeps(1) [OF s] by simp
  then show ?thesis using alarm_runs(1) sys_inv_keeps(2) [where s = "s\<lparr>sys_room := r\<rparr>"] by simp
next
  case (closing x xs r)
  obtain n where n: "sys_closing s = drop n close_plan" "0 < n \<longrightarrow> closed (sys_room s)" "n < 6 \<longrightarrow> sys_live s"
    using s by (auto simp: sys_inv_def)
  note d = close_plan_drop [OF n(1) [symmetric, unfolded closing(2)]]
  then have i: "room_inv (sys_room s)" using s n(3) by (simp add: sys_inv_def)
  have k: "close_keeps x (sys_room s) r" using returnsD [OF close_act_returns [OF i] closing(3)] .
  have c: "closed r" using k d n(2) by (auto simp: close_keeps_def)
  have l: "room_inv r" if "n < 5 \<or> \<not> pm_chClosed (persist r)" using k d that by (auto simp: close_keeps_def)
  then have "n < 5 \<Longrightarrow> \<not> pm_chClosed (persist r)" by (simp add: room_inv_def infra_ok_def)
  then show ?thesis using closing(1) k d c l by (auto simp: sys_inv_def sys_live_def close_keeps_def intro!: exI [of _ "Suc n"])
qed

interpretation room_system: transition_system sys_init "\<lambda>s t. mathlib_ok ml \<and> sys_step ml s t" sys_inv for ml
proof
  show "sys_init s \<Longrightarrow> sys_inv s" for s
    using NewRoom_inv by (fastforce simp: sys_init_def sys_inv_def sys_live_def room_inv_def infra_ok_def intro: exI [of _ 0])
  show "sys_inv s \<Longrightarrow> mathlib_ok ml \<and> sys_step ml s t \<Longrightarrow> sys_inv t" for s t
    using sys_step_inv by blast
qed

definition reachable :: "mathlib \<Rightarrow> system \<Rightarrow> bool" where
  "reachable ml s \<longleftrightarrow> (\<exists>s0. sys_init s0 \<and> (sys_step ml)\<^sup>*\<^sup>* s0 s)"

lemma reachable_sys_inv: "mathlib_ok ml \<Longrightarrow> reachable ml s \<Longrightarrow> sys_inv s"
proof -
  assume ml: "mathlib_ok ml" and "reachable ml s"
  then obtain s0 where "sys_init s0" "(sys_step ml)\<^sup>*\<^sup>* s0 s" by (auto simp: reachable_def)
  moreover have "(\<lambda>s t. mathlib_ok ml \<and> sys_step ml s t) = sys_step ml" using ml by simp
  ultimately show ?thesis using room_system.reachable_inv [of ml s0 s] by simp
qed


lemma players_ok_names: "players_ok ps used \<Longrightarrow> used = (p_Nickname \<circ> snd) ` set ps"
proof -
  assume ok: "players_ok ps used"
  have "Some ` used = (\<lambda>x. nick_of ps (fst x)) ` set ps"
    using ok by (simp add: players_ok_def dom_map_of_conv_image_fst image_image)
  also have "\<dots> = (\<lambda>x. Some ((p_Nickname \<circ> snd) x)) ` set ps"
    using ok by (intro image_cong) (auto simp: players_ok_def nick_of_def in_set_map_of)
  also have "\<dots> = Some ` (p_Nickname \<circ> snd) ` set ps" by (simp add: image_image)
  finally show ?thesis by (simp add: inj_image_eq_iff)
qed

text \<open>A room and an environment to evaluate the properties on.\<close>

definition zero_env :: environment where
  "zero_env = \<lparr>e_clock = (\<lambda>n. int n), e_uuid = (\<lambda>_. replicate 16 0), e_wait = (\<lambda>_. True), e_pos = 0\<rparr>"

definition demo_room :: room where
  "demo_room = NewRoom (str ''ABCDE'') False 50 0 0 zero_rng failing_crand zero_env"

definition demo_system :: system where
  "demo_system = \<lparr>sys_room = demo_room, sys_alarms = [], sys_closing = close_plan\<rparr>"

lemma demo_reachable: "reachable zero_math demo_system" and demo_open: "\<not> closed (sys_room demo_system)"
proof -
  have "sys_init demo_system"
    unfolding sys_init_def demo_system_def demo_room_def using zero_rng_ok failing_crand_ok by fastforce
  then show "reachable zero_math demo_system" by (auto simp: reachable_def)
  show "\<not> closed (sys_room demo_system)" by (simp add: demo_system_def demo_room_def NewRoom_def Let_def split_def)
qed

lemma demo_inv: "room_inv demo_room"
  using sys_inv_open [OF reachable_sys_inv [OF zero_math_ok demo_reachable] demo_open] by (simp add: demo_system_def)

section \<open>Properties\<close>

text \<open>C1: In every room that has been reached from a new one (for at most 95 players; the constant of the source is 50) by any
  interleaving of joins, messages, ticks, timers, deliveries, writes and the sections of closing, the number of players is within the limit, the nicknames are pairwise different and
  are exactly the names marked as used, and every nickname is valid UTF-8 of at most 12 runes.\<close>

theorem room_aggregate_invariant:
  assumes "mathlib_ok ml" "reachable ml s"
  shows "int (length (Players (state (sys_room s)))) \<le> maxPlayers (sys_room s)
    \<and> distinct (map (p_Nickname \<circ> snd) (Players (state (sys_room s))))
    \<and> usedNames (sys_room s) = (p_Nickname \<circ> snd) ` set (Players (state (sys_room s)))
    \<and> list_all (\<lambda>(pid, p). p_ID p = pid \<and> valid_utf8 (p_Nickname p) \<and> length (runes (p_Nickname p)) \<le> 12
        \<and> 0 \<le> p_ScoreContribution p \<and> p_ScoreContribution p \<le> MaxScore) (Players (state (sys_room s)))"
proof -
  have c: "core_ok (sys_room s)" using reachable_sys_inv [OF assms] by (simp add: sys_inv_def)
  then have ok: "players_ok (Players (state (sys_room s))) (usedNames (sys_room s))" by (simp add: core_ok_def)
  have "list_all (\<lambda>(pid, p). player_ok pid p) (Players (state (sys_room s)))"
    using ok by (auto simp: list_all_iff players_ok_def in_set_map_of)
  then show ?thesis using c players_ok_distinct [OF ok] players_ok_names [OF ok]
    by (auto simp: core_ok_def player_ok_def good_nick_def list_all_iff)
qed

theorem room_aggregate_invariant_witness:
  "reachable zero_math demo_system \<and> distinct (map (p_Nickname \<circ> snd) (Players (state (sys_room demo_system))))"
  using room_aggregate_invariant [OF zero_math_ok demo_reachable] demo_reachable by simp

text \<open>C2: No handler of an open room panics: whatever was received before, joining, leaving, any message with any
  payload, the tick, every timer callback, every delivery and closing the room return.\<close>

theorem handlers_return:
  assumes "mathlib_ok ml" "reachable ml s" "\<not> closed (sys_room s)"
  shows "room_op ml ev (sys_room s) \<noteq> None \<and> alarm_act a (sys_room s) \<noteq> None"
proof -
  have i: "room_inv (sys_room s)" by (rule sys_inv_open [OF reachable_sys_inv [OF assms(1,2)] assms(3)])
  have "room_op ml ev (sys_room s) \<noteq> None"
    using room_op_keeps [OF assms(1) i, of ev] Close_returns [OF i] by (cases "ev = EvClose") (auto simp: returns_def)
  then show ?thesis using alarm_act_keeps [OF i, of a] by (auto simp: returns_def)
qed

theorem handlers_return_witness:
  "reachable zero_math demo_system \<and> room_op zero_math (EvJoin (str ''p1'') 1) (sys_room demo_system) \<noteq> None"
  using handlers_return [OF zero_math_ok demo_reachable demo_open] demo_reachable by blast

text \<open>C3: The phase of a room only ever moves from waiting to countdown, from countdown to playing or back to waiting,
  from playing to ended or waiting, and from ended to countdown or waiting.\<close>

theorem phase_transitions:
  assumes "mathlib_ok ml" "reachable ml s" "sys_step ml s t"
  shows "phase_step (Phase (state (sys_room s))) (Phase (state (sys_room t)))"
  using assms(3)
proof (cases rule: sys_step.cases)
  case (operation ev r)
  then have "room_inv (sys_room s)" using reachable_sys_inv [OF assms(1,2)] by (simp add: sys_inv_def)
  from returnsD [OF room_op_keeps [OF assms(1) this operation(3)] operation(4)] show ?thesis using operation(1) by (simp add: keeps_def)
next
  case (alarm_fires v)
  then show ?thesis by simp
next
  case (alarm_runs a left r)
  then have "room_inv (sys_room s)" using reachable_sys_inv [OF assms(1,2)] by (simp add: sys_inv_def)
  from returnsD [OF alarm_section_keeps [OF this] alarm_runs(4)] show ?thesis using alarm_runs(1) by (simp add: keeps_def)
next
  case (closing x xs r)
  then show ?thesis using close_act_state [of x "sys_room s" r] by simp
qed


theorem phase_transitions_witness:
  "\<exists>t. sys_step zero_math demo_system t \<and> phase_step (Phase (state (sys_room demo_system))) (Phase (state (sys_room t)))"
proof -
  have "room_op zero_math (EvDisconnect []) (sys_room demo_system) = Some (HandleDisconnect [] (sys_room demo_system))" by simp
  moreover have "sys_live demo_system" using demo_inv by (simp add: sys_live_def demo_system_def room_inv_def infra_ok_def)
  ultimately have "sys_step zero_math demo_system (demo_system\<lparr>sys_room := HandleDisconnect [] (sys_room demo_system)\<rparr>)"
    using sys_step.operation by blast
  with phase_transitions [OF zero_math_ok demo_reachable] show ?thesis by blast
qed

end
