(* ===== verification/WS_Limiter.thy ===== *)
theory WS_Limiter
  imports Room_Machine
begin

text \<open>
  The bulkhead on WebSocket connections (\<^verbatim>\<open>WSLimiter\<close> in \<^verbatim>\<open>game/hub.go\<close>) under every interleaving of the request
  goroutines, and the handler that uses it (\<^verbatim>\<open>WebSocket\<close> in \<^verbatim>\<open>handler/lobby.go\<close>, \<^verbatim>\<open>RunSession\<close> and
  \<^verbatim>\<open>readPump\<close> in \<^verbatim>\<open>game/ws_session.go\<close>).

  One atomic instruction of a goroutine is one step: the loop of \<^verbatim>\<open>TryReserveWSConnection\<close> is split into its load
  and its compare-and-swap, between which other goroutines run. The counter is an \<open>int\<close>: it stays below the
  limit, which is an \<^verbatim>\<open>int\<close> of the source, so it never reaches the end of \<^verbatim>\<open>int64\<close>.
\<close>

section \<open>The limiter\<close>

record ws_limiter =
  maxWSConnections :: int
  wsConnCount :: int

definition NewWSLimiter :: "int \<Rightarrow> ws_limiter" where
  "NewWSLimiter m = \<lparr>maxWSConnections = m, wsConnCount = 0\<rparr>"

definition CanAcceptWSConnection :: "ws_limiter \<Rightarrow> bool" where
  "CanAcceptWSConnection w \<longleftrightarrow> wsConnCount w < maxWSConnections w"

text \<open>The two instructions of the loop: the load with the test, and the compare-and-swap.\<close>

definition reserve_load :: "ws_limiter \<Rightarrow> int option" where
  "reserve_load w = (if wsConnCount w \<ge> maxWSConnections w then None else Some (wsConnCount w))"

definition reserve_cas :: "int \<Rightarrow> ws_limiter \<Rightarrow> bool \<times> ws_limiter" where
  "reserve_cas current w =
     (if wsConnCount w = current then (True, w\<lparr>wsConnCount := current + 1\<rparr>) else (False, w))"

text \<open>The call when no other goroutine runs in between: the swap succeeds at once. \<^verbatim>\<open>IncrementWSConnection\<close> is the same
  loop without the result.\<close>

definition TryReserveWSConnection :: "ws_limiter \<Rightarrow> bool \<times> ws_limiter" where
  "TryReserveWSConnection w = (case reserve_load w of None \<Rightarrow> (False, w) | Some current \<Rightarrow> reserve_cas current w)"

definition IncrementWSConnection :: "ws_limiter \<Rightarrow> ws_limiter" where
  "IncrementWSConnection w = snd (TryReserveWSConnection w)"

definition DecrementWSConnection :: "ws_limiter \<Rightarrow> ws_limiter" where
  "DecrementWSConnection w = w\<lparr>wsConnCount := wsConnCount w - 1\<rparr>"

definition WSConnCount :: "ws_limiter \<Rightarrow> int" where
  "WSConnCount w = wsConnCount w"

definition MaxWSConnections :: "ws_limiter \<Rightarrow> int" where
  "MaxWSConnections w = maxWSConnections w"

section \<open>The session\<close>

text \<open>What \<^verbatim>\<open>readPump\<close> does with the messages it reads, in order; an empty message is skipped, and an error of a handler
  is only logged. Other goroutines have the room between the messages: \<open>others n\<close> is what they do to it while \<open>n\<close> messages are left
  to be read. When a handler panics, reading ends, the deferred functions run and the panic is recovered from; what the handler
  had done to the room before is not represented. The deferred \<^verbatim>\<open>HandleDisconnect\<close> runs whenever reading ends.\<close>

fun read_messages :: "mathlib \<Rightarrow> (nat \<Rightarrow> room \<Rightarrow> room) \<Rightarrow> gostring \<Rightarrow> byte list list \<Rightarrow> room \<Rightarrow> room" where
  "read_messages ml others pid [] r = others 0 r"
| "read_messages ml others pid (m # ms) r =
     (let r = others (length (m # ms)) r
      in if m = [] then read_messages ml others pid ms r
         else let (msgType, payload) = DecodeMessage m
              in case HandleMessage ml pid msgType payload r of
                   None \<Rightarrow> r
                 | Some (e, r) \<Rightarrow> read_messages ml others pid ms r)"

definition readPump :: "mathlib \<Rightarrow> (nat \<Rightarrow> room \<Rightarrow> room) \<Rightarrow> gostring \<Rightarrow> nat \<Rightarrow> byte list list \<Rightarrow> room \<Rightarrow> room" where
  "readPump ml others pid conn ms r = HandleDisconnect pid (close_conn conn (read_messages ml others pid ms r))"

text \<open>\<open>None\<close>: the join panics, which nothing below the middleware recovers from.\<close>

definition RunSession :: "mathlib \<Rightarrow> (nat \<Rightarrow> room \<Rightarrow> room) \<Rightarrow> gostring \<Rightarrow> nat \<Rightarrow> byte list list \<Rightarrow> room \<Rightarrow> (room_error option \<times> room) option" where
  "RunSession ml others pid conn ms r = do {
     let r = others (Suc (length ms)) r;
     (e, r) \<leftarrow> HandleJoin pid conn r;
     case e of
       Some err \<Rightarrow> Some (Some err, close_conn conn r)
     | None \<Rightarrow> Some (None, readPump ml others pid conn ms r)
   }"

lemma read_messages_inv:
  assumes "mathlib_ok ml" "\<And>k s. room_inv s \<Longrightarrow> room_inv (others k s)"
  shows "room_inv r \<Longrightarrow> room_inv (read_messages ml others pid ms r)"
proof (induction ms arbitrary: r)
  case (Cons m ms)
  obtain t payload where d: "DecodeMessage m = (t, payload)" by fastforce
  have i: "room_inv (others (length (m # ms)) r)" by (rule assms(2) [OF Cons.prems])
  obtain e r' where "HandleMessage ml pid t payload (others (length (m # ms)) r) = Some (e, r')" "room_inv r'"
    using HandleMessage_keeps [OF assms(1) i, of pid t payload] by (auto simp: returns_def keeps_def)
  then show ?case using Cons.IH i by (simp add: d Let_def)
qed (simp add: assms(2))

definition session_over :: "gostring \<Rightarrow> nat \<Rightarrow> room \<Rightarrow> bool" where
  "session_over pid conn r \<longleftrightarrow> conn \<in> set (closedConns r) \<and> (case map_of (Players (state r)) pid of
     None \<Rightarrow> True | Some p \<Rightarrow> p_Disconnected p \<and> map_of (connections r) pid = None)"

definition join_refused :: "gostring \<Rightarrow> nat \<Rightarrow> room \<Rightarrow> bool" where
  "join_refused pid conn r \<longleftrightarrow> conn \<in> set (closedConns r) \<and> map_of (connections r) pid = None"

lemma disconnect_over: "session_over pid conn (HandleDisconnect pid (close_conn conn r))"
  by (auto simp: session_over_def HandleDisconnect_def close_conn_def clearNicknameTimerLocked_def del_conn_def Now_def tick_env_def
      set_player_def MarkDisconnected_def Let_def split: option.split)

lemma refused_join: "HandleJoin pid conn r = Some (Some err, r') \<Longrightarrow> map_of (connections r') pid = None"
  by (auto simp: HandleJoin_def addNewPlayer_def close_conn_def del_conn_def Let_def bind_eq_Some_conv
      split: option.splits if_splits sum.splits prod.splits)

lemma RunSession_keeps:
  assumes "mathlib_ok ml" "\<And>k s. room_inv s \<Longrightarrow> room_inv (others k s)" "room_inv r"
  shows "returns (RunSession ml others pid conn ms r)
    (\<lambda>(e, r'). room_inv r' \<and> (if e = None then session_over pid conn r' else join_refused pid conn r'))"
proof -
  let ?r = "others (Suc (length ms)) r"
  have close: "room_inv (close_conn conn s)" if "room_inv s" for s using aux_inv [OF aux_simple(2) that] .
  have "room_inv ?r" by (rule assms(2) [OF assms(3)])
  then obtain e r1 where j: "HandleJoin pid conn ?r = Some (e, r1)" "room_inv r1"
    using HandleJoin_keeps [of ?r pid conn] by (auto simp: returns_def keeps_def)
  show ?thesis
  proof (cases e)
    case None
    have "room_inv (readPump ml others pid conn ms r1)" unfolding readPump_def
      by (rule quiet_inv [OF HandleDisconnect_quiet [OF close [OF read_messages_inv [OF assms(1,2) j(2)]]]])
    then show ?thesis using j None disconnect_over by (simp add: RunSession_def readPump_def)
  next
    case (Some err)
    then have "map_of (connections r1) pid = None" using refused_join j(1) by blast
    then show ?thesis using j Some close by (simp add: RunSession_def join_refused_def close_conn_def)
  qed
qed

text \<open>A room that has been closed and removed can still be joined by a request that looked it up before: the state of the
  room is queued for writing on the closed channel, and the join panics.\<close>

lemma closed_persist_panics:
  "hasStore r \<Longrightarrow> pm_started (persist r) \<Longrightarrow> pm_chClosed (persist r) \<Longrightarrow> SerializeState (state r) \<noteq> None \<Longrightarrow> requestPersist r = None"
  by (auto simp: requestPersist_def canPersist_def enqueuePersist_def pm_startLoop_def)

lemma join_closed_room_panics:
  assumes "hasStore r" "pm_started (persist r)" "pm_chClosed (persist r)" "ob_closed (outbound r)" "SerializeState (state r) \<noteq> None"
    and "map_of (Players (state r)) pid = Some p"
  shows "HandleJoin pid conn r = None"
proof -
  have float: "SerializeState (state (set_player pid q s)) = None \<longleftrightarrow> SerializeState (state s) = None" for q s
    by (simp add: SerializeState_def state_floats_def set_player_def)
  define bad where "bad s \<longleftrightarrow> hasStore s \<and> pm_started (persist s) \<and> pm_chClosed (persist s) \<and> ob_closed (outbound s)
    \<and> SerializeState (state s) \<noteq> None" for s :: room
  have frame: "bad s \<Longrightarrow> bad (tick_env s)" "bad s \<Longrightarrow> bad (set_conn k pc s)" "bad s \<Longrightarrow> bad (del_conn k s)" "bad s \<Longrightarrow> bad (close_conn c s)"
    "bad s \<Longrightarrow> bad (set_player pid q s)" "bad s \<Longrightarrow> requestPersist s = None" "bad s \<Longrightarrow> broadcast d x s = s" for s k pc c q d x
    using closed_persist_panics float
    by (auto simp: bad_def tick_env_def set_conn_def del_conn_def close_conn_def broadcast_def Enqueue_def) (simp_all add: set_player_def)
  have snap: "buildSnapshot s = Some (b, s') \<Longrightarrow> bad s \<Longrightarrow> bad s'" for s b s'
    using frame(1) by (auto simp: buildSnapshot_def Now_def split: bind_splits)
  have send: "sendToPlayer pid b s = Some s' \<Longrightarrow> bad s \<Longrightarrow> bad s'" for b s s'
    using frame(2) by (auto simp: sendToPlayer_def split: option.splits if_splits)
  have notify: "notifyJoin pid q s = None" if "bad s" for q s
  proof -
    have "notifyJoin pid q s = Some s' \<Longrightarrow> False" for s'
      using that snap send frame(6,7) by (auto simp: notifyJoin_def split: bind_splits)
    then show ?thesis by fastforce
  qed
  have recon: "reconnectPlayer pid q s = None" if "bad s" for q s
  proof -
    have "reconnectPlayer pid q s = Some s' \<Longrightarrow> False" for s'
      using frame(5) [OF that] snap send frame(6) by (auto simp: reconnectPlayer_def Let_def split: bind_splits)
    then show ?thesis by fastforce
  qed
  have "bad r" using assms by (simp add: bad_def)
  then have "bad (set_conn pid pc (closeExistingConnection pid pl r))" for pc pl
    using frame(2-4) by (auto simp: closeExistingConnection_def removeConnectionLocked_def split: option.split)
  then show ?thesis using notify recon assms(6) by (simp add: HandleJoin_def Let_def)
qed

section \<open>The requests\<close>

text \<open>
  Where the goroutine of a request is: before the load, between load and swap, refused with 503, after the swap,
  in the session, or finished. The release after the session is not deferred: a panic in \<^verbatim>\<open>HandleJoin\<close>, which
  nothing recovers before the server does, skips it (\<open>Panicked\<close>).
\<close>

datatype ws_pc = Arrived | Loaded int | Refused | Upgrading | InSession | Finished | Panicked

record ws_system =
  limiter :: ws_limiter
  requests :: "ws_pc list"

definition holds_slot :: "ws_pc \<Rightarrow> bool" where
  "holds_slot p \<longleftrightarrow> p = Upgrading \<or> p = InSession \<or> p = Panicked"

definition held :: "ws_system \<Rightarrow> nat" where
  "held s = length (filter holds_slot (requests s))"

definition refused :: "ws_system \<Rightarrow> nat" where
  "refused s = length (filter (\<lambda>p. p = Refused) (requests s))"

definition set_pc :: "nat \<Rightarrow> ws_pc \<Rightarrow> ws_system \<Rightarrow> ws_system" where
  "set_pc i p s = s\<lparr>requests := (requests s)[i := p]\<rparr>"

definition at_pc :: "nat \<Rightarrow> ws_pc \<Rightarrow> ws_system \<Rightarrow> bool" where
  "at_pc i p s \<longleftrightarrow> i < length (requests s) \<and> requests s ! i = p"

definition load_step :: "nat \<Rightarrow> ws_system \<Rightarrow> ws_system" where
  "load_step i s = set_pc i (case reserve_load (limiter s) of None \<Rightarrow> Refused | Some c \<Rightarrow> Loaded c) s"

definition cas_step :: "nat \<Rightarrow> int \<Rightarrow> ws_system \<Rightarrow> ws_system" where
  "cas_step i c s = (let (ok, w) = reserve_cas c (limiter s) in set_pc i (if ok then Upgrading else Arrived) (s\<lparr>limiter := w\<rparr>))"

definition release_step :: "nat \<Rightarrow> ws_system \<Rightarrow> ws_system" where
  "release_step i s = set_pc i Finished (s\<lparr>limiter := DecrementWSConnection (limiter s)\<rparr>)"

inductive ws_step :: "ws_system \<Rightarrow> ws_system \<Rightarrow> bool" where
  arrives: "ws_step s (s\<lparr>requests := requests s @ [Arrived]\<rparr>)"
| loads: "at_pc i Arrived s \<Longrightarrow> ws_step s (load_step i s)"
| swaps: "at_pc i (Loaded c) s \<Longrightarrow> ws_step s (cas_step i c s)"
| upgraded: "at_pc i Upgrading s \<Longrightarrow> ws_step s (set_pc i InSession s)"
| upgrade_fails: "at_pc i Upgrading s \<Longrightarrow> ws_step s (release_step i s)"
| session_ends: "at_pc i InSession s \<Longrightarrow> ws_step s (release_step i s)"
| session_panics: "at_pc i InSession s \<Longrightarrow> ws_step s (set_pc i Panicked s)"

inductive_cases ws_stepE: "ws_step s t"

definition ws_init :: "ws_system \<Rightarrow> bool" where
  "ws_init s \<longleftrightarrow> (\<exists>m > 0. limiter s = NewWSLimiter m) \<and> requests s = []"

definition ws_reachable :: "ws_system \<Rightarrow> bool" where
  "ws_reachable s \<longleftrightarrow> (\<exists>s0. ws_init s0 \<and> ws_step\<^sup>*\<^sup>* s0 s)"

section \<open>Invariant\<close>

lemma filter_list_update:
  "i < length xs \<Longrightarrow> length (filter P (xs[i := x])) + (if P (xs ! i) then 1 else 0) = length (filter P xs) + (if P x then 1 else 0)"
proof (induction xs arbitrary: i)
  case (Cons y ys)
  show ?case
  proof (cases i)
    case (Suc j)
    then show ?thesis using Cons.IH [of j] Cons.prems by (auto split: if_splits)
  qed auto
qed simp

lemma held_set_pc:
  "at_pc i p s \<Longrightarrow> held (set_pc i q s) + (if holds_slot p then 1 else 0) = held s + (if holds_slot q then 1 else 0)"
  using filter_list_update [of i "requests s" holds_slot q] by (simp add: at_pc_def held_def set_pc_def)

definition ws_inv :: "ws_system \<Rightarrow> bool" where
  "ws_inv s \<longleftrightarrow> wsConnCount (limiter s) = int (held s) \<and> wsConnCount (limiter s) \<le> maxWSConnections (limiter s)
     \<and> (\<forall>c. Loaded c \<in> set (requests s) \<longrightarrow> c < maxWSConnections (limiter s))"

lemma held_pos: "at_pc i p s \<Longrightarrow> holds_slot p \<Longrightarrow> 0 < held s"
  by (auto simp: held_def at_pc_def filter_empty_conv dest: nth_mem)

lemma requests_set_pc: "p \<in> set (requests (set_pc i q s)) \<Longrightarrow> p = q \<or> p \<in> set (requests s)"
  using set_update_subset_insert [of "requests s" i q] by (auto simp: set_pc_def)

lemma held_limiter [simp]: "held (s\<lparr>limiter := w\<rparr>) = held s" "refused (s\<lparr>limiter := w\<rparr>) = refused s" "set_pc i q (s\<lparr>limiter := w\<rparr>) = (set_pc i q s)\<lparr>limiter := w\<rparr>"
  by (simp_all add: held_def refused_def set_pc_def)

lemma limiter_set_pc [simp]: "limiter (set_pc i q s) = limiter s"
  by (simp add: set_pc_def)

lemma ws_step_inv:
  assumes "ws_inv s" "ws_step s t"
  shows "ws_inv t"
  using assms(2)
proof (cases rule: ws_step.cases)
  case arrives
  then show ?thesis using assms(1) by (auto simp: ws_inv_def held_def holds_slot_def)
next
  case (loads i)
  then show ?thesis using assms(1) held_set_pc [OF loads(2)]
    by (auto simp: ws_inv_def load_step_def reserve_load_def holds_slot_def dest: requests_set_pc split: option.splits if_splits)
next
  case (swaps i c)
  then have "c < maxWSConnections (limiter s)" using assms(1) by (auto simp: ws_inv_def at_pc_def dest: nth_mem)
  then show ?thesis using assms(1) held_set_pc [OF swaps(2)] swaps(1)
    by (auto simp: ws_inv_def cas_step_def reserve_cas_def holds_slot_def dest!: requests_set_pc)
next
  case (upgraded i)
  then show ?thesis using assms(1) held_set_pc [OF upgraded(2), of InSession] by (auto simp: ws_inv_def holds_slot_def dest: requests_set_pc)
next
  case (upgrade_fails i)
  then show ?thesis using assms(1) held_set_pc [OF upgrade_fails(2), of Finished]
    by (auto simp: ws_inv_def release_step_def DecrementWSConnection_def holds_slot_def dest: requests_set_pc)
next
  case (session_ends i)
  then show ?thesis using assms(1) held_set_pc [OF session_ends(2), of Finished]
    by (auto simp: ws_inv_def release_step_def DecrementWSConnection_def holds_slot_def dest: requests_set_pc)
next
  case (session_panics i)
  then show ?thesis using assms(1) held_set_pc [OF session_panics(2), of Panicked] by (auto simp: ws_inv_def holds_slot_def dest: requests_set_pc)
qed

lemma ws_step_limiter:
  assumes "ws_inv s" "ws_step s t"
  shows "limiter t = limiter s
    \<or> wsConnCount (limiter s) < maxWSConnections (limiter s) \<and> limiter t = (limiter s)\<lparr>wsConnCount := wsConnCount (limiter s) + 1\<rparr>
    \<or> 0 < wsConnCount (limiter s) \<and> limiter t = DecrementWSConnection (limiter s)"
  using assms(2)
proof (cases rule: ws_step.cases)
  case (swaps i c)
  then have "c < maxWSConnections (limiter s)" using assms(1) by (auto simp: ws_inv_def at_pc_def dest: nth_mem)
  then show ?thesis using swaps by (auto simp: cas_step_def reserve_cas_def)
qed (use assms(1) held_pos in \<open>auto simp: load_step_def release_step_def ws_inv_def holds_slot_def\<close>)

lemma refused_set_pc: "at_pc i p s \<Longrightarrow> p \<noteq> Refused \<Longrightarrow> q \<noteq> Refused \<Longrightarrow> refused (set_pc i q s) = refused s"
  using filter_list_update [of i "requests s" "\<lambda>p. p = Refused" q] by (simp add: at_pc_def refused_def set_pc_def)

lemma ws_step_refused: "ws_step s t \<Longrightarrow> CanAcceptWSConnection (limiter s) \<Longrightarrow> refused t = refused s"
proof (erule ws_step.cases)
  fix i s'
  assume "s = s'" "t = load_step i s'" "at_pc i Arrived s'" "CanAcceptWSConnection (limiter s)"
  then show ?thesis by (simp add: load_step_def reserve_load_def CanAcceptWSConnection_def refused_set_pc)
qed (auto simp: cas_step_def release_step_def reserve_cas_def refused_set_pc, simp add: refused_def)

interpretation ws: transition_system ws_init ws_step ws_inv
proof
  show "ws_init s \<Longrightarrow> ws_inv s" for s by (auto simp: ws_init_def ws_inv_def NewWSLimiter_def held_def)
  show "ws_inv s \<Longrightarrow> ws_step s t \<Longrightarrow> ws_inv t" for s t by (rule ws_step_inv)
qed

lemma ws_reachable_inv: "ws_reachable s \<Longrightarrow> ws_inv s"
  by (auto simp: ws_reachable_def intro: ws.reachable_inv)

section \<open>Properties\<close>

definition demo_ws :: ws_system where
  "demo_ws = \<lparr>limiter = NewWSLimiter 1, requests = []\<rparr>"

lemma demo_ws_reachable: "ws_reachable demo_ws"
proof -
  have "ws_init demo_ws" by (auto simp: ws_init_def demo_ws_def intro: exI [of _ 1])
  then show ?thesis by (auto simp: ws_reachable_def)
qed

text \<open>C12: Under every interleaving of requests the number of counted connections never exceeds the limit and is never
  negative; it is the number of requests that hold a slot, so once every request has been answered and no session
  has panicked, every slot is free again.\<close>

theorem ws_connections_bounded:
  assumes "ws_reachable s"
  shows "0 \<le> WSConnCount (limiter s) \<and> WSConnCount (limiter s) \<le> MaxWSConnections (limiter s)
    \<and> WSConnCount (limiter s) = int (held s)
    \<and> (set (requests s) \<subseteq> {Finished, Refused} \<longrightarrow> WSConnCount (limiter s) = 0)"
proof -
  have "set (requests s) \<subseteq> {Finished, Refused} \<Longrightarrow> held s = 0"
    by (auto simp: held_def holds_slot_def filter_empty_conv)
  then show ?thesis using ws_reachable_inv [OF assms] by (auto simp: ws_inv_def WSConnCount_def MaxWSConnections_def)
qed

theorem ws_connections_bounded_witness: "ws_reachable demo_ws \<and> WSConnCount (limiter demo_ws) = 0"
  using ws_connections_bounded [OF demo_ws_reachable] demo_ws_reachable by (simp add: demo_ws_def)

text \<open>The atomic specification: a counting semaphore.\<close>

inductive sem_step :: "int \<Rightarrow> int \<Rightarrow> int \<Rightarrow> bool" for m where
  acquire: "n < m \<Longrightarrow> sem_step m n (n + 1)"
| release: "0 < n \<Longrightarrow> sem_step m n (n - 1)"
| stutter: "sem_step m n n"

text \<open>C13: The limiter with its loads and swaps implements a counting semaphore: every step of any goroutine is an
  acquisition below the limit, a release, or leaves the count alone; a goroutine comes to hold a slot only in an
  acquisition, and it is refused only when all slots were taken.\<close>

theorem ws_limiter_refines_semaphore:
  assumes "ws_reachable s" "ws_step s t"
  shows "sem_step (MaxWSConnections (limiter s)) (WSConnCount (limiter s)) (WSConnCount (limiter t))
    \<and> MaxWSConnections (limiter t) = MaxWSConnections (limiter s)
    \<and> (held t > held s \<longrightarrow> WSConnCount (limiter t) = WSConnCount (limiter s) + 1)
    \<and> (refused t > refused s \<longrightarrow> WSConnCount (limiter s) = MaxWSConnections (limiter s))"
proof -
  have i: "ws_inv s" "ws_inv t" using ws_reachable_inv [OF assms(1)] ws_step_inv assms(2) by blast+
  have same: "maxWSConnections (limiter t) = maxWSConnections (limiter s)"
    "sem_step (maxWSConnections (limiter s)) (wsConnCount (limiter s)) (wsConnCount (limiter t))"
    using ws_step_limiter [OF i(1) assms(2)] by (auto simp: DecrementWSConnection_def intro: sem_step.intros)
  have "wsConnCount (limiter s) = maxWSConnections (limiter s)" if "refused t > refused s"
    using ws_step_refused [OF assms(2)] that i(1) by (force simp: CanAcceptWSConnection_def ws_inv_def)
  moreover have "wsConnCount (limiter t) = wsConnCount (limiter s) + 1" if "held t > held s"
    using same(2) that i by (cases rule: sem_step.cases) (auto simp: ws_inv_def)
  ultimately show ?thesis using same by (auto simp: WSConnCount_def MaxWSConnections_def)
qed

theorem ws_limiter_refines_semaphore_witness:
  "\<exists>t. ws_step demo_ws t \<and> sem_step 1 0 (WSConnCount (limiter t))"
proof -
  have "ws_step demo_ws (demo_ws\<lparr>requests := requests demo_ws @ [Arrived]\<rparr>)" by (rule ws_step.arrives)
  from this ws_limiter_refines_semaphore [OF demo_ws_reachable this] show ?thesis
    by (auto simp: demo_ws_def NewWSLimiter_def WSConnCount_def MaxWSConnections_def)
qed

text \<open>A reservation that is not disturbed takes a slot exactly when one is free, and releasing it restores the
  limiter.\<close>

lemma reserve_release:
  "TryReserveWSConnection w = (CanAcceptWSConnection w, if CanAcceptWSConnection w then w\<lparr>wsConnCount := wsConnCount w + 1\<rparr> else w)
    \<and> (if CanAcceptWSConnection w then DecrementWSConnection (snd (TryReserveWSConnection w)) = w else snd (TryReserveWSConnection w) = w)"
  by (auto simp: TryReserveWSConnection_def reserve_load_def reserve_cas_def CanAcceptWSConnection_def DecrementWSConnection_def)

text \<open>In an open room a session comes back whatever the client sends and whatever other operations of the room come between, so its
  slot is released; when it does, its connection is closed, and a player who is still in the room is marked as disconnected and has
  no connection.\<close>

theorem session_completes:
  assumes "mathlib_ok ml" "reachable ml s" "\<not> closed (sys_room s)" "\<And>k s. room_inv s \<Longrightarrow> room_inv (others k s)"
  shows "\<exists>e r'. RunSession ml others pid conn ms (sys_room s) = Some (e, r')
    \<and> (if e = None then session_over pid conn r' else join_refused pid conn r')"
proof -
  have "room_inv (sys_room s)" by (rule sys_inv_open [OF reachable_sys_inv [OF assms(1,2)] assms(3)])
  from RunSession_keeps [where others = others and pid = pid and conn = conn and ms = ms, OF assms(1,4) this] show ?thesis unfolding returns_def by blast
qed

theorem session_completes_witness:
  "\<exists>e r'. RunSession zero_math (\<lambda>k s. s) (str ''p1'') 1 [[1], []] demo_room = Some (e, r')"
  using session_completes [OF zero_math_ok demo_reachable demo_open, of "\<lambda>k s. s" "str ''p1''" 1 "[[1], []]"] by (auto simp: demo_system_def)

end
