(* ===== verification/Game_Repository.thy ===== *)
theory Game_Repository
  imports Room_State "HOL-Library.Multiset"
begin

text \<open>
  The PostgreSQL repositories of the game (\<^verbatim>\<open>store/game_repository.go\<close>, \<^verbatim>\<open>withRetry\<close> in \<^verbatim>\<open>store/postgres.go\<close>).

  \<^item> The tables are lists of rows; a statement is the function its SQL text denotes over the schema of
    \<^verbatim>\<open>src/backend/migrations\<close>, with its keys and checks; the widths of the columns are not modelled.
  \<^item> \<open>attempt\<close> is what the environment decides for one execution of a statement: it runs and its result is reported,
    it does not run, or it runs and the answer is lost. In the last two cases an error is reported, and the flag says
    whether \<^verbatim>\<open>MaybeRetryable\<close> takes it for a transient one. The retry policy and the circuit breaker are third-party
    code: \<open>db_budget\<close> is the number of retries that they grant to a call.
  \<^item> The collation of the database is the parameter \<open>clt\<close>, a strict order on strings (\<open>collation_ok\<close>).
  \<^item> The JSON text of a state is represented by the state it encodes (\<open>state_json\<close>); the sign of a zero, which
    \<^verbatim>\<open>jsonb\<close> does not keep, is not modelled.
\<close>

section \<open>Tables\<close>

datatype state_json = StateJSON game_state | BadJSON

record lobby_row =
  l_ID :: gostring
  l_Code :: gostring
  l_State :: state_json
  l_UpdatedAt :: int
  l_CreatedAt :: int

record session_row =
  gs_ID :: gostring
  gs_LobbyCode :: gostring
  gs_CreatedBy :: "gostring option"
  gs_Status :: gostring
  gs_StartedAt :: "int option"
  gs_EndedAt :: "int option"
  gs_FinalScore :: int

record result_row =
  res_ID :: gostring
  res_SessionID :: gostring
  res_UserID :: gostring
  res_Nickname :: gostring
  res_Score :: int
  res_Taps :: int
  res_CreatedAt :: int

record user_row =
  u_ID :: gostring
  u_Email :: gostring
  u_EmailHash :: "gostring option"
  u_Nickname :: gostring
  u_Palette :: int
  u_CreatedAt :: int
  u_LastLogin :: "int option"
  u_DeletedAt :: "int option"
  u_EmailAnonymized :: bool

datatype outbox_payload = UserCreated gostring gostring gostring int | AnonymizedPayload

record outbox_row =
  ox_AggregateType :: gostring
  ox_AggregateID :: gostring
  ox_Payload :: outbox_payload
  ox_ProcessedAt :: "int option"

datatype config_value = CNull | CBool bool | CStr gostring | COther

datatype config_json = NullJSON | ConfigJSON "(gostring \<times> config_value) list" | NotObject

record config_row =
  ac_ID :: gostring
  ac_Config :: config_json
  ac_UpdatedAt :: int

record tables =
  users :: "user_row list"
  lobby_states :: "lobby_row list"
  game_sessions :: "session_row list"
  game_results :: "result_row list"
  outbox_events :: "outbox_row list"
  admin_config :: "config_row list"
  reltuples :: int

datatype db_error = Unavailable | Violation | MalformedCursor | Duplicate

datatype attempt = Runs | Fails bool | Lost bool

record database =
  db :: tables
  db_attempts :: "nat \<Rightarrow> attempt"
  db_budget :: "nat \<Rightarrow> nat"
  db_pos :: nat

section \<open>Retries\<close>

type_synonym 'a stmt = "tables \<Rightarrow> (db_error + 'a) \<times> tables"

definition db_tick :: "database \<Rightarrow> database" where
  "db_tick d = d\<lparr>db_pos := Suc (db_pos d)\<rparr>"

fun retry_loop :: "nat \<Rightarrow> 'a stmt \<Rightarrow> database \<Rightarrow> (db_error + 'a) \<times> database" where
  "retry_loop n f d = (case db_attempts d (db_pos d) of
       Runs \<Rightarrow> let (res, t) = f (db d) in (res, (db_tick d)\<lparr>db := t\<rparr>)
     | Fails transient \<Rightarrow> if transient \<and> n > 0 then retry_loop (n - 1) f (db_tick d) else (Inl Unavailable, db_tick d)
     | Lost transient \<Rightarrow>
         let d = (db_tick d)\<lparr>db := snd (f (db d))\<rparr>
         in if transient \<and> n > 0 then retry_loop (n - 1) f d else (Inl Unavailable, d))"

declare retry_loop.simps [simp del]

definition withRetry :: "'a stmt \<Rightarrow> database \<Rightarrow> (db_error + 'a) \<times> database" where
  "withRetry f d = retry_loop (db_budget d (db_pos d)) f d"

text \<open>A statement may be executed several times. What its callers rely on is that a second execution changes nothing
  and reports the same.\<close>

locale repeatable =
  fixes stmt :: "'a stmt"
  assumes again: "stmt (snd (stmt t)) = stmt t"
begin

lemma retry_loop_once:
  "retry_loop n stmt d = (res, d') \<Longrightarrow>
    (case res of Inr a \<Rightarrow> stmt (db d) = (Inr a, db d') | Inl e \<Rightarrow> db d' = db d \<or> db d' = snd (stmt (db d)))"
proof (induction n arbitrary: d)
  case (0 d)
  then show ?case
    by (cases "db_attempts d (db_pos d)") (auto simp: retry_loop.simps [of 0] db_tick_def Let_def split_def prod_eq_iff split: sum.split)
next
  case (Suc n d)
  show ?case
  proof (cases "db_attempts d (db_pos d)")
    case Runs
    then show ?thesis using Suc.prems by (auto simp: retry_loop.simps [of "Suc n"] Let_def split_def prod_eq_iff split: sum.split)
  next
    case (Fails b)
    then show ?thesis using Suc.prems Suc.IH [of "db_tick d"]
      by (auto simp: retry_loop.simps [of "Suc n"] db_tick_def split: if_splits sum.splits)
  next
    case (Lost b)
    then show ?thesis using Suc.prems Suc.IH [of "(db_tick d)\<lparr>db := snd (stmt (db d))\<rparr>"] again
      by (auto simp: retry_loop.simps [of "Suc n"] db_tick_def Let_def split: if_splits sum.splits)
  qed
qed

lemma withRetry_once:
  assumes "withRetry stmt d = (res, d')"
  shows "(case res of Inr a \<Rightarrow> stmt (db d) = (Inr a, db d') | Inl e \<Rightarrow> db d' = db d \<or> db d' = snd (stmt (db d)))"
  using retry_loop_once assms by (simp add: withRetry_def)

end

section \<open>Lobby states\<close>

text \<open>\<^verbatim>\<open>INSERT ... ON CONFLICT (code) DO UPDATE\<close>: the primary key and the length check can refuse a new row.\<close>

definition lobby_code_ok :: "gostring \<Rightarrow> bool" where
  "lobby_code_ok code \<longleftrightarrow> 0 < rune_count code \<and> rune_count code \<le> 10"

definition upsert_lobby :: "lobby_row \<Rightarrow> unit stmt" where
  "upsert_lobby ls t =
     (if \<not> lobby_code_ok (l_Code ls) then (Inl Violation, t)
      else if list_ex (\<lambda>r. l_Code r = l_Code ls) (lobby_states t)
      then (Inr (), t\<lparr>lobby_states := map (\<lambda>r. if l_Code r = l_Code ls
              then r\<lparr>l_State := l_State ls, l_UpdatedAt := l_UpdatedAt ls\<rparr> else r) (lobby_states t)\<rparr>)
      else if list_ex (\<lambda>r. l_ID r = l_ID ls) (lobby_states t) then (Inl Violation, t)
      else (Inr (), t\<lparr>lobby_states := lobby_states t @ [ls]\<rparr>))"

definition select_lobby :: "gostring \<Rightarrow> lobby_row option stmt" where
  "select_lobby code t = (Inr (find (\<lambda>r. l_Code r = code) (lobby_states t)), t)"

definition delete_lobby :: "gostring \<Rightarrow> unit stmt" where
  "delete_lobby code t = (Inr (), t\<lparr>lobby_states := filter (\<lambda>r. l_Code r \<noteq> code) (lobby_states t)\<rparr>)"

definition SaveLobbyState :: "lobby_row \<Rightarrow> database \<Rightarrow> (db_error + unit) \<times> database" where
  "SaveLobbyState ls d = withRetry (upsert_lobby ls) d"

definition LoadLobbyState :: "gostring \<Rightarrow> database \<Rightarrow> (db_error + lobby_row option) \<times> database" where
  "LoadLobbyState code d = withRetry (select_lobby code) d"

definition DeleteLobbyState :: "gostring \<Rightarrow> database \<Rightarrow> (db_error + unit) \<times> database" where
  "DeleteLobbyState code d = withRetry (delete_lobby code) d"

section \<open>Cursors\<close>

text \<open>\<^verbatim>\<open>fmt.Sscanf\<close> with \<^verbatim>\<open>%d\<close> into an \<^verbatim>\<open>int64\<close>: space is skipped (a newline is an error), then a sign and at least one
  digit; what follows the digits is ignored; a number that does not fit is an error.\<close>

fun skip_space :: "(nat \<times> gostring) list \<Rightarrow> gostring option" where
  "skip_space [] = Some []"
| "skip_space ((r, s) # ss) =
     (if r = 0x0A then None else if unicode_space r then skip_space ss else Some (concat (map snd ((r, s) # ss))))"

definition is_digit :: "byte \<Rightarrow> bool" where
  "is_digit b \<longleftrightarrow> 48 \<le> unat b \<and> unat b \<le> 57"

definition digits_value :: "gostring \<Rightarrow> int" where
  "digits_value ds = fold (\<lambda>d n. 10 * n + (int (unat d) - 48)) ds 0"

definition scan_int64 :: "gostring \<Rightarrow> int option" where
  "scan_int64 s = (case skip_space (segs s) of
       None \<Rightarrow> None
     | Some s \<Rightarrow>
         let neg = (s \<noteq> [] \<and> hd s = 45); s = (if s \<noteq> [] \<and> (hd s = 45 \<or> hd s = 43) then tl s else s);
             ds = takeWhile is_digit s; n = (if neg then - digits_value ds else digits_value ds)
         in if ds = [] \<or> n < - (2 ^ 63) \<or> n \<ge> 2 ^ 63 then None else Some n)"

text \<open>\<^verbatim>\<open>strings.SplitN(cursor, "|", 2)\<close> has two parts exactly when there is a bar.\<close>

definition bar :: byte where "bar = 124"

definition parseLobbyCursor :: "gostring \<Rightarrow> db_error + int \<times> gostring" where
  "parseLobbyCursor cursor =
     (if cursor = [] then Inr (0, [])
      else if bar \<notin> set cursor then Inl MalformedCursor
      else let p0 = takeWhile (\<lambda>b. b \<noteq> bar) cursor; p1 = drop (Suc (length p0)) cursor
           in case scan_int64 p0 of
                None \<Rightarrow> Inl MalformedCursor
              | Some n \<Rightarrow> if n \<le> 0 \<or> p1 = [] then Inl MalformedCursor else Inr (n, p1))"

text \<open>\<^verbatim>\<open>fmt.Sprintf("%d|%s", ...)\<close>\<close>

definition Sprint_int :: "int \<Rightarrow> gostring" where
  "Sprint_int n = (if n < 0 then [45] @ Itoa (nat (- n)) else Itoa (nat n))"

definition lobby_cursor :: "lobby_row \<Rightarrow> gostring" where
  "lobby_cursor r = Sprint_int (l_UpdatedAt r) @ [bar] @ l_Code r"

section \<open>Listing\<close>

record lobby_list_result =
  Lobbies :: "lobby_row list"
  Total :: int
  HasMore :: bool
  NextCursor :: gostring

type_synonym collation = "gostring \<Rightarrow> gostring \<Rightarrow> bool"

definition key_less :: "collation \<Rightarrow> int \<times> gostring \<Rightarrow> int \<times> gostring \<Rightarrow> bool" where
  "key_less clt a b \<longleftrightarrow> fst a < fst b \<or> fst a = fst b \<and> clt (snd a) (snd b)"

definition row_key :: "lobby_row \<Rightarrow> int \<times> gostring" where
  "row_key r = (l_UpdatedAt r, l_Code r)"

text \<open>\<^verbatim>\<open>ORDER BY updated_at DESC, code DESC\<close>\<close>

fun insert_desc :: "collation \<Rightarrow> lobby_row \<Rightarrow> lobby_row list \<Rightarrow> lobby_row list" where
  "insert_desc clt r [] = [r]"
| "insert_desc clt r (x # xs) = (if key_less clt (row_key r) (row_key x) then x # insert_desc clt r xs else r # x # xs)"

definition sort_desc :: "collation \<Rightarrow> lobby_row list \<Rightarrow> lobby_row list" where
  "sort_desc clt rows = foldr (insert_desc clt) rows []"

definition queryLobbies :: "collation \<Rightarrow> nat \<Rightarrow> int \<Rightarrow> gostring \<Rightarrow> lobby_row list stmt" where
  "queryLobbies clt fetchLimit cursorUpdatedAt cursorCode t =
     (if cursorUpdatedAt > 0
      then (Inr (take fetchLimit (sort_desc clt (filter (\<lambda>r. key_less clt (row_key r) (cursorUpdatedAt, cursorCode)) (lobby_states t)))), t)
      else (Inr (take fetchLimit (sort_desc clt (lobby_states t))), t))"

definition countAllLobbies :: "database \<Rightarrow> (db_error + int) \<times> database" where
  "countAllLobbies d = withRetry (\<lambda>t. (Inr (reltuples t), t)) d"

definition fetchLobbiesPage :: "collation \<Rightarrow> nat \<Rightarrow> int \<Rightarrow> gostring \<Rightarrow> database \<Rightarrow> (db_error + lobby_row list) \<times> database" where
  "fetchLobbiesPage clt fetchLimit u c d = withRetry (queryLobbies clt fetchLimit u c) d"

definition buildLobbyListResult :: "lobby_row list \<Rightarrow> int \<Rightarrow> nat \<Rightarrow> lobby_list_result" where
  "buildLobbyListResult lobbies n limit =
     (let hasMore = length lobbies > limit; lobbies = (if hasMore then take limit lobbies else lobbies);
          nextCursor = (if hasMore \<and> lobbies \<noteq> [] then lobby_cursor (last lobbies) else [])
      in \<lparr>Lobbies = lobbies, Total = n, HasMore = hasMore, NextCursor = nextCursor\<rparr>)"

definition clamp_limit :: "int \<Rightarrow> nat" where
  "clamp_limit limit = nat (if limit \<le> 0 then 50 else if limit > 100 then 100 else limit)"

definition LoadAllActiveLobbies ::
    "collation \<Rightarrow> int \<Rightarrow> gostring \<Rightarrow> database \<Rightarrow> (db_error + lobby_list_result) \<times> database" where
  "LoadAllActiveLobbies clt limit cursor d =
     (let limit = clamp_limit limit
      in case parseLobbyCursor cursor of
           Inl e \<Rightarrow> (Inl e, d)
         | Inr (u, c) \<Rightarrow>
             (case countAllLobbies d of
                (Inl e, d) \<Rightarrow> (Inl e, d)
              | (Inr n, d) \<Rightarrow>
                  (case fetchLobbiesPage clt (limit + 1) u c d of
                     (Inl e, d) \<Rightarrow> (Inl e, d)
                   | (Inr lobbies, d) \<Rightarrow> (Inr (buildLobbyListResult lobbies n limit), d))))"

section \<open>Results\<close>

text \<open>\<^verbatim>\<open>uuid.NewSHA1\<close> over the namespace of the source is the parameter \<open>uuid5\<close>.\<close>

definition insert_session :: "session_row \<Rightarrow> unit stmt" where
  "insert_session gs t =
     (if list_ex (\<lambda>r. gs_ID r = gs_ID gs) (game_sessions t) then (Inl Violation, t)
      else if gs_CreatedBy gs \<noteq> None \<and> the (gs_CreatedBy gs) \<notin> u_ID ` set (users t) then (Inl Violation, t)
      else if gs_Status gs \<noteq> str ''active'' \<and> gs_Status gs \<noteq> str ''ended'' then (Inl Violation, t)
      else (Inr (), t\<lparr>game_sessions := game_sessions t @ [gs]\<rparr>))"

definition CreateGameSessionRow :: "session_row \<Rightarrow> database \<Rightarrow> (db_error + unit) \<times> database" where
  "CreateGameSessionRow gs d = withRetry (insert_session gs) d"

definition upsert_session :: "gostring \<Rightarrow> gostring \<Rightarrow> int \<Rightarrow> int \<Rightarrow> session_row list \<Rightarrow> session_row list" where
  "upsert_session sid code endedAt score rows =
     (if list_ex (\<lambda>r. gs_ID r = sid) rows
      then map (\<lambda>r. if gs_ID r = sid then r\<lparr>gs_Status := str ''ended'', gs_EndedAt := Some endedAt, gs_FinalScore := score\<rparr> else r) rows
      else rows @ [\<lparr>gs_ID = sid, gs_LobbyCode = code, gs_CreatedBy = None, gs_Status = str ''ended'',
                    gs_StartedAt = None, gs_EndedAt = Some endedAt, gs_FinalScore = score\<rparr>])"

definition result_row_of :: "(gostring \<Rightarrow> gostring) \<Rightarrow> gostring \<Rightarrow> int \<Rightarrow> game_result_player \<Rightarrow> result_row" where
  "result_row_of uuid5 sid endedAt pr =
     \<lparr>res_ID = uuid5 (sid @ [0] @ gr_UserID pr), res_SessionID = sid, res_UserID = gr_UserID pr, res_Nickname = gr_Nickname pr,
      res_Score = gr_ScoreContribution pr, res_Taps = gr_TapsCount pr, res_CreatedAt = endedAt\<rparr>"

text \<open>\<^verbatim>\<open>ON CONFLICT (id) DO NOTHING\<close>, row by row.\<close>

definition insert_result :: "result_row \<Rightarrow> result_row list \<Rightarrow> result_row list" where
  "insert_result r rows = (if list_ex (\<lambda>x. res_ID x = res_ID r) rows then rows else rows @ [r])"

text \<open>The transaction: the checks apply to every row, the foreign key to the rows that are inserted; when one fails,
  everything is rolled back.\<close>

definition record_result :: "(gostring \<Rightarrow> gostring) \<Rightarrow> gostring \<Rightarrow> gostring \<Rightarrow> int \<Rightarrow> int \<Rightarrow> game_result_player list \<Rightarrow> unit stmt" where
  "record_result uuid5 sid code endedAt score results t =
     (let rows = map (result_row_of uuid5 sid endedAt) results
      in if \<not> list_all (\<lambda>r. 0 \<le> res_Score r \<and> 0 \<le> res_Taps r) rows
            \<or> \<not> list_all (\<lambda>r. res_UserID r \<in> u_ID ` set (users t) \<or> list_ex (\<lambda>x. res_ID x = res_ID r) (game_results t)) rows
         then (Inl Violation, t)
         else (Inr (), t\<lparr>game_sessions := upsert_session sid code endedAt score (game_sessions t),
                         game_results := fold insert_result rows (game_results t)\<rparr>))"

definition RecordGameResultTx ::
    "(gostring \<Rightarrow> gostring) \<Rightarrow> gostring \<Rightarrow> gostring \<Rightarrow> int \<Rightarrow> int \<Rightarrow> game_result_player list \<Rightarrow> database \<Rightarrow> (db_error + unit) \<times> database" where
  "RecordGameResultTx uuid5 sid code endedAt score results d = withRetry (record_result uuid5 sid code endedAt score results) d"

text \<open>\<^verbatim>\<open>InsertSeedGameResult\<close>: one row, which has no nickname.\<close>

definition insert_seed :: "result_row \<Rightarrow> unit stmt" where
  "insert_seed r t =
     (if \<not> (0 \<le> res_Score r \<and> 0 \<le> res_Taps r) then (Inl Violation, t)
      else if list_ex (\<lambda>x. res_ID x = res_ID r) (game_results t) then (Inr (), t)
      else if res_UserID r \<notin> u_ID ` set (users t) \<or> \<not> list_ex (\<lambda>x. gs_ID x = res_SessionID r) (game_sessions t) then (Inl Violation, t)
      else (Inr (), t\<lparr>game_results := game_results t @ [r\<lparr>res_Nickname := []\<rparr>]\<rparr>))"

definition InsertSeedGameResult :: "result_row \<Rightarrow> database \<Rightarrow> (db_error + unit) \<times> database" where
  "InsertSeedGameResult r d = withRetry (insert_seed r) d"

section \<open>Leaderboard and statistics\<close>

record leaderboard_entry =
  e_Rank :: int
  e_Score :: int
  e_Name :: gostring
  e_EndedAt :: int

text \<open>The rows of the query: results with a positive score of sessions that have ended, not older than the cutoff for the
  scope \<^verbatim>\<open>weekly\<close>, grouped by user and nickname.\<close>

type_synonym board_row = "(gostring \<times> gostring) \<times> int \<times> int"

definition session_ended :: "tables \<Rightarrow> result_row \<Rightarrow> bool" where
  "session_ended t r \<longleftrightarrow> list_ex (\<lambda>gs. gs_ID gs = res_SessionID r \<and> gs_Status gs = str ''ended'') (game_sessions t)"

definition add_best :: "result_row \<Rightarrow> board_row list \<Rightarrow> board_row list" where
  "add_best r al =
     (let k = (res_UserID r, res_Nickname r)
      in case map_of al k of
           None \<Rightarrow> al @ [(k, res_Score r, res_CreatedAt r)]
         | Some (s, a) \<Rightarrow> AList.update k (max s (res_Score r), max a (res_CreatedAt r)) al)"

definition leaderboardQuery :: "int \<Rightarrow> gostring \<Rightarrow> nat \<Rightarrow> board_row list stmt" where
  "leaderboardQuery now scope limit t =
     (let cutoff = now - 7 * 24 * 3600 * 1000;
          rows = filter (\<lambda>r. session_ended t r \<and> res_Score r > 0 \<and> (scope = str ''weekly'' \<longrightarrow> res_CreatedAt r \<ge> cutoff)) (game_results t);
          groups = fold add_best rows []
      in (Inr (take limit (sort_key (\<lambda>(k, s, a). - s) (sort_key (\<lambda>(k, s, a). a) groups))), t))"

fun scanLeaderboardRows :: "int \<Rightarrow> board_row list \<Rightarrow> leaderboard_entry list" where
  "scanLeaderboardRows rank [] = []"
| "scanLeaderboardRows rank (((uid, nick), s, a) # rows) =
     \<lparr>e_Rank = rank, e_Score = s, e_Name = (if nick = [] then uid else nick), e_EndedAt = a\<rparr> # scanLeaderboardRows (rank + 1) rows"

definition GetLeaderboard :: "int \<Rightarrow> gostring \<Rightarrow> int \<Rightarrow> database \<Rightarrow> (db_error + leaderboard_entry list) \<times> database" where
  "GetLeaderboard now scope limit d =
     (let limit = nat (if limit \<le> 0 \<or> limit > 100 then 50 else limit)
      in case withRetry (leaderboardQuery now scope limit) d of
           (Inl e, d) \<Rightarrow> (Inl e, d)
         | (Inr rows, d) \<Rightarrow> (Inr (scanLeaderboardRows 1 rows), d))"

definition GetUserBestScore :: "gostring \<Rightarrow> database \<Rightarrow> (db_error + int \<times> int) \<times> database" where
  "GetUserBestScore uid d = withRetry (\<lambda>t.
     let rows = filter (\<lambda>r. res_UserID r = uid) (game_results t)
     in (Inr (if rows = [] then 0 else fold max (map res_Score (tl rows)) (res_Score (hd rows)), int (length rows)), t)) d"

definition GetBestScore :: "database \<Rightarrow> (db_error + int) \<times> database" where
  "GetBestScore d = withRetry (\<lambda>t.
     let rows = game_results t
     in (Inr (if rows = [] then 0 else fold max (map res_Score (tl rows)) (res_Score (hd rows))), t)) d"

text \<open>Midnight UTC is the last multiple of a day.\<close>

definition GetGamesTodayCount :: "int \<Rightarrow> database \<Rightarrow> (db_error + int) \<times> database" where
  "GetGamesTodayCount now d =
     (let startOfDay = now div (24 * 3600 * 1000) * (24 * 3600 * 1000)
      in withRetry (\<lambda>t. (Inr (int (length (filter (\<lambda>gs. case gs_StartedAt gs of None \<Rightarrow> False | Some s \<Rightarrow> s \<ge> startOfDay)
           (game_sessions t)))), t)) d)"

section \<open>Statements may be repeated\<close>

text \<open>An update keyed on a column that it leaves alone.\<close>

lemma keyed_update:
  assumes "\<And>x. k (g x) = k x" "\<And>x. g (g x) = g x"
  shows "list_ex (\<lambda>x. k x = c) (map (\<lambda>x. if k x = c then g x else x) xs) = list_ex (\<lambda>x. k x = c) xs"
    "map (\<lambda>x. if k x = c then g x else x) (map (\<lambda>x. if k x = c then g x else x) xs) = map (\<lambda>x. if k x = c then g x else x) xs"
  using assms by (induction xs) simp_all

lemma upsert_lobby_again: "upsert_lobby ls (snd (upsert_lobby ls t)) = upsert_lobby ls t"
proof -
  let ?g = "\<lambda>r. r\<lparr>l_State := l_State ls, l_UpdatedAt := l_UpdatedAt ls\<rparr>"
  note upd = keyed_update [of l_Code ?g "l_Code ls" "lobby_states t"]
  consider "\<not> lobby_code_ok (l_Code ls)" | "lobby_code_ok (l_Code ls)" "list_ex (\<lambda>r. l_Code r = l_Code ls) (lobby_states t)"
    | "lobby_code_ok (l_Code ls)" "\<not> list_ex (\<lambda>r. l_Code r = l_Code ls) (lobby_states t)" by blast
  then show ?thesis
  proof cases
    case 2
    then show ?thesis using upd by (simp add: upsert_lobby_def del: map_map)
  next
    case 3
    have "map (\<lambda>r. if l_Code r = l_Code ls then ?g r else r) (lobby_states t @ [ls]) = lobby_states t @ [ls]"
      using 3(2) by (auto simp: list_ex_iff intro: map_idI)
    then show ?thesis using 3 by (simp add: upsert_lobby_def)
  qed (simp add: upsert_lobby_def)
qed

lemma upsert_session_again:
  "upsert_session sid code e score (upsert_session sid code e score rows) = upsert_session sid code e score rows"
proof -
  let ?g = "\<lambda>r. r\<lparr>gs_Status := str ''ended'', gs_EndedAt := Some e, gs_FinalScore := score\<rparr>"
  note upd = keyed_update [of gs_ID ?g sid rows]
  show ?thesis
  proof (cases "list_ex (\<lambda>r. gs_ID r = sid) rows")
    case True
    then show ?thesis using upd by (simp add: upsert_session_def del: map_map)
  next
    case False
    then have "map (\<lambda>r. if gs_ID r = sid then ?g r else r) rows = rows" by (auto simp: list_ex_iff intro: map_idI)
    then show ?thesis using False by (simp add: upsert_session_def)
  qed
qed

lemma insert_result_ids: "x \<in> set rows \<Longrightarrow> x \<in> set (fold insert_result rs rows)"
  by (induction rs arbitrary: rows) (auto simp: insert_result_def)

lemma fold_insert_present:
  "(\<And>r. r \<in> set rs \<Longrightarrow> list_ex (\<lambda>x. res_ID x = res_ID r) rows) \<Longrightarrow> fold insert_result rs rows = rows"
  by (induction rs) (auto simp: insert_result_def)

lemma fold_insert_has: "r \<in> set rs \<Longrightarrow> list_ex (\<lambda>x. res_ID x = res_ID r) (fold insert_result rs rows)"
proof (induction rs arbitrary: rows)
  case (Cons a rs)
  have "list_ex (\<lambda>x. res_ID x = res_ID a) (insert_result a rows)" by (auto simp: insert_result_def)
  then have "list_ex (\<lambda>x. res_ID x = res_ID a) (fold insert_result rs (insert_result a rows))"
    using insert_result_ids by (fastforce simp: list_ex_iff)
  then show ?case using Cons by auto
qed simp

lemma record_result_again: "record_result u sid code e score rs (snd (record_result u sid code e score rs t)) = record_result u sid code e score rs t"
proof (cases "fst (record_result u sid code e score rs t)")
  case (Inl err)
  then have "snd (record_result u sid code e score rs t) = t" by (auto simp: record_result_def Let_def split: if_splits)
  then show ?thesis by simp
next
  case (Inr a)
  let ?rows = "map (result_row_of u sid e) rs"
  have ok: "list_all (\<lambda>r. 0 \<le> res_Score r \<and> 0 \<le> res_Taps r) ?rows"
    and t: "snd (record_result u sid code e score rs t) = t\<lparr>game_sessions := upsert_session sid code e score (game_sessions t),
      game_results := fold insert_result ?rows (game_results t)\<rparr>"
    using Inr by (auto simp: record_result_def Let_def split: if_splits)
  have "fold insert_result ?rows (fold insert_result ?rows (game_results t)) = fold insert_result ?rows (game_results t)"
    by (rule fold_insert_present) (rule fold_insert_has)
  moreover have "list_all (\<lambda>r. res_UserID r \<in> users' \<or> list_ex (\<lambda>x. res_ID x = res_ID r) (fold insert_result ?rows (game_results t))) ?rows" for users'
    using fold_insert_has by (auto simp: list_all_iff)
  moreover have "fst (record_result u sid code e score rs t) = Inr ()" using Inr by simp
  ultimately show ?thesis
    using ok t unfolding record_result_def Let_def by (simp add: upsert_session_again prod_eq_iff)
qed

interpretation save: repeatable "upsert_lobby ls" for ls
  by unfold_locales (rule upsert_lobby_again)

interpretation load: repeatable "select_lobby code" for code
  by unfold_locales (simp add: select_lobby_def)

interpretation remove: repeatable "delete_lobby code" for code
  by unfold_locales (simp add: delete_lobby_def)

interpretation estimate: repeatable "\<lambda>t. (Inr (reltuples t), t)"
  by unfold_locales simp

interpretation page: repeatable "queryLobbies clt n u c" for clt n u c
  by unfold_locales (simp add: queryLobbies_def)

interpretation board: repeatable "leaderboardQuery now scope n" for now scope n
  by unfold_locales (simp add: leaderboardQuery_def Let_def)

interpretation results: repeatable "record_result u sid code e score rs" for u sid code e score rs
  by unfold_locales (rule record_result_again)

end
