(* ===== verification/Redis_Cache.thy ===== *)
theory Redis_Cache
  imports Game_Repository
begin

text \<open>
  The room registry and the read caches in Redis (\<^verbatim>\<open>RoomRegistryStore\<close>, \<^verbatim>\<open>LobbyReadCacheStore\<close> in \<^verbatim>\<open>store/redis.go\<close>), the
  interface \<^verbatim>\<open>CacheStore\<close> of \<^verbatim>\<open>game/state.go\<close>.

  \<^item> The key space is an association list; a command is the function it denotes on it. JSON text is represented by the
    value it encodes.
  \<^item> As for the database, \<open>attempt\<close> says what happens to one command: it runs, it fails, or it runs and the answer is
    lost. A command that the circuit breaker refuses has failed.
  \<^item> Keys expire when their time is over; \<open>expire\<close> removes one, and may happen at any time.
\<close>

section \<open>Commands\<close>

record room_info =
  ri_Code :: gostring
  ri_Phase :: phase
  ri_PlayerCount :: int
  ri_CreatedAt :: int

record registry_info =
  reg_Code :: gostring
  reg_Instance :: gostring
  reg_Address :: gostring
  reg_CreatedAt :: int

datatype json_value = JNull | JInfo room_info | JLobbies lobby_list_result | JRegistry registry_info | JOther

datatype redis_value = RString json_value | RSet "gostring list"

datatype redis_error = RedisDown | WrongType | BadData | NilReply

type_synonym keyspace = "(gostring \<times> redis_value) list"
type_synonym 'a rcmd = "keyspace \<Rightarrow> (redis_error + 'a) \<times> keyspace"

record redis =
  kv :: keyspace
  rd_attempts :: "nat \<Rightarrow> attempt"
  rd_pos :: nat

definition exec :: "'a rcmd \<Rightarrow> redis \<Rightarrow> (redis_error + 'a) \<times> redis" where
  "exec f rd =
     (let rd' = rd\<lparr>rd_pos := Suc (rd_pos rd)\<rparr>
      in case rd_attempts rd (rd_pos rd) of
           Runs \<Rightarrow> (fst (f (kv rd)), rd'\<lparr>kv := snd (f (kv rd))\<rparr>)
         | Fails _ \<Rightarrow> (Inl RedisDown, rd')
         | Lost _ \<Rightarrow> (Inl RedisDown, rd'\<lparr>kv := snd (f (kv rd))\<rparr>))"

definition r_get :: "gostring \<Rightarrow> json_value option rcmd" where
  "r_get k s = (case map_of s k of
       None \<Rightarrow> (Inr None, s) | Some (RString v) \<Rightarrow> (Inr (Some v), s) | Some (RSet _) \<Rightarrow> (Inl WrongType, s))"

definition r_set :: "gostring \<Rightarrow> json_value \<Rightarrow> unit rcmd" where
  "r_set k v s = (Inr (), AList.update k (RString v) s)"

definition r_del :: "gostring list \<Rightarrow> unit rcmd" where
  "r_del ks s = (Inr (), filter (\<lambda>(k, v). k \<notin> set ks) s)"

definition r_sadd :: "gostring \<Rightarrow> gostring \<Rightarrow> unit rcmd" where
  "r_sadd k m s = (case map_of s k of
       None \<Rightarrow> (Inr (), AList.update k (RSet [m]) s)
     | Some (RSet ms) \<Rightarrow> (Inr (), AList.update k (RSet (List.insert m ms)) s)
     | Some (RString _) \<Rightarrow> (Inl WrongType, s))"

text \<open>A set that becomes empty is deleted.\<close>

definition r_srem :: "gostring \<Rightarrow> gostring \<Rightarrow> unit rcmd" where
  "r_srem k m s = (case map_of s k of
       None \<Rightarrow> (Inr (), s)
     | Some (RSet ms) \<Rightarrow>
         (Inr (), if remove1 m ms = [] then AList.delete k s else AList.update k (RSet (remove1 m ms)) s)
     | Some (RString _) \<Rightarrow> (Inl WrongType, s))"

definition expire :: "gostring \<Rightarrow> redis \<Rightarrow> redis" where
  "expire k rd = rd\<lparr>kv := AList.delete k (kv rd)\<rparr>"

section \<open>Room registry\<close>

definition roomInfoKey :: "gostring \<Rightarrow> gostring" where
  "roomInfoKey code = str ''room:'' @ code"

definition roomIndexKey :: gostring where
  "roomIndexKey = str ''room:index''"

definition RegisterRoom :: "gostring \<Rightarrow> registry_info \<Rightarrow> redis \<Rightarrow> (redis_error + unit) \<times> redis" where
  "RegisterRoom code info rd = (case exec (r_set (roomInfoKey code) (JRegistry info)) rd of
       (Inl e, rd) \<Rightarrow> (Inl e, rd)
     | (Inr _, rd) \<Rightarrow> exec (r_sadd roomIndexKey code) rd)"

definition UnregisterRoom :: "gostring \<Rightarrow> redis \<Rightarrow> (redis_error + unit) \<times> redis" where
  "UnregisterRoom code rd = (case exec (r_del [roomInfoKey code]) rd of
       (Inl e, rd) \<Rightarrow> (Inl e, rd)
     | (Inr _, rd) \<Rightarrow> exec (r_srem roomIndexKey code) rd)"

text \<open>\<^verbatim>\<open>null\<close> decodes to the zero value; values of the other kinds are never stored under these keys.\<close>

definition UnmarshalRoomRegistryInfo :: "json_value \<Rightarrow> redis_error + registry_info" where
  "UnmarshalRoomRegistryInfo v = (case v of
       JRegistry info \<Rightarrow> Inr info
     | JNull \<Rightarrow> Inr \<lparr>reg_Code = [], reg_Instance = [], reg_Address = [], reg_CreatedAt = 0\<rparr>
     | _ \<Rightarrow> Inl BadData)"

definition GetRoomRegistry :: "gostring \<Rightarrow> redis \<Rightarrow> (redis_error + registry_info option) \<times> redis" where
  "GetRoomRegistry code rd = (case exec (r_get (roomInfoKey code)) rd of
       (Inl e, rd) \<Rightarrow> (Inl e, rd)
     | (Inr None, rd) \<Rightarrow> (Inr None, rd)
     | (Inr (Some raw), rd) \<Rightarrow> (map_sum id Some (UnmarshalRoomRegistryInfo raw), rd))"

section \<open>Read caches\<close>

definition lobbyListCachePrefix :: gostring where "lobbyListCachePrefix = str ''lobby:list:''"
definition lobbyCheckCachePrefix :: gostring where "lobbyCheckCachePrefix = str ''lobby:check:''"

definition lobbyListCacheKey :: "int \<Rightarrow> gostring \<Rightarrow> gostring" where
  "lobbyListCacheKey limit cursor = lobbyListCachePrefix @ Sprint_int limit @ str '':'' @ cursor"

definition lobbyCheckCacheKey :: "gostring \<Rightarrow> gostring" where
  "lobbyCheckCacheKey code = lobbyCheckCachePrefix @ code"

definition GetCachedLobbyList :: "int \<Rightarrow> gostring \<Rightarrow> redis \<Rightarrow> (redis_error + json_value option) \<times> redis" where
  "GetCachedLobbyList limit cursor rd = exec (r_get (lobbyListCacheKey limit cursor)) rd"

definition SetCachedLobbyList :: "int \<Rightarrow> gostring \<Rightarrow> json_value \<Rightarrow> redis \<Rightarrow> (redis_error + unit) \<times> redis" where
  "SetCachedLobbyList limit cursor data rd = exec (r_set (lobbyListCacheKey limit cursor) data) rd"

definition GetCachedRoomCheck :: "gostring \<Rightarrow> redis \<Rightarrow> (redis_error + json_value option) \<times> redis" where
  "GetCachedRoomCheck code rd = exec (r_get (lobbyCheckCacheKey code)) rd"

definition SetCachedRoomCheck :: "gostring \<Rightarrow> json_value \<Rightarrow> redis \<Rightarrow> (redis_error + unit) \<times> redis" where
  "SetCachedRoomCheck code data rd = exec (r_set (lobbyCheckCacheKey code) data) rd"

text \<open>The loop over the pages of \<^verbatim>\<open>SCAN\<close>: a page is scanned and its keys are deleted; the first error ends the loop. The
  pages are those of 100 keys that the source asks for.\<close>

fun pages :: "nat \<Rightarrow> 'a list \<Rightarrow> 'a list list" where
  "pages n xs = (if length xs \<le> n \<or> n = 0 then [xs] else take n xs # pages n (drop n xs))"

declare pages.simps [simp del]

fun scan_pages :: "gostring list list \<Rightarrow> redis \<Rightarrow> (redis_error + unit) \<times> redis" where
  "scan_pages [] rd = (Inr (), rd)"
| "scan_pages (ks # ps) rd = (case exec (\<lambda>s. (Inr (), s)) rd of
       (Inl e, rd) \<Rightarrow> (Inl e, rd)
     | (Inr _, rd) \<Rightarrow>
         if ks = [] then scan_pages ps rd
         else (case exec (r_del ks) rd of (Inl e, rd) \<Rightarrow> (Inl e, rd) | (Inr _, rd) \<Rightarrow> scan_pages ps rd))"

definition has_prefix :: "gostring \<Rightarrow> gostring \<Rightarrow> bool" where
  "has_prefix p s \<longleftrightarrow> take (length p) s = p"

definition InvalidateLobbyListCaches :: "redis \<Rightarrow> (redis_error + unit) \<times> redis" where
  "InvalidateLobbyListCaches rd = scan_pages (pages 100 (filter (has_prefix lobbyListCachePrefix) (keys (kv rd)))) rd"

definition InvalidateRoomCheck :: "gostring \<Rightarrow> redis \<Rightarrow> (redis_error + unit) \<times> redis" where
  "InvalidateRoomCheck code rd = exec (r_del [lobbyCheckCacheKey code]) rd"

section \<open>What is stored where\<close>

definition string_at :: "gostring \<Rightarrow> redis \<Rightarrow> json_value option" where
  "string_at k rd = (case map_of (kv rd) k of Some (RString v) \<Rightarrow> Some v | _ \<Rightarrow> None)"

definition up :: "redis \<Rightarrow> bool" where
  "up rd \<longleftrightarrow> rd_attempts rd = (\<lambda>_. Runs)"

lemma exec_up: "up rd \<Longrightarrow> exec f rd = (fst (f (kv rd)), rd\<lparr>rd_pos := Suc (rd_pos rd), kv := snd (f (kv rd))\<rparr>)"
  by (simp add: exec_def up_def Let_def)

lemma up_frame [simp]: "up (rd\<lparr>kv := s\<rparr>) = up rd" "up (rd\<lparr>rd_pos := n\<rparr>) = up rd"
  by (simp_all add: up_def)

lemma exec_kv: "exec f rd = (res, rd') \<Longrightarrow> rd_attempts rd' = rd_attempts rd \<and> (kv rd' = kv rd \<or> kv rd' = snd (f (kv rd)))"
  by (auto simp: exec_def Let_def split: attempt.splits)

lemma map_of_filter_key: "map_of (filter (\<lambda>(k, v). P k) al) x = (if P x then map_of al x else None)"
  by (induction al) auto

lemma key_clash [simp]:
  "lobbyCheckCacheKey code \<noteq> roomInfoKey code'" "lobbyCheckCacheKey code \<noteq> roomIndexKey"
  "\<not> has_prefix lobbyListCachePrefix (lobbyCheckCacheKey code)" "\<not> has_prefix lobbyListCachePrefix (roomInfoKey code)"
  by (simp_all add: lobbyCheckCacheKey_def lobbyCheckCachePrefix_def roomInfoKey_def roomIndexKey_def has_prefix_def
      lobbyListCachePrefix_def str_def)

text \<open>The contract of a cache with a lookup, an update and an invalidation per key.\<close>

locale keyed_cache =
  fixes get :: "'k \<Rightarrow> redis \<Rightarrow> (redis_error + json_value option) \<times> redis"
    and put :: "'k \<Rightarrow> json_value \<Rightarrow> redis \<Rightarrow> (redis_error + unit) \<times> redis"
    and drop_key :: "'k \<Rightarrow> redis \<Rightarrow> (redis_error + unit) \<times> redis"
    and content :: "'k \<Rightarrow> redis \<Rightarrow> json_value option"
    and sane :: "redis \<Rightarrow> bool"
  assumes get_content: "up rd \<Longrightarrow> sane rd \<Longrightarrow> get k rd = (Inr (content k rd), snd (get k rd))"
    and get_frame: "content j (snd (get k rd)) = content j rd"
    and put_content: "up rd \<Longrightarrow> content j (snd (put k v rd)) = (if j = k then Some v else content j rd)"
    and drop_content: "up rd \<Longrightarrow> content j (snd (drop_key k rd)) = (if j = k then None else content j rd)"
    and put_up: "up rd \<Longrightarrow> up (snd (put k v rd))" "sane rd \<Longrightarrow> sane (snd (put k v rd))"
    and drop_up: "up rd \<Longrightarrow> up (snd (drop_key k rd))" "sane rd \<Longrightarrow> sane (snd (drop_key k rd))"
begin

lemma get_after_put: "up rd \<Longrightarrow> sane rd \<Longrightarrow> fst (get k (snd (put k v rd))) = Inr (Some v)"
  using get_content [of "snd (put k v rd)" k] put_up put_content by (metis fst_conv)

lemma get_after_drop: "up rd \<Longrightarrow> sane rd \<Longrightarrow> fst (get k (snd (drop_key k rd))) = Inr None"
  using get_content [of "snd (drop_key k rd)" k] drop_up drop_content by (metis fst_conv)

end

definition checks_sane :: "redis \<Rightarrow> bool" where
  "checks_sane rd \<longleftrightarrow> (\<forall>code ms. map_of (kv rd) (lobbyCheckCacheKey code) \<noteq> Some (RSet ms))"

lemma check_key_inj [simp]: "lobbyCheckCacheKey a = lobbyCheckCacheKey b \<longleftrightarrow> a = b"
  by (simp add: lobbyCheckCacheKey_def)

interpretation room_check: keyed_cache GetCachedRoomCheck SetCachedRoomCheck InvalidateRoomCheck
  "\<lambda>code. string_at (lobbyCheckCacheKey code)" checks_sane
proof
  fix rd k j v
  show "up rd \<Longrightarrow> checks_sane rd \<Longrightarrow>
      GetCachedRoomCheck k rd = (Inr (string_at (lobbyCheckCacheKey k) rd), snd (GetCachedRoomCheck k rd))"
    by (auto simp: GetCachedRoomCheck_def exec_up r_get_def string_at_def checks_sane_def split: option.split redis_value.split)
  show "string_at (lobbyCheckCacheKey j) (snd (GetCachedRoomCheck k rd)) = string_at (lobbyCheckCacheKey j) rd"
    by (auto simp: GetCachedRoomCheck_def exec_def r_get_def string_at_def Let_def split: option.split redis_value.split attempt.split)
  show "up rd \<Longrightarrow> string_at (lobbyCheckCacheKey j) (snd (SetCachedRoomCheck k v rd)) =
      (if j = k then Some v else string_at (lobbyCheckCacheKey j) rd)"
    by (auto simp: SetCachedRoomCheck_def exec_up r_set_def string_at_def)
  show "up rd \<Longrightarrow> string_at (lobbyCheckCacheKey j) (snd (InvalidateRoomCheck k rd)) =
      (if j = k then None else string_at (lobbyCheckCacheKey j) rd)"
    by (auto simp: InvalidateRoomCheck_def exec_up r_del_def string_at_def map_of_filter_key)
  show "up rd \<Longrightarrow> up (snd (SetCachedRoomCheck k v rd))" "up rd \<Longrightarrow> up (snd (InvalidateRoomCheck k rd))"
    by (simp_all add: SetCachedRoomCheck_def InvalidateRoomCheck_def exec_up)
  show "checks_sane rd \<Longrightarrow> checks_sane (snd (SetCachedRoomCheck k v rd))" "checks_sane rd \<Longrightarrow> checks_sane (snd (InvalidateRoomCheck k rd))"
    by (auto simp: SetCachedRoomCheck_def InvalidateRoomCheck_def exec_def r_set_def r_del_def checks_sane_def map_of_filter_key Let_def
        split: attempt.split)
qed

text \<open>What the other operations leave alone.\<close>

lemma scan_pages_frame:
  "up rd \<Longrightarrow> \<forall>ks \<in> set ps. k \<notin> set ks \<Longrightarrow> up (snd (scan_pages ps rd)) \<and> map_of (kv (snd (scan_pages ps rd))) k = map_of (kv rd) k"
proof (induction ps arbitrary: rd)
  case (Cons ks ps)
  then show ?case using Cons.IH [of "rd\<lparr>rd_pos := Suc (rd_pos rd)\<rparr>"]
      Cons.IH [of "rd\<lparr>rd_pos := Suc (Suc (rd_pos rd)), kv := snd (r_del ks (kv rd))\<rparr>"]
    by (auto simp: exec_up r_del_def map_of_filter_key)
qed simp

lemma pages_sub: "ks \<in> set (pages n xs) \<Longrightarrow> set ks \<subseteq> set xs"
proof (induction n xs rule: pages.induct)
  case (1 n xs)
  then show ?case using set_take_subset [of n xs] set_drop_subset [of n xs]
    by (auto simp: pages.simps [of n xs] split: if_splits)
qed

lemma invalidate_lists_frame:
  assumes "up rd" "\<not> has_prefix lobbyListCachePrefix k"
  shows "up (snd (InvalidateLobbyListCaches rd))" "map_of (kv (snd (InvalidateLobbyListCaches rd))) k = map_of (kv rd) k"
proof -
  have "\<forall>ks \<in> set (pages 100 (filter (has_prefix lobbyListCachePrefix) (keys (kv rd)))). k \<notin> set ks"
    using pages_sub assms(2) by fastforce
  from scan_pages_frame [OF assms(1) this]
  show "up (snd (InvalidateLobbyListCaches rd))" "map_of (kv (snd (InvalidateLobbyListCaches rd))) k = map_of (kv rd) k"
    by (simp_all add: InvalidateLobbyListCaches_def)
qed

lemma concat_pages: "concat (pages n xs) = xs"
proof (induction n xs rule: pages.induct)
  case (1 n xs)
  then show ?case by (cases "length xs \<le> n \<or> n = 0") (auto simp: pages.simps [of n xs])
qed

lemma scan_pages_up:
  "up rd \<Longrightarrow> fst (scan_pages ps rd) = Inr () \<and> kv (snd (scan_pages ps rd)) = filter (\<lambda>(k, v). k \<notin> set (concat ps)) (kv rd)"
proof (induction ps arbitrary: rd)
  case (Cons ks ps)
  show ?case
    using Cons.prems Cons.IH [of "rd\<lparr>rd_pos := Suc (rd_pos rd)\<rparr>"]
      Cons.IH [of "rd\<lparr>rd_pos := Suc (Suc (rd_pos rd)), kv := snd (r_del ks (kv rd))\<rparr>"]
    by (auto simp: exec_up r_del_def intro!: filter_cong)
qed simp

end
