(* ===== verification/Repository_Properties.thy ===== *)
theory Repository_Properties
  imports Game_Repository
begin

text \<open>
  What the repositories guarantee: a saved state is the one that is loaded, an error leaves a table as it was or as the
  statement makes it, cursors can be parsed back, following the cursors lists every lobby exactly once, and the
  result of a game is recorded exactly once.
\<close>

section \<open>Saving and loading\<close>

definition row_of :: "gostring \<Rightarrow> tables \<Rightarrow> lobby_row option" where
  "row_of code t = find (\<lambda>r. l_Code r = code) (lobby_states t)"

lemma row_of_code: "row_of code t = Some r \<Longrightarrow> l_Code r = code"
  by (auto simp: row_of_def find_Some_iff)

lemma find_keyed_update:
  "(\<And>x. k (g x) = k x) \<Longrightarrow> find (\<lambda>x. k x = c) (map (\<lambda>x. if k x = a then g x else x) xs)
     = map_option (\<lambda>x. if k x = a then g x else x) (find (\<lambda>x. k x = c) xs)"
  by (induction xs) auto

lemma find_append_new: "\<not> list_ex (\<lambda>x. k x = c) xs \<Longrightarrow> find (\<lambda>x. k x = a) (xs @ [y]) = (if a = c \<and> k y = c then Some y else if k y = a then (case find (\<lambda>x. k x = a) xs of None \<Rightarrow> Some y | Some x \<Rightarrow> Some x) else find (\<lambda>x. k x = a) xs)"
  by (induction xs) auto

lemma upsert_row:
  assumes "upsert_lobby ls t = (Inr (), t')"
  shows "\<exists>row. row_of (l_Code ls) t' = Some row \<and> l_Code row = l_Code ls \<and> l_State row = l_State ls \<and> l_UpdatedAt row = l_UpdatedAt ls"
    "code \<noteq> l_Code ls \<Longrightarrow> row_of code t' = row_of code t"
proof -
  let ?g = "\<lambda>r. r\<lparr>l_State := l_State ls, l_UpdatedAt := l_UpdatedAt ls\<rparr>"
  have "(\<exists>row. row_of (l_Code ls) t' = Some row \<and> l_Code row = l_Code ls \<and> l_State row = l_State ls \<and> l_UpdatedAt row = l_UpdatedAt ls)
      \<and> (code \<noteq> l_Code ls \<longrightarrow> row_of code t' = row_of code t)"
  proof (cases "list_ex (\<lambda>r. l_Code r = l_Code ls) (lobby_states t)")
    case True
    then obtain row where row: "find (\<lambda>r. l_Code r = l_Code ls) (lobby_states t) = Some row"
      by (cases "find (\<lambda>r. l_Code r = l_Code ls) (lobby_states t)") (auto simp: list_ex_iff find_None_iff)
    then have "l_Code row = l_Code ls" by (auto simp: find_Some_iff)
    moreover have "map_option (\<lambda>x. if l_Code x = l_Code ls then ?g x else x) (row_of code t) = row_of code t" if "code \<noteq> l_Code ls"
      using that by (cases "row_of code t") (auto dest: row_of_code)
    ultimately show ?thesis using True assms row find_keyed_update [of l_Code ?g _ "l_Code ls" "lobby_states t"]
      by (auto simp: upsert_lobby_def row_of_def split: if_splits)
  next
    case False
    then show ?thesis using assms find_append_new [OF False] by (auto simp: upsert_lobby_def row_of_def split: if_splits)
  qed
  then show "\<exists>row. row_of (l_Code ls) t' = Some row \<and> l_Code row = l_Code ls \<and> l_State row = l_State ls \<and> l_UpdatedAt row = l_UpdatedAt ls"
    "code \<noteq> l_Code ls \<Longrightarrow> row_of code t' = row_of code t" by auto
qed

text \<open>C18: Whatever faults and retries happen, a state that was saved without error is the one that is loaded afterwards,
  and the states of all other rooms are as they were. When saving or deleting reports an error, the table is either
  unchanged or exactly as the statement makes it.\<close>

theorem saved_state_is_loaded:
  assumes "SaveLobbyState ls d = (res, d1)" "LoadLobbyState (l_Code ls) d1 = (Inr loaded, d2)"
  shows "(case res of
      Inr _ \<Rightarrow> (\<exists>row. loaded = Some row \<and> l_State row = l_State ls \<and> l_UpdatedAt row = l_UpdatedAt ls)
        \<and> list_all (\<lambda>code. code = l_Code ls \<or> row_of code (db d2) = row_of code (db d)) codes
    | Inl _ \<Rightarrow> db d2 = db d \<or> db d2 = snd (upsert_lobby ls (db d)))"
proof -
  have l: "loaded = row_of (l_Code ls) (db d1)" "db d2 = db d1"
    using load.withRetry_once [of "l_Code ls" d1] assms(2) by (auto simp: LoadLobbyState_def select_lobby_def row_of_def)
  note s = save.withRetry_once [OF assms(1) [unfolded SaveLobbyState_def]]
  show ?thesis
  proof (cases res)
    case (Inr u)
    then have "upsert_lobby ls (db d) = (Inr (), db d1)" using s by simp
    from upsert_row [OF this] show ?thesis using l Inr by (auto simp: list_all_iff)
  qed (use s l in auto)
qed

definition demo_lobby :: lobby_row where
  "demo_lobby = \<lparr>l_ID = [1], l_Code = str ''ABCDE'', l_State = BadJSON, l_UpdatedAt = 5, l_CreatedAt = 5\<rparr>"

definition demo_user :: user_row where
  "demo_user = \<lparr>u_ID = [7], u_Email = str ''a@b'', u_EmailHash = None, u_Nickname = str ''Ann'', u_Palette = 0, u_CreatedAt = 1,
     u_LastLogin = None, u_DeletedAt = None, u_EmailAnonymized = False\<rparr>"

definition demo_db :: database where
  "demo_db = \<lparr>db = \<lparr>users = [], lobby_states = [], game_sessions = [], game_results = [], outbox_events = [], admin_config = [], reltuples = 0\<rparr>,
     db_attempts = (\<lambda>_. Runs), db_budget = (\<lambda>_. 3), db_pos = 0\<rparr>"

theorem saved_state_is_loaded_witness:
  "\<exists>d1 d2 row. SaveLobbyState demo_lobby demo_db = (Inr (), d1) \<and> LoadLobbyState (str ''ABCDE'') d1 = (Inr (Some row), d2)
     \<and> l_UpdatedAt row = 5"
proof -
  have "lobby_code_ok (l_Code demo_lobby)" by code_simp
  then obtain d1 where 1: "SaveLobbyState demo_lobby demo_db = (Inr (), d1)" "db_attempts d1 = (\<lambda>_. Runs)"
    by (simp add: SaveLobbyState_def withRetry_def retry_loop.simps demo_db_def upsert_lobby_def db_tick_def)
  then obtain loaded d2 where 2: "LoadLobbyState (l_Code demo_lobby) d1 = (Inr loaded, d2)"
    by (simp add: LoadLobbyState_def withRetry_def retry_loop.simps select_lobby_def)
  from saved_state_is_loaded [OF 1(1) 2, of "[]"] 1(1) 2 show ?thesis by (auto simp: demo_lobby_def)
qed

section \<open>Cursors\<close>

lemma uint_digit: "d < 10 \<Longrightarrow> uint (digit d) = 48 + int d"
  using unat_digit [of d] by (metis of_nat_add of_nat_numeral uint_nat)

lemma Itoa_digits: "list_all is_digit (Itoa n) \<and> Itoa n \<noteq> []"
proof (induction n rule: Itoa.induct)
  case (1 n)
  then show ?case by (cases "n < 10") (simp_all add: Itoa.simps [of n] is_digit_def unat_digit)
qed

lemma digits_value_snoc: "digits_value (ds @ [d]) = 10 * digits_value ds + (int (unat d) - 48)"
  by (simp add: digits_value_def)

lemma digits_value_Itoa: "digits_value (Itoa n) = int n"
proof (induction n rule: Itoa.induct)
  case (1 n)
  show ?case
  proof (cases "n < 10")
    case True
    then show ?thesis by (simp add: Itoa.simps [of n] digits_value_def uint_digit)
  next
    case False
    then show ?thesis using 1 by (simp add: Itoa.simps [of n] digits_value_snoc uint_digit zdiv_int zmod_int)
  qed
qed

lemma skip_space_digit:
  assumes "s \<noteq> []" "is_digit (hd s)"
  shows "skip_space (segs s) = Some s"
proof -
  obtain b bs where s: "s = b # bs" using assms(1) by (cases s) auto
  have "segs s = (unat b, [b]) # segs bs" using assms(2) s by (simp add: decode_rune_def is_digit_def)
  moreover have "\<not> unicode_space (unat b)" "unat b \<noteq> 0x0A" using assms(2) s by (auto simp: is_digit_def unicode_space_def)
  ultimately show ?thesis using concat_segs [of s] by simp
qed

lemma scan_Itoa: "n < 2 ^ 63 \<Longrightarrow> scan_int64 (Itoa n) = Some (int n)"
proof -
  assume n: "n < 2 ^ 63"
  have d: "list_all is_digit (Itoa n)" "Itoa n \<noteq> []" using Itoa_digits by simp_all
  then have hd: "is_digit (hd (Itoa n))" by (cases "Itoa n") auto
  then have "hd (Itoa n) \<noteq> 45" "hd (Itoa n) \<noteq> 43" by (auto simp: is_digit_def)
  moreover have tw: "takeWhile is_digit (Itoa n) = Itoa n" using d(1) by (simp add: takeWhile_eq_all_conv list_all_iff)
  moreover have "int n < 2 ^ 63" using n by (metis of_nat_less_iff of_nat_numeral of_nat_power)
  ultimately show ?thesis using d(2) skip_space_digit [OF d(2) hd] by (simp add: scan_int64_def Let_def digits_value_Itoa tw)
qed

lemma parse_lobby_cursor:
  assumes "0 < l_UpdatedAt r" "l_UpdatedAt r < 2 ^ 63" "l_Code r \<noteq> []"
  shows "parseLobbyCursor (lobby_cursor r) = Inr (row_key r)"
proof -
  let ?s = "Itoa (nat (l_UpdatedAt r))"
  have "list_all is_digit ?s" using Itoa_digits by simp
  then have nb: "\<forall>b \<in> set ?s. b \<noteq> bar" by (auto simp: list_all_iff is_digit_def bar_def)
  have c: "lobby_cursor r = ?s @ bar # l_Code r" using assms(1) by (simp add: lobby_cursor_def Sprint_int_def)
  have "takeWhile (\<lambda>b. b \<noteq> bar) (lobby_cursor r) = ?s" using nb unfolding c by (simp add: takeWhile_append2)
  moreover have "scan_int64 ?s = Some (l_UpdatedAt r)"
    using scan_Itoa [of "nat (l_UpdatedAt r)"] assms(1,2) by (simp add: nat_less_iff)
  ultimately show ?thesis using assms by (simp add: parseLobbyCursor_def c Let_def row_key_def)
qed

text \<open>The cursor of a page, \<^verbatim>\<open>updated_at|code\<close>, is parsed back to the time and the code it was made from, for every
  positive time that fits in 64 bits and every code that is not empty.\<close>

theorem cursor_roundtrip:
  assumes "lobbies \<noteq> []" "0 < l_UpdatedAt (lobbies ! (limit - 1))" "l_UpdatedAt (lobbies ! (limit - 1)) < 2 ^ 63"
    "l_Code (lobbies ! (limit - 1)) \<noteq> []" "0 < limit" "limit < length lobbies"
  shows "parseLobbyCursor (NextCursor (buildLobbyListResult lobbies n limit)) = Inr (row_key (lobbies ! (limit - 1)))"
proof -
  have "take limit lobbies \<noteq> []" "last (take limit lobbies) = lobbies ! (limit - 1)"
    using assms by (auto simp: last_conv_nth)
  then have "NextCursor (buildLobbyListResult lobbies n limit) = lobby_cursor (lobbies ! (limit - 1))"
    using assms(6) by (simp add: buildLobbyListResult_def Let_def)
  then show ?thesis using parse_lobby_cursor [OF assms(2-4)] by simp
qed

theorem cursor_roundtrip_witness:
  "parseLobbyCursor (NextCursor (buildLobbyListResult [demo_lobby, demo_lobby] 2 1)) = Inr (5, str ''ABCDE'')"
  using cursor_roundtrip [of "[demo_lobby, demo_lobby]" 1 2] by (simp add: demo_lobby_def row_key_def str_def)

section \<open>Following the pages\<close>

definition descending :: "collation \<Rightarrow> lobby_row list \<Rightarrow> bool" where
  "descending clt = sorted_wrt (\<lambda>a b. key_less clt (row_key b) (row_key a))"

locale collated =
  fixes clt :: collation
  assumes irrefl: "\<not> clt a a"
    and trans: "clt a b \<Longrightarrow> clt b c \<Longrightarrow> clt a c"
    and total: "a \<noteq> b \<Longrightarrow> clt a b \<or> clt b a"
begin

lemma key_irrefl: "\<not> key_less clt a a"
  by (simp add: key_less_def irrefl)

lemma key_trans: "key_less clt a b \<Longrightarrow> key_less clt b c \<Longrightarrow> key_less clt a c"
  by (auto simp: key_less_def intro: trans)

lemma key_total: "a \<noteq> b \<Longrightarrow> key_less clt a b \<or> key_less clt b a"
  using total by (auto simp: key_less_def prod_eq_iff)

lemma desc_simps [simp]: "descending clt []" "descending clt (x # xs) \<longleftrightarrow> (\<forall>y \<in> set xs. key_less clt (row_key y) (row_key x)) \<and> descending clt xs"
  by (simp_all add: descending_def)

lemma mset_insert_desc [simp]: "mset (insert_desc clt r xs) = add_mset r (mset xs)"
  by (induction xs) auto

lemma mset_sort_desc [simp]: "mset (sort_desc clt rows) = mset rows"
  by (induction rows) (simp_all add: sort_desc_def)

lemma set_insert_desc [simp]: "set (insert_desc clt r xs) = insert r (set xs)"
  using mset_insert_desc [of r xs] by (metis set_mset_add_mset_insert set_mset_mset)

lemma set_sort_desc [simp]: "set (sort_desc clt rows) = set rows"
  using mset_sort_desc [of rows] by (metis set_mset_mset)

lemma desc_insert:
  "descending clt xs \<Longrightarrow> (\<And>x. x \<in> set xs \<Longrightarrow> row_key x \<noteq> row_key r) \<Longrightarrow> descending clt (insert_desc clt r xs)"
proof (induction xs)
  case (Cons x xs)
  show ?case
  proof (cases "key_less clt (row_key r) (row_key x)")
    case False
    then have "key_less clt (row_key x) (row_key r)" using key_total [of "row_key x" "row_key r"] Cons.prems(2) [of x] by simp
    then have "key_less clt (row_key y) (row_key r)" if "y \<in> set (x # xs)" for y
      using Cons.prems(1) that key_trans [of "row_key y" "row_key x" "row_key r"] by auto
    then show ?thesis using Cons.prems(1) False by simp
  qed (use Cons in auto)
qed simp

lemma desc_sort: "distinct (map row_key rows) \<Longrightarrow> descending clt (sort_desc clt rows)"
proof (induction rows)
  case (Cons r rows)
  have "descending clt (insert_desc clt r (sort_desc clt rows))"
    using Cons by (intro desc_insert) (auto intro: rev_image_eqI)
  then show ?case by (simp add: sort_desc_def)
qed (simp add: sort_desc_def)

lemma insert_front: "\<forall>y \<in> set xs. \<not> key_less clt (row_key r) (row_key y) \<Longrightarrow> insert_desc clt r xs = r # xs"
  by (cases xs) auto

lemma filter_insert_desc:
  "descending clt xs \<Longrightarrow> filter P (insert_desc clt r xs) = (if P r then insert_desc clt r (filter P xs) else filter P xs)"
proof (induction xs)
  case (Cons x xs)
  show ?case
  proof (cases "key_less clt (row_key r) (row_key x)")
    case False
    have "\<not> key_less clt (row_key r) (row_key y)" if "y \<in> set xs" for y
      using Cons.prems that False key_trans [of "row_key r" "row_key y" "row_key x"] by auto
    then have "insert_desc clt r (filter P xs) = r # filter P xs" "insert_desc clt r (x # filter P xs) = r # x # filter P xs"
      using False by (auto intro: insert_front)
    then show ?thesis using False by auto
  qed (use Cons in auto)
qed simp

lemma filter_sort_desc: "distinct (map row_key rows) \<Longrightarrow> sort_desc clt (filter P rows) = filter P (sort_desc clt rows)"
proof (induction rows)
  case (Cons r rows)
  then show ?case using filter_insert_desc [OF desc_sort, of rows P r] by (simp add: sort_desc_def)
qed (simp add: sort_desc_def)

text \<open>The rows after a row of the sorted table.\<close>

lemma filter_after:
  assumes "descending clt xs" "i < length xs"
  shows "filter (\<lambda>r. key_less clt (row_key r) (row_key (xs ! i))) xs = drop (Suc i) xs"
proof -
  let ?P = "\<lambda>r. key_less clt (row_key r) (row_key (xs ! i))"
  have lt: "key_less clt (row_key (xs ! k)) (row_key (xs ! j))" if "j < k" "k < length xs" for j k
    using assms(1) that by (simp add: descending_def sorted_wrt_iff_nth_less)
  have "filter ?P (take (Suc i) xs) = []"
  proof -
    have "\<not> ?P x" if x: "x \<in> set (take (Suc i) xs)" for x
    proof -
      obtain j where j: "j \<le> i" "x = xs ! j" using x assms(2) by (force simp: in_set_conv_nth less_Suc_eq_le)
      show ?thesis
      proof (cases "j = i")
        case False
        then have "key_less clt (row_key (xs ! i)) (row_key x)" using j lt [of j i] assms(2) by simp
        then show ?thesis using key_trans key_irrefl by blast
      qed (use j key_irrefl in simp)
    qed
    then show ?thesis by (simp add: filter_empty_conv)
  qed
  moreover have "filter ?P (drop (Suc i) xs) = drop (Suc i) xs"
  proof -
    have "?P x" if x: "x \<in> set (drop (Suc i) xs)" for x
    proof -
      obtain j where "j < length xs - Suc i" "x = xs ! (Suc i + j)" using x by (auto simp: in_set_conv_nth)
      then show ?thesis using lt [of i "Suc i + j"] by simp
    qed
    then show ?thesis by simp
  qed
  ultimately show ?thesis by (metis append_Nil append_take_drop_id filter_append)
qed

end

text \<open>The \<^verbatim>\<open>C\<close> collation of PostgreSQL compares the bytes.\<close>

interpretation c_collation: collated "ord_class.lexordp"
proof
  fix a b c :: gostring
  show "\<not> ord_class.lexordp a a" by (rule lexordp_irreflexive')
  show "ord_class.lexordp a b \<Longrightarrow> ord_class.lexordp b c \<Longrightarrow> ord_class.lexordp a c" by (rule lexordp_trans)
  show "a \<noteq> b \<Longrightarrow> ord_class.lexordp a b \<or> ord_class.lexordp b a" using lexordp_linear [of a b] by blast
qed

text \<open>A client that follows the cursors until there are no more pages.\<close>

fun follow_pages :: "nat \<Rightarrow> collation \<Rightarrow> int \<Rightarrow> gostring \<Rightarrow> database \<Rightarrow> db_error + lobby_row list" where
  "follow_pages 0 clt limit cursor d = Inl Unavailable"
| "follow_pages (Suc n) clt limit cursor d = (case LoadAllActiveLobbies clt limit cursor d of
       (Inl e, d) \<Rightarrow> Inl e
     | (Inr p, d) \<Rightarrow> if HasMore p then map_sum id (append (Lobbies p)) (follow_pages n clt limit (NextCursor p) d)
                    else Inr (Lobbies p))"

lemma withRetry_runs:
  "db_attempts d = (\<lambda>_. Runs) \<Longrightarrow> withRetry f d = (fst (f (db d)), (db_tick d)\<lparr>db := snd (f (db d))\<rparr>)"
  by (simp add: withRetry_def retry_loop.simps Let_def split_def)

definition rows_ok :: "lobby_row list \<Rightarrow> bool" where
  "rows_ok rows \<longleftrightarrow> distinct (map l_Code rows)
     \<and> list_all (\<lambda>r. 0 < l_UpdatedAt r \<and> l_UpdatedAt r < 2 ^ 63 \<and> l_Code r \<noteq> []) rows"

lemma distinct_keys: "distinct (map l_Code rows) \<Longrightarrow> distinct (map row_key rows)"
  by (auto simp: distinct_map inj_on_def row_key_def)

definition page_cursor :: "lobby_row list \<Rightarrow> nat \<Rightarrow> gostring" where
  "page_cursor rows i = (if i = 0 then [] else lobby_cursor (rows ! (i - 1)))"

lemma load_page:
  fixes limit :: int
  assumes c: "collated clt" and d: "db_attempts d = (\<lambda>_. Runs)" and ok: "rows_ok (lobby_states (db d))"
    and i: "i \<le> length (lobby_states (db d))"
  defines "ss \<equiv> sort_desc clt (lobby_states (db d))" and "L \<equiv> clamp_limit limit"
  shows "\<exists>d'. LoadAllActiveLobbies clt limit (page_cursor ss i) d =
      (Inr (buildLobbyListResult (take (L + 1) (drop i ss)) (reltuples (db d)) L), d') \<and> db d' = db d \<and> db_attempts d' = (\<lambda>_. Runs)"
proof -
  have len: "length ss = length (lobby_states (db d))" and mem: "set ss = set (lobby_states (db d))"
    using collated.mset_sort_desc [OF c] collated.set_sort_desc [OF c] unfolding ss_def by (metis size_mset, simp)
  have dist: "distinct (map row_key (lobby_states (db d)))" using ok distinct_keys by (simp add: rows_ok_def)
  define u k where "u = (if i = 0 then 0 else l_UpdatedAt (ss ! (i - 1)))" and "k = (if i = 0 then [] else l_Code (ss ! (i - 1)))"
  have last: "0 < l_UpdatedAt (ss ! (i - 1)) \<and> l_UpdatedAt (ss ! (i - 1)) < 2 ^ 63 \<and> l_Code (ss ! (i - 1)) \<noteq> []" if "i \<noteq> 0"
    using ok that i len mem nth_mem [of "i - 1" ss] unfolding rows_ok_def list_all_iff by auto
  then have "parseLobbyCursor (page_cursor ss i) = Inr (u, k)"
    using parse_lobby_cursor [of "ss ! (i - 1)"] parseLobbyCursor_def [of "[]"]
    by (cases "i = 0") (auto simp: page_cursor_def u_def k_def row_key_def)
  moreover have q: "queryLobbies clt (L + 1) u k (db d) = (Inr (take (L + 1) (drop i ss)), db d)"
  proof (cases "i = 0")
    case False
    then have "row_key (ss ! (i - 1)) = (u, k)" "0 < u" using last by (simp_all add: u_def k_def row_key_def)
    moreover have "filter (\<lambda>r. key_less clt (row_key r) (row_key (ss ! (i - 1)))) ss = drop i ss"
      using collated.filter_after [OF c collated.desc_sort [OF c dist], of "i - 1"] False i len by (simp add: ss_def)
    ultimately show ?thesis using collated.filter_sort_desc [OF c dist] by (simp add: queryLobbies_def ss_def)
  qed (simp add: queryLobbies_def u_def ss_def)
  ultimately show ?thesis using d
    by (simp add: LoadAllActiveLobbies_def Let_def L_def countAllLobbies_def fetchLobbiesPage_def withRetry_runs db_tick_def
        q [unfolded L_def])
qed

lemma follow_pages_from:
  assumes c: "collated clt"
  shows "db_attempts d = (\<lambda>_. Runs) \<Longrightarrow> rows_ok (lobby_states (db d)) \<Longrightarrow> i \<le> length (lobby_states (db d)) \<Longrightarrow>
    length (lobby_states (db d)) - i < n \<Longrightarrow>
    follow_pages n clt limit (page_cursor (sort_desc clt (lobby_states (db d))) i) d = Inr (drop i (sort_desc clt (lobby_states (db d))))"
proof (induction n arbitrary: i d)
  case (Suc n)
  define ss L where "ss = sort_desc clt (lobby_states (db d))" and "L = clamp_limit limit"
  have len: "length ss = length (lobby_states (db d))"
    using collated.mset_sort_desc [OF c] unfolding ss_def by (metis size_mset)
  obtain d' where p: "LoadAllActiveLobbies clt limit (page_cursor ss i) d =
      (Inr (buildLobbyListResult (take (L + 1) (drop i ss)) (reltuples (db d)) L), d')" and d': "db d' = db d" "db_attempts d' = (\<lambda>_. Runs)"
    using load_page [OF c Suc.prems(1-3), of limit] unfolding ss_def L_def by blast
  have L: "0 < L" by (simp add: L_def clamp_limit_def)
  show ?case
  proof (cases "L < length ss - i")
    case True
    then have "buildLobbyListResult (take (L + 1) (drop i ss)) (reltuples (db d)) L =
      \<lparr>Lobbies = take L (drop i ss), Total = reltuples (db d), HasMore = True, NextCursor = page_cursor ss (i + L)\<rparr>"
      using L by (auto simp: buildLobbyListResult_def page_cursor_def last_conv_nth Let_def)
    moreover have "follow_pages n clt limit (page_cursor ss (i + L)) d' = Inr (drop (i + L) ss)"
      using Suc.IH [of d' "i + L"] Suc.prems True L len d' by (simp add: ss_def)
    moreover have "take L (drop i ss) @ drop (i + L) ss = drop i ss" by (metis add.commute append_take_drop_id drop_drop)
    ultimately show ?thesis using p by (simp flip: ss_def)
  next
    case False
    then have "buildLobbyListResult (take (L + 1) (drop i ss)) (reltuples (db d)) L =
      \<lparr>Lobbies = drop i ss, Total = reltuples (db d), HasMore = False, NextCursor = []\<rparr>"
      by (simp add: buildLobbyListResult_def Let_def)
    then show ?thesis using p by (simp flip: ss_def)
  qed
qed simp

text \<open>C19: Following the cursors from the first page lists every lobby exactly once, newest first, and ends after at most as
  many pages as there are lobbies plus one, for every page size and every collation.\<close>

theorem pagination_lists_every_lobby:
  assumes "collated clt" "db_attempts d = (\<lambda>_. Runs)" "rows_ok (lobby_states (db d))"
  shows "\<exists>ls. follow_pages (Suc (length (lobby_states (db d)))) clt limit [] d = Inr ls
    \<and> mset ls = mset (lobby_states (db d)) \<and> descending clt ls"
proof -
  have "descending clt (sort_desc clt (lobby_states (db d)))"
    using collated.desc_sort [OF assms(1) distinct_keys] assms(3) by (simp add: rows_ok_def)
  then show ?thesis using follow_pages_from [OF assms, of 0] collated.mset_sort_desc [OF assms(1)]
    by (simp add: page_cursor_def del: follow_pages.simps)
qed

theorem pagination_lists_every_lobby_witness:
  "follow_pages 2 ord_class.lexordp 1 [] (demo_db\<lparr>db := (db demo_db)\<lparr>lobby_states := [demo_lobby]\<rparr>\<rparr>) = Inr [demo_lobby]"
proof -
  let ?d = "demo_db\<lparr>db := (db demo_db)\<lparr>lobby_states := [demo_lobby]\<rparr>\<rparr>"
  have "db_attempts ?d = (\<lambda>_. Runs)" "rows_ok (lobby_states (db ?d))"
    by (simp_all add: demo_db_def rows_ok_def demo_lobby_def str_def)
  from pagination_lists_every_lobby [OF c_collation.collated_axioms this, of 1] show ?thesis
    by (auto simp: numeral_2_eq_2 simp del: follow_pages.simps)
qed

section \<open>Results of games\<close>

lemma insert_result_distinct: "distinct (map res_ID rows) \<Longrightarrow> distinct (map res_ID (fold insert_result rs rows))"
proof (induction rs arbitrary: rows)
  case (Cons r rs)
  have "distinct (map res_ID (insert_result r rows))" using Cons.prems by (auto simp: insert_result_def list_ex_iff)
  then show ?case using Cons.IH by simp
qed simp

lemma distinct_one:
  "distinct (map f xs) \<Longrightarrow> list_ex (\<lambda>x. f x = a) xs \<Longrightarrow> length (filter (\<lambda>x. f x = a) xs) = 1"
proof (induction xs)
  case (Cons x xs)
  have "f x = a \<Longrightarrow> filter (\<lambda>y. f y = a) xs = []" using Cons.prems(1) by (auto simp: filter_empty_conv intro: rev_image_eqI)
  then show ?case using Cons by auto
qed simp

text \<open>C17: When the result of a game has been recorded without error, the table has exactly one row for every player of the
  game, nothing of what it held before is lost, and recording the same result again, successfully or not, changes
  nothing: retries and repeated deliveries count a game once.\<close>

theorem game_result_recorded_once:
  assumes "RecordGameResultTx uuid5 sid code endedAt score rs d = (Inr (), d1)"
    and "distinct (map res_ID (game_results (db d)))"
    and "RecordGameResultTx uuid5 sid code endedAt score rs d1 = (res, d2)"
  shows "list_all (\<lambda>pr. length (filter (\<lambda>x. res_ID x = uuid5 (sid @ [0] @ gr_UserID pr)) (game_results (db d1))) = 1) rs
    \<and> set (game_results (db d)) \<subseteq> set (game_results (db d1))
    \<and> db d2 = db d1"
proof -
  let ?stmt = "record_result uuid5 sid code endedAt score rs" and ?rows = "map (result_row_of uuid5 sid endedAt) rs"
  have 1: "?stmt (db d) = (Inr (), db d1)"
    using results.withRetry_once [OF assms(1) [unfolded RecordGameResultTx_def]] by simp
  then have "db d1 = snd (?stmt (db d))" "fst (?stmt (db d)) = Inr ()" by simp_all
  then have g: "game_results (db d1) = fold insert_result ?rows (game_results (db d))"
    by (simp add: record_result_def Let_def split: if_splits)
  have "?stmt (db d1) = (Inr (), db d1)" using record_result_again [of uuid5 sid code endedAt score rs "db d"] 1 by simp
  then have "db d2 = db d1"
    using results.withRetry_once [OF assms(3) [unfolded RecordGameResultTx_def]] by (auto split: sum.splits)
  moreover have "length (filter (\<lambda>x. res_ID x = uuid5 (sid @ [0] @ gr_UserID pr)) (game_results (db d1))) = 1" if "pr \<in> set rs" for pr
  proof -
    have "result_row_of uuid5 sid endedAt pr \<in> set ?rows" using that by simp
    from fold_insert_has [OF this, of "game_results (db d)"] show ?thesis
      using distinct_one [OF insert_result_distinct [OF assms(2)]] by (simp add: g result_row_of_def)
  qed
  ultimately show ?thesis using insert_result_ids by (auto simp: list_all_iff g)
qed

definition demo_result :: game_result_player where
  "demo_result = \<lparr>gr_UserID = [7], gr_Nickname = str ''Ann'', gr_ScoreContribution = 3, gr_TapsCount = 3\<rparr>"

theorem game_result_recorded_once_witness:
  "\<exists>d1. RecordGameResultTx id [1] (str ''ABCDE'') 9 3 [demo_result] (demo_db\<lparr>db := (db demo_db)\<lparr>users := [demo_user]\<rparr>\<rparr>) = (Inr (), d1)
     \<and> length (filter (\<lambda>x. res_ID x = [1, 0, 7]) (game_results (db d1))) = 1"
proof -
  let ?d = "demo_db\<lparr>db := (db demo_db)\<lparr>users := [demo_user]\<rparr>\<rparr>"
  obtain d1 where 1: "RecordGameResultTx id [1] (str ''ABCDE'') 9 3 [demo_result] ?d = (Inr (), d1)"
    by (simp add: RecordGameResultTx_def withRetry_def retry_loop.simps demo_db_def record_result_def result_row_of_def demo_result_def demo_user_def
        Let_def db_tick_def)
  obtain res d2 where 2: "RecordGameResultTx id [1] (str ''ABCDE'') 9 3 [demo_result] d1 = (res, d2)" by fastforce
  have "distinct (map res_ID (game_results (db ?d)))" by (simp add: demo_db_def)
  from game_result_recorded_once [OF 1 this 2] show ?thesis using 1 by (auto simp: demo_result_def)
qed

section \<open>The leaderboard\<close>

lemma scan_rows:
  "length (scanLeaderboardRows k rows) = length rows" "map e_Score (scanLeaderboardRows k rows) = map (\<lambda>(k, s, a). s) rows"
  by (induction k rows rule: scanLeaderboardRows.induct) simp_all

lemma scan_ranks: "i < length rows \<Longrightarrow> e_Rank (scanLeaderboardRows k rows ! i) = k + int i"
proof (induction k rows arbitrary: i rule: scanLeaderboardRows.induct)
  case (2 rank uid nick s a rows)
  then show ?case by (cases i) auto
qed simp

text \<open>What a grouped row says about the results it was made from.\<close>

definition board_sound :: "result_row list \<Rightarrow> board_row list \<Rightarrow> bool" where
  "board_sound rs al \<longleftrightarrow> wf_map al
     \<and> (\<forall>k s a. map_of al k = Some (s, a) \<longrightarrow> (\<exists>r \<in> set rs. (res_UserID r, res_Nickname r) = k \<and> res_Score r = s))
     \<and> (\<forall>r \<in> set rs. \<exists>s a. map_of al (res_UserID r, res_Nickname r) = Some (s, a) \<and> res_Score r \<le> s)"

lemma wf_map_snoc: "wf_map al \<Longrightarrow> map_of al k = None \<Longrightarrow> wf_map (al @ [(k, v)])"
  by (auto simp: wf_map_def map_of_eq_None_iff)

lemma map_of_snoc: "map_of al k = None \<Longrightarrow> map_of (al @ [(k, v)]) = (map_of al)(k \<mapsto> v)"
  by (auto simp: fun_eq_iff map_add_def split: option.split)

lemma add_best_map:
  assumes "wf_map al"
  obtains s a where "wf_map (add_best r al)" "map_of (add_best r al) = (map_of al)((res_UserID r, res_Nickname r) \<mapsto> (s, a))"
    "res_Score r \<le> s" "\<And>s' a'. map_of al (res_UserID r, res_Nickname r) = Some (s', a') \<Longrightarrow> s' \<le> s"
    "s = res_Score r \<or> (\<exists>a'. map_of al (res_UserID r, res_Nickname r) = Some (s, a'))"
proof (cases "map_of al (res_UserID r, res_Nickname r)")
  case None
  then show ?thesis using that [of "res_Score r" "res_CreatedAt r"] wf_map_snoc [OF assms None] map_of_snoc [OF None]
    by (simp add: add_best_def)
next
  case (Some v)
  then show ?thesis using that [of "max (fst v) (res_Score r)" "max (snd v) (res_CreatedAt r)"] assms
    by (cases v) (auto simp: add_best_def max_def)
qed

lemma add_best_sound:
  assumes "board_sound rs al"
  shows "board_sound (rs @ [r]) (add_best r al)"
proof -
  have wf: "wf_map al" using assms by (simp add: board_sound_def)
  have from_rs: "\<exists>x \<in> set rs. (res_UserID x, res_Nickname x) = k \<and> res_Score x = s" if "map_of al k = Some (s, a)" for k s a
    using assms that unfolding board_sound_def by blast
  have covers: "\<exists>s a. map_of al (res_UserID x, res_Nickname x) = Some (s, a) \<and> res_Score x \<le> s" if "x \<in> set rs" for x
    using assms that unfolding board_sound_def by blast
  show ?thesis
  proof (rule add_best_map [OF wf, of r])
    fix s a
    assume wf': "wf_map (add_best r al)" and m: "map_of (add_best r al) = (map_of al)((res_UserID r, res_Nickname r) \<mapsto> (s, a))"
      and le: "res_Score r \<le> s" "\<And>s' a'. map_of al (res_UserID r, res_Nickname r) = Some (s', a') \<Longrightarrow> s' \<le> s"
      and s: "s = res_Score r \<or> (\<exists>a'. map_of al (res_UserID r, res_Nickname r) = Some (s, a'))"
    show ?thesis unfolding board_sound_def m
    proof (intro conjI allI impI ballI)
      fix k s' a' assume "((map_of al)((res_UserID r, res_Nickname r) \<mapsto> (s, a))) k = Some (s', a')"
      then show "\<exists>x \<in> set (rs @ [r]). (res_UserID x, res_Nickname x) = k \<and> res_Score x = s'"
        using s from_rs by (cases "k = (res_UserID r, res_Nickname r)") fastforce+
    next
      fix x assume "x \<in> set (rs @ [r])"
      then show "\<exists>s' a'. ((map_of al)((res_UserID r, res_Nickname r) \<mapsto> (s, a))) (res_UserID x, res_Nickname x) = Some (s', a') \<and> res_Score x \<le> s'"
        using le covers [of x] by (cases "(res_UserID x, res_Nickname x) = (res_UserID r, res_Nickname r)") (auto intro: order_trans)
    qed (rule wf')
  qed
qed

lemma fold_best_sound: "board_sound qs al \<Longrightarrow> board_sound (qs @ rs) (fold add_best rs al)"
proof (induction rs arbitrary: qs al)
  case (Cons r rs)
  from Cons.IH [OF add_best_sound [OF Cons.prems, of r]] show ?case by simp
qed simp

text \<open>C24: The leaderboard has at most the requested number of entries (50 for a limit outside 1 to 100), ranked 1, 2, 3 and
  so on by falling scores; every score is positive and was reached in a finished game, and the first entry has the
  best of them.\<close>

theorem leaderboard_ranks_best_scores:
  assumes "GetLeaderboard now scope limit d = (Inr es, d')"
  defines "good \<equiv> \<lambda>r. session_ended (db d) r \<and> res_Score r > 0 \<and> (scope = str ''weekly'' \<longrightarrow> res_CreatedAt r \<ge> now - 604800000)"
  shows "length es \<le> nat (if limit \<le> 0 \<or> limit > 100 then 50 else limit)
    \<and> map e_Rank es = map (\<lambda>i. 1 + int i) [0..<length es]
    \<and> sorted_wrt (\<ge>) (map e_Score es)
    \<and> list_all (\<lambda>e. list_ex (\<lambda>r. good r \<and> res_Score r = e_Score e) (game_results (db d))) es
    \<and> (es \<noteq> [] \<longrightarrow> list_all (\<lambda>r. good r \<longrightarrow> res_Score r \<le> e_Score (hd es)) (game_results (db d)))"
proof -
  define n where "n = nat (if limit \<le> 0 \<or> limit > 100 then 50 else limit)"
  define rows where "rows = filter good (game_results (db d))"
  define al where "al = fold add_best rows []"
  define full where "full = sort_key (\<lambda>(k, s, a). - s) (sort_key (\<lambda>(k, s, a). a) al)"
  have "leaderboardQuery now scope n (db d) = (Inr (take n full), db d)"
    by (simp add: leaderboardQuery_def Let_def full_def al_def rows_def good_def)
  moreover obtain res d2 where w: "withRetry (leaderboardQuery now scope n) d = (res, d2)" by fastforce
  moreover note board.withRetry_once [OF w]
  ultimately have es: "es = scanLeaderboardRows 1 (take n full)"
    using assms(1) by (auto simp: GetLeaderboard_def Let_def n_def [symmetric] split: sum.splits)
  have sorted: "sorted_wrt (\<ge>) (map (\<lambda>(k, s, a). s) full)"
    using sorted_sort_key [of "\<lambda>(k, s, a). - s" "sort_key (\<lambda>(k, s, a). a) al"]
    by (simp add: full_def sorted_wrt_map split_def)
  have set_full: "set full = set al" by (simp add: full_def)
  have bs: "board_sound rows al" using fold_best_sound [of "[]" "[]" rows] by (simp add: al_def board_sound_def)
  have from_rows: "\<exists>r \<in> set rows. res_Score r = s" if mem: "(k, s, a) \<in> set al" for k s a
  proof -
    have "map_of al k = Some (s, a)" using mem bs by (simp add: board_sound_def in_set_map_of)
    then show ?thesis using bs unfolding board_sound_def by blast
  qed
  have covers: "\<exists>k s a. (k, s, a) \<in> set al \<and> res_Score r \<le> s" if mem: "r \<in> set rows" for r
    using bs mem unfolding board_sound_def by (meson map_of_SomeD)
  have scores: "map e_Score es = take n (map (\<lambda>(k, s, a). s) full)" by (simp add: es scan_rows take_map)
  have "length es \<le> n" "map e_Rank es = map (\<lambda>i. 1 + int i) [0..<length es]"
    by (simp_all add: es scan_rows scan_ranks list_eq_iff_nth_eq)
  moreover have "sorted_wrt (\<ge>) (map e_Score es)" unfolding scores by (rule sorted_wrt_take [OF sorted])
  moreover have "list_ex (\<lambda>r. good r \<and> res_Score r = e_Score e) (game_results (db d))" if "e \<in> set es" for e
  proof -
    have "e_Score e \<in> set (map (\<lambda>(k, s, a). s) full)" using that scores by (metis image_eqI in_set_takeD set_map)
    then show ?thesis using from_rows set_full by (fastforce simp: rows_def list_ex_iff)
  qed
  moreover have "res_Score r \<le> e_Score (hd es)" if ne: "es \<noteq> []" and r: "r \<in> set (game_results (db d))" "good r" for r
  proof -
    obtain k s a where k: "(k, s, a) \<in> set full" "res_Score r \<le> s" using covers [of r] r set_full by (auto simp: rows_def)
    have "full \<noteq> []" "e_Score (hd es) = hd (map (\<lambda>(k, s, a). s) full)"
      using ne scores by (auto simp: es hd_map [symmetric] simp del: hd_map) (metis hd_take length_greater_0_conv list.map_disc_iff list.map_sel(1) scores take_eq_Nil zero_less_iff_neq_zero)
    then show ?thesis using k sorted by (cases full) auto
  qed
  ultimately show ?thesis unfolding n_def by (auto simp: list_all_iff)
qed

definition board_db :: database where
  "board_db = demo_db\<lparr>db := (db demo_db)\<lparr>users := [demo_user],
     game_sessions := [\<lparr>gs_ID = [1], gs_LobbyCode = [], gs_CreatedBy = None, gs_Status = str ''ended'', gs_StartedAt = None,
        gs_EndedAt = Some 9, gs_FinalScore = 3\<rparr>],
     game_results := [\<lparr>res_ID = [1], res_SessionID = [1], res_UserID = [7], res_Nickname = [], res_Score = 3, res_Taps = 3, res_CreatedAt = 9\<rparr>]\<rparr>\<rparr>"

theorem leaderboard_ranks_best_scores_witness:
  "\<exists>e d'. GetLeaderboard 0 [] 10 board_db = (Inr [e], d') \<and> e_Rank e = 1 \<and> 3 \<le> e_Score e"
proof -
  obtain e d' where 1: "GetLeaderboard 0 [] 10 board_db = (Inr [e], d')"
    by (simp add: GetLeaderboard_def withRetry_runs board_db_def demo_db_def leaderboardQuery_def session_ended_def add_best_def str_def Let_def)
  from leaderboard_ranks_best_scores [OF 1] show ?thesis using 1
    by (auto simp: board_db_def demo_db_def session_ended_def str_def)
qed

end
