(* ===== verification/Room_Behaviour.thy ===== *)
theory Room_Behaviour
  imports Room_Machine
begin

text \<open>
  What the handlers of joining, leaving, messages and taps do, on every branch: expired players, full rooms, the
  message rate limit, taps, and reconnecting.
\<close>

section \<open>Frames\<close>

lemma aux_state: "aux r r' \<Longrightarrow> state r' = state r" and aux_used: "aux r r' \<Longrightarrow> usedNames r' = usedNames r"
  by (simp_all add: aux_core)

lemmas state_broadcast [simp] = aux_state [OF aux_broadcast] and used_broadcast [simp] = aux_used [OF aux_broadcast]

lemma state_removeConnection [simp]: "state (removeConnectionLocked pid r) = state r"
  by (rule aux_state [OF aux_removeConnectionLocked])

lemma conn_removeConnection [simp]: "map_of (connections (removeConnectionLocked pid r)) pid = None"
  by (auto simp: removeConnectionLocked_def del_conn_def split: option.split)

lemma sendToPlayer_state: "sendToPlayer pid d r = Some r' \<Longrightarrow> state r' = state r \<and> usedNames r' = usedNames r"
  by (auto simp: sendToPlayer_def set_conn_def split: option.splits if_splits)

section \<open>A player to evaluate on\<close>

definition demo_player :: player where
  "demo_player = \<lparr>p_ID = str ''p1'', p_PlayerIndex = 0, p_Nickname = str ''Ann'', p_Palette = 0, p_CooldownEndTime = 0,
     p_ScoreContribution = 0, p_TapsCount = 0, p_MessageCount = 0, p_MessageWindowStart = 0, p_LastNicknameChange = 0,
     p_NicknameConfirmed = True, p_Disconnected = False, p_DisconnectedAt = None\<rparr>"

definition with_player :: "player \<Rightarrow> room" where
  "with_player p = (set_player (str ''p1'') p demo_room)\<lparr>usedNames := {p_Nickname p}\<rparr>"

lemma demo_frame: "Players (state demo_room) = []" "Phase (state demo_room) = PhaseWaiting" "usedNames demo_room = {}"
  "maxPlayers demo_room = 50" "connections demo_room = []" "room_crand demo_room = failing_crand"
  by (simp_all add: demo_room_def NewRoom_def Let_def split_def NewGameState_frame)

lemma with_player_frame:
  "Players (state (with_player p)) = [(str ''p1'', p)]" "maxPlayers (with_player p) = 50" "connections (with_player p) = []"
  "map_of (Players (state (with_player p))) (str ''p1'') = Some p" "Phase (state (with_player p)) = PhaseWaiting"
  by (simp_all add: with_player_def set_player_def demo_frame)

lemma with_player_inv: "player_ok (str ''p1'') p \<Longrightarrow> room_inv (with_player p)"
  using players_ok_add [OF players_ok_Nil, of "str ''p1''" p] demo_inv
  by (simp add: with_player_def set_player_def room_inv_def core_ok_def demo_frame)

lemma demo_player_ok: "player_ok (str ''p1'') demo_player"
proof -
  have "good_nick (str ''Ann'')" unfolding good_nick_def by code_simp
  then show ?thesis by (simp add: player_ok_def demo_player_def MaxScore_def)
qed

section \<open>Expired players\<close>

text \<open>The reference: keep who is not expired.\<close>

definition survivors :: "int \<Rightarrow> (gostring \<times> player) list \<Rightarrow> (gostring \<times> player) list" where
  "survivors now ps = filter (\<lambda>(pid, p). \<not> expired now p) ps"

lemma delete_filter:
  "wf_map ps \<Longrightarrow> map_of ps pid = Some p \<Longrightarrow> AList.delete pid ps = filter (\<lambda>(k, v). (k, v) \<noteq> (pid, p)) ps"
  unfolding AList.delete_eq by (rule filter_cong) (auto simp: in_set_map_of)

lemma cleanup_fold_players:
  "wf_map (Players (state r)) \<Longrightarrow> wf_map ps \<Longrightarrow> (\<And>pid p. (pid, p) \<in> set ps \<Longrightarrow> map_of (Players (state r)) pid = Some p) \<Longrightarrow>
    Players (state (fold (cleanup_one now) ps r)) = filter (\<lambda>(k, v). \<not> ((k, v) \<in> set ps \<and> expired now v)) (Players (state r))"
proof (induction ps arbitrary: r)
  case (Cons x ps)
  obtain pid p where x: "x = (pid, p)" by fastforce
  have p: "map_of (Players (state r)) pid = Some p" using Cons.prems(3) x by simp
  define r' where "r' = cleanup_one now x r"
  have e: "Players (state r') = (if expired now p then AList.delete pid (Players (state r)) else Players (state r))"
    by (simp add: r'_def cleanup_one_def x drop_player_def Let_def upd_state_def)
  have ne: "a \<noteq> pid" if "(a, b) \<in> set ps" for a b
    using Cons.prems(2) that x by (auto simp: wf_map_def intro: rev_image_eqI)
  have "Players (state (fold (cleanup_one now) ps r')) =
      filter (\<lambda>(k, v). \<not> ((k, v) \<in> set ps \<and> expired now v)) (Players (state r'))"
  proof (rule Cons.IH)
    show "wf_map (Players (state r'))" using Cons.prems(1) by (simp add: e)
    show "wf_map ps" using Cons.prems(2) by (simp add: wf_map_def)
    show "map_of (Players (state r')) a = Some b" if "(a, b) \<in> set ps" for a b
      using Cons.prems(3) [of a b] that ne [OF that] by (simp add: e)
  qed
  moreover have "filter (\<lambda>(k, v). \<not> ((k, v) \<in> set ps \<and> expired now v)) (Players (state r')) =
      filter (\<lambda>(k, v). \<not> ((k, v) \<in> set (x # ps) \<and> expired now v)) (Players (state r))"
    unfolding e x delete_filter [OF Cons.prems(1) p] by (auto intro!: filter_cong)
  ultimately show ?case by (simp add: r'_def)
qed simp

lemma cleanup_players: "wf_map (Players (state r)) \<Longrightarrow> Players (state (cleanupDisconnected now r)) = survivors now (Players (state r))"
  unfolding cleanupDisconnected_def
  by (subst cleanup_fold_players) (auto simp: survivors_def in_set_map_of intro!: filter_cong)

text \<open>The clean-up of a tick removes exactly the players whose reconnection grace of 30 seconds is over, keeps the
  others in place, and frees exactly the names of the removed ones.\<close>

theorem cleanup_removes_expired:
  assumes "room_inv r"
  shows "Players (state (cleanupDisconnected now r)) = filter (\<lambda>(pid, p). \<not> expired now p) (Players (state r))
    \<and> usedNames (cleanupDisconnected now r) = (p_Nickname \<circ> snd) ` set (filter (\<lambda>(pid, p). \<not> expired now p) (Players (state r)))"
proof -
  have "wf_map (Players (state r))" using assms by (simp add: room_inv_def core_ok_def players_ok_def)
  from cleanup_players [OF this] have p: "Players (state (cleanupDisconnected now r)) = survivors now (Players (state r))" .
  moreover have "room_inv (cleanupDisconnected now r)" by (rule quiet_inv [OF cleanupDisconnected_quiet [OF assms]])
  then have "usedNames (cleanupDisconnected now r) = (p_Nickname \<circ> snd) ` set (Players (state (cleanupDisconnected now r)))"
    by (intro players_ok_names) (simp add: room_inv_def core_ok_def)
  ultimately show ?thesis by (simp add: survivors_def)
qed

theorem cleanup_removes_expired_witness:
  "Players (state (cleanupDisconnected 5 demo_room)) = []"
proof -
  have "Players (state demo_room) = []" by (simp add: demo_room_def NewRoom_def Let_def split_def NewGameState_frame)
  with cleanup_removes_expired [OF demo_inv, of 5] show ?thesis by simp
qed

section \<open>Joining a full room\<close>

definition conn_closed :: "nat \<Rightarrow> room \<Rightarrow> bool" where
  "conn_closed k r \<longleftrightarrow> k \<in> set (closedConns r)"

text \<open>A new player who joins a full room gets the error, the connection is closed and forgotten, and the
  game is as it was.\<close>

theorem join_full_room:
  assumes "map_of (Players (state r)) pid = None" "maxPlayers r \<le> int (length (Players (state r)))"
  shows "\<exists>r'. HandleJoin pid conn r = Some (Some ErrRoomFull, r') \<and> state r' = state r \<and> usedNames r' = usedNames r
    \<and> connections r' = AList.delete pid (connections r) \<and> conn \<in> set (closedConns r')"
  using assms
  by (simp add: HandleJoin_def closeExistingConnection_def addNewPlayer_def set_conn_def del_conn_def close_conn_def
      delete_update_same conn_closed_def)

theorem join_full_room_witness:
  "\<exists>r'. HandleJoin (str ''p2'') 7 ((with_player demo_player)\<lparr>maxPlayers := 1\<rparr>) = Some (Some ErrRoomFull, r')
     \<and> conn_closed 7 r'"
proof -
  have "str ''p2'' \<noteq> str ''p1''" by code_simp
  then have "map_of (Players (state ((with_player demo_player)\<lparr>maxPlayers := 1\<rparr>))) (str ''p2'') = None"
    by (simp add: with_player_frame)
  from join_full_room [OF this, of 7] show ?thesis by (auto simp: with_player_frame conn_closed_def)
qed

section \<open>The rate limit\<close>

text \<open>The message that exceeds 100 messages in a window of 60 seconds is not acted upon: the player is marked as
  disconnected and loses the connection, and the game and the other players are as they were. A message within
  the limit is never refused in this way.\<close>

theorem rate_limit:
  assumes "room_inv r" "map_of (Players (state r)) pid = Some p"
  shows "(fst (Now r) - p_MessageWindowStart p \<le> 60000 \<and> 100 \<le> p_MessageCount p \<longrightarrow>
      (\<exists>r' q. HandleMessage ml pid t payload r = Some (Some ErrRateLimited, r')
        \<and> state r' = (state r)\<lparr>Players := AList.update pid q (Players (state r))\<rparr>
        \<and> p_Disconnected q \<and> p_DisconnectedAt q = Some (fst (Now r)) \<and> p_Nickname q = p_Nickname p
        \<and> map_of (connections r') pid = None))
    \<and> (\<not> (fst (Now r) - p_MessageWindowStart p \<le> 60000 \<and> 100 \<le> p_MessageCount p) \<longrightarrow>
      (\<forall>e r'. HandleMessage ml pid t payload r = Some (e, r') \<longrightarrow> e = None))"
proof (intro conjI impI allI)
  assume "fst (Now r) - p_MessageWindowStart p \<le> 60000 \<and> 100 \<le> p_MessageCount p"
  then have c: "\<not> MessageWindowMs < fst (Now r) - p_MessageWindowStart p" "MessageRateLimit < p_MessageCount p + 1"
    by (auto simp: MessageWindowMs_def MessageRateLimit_def)
  let ?q = "MarkDisconnected (fst (Now r)) (p\<lparr>p_MessageCount := p_MessageCount p + 1\<rparr>)"
  have "HandleMessage ml pid t payload r = Some (Some ErrRateLimited, removeConnectionLocked pid (set_player pid ?q (tick_env r)))"
    using c assms(2) by (simp add: HandleMessage_def enforceRateLimit_def Let_def Now_def)
  then show "\<exists>r' q. HandleMessage ml pid t payload r = Some (Some ErrRateLimited, r')
        \<and> state r' = (state r)\<lparr>Players := AList.update pid q (Players (state r))\<rparr>
        \<and> p_Disconnected q \<and> p_DisconnectedAt q = Some (fst (Now r)) \<and> p_Nickname q = p_Nickname p
        \<and> map_of (connections r') pid = None"
    by (intro exI [of _ "removeConnectionLocked pid (set_player pid ?q (tick_env r))"] exI [of _ ?q] conjI)
      (simp_all add: set_player_def MarkDisconnected_def)
next
  fix e r'
  assume "\<not> (fst (Now r) - p_MessageWindowStart p \<le> 60000 \<and> 100 \<le> p_MessageCount p)"
    and h: "HandleMessage ml pid t payload r = Some (e, r')"
  then have "fst (enforceRateLimit pid p r) = None"
    by (auto simp: enforceRateLimit_def Let_def Now_def MessageWindowMs_def MessageRateLimit_def)
  then show "e = None" using h assms(2)
    by (auto simp: HandleMessage_def bind_eq_Some_conv split: prod.splits option.splits)
qed


theorem rate_limit_witness:
  "\<exists>r'. HandleMessage zero_math (str ''p1'') MsgPing [] (with_player (demo_player\<lparr>p_MessageCount := 100\<rparr>)) = Some (Some ErrRateLimited, r')"
proof -
  let ?p = "demo_player\<lparr>p_MessageCount := 100\<rparr>" and ?r = "with_player (demo_player\<lparr>p_MessageCount := 100\<rparr>)"
  have "env ?r = zero_env" by (simp add: with_player_def set_player_def demo_room_def NewRoom_def Let_def split_def)
  then have "fst (Now ?r) - p_MessageWindowStart ?p \<le> 60000 \<and> 100 \<le> p_MessageCount ?p"
    by (simp add: Now_def zero_env_def demo_player_def)
  then show ?thesis
    using rate_limit [OF with_player_inv with_player_frame(4), of ?p zero_math MsgPing "[]"] demo_player_ok by auto
qed

section \<open>Taps\<close>

text \<open>The coordinates in a payload, and what a tap there does to balloon and ghost.\<close>

definition tap_point :: "byte list \<Rightarrow> f64 \<times> f64" where
  "tap_point payload = (Float32frombits (get_u32 payload), Float32frombits (get_u32 (drop 4 payload)))"

definition tap_in_reach :: "f64 \<Rightarrow> f64 \<Rightarrow> balloon \<Rightarrow> bool" where
  "tap_in_reach x y b \<longleftrightarrow> \<not> flit (1225 / 10000) < (b_X b - x) * (b_X b - x) + (b_Y b - y) * (b_Y b - y)"

definition pushed :: "f64 \<Rightarrow> f64 \<Rightarrow> balloon \<Rightarrow> balloon" where
  "pushed x y b =
     (let dx = b_X b - x; dy = b_Y b - y; d = fhypot dx dy; force = flit (25 / 1000) * (flit 1 - d / flit (35 / 100))
      in if d < flit (1 / 10 ^ 15) then b\<lparr>b_VY := b_VY b + flit (25 / 1000), b_Score := b_Score b + 1\<rparr>
         else b\<lparr>b_VX := b_VX b + dx / d * force, b_VY := b_VY b + dy / d * force, b_Score := b_Score b + 1\<rparr>)"

definition scared :: "f64 \<Rightarrow> f64 \<Rightarrow> ghost \<Rightarrow> ghost" where
  "scared x y h =
     (if g_Active h \<and> fsqrt ((g_X h - x) * (g_X h - x) + (g_Y h - y) * (g_Y h - y)) < flit (15 / 100) then h\<lparr>g_RepelTimer := 30\<rparr> else h)"

lemma in_unit: "\<not> isNaN x \<and> \<not> isInf x \<and> \<not> x < 0 \<and> \<not> flit 1 < x \<longleftrightarrow> 0 \<le> x \<and> x \<le> flit 1"
proof -
  have "flit 1 = Fin False 1" by code_simp
  then show ?thesis
    by (cases x) (auto simp: isNaN_def isInf_def less_f64_def less_eq_f64_def zero_f64_def)
qed

lemma tap_decoded:
  "decodeTapPayload payload = (let (x, y) = tap_point payload
     in if 8 \<le> length payload \<and> 0 \<le> x \<and> x \<le> flit 1 \<and> 0 \<le> y \<and> y \<le> flit 1 then Some (x, y) else None)"
  using in_unit [of "fst (tap_point payload)"] in_unit [of "snd (tap_point payload)"]
  by (auto simp: decodeTapPayload_def DecodeTap_def tap_point_def)

lemma tap_applied:
  "map_option (\<lambda>s. s\<lparr>Balloon := (Balloon s)\<lparr>b_Score := b_Score (Balloon s) + 1\<rparr>\<rparr>) (applyTapPhysics x y s) =
     (if tap_in_reach x y (Balloon s) then Some (s\<lparr>Balloon := pushed x y (Balloon s), Ghost := scared x y (Ghost s)\<rparr>) else None)"
  by (auto simp: applyTapPhysics_def ApplyTapForce_def ApplyGhostRepel_def tap_in_reach_def pushed_def scared_def TapRangeSq_def tapDistEpsilon_def
      TapForce_def TapRange_def GhostRepelRadius_def GhostRepelDuration_def Let_def)

text \<open>C5: A tap is accepted when the room is in a round, the cooldown of the player is over, the payload has two coordinates, both from 0
  to 1, and their distance from the balloon is at most 0.35. It pushes the balloon away from them, by 0.025 times one minus
  the distance in relation to 0.35 (straight up when they are the same), adds one to its score, and scares a ghost that is nearer
  than 0.15; it adds one to the score and the taps of the player and starts the cooldown, unless the player has the maximum score
  already: then nothing of the player changes. Nothing else of the game changes. Every other tap is answered with a rejection and leaves
  the game as it is.\<close>

theorem tap_handling:
  assumes "room_inv r" "map_of (Players (state r)) pid = Some p"
  shows "let (x, y) = tap_point payload; s = state r
    in if Phase s = PhasePlaying \<and> p_CooldownEndTime p \<le> fst (Now r)
          \<and> 8 \<le> length payload \<and> 0 \<le> x \<and> x \<le> flit 1 \<and> 0 \<le> y \<and> y \<le> flit 1 \<and> tap_in_reach x y (Balloon s)
       then returns (handleTap ml pid p payload r) (\<lambda>r'. state r' = s\<lparr>Balloon := pushed x y (Balloon s), Ghost := scared x y (Ghost s),
          Players := AList.update pid (if p_ScoreContribution p < 9999
            then p\<lparr>p_CooldownEndTime := fst (Now r) + CalculateCooldown ml (int (length (Players s))),
                   p_TapsCount := p_TapsCount p + 1, p_ScoreContribution := p_ScoreContribution p + 1\<rparr>
            else p) (Players s)\<rparr>)
       else handleTap ml pid p payload r = sendToPlayer pid EncodeTapRejected (tick_env r)
          \<and> returns (handleTap ml pid p payload r) (\<lambda>r'. state r' = s)"
proof -
  obtain x y where t: "tap_point payload = (x, y)" by fastforce
  have n: "Now r = (fst (Now r), tick_env r)" by (simp add: Now_def)
  have reject: "returns (sendToPlayer pid EncodeTapRejected (tick_env r)) (\<lambda>r'. state r' = state r)"
    using sendToPlayer_returns [of "tick_env r" pid EncodeTapRejected] inv_infra [OF assms(1)]
    by (auto elim!: returns_mono simp: aux_state)
  show ?thesis
  proof (cases "Phase (state r) = PhasePlaying \<and> p_CooldownEndTime p \<le> fst (Now r)
      \<and> 8 \<le> length payload \<and> 0 \<le> x \<and> x \<le> flit 1 \<and> 0 \<le> y \<and> y \<le> flit 1 \<and> tap_in_reach x y (Balloon (state r))")
    case True
    then obtain s where s: "applyTapPhysics x y (state r) = Some s"
      "s\<lparr>Balloon := (Balloon s)\<lparr>b_Score := b_Score (Balloon s) + 1\<rparr>\<rparr> = (state r)\<lparr>Balloon := pushed x y (Balloon (state r)), Ghost := scared x y (Ghost (state r))\<rparr>"
      using tap_applied [of x y "state r"] by (cases "applyTapPhysics x y (state r)") auto
    have ps: "Players s = Players (state r)" using arg_cong [OF s(2), of Players] by simp
    have "state (broadcastTapResult q c (upd_state (\<lambda>s. s\<lparr>Balloon := (Balloon s)\<lparr>b_Score := b_Score (Balloon s) + 1\<rparr>\<rparr>) (set_player pid q (tick_env r\<lparr>state := s\<rparr>))))
        = (s\<lparr>Balloon := (Balloon s)\<lparr>b_Score := b_Score (Balloon s) + 1\<rparr>\<rparr>)\<lparr>Players := AList.update pid q (Players (state r))\<rparr>" for q c
      by (simp add: broadcastTapResult_def upd_state_def set_player_def ps)
    then have "returns (handleTap ml pid p payload r) (\<lambda>r'. state r' =
        (s\<lparr>Balloon := (Balloon s)\<lparr>b_Score := b_Score (Balloon s) + 1\<rparr>\<rparr>)
          \<lparr>Players := AList.update pid (RecordTap (fst (Now r)) (CalculateCooldown ml (int (length (Players (state r))))) p) (Players (state r))\<rparr>)"
      using True s(1) unfolding handleTap_def
      by (subst n) (simp add: tap_decoded t validateTapRequest_def CanTap_def updatePlayerStats_def Let_def ps)
    then show ?thesis using True by (cases "p_ScoreContribution p < 9999") (simp_all add: t s(2) RecordTap_def MaxScore_def Let_def)
  next
    case False
    then have "handleTap ml pid p payload r = sendToPlayer pid EncodeTapRejected (tick_env r)"
      using tap_applied [of x y "state r"] unfolding handleTap_def
      by (subst n) (auto simp: tap_decoded t validateTapRequest_def CanTap_def Let_def split: option.splits if_splits)
    then show ?thesis using reject unfolding t Let_def prod.case if_not_P [OF False] by simp
  qed
qed

text \<open>A tap right below the balloon at the start of a round.\<close>

definition demo_round :: room where
  "demo_round = upd_state (\<lambda>s. s\<lparr>Phase := PhasePlaying\<rparr>) (with_player demo_player)"

lemma demo_round_balloon: "Balloon (state (with_player demo_player)) = createInitialBalloon"
  by (simp add: with_player_def set_player_def demo_room_def NewRoom_def NewGameState_def Let_def split_def)

lemma demo_round_inv: "room_inv demo_round"
  using with_player_inv [OF demo_player_ok] with_player_frame(5) [of demo_player] createInitial_ok(2)
  by (simp add: demo_round_def upd_state_def room_inv_def core_ok_def world_ok_def phys_ok_def wind_ok_def demo_round_balloon)

definition demo_tap :: "byte list" where
  "demo_tap = put_u32 (float32_bits (flit (1/2))) @ put_u32 (float32_bits (flit (3/4)))"

lemma demo_tap_point: "tap_point demo_tap = (flit (1/2), flit (3/4))" "length demo_tap = 8"
  by code_simp+

theorem tap_handling_witness:
  "\<exists>r'. handleTap zero_math (str ''p1'') demo_player demo_tap demo_round = Some r'
     \<and> b_Score (Balloon (state r')) = 1 \<and> map_option p_TapsCount (map_of (Players (state r')) (str ''p1'')) = Some 1"
proof -
  have m: "map_of (Players (state demo_round)) (str ''p1'') = Some demo_player" by (simp add: demo_round_def upd_state_def with_player_frame)
  have b: "Balloon (state demo_round) = createInitialBalloon" by (simp add: demo_round_def upd_state_def demo_round_balloon)
  have "tap_in_reach (flit (1/2)) (flit (3/4)) createInitialBalloon" by code_simp
  moreover have "0 \<le> flit (1/2)" "flit (1/2) \<le> flit 1" "0 \<le> flit (3/4)" "flit (3/4) \<le> flit 1" by code_simp+
  moreover have "Phase (state demo_round) = PhasePlaying" by (simp add: demo_round_def upd_state_def)
  moreover have "p_CooldownEndTime demo_player \<le> fst (Now demo_round)" 
    by (simp add: demo_player_def Now_def demo_round_def upd_state_def with_player_def set_player_def demo_room_def NewRoom_def zero_env_def Let_def split_def)
  moreover have "b_Score (pushed x y createInitialBalloon) = 1" for x y by (simp add: pushed_def createInitialBalloon_def Let_def)
  moreover have "p_TapsCount demo_player = 0" "p_ScoreContribution demo_player = 0" by (simp_all add: demo_player_def)
  ultimately show ?thesis
    using tap_handling [OF demo_round_inv m, where payload = demo_tap and ml = zero_math]
    by (auto simp: demo_tap_point b returns_def Let_def update_conv')
qed

section \<open>Reconnecting\<close>

lemma resume_state: "resumeCountdownForReconnect pid r = Some r' \<Longrightarrow> state r' = state r"
  by (auto simp: resumeCountdownForReconnect_def remainingCountdownMs_def Now_def Let_def bind_eq_Some_conv
      aux_state [OF aux_alarm_in] dest!: sendToPlayer_state)

lemma requestPersist_state: "room_inv r \<Longrightarrow> requestPersist r = Some r' \<Longrightarrow> state r' = state r"
  using returnsD [OF requestPersist_returns [OF inv_infra]] aux_state by blast

lemma reconnect_state:
  assumes r: "room_inv r" and p: "map_of (Players (state r)) pid = Some p" and ph: "Phase (state r) \<noteq> PhaseEnded"
  shows "returns (reconnectPlayer pid p r) (\<lambda>r'. state r' = (state r)\<lparr>Players :=
    AList.update pid (p\<lparr>p_Disconnected := False, p_DisconnectedAt := None\<rparr>) (Players (state r))\<rparr>)"
proof -
  obtain r' where r': "reconnectPlayer pid p r = Some r'" using reconnectPlayer_keeps [OF r p] by (auto simp: returns_def)
  define q where "q = p\<lparr>p_Disconnected := False, p_DisconnectedAt := None\<rparr>"
  define r1 where "r1 = set_player pid q r"
  have q1: "quiet r r1" using inv_player [OF r p] set_player_quiet [OF r p] by (simp add: r1_def q_def)
  obtain snap where b: "buildSnapshot r1 = Some (snap, tick_env r1)"
    using buildSnapshot_returns [OF inv_core [OF quiet_inv [OF q1]]] by (auto simp: returns_def)
  obtain r2 r3 where s: "sendToPlayer pid snap (tick_env r1) = Some r2" "requestPersist r2 = Some r3"
    and tail: "(let r = (if \<not> p_NicknameConfirmed q then startNicknameTimer pid r3 else r3) in case Phase (state r) of
       PhaseWaiting \<Rightarrow> Some (tryStartWhenAllReady r)
     | PhasePlaying \<Rightarrow> Some (if \<not> tickCancel r then startTick r else r)
     | PhaseCountdown \<Rightarrow> if \<not> tickCancel r then resumeCountdownForReconnect pid r else Some r
     | PhaseEnded \<Rightarrow> triggerAutoRestartIfEnded r
     | PhaseOther s \<Rightarrow> Some r) = Some r'"
    using r' unfolding reconnectPlayer_def Let_def q_def [symmetric] r1_def [symmetric] b Option.bind_lunit prod.case
    unfolding bind_eq_Some_conv by blast
  have "room_inv (tick_env r1)" using quiet_inv [OF q1] by simp
  then have "room_inv r2" using returnsD [OF sendToPlayer_quiet s(1)] quiet_inv by blast
  then have st: "state r3 = state r1"
    using requestPersist_state s(2) sendToPlayer_state [OF s(1)] by auto
  have "state r' = state r3" using tail ph st q1
    by (auto simp: Let_def aux_state [OF aux_timers(2)] aux_state [OF aux_timers(7)] aux_state [OF aux_timers(3)] quiet_def
        dest!: resume_state split: phase.splits if_splits)
  then show ?thesis using r' st by (simp add: r1_def q_def set_player_def)
qed

text \<open>The connection of a player: open, and not about to be dropped.\<close>

definition connected_by :: "gostring \<Rightarrow> nat \<Rightarrow> room \<Rightarrow> bool" where
  "connected_by pid conn r \<longleftrightarrow> (\<exists>c. map_of (connections r) pid = Some c \<and> c_Conn c = conn \<and> \<not> c_closed c \<and> \<not> c_pendingDisconnect c)"

lemma connections_kept:
  "connections (tick_env r) = connections r" "connections (startNicknameTimer pid r) = connections r"
  "connections (tryStartWhenAllReady r) = connections r" "connections (startTick r) = connections r"
  "connections (alarm_in ms r) = connections r" "requestPersist r = Some r' \<Longrightarrow> connections r' = connections r"
  by (auto simp: tick_env_def startNicknameTimer_def clearNicknameTimerLocked_def tryStartWhenAllReady_def startTick_def alarm_in_def
      setEndGameAlarm_def Now_def Let_def requestPersist_def bind_eq_Some_conv split: option.splits if_splits)

lemma connected_by_cong: "connections r' = connections r \<Longrightarrow> connected_by pid conn r' \<longleftrightarrow> connected_by pid conn r"
  by (simp add: connected_by_def)

lemma connected_by_send: "sendToPlayer pid d r = Some r' \<Longrightarrow> connected_by pid conn r \<Longrightarrow> connected_by pid conn r'"
  by (auto simp: sendToPlayer_def connected_by_def set_conn_def split: option.splits if_splits)

lemma reconnect_connects:
  assumes "reconnectPlayer pid p r = Some r'" "connected_by pid conn r" "Phase (state r) \<noteq> PhaseEnded"
  shows "connected_by pid conn r'"
proof -
  define q where "q = p\<lparr>p_Disconnected := False, p_DisconnectedAt := None\<rparr>"
  note u = assms(1) [unfolded reconnectPlayer_def Let_def, folded q_def]
  obtain snap r1 where s1: "buildSnapshot (set_player pid q r) = Some (snap, r1)"
    using u by (cases "buildSnapshot (set_player pid q r)") auto
  obtain r2 where s2: "sendToPlayer pid snap r1 = Some r2" using u by (cases "sendToPlayer pid snap r1") (simp_all add: s1)
  obtain r3 where s3: "requestPersist r2 = Some r3" using u by (cases "requestPersist r2") (simp_all add: s1 s2)
  note s = s1 s2 s3
  have tail: "(let r = (if \<not> p_NicknameConfirmed q then startNicknameTimer pid r3 else r3) in case Phase (state r) of
       PhaseWaiting \<Rightarrow> Some (tryStartWhenAllReady r)
     | PhasePlaying \<Rightarrow> Some (if \<not> tickCancel r then startTick r else r)
     | PhaseCountdown \<Rightarrow> if \<not> tickCancel r then resumeCountdownForReconnect pid r else Some r
     | PhaseEnded \<Rightarrow> triggerAutoRestartIfEnded r
     | PhaseOther s \<Rightarrow> Some r) = Some r'"
    using u unfolding Let_def s Option.bind_lunit prod.case .
  have r1: "r1 = tick_env (set_player pid q r)" using s(1) by (auto simp: buildSnapshot_def Now_def)
  then have "connected_by pid conn r1" using assms(2) connected_by_cong [of r1 r] by (simp add: connections_kept set_player_def)
  then have 3: "connected_by pid conn r3" using connected_by_send [OF s(2)] connected_by_cong [OF connections_kept(6) [OF s(3)]] by simp
  define r4 where "r4 = (if \<not> p_NicknameConfirmed q then startNicknameTimer pid r3 else r3)"
  have 4: "connected_by pid conn r4" using 3 connected_by_cong [OF connections_kept(2)] by (simp add: r4_def)
  have "state r3 = state r2"
    using s(3) by (auto simp: requestPersist_def bind_eq_Some_conv split: option.splits if_splits)
  then have "Phase (state r4) \<noteq> PhaseEnded" using assms(3) sendToPlayer_state [OF s(2)]
    by (simp add: r4_def r1 set_player_def tick_env_def startNicknameTimer_def clearNicknameTimerLocked_def Now_def Let_def)
  moreover have "connected_by pid conn x" if res: "resumeCountdownForReconnect pid r4 = Some x" for x
  proof -
    obtain m y where "sendToPlayer pid m (tick_env r4) = Some y" "connections x = connections y"
      using res by (auto simp: resumeCountdownForReconnect_def remainingCountdownMs_def Now_def Let_def bind_eq_Some_conv connections_kept)
    then show ?thesis using connected_by_send 4 connected_by_cong connections_kept(1) by metis
  qed
  ultimately show ?thesis using tail 4 connected_by_cong [OF connections_kept(3)] connected_by_cong [OF connections_kept(4)]
    unfolding r4_def [symmetric] by (auto simp: Let_def split: phase.splits if_splits)
qed

subsection \<open>The time between\<close>

text \<open>The ticks at the times \<open>ts\<close>.\<close>

fun ticks :: "mathlib \<Rightarrow> int list \<Rightarrow> room \<Rightarrow> room option" where
  "ticks ml [] r = Some r"
| "ticks ml (t # ts) r = do { (b, r) \<leftarrow> tickOnceLocked ml t r; ticks ml ts r }"

lemma cleanup_player:
  assumes "map_of (Players (state r)) pid = Some p" "wf_map (Players (state r))" "\<not> expired now p"
  shows "map_of (Players (state (cleanupDisconnected now r))) pid = Some p"
proof -
  have one: "map_of (Players (state (cleanup_one now x s))) pid = Some p"
    if "map_of (Players (state s)) pid = Some p" "fst x \<noteq> pid \<or> \<not> expired now (snd x)" for x s
    using that by (auto simp: cleanup_one_def drop_player_def upd_state_def Let_def split_def)
  have "map_of (Players (state (fold (cleanup_one now) ps s))) pid = Some p"
    if "map_of (Players (state s)) pid = Some p" "\<forall>x\<in>set ps. fst x \<noteq> pid \<or> \<not> expired now (snd x)" for ps s
    using that by (induction ps arbitrary: s) (auto intro: one)
  moreover have "fst x \<noteq> pid \<or> \<not> expired now (snd x)" if "x \<in> set (Players (state r))" for x
    using assms that by (cases x) (auto simp: in_set_map_of)
  ultimately show ?thesis using assms(1) by (simp add: cleanupDisconnected_def)
qed

lemma end_players:
  assumes "room_inv (upd_state (\<lambda>s. s\<lparr>Phase := PhaseEnded\<rparr>) r)" "EndGameWithReason reason r = Some r'"
  shows "Players (state r') = Players (state r)"
proof -
  define r1 where "r1 = stopTick (upd_state (\<lambda>s. s\<lparr>Phase := PhaseEnded\<rparr>) r)"
  define r2 where "r2 = (if b_Y (Balloon (state r1)) < 0
    then upd_state (\<lambda>s. s\<lparr>Balloon := (Balloon (state r1))\<lparr>b_Y := 0\<rparr>\<rparr>) r1 else r1)"
  have i1: "room_inv r1" using aux_inv [OF aux_stopTick assms(1)] by (simp add: r1_def)
  have "world_ok ((state r1)\<lparr>Balloon := (Balloon (state r1))\<lparr>b_Y := 0\<rparr>\<rparr>)"
    using i1 fin_0_btw by (auto simp: room_inv_def core_ok_def world_ok_def phys_ok_def wind_ok_def balloon_ok_def btw_def r1_def
        stopTick_def upd_state_def)
  then have "quiet r1 r2" using i1 by (simp add: r2_def quiet_refl upd_state_quiet)
  then have i2: "room_inv r2" by (rule quiet_inv)
  obtain r3 where b: "broadcastGameEnded reason r2 = Some r3"
    and r': "r' = (let r = recordGameResultAsync r3 in if connections r \<noteq> [] then alarm_in AutoRestartMs r
        else upd_state (\<lambda>s. s\<lparr>Phase := PhaseWaiting\<rparr>) r)"
    using assms(2) unfolding EndGameWithReason_def Let_def r1_def [symmetric] r2_def [symmetric] bind_eq_Some_conv by auto
  have "state r3 = state r2" using returnsD [OF broadcastGameEnded_returns [OF i2] b] by (rule aux_state)
  then show ?thesis using aux_state [OF aux_timers(8), of r3] aux_state [OF aux_alarm_in]
    by (auto simp: r' r2_def r1_def stopTick_def upd_state_def Let_def)
qed

lemma tick_player:
  assumes ml: "mathlib_ok ml" and r: "room_inv r" and p: "map_of (Players (state r)) pid = Some p" "\<not> expired now p"
    and t: "tickOnceLocked ml now r = Some (b, r')"
  shows "map_of (Players (state r')) pid = Some p"
proof -
  define r1 where "r1 = cleanupDisconnected now r"
  have i1: "room_inv r1" unfolding r1_def by (rule quiet_inv [OF cleanupDisconnected_quiet [OF r]])
  have "wf_map (Players (state r))" using r by (simp add: room_inv_def core_ok_def players_ok_def)
  then have p1: "map_of (Players (state r1)) pid = Some p" unfolding r1_def by (rule cleanup_player [OF p(1) _ p(2)])
  obtain s g over where tp: "tick_physics ml (state r1) (room_rng r1) = (s, g, over)" by (metis prod_cases3)
  define r2 where "r2 = r1\<lparr>state := s, room_rng := g\<rparr>"
  show ?thesis
  proof (cases "Phase (state r1) = PhasePlaying \<and> Players (state r1) \<noteq> [] \<and> connections r1 \<noteq> []")
    case False
    then have "state r' = state r1"
      using t by (auto simp: tickOnceLocked_def Let_def stopTick_def simp flip: r1_def split: if_splits)
    then show ?thesis using p1 by simp
  next
    case True
    have w: "world_ok (state r1)" "rng_ok (room_rng r1)" using i1 by (simp_all add: room_inv_def core_ok_def)
    note ok = tick_physics_ok [OF w(1) conjunct1 [OF True] ml w(2) tp]
    have same: "Players (state r2) = Players (state r1)" using ok(1) by (simp add: r2_def)
    have e: "room_inv (upd_state (\<lambda>s. s\<lparr>Phase := PhaseEnded\<rparr>) r2)"
      using ok i1 by (simp add: r2_def room_inv_def core_ok_def infra_ok_def upd_state_def)
    have "Players (state r') = Players (state r2)"
      using t True tp by (auto simp: tickOnceLocked_def Let_def bind_eq_Some_conv simp flip: r1_def r2_def
          dest!: end_players [OF e] split: option.splits)
    then show ?thesis using same p1 by simp
  qed
qed

lemma ticks_player:
  assumes "mathlib_ok ml"
  shows "room_inv r \<Longrightarrow> map_of (Players (state r)) pid = Some p \<Longrightarrow> \<forall>t\<in>set ts. \<not> expired t p \<Longrightarrow>
    returns (ticks ml ts r) (\<lambda>r'. room_inv r' \<and> map_of (Players (state r')) pid = Some p \<and> (Phase (state r) = PhaseWaiting \<longrightarrow> Phase (state r') = PhaseWaiting))"
proof (induction ts arbitrary: r)
  case (Cons t ts)
  obtain b r1 where t: "tickOnceLocked ml t r = Some (b, r1)" "keeps r r1"
    using tickOnceLocked_keeps [OF assms Cons.prems(1), of t] by (auto simp: returns_def)
  have w: "Phase (state r1) = PhaseWaiting" if "Phase (state r) = PhaseWaiting"
    using t cleanupDisconnected_quiet [OF Cons.prems(1), of t] that by (auto simp: tickOnceLocked_def quiet_def Let_def)
  have "map_of (Players (state r1)) pid = Some p" using tick_player [OF assms Cons.prems(1,2) _ t(1)] Cons.prems(3) by simp
  then show ?case using Cons.IH [OF keeps_inv [OF t(2)]] Cons.prems(3) t(1) w by (auto elim!: returns_mono)
qed simp

text \<open>C22: A player loses the connection, ticks follow, none later than thirty seconds after the loss, and then the player joins again,
  in a room that is not at the end of a round. The player is the one of before: identifier, index, nickname, colour, score, cooldown
  and confirmation are unchanged; the player counts as present, and the room holds the new connection, open, as the connection of the player.\<close>

theorem reconnect_restores_player:
  assumes "mathlib_ok ml" "room_inv r" "map_of (Players (state r)) pid = Some p" "\<forall>t\<in>set ts. t - fst (Now r) \<le> 30000"
    and "ticks ml ts (HandleDisconnect pid r) = Some r2" "Phase (state r2) \<noteq> PhaseEnded"
  shows "returns (HandleJoin pid conn r2) (\<lambda>(e, r'). e = None \<and>
    map_of (Players (state r')) pid = Some (p\<lparr>p_Disconnected := False, p_DisconnectedAt := None\<rparr>) \<and> connected_by pid conn r')"
proof -
  define q where "q = MarkDisconnected (fst (Now r)) p"
  have "map_of (Players (state (HandleDisconnect pid r))) pid = Some q"
    using assms(3) by (auto simp: HandleDisconnect_def Let_def Now_def set_player_def clearNicknameTimerLocked_def del_conn_def tick_env_def q_def)
  moreover have "\<forall>t\<in>set ts. \<not> expired t q" using assms(4) by (auto simp: q_def expired_def MarkDisconnected_def ReconnectGraceMs_def)
  ultimately have r2: "room_inv r2" "map_of (Players (state r2)) pid = Some q"
    using returnsD [OF ticks_player [OF assms(1) quiet_inv [OF HandleDisconnect_quiet [OF assms(2)]]] assms(5)] by blast+
  define r3 where "r3 = set_conn pid \<lparr>c_Conn = conn, c_Send = [], c_closed = False, c_drops = 0, c_pendingDisconnect = False\<rparr> r2"
  have a: "aux r2 r3" unfolding r3_def by (rule aux_set_conn) (simp add: conn_ok_def WSChannelBuffer_def)
  have m: "map_of (Players (state r3)) pid = Some q" "Phase (state r3) \<noteq> PhaseEnded"
    using aux_state [OF a] r2 assms(6) by simp_all
  have c: "connected_by pid conn r3" by (simp add: r3_def connected_by_def set_conn_def)
  have "HandleJoin pid conn r2 = do { r \<leftarrow> reconnectPlayer pid q r3; Some (None, r) }"
    using r2(2) by (simp add: HandleJoin_def closeExistingConnection_def r3_def) (simp add: q_def MarkDisconnected_def)
  moreover obtain r' where r': "reconnectPlayer pid q r3 = Some r'"
    "map_of (Players (state r')) pid = Some (q\<lparr>p_Disconnected := False, p_DisconnectedAt := None\<rparr>)"
    using reconnect_state [OF aux_inv [OF a r2(1)] m] by (auto simp: returns_def)
  moreover have "q\<lparr>p_Disconnected := False, p_DisconnectedAt := None\<rparr> = p\<lparr>p_Disconnected := False, p_DisconnectedAt := None\<rparr>"
    by (simp add: q_def MarkDisconnected_def)
  ultimately show ?thesis using reconnect_connects [OF r'(1) c m(2)] by simp
qed

theorem reconnect_restores_player_witness:
  "\<exists>r2 r'. ticks zero_math [1000, 25000] (HandleDisconnect (str ''p1'') (with_player demo_player)) = Some r2
     \<and> HandleJoin (str ''p1'') 9 r2 = Some (None, r')
     \<and> map_of (Players (state r')) (str ''p1'') = Some demo_player \<and> connected_by (str ''p1'') 9 r'"
proof -
  let ?r = "with_player demo_player" and ?q = "MarkDisconnected (fst (Now (with_player demo_player))) demo_player"
  note i = with_player_inv [OF demo_player_ok]
  have now: "fst (Now ?r) = 0" by (simp add: Now_def with_player_def set_player_def demo_room_def NewRoom_def zero_env_def Let_def split_def)
  have d: "map_of (Players (state (HandleDisconnect (str ''p1'') ?r))) (str ''p1'') = Some ?q"
    using with_player_frame(4) [of demo_player]
    by (auto simp: HandleDisconnect_def Let_def Now_def set_player_def clearNicknameTimerLocked_def del_conn_def tick_env_def)
  have "Phase (state (HandleDisconnect (str ''p1'') ?r)) = PhaseWaiting"
    using HandleDisconnect_quiet [OF i, of "str ''p1''"] by (simp add: quiet_def with_player_frame)
  moreover have "\<forall>t\<in>set [1000, 25000]. \<not> expired t ?q" by (simp add: now expired_def MarkDisconnected_def ReconnectGraceMs_def)
  ultimately have "returns (ticks zero_math [1000, 25000] (HandleDisconnect (str ''p1'') ?r)) (\<lambda>r'. Phase (state r') = PhaseWaiting)"
    using ticks_player [OF zero_math_ok quiet_inv [OF HandleDisconnect_quiet [OF i]] d, of "[1000, 25000]"]
    by (auto simp del: ticks.simps elim!: returns_mono)
  then obtain r2 where r2: "ticks zero_math [1000, 25000] (HandleDisconnect (str ''p1'') ?r) = Some r2" "Phase (state r2) = PhaseWaiting"
    unfolding returns_def by blast
  have "demo_player\<lparr>p_Disconnected := False, p_DisconnectedAt := None\<rparr> = demo_player" by (simp add: demo_player_def)
  then show ?thesis
    using reconnect_restores_player [OF zero_math_ok i with_player_frame(4) _ r2(1), of 9] r2
    by (auto simp: now returns_def simp del: ticks.simps)
qed

text \<open>The disconnection of a session that has been replaced takes the new connection away, because the identifier of
  the player is all that \<^verbatim>\<open>HandleDisconnect\<close> looks at.\<close>

lemma stale_disconnect_removes_new_connection:
  assumes "map_of (Players (state r)) pid = Some p"
  shows "map_of (connections (HandleDisconnect pid r)) pid = None"
    "\<exists>q. map_of (Players (state (HandleDisconnect pid r))) pid = Some q \<and> p_Disconnected q"
  using assms by (simp_all add: HandleDisconnect_def Let_def Now_def set_player_def clearNicknameTimerLocked_def del_conn_def
      MarkDisconnected_def)

end
