(* ===== verification/Room_Rounds.thy ===== *)
theory Room_Rounds
  imports Room_Behaviour
begin

text \<open>
  The round as a whole: the vote on a restart, the snapshot a client is sent and decodes, the disconnection of a client
  that does not read, and the state that is written when the room closes.
\<close>

section \<open>Consensus on a restart\<close>

definition all_agree :: "game_state \<Rightarrow> bool" where
  "all_agree s \<longleftrightarrow> (let present = filter (\<lambda>p. \<not> p_Disconnected p) (map snd (Players s))
     in present \<noteq> [] \<and> list_all (\<lambda>p. map_of (RestartVotes s) (p_ID p) = Some True) present)"

lemma filter_all: "length xs \<le> length (filter P xs) \<longleftrightarrow> list_all P xs"
  using length_filter_le [of P xs] by (metis filter_True list_all_iff le_antisym length_filter_less linorder_not_less order_refl)

lemma votes_agree:
  "countRestartYesVotes (Players s) (RestartVotes s) = (y, n) \<Longrightarrow> y \<ge> n \<and> n > 0 \<longleftrightarrow> all_agree s"
proof -
  assume c: "countRestartYesVotes (Players s) (RestartVotes s) = (y, n)"
  define present where "present = filter (\<lambda>p. \<not> p_Disconnected p) (map snd (Players s))"
  have "y = length (filter (\<lambda>p. map_of (RestartVotes s) (p_ID p) = Some True) present)" "n = length present"
    using c unfolding countRestartYesVotes_def Let_def present_def [symmetric] by simp_all
  then show ?thesis unfolding all_agree_def Let_def present_def [symmetric] by (auto simp: filter_all)
qed

lemma cleanup_loop_kept:
  "cleanup_loop active ps r = (qs, r') \<Longrightarrow> keys qs = keys (filter (\<lambda>(pid, p). active pid \<and> \<not> p_Disconnected p) ps)
    \<and> list_all (\<lambda>(pid, p). p_ScoreContribution p = 0 \<and> p_TapsCount p = 0 \<and> p_MessageCount p = 0) qs"
proof (induction active ps r arbitrary: qs r' rule: cleanup_loop.induct)
  case (2 active pid p ps r)
  obtain ts s where t: "cleanup_loop active ps (tick_env r) = (ts, s)" by fastforce
  show ?case
  proof (cases "\<not> active pid \<or> p_Disconnected p")
    case True
    then show ?thesis using 2(1) [OF True] 2(3) by auto
  next
    case False
    then show ?thesis using 2(2) [OF False refl Now_def [symmetric] refl t] 2(3) t by (auto simp: Now_def)
  qed
qed simp

lemma broadcast_connections: "\<not> syncOutbound r \<Longrightarrow> connections (broadcast d x r) = connections r"
  by (simp add: broadcast_def Enqueue_def Let_def split: option.split)

text \<open>What a restart leaves of a room: the countdown, fresh objects, no votes, and exactly the players who are there.\<close>

definition restarted :: "room \<Rightarrow> game_state \<Rightarrow> bool" where
  "restarted r s \<longleftrightarrow> Phase s = PhaseCountdown \<and> TickCount s = 0 \<and> Balloon s = createInitialBalloon \<and> RestartVotes s = []
     \<and> keys (Players s) = keys (filter (\<lambda>(pid, p). pid \<in> set (keys (connections r)) \<and> \<not> p_Disconnected p) (Players (state r)))
     \<and> list_all (\<lambda>(pid, p). p_ScoreContribution p = 0 \<and> p_TapsCount p = 0 \<and> p_MessageCount p = 0) (Players s)"

lemma restarts:
  assumes "room_inv r" "Phase (state r) = PhaseEnded" "connections r \<noteq> []"
  shows "returns (RestartAndStart r) (\<lambda>(e, r'). e = None \<and> restarted r (state r'))"
proof -
  obtain qs s where cl: "cleanup_loop (\<lambda>pid. pid \<in> set (keys (connections r))) (Players (state r)) r = (qs, s)" by fastforce
  from restart_to_countdown [OF assms cl] obtain r3 where r3: "room_inv r3" "Players (state r3) = qs"
    "Phase (state r3) = PhaseCountdown" "TickCount (state r3) = 0" "Balloon (state r3) = createInitialBalloon" "RestartVotes (state r3) = []"
    "RestartAndStart r = do { r \<leftarrow> requestPersist (scheduleCountdownFromNow r3); r \<leftarrow> broadcastCountdownPhase r; Some (None, r) }"
    by blast
  have "returns (RestartAndStart r) (\<lambda>(e, r'). e = None \<and> state r' = state r3)"
    unfolding r3(7) by (rule returns_mono [OF restart_countdown [OF r3(1)]]) (auto simp: aux_state)
  then show ?thesis using r3 cleanup_loop_kept [OF cl] by (auto simp: restarted_def elim!: returns_mono)
qed

lemma votes_filter_key: "map_of (filter (\<lambda>(k, v). P k) xs) k = (if P k then map_of xs k else None)"
  by (induction xs) auto

text \<open>Dropping the votes of those who are gone does not change the count.\<close>

lemma votes_of_present:
  assumes "room_inv r"
    and "gone = (\<lambda>pid. case map_of (Players (state r)) pid of None \<Rightarrow> True | Some p \<Rightarrow> p_Disconnected p)"
  shows "countRestartYesVotes (Players (state r)) (filter (\<lambda>(pid, v). \<not> gone pid) (RestartVotes (state r)))
    = countRestartYesVotes (Players (state r)) (RestartVotes (state r))"
proof -
  have "\<not> gone (p_ID p)" if "(pid, p) \<in> set (Players (state r))" "\<not> p_Disconnected p" for pid p
  proof -
    have ok: "players_ok (Players (state r)) (usedNames r)" using assms(1) by (simp add: room_inv_def core_ok_def)
    then have m: "map_of (Players (state r)) pid = Some p" using that(1) by (simp add: players_ok_def in_set_map_of)
    then have "p_ID p = pid" using ok by (simp add: players_ok_def player_ok_def)
    then show ?thesis using m that(2) by (simp add: assms(2))
  qed
  then have "filter (\<lambda>p. map_of (filter (\<lambda>(pid, v). \<not> gone pid) (RestartVotes (state r))) (p_ID p) = Some True)
        (filter (\<lambda>p. \<not> p_Disconnected p) (map snd (Players (state r))))
      = filter (\<lambda>p. map_of (RestartVotes (state r)) (p_ID p) = Some True) (filter (\<lambda>p. \<not> p_Disconnected p) (map snd (Players (state r))))"
    by (intro filter_cong) (auto simp: votes_filter_key [where P = "\<lambda>pid. \<not> gone pid"])
  then show ?thesis by (simp add: countRestartYesVotes_def Let_def)
qed

definition some_agree :: "game_state \<Rightarrow> bool" where
  "some_agree s \<longleftrightarrow> list_ex (\<lambda>p. map_of (RestartVotes s) (p_ID p) = Some True) (filter (\<lambda>p. \<not> p_Disconnected p) (map snd (Players s)))"

lemma votes_some: "countRestartYesVotes (Players s) (RestartVotes s) = (y, n) \<Longrightarrow> y > 0 \<longleftrightarrow> some_agree s"
  by (auto simp: countRestartYesVotes_def some_agree_def Let_def list_ex_iff filter_empty_conv) force

lemma consensus_vote:
  assumes "room_inv r" "Phase (state r) = PhaseEnded" "connections r \<noteq> []" "\<not> syncOutbound r"
  shows "returns (CheckRestartConsensus r) (\<lambda>(e, r'). e = None \<and>
    (if all_agree (state r) then restarted r (state r')
     else Phase (state r') = PhaseEnded \<and> Players (state r') = Players (state r) \<and> RestartVotes (state r') = RestartVotes (state r)
       \<and> RestartTimerStart (state r') \<noteq> None))"
proof -
  obtain y n where c: "countRestartYesVotes (Players (state r)) (RestartVotes (state r)) = (y, n)" by fastforce
  obtain ms r1 where m: "restartCountdownMs r = (ms, r1)" by fastforce
  have a1: "aux r r1" by (rule aux_restartCountdownMs [OF m])
  have r1: "connections r1 = connections r" "syncOutbound r1 = syncOutbound r"
    using m by (auto simp: restartCountdownMs_def Now_def Let_def tick_env_def split: option.splits)
  define r2 where "r2 = broadcast (EncodeRestartStatus (of_nat y) (of_nat n) ms) [] r1"
  have a2: "aux r r2" unfolding r2_def by (rule aux_trans [OF a1 aux_broadcast])
  have st: "state r2 = state r" "connections r2 = connections r"
    using aux_state [OF a2] broadcast_connections r1 assms(4) by (simp_all add: r2_def)
  have i2: "room_inv r2" by (rule aux_inv [OF a2 assms(1)])
  show ?thesis
  proof (cases "all_agree (state r)")
    case True
    have "CheckRestartConsensus r = RestartAndStart r2"
      using votes_agree [OF c] True st assms(2) unfolding CheckRestartConsensus_def c m Let_def prod.case r2_def [symmetric] by simp
    moreover have "restarted r2 = restarted r" by (rule ext) (simp add: restarted_def st)
    ultimately show ?thesis using True restarts [OF i2] st assms(2,3) by simp
  next
    case False
    have "CheckRestartConsensus r = (if RestartTimerStart (state r2) = None then
        Some (None, alarm_in RestartTimeoutMs (upd_state (\<lambda>s. s\<lparr>RestartTimerStart := Some (fst (Now r2))\<rparr>) (tick_env r2))) else Some (None, r2))"
      using votes_agree [OF c] False st assms(2) unfolding CheckRestartConsensus_def c m Let_def prod.case r2_def [symmetric]
      by (auto simp: Now_def)
    then show ?thesis using False st assms(2) by (simp add: aux_state [OF aux_alarm_in] upd_state_def)
  qed
qed

lemma consensus_timer:
  assumes "room_inv r" "Phase (state r) = PhaseEnded" "connections r \<noteq> []"
  shows "returns (handleAutoRestart r) (\<lambda>r'.
       if some_agree (state r) \<and> \<not> all_agree (state r) then Phase (state r') = PhaseEnded \<and> Players (state r') = Players (state r)
       else restarted r (state r'))"
proof -
  obtain y n where c: "countRestartYesVotes (Players (state r)) (RestartVotes (state r)) = (y, n)" by fastforce
  define gone where "gone = (\<lambda>pid. case map_of (Players (state r)) pid of None \<Rightarrow> True | Some p \<Rightarrow> p_Disconnected p)"
  define r3 where "r3 = upd_state (\<lambda>s. s\<lparr>RestartVotes := filter (\<lambda>(pid, v). \<not> gone pid) (RestartVotes s)\<rparr>) r"
  have r3: "room_inv r3" "Players (state r3) = Players (state r)" "Phase (state r3) = PhaseEnded" "connections r3 = connections r"
    using quiet_inv [OF upd_votes_quiet [OF assms(1)]] assms(2) by (simp_all add: r3_def upd_state_def)
  have c3: "countRestartYesVotes (Players (state r3)) (RestartVotes (state r3)) = (y, n)"
    using votes_of_present [OF assms(1) gone_def] c by (simp add: r3_def upd_state_def)
  have h: "handleAutoRestart r = (if y > 0 \<and> y < n then Some (alarm_in RestartTimeoutMs r3) else do { (err, r) \<leftarrow> RestartAndStart r3; Some r })"
    unfolding handleAutoRestart_def Let_def gone_def [symmetric] r3_def [symmetric] c3 prod.case using r3(4) assms(3) by simp
  have "y \<le> n" using c unfolding countRestartYesVotes_def Let_def by (metis length_filter_le prod.inject)
  then have "y > 0 \<and> y < n \<longleftrightarrow> some_agree (state r) \<and> \<not> all_agree (state r)" using votes_agree [OF c] votes_some [OF c] by auto
  moreover have "restarted r3 = restarted r" by (rule ext) (simp add: restarted_def r3)
  then have "returns (do { (err, r) \<leftarrow> RestartAndStart r3; Some r }) (\<lambda>r'. restarted r (state r'))"
    using restarts [OF r3(1,3)] r3(4) assms(3) by (intro returns_bind [OF restarts [OF r3(1,3)]]) auto
  ultimately show ?thesis
    unfolding h using r3 by (auto simp: aux_state [OF aux_alarm_in])
qed


definition ended_room :: room where
  "ended_room = (upd_state (\<lambda>s. s\<lparr>Phase := PhaseEnded, RestartVotes := [(str ''p1'', True)]\<rparr>) (with_player demo_player))
     \<lparr>connections := [(str ''p1'', \<lparr>c_Conn = 1, c_Send = [], c_closed = False, c_drops = 0, c_pendingDisconnect = False\<rparr>)]\<rparr>"

lemma ended_room_inv: "room_inv ended_room"
  using idle_inv [OF with_player_inv [OF demo_player_ok], of PhaseEnded]
  by (simp add: ended_room_def room_inv_def core_ok_def upd_state_def infra_ok_def conn_ok_def wf_map_def)


section \<open>What a client sees\<close>

text \<open>C7: The snapshot a room broadcasts is decoded by the browser client to the state of the room: tick, score and phase; balloon, bird,
  ghost and wind, with what is a float64 in the room rounded to \<^verbatim>\<open>float32\<close>, bird and ghost at the origin when they are not there;
  and one entry per connected player with the colour, the score, the nickname and what is left of the cooldown. Whole numbers are
  those of the room modulo 2 to the width of their field. There is something to show (a bird, a ghost or a connected player; the client
  ignores the snapshot otherwise), and no nickname has a byte order mark, which the decoder of the browser drops.\<close>

theorem client_sees_room:
  assumes "room_inv r" "text_decoder dec" "list_all (\<lambda>(pid, p). 0xFEFF \<notin> set (runes (p_Nickname p))) (Players (state r))"
    and "g_Active (Ghost (state r)) \<or> d_Active (Bird (state r)) \<or> list_ex (\<lambda>(pid, p). \<not> p_Disconnected p) (Players (state r))"
  shows "returns (buildSnapshot r) (\<lambda>(bs, r'). \<exists>cs. decodeSnapshot dec now bs = Some (Some cs)
    \<and> cs_timestamp cs = of_int (TickCount (state r)) \<and> cs_score cs = of_int (b_Score (Balloon (state r)))
    \<and> cs_phase cs = Phase (state r)
    \<and> cs_balloon cs = \<lparr>cb_x = f32_round (b_X (Balloon (state r))), cb_y = f32_round (b_Y (Balloon (state r))),
        cb_vx = f32_round (b_VX (Balloon (state r))), cb_vy = f32_round (b_VY (Balloon (state r)))\<rparr>
    \<and> cs_bird cs = (if d_Active (Bird (state r))
        then \<lparr>cd_active = True, cd_x = f32_round (d_X (Bird (state r))), cd_y = f32_round (d_Y (Bird (state r)))\<rparr>
        else \<lparr>cd_active = False, cd_x = 0, cd_y = 0\<rparr>)
    \<and> cs_ghost cs = (if g_Active (Ghost (state r))
        then \<lparr>cg_active = True, cg_x = f32_round (g_X (Ghost (state r))), cg_y = f32_round (g_Y (Ghost (state r))),
          cg_repelTimer = of_int (g_RepelTimer (Ghost (state r)))\<rparr>
        else \<lparr>cg_active = False, cg_x = 0, cg_y = 0, cg_repelTimer = 0\<rparr>)
    \<and> cs_wind cs = Some (f32_round (Wind (state r))) \<and> cs_ripples cs = []
    \<and> cs_playerCount cs = length (filter (\<lambda>p. \<not> p_Disconnected p) (map snd (Players (state r))))
    \<and> cs_players cs = map (\<lambda>p. \<lparr>cp_playerIndex = of_int (p_PlayerIndex p),
        cp_cooldownEndTime = now + uint (of_int (max 0 (p_CooldownEndTime p - fst (Now r))) :: 32 word),
        cp_palette = of_int (p_Palette p), cp_scoreContribution = of_int (p_ScoreContribution p),
        cp_nickname = runes (p_Nickname p)\<rparr>) (filter (\<lambda>p. \<not> p_Disconnected p) (map snd (Players (state r)))))"
proof -
  let ?s = "state r" and ?t = "fst (Now r)"
  have w: "world_ok ?s" and ps: "players_ok (Players ?s) (usedNames r)" using assms(1) by (simp_all add: room_inv_def core_ok_def)
  obtain bs where bs: "encode_state ?t ?s = Some bs" and b: "buildSnapshot r = Some (bs, tick_env r)"
    using buildSnapshot_returns [OF inv_core [OF assms(1)]] by (auto simp: returns_def buildSnapshot_def Now_def)
  have fl: "wf64 (b_X (Balloon ?s))" "wf64 (b_Y (Balloon ?s))" "wf64 (b_VX (Balloon ?s))" "wf64 (b_VY (Balloon ?s))"
    "wf64 (d_X (Bird ?s))" "wf64 (d_Y (Bird ?s))" "wf64 (g_X (Ghost ?s))" "wf64 (g_Y (Ghost ?s))" "wf64 (Wind ?s)"
    using w by (auto simp: world_ok_def phys_ok_def balloon_ok_def bird_ok_def ghost_ok_def wind_ok_def btw_def fin64_def)
  have nick: "shown_nickname (wp_Nickname q)" if mem: "q \<in> set (snapshot_players ?t ?s)" for q
  proof -
    obtain pid p where p: "(pid, p) \<in> set (Players ?s)" "wp_Nickname q = p_Nickname p"
      using mem unfolding snapshot_players_def wire_player_of_def Let_def by auto
    then have "good_nick (p_Nickname p)" using ps by (auto simp: players_ok_def in_set_map_of player_ok_def)
    then show ?thesis using p assms(3) by (auto simp: shown_nickname_def good_nick_def list_all_iff)
  qed
  have ph: "\<forall>t. Phase ?s \<noteq> PhaseOther t" using w by (simp add: world_ok_def)
  have ne: "\<not> (snapshot_players ?t ?s = [] \<and> [] = ([] :: ripple list) \<and> \<not> d_Active (Bird ?s) \<and> \<not> g_Active (Ghost ?s))"
    using assms(4) by (force simp: snapshot_players_def list_ex_iff filter_empty_conv)
  note dec = snapshot_decodes [OF bs [unfolded encode_state_def] _ fl(9) ph assms(2), of now]
  show ?thesis unfolding b returns_Some prod.case using nick ne
    by (subst dec) (auto simp: wire_floats_ok_def wf32_f32_round fl snapshot_players_def wire_player_of_def Let_def max_def
        client_bird_of_def client_ghost_of_def)
qed


theorem client_sees_room_witness:
  "\<exists>bs r' cs. buildSnapshot (with_player demo_player) = Some (bs, r') \<and> decodeSnapshot runes 0 bs = Some (Some cs)
     \<and> cs_phase cs = PhaseWaiting"
proof -
  have "0xFEFF \<notin> set (runes (str ''Ann''))" by code_simp
  then have "list_all (\<lambda>(pid, p). 0xFEFF \<notin> set (runes (p_Nickname p))) (Players (state (with_player demo_player)))"
    "list_ex (\<lambda>(pid, p). \<not> p_Disconnected p) (Players (state (with_player demo_player)))"
    by (simp_all add: with_player_frame demo_player_def)
  moreover have "text_decoder runes" by (simp add: text_decoder_def)
  ultimately show ?thesis
    using client_sees_room [OF with_player_inv [OF demo_player_ok], of runes 0] by (auto simp: returns_def with_player_frame)
qed

section \<open>Slow clients\<close>

lemma map_of_fold_frame:
  "(\<And>x r. x \<noteq> k \<Longrightarrow> map_of (connections (f x r)) k = map_of (connections r) k) \<Longrightarrow> k \<notin> set xs \<Longrightarrow>
    map_of (connections (fold f xs r)) k = map_of (connections r) k"
  by (induction xs arbitrary: r) auto

lemma deliver_other: "x \<noteq> k \<Longrightarrow> map_of (connections (deliverToTarget m x r)) k = map_of (connections r) k"
  by (auto simp: deliverToTarget_def deliverCritical_def deliverNonCritical_def checkSlowClient_def set_conn_def close_conn_def
      Wait_def tick_env_def Let_def split: option.split)

lemma pending_other: "x \<noteq> k \<Longrightarrow> map_of (connections (removePending b x r)) k = map_of (connections r) k"
  by (auto simp: removePending_def del_conn_def Now_def set_player_def tick_env_def Let_def split: option.split)

lemma fold_at:
  "distinct xs \<Longrightarrow> k \<in> set xs \<Longrightarrow> (\<And>x r. x \<noteq> k \<Longrightarrow> map_of (connections (f x r)) k = map_of (connections r) k) \<Longrightarrow>
    (\<And>r. map_of (connections r) k = c \<Longrightarrow> map_of (connections (f k r)) k = d) \<Longrightarrow>
    map_of (connections r) k = c \<Longrightarrow> map_of (connections (fold f xs r)) k = d"
proof (induction xs arbitrary: r)
  case (Cons x xs)
  show ?case
  proof (cases "x = k")
    case True
    then have "map_of (connections (fold f xs (f k r))) k = map_of (connections (f k r)) k"
      using Cons.prems by (intro map_of_fold_frame) auto
    then show ?thesis using True Cons.prems by simp
  next
    case False
    then show ?thesis using Cons by simp
  qed
qed simp

lemma wf_conns_fold: "(\<And>x r. wf_map (connections r) \<Longrightarrow> wf_map (connections (f x r))) \<Longrightarrow> wf_map (connections r) \<Longrightarrow> wf_map (connections (fold f xs r))"
  by (induction xs arbitrary: r) auto

lemma wf_deliver: "wf_map (connections r) \<Longrightarrow> wf_map (connections (deliverToTarget m x r))"
  by (auto simp: deliverToTarget_def deliverCritical_def deliverNonCritical_def checkSlowClient_def set_conn_def close_conn_def
      Wait_def tick_env_def Let_def split: option.split)

definition bump :: "conn \<Rightarrow> conn option" where
  "bump pc = (if 9 \<le> c_drops pc then None else Some (pc\<lparr>c_drops := c_drops pc + 1\<rparr>))"

text \<open>One message that does not fit: the counter goes up, and at ten the connection is gone.\<close>

lemma deliver_full:
  assumes "wf_map (connections r)" "map_of (connections r) k = Some pc" "WSChannelBuffer \<le> length (c_Send pc)" "\<not> c_closed pc"
    "\<not> c_pendingDisconnect pc" "\<not> o_critical m" "o_exclude m \<noteq> k"
  shows "map_of (connections (deliver b m r)) k = bump pc" "wf_map (connections (deliver b m r))"
proof -
  define pc' where "pc' = pc\<lparr>c_drops := c_drops pc + 1, c_pendingDisconnect := 9 \<le> c_drops pc\<rparr>"
  define r1 where "r1 = fold (deliverToTarget m) (SnapshotTargets (o_exclude m) r) r"
  have k: "k \<in> set (SnapshotTargets (o_exclude m) r)" "distinct (SnapshotTargets (o_exclude m) r)"
    using assms(1,2,7) by (auto simp: SnapshotTargets_def wf_map_def dest: map_of_SomeD intro: rev_image_eqI)
  have at: "map_of (connections (deliverToTarget m k s)) k = Some pc'" if "map_of (connections s) k = Some pc" for s
    using that assms(3-6)
    by (auto simp: deliverToTarget_def deliverNonCritical_def checkSlowClient_def try_send_def set_conn_def close_conn_def pc'_def)
  have 1: "map_of (connections r1) k = Some pc'" "wf_map (connections r1)"
    unfolding r1_def
    by (rule fold_at [OF k(2,1) _ _ assms(2)], erule deliver_other, erule at) (rule wf_conns_fold [OF wf_deliver assms(1)])
  have k': "k \<in> set (keys (connections r1))" "distinct (keys (connections r1))"
    using 1 by (auto simp: wf_map_def dest: map_of_SomeD intro: rev_image_eqI)
  have at': "map_of (connections (removePending b k s)) k = bump pc" if "map_of (connections s) k = Some pc'" for s
    using that assms(5) by (auto simp: removePending_def pc'_def bump_def del_conn_def Let_def)
  have "map_of (connections (fold (removePending b) (keys (connections r1)) r1)) k = bump pc"
    by (rule fold_at [OF k'(2,1) _ _ 1(1)], erule pending_other, erule at')
  then show "map_of (connections (deliver b m r)) k = bump pc"
    by (simp add: deliver_def deliverToTargets_def RemovePendingDisconnects_def r1_def)
  have "wf_map (connections (removePending b x s))" if "wf_map (connections s)" for x s
    using that by (auto simp: removePending_def del_conn_def Now_def set_player_def tick_env_def Let_def split: option.split)
  from wf_conns_fold [OF this 1(2)] show "wf_map (connections (deliver b m r))"
    by (simp add: deliver_def deliverToTargets_def RemovePendingDisconnects_def r1_def)
qed


lemma deliver_absent: "map_of (connections r) k = None \<Longrightarrow> map_of (connections (deliver b m r)) k = None"
proof -
  assume n: "map_of (connections r) k = None"
  have "map_of (connections (deliverToTarget m x s)) k = None" "map_of (connections (removePending b x s)) k = None"
    if "map_of (connections s) k = None" for x s
    using that by (auto simp: deliverToTarget_def deliverCritical_def deliverNonCritical_def checkSlowClient_def set_conn_def
        close_conn_def Wait_def tick_env_def removePending_def del_conn_def Now_def set_player_def Let_def split: option.split)
  then have "map_of (connections (fold (deliverToTarget m) xs s)) k = None" "map_of (connections (fold (removePending b) xs s)) k = None"
    if "map_of (connections s) k = None" for xs s
    using that by (induction xs arbitrary: s) auto
  then show ?thesis using n by (simp add: deliver_def deliverToTargets_def RemovePendingDisconnects_def)
qed

text \<open>A client that reads nothing while its queue of 64 messages is full is disconnected by the tenth broadcast that
  does not fit: for a connection with no drops counted yet, after nine such broadcasts it is still there and after
  ten it is not.\<close>

theorem slow_client_disconnected:
  assumes "wf_map (connections r)" "map_of (connections r) k = Some pc" "WSChannelBuffer \<le> length (c_Send pc)" "\<not> c_closed pc"
    "\<not> c_pendingDisconnect pc" "c_drops pc = 0" "list_all (\<lambda>m. \<not> o_critical m \<and> o_exclude m \<noteq> k) ms"
  shows "(map_of (connections (fold (deliver b) ms r)) k = None) \<longleftrightarrow> 10 \<le> length ms"
proof -
  have gone: "map_of (connections s) k = None \<Longrightarrow> map_of (connections (fold (deliver b) ns s)) k = None" for ns s
    by (induction ns arbitrary: s) (simp_all add: deliver_absent)
  have "map_of (connections s) k = Some (pc\<lparr>c_drops := d\<rparr>) \<Longrightarrow> wf_map (connections s) \<Longrightarrow> d \<le> 9 \<Longrightarrow>
      list_all (\<lambda>m. \<not> o_critical m \<and> o_exclude m \<noteq> k) ns \<Longrightarrow>
      (map_of (connections (fold (deliver b) ns s)) k = None) \<longleftrightarrow> 10 \<le> d + int (length ns)" for d s ns
  proof (induction ns arbitrary: d s)
    case (Cons m ns)
    have "map_of (connections (deliver b m s)) k = bump (pc\<lparr>c_drops := d\<rparr>)" "wf_map (connections (deliver b m s))"
      using deliver_full [of s k "pc\<lparr>c_drops := d\<rparr>" m b] Cons.prems assms(3-5) by simp_all
    then show ?case using Cons.IH [of "deliver b m s" "d + 1"] Cons.prems gone [of "deliver b m s" ns]
      by (auto simp: bump_def split: if_splits)
  qed simp
  from this [of r 0 ms] show ?thesis using assms(1,2,6,7) by simp
qed


theorem slow_client_disconnected_witness:
  "map_of (connections (fold (deliver True) (replicate 10 \<lparr>o_payload = [], o_exclude = [], o_critical = False\<rparr>)
     (demo_room\<lparr>connections := [([1], \<lparr>c_Conn = 1, c_Send = replicate 64 [], c_closed = False, c_drops = 0,
        c_pendingDisconnect = False\<rparr>)]\<rparr>))) [1] = None"
  by (subst slow_client_disconnected [where pc = "\<lparr>c_Conn = 1, c_Send = replicate 64 [], c_closed = False, c_drops = 0,
        c_pendingDisconnect = False\<rparr>"]) (simp_all add: wf_map_def WSChannelBuffer_def list_all_iff)

section \<open>Closing\<close>

text \<open>The persistence loop after the channel has been closed: it receives until the channel is empty, and flushes.\<close>

fun pm_drain :: "nat \<Rightarrow> persist_manager \<Rightarrow> persist_manager" where
  "pm_drain 0 m = m"
| "pm_drain (Suc n) m = pm_drain n (pm_receive m)"

lemma pm_receive_final:
  "pm_ch m = [] \<Longrightarrow> pm_pending m = None \<Longrightarrow> pm_receive m = m"
  by (simp add: pm_receive_def pm_flush_def)

lemma pm_drain_last:
  "pm_ch m = q @ [job] \<Longrightarrow> j_final job \<Longrightarrow> length q < n \<Longrightarrow>
    pm_written (pm_drain n m) \<noteq> [] \<and> last (pm_written (pm_drain n m)) = job \<and> pm_pending (pm_drain n m) = None \<and> pm_ch (pm_drain n m) = []"
proof (induction n arbitrary: m q)
  case (Suc n)
  show ?case
  proof (cases q)
    case Nil
    let ?m = "pm_receive m"
    have m: "pm_written ?m \<noteq> [] \<and> last (pm_written ?m) = job" "pm_pending ?m = None" "pm_ch ?m = []"
      using Suc.prems Nil by (auto simp: pm_receive_def Let_def pm_write_def pm_flush_def split: option.split)
    have "pm_receive ?m = ?m" by (rule pm_receive_final [OF m(3,2)])
    then have "pm_drain k ?m = ?m" for k by (induction k) simp_all
    then show ?thesis using m by simp
  next
    case (Cons j js)
    then have "pm_ch (pm_receive m) = js @ [job]" using Suc.prems(1) by simp
    then show ?thesis using Suc.IH Suc.prems Cons by simp
  qed
qed simp

lemma serialize_ok: "room_inv r \<Longrightarrow> SerializeState (state r) = Some (state r)"
proof -
  assume r: "room_inv r"
  then have "world_ok (state r)" by (simp add: room_inv_def core_ok_def)
  then have "list_all finite64 (state_floats (state r))"
    by (auto simp: state_floats_def world_ok_def phys_ok_def balloon_ok_def bird_ok_def ghost_ok_def wind_ok_def btw_def fin64_def)
  then show ?thesis by (simp add: SerializeState_def)
qed

text \<open>The room when \<^verbatim>\<open>Close\<close> takes the lock for the second time.\<close>

definition second_lock :: "(close_section \<Rightarrow> room \<Rightarrow> room) \<Rightarrow> room \<Rightarrow> room" where
  "second_lock others r = others CloseConns (stopOutbound (others CloseOutbound (closeTick (others CloseTick (closeFlag (others CloseFlag r))))))"

definition not_armed :: "timer option \<Rightarrow> bool" where
  "not_armed t \<longleftrightarrow> (case t of Some (Armed ms) \<Rightarrow> False | _ \<Rightarrow> True)"

lemma close_jobs:
  assumes "room_inv r" "hasStore r" "\<not> pm_stopped (persist r)"
    and "length (pm_ch (persist r)) < persistQueueSize \<or> e_wait (env r) (e_pos (env r))"
  obtains r' q where "close_acts [CloseConns, CloseFlush, ClosePersist] r = Some r'"
    "pm_ch (persist r') = q @ [\<lparr>j_code = LobbyCode (state r), j_state = state r, j_final = True\<rparr>]"
    "pm_chClosed (persist r')" "closed r' = closed r" "connections r' = []" "tickCancel r' = tickCancel r" "nicknameTimers r' = nicknameTimers r"
    "set (map (c_Conn \<circ> snd) (connections r)) \<subseteq> set (closedConns r')" "not_armed (endGameTimer r')" "not_armed (startDelayTimer r')"
proof -
  define r2 where "r2 = (stopTimers r)\<lparr>closedConns := closedConns r @ map (c_Conn \<circ> snd) (connections r), connections := []\<rparr>"
  have r2: "persist r2 = persist r" "state r2 = state r" "hasStore r2 = hasStore r" "env r2 = env r" "closed r2 = closed r"
    "tickCancel r2 = tickCancel r" "nicknameTimers r2 = nicknameTimers r" "connections r2 = []"
    "not_armed (endGameTimer r2)" "not_armed (startDelayTimer r2)"
    "set (map (c_Conn \<circ> snd) (connections r)) \<subseteq> set (closedConns r2)"
    by (auto simp: r2_def stopTimers_def not_armed_def split: option.split)
  define job where "job = \<lparr>j_code = LobbyCode (state r), j_state = state r, j_final = True\<rparr>"
  have open_pm: "\<not> pm_chClosed (persist r)" using inv_infra [OF assms(1)] by (simp add: infra_ok_def)
  define q where "q = (if length (pm_ch (persist r)) < persistQueueSize then pm_ch (persist r) else tl (pm_ch (persist r)))"
  define r3 where "r3 = (if length (pm_ch (persist r)) < persistQueueSize then r2 else tick_env r2)"
  define m0 where "m0 = pm_startLoop (persist r)"
  have m0: "pm_ch m0 = pm_ch (persist r)" "pm_started m0" "\<not> pm_chClosed m0"
    using assms(3) open_pm by (simp_all add: m0_def pm_startLoop_def)
  define m where "m = (if length (pm_ch (persist r)) < persistQueueSize then m0\<lparr>pm_ch := pm_ch m0 @ [job]\<rparr>
    else (pm_receive m0)\<lparr>pm_ch := pm_ch (pm_receive m0) @ [job]\<rparr>)"
  have "flushPersistSync r2 = flushSync (state r) (LobbyCode (state r)) r2"
    using assms(2) serialize_ok [OF assms(1)] by (simp add: flushPersistSync_def canPersist_def r2(2,3))
  also have "\<dots> = Some (r3\<lparr>persist := m\<rparr>)"
    unfolding flushSync_def r2(1) m0_def [symmetric] job_def [symmetric] Let_def Wait_def r2(4) m_def r3_def
    using m0 assms(4) by (cases "length (pm_ch (persist r)) < persistQueueSize") (simp_all add: try_send_def)
  finally have f: "flushPersistSync r2 = Some (r3\<lparr>persist := m\<rparr>)" .
  have m: "pm_ch m = q @ [job]" "pm_started m" "\<not> pm_chClosed m"
    using m0 by (simp_all add: m_def q_def)
  have "close_acts [CloseConns, CloseFlush, ClosePersist] r = Some (r3\<lparr>persist := m\<lparr>pm_stopped := True, pm_chClosed := True\<rparr>\<rparr>)"
    using f m by (simp add: close_conns [OF assms(1)] stopPersist_def Let_def flip: r2_def)
  then show ?thesis using that r2 m(1) by (auto simp: r3_def job_def tick_env_def split: if_splits)
qed

lemma close_among_last:
  "others CloseFlush = (\<lambda>s. s) \<Longrightarrow> others ClosePersist = (\<lambda>s. s) \<Longrightarrow>
    close_among others [CloseFlush, ClosePersist] = close_acts [CloseFlush, ClosePersist]"
proof -
  assume o: "others CloseFlush = (\<lambda>s. s)" "others ClosePersist = (\<lambda>s. s)"
  have "close_among others [] = Some" by (rule ext) simp
  moreover from this have "close_among others [ClosePersist] = stopPersist" by (intro ext) (simp add: o)
  ultimately show ?thesis by (intro ext) (simp add: o close_acts_eta del: close_acts.simps)
qed

text \<open>C21: Closing a room with a store, whatever other goroutines do to it before \<^verbatim>\<open>Close\<close> takes its lock for the second time (their
  operations keep the invariant of a room): afterwards the room is closed, every connection of that moment is closed and forgotten,
  neither the end-of-game timer nor the start-delay timer is armed, and the state of that moment is the last thing the
  persistence loop writes before it ends. When nothing comes between, that is the state \<^verbatim>\<open>Close\<close> found, and the tick and the
  nickname timers are stopped too. Conditions: the persistence manager has not been stopped before, its queue has room for the
  final job or gets room within the five seconds the close waits, and nothing else runs after the second section under the lock.\<close>

theorem close_persists_state:
  assumes "room_inv r" "\<And>x s. room_inv s \<Longrightarrow> room_inv (others x s) \<and> closed (others x s) = closed s"
    and "others CloseFlush = (\<lambda>s. s)" "others ClosePersist = (\<lambda>s. s)"
    and "r1 = second_lock others r" "hasStore r1" "\<not> pm_stopped (persist r1)"
    and "length (pm_ch (persist r1)) < persistQueueSize \<or> e_wait (env r1) (e_pos (env r1))"
  shows "returns (close_among others close_plan r) (\<lambda>r'. closed r' \<and> connections r' = []
      \<and> set (map (c_Conn \<circ> snd) (connections r1)) \<subseteq> set (closedConns r')
      \<and> not_armed (endGameTimer r') \<and> not_armed (startDelayTimer r') \<and> pm_chClosed (persist r')
      \<and> (let m = pm_drain (Suc (length (pm_ch (persist r')))) (persist r')
         in pm_written m \<noteq> [] \<and> j_state (last (pm_written m)) = state r1 \<and> pm_pending m = None \<and> pm_ch m = [])
      \<and> (others = (\<lambda>x s. s) \<longrightarrow> Close r = Some r' \<and> state r1 = state r \<and> connections r1 = connections r
         \<and> \<not> tickCancel r' \<and> nicknameTimers r' = []))"
proof -
  define r0 where "r0 = others CloseOutbound (closeTick (others CloseTick (closeFlag (others CloseFlag r))))"
  have sec: "room_inv (closeFlag s) \<and> closed (closeFlag s)" "room_inv (closeTick s) \<and> closed (closeTick s) = closed s"
    "room_inv (stopOutbound s) \<and> closed (stopOutbound s) = closed s" if "room_inv s" for s
    using that by (auto simp: close_defs room_inv_def core_ok_def infra_ok_def)
  have i: "room_inv r1" "closed r1"
    unfolding assms(5) second_lock_def using assms(1,2) sec by (metis, metis)
  have same: "close_among others close_plan r = close_acts [CloseConns, CloseFlush, ClosePersist] r1"
    by (simp add: close_plan_def assms(3-5) second_lock_def close_among_last)
  obtain r' q where r': "close_acts [CloseConns, CloseFlush, ClosePersist] r1 = Some r'"
    "pm_ch (persist r') = q @ [\<lparr>j_code = LobbyCode (state r1), j_state = state r1, j_final = True\<rparr>]"
    "pm_chClosed (persist r')" "closed r' = closed r1" "connections r' = []" "tickCancel r' = tickCancel r1" "nicknameTimers r' = nicknameTimers r1"
    "set (map (c_Conn \<circ> snd) (connections r1)) \<subseteq> set (closedConns r')" "not_armed (endGameTimer r')" "not_armed (startDelayTimer r')"
    using close_jobs [OF i(1) assms(6-8)] by metis
  have alone: "Close r = Some r' \<and> state r1 = state r \<and> connections r1 = connections r \<and> \<not> tickCancel r' \<and> nicknameTimers r' = []"
    if o: "others = (\<lambda>x s. s)"
  proof -
    have "r1 = stopOutbound (closeTick (closeFlag r))" by (simp add: assms(5) second_lock_def o)
    moreover have "Close r = Some r'" using same r'(1) by (simp only: Close_acts o close_among_id)
    ultimately show ?thesis using r'(6,7) by (simp add: close_defs)
  qed
  note pm_drain_last [OF r'(2), of "Suc (Suc (length q))"]
  then show ?thesis using r' i(2) same alone by (simp add: Let_def del: pm_drain.simps close_acts.simps)
qed

theorem close_persists_state_witness:
  "\<exists>r'. Close (demo_room\<lparr>hasStore := True\<rparr>) = Some r' \<and> pm_chClosed (persist r') \<and> not_armed (endGameTimer r')"
proof -
  let ?r = "demo_room\<lparr>hasStore := True\<rparr>"
  have "room_inv ?r" using demo_inv by (simp add: room_inv_def core_ok_def infra_ok_def)
  moreover have "persist ?r = \<lparr>pm_started = False, pm_stopped = False, pm_ch = [], pm_chClosed = False, pm_pending = None, pm_written = []\<rparr>"
    by (simp add: demo_room_def NewRoom_def Let_def split_def)
  moreover have "hasStore (second_lock (\<lambda>x s. s) ?r)" "persist (second_lock (\<lambda>x s. s) ?r) = persist ?r"
    by (simp_all add: second_lock_def close_defs)
  ultimately have "returns (close_among (\<lambda>x s. s) close_plan ?r) (\<lambda>r'. Close ?r = Some r' \<and> pm_chClosed (persist r') \<and> not_armed (endGameTimer r'))"
    by (intro returns_mono [OF close_persists_state [of ?r "\<lambda>x s. s", OF _ _ refl refl refl]]) (simp_all add: persistQueueSize_def)
  then show ?thesis unfolding returns_def by blast
qed

end
