(* ===== verification/Hub.thy ===== *)
theory Hub
  imports WS_Limiter Redis_Cache Repository_Properties Room_Rounds
begin

text \<open>
  The registry of rooms (\<^verbatim>\<open>Hub\<close> in \<^verbatim>\<open>game/hub.go\<close>, \<^verbatim>\<open>game/hub_helpers.go\<close>, \<^verbatim>\<open>game/hub_cleanup.go\<close>).

  \<^item> \<open>h_rooms\<close> is the map \<^verbatim>\<open>rooms\<close>; \<open>h_store\<close> and \<open>h_cache\<close> are the database and the cache, \<open>None\<close> for a nil interface.
  \<^item> \<open>h_env\<close> is what the environment decides for the hub: the clock, the seeds and identifiers, and the sources of the
    rooms it creates. \<open>seeded\<close> is \<^verbatim>\<open>newSeededRNG\<close>, the random source that a seed gives.
  \<^item> An operation of the hub is one step here; the lock it releases in between matters for \<^verbatim>\<open>loadOrMaterializeRoom\<close>, whose
    second half, \<open>register_loaded\<close>, is an operation of its own.
  \<^item> The persistence loop of a room ends in \<^verbatim>\<open>Close\<close>; what it has still to write is written to the database then
    (\<open>close_room\<close>), after the deletion of the lobby if the ten seconds of \<^verbatim>\<open>flushSync\<close> are over (\<open>he_late\<close>).
  \<^item> \<open>None\<close> is a panic. Metrics and logs are left out; audit entries are \<open>h_audit\<close>.
\<close>

section \<open>State\<close>

record hub_env =
  he_clock :: "nat \<Rightarrow> int"
  he_seed :: "nat \<Rightarrow> int"
  he_uuid :: "nat \<Rightarrow> byte list"
  he_crand :: "nat \<Rightarrow> crand"
  he_room :: "nat \<Rightarrow> environment"
  he_late :: "nat \<Rightarrow> bool"
  he_pos :: nat

record hub =
  h_rooms :: "(gostring \<times> room) list"
  h_store :: "database option"
  h_cache :: "redis option"
  h_maxPlayersPerRoom :: int
  h_instanceID :: gostring
  h_codeGen :: rng
  h_wsLimiter :: ws_limiter
  h_audit :: "(gostring \<times> gostring) list"
  h_env :: hub_env

datatype hub_error = ErrRoomCodeConflict | ErrInvalidRoomCode | ErrStoreNotAvailable | ErrDB db_error | ErrRedis redis_error

definition unknownPlayerID :: gostring where "unknownPlayerID = str ''unknown''"

text \<open>The environment variable and the result of \<^verbatim>\<open>hostnameFunc\<close>, \<open>None\<close> for an error.\<close>

definition defaultInstanceID :: "gostring \<Rightarrow> gostring option \<Rightarrow> gostring" where
  "defaultInstanceID instanceEnv hostname =
     (if instanceEnv \<noteq> [] then instanceEnv
      else case hostname of None \<Rightarrow> unknownPlayerID | Some n \<Rightarrow> if n = [] then unknownPlayerID else n)"

definition defaultMaxWSConnections :: int where "defaultMaxWSConnections = 1000"

definition NewHub :: "database option \<Rightarrow> redis option \<Rightarrow> int \<Rightarrow> int \<Rightarrow> gostring \<Rightarrow> rng \<Rightarrow> hub_env \<Rightarrow> hub" where
  "NewHub store cache maxWS maxPl instance_id g e =
     \<lparr>h_rooms = [], h_store = store, h_cache = cache,
      h_maxPlayersPerRoom = (if maxPl \<le> 0 then MaxPlayersPerRoom else maxPl), h_instanceID = instance_id, h_codeGen = g,
      h_wsLimiter = NewWSLimiter (if maxWS \<le> 0 then defaultMaxWSConnections else maxWS), h_audit = [], h_env = e\<rparr>"

definition hub_tick :: "hub \<Rightarrow> hub" where
  "hub_tick h = h\<lparr>h_env := (h_env h)\<lparr>he_pos := Suc (he_pos (h_env h))\<rparr>\<rparr>"

definition hub_now :: "hub \<Rightarrow> int \<times> hub" where
  "hub_now h = (he_clock (h_env h) (he_pos (h_env h)), hub_tick h)"

definition audit_log :: "gostring \<Rightarrow> gostring \<Rightarrow> hub \<Rightarrow> hub" where
  "audit_log action resource h = h\<lparr>h_audit := h_audit h @ [(action, resource)]\<rparr>"

section \<open>Cache\<close>

definition with_cache :: "(redis \<Rightarrow> 'a \<times> redis) \<Rightarrow> hub \<Rightarrow> hub" where
  "with_cache f h = (case h_cache h of None \<Rightarrow> h | Some rd \<Rightarrow> h\<lparr>h_cache := Some (snd (f rd))\<rparr>)"

definition invalidateLobbyReadCaches :: "gostring \<Rightarrow> hub \<Rightarrow> hub" where
  "invalidateLobbyReadCaches code h =
     (let h = with_cache InvalidateLobbyListCaches h
      in if code \<noteq> [] then with_cache (InvalidateRoomCheck code) h else h)"

definition registerRoomInRedis :: "gostring \<Rightarrow> hub \<Rightarrow> hub" where
  "registerRoomInRedis code h =
     (if h_cache h = None then h
      else let (now, h) = hub_now h;
               info = \<lparr>reg_Code = code, reg_Instance = h_instanceID h, reg_Address = [], reg_CreatedAt = now\<rparr>
           in with_cache (RegisterRoom code info) h)"

definition unregisterRoomFromRedis :: "gostring \<Rightarrow> hub \<Rightarrow> hub" where
  "unregisterRoomFromRedis code h = with_cache (UnregisterRoom code) h"

definition shouldLocalMaterializeRoom :: "gostring \<Rightarrow> hub \<Rightarrow> bool \<times> hub" where
  "shouldLocalMaterializeRoom code h = (case h_cache h of
       None \<Rightarrow> (True, h)
     | Some rd \<Rightarrow>
         (case GetRoomRegistry code rd of
            (Inl e, rd) \<Rightarrow> (False, h\<lparr>h_cache := Some rd\<rparr>)
          | (Inr None, rd) \<Rightarrow> (True, h\<lparr>h_cache := Some rd\<rparr>)
          | (Inr (Some info), rd) \<Rightarrow>
              (reg_Instance info = [] \<or> reg_Instance info = h_instanceID h, h\<lparr>h_cache := Some rd\<rparr>)))"

definition finalizeMaterializedRoom :: "gostring \<Rightarrow> hub \<Rightarrow> hub" where
  "finalizeMaterializedRoom code h = registerRoomInRedis code h"

section \<open>Rooms\<close>

definition new_room :: "(int \<Rightarrow> rng) \<Rightarrow> gostring \<Rightarrow> hub \<Rightarrow> room \<times> hub" where
  "new_room seeded code h =
     (let e = h_env h; n = he_pos e; seed = he_seed e n
      in (NewRoom code (h_store h \<noteq> None) (h_maxPlayersPerRoom h) (he_clock e n) seed (seeded seed) (he_crand e n) (he_room e n), hub_tick h))"

definition put_room :: "gostring \<Rightarrow> room \<Rightarrow> hub \<Rightarrow> hub" where
  "put_room code r h = h\<lparr>h_rooms := AList.update code r (h_rooms h)\<rparr>"

text \<open>At most ten attempts to find a code that is not taken; the empty string says that there was none.\<close>

fun code_loop :: "nat \<Rightarrow> (gostring \<times> room) list \<Rightarrow> rng \<Rightarrow> gostring \<times> rng" where
  "code_loop 0 rooms g = ([], g)"
| "code_loop (Suc n) rooms g =
     (let (code, g) = GenerateRoomCode g in if map_of rooms code = None then (code, g) else code_loop n rooms g)"

definition CreateRoom :: "(int \<Rightarrow> rng) \<Rightarrow> hub \<Rightarrow> (hub_error + gostring) \<times> hub" where
  "CreateRoom seeded h =
     (let (code, g) = code_loop 10 (h_rooms h) (h_codeGen h); h = h\<lparr>h_codeGen := g\<rparr>
      in if code = [] then (Inl ErrRoomCodeConflict, h)
         else case NewRoomCode code of
             Inl _ \<Rightarrow> (Inl ErrInvalidRoomCode, h)
           | Inr _ \<Rightarrow>
               let (room, h) = new_room seeded code h; h = put_room code room h;
                   h = invalidateLobbyReadCaches code (registerRoomInRedis code h)
               in (Inr code, audit_log (str ''room.create'') (str ''room/'' @ code) h))"

definition DeserializeState :: "state_json \<Rightarrow> game_state option" where
  "DeserializeState js = (case js of StateJSON s \<Rightarrow> Some s | BadJSON \<Rightarrow> None)"

definition disconnect_all :: "int \<Rightarrow> game_state \<Rightarrow> game_state" where
  "disconnect_all now s = s\<lparr>Players := map (\<lambda>(pid, p). (pid, MarkDisconnected now p)) (Players s)\<rparr>"

definition materializeRoom :: "(int \<Rightarrow> rng) \<Rightarrow> gostring \<Rightarrow> game_state \<Rightarrow> hub \<Rightarrow> room \<times> hub" where
  "materializeRoom seeded code s h =
     (let (room, h) = new_room seeded code h; (now, h) = hub_now h
      in (room\<lparr>state := disconnect_all now s, room_rng := seeded (RNGSeed s),
               usedNames := usedNames room \<union> set (map (p_Nickname \<circ> snd) (Players s))\<rparr>, h))"

definition deserializeAndMaterialize :: "(int \<Rightarrow> rng) \<Rightarrow> gostring \<Rightarrow> state_json \<Rightarrow> hub \<Rightarrow> room option \<times> hub" where
  "deserializeAndMaterialize seeded code js h = (case DeserializeState js of
       None \<Rightarrow> (None, h)
     | Some s \<Rightarrow> let (room, h) = materializeRoom seeded code s h in (Some room, h))"

definition registerRoomLocked :: "gostring \<Rightarrow> room \<Rightarrow> hub \<Rightarrow> room \<times> hub" where
  "registerRoomLocked code room h = (case map_of (h_rooms h) code of
       Some existing \<Rightarrow> (existing, h)
     | None \<Rightarrow> (room, put_room code room h))"

text \<open>The first half of \<^verbatim>\<open>loadOrMaterializeRoom\<close>, without the lock, and the second, which registers the room.\<close>

definition load_room :: "(int \<Rightarrow> rng) \<Rightarrow> gostring \<Rightarrow> hub \<Rightarrow> room option \<times> hub" where
  "load_room seeded code h = (case h_store h of
       None \<Rightarrow> (None, h)
     | Some _ \<Rightarrow>
         let (mine, h) = shouldLocalMaterializeRoom code h
         in if \<not> mine then (None, h)
            else case LoadLobbyState code (the (h_store h)) of
                (Inl _, d) \<Rightarrow> (None, h\<lparr>h_store := Some d\<rparr>)
              | (Inr None, d) \<Rightarrow> (None, h\<lparr>h_store := Some d\<rparr>)
              | (Inr (Some ls), d) \<Rightarrow> deserializeAndMaterialize seeded code (l_State ls) (h\<lparr>h_store := Some d\<rparr>))"

definition register_loaded :: "gostring \<Rightarrow> room \<Rightarrow> hub \<Rightarrow> room \<times> hub" where
  "register_loaded code room h =
     (let (room, h) = registerRoomLocked code room h in (room, finalizeMaterializedRoom code h))"

definition loadOrMaterializeRoom :: "(int \<Rightarrow> rng) \<Rightarrow> gostring \<Rightarrow> hub \<Rightarrow> room option \<times> hub" where
  "loadOrMaterializeRoom seeded code h = (case load_room seeded code h of
       (None, h) \<Rightarrow> (None, h)
     | (Some room, h) \<Rightarrow> let (room, h) = register_loaded code room h in (Some room, h))"

definition getRoom :: "(int \<Rightarrow> rng) \<Rightarrow> gostring \<Rightarrow> hub \<Rightarrow> room option \<times> hub" where
  "getRoom seeded code h = (case map_of (h_rooms h) code of
       Some room \<Rightarrow> (Some room, h)
     | None \<Rightarrow> loadOrMaterializeRoom seeded code h)"

definition room_summary :: "room \<Rightarrow> room_info" where
  "room_summary r = \<lparr>ri_Code = LobbyCode (state r), ri_Phase = Phase (state r),
     ri_PlayerCount = int (length (Players (state r))), ri_CreatedAt = CreatedAt (state r)\<rparr>"

definition CheckRoom :: "(int \<Rightarrow> rng) \<Rightarrow> gostring \<Rightarrow> hub \<Rightarrow> room_info option \<times> hub" where
  "CheckRoom seeded code h = (let (room, h) = getRoom seeded code h in (map_option room_summary room, h))"

text \<open>\<^verbatim>\<open>json.Unmarshal\<close> of a cached value into a \<^verbatim>\<open>RoomInfo\<close>; only \<^verbatim>\<open>RoomInfo\<close> and the marker are stored under these keys.\<close>

definition cached_info :: "json_value \<Rightarrow> room_info option" where
  "cached_info v = (case v of JInfo info \<Rightarrow> Some info | _ \<Rightarrow> None)"

definition check_uncached :: "(int \<Rightarrow> rng) \<Rightarrow> gostring \<Rightarrow> hub \<Rightarrow> (hub_error + room_info option) \<times> hub" where
  "check_uncached seeded code h =
     (let (info, h) = CheckRoom seeded code h
      in case info of
           None \<Rightarrow> (Inr None, with_cache (SetCachedRoomCheck code JNull) h)
         | Some i \<Rightarrow> (Inr (Some i), with_cache (SetCachedRoomCheck code (JInfo i)) h))"

definition CheckRoomCached :: "(int \<Rightarrow> rng) \<Rightarrow> gostring \<Rightarrow> hub \<Rightarrow> (hub_error + room_info option) \<times> hub" where
  "CheckRoomCached seeded code h = (case h_cache h of
       None \<Rightarrow> check_uncached seeded code h
     | Some rd \<Rightarrow>
         (case GetCachedRoomCheck code rd of
            (Inl e, rd) \<Rightarrow> (Inl (ErrRedis e), h\<lparr>h_cache := Some rd\<rparr>)
          | (Inr None, rd) \<Rightarrow> check_uncached seeded code (h\<lparr>h_cache := Some rd\<rparr>)
          | (Inr (Some v), rd) \<Rightarrow>
              if v = JNull then (Inr None, h\<lparr>h_cache := Some rd\<rparr>)
              else (case cached_info v of
                  Some info \<Rightarrow> (Inr (Some info), h\<lparr>h_cache := Some rd\<rparr>)
                | None \<Rightarrow> check_uncached seeded code (h\<lparr>h_cache := Some rd\<rparr>))))"

section \<open>Listing\<close>

definition load_lobbies :: "collation \<Rightarrow> int \<Rightarrow> gostring \<Rightarrow> hub \<Rightarrow> (hub_error + lobby_list_result) \<times> hub" where
  "load_lobbies clt limit cursor h = (case h_store h of
       None \<Rightarrow> (Inl ErrStoreNotAvailable, h)
     | Some d \<Rightarrow> let (res, d) = LoadAllActiveLobbies clt limit cursor d in (map_sum ErrDB id res, h\<lparr>h_store := Some d\<rparr>))"

text \<open>\<^verbatim>\<open>readThroughCache\<close> with the loader of \<^verbatim>\<open>ListLobbiesCached\<close>: an error of the cache counts as a miss.\<close>

definition readThroughCache :: "collation \<Rightarrow> int \<Rightarrow> gostring \<Rightarrow> redis \<Rightarrow> hub \<Rightarrow> (hub_error + lobby_list_result) \<times> hub" where
  "readThroughCache clt limit cursor rd h =
     (let (cached, rd) = GetCachedLobbyList limit cursor rd; h = h\<lparr>h_cache := Some rd\<rparr>
      in case cached of
           Inr (Some (JLobbies result)) \<Rightarrow> (Inr result, h)
         | _ \<Rightarrow>
           (case load_lobbies clt limit cursor h of
              (Inl e, h) \<Rightarrow> (Inl e, h)
            | (Inr result, h) \<Rightarrow> (Inr result, with_cache (SetCachedLobbyList limit cursor (JLobbies result)) h)))"

definition ListLobbiesCached :: "collation \<Rightarrow> int \<Rightarrow> gostring \<Rightarrow> hub \<Rightarrow> (hub_error + lobby_list_result) \<times> hub" where
  "ListLobbiesCached clt limit cursor h =
     (if h_store h = None then (Inl ErrStoreNotAvailable, h)
      else case h_cache h of
          Some rd \<Rightarrow> readThroughCache clt limit cursor rd h
        | None \<Rightarrow> load_lobbies clt limit cursor h)"

definition RoomCount :: "hub \<Rightarrow> int" where
  "RoomCount h = int (length (h_rooms h))"

definition PlayerCount :: "hub \<Rightarrow> int" where
  "PlayerCount h = fold (\<lambda>(code, r) n. n + int (length (Players (state r)))) (h_rooms h) 0"

definition PhaseCounts :: "hub \<Rightarrow> (phase \<times> int) list" where
  "PhaseCounts h = fold (\<lambda>(code, r) al. let p = Phase (state r)
     in AList.update p ((case map_of al p of None \<Rightarrow> 0 | Some n \<Rightarrow> n) + 1) al) (h_rooms h) []"

section \<open>Matching\<close>

definition roomJoinable :: "room \<Rightarrow> int \<Rightarrow> bool" where
  "roomJoinable r maxPl \<longleftrightarrow> Phase (state r) = PhaseWaiting \<and> int (length (Players (state r))) < maxPl
     \<and> int (length (connections r)) < maxPl"

definition joinableRoomCodes :: "hub \<Rightarrow> gostring list" where
  "joinableRoomCodes h = keys (filter (\<lambda>(code, r). roomJoinable r (h_maxPlayersPerRoom h)) (h_rooms h))"

definition MatchRoom :: "(int \<Rightarrow> rng) \<Rightarrow> hub \<Rightarrow> (hub_error + gostring) \<times> hub" where
  "MatchRoom seeded h =
     (case find (\<lambda>code. case map_of (h_rooms h) code of None \<Rightarrow> False | Some r \<Rightarrow> roomJoinable r (h_maxPlayersPerRoom h))
             (joinableRoomCodes h) of
        Some code \<Rightarrow> (Inr code, h)
      | None \<Rightarrow> CreateRoom seeded h)"

section \<open>Removal\<close>

record removeRoomOptions =
  opt_audit :: bool
  opt_pgDelete :: bool
  opt_cache :: bool

definition newLobbyState :: "persist_job \<Rightarrow> hub \<Rightarrow> lobby_row \<times> hub" where
  "newLobbyState job h =
     (let e = h_env h; now = he_clock e (he_pos e)
      in (\<lparr>l_ID = UUID (he_uuid e (he_pos e)), l_Code = j_code job, l_State = StateJSON (j_state job), l_UpdatedAt = now, l_CreatedAt = now\<rparr>,
          hub_tick h))"

definition write_job :: "persist_job \<Rightarrow> hub \<Rightarrow> hub" where
  "write_job job h = (case h_store h of
       None \<Rightarrow> h
     | Some d \<Rightarrow> let (row, h) = newLobbyState job h in h\<lparr>h_store := Some (snd (SaveLobbyState row d))\<rparr>)"

text \<open>Closing a room: what its persistence loop writes until it ends.\<close>

definition closing_jobs :: "room \<Rightarrow> room \<Rightarrow> persist_job list" where
  "closing_jobs r r' = drop (length (pm_written (persist r)))
     (pm_written (pm_drain (Suc (length (pm_ch (persist r')))) (persist r')))"

definition delete_from_store :: "gostring \<Rightarrow> hub \<Rightarrow> hub" where
  "delete_from_store code h = (case h_store h of
       None \<Rightarrow> h | Some d \<Rightarrow> h\<lparr>h_store := Some (snd (DeleteLobbyState code d))\<rparr>)"

definition removeRoomFromMemory :: "gostring \<Rightarrow> hub \<Rightarrow> room option \<times> hub" where
  "removeRoomFromMemory code h = (map_of (h_rooms h) code, h\<lparr>h_rooms := AList.delete code (h_rooms h)\<rparr>)"

definition finalizeRoomRemoval :: "gostring \<Rightarrow> room option \<Rightarrow> removeRoomOptions \<Rightarrow> hub \<Rightarrow> hub option" where
  "finalizeRoomRemoval code room opts h = do {
     jobs \<leftarrow> (case room of None \<Rightarrow> Some [] | Some r \<Rightarrow> map_option (closing_jobs r) (Close r));
     let late = he_late (h_env h) (he_pos (h_env h));
     let h = hub_tick h;
     let h = (if late then h else fold write_job jobs h);
     let h = (if opt_pgDelete opts then delete_from_store code h else h);
     let h = (if late then fold write_job jobs h else h);
     let h = unregisterRoomFromRedis code h;
     let h = (if opt_cache opts then invalidateLobbyReadCaches code h else h);
     Some (if opt_audit opts then audit_log (str ''room.delete'') (str ''room/'' @ code) h else h)
   }"

definition removeSingleRoom :: "gostring \<Rightarrow> removeRoomOptions \<Rightarrow> hub \<Rightarrow> hub option" where
  "removeSingleRoom code opts h = (let (room, h) = removeRoomFromMemory code h in finalizeRoomRemoval code room opts h)"

definition RemoveRoom :: "gostring \<Rightarrow> hub \<Rightarrow> hub option" where
  "RemoveRoom code h = removeSingleRoom code \<lparr>opt_audit = True, opt_pgDelete = True, opt_cache = True\<rparr> h"

fun take_rooms :: "gostring list \<Rightarrow> hub \<Rightarrow> (gostring \<times> room) list \<times> hub" where
  "take_rooms [] h = ([], h)"
| "take_rooms (code # codes) h = (case removeRoomFromMemory code h of
       (None, h) \<Rightarrow> take_rooms codes h
     | (Some r, h) \<Rightarrow> let (batch, h) = take_rooms codes h in ((code, r) # batch, h))"

fun finalize_batch :: "(gostring \<times> room) list \<Rightarrow> removeRoomOptions \<Rightarrow> hub \<Rightarrow> hub option" where
  "finalize_batch [] opts h = Some h"
| "finalize_batch ((code, r) # batch) opts h = do { h \<leftarrow> finalizeRoomRemoval code (Some r) opts h; finalize_batch batch opts h }"

definition removeRooms :: "gostring list \<Rightarrow> removeRoomOptions \<Rightarrow> hub \<Rightarrow> hub option" where
  "removeRooms codes opts h =
     (if codes = [] then Some h
      else let (batch, h) = take_rooms codes h in finalize_batch batch opts h)"

fun close_rooms :: "(gostring \<times> room) list \<Rightarrow> hub \<Rightarrow> hub option" where
  "close_rooms [] h = Some h"
| "close_rooms ((code, r) # rooms) h = do {
     r' \<leftarrow> Close r;
     let h = fold write_job (closing_jobs r r') h;
     close_rooms rooms (h\<lparr>h_rooms := AList.delete code (h_rooms h)\<rparr>)
   }"

definition CloseAllRooms :: "hub \<Rightarrow> hub option" where
  "CloseAllRooms h = close_rooms (h_rooms h) h"

section \<open>Cleaning up\<close>

fun allPlayersDisconnectedExpired :: "(gostring \<times> player) list \<Rightarrow> int \<Rightarrow> bool" where
  "allPlayersDisconnectedExpired [] now = True"
| "allPlayersDisconnectedExpired ((pid, p) # ps) now =
     (case p_DisconnectedAt p of
        None \<Rightarrow> False
      | Some t \<Rightarrow>
          if \<not> p_Disconnected p then False
          else if now - t \<le> ReconnectGraceMs then False
          else allPlayersDisconnectedExpired ps now)"

definition shouldCleanupRoom :: "room \<Rightarrow> int \<Rightarrow> bool" where
  "shouldCleanupRoom r now =
     (let hasConnections = (connections r \<noteq> []); playerCount = length (Players (state r))
      in if Phase (state r) = PhaseWaiting \<and> \<not> hasConnections then True
         else if playerCount = 0 \<and> \<not> hasConnections then True
         else if \<not> hasConnections \<and> playerCount > 0 then allPlayersDisconnectedExpired (Players (state r)) now
         else False)"

definition cleanupOnce :: "hub \<Rightarrow> hub option" where
  "cleanupOnce h =
     (let (now, h) = hub_now h; toCleanup = keys (filter (\<lambda>(code, r). shouldCleanupRoom r now) (h_rooms h))
      in removeRooms toCleanup \<lparr>opt_audit = False, opt_pgDelete = True, opt_cache = True\<rparr> h)"

text \<open>\<^verbatim>\<open>CleanupLoop\<close> cleans up once per tick of its ticker, until its context is done.\<close>

definition CleanupInterval :: int where "CleanupInterval = 60000"

definition cleanupLoopInterval :: "int \<Rightarrow> int" where
  "cleanupLoopInterval configured = (if configured > 0 then configured else CleanupInterval)"

fun CleanupLoop :: "nat \<Rightarrow> hub \<Rightarrow> hub option" where
  "CleanupLoop 0 h = Some h"
| "CleanupLoop (Suc n) h = do { h \<leftarrow> cleanupOnce h; CleanupLoop n h }"

section \<open>Restoring\<close>

definition restorePageSize :: int where "restorePageSize = 100"

definition restore_one :: "(int \<Rightarrow> rng) \<Rightarrow> lobby_row \<Rightarrow> gostring list \<times> hub \<Rightarrow> gostring list \<times> hub" where
  "restore_one seeded ls = (\<lambda>(toFinalize, h).
     if map_of (h_rooms h) (l_Code ls) \<noteq> None then (toFinalize, h)
     else let (mine, h) = shouldLocalMaterializeRoom (l_Code ls) h
          in if \<not> mine then (toFinalize, h)
             else case deserializeAndMaterialize seeded (l_Code ls) (l_State ls) h of
                 (None, h) \<Rightarrow> (toFinalize, h)
               | (Some room, h) \<Rightarrow> (toFinalize @ [l_Code ls], put_room (l_Code ls) room h))"

definition restore_page :: "(int \<Rightarrow> rng) \<Rightarrow> lobby_row list \<Rightarrow> hub \<Rightarrow> hub" where
  "restore_page seeded lobbies h =
     (let (toFinalize, h) = fold (restore_one seeded) lobbies ([], h) in fold finalizeMaterializedRoom toFinalize h)"

text \<open>The loop over the pages, with fuel; \<open>None\<close> when the fuel is used up. The next cursor is the code of the last lobby.\<close>

fun restore_loop :: "nat \<Rightarrow> collation \<Rightarrow> (int \<Rightarrow> rng) \<Rightarrow> gostring \<Rightarrow> hub \<Rightarrow> ((hub_error + unit) \<times> hub) option" where
  "restore_loop 0 clt seeded cursor h = None"
| "restore_loop (Suc n) clt seeded cursor h = (case load_lobbies clt restorePageSize cursor h of
       (Inl e, h) \<Rightarrow> Some (Inl e, h)
     | (Inr result, h) \<Rightarrow>
         if Lobbies result = [] then Some (Inr (), h)
         else let h = restore_page seeded (Lobbies result) h
              in if int (length (Lobbies result)) < restorePageSize then Some (Inr (), h)
                 else restore_loop n clt seeded (l_Code (last (Lobbies result))) h)"

definition RestoreRooms :: "nat \<Rightarrow> collation \<Rightarrow> (int \<Rightarrow> rng) \<Rightarrow> hub \<Rightarrow> ((hub_error + unit) \<times> hub) option" where
  "RestoreRooms fuel clt seeded h = (if h_store h = None then Some (Inr (), h) else restore_loop fuel clt seeded [] h)"

end
