(* ===== verification/Hub_Properties.thy ===== *)
theory Hub_Properties
  imports Hub
begin

text \<open>
  What the hub guarantees: new rooms get a fresh valid code, rooms of other instances are left alone, the read cache
  does not hide a new room, cleaning up removes exactly the abandoned rooms, a persisted room comes back with its game
  and its players, and what happens at a shutdown and a restart.
\<close>

section \<open>Invariant\<close>

definition hub_ok :: "hub \<Rightarrow> bool" where
  "hub_ok h \<longleftrightarrow> wf_map (h_rooms h) \<and> (\<forall>code r. map_of (h_rooms h) code = Some r \<longrightarrow> room_inv r \<and> \<not> closed r)
     \<and> 1 \<le> h_maxPlayersPerRoom h \<and> h_maxPlayersPerRoom h \<le> 95 \<and> rng_ok (h_codeGen h)
     \<and> (\<forall>n. crand_ok (he_crand (h_env h) n))"

definition seeded_ok :: "(int \<Rightarrow> rng) \<Rightarrow> bool" where
  "seeded_ok seeded \<longleftrightarrow> (\<forall>s. rng_ok (seeded s))"

text \<open>Operations on the cache and the environment leave the rest of the hub alone.\<close>

definition same_hub :: "hub \<Rightarrow> hub \<Rightarrow> bool" where
  "same_hub h h' \<longleftrightarrow> h_rooms h' = h_rooms h \<and> h_store h' = h_store h \<and> h_maxPlayersPerRoom h' = h_maxPlayersPerRoom h
     \<and> h_instanceID h' = h_instanceID h \<and> h_codeGen h' = h_codeGen h \<and> h_wsLimiter h' = h_wsLimiter h
     \<and> he_crand (h_env h') = he_crand (h_env h) \<and> (h_cache h' = None) = (h_cache h = None)"

lemma same_hub_refl [simp]: "same_hub h h"
  by (simp add: same_hub_def)

lemma same_hub_trans: "same_hub a b \<Longrightarrow> same_hub b c \<Longrightarrow> same_hub a c"
  by (simp add: same_hub_def)

lemma same_hub_ok: "same_hub h h' \<Longrightarrow> hub_ok h' = hub_ok h"
  by (simp add: same_hub_def hub_ok_def)

lemma same_hub_basic [simp]:
  "same_hub h (hub_tick h)" "same_hub h (audit_log a b h)" "same_hub h (with_cache f h)" "same_hub h (snd (hub_now h))"
  by (simp_all add: same_hub_def hub_tick_def audit_log_def with_cache_def hub_now_def split: option.split)

lemma same_hub_cache [simp]:
  "same_hub h (invalidateLobbyReadCaches code h)" "same_hub h (registerRoomInRedis code h)" "same_hub h (unregisterRoomFromRedis code h)"
  "same_hub h (finalizeMaterializedRoom code h)"
  by (auto simp: invalidateLobbyReadCaches_def registerRoomInRedis_def unregisterRoomFromRedis_def finalizeMaterializedRoom_def Let_def hub_now_def
      intro: same_hub_trans same_hub_basic)

lemma same_hub_should: "same_hub h (snd (shouldLocalMaterializeRoom code h))"
  by (auto simp: shouldLocalMaterializeRoom_def same_hub_def split: option.split sum.split prod.split)

lemma hub_ok_put: "hub_ok h \<Longrightarrow> room_inv r \<Longrightarrow> \<not> closed r \<Longrightarrow> hub_ok (put_room code r h)"
  by (auto simp: hub_ok_def put_room_def)

lemma NewGameState_code: "LobbyCode (fst (NewGameState now code seed g)) = code"
  by (simp add: NewGameState_def initWind_def Let_def split_def)

lemma new_room_ok:
  assumes "hub_ok h" "seeded_ok seeded"
  shows "room_inv (fst (new_room seeded code h))" "\<not> closed (fst (new_room seeded code h))" "same_hub h (snd (new_room seeded code h))"
    "Players (state (fst (new_room seeded code h))) = []" "Phase (state (fst (new_room seeded code h))) = PhaseWaiting"
    "LobbyCode (state (fst (new_room seeded code h))) = code" "connections (fst (new_room seeded code h)) = []"
    "usedNames (fst (new_room seeded code h)) = {}" "maxPlayers (fst (new_room seeded code h)) = h_maxPlayersPerRoom h"
    "infra_ok (fst (new_room seeded code h))" "crand_ok (room_crand (fst (new_room seeded code h)))"
proof -
  show r: "room_inv (fst (new_room seeded code h))"
    using assms NewRoom_inv by (simp add: new_room_def hub_ok_def seeded_ok_def Let_def)
  then show "infra_ok (fst (new_room seeded code h))" "crand_ok (room_crand (fst (new_room seeded code h)))"
    by (simp_all add: room_inv_def core_ok_def)
qed (use assms(1) in \<open>simp_all add: new_room_def NewRoom_def Let_def split_def NewGameState_frame NewGameState_code hub_ok_def\<close>)

section \<open>Creating rooms\<close>

text \<open>The codes that \<^verbatim>\<open>CreateRoom\<close> would try.\<close>

fun candidates :: "nat \<Rightarrow> rng \<Rightarrow> gostring list" where
  "candidates 0 g = []"
| "candidates (Suc n) g = fst (GenerateRoomCode g) # candidates n (snd (GenerateRoomCode g))"

lemma code_valid:
  assumes "rng_ok g"
  shows "NewRoomCode (fst (GenerateRoomCode g)) = Inr (fst (GenerateRoomCode g))" "fst (GenerateRoomCode g) \<noteq> []" "rng_ok (snd (GenerateRoomCode g))"
proof -
  show n: "NewRoomCode (fst (GenerateRoomCode g)) = Inr (fst (GenerateRoomCode g))"
    using gen_code_ok [OF assms, of RoomCodeLen] roomAlphabet_ok(2) room_chars_bytes [of "fst (GenerateRoomCode g)"]
    by (fastforce simp: NewRoomCode_def GenerateRoomCode_def RoomCodeLen_def split: option.splits dest: find_None_ball [THEN iffD2])
  show "fst (GenerateRoomCode g) \<noteq> []" "rng_ok (snd (GenerateRoomCode g))"
    using gen_code_ok [OF assms, of RoomCodeLen] by (auto simp: GenerateRoomCode_def RoomCodeLen_def)
qed

lemma code_loop_result:
  assumes "rng_ok g"
  shows "case code_loop n rooms g of (code, g') \<Rightarrow> rng_ok g' \<and>
    (if code = [] then set (candidates n g) \<subseteq> set (keys rooms) else map_of rooms code = None \<and> NewRoomCode code = Inr code)"
  using assms
proof (induction n arbitrary: g)
  case (Suc n)
  note v = code_valid [OF Suc.prems]
  obtain code g' where c: "GenerateRoomCode g = (code, g')" by fastforce
  show ?case
  proof (cases "map_of rooms code = None")
    case True
    then show ?thesis using v c by simp
  next
    case False
    then have "code \<in> set (keys rooms)" by (auto dest: map_of_SomeD intro: rev_image_eqI)
    then show ?thesis using False c v Suc.IH [of g'] by (auto split: prod.splits if_splits)
  qed
qed simp

lemma create_facts:
  assumes "hub_ok h" "seeded_ok seeded" "CreateRoom seeded h = (res, h')"
  shows "hub_ok h' \<and> (case res of
      Inr code \<Rightarrow> NewRoomCode code = Inr code \<and> map_of (h_rooms h) code = None
        \<and> (\<exists>r. h_rooms h' = AList.update code r (h_rooms h) \<and> Phase (state r) = PhaseWaiting \<and> Players (state r) = []
            \<and> LobbyCode (state r) = code \<and> connections r = [] \<and> maxPlayers r = h_maxPlayersPerRoom h)
    | Inl e \<Rightarrow> e = ErrRoomCodeConflict \<and> h_rooms h' = h_rooms h \<and> set (candidates 10 (h_codeGen h)) \<subseteq> set (keys (h_rooms h)))"
proof -
  obtain code g where c: "code_loop 10 (h_rooms h) (h_codeGen h) = (code, g)" by fastforce
  have l: "rng_ok g \<and> (if code = [] then set (candidates 10 (h_codeGen h)) \<subseteq> set (keys (h_rooms h))
      else map_of (h_rooms h) code = None \<and> NewRoomCode code = Inr code)"
    using code_loop_result [of "h_codeGen h" 10 "h_rooms h"] assms(1) unfolding c prod.case hub_ok_def by blast
  define h1 where "h1 = h\<lparr>h_codeGen := g\<rparr>"
  have h1: "hub_ok h1" "h_rooms h1 = h_rooms h" "h_maxPlayersPerRoom h1 = h_maxPlayersPerRoom h"
    using assms(1) l by (simp_all add: h1_def hub_ok_def)
  show ?thesis
  proof (cases "code = []")
    case True
    then show ?thesis using assms(3) l h1 by (auto simp: CreateRoom_def c h1_def)
  next
    case False
    define room h2 where "room = fst (new_room seeded code h1)" and "h2 = snd (new_room seeded code h1)"
    define h3 where "h3 = put_room code room h2"
    note r = new_room_ok [OF h1(1) assms(2), of code, folded room_def h2_def]
    have h3: "hub_ok h3" using r same_hub_ok [OF r(3)] h1 by (simp add: h3_def hub_ok_put)
    have e: "res = Inr code" "same_hub h3 h'"
      using assms(3) False l same_hub_trans [OF same_hub_cache(2) same_hub_trans [OF same_hub_cache(1) same_hub_basic(2)]]
      by (auto simp: CreateRoom_def c split_def Let_def h3_def room_def h2_def h1_def)
    then show ?thesis using False l h3 same_hub_ok [OF e(2)] r(3-7,9) h1(2,3)
      by (auto simp: same_hub_def h3_def put_room_def)
  qed
qed

text \<open>A new room gets a code that is valid and that no room has; it is empty and waits for players, and all other
  rooms are as they were. The only error is a conflict, which is reported exactly when ten generated codes in a row are
  taken, and then no room has changed.\<close>

theorem create_room_fresh_code:
  assumes "hub_ok h" "seeded_ok seeded" "CreateRoom seeded h = (res, h')"
  shows "hub_ok h' \<and> (case res of
      Inr code \<Rightarrow> NewRoomCode code = Inr code \<and> map_of (h_rooms h) code = None
        \<and> (\<exists>r. h_rooms h' = AList.update code r (h_rooms h) \<and> Phase (state r) = PhaseWaiting \<and> Players (state r) = []
            \<and> LobbyCode (state r) = code \<and> maxPlayers r = h_maxPlayersPerRoom h)
    | Inl e \<Rightarrow> e = ErrRoomCodeConflict \<and> h_rooms h' = h_rooms h \<and> set (candidates 10 (h_codeGen h)) \<subseteq> set (keys (h_rooms h)))"
  using create_facts [OF assms] by (auto split: sum.splits)

text \<open>A hub to evaluate the properties on.\<close>

definition zero_seeded :: "int \<Rightarrow> rng" where
  "zero_seeded s = zero_rng"

definition demo_env :: hub_env where
  "demo_env = \<lparr>he_clock = (\<lambda>n. 1 + int n), he_seed = (\<lambda>n. int n), he_uuid = (\<lambda>_. replicate 16 0), he_crand = (\<lambda>_. failing_crand),
     he_room = (\<lambda>_. zero_env), he_late = (\<lambda>_. False), he_pos = 0\<rparr>"

definition demo_redis :: redis where
  "demo_redis = \<lparr>kv = [], rd_attempts = (\<lambda>_. Runs), rd_pos = 0\<rparr>"

definition demo_hub :: hub where
  "demo_hub = NewHub (Some demo_db) (Some demo_redis) 0 0 (str ''i1'') zero_rng demo_env"

lemma demo_hub_ok: "hub_ok demo_hub"
  by (simp add: demo_hub_def NewHub_def hub_ok_def MaxPlayersPerRoom_def zero_rng_ok demo_env_def failing_crand_ok)

lemma zero_seeded_ok: "seeded_ok zero_seeded"
  by (simp add: seeded_ok_def zero_seeded_def zero_rng_ok)

lemma gen_code_zero: "r_int g = (\<lambda>_ _. 0) \<Longrightarrow> gen_code n g = (replicate n (roomAlphabet ! 0), g\<lparr>r_pos := r_pos g + n\<rparr>)"
  by (induction n arbitrary: g) (simp_all add: rng_IntN_def)

lemma code_A: "replicate 5 (roomAlphabet ! 0) = str ''AAAAA''"
  by code_simp

lemma demo_hub_creates: "\<exists>h'. CreateRoom zero_seeded demo_hub = (Inr (str ''AAAAA''), h')"
proof -
  have c: "GenerateRoomCode zero_rng = (str ''AAAAA'', zero_rng\<lparr>r_pos := 5\<rparr>)"
    using gen_code_zero [of zero_rng 5] code_A by (simp add: GenerateRoomCode_def RoomCodeLen_def zero_rng_def)
  have n: "NewRoomCode (str ''AAAAA'') = Inr (str ''AAAAA'')" using code_valid(1) [OF zero_rng_ok] c by simp
  have l: "code_loop 10 (h_rooms demo_hub) (h_codeGen demo_hub) = (str ''AAAAA'', zero_rng\<lparr>r_pos := 5\<rparr>)"
    using code_loop.simps(2) [of 9 "[]" zero_rng] c by (simp add: demo_hub_def NewHub_def del: code_loop.simps)
  have "str ''AAAAA'' \<noteq> []" by (simp add: str_def)
  then show ?thesis using n unfolding CreateRoom_def l Let_def prod.case by (simp add: split_def)
qed

theorem create_room_fresh_code_witness:
  "\<exists>h'. CreateRoom zero_seeded demo_hub = (Inr (str ''AAAAA''), h') \<and> hub_ok h' \<and> map_of (h_rooms demo_hub) (str ''AAAAA'') = None"
proof -
  obtain h' where "CreateRoom zero_seeded demo_hub = (Inr (str ''AAAAA''), h')" using demo_hub_creates by blast
  then show ?thesis using create_room_fresh_code [OF demo_hub_ok zero_seeded_ok] by force
qed

section \<open>Removing rooms\<close>

definition same_mem :: "hub \<Rightarrow> hub \<Rightarrow> bool" where
  "same_mem h h' \<longleftrightarrow> h_rooms h' = h_rooms h \<and> h_maxPlayersPerRoom h' = h_maxPlayersPerRoom h \<and> h_codeGen h' = h_codeGen h
     \<and> he_crand (h_env h') = he_crand (h_env h) \<and> (h_store h' = None) = (h_store h = None) \<and> (h_cache h' = None) = (h_cache h = None)"

lemma same_mem_refl [simp]: "same_mem h h"
  by (simp add: same_mem_def)

lemma same_mem_trans: "same_mem a b \<Longrightarrow> same_mem b c \<Longrightarrow> same_mem a c"
  by (simp add: same_mem_def)

lemma same_mem_ok: "same_mem h h' \<Longrightarrow> hub_ok h' = hub_ok h"
  by (simp add: same_mem_def hub_ok_def)

lemma same_hub_mem: "same_hub h h' \<Longrightarrow> same_mem h h'"
  by (simp add: same_hub_def same_mem_def)

lemma same_mem_write: "same_mem h (write_job job h)"
  by (simp add: write_job_def newLobbyState_def same_mem_def hub_tick_def Let_def split: option.split)

lemma same_mem_writes: "same_mem h (fold write_job jobs h)"
  by (induction jobs arbitrary: h) (auto intro: same_mem_trans [OF same_mem_write])

lemma same_mem_delete: "same_mem h (delete_from_store code h)"
  by (simp add: delete_from_store_def same_mem_def split: option.split)

lemma finalize_returns:
  assumes "\<And>r. room = Some r \<Longrightarrow> room_inv r"
  shows "returns (finalizeRoomRemoval code room opts h) (same_mem h)"
proof -
  obtain jobs where jobs: "(case room of None \<Rightarrow> Some [] | Some r \<Rightarrow> map_option (closing_jobs r) (Close r)) = Some jobs"
  proof (cases room)
    case (Some r)
    then obtain r' where "Close r = Some r'" using Close_returns [OF assms] by (auto simp: returns_def)
    then show ?thesis using that Some by simp
  qed (use that in simp)
  define late where "late = he_late (h_env h) (he_pos (h_env h))"
  define h1 where "h1 = (if late then hub_tick h else fold write_job jobs (hub_tick h))"
  define h2 where "h2 = (if opt_pgDelete opts then delete_from_store code h1 else h1)"
  define h3 where "h3 = (if late then fold write_job jobs h2 else h2)"
  define h4 where "h4 = unregisterRoomFromRedis code h3"
  define h5 where "h5 = (if opt_cache opts then invalidateLobbyReadCaches code h4 else h4)"
  have "same_mem h h1" using same_mem_trans [OF same_hub_mem [OF same_hub_basic(1)] same_mem_writes] same_hub_mem [OF same_hub_basic(1)]
    by (simp add: h1_def)
  moreover have "same_mem h1 h2" by (simp add: h2_def same_mem_delete)
  moreover have "same_mem h2 h3" by (simp add: h3_def same_mem_writes)
  moreover have "same_mem h3 h4" by (simp add: h4_def same_hub_mem)
  moreover have "same_mem h4 h5" by (simp add: h5_def same_hub_mem)
  moreover have "same_mem h5 (audit_log a b h5)" for a b by (simp add: same_hub_mem)
  ultimately have "same_mem h h5 \<and> same_mem h (audit_log a b h5)" for a b by (meson same_mem_trans)
  moreover have "finalizeRoomRemoval code room opts h =
      Some (if opt_audit opts then audit_log (str ''room.delete'') (str ''room/'' @ code) h5 else h5)"
    by (simp add: finalizeRoomRemoval_def jobs Let_def h1_def h2_def h3_def h4_def h5_def late_def)
  ultimately show ?thesis by simp
qed

lemma finalize_batch_returns:
  "(\<And>code r. (code, r) \<in> set batch \<Longrightarrow> room_inv r) \<Longrightarrow> returns (finalize_batch batch opts h) (same_mem h)"
proof (induction batch arbitrary: h)
  case (Cons x batch)
  obtain code r where x: "x = (code, r)" by fastforce
  have "returns (do { h \<leftarrow> finalizeRoomRemoval code (Some r) opts h; finalize_batch batch opts h }) (same_mem h)"
  proof (rule returns_bind [OF finalize_returns])
    show "Some r = Some r' \<Longrightarrow> room_inv r'" for r' using Cons.prems x by auto
    fix h' assume m: "same_mem h h'"
    have "returns (finalize_batch batch opts h') (same_mem h')" using Cons.prems by (intro Cons.IH) auto
    then show "returns (finalize_batch batch opts h') (same_mem h)" by (rule returns_mono) (rule same_mem_trans [OF m])
  qed
  then show ?case by (simp add: x)
qed simp

lemma filter_delete: "filter (\<lambda>(c, r). c \<notin> set ks) (AList.delete k al) = filter (\<lambda>(c, r). c \<notin> set (k # ks)) al"
  by (induction al) auto

lemma take_rooms_result:
  "take_rooms codes h = (batch, h') \<Longrightarrow> h' = h\<lparr>h_rooms := filter (\<lambda>(code, r). code \<notin> set codes) (h_rooms h)\<rparr>
    \<and> set batch \<subseteq> set (h_rooms h)"
proof (induction codes arbitrary: h batch h')
  case Nil
  then show ?case by (simp add: case_prod_beta)
next
  case (Cons code codes)
  let ?h = "h\<lparr>h_rooms := AList.delete code (h_rooms h)\<rparr>"
  obtain b h2 where t: "take_rooms codes ?h = (b, h2)" by fastforce
  have "filter (\<lambda>(c, r). c \<notin> set codes) (AList.delete code (h_rooms h)) = filter (\<lambda>(c, r). c \<notin> set (code # codes)) (h_rooms h)"
    by (rule filter_delete)
  then have "h2 = h\<lparr>h_rooms := filter (\<lambda>(c, r). c \<notin> set (code # codes)) (h_rooms h)\<rparr>" "set b \<subseteq> set (h_rooms h)"
    using Cons.IH [OF t] by (auto simp: set_delete)
  moreover have "h' = h2 \<and> (batch = b \<or> (\<exists>r. map_of (h_rooms h) code = Some r \<and> batch = (code, r) # b))"
    using Cons.prems t by (cases "map_of (h_rooms h) code") (simp_all add: removeRoomFromMemory_def)
  ultimately show ?case by (auto dest: map_of_SomeD)
qed

lemma hub_ok_filter:
  assumes "hub_ok h"
  shows "hub_ok (h\<lparr>h_rooms := filter (\<lambda>(code, r). P code r) (h_rooms h)\<rparr>)"
  using assms by (auto simp: hub_ok_def map_of_filter_wf split: option.splits if_splits)

lemma removeRooms_returns:
  assumes "hub_ok h"
  shows "returns (removeRooms codes opts h)
    (\<lambda>h'. hub_ok h' \<and> h_rooms h' = filter (\<lambda>(code, r). code \<notin> set codes) (h_rooms h))"
proof (cases "codes = []")
  case False
  obtain batch h1 where t: "take_rooms codes h = (batch, h1)" by fastforce
  note r = take_rooms_result [OF t]
  have "room_inv r" if "(code, r) \<in> set batch" for code r
    using that r assms by (auto simp: hub_ok_def in_set_map_of)
  then have f: "returns (finalize_batch batch opts h1) (same_mem h1)" by (rule finalize_batch_returns)
  have h1: "hub_ok h1" "h_rooms h1 = filter (\<lambda>(code, r). code \<notin> set codes) (h_rooms h)"
    using r hub_ok_filter [OF assms, of "\<lambda>code r. code \<notin> set codes"] by simp_all
  have "hub_ok x \<and> h_rooms x = filter (\<lambda>(code, r). code \<notin> set codes) (h_rooms h)" if "same_mem h1 x" for x
    using same_mem_ok [OF that] h1 that by (simp add: same_mem_def)
  with f have "returns (finalize_batch batch opts h1) (\<lambda>x. hub_ok x \<and> h_rooms x = filter (\<lambda>(code, r). code \<notin> set codes) (h_rooms h))"
    by (rule returns_mono)
  then show ?thesis using False t by (simp add: removeRooms_def)
qed (use assms in \<open>simp add: removeRooms_def case_prod_beta\<close>)

lemma expired_all: "allPlayersDisconnectedExpired ps now \<longleftrightarrow> list_all (\<lambda>(pid, p). expired now p) ps"
  by (induction ps now rule: allPlayersDisconnectedExpired.induct) (auto simp: expired_def split: option.split)

lemma should_cleanup_iff:
  "shouldCleanupRoom r now \<longleftrightarrow> connections r = [] \<and> (Phase (state r) = PhaseWaiting \<or> list_all (\<lambda>(pid, p). expired now p) (Players (state r)))"
  by (auto simp: shouldCleanupRoom_def expired_all Let_def)

text \<open>C20: Cleaning up returns, and removes exactly the rooms without connections that are waiting for players or whose
  players have all been away for longer than the grace period; every other room stays as it is. In particular no room
  with a connected player is ever removed, and a room in play is kept for as long as one of its players may return.\<close>

theorem cleanup_removes_abandoned_rooms:
  assumes "hub_ok h"
  shows "\<exists>h'. cleanupOnce h = Some h' \<and> hub_ok h'
    \<and> h_rooms h' = filter (\<lambda>(code, r). \<not> (connections r = []
        \<and> (Phase (state r) = PhaseWaiting \<or> list_all (\<lambda>(pid, p). expired (fst (hub_now h)) p) (Players (state r))))) (h_rooms h)"
proof -
  obtain now h1 where n: "hub_now h = (now, h1)" by fastforce
  have h1: "same_hub h h1" using same_hub_basic(4) [of h] n by simp
  define codes where "codes = keys (filter (\<lambda>(code, r). shouldCleanupRoom r now) (h_rooms h1))"
  have wf: "wf_map (h_rooms h1)" using assms same_hub_ok [OF h1] by (simp add: hub_ok_def)
  have "code \<in> set codes \<longleftrightarrow> shouldCleanupRoom r now" if "(code, r) \<in> set (h_rooms h1)" for code r
    using that wf by (force simp: codes_def in_set_map_of)
  then have "filter (\<lambda>(code, r). code \<notin> set codes) (h_rooms h1) = filter (\<lambda>(code, r). \<not> shouldCleanupRoom r now) (h_rooms h1)"
    by (auto intro!: filter_cong)
  moreover have "h_rooms h1 = h_rooms h" using h1 by (simp add: same_hub_def)
  ultimately show ?thesis using removeRooms_returns [of h1 codes "\<lparr>opt_audit = False, opt_pgDelete = True, opt_cache = True\<rparr>"] assms same_hub_ok [OF h1] n
    by (auto simp: cleanupOnce_def codes_def should_cleanup_iff returns_def)
qed

theorem cleanup_removes_abandoned_rooms_witness:
  "\<exists>h'. cleanupOnce (put_room (str ''ABCDE'') demo_room demo_hub) = Some h' \<and> h_rooms h' = []"
proof -
  have "\<not> closed demo_room" "connections demo_room = []" "Phase (state demo_room) = PhaseWaiting"
    by (simp_all add: demo_room_def NewRoom_def Let_def split_def NewGameState_frame)
  moreover have "hub_ok (put_room (str ''ABCDE'') demo_room demo_hub)"
    using hub_ok_put [OF demo_hub_ok demo_inv] calculation(1) by simp
  ultimately show ?thesis using cleanup_removes_abandoned_rooms [of "put_room (str ''ABCDE'') demo_room demo_hub"]
    by (auto simp: put_room_def demo_hub_def NewHub_def)
qed

section \<open>Rooms that come back from the database\<close>

lemma players_ok_mark:
  assumes "players_ok ps used"
  shows "players_ok (map (\<lambda>(pid, p). (pid, MarkDisconnected now p)) ps) used"
proof -
  let ?f = "\<lambda>pid p. MarkDisconnected now p"
  have m: "map_of (map (\<lambda>(pid, p). (pid, MarkDisconnected now p)) ps) = (\<lambda>x. map_option (MarkDisconnected now) (map_of ps x))"
    using map_of_map_snd [of ?f ps] by (auto simp: fun_eq_iff)
  have nn: "p_Nickname (MarkDisconnected now p) = p_Nickname p" for p by (simp add: MarkDisconnected_def)
  have n: "nick_of (map (\<lambda>(pid, p). (pid, MarkDisconnected now p)) ps) = nick_of ps"
    unfolding nick_of_def m fun_eq_iff by (simp add: option.map_comp comp_def nn)
  have d: "dom (map_of (map (\<lambda>(pid, p). (pid, MarkDisconnected now p)) ps)) = dom (map_of ps)" by (auto simp: m dom_def)
  have "player_ok pid (MarkDisconnected now p) = player_ok pid p" for pid p by (simp add: MarkDisconnected_def)
  then show ?thesis using assms wf_map_map_snd [of ?f ps] unfolding players_ok_def n d by (auto simp: m)
qed

lemma materialize_frame:
  assumes "hub_ok h" "seeded_ok seeded" "materializeRoom seeded code s h = (r, h')"
  shows "same_hub h h'" "\<exists>now. state r = disconnect_all now s" "usedNames r = (p_Nickname \<circ> snd) ` set (Players s)"
    "connections r = []" "\<not> closed r" "maxPlayers r = h_maxPlayersPerRoom h" "infra_ok r" "crand_ok (room_crand r)" "rng_ok (room_rng r)"
proof -
  define r0 h0 where "r0 = fst (new_room seeded code h)" and "h0 = snd (new_room seeded code h)"
  note n = new_room_ok [OF assms(1,2), of code, folded r0_def h0_def]
  have r: "r = r0\<lparr>state := disconnect_all (fst (hub_now h0)) s, room_rng := seeded (RNGSeed s),
      usedNames := usedNames r0 \<union> set (map (p_Nickname \<circ> snd) (Players s))\<rparr>" and h': "h' = snd (hub_now h0)"
    using assms(3) by (simp_all add: materializeRoom_def Let_def split_def r0_def h0_def)
  show "same_hub h h'" unfolding h' by (rule same_hub_trans [OF n(3) same_hub_basic(4)])
  show "\<exists>now. state r = disconnect_all now s" using r by auto
  show "usedNames r = (p_Nickname \<circ> snd) ` set (Players s)" using n(8) by (simp add: r)
  show "connections r = []" "\<not> closed r" "maxPlayers r = h_maxPlayersPerRoom h" "infra_ok r" "crand_ok (room_crand r)" "rng_ok (room_rng r)"
    using n assms(2) by (simp_all add: r infra_ok_def seeded_ok_def)
qed

lemma materialize_inv:
  assumes "hub_ok h" "seeded_ok seeded" "materializeRoom seeded code s h = (r, h')"
    and "players_ok (Players s) used" "int (length (Players s)) \<le> h_maxPlayersPerRoom h" "world_ok s"
  shows "room_inv r"
proof -
  note f = materialize_frame [OF assms(1-3)]
  obtain now where st: "state r = disconnect_all now s" using f(2) by blast
  have "players_ok (Players (state r)) (usedNames r)"
    using players_ok_mark [OF assms(4), of now] players_ok_names [OF assms(4)] f(3) by (simp add: st disconnect_all_def)
  then show ?thesis using f assms(1,5,6) by (simp add: room_inv_def core_ok_def st disconnect_all_def hub_ok_def)
qed

text \<open>A room that is made from the persisted state of a room is a room in good order: it has the same game and the same
  players with their names and scores, all of them marked as disconnected, so that each of them can come back.\<close>

theorem persisted_room_comes_back:
  assumes "hub_ok h" "seeded_ok seeded" "room_inv r" "maxPlayers r = h_maxPlayersPerRoom h"
    and "deserializeAndMaterialize seeded code (StateJSON (state r)) h = (res, h')"
  shows "\<exists>r' now. res = Some r' \<and> room_inv r' \<and> state r' = disconnect_all now (state r) \<and> usedNames r' = usedNames r
    \<and> list_all (\<lambda>(pid, p). p_Disconnected p) (Players (state r')) \<and> connections r' = [] \<and> \<not> closed r'"
proof -
  obtain r' where m: "materializeRoom seeded code (state r) h = (r', h')" and res: "res = Some r'"
    using assms(5) by (auto simp: deserializeAndMaterialize_def DeserializeState_def split: prod.splits)
  have c: "players_ok (Players (state r)) (usedNames r)" "int (length (Players (state r))) \<le> h_maxPlayersPerRoom h" "world_ok (state r)"
    using assms(3,4) by (simp_all add: room_inv_def core_ok_def)
  note f = materialize_frame [OF assms(1,2) m] and i = materialize_inv [OF assms(1,2) m c]
  obtain now where "state r' = disconnect_all now (state r)" using f(2) by blast
  moreover have "list_all (\<lambda>(pid, p). p_Disconnected p) (Players (disconnect_all now (state r)))"
    by (auto simp: disconnect_all_def list_all_iff MarkDisconnected_def)
  ultimately show ?thesis using res f i players_ok_names [OF c(1)] by auto
qed

theorem persisted_room_comes_back_witness:
  "\<exists>r' h'. deserializeAndMaterialize zero_seeded (str ''ABCDE'') (StateJSON (state (with_player demo_player))) demo_hub = (Some r', h')
     \<and> list_all (\<lambda>(pid, p). p_Disconnected p) (Players (state r'))"
proof -
  obtain res h' where d: "deserializeAndMaterialize zero_seeded (str ''ABCDE'') (StateJSON (state (with_player demo_player))) demo_hub = (res, h')"
    by fastforce
  have "maxPlayers (with_player demo_player) = h_maxPlayersPerRoom demo_hub"
    by (simp add: with_player_frame demo_hub_def NewHub_def MaxPlayersPerRoom_def)
  from persisted_room_comes_back [OF demo_hub_ok zero_seeded_ok with_player_inv [OF demo_player_ok] this d] d show ?thesis by auto
qed

section \<open>Ownership\<close>

text \<open>A room that is not in memory is not loaded when the registry names another instance as its owner, and not either
  when the registry cannot be read: the request finds no room, and neither the rooms nor the database change.\<close>

theorem foreign_room_not_loaded:
  assumes "map_of (h_rooms h) code = None" "h_cache h = Some rd"
    and "rd_attempts rd (rd_pos rd) = Runs \<longrightarrow>
      (\<exists>info. string_at (roomInfoKey code) rd = Some (JRegistry info) \<and> reg_Instance info \<noteq> [] \<and> reg_Instance info \<noteq> h_instanceID h)"
  shows "\<exists>h'. getRoom seeded code h = (None, h') \<and> h_rooms h' = h_rooms h \<and> h_store h' = h_store h"
proof -
  have "fst (shouldLocalMaterializeRoom code h) = False"
    using assms(2,3) by (auto simp: shouldLocalMaterializeRoom_def GetRoomRegistry_def exec_def r_get_def string_at_def UnmarshalRoomRegistryInfo_def
        Let_def split: attempt.splits option.splits redis_value.splits)
  then show ?thesis using assms(1) same_hub_should [of h code]
    by (cases "h_store h") (auto simp: getRoom_def loadOrMaterializeRoom_def load_room_def same_hub_def split_def Let_def)
qed

theorem foreign_room_not_loaded_witness:
  "\<exists>h'. getRoom zero_seeded (str ''ABCDE'') (demo_hub\<lparr>h_cache := Some (demo_redis\<lparr>rd_attempts := (\<lambda>_. Fails False)\<rparr>)\<rparr>) = (None, h')"
  using foreign_room_not_loaded [of "demo_hub\<lparr>h_cache := Some (demo_redis\<lparr>rd_attempts := (\<lambda>_. Fails False)\<rparr>)\<rparr>" "str ''ABCDE''"
      "demo_redis\<lparr>rd_attempts := (\<lambda>_. Fails False)\<rparr>" zero_seeded]
  by (auto simp: demo_hub_def NewHub_def)

section \<open>Matching\<close>

text \<open>Matching returns the code of a room of the hub that waits for players and has a place for one more, an existing
  one if there is any, and otherwise a new one; it fails only when no code for a new room is found.\<close>

theorem match_room_joinable:
  assumes "hub_ok h" "seeded_ok seeded" "MatchRoom seeded h = (res, h')"
  shows "hub_ok h' \<and> (case res of
      Inr code \<Rightarrow> (\<exists>r. map_of (h_rooms h') code = Some r \<and> roomJoinable r (h_maxPlayersPerRoom h))
        \<and> (if joinableRoomCodes h \<noteq> [] then h' = h else map_of (h_rooms h) code = None)
    | Inl e \<Rightarrow> e = ErrRoomCodeConflict \<and> joinableRoomCodes h = [] \<and> h_rooms h' = h_rooms h)"
proof -
  let ?P = "\<lambda>code. case map_of (h_rooms h) code of None \<Rightarrow> False | Some r \<Rightarrow> roomJoinable r (h_maxPlayersPerRoom h)"
  have all: "?P code" if "code \<in> set (joinableRoomCodes h)" for code
    using that assms(1) by (auto simp: joinableRoomCodes_def hub_ok_def in_set_map_of)
  show ?thesis
  proof (cases "joinableRoomCodes h")
    case (Cons code codes)
    then have "find ?P (joinableRoomCodes h) = Some code" using all [of code] by simp
    then have "res = Inr code" "h' = h" using assms(3) by (simp_all add: MatchRoom_def)
    then show ?thesis using all [of code] Cons assms(1) by (auto split: option.splits)
  next
    case Nil
    then have cr: "CreateRoom seeded h = (res, h')" using assms(3) by (simp add: MatchRoom_def)
    show ?thesis using create_facts [OF assms(1,2) cr] Nil assms(1)
      by (auto simp: roomJoinable_def hub_ok_def split: sum.splits)
  qed
qed

theorem match_room_joinable_witness:
  "\<exists>code h'. MatchRoom zero_seeded demo_hub = (Inr code, h') \<and> map_of (h_rooms demo_hub) code = None"
proof -
  have j: "joinableRoomCodes demo_hub = []" by (simp add: joinableRoomCodes_def demo_hub_def NewHub_def)
  obtain h' where "CreateRoom zero_seeded demo_hub = (Inr (str ''AAAAA''), h')" using demo_hub_creates by blast
  then have m: "MatchRoom zero_seeded demo_hub = (Inr (str ''AAAAA''), h')" using j by (simp add: MatchRoom_def)
  show ?thesis using match_room_joinable [OF demo_hub_ok zero_seeded_ok m] j m by auto
qed

section \<open>The read cache and new rooms\<close>

lemma register_cache:
  assumes "up rd"
  shows "up (snd (RegisterRoom code info rd))" "checks_sane rd \<Longrightarrow> checks_sane (snd (RegisterRoom code info rd))"
proof -
  have "exec (r_sadd k m) rd1 = (x, rd2) \<Longrightarrow> up rd1 \<Longrightarrow> up rd2" for k m rd1 x rd2 by (auto simp: exec_up)
  then show "up (snd (RegisterRoom code info rd))" using assms by (simp add: RegisterRoom_def exec_up r_set_def)
  have k: "lobbyCheckCacheKey c \<noteq> roomInfoKey code" "roomIndexKey \<noteq> lobbyCheckCacheKey c" for c using key_clash(1,2) by metis+
  have key: "map_of (snd (r_sadd roomIndexKey code s)) (lobbyCheckCacheKey c) = map_of s (lobbyCheckCacheKey c)" for s c
    using k by (auto simp: r_sadd_def split: option.split redis_value.split)
  show "checks_sane rd \<Longrightarrow> checks_sane (snd (RegisterRoom code info rd))"
    using assms key k(1) by (simp add: RegisterRoom_def exec_up r_set_def checks_sane_def)
qed

lemma invalidate_lists_sane: "up rd \<Longrightarrow> checks_sane rd \<Longrightarrow> checks_sane (snd (InvalidateLobbyListCaches rd))"
  using invalidate_lists_frame(2) [OF _ key_clash(3)] by (simp add: checks_sane_def)

text \<open>A room that has just been created is found by the cached check when Redis is up, with no players and waiting, even
  if the cache still had the marker for a room that does not exist: creating a room drops it.\<close>

theorem created_room_is_found:
  assumes "hub_ok h" "seeded_ok seeded" "CreateRoom seeded h = (Inr code, h1)" "h_cache h = Some rd" "up rd" "checks_sane rd"
  shows "\<exists>info h2. CheckRoomCached seeded code h1 = (Inr (Some info), h2) \<and> ri_Code info = code \<and> ri_Phase info = PhaseWaiting
    \<and> ri_PlayerCount info = 0 \<and> h_rooms h2 = h_rooms h1"
proof -
  obtain c g where cl: "code_loop 10 (h_rooms h) (h_codeGen h) = (c, g)" by fastforce
  define h2 where "h2 = put_room c (fst (new_room seeded c (h\<lparr>h_codeGen := g\<rparr>))) (snd (new_room seeded c (h\<lparr>h_codeGen := g\<rparr>)))"
  have h1: "h1 = audit_log (str ''room.create'') (str ''room/'' @ c) (invalidateLobbyReadCaches c (registerRoomInRedis c h2))" "c = code" "c \<noteq> []"
    using assms(3) by (auto simp: CreateRoom_def cl h2_def Let_def split_def split: if_splits sum.splits)
  have "h_cache h2 = Some rd" using assms(4) by (simp add: h2_def put_room_def new_room_def Let_def hub_tick_def)
  then obtain info where r: "h_cache (registerRoomInRedis c h2) = Some (snd (RegisterRoom c info rd))"
    by (auto simp: registerRoomInRedis_def hub_now_def hub_tick_def with_cache_def Let_def)
  define rd2 where "rd2 = snd (InvalidateLobbyListCaches (snd (RegisterRoom c info rd)))"
  have rd2: "up rd2" "checks_sane rd2"
    using register_cache [OF assms(5)] assms(6) invalidate_lists_frame(1) [OF _ key_clash(3)] invalidate_lists_sane by (simp_all add: rd2_def)
  have cache: "h_cache h1 = Some (snd (InvalidateRoomCheck c rd2))"
    using r h1 by (simp add: audit_log_def invalidateLobbyReadCaches_def with_cache_def rd2_def)
  obtain rd3 where get: "GetCachedRoomCheck code (snd (InvalidateRoomCheck c rd2)) = (Inr None, rd3)"
    using room_check.get_after_drop [OF rd2, of code] h1(2) by (metis prod.collapse)
  obtain room where room: "map_of (h_rooms h1) code = Some room" "Phase (state room) = PhaseWaiting" "Players (state room) = []"
    "LobbyCode (state room) = code"
    using create_facts [OF assms(1-3)] by auto
  then have "CheckRoom seeded code (h1\<lparr>h_cache := Some rd3\<rparr>) = (Some (room_summary room), h1\<lparr>h_cache := Some rd3\<rparr>)"
    by (simp add: CheckRoom_def getRoom_def)
  then show ?thesis using cache get room
    by (simp add: CheckRoomCached_def check_uncached_def room_summary_def with_cache_def)
qed

theorem created_room_is_found_witness:
  "\<exists>h1 h2 info. CreateRoom zero_seeded demo_hub = (Inr (str ''AAAAA''), h1)
     \<and> CheckRoomCached zero_seeded (str ''AAAAA'') h1 = (Inr (Some info), h2) \<and> ri_PlayerCount info = 0"
proof -
  obtain h1 where c: "CreateRoom zero_seeded demo_hub = (Inr (str ''AAAAA''), h1)" using demo_hub_creates by blast
  have "h_cache demo_hub = Some demo_redis" "up demo_redis" "checks_sane demo_redis"
    by (simp_all add: demo_hub_def NewHub_def demo_redis_def up_def checks_sane_def)
  from created_room_is_found [OF demo_hub_ok zero_seeded_ok c this] c show ?thesis by blast
qed

end
