(* ===== verification/Hub_Restore.thy ===== *)
theory Hub_Restore
  imports Hub_Properties
begin

text \<open>
  What happens to the rooms when the server stops and starts again: closing writes every game, and the start-up reads
  them back, page by page.
\<close>

section \<open>Restoring the rooms at start-up\<close>

text \<open>The registry does not stop this instance from loading a room, and can be read.\<close>

definition mine :: "hub \<Rightarrow> gostring \<Rightarrow> bool" where
  "mine h code \<longleftrightarrow> (case h_cache h of
       None \<Rightarrow> True
     | Some rd \<Rightarrow> up rd \<and> (case map_of (kv rd) (roomInfoKey code) of
         None \<Rightarrow> True
       | Some (RString (JRegistry info)) \<Rightarrow> reg_Instance info = [] \<or> reg_Instance info = h_instanceID h
       | Some (RString JNull) \<Rightarrow> True
       | _ \<Rightarrow> False))"

lemma mine_frame: "h_cache h' = h_cache h \<Longrightarrow> h_instanceID h' = h_instanceID h \<Longrightarrow> mine h' = mine h"
  by (rule ext) (simp only: mine_def)

lemma registry_read: "up rd \<Longrightarrow> snd (GetRoomRegistry code rd) = rd\<lparr>rd_pos := Suc (rd_pos rd)\<rparr>"
  by (simp add: GetRoomRegistry_def exec_up r_get_def split: option.split redis_value.split)

definition readable :: "hub \<Rightarrow> bool" where
  "readable h \<longleftrightarrow> (case h_cache h of None \<Rightarrow> True | Some rd \<Rightarrow> up rd)"

lemma should_mine:
  assumes "readable h" "shouldLocalMaterializeRoom code h = (b, h')"
  shows "b = mine h code" "mine h' = mine h" "readable h'"
proof -
  have "b = mine h code \<and> mine h' = mine h \<and> readable h'"
  proof (cases "h_cache h")
    case (Some rd)
    then have u: "up rd" using assms(1) by (simp add: readable_def)
    have "fst (shouldLocalMaterializeRoom code h) = mine h code"
      using u Some by (simp add: mine_def shouldLocalMaterializeRoom_def GetRoomRegistry_def exec_up [OF u] r_get_def
          UnmarshalRoomRegistryInfo_def split: option.splits redis_value.splits json_value.splits)
    moreover have "snd (shouldLocalMaterializeRoom code h) = h\<lparr>h_cache := Some (rd\<lparr>rd_pos := Suc (rd_pos rd)\<rparr>)\<rparr>"
      using registry_read [OF u, of code] Some
      by (cases "GetRoomRegistry code rd") (auto simp: shouldLocalMaterializeRoom_def split: sum.split option.split)
    moreover have inst: "h_instanceID (h\<lparr>h_cache := x\<rparr>) = h_instanceID h" for x by simp
    have "mine (h\<lparr>h_cache := Some (rd\<lparr>rd_pos := Suc (rd_pos rd)\<rparr>)\<rparr>) c = mine h c" for c
      unfolding mine_def inst by (simp add: Some up_def)
    moreover have "up (rd\<lparr>rd_pos := Suc (rd_pos rd)\<rparr>)" using u by (simp add: up_def)
    ultimately show ?thesis using assms(2) by (auto simp: fun_eq_iff readable_def)
  qed (use assms in \<open>auto simp: shouldLocalMaterializeRoom_def mine_def readable_def\<close>)
  then show "b = mine h code" "mine h' = mine h" "readable h'" by simp_all
qed

text \<open>The rows that become rooms: the registry does not give them to another instance, and their state can be decoded.\<close>

definition restorable :: "hub \<Rightarrow> lobby_row \<Rightarrow> bool" where
  "restorable h row \<longleftrightarrow> mine h (l_Code row) \<and> l_State row \<noteq> BadJSON"

definition state_good :: "int \<Rightarrow> game_state \<Rightarrow> bool" where
  "state_good m s \<longleftrightarrow> players_ok (Players s) ((p_Nickname \<circ> snd) ` set (Players s)) \<and> int (length (Players s)) \<le> m \<and> world_ok s"

lemma room_state_good: "room_inv r \<Longrightarrow> maxPlayers r = m \<Longrightarrow> state_good m (state r)"
  using players_ok_names by (fastforce simp: state_good_def room_inv_def core_ok_def)

definition row_good :: "int \<Rightarrow> lobby_row \<Rightarrow> bool" where
  "row_good m row \<longleftrightarrow> (\<exists>s. l_State row = StateJSON s \<and> state_good m s)"

text \<open>The room that a row becomes.\<close>

definition restored_from :: "lobby_row \<Rightarrow> room \<Rightarrow> bool" where
  "restored_from row r \<longleftrightarrow> (\<exists>s now. l_State row = StateJSON s \<and> state r = disconnect_all now s)"

lemma restore_one_step:
  assumes "hub_ok h" "seeded_ok seeded" "readable h" "restorable h row" "row_good (h_maxPlayersPerRoom h) row" "map_of (h_rooms h) (l_Code row) = None"
    and "restore_one seeded row (tf, h) = (tf', h')"
  shows "hub_ok h' \<and> mine h' = mine h \<and> readable h' \<and> h_store h' = h_store h \<and> h_maxPlayersPerRoom h' = h_maxPlayersPerRoom h
    \<and> (\<exists>r. restored_from row r \<and> h_rooms h' = AList.update (l_Code row) r (h_rooms h))"
proof -
  obtain s where s: "l_State row = StateJSON s" "state_good (h_maxPlayersPerRoom h) s" using assms(5) by (auto simp: row_good_def)
  obtain b h1 where c: "shouldLocalMaterializeRoom (l_Code row) h = (b, h1)" by fastforce
  note m = should_mine [OF assms(3) c]
  have h1: "same_hub h h1" using same_hub_should [of h "l_Code row"] c by simp
  obtain r h2 where r: "materializeRoom seeded (l_Code row) s h1 = (r, h2)" by fastforce
  have ok1: "hub_ok h1" using same_hub_ok [OF h1] assms(1) by simp
  note f = materialize_frame [OF ok1 assms(2) r]
  have inv: "room_inv r" using materialize_inv [OF ok1 assms(2) r] s(2) h1 unfolding state_good_def same_hub_def by auto
  have c': "h_cache h2 = h_cache h1" "h_instanceID h2 = h_instanceID h1"
    using r by (auto simp: materializeRoom_def new_room_def hub_now_def hub_tick_def Let_def)
  have "mine (put_room c q h2) = mine h1" "readable (put_room c q h2) = readable h1" for c q
    by (intro mine_frame, simp_all add: put_room_def readable_def c')
  moreover have e: "h' = put_room (l_Code row) r h2"
    using assms(4,6,7) c m(1) s(1) r by (simp add: restorable_def restore_one_def deserializeAndMaterialize_def DeserializeState_def)
  moreover have "hub_ok (put_room (l_Code row) r h2)" using same_hub_ok [OF f(1)] ok1 inv f(5) by (simp add: hub_ok_put)
  moreover obtain now where "state r = disconnect_all now s" using f(2) by blast
  ultimately show ?thesis using m f(1) h1 s(1) by (auto simp: same_hub_def put_room_def restored_from_def)
qed

lemma restore_one_skip:
  assumes "readable h" "\<not> restorable h row" "map_of (h_rooms h) (l_Code row) = None" "restore_one seeded row (tf, h) = (tf', h')"
  shows "same_hub h h' \<and> mine h' = mine h \<and> readable h'"
proof -
  obtain b h1 where c: "shouldLocalMaterializeRoom (l_Code row) h = (b, h1)" by fastforce
  have "h' = h1" using should_mine(1) [OF assms(1) c] assms(2-4) c
    by (auto simp: restorable_def restore_one_def deserializeAndMaterialize_def DeserializeState_def split: if_splits)
  then show ?thesis using should_mine(2,3) [OF assms(1) c] same_hub_should [of h "l_Code row"] c by simp
qed

lemma restore_fold:
  "hub_ok h \<Longrightarrow> seeded_ok seeded \<Longrightarrow> readable h \<Longrightarrow>
    list_all (\<lambda>row. (restorable h row \<longrightarrow> row_good (h_maxPlayersPerRoom h) row) \<and> map_of (h_rooms h) (l_Code row) = None) rows \<Longrightarrow>
    distinct (map l_Code rows) \<Longrightarrow> fold (restore_one seeded) rows (tf, h) = (tf', h') \<Longrightarrow>
    hub_ok h' \<and> h_store h' = h_store h
    \<and> (\<forall>row \<in> set (filter (restorable h) rows). \<exists>r. map_of (h_rooms h') (l_Code row) = Some r \<and> restored_from row r)
    \<and> (\<forall>code. code \<notin> l_Code ` set (filter (restorable h) rows) \<longrightarrow> map_of (h_rooms h') code = map_of (h_rooms h) code)"
proof (induction rows arbitrary: tf h)
  case (Cons row rows)
  obtain tf1 h1 where o: "restore_one seeded row (tf, h) = (tf1, h1)" by fastforce
  have p: "map_of (h_rooms h) (l_Code row) = None" using Cons.prems(4) by simp
  have "hub_ok h1 \<and> mine h1 = mine h \<and> readable h1 \<and> h_store h1 = h_store h \<and> h_maxPlayersPerRoom h1 = h_maxPlayersPerRoom h
    \<and> (if restorable h row then \<exists>r. restored_from row r \<and> h_rooms h1 = AList.update (l_Code row) r (h_rooms h) else h_rooms h1 = h_rooms h)"
  proof (cases "restorable h row")
    case True
    then have "row_good (h_maxPlayersPerRoom h) row" using Cons.prems(4) by simp
    from restore_one_step [OF Cons.prems(1-3) True this p o] show ?thesis using True by simp
  next
    case False
    note k = restore_one_skip [OF Cons.prems(3) False p o]
    then have "hub_ok h1" using same_hub_ok Cons.prems(1) by blast
    then show ?thesis using k False by (simp add: same_hub_def)
  qed
  then have 1: "hub_ok h1" "mine h1 = mine h" "readable h1" "h_store h1 = h_store h" "h_maxPlayersPerRoom h1 = h_maxPlayersPerRoom h"
    "if restorable h row then \<exists>r. restored_from row r \<and> h_rooms h1 = AList.update (l_Code row) r (h_rooms h) else h_rooms h1 = h_rooms h"
    by simp_all
  have same: "restorable h1 = restorable h" using 1(2) by (simp add: restorable_def fun_eq_iff)
  have "list_all (\<lambda>x. (restorable h1 x \<longrightarrow> row_good (h_maxPlayersPerRoom h1) x) \<and> map_of (h_rooms h1) (l_Code x) = None) rows"
    using Cons.prems(4,5) 1(5,6) same by (auto simp: list_all_iff split: if_splits intro: rev_image_eqI)
  from Cons.IH [OF 1(1) Cons.prems(2) 1(3) this _ _] Cons.prems(5,6) o same
  have "hub_ok h' \<and> h_store h' = h_store h1
    \<and> (\<forall>x \<in> set (filter (restorable h) rows). \<exists>r. map_of (h_rooms h') (l_Code x) = Some r \<and> restored_from x r)
    \<and> (\<forall>code. code \<notin> l_Code ` set (filter (restorable h) rows) \<longrightarrow> map_of (h_rooms h') code = map_of (h_rooms h1) code)" by simp
  moreover have "l_Code row \<notin> l_Code ` set (filter (restorable h) rows)" using Cons.prems(5) by auto
  ultimately show ?case using 1(4,6) by (auto split: if_splits)
qed simp

lemma fold_finalize_same: "same_hub h (fold finalizeMaterializedRoom codes h)"
  by (induction codes arbitrary: h) (auto intro: same_hub_trans [OF same_hub_cache(4)])

lemma load_first_page:
  assumes "collated clt" "h_store h = Some d" "db_attempts d = (\<lambda>_. Runs)" "rows_ok (lobby_states (db d))"
  shows "\<exists>d' res. load_lobbies clt restorePageSize [] h = (Inr res, h\<lparr>h_store := Some d'\<rparr>) \<and> db d' = db d \<and> db_attempts d' = (\<lambda>_. Runs)
    \<and> Lobbies res = take 100 (sort_desc clt (lobby_states (db d)))"
proof -
  have L: "clamp_limit restorePageSize = 100" by (simp add: clamp_limit_def restorePageSize_def)
  obtain d' where "LoadAllActiveLobbies clt restorePageSize [] d =
      (Inr (buildLobbyListResult (take 101 (sort_desc clt (lobby_states (db d)))) (reltuples (db d)) 100), d')" "db d' = db d"
      "db_attempts d' = (\<lambda>_. Runs)"
    using load_page [OF assms(1,3,4) le0, of restorePageSize] unfolding L page_cursor_def by auto
  moreover have "Lobbies (buildLobbyListResult (take 101 xs) n 100) = take 100 xs" for xs n
    by (simp add: buildLobbyListResult_def Let_def)
  ultimately show ?thesis using assms(2) by (auto simp: load_lobbies_def)
qed

text \<open>C8: At start-up with fewer than 100 persisted lobbies, a database that works and a registry that can be read (or none): exactly the
  lobbies that the registry does not give to another instance and whose state can be decoded are in memory again, each with its
  game and its players, all marked as disconnected. The states that can be decoded are assumed to be well formed, as every state
  that a room saves is (\<open>room_state_good\<close>), and the memory to be empty before.\<close>

theorem restart_restores_rooms:
  assumes "hub_ok h" "seeded_ok seeded" "h_rooms h = []" "collated clt" "h_store h = Some d" "db_attempts d = (\<lambda>_. Runs)"
    and "rows_ok (lobby_states (db d))" "length (lobby_states (db d)) < 100" "readable h"
    and "list_all (\<lambda>row. row_good (h_maxPlayersPerRoom h) row) (filter (restorable h) (lobby_states (db d)))"
  shows "\<exists>h'. RestoreRooms (Suc n) clt seeded h = Some (Inr (), h') \<and> hub_ok h'
    \<and> list_all (\<lambda>row. \<exists>r. map_of (h_rooms h') (l_Code row) = Some r \<and> restored_from row r) (filter (restorable h) (lobby_states (db d)))
    \<and> set (keys (h_rooms h')) = l_Code ` set (filter (restorable h) (lobby_states (db d)))"
proof -
  define ss where "ss = sort_desc clt (lobby_states (db d))"
  have m: "mset ss = mset (lobby_states (db d))" unfolding ss_def by (rule collated.mset_sort_desc [OF assms(4)])
  have ss: "set ss = set (lobby_states (db d))" "length ss = length (lobby_states (db d))" "distinct (map l_Code ss)"
  proof -
    show "set ss = set (lobby_states (db d))" "length ss = length (lobby_states (db d))"
      using m by (metis set_mset_mset, metis size_mset)
    have "mset (map l_Code ss) = mset (map l_Code (lobby_states (db d)))" using m by simp
    then show "distinct (map l_Code ss)" using assms(7) mset_eq_imp_distinct_iff unfolding rows_ok_def by blast
  qed
  obtain d' res where p: "load_lobbies clt restorePageSize [] h = (Inr res, h\<lparr>h_store := Some d'\<rparr>)" "Lobbies res = ss"
    using load_first_page [OF assms(4,5,6,7)] ss(2) assms(8) by (auto simp: ss_def)
  define h0 where "h0 = h\<lparr>h_store := Some d'\<rparr>"
  have h0: "hub_ok h0" "readable h0" "restorable h0 = restorable h" "h_rooms h0 = []" "h_maxPlayersPerRoom h0 = h_maxPlayersPerRoom h"
    using assms(1,3,9) mine_frame [of h0 h] by (simp_all add: h0_def hub_ok_def readable_def restorable_def fun_eq_iff)
  obtain tf h1 where fo: "fold (restore_one seeded) ss ([], h0) = (tf, h1)" by fastforce
  have "list_all (\<lambda>row. (restorable h0 row \<longrightarrow> row_good (h_maxPlayersPerRoom h0) row) \<and> map_of (h_rooms h0) (l_Code row) = None) ss"
    using assms(10) ss(1) h0 by (simp add: list_all_iff)
  note f = restore_fold [OF h0(1) assms(2) h0(2) this ss(3) fo]
  define h2 where "h2 = fold finalizeMaterializedRoom tf h1"
  have h2: "same_hub h1 h2" by (simp add: h2_def fold_finalize_same)
  have rp: "restore_page seeded ss h0 = h2" by (simp add: restore_page_def fo h2_def)
  have "RestoreRooms (Suc n) clt seeded h = Some (Inr (), if ss = [] then h0 else h2)"
    using p ss(2) assms(5,8) rp by (simp add: RestoreRooms_def restorePageSize_def h0_def)
  moreover have "ss = [] \<Longrightarrow> h2 = h0" using fo by (simp add: h2_def)
  ultimately have e: "RestoreRooms (Suc n) clt seeded h = Some (Inr (), h2)" by auto
  have "map_of (h_rooms h2) code \<noteq> None \<longleftrightarrow> code \<in> l_Code ` set (filter (restorable h) ss)" for code
    using f h2 h0(3,4) by (auto simp: same_hub_def)
  then have "set (keys (h_rooms h2)) = l_Code ` set (filter (restorable h) ss)" by (metis map_of_eq_None_iff set_eqI set_map)
  then show ?thesis using e f h2 h0(3) same_hub_ok [OF h2] ss(1) by (simp add: same_hub_def list_all_iff)
qed

definition saved_row :: lobby_row where
  "saved_row = \<lparr>l_ID = [1], l_Code = str ''ABCDE'', l_State = StateJSON (state (with_player demo_player)), l_UpdatedAt = 5, l_CreatedAt = 5\<rparr>"

definition damaged_row :: lobby_row where
  "damaged_row = saved_row\<lparr>l_ID := [2], l_Code := [2], l_State := BadJSON\<rparr>"

definition foreign_row :: lobby_row where
  "foreign_row = saved_row\<lparr>l_ID := [3], l_Code := [3]\<rparr>"

definition foreign_redis :: redis where
  "foreign_redis = demo_redis\<lparr>kv := [(roomInfoKey [3], RString (JRegistry \<lparr>reg_Code = [3], reg_Instance = [9], reg_Address = [], reg_CreatedAt = 0\<rparr>))]\<rparr>"

theorem restart_restores_rooms_witness:
  "\<exists>h'. RestoreRooms 1 ord_class.lexordp zero_seeded
       (demo_hub\<lparr>h_store := Some (demo_db\<lparr>db := (db demo_db)\<lparr>lobby_states := [saved_row, damaged_row, foreign_row]\<rparr>\<rparr>), h_cache := Some foreign_redis\<rparr>)
     = Some (Inr (), h') \<and> set (keys (h_rooms h')) = {str ''ABCDE''}"
proof -
  let ?rows = "[saved_row, damaged_row, foreign_row]"
  let ?d = "demo_db\<lparr>db := (db demo_db)\<lparr>lobby_states := ?rows\<rparr>\<rparr>"
  let ?h = "demo_hub\<lparr>h_store := Some ?d, h_cache := Some foreign_redis\<rparr>"
  have "state_good 50 (state (with_player demo_player))"
    by (rule room_state_good [OF with_player_inv [OF demo_player_ok]]) (simp add: with_player_frame)
  then have "row_good 50 saved_row" by (simp add: row_good_def saved_row_def)
  moreover have r: "readable ?h" by (simp add: readable_def foreign_redis_def demo_redis_def up_def)
  moreover have "mine ?h (str ''ABCDE'')" "\<not> mine ?h [3]"
    by (simp_all add: mine_def foreign_redis_def demo_redis_def up_def roomInfoKey_def demo_hub_def NewHub_def str_def)
  then have "filter (restorable ?h) ?rows = [saved_row]"
    by (simp add: restorable_def damaged_row_def foreign_row_def) (simp add: saved_row_def)
  moreover have "h_maxPlayersPerRoom ?h = 50" by (simp add: demo_hub_def NewHub_def MaxPlayersPerRoom_def)
  moreover have "hub_ok ?h" using demo_hub_ok by (simp add: hub_ok_def)
  moreover have "rows_ok ?rows" by (simp add: rows_ok_def damaged_row_def foreign_row_def saved_row_def str_def)
  ultimately show ?thesis
    using restart_restores_rooms [of ?h zero_seeded "ord_class.lexordp" ?d 0] zero_seeded_ok c_collation.collated_axioms
    by (auto simp: demo_hub_def NewHub_def demo_db_def saved_row_def simp del: restore_loop.simps)
qed

lemma keys_update: "fst ` set (AList.update k v al) = insert k (fst ` set al)"
  by (induction al) auto

lemma restore_one_bound:
  "h_store (snd (restore_one seeded row (tf, h))) = h_store h
    \<and> set (keys (h_rooms (snd (restore_one seeded row (tf, h))))) \<subseteq> insert (l_Code row) (set (keys (h_rooms h)))"
proof (cases "map_of (h_rooms h) (l_Code row)")
  case None
  define h1 where "h1 = snd (shouldLocalMaterializeRoom (l_Code row) h)"
  have h1: "h_store h1 = h_store h" "h_rooms h1 = h_rooms h"
    using same_hub_should [of h "l_Code row"] by (simp_all add: h1_def same_hub_def)
  obtain res h2 where d: "deserializeAndMaterialize seeded (l_Code row) (l_State row) h1 = (res, h2)" by fastforce
  then have h2: "h_store h2 = h_store h" "h_rooms h2 = h_rooms h"
    using h1 by (auto simp: deserializeAndMaterialize_def materializeRoom_def new_room_def hub_now_def hub_tick_def Let_def split: option.splits)
  show ?thesis using None h1 h2 d
    by (cases res) (simp_all add: restore_one_def split_def Let_def h1_def [symmetric] put_room_def keys_update, auto)
qed (auto simp: restore_one_def)

lemma restore_fold_bound:
  "h_store (snd (fold (restore_one seeded) rows x)) = h_store (snd x)
    \<and> set (keys (h_rooms (snd (fold (restore_one seeded) rows x)))) \<subseteq> l_Code ` set rows \<union> set (keys (h_rooms (snd x)))"
proof (induction rows arbitrary: x)
  case (Cons row rows)
  obtain tf h where x: "x = (tf, h)" by fastforce
  note a = restore_one_bound [of seeded row tf h] and b = Cons.IH [of "restore_one seeded row (tf, h)"]
  have "set (keys (h_rooms (snd (fold (restore_one seeded) (row # rows) x)))) \<subseteq> l_Code ` set rows \<union> insert (l_Code row) (set (keys (h_rooms h)))"
    using a b unfolding x fold_simps by blast
  then show ?case using a b by (auto simp: x)
qed simp

text \<open>C23: With 100 or more persisted lobbies the start-up reports a malformed cursor and loads at most the hundred rooms of
  the first page: the cursor for the second page is the code of the last lobby, not the \<^verbatim>\<open>updated_at|code\<close> that the repository
  expects.\<close>

theorem restore_stops_after_first_page:
  assumes "collated clt" "h_store h = Some d" "db_attempts d = (\<lambda>_. Runs)" "rows_ok (lobby_states (db d))"
    and "100 \<le> length (lobby_states (db d))" "list_all (\<lambda>row. bar \<notin> set (l_Code row)) (lobby_states (db d))"
  shows "\<exists>h'. RestoreRooms (Suc (Suc n)) clt seeded h = Some (Inl (ErrDB MalformedCursor), h')
    \<and> set (keys (h_rooms h')) \<subseteq> set (keys (h_rooms h)) \<union> l_Code ` set (take 100 (sort_desc clt (lobby_states (db d))))"
proof -
  define ss where "ss = sort_desc clt (lobby_states (db d))"
  have ss: "set ss = set (lobby_states (db d))" "100 \<le> length ss"
    using collated.mset_sort_desc [OF assms(1), of "lobby_states (db d)"] assms(5) unfolding ss_def by (metis set_mset_mset, metis size_mset)
  obtain d' res where p: "load_lobbies clt restorePageSize [] h = (Inr res, h\<lparr>h_store := Some d'\<rparr>)" "Lobbies res = take 100 ss"
    using load_first_page [OF assms(1-4)] by (auto simp: ss_def)
  let ?last = "last (take 100 ss)"
  have ne: "take 100 ss \<noteq> []" using ss(2) by auto
  have "?last \<in> set (lobby_states (db d))" using last_in_set [OF ne] in_set_takeD ss(1) by fastforce
  then have bad: "parseLobbyCursor (l_Code ?last) = Inl MalformedCursor"
    using assms(4,6) by (auto simp: parseLobbyCursor_def rows_ok_def list_all_iff)
  define h1 where "h1 = restore_page seeded (take 100 ss) (h\<lparr>h_store := Some d'\<rparr>)"
  define fo where "fo = fold (restore_one seeded) (take 100 ss) ([], h\<lparr>h_store := Some d'\<rparr>)"
  have h1: "same_hub (snd fo) h1" using fold_finalize_same by (simp add: h1_def restore_page_def fo_def split_def Let_def)
  have st: "h_store h1 = Some d'" "set (keys (h_rooms h1)) \<subseteq> l_Code ` set (take 100 ss) \<union> set (keys (h_rooms h))"
    using restore_fold_bound [of seeded "take 100 ss" "([], h\<lparr>h_store := Some d'\<rparr>)"] h1 by (simp_all add: fo_def same_hub_def)
  have second: "load_lobbies clt restorePageSize (l_Code ?last) h1 = (Inl (ErrDB MalformedCursor), h1)"
    using st(1) bad by (simp add: load_lobbies_def LoadAllActiveLobbies_def)
  have "RestoreRooms (Suc (Suc n)) clt seeded h = Some (Inl (ErrDB MalformedCursor), h1)"
    using p ne ss(2) second assms(2) by (simp add: RestoreRooms_def h1_def [symmetric] restorePageSize_def [symmetric])
  then show ?thesis using st(2) by (auto simp: ss_def)
qed

definition hundred_rows :: "lobby_row list" where
  "hundred_rows = map (\<lambda>i. saved_row\<lparr>l_ID := [of_nat i], l_Code := [of_nat i]\<rparr>) [0..<100]"

lemma hundred_rows_ok: "rows_ok hundred_rows" "list_all (\<lambda>row. bar \<notin> set (l_Code row)) hundred_rows" "length hundred_rows = 100"
proof -
  have inj: "inj_on (\<lambda>i. [of_nat i :: byte]) (set [0..<100])"
  proof (rule inj_onI)
    fix x y assume "x \<in> set [0..<100]" "y \<in> set [0..<100]" "[of_nat x :: byte] = [of_nat y]"
    then have e: "(of_nat x :: byte) = of_nat y" and "x < 256" "y < 256" by (simp_all only: list.inject) auto
    then show "x = y" using unat_of_nat_byte by metis
  qed
  have "map l_Code hundred_rows = map (\<lambda>i. [of_nat i]) [0..<100]" by (simp add: hundred_rows_def)
  then have "distinct (map l_Code hundred_rows)" using inj by (simp add: distinct_map)
  then show "rows_ok hundred_rows" by (auto simp: rows_ok_def list_all_iff hundred_rows_def saved_row_def)
  have "bar \<noteq> of_nat i" if "i < 100" for i
    using that unat_of_nat_byte [of i] arg_cong [of "of_nat i" bar unat] by (fastforce simp: bar_def)
  then show "list_all (\<lambda>row. bar \<notin> set (l_Code row)) hundred_rows" by (auto simp: list_all_iff hundred_rows_def)
  show "length hundred_rows = 100" by (simp add: hundred_rows_def)
qed

theorem restore_stops_after_first_page_witness:
  "\<exists>h'. RestoreRooms 2 ord_class.lexordp zero_seeded (demo_hub\<lparr>h_store := Some (demo_db\<lparr>db := (db demo_db)\<lparr>lobby_states := hundred_rows\<rparr>\<rparr>)\<rparr>)
     = Some (Inl (ErrDB MalformedCursor), h')"
proof -
  let ?d = "demo_db\<lparr>db := (db demo_db)\<lparr>lobby_states := hundred_rows\<rparr>\<rparr>"
  have a: "db_attempts ?d = (\<lambda>_. Runs)" by (simp add: demo_db_def)
  show ?thesis
    using restore_stops_after_first_page [OF c_collation.collated_axioms _ a, of "demo_hub\<lparr>h_store := Some ?d\<rparr>" 0 zero_seeded] hundred_rows_ok
    by (auto simp: numeral_2_eq_2 simp del: restore_loop.simps)
qed

end
