(* ===== verification/Room_Liveness.thy ===== *)
theory Room_Liveness
  imports Room_Machine
begin

text \<open>
  Progress of the physics: without taps the balloon falls, faster with every tick, so a round ends. The bound on the
  number of ticks is a bound on the height in exact fractions, carried through the rounding of every addition.
\<close>

section \<open>A round nobody plays\<close>

lemma add_upper: "fin64 x \<Longrightarrow> fin64 y \<Longrightarrow> fin64 (x + y) \<Longrightarrow> isfloat b \<Longrightarrow> val x + val y \<le> b \<Longrightarrow> val (x + y) \<le> b"
  using fadd_finite [of x y] rnd64_upper [of b "val x + val y"] by (auto simp: fin64_def)

lemma sub_upper: "fin64 x \<Longrightarrow> fin64 y \<Longrightarrow> fin64 (x - y) \<Longrightarrow> isfloat b \<Longrightarrow> val x - val y \<le> b \<Longrightarrow> val (x - y) \<le> b"
  using fsub_finite [of x y] rnd64_upper [of b "val x - val y"] by (auto simp: fin64_def)

text \<open>After \<open>k\<close> ticks without a tap the balloon falls at least this fast, and is at least this low.\<close>

definition fallen :: "nat \<Rightarrow> balloon \<Rightarrow> bool" where
  "fallen k b \<longleftrightarrow> val (b_VY b) \<le> - of_int (int k) / 2 ^ 11 \<and> val (b_Y b) \<le> 1 - of_int (int (k * (k + 1))) / 2 ^ 12"

lemma Gravity_lower: "1 / 2 ^ 11 \<le> val Gravity"
  by code_simp

lemma ApplyPhysics_falls:
  assumes b: "balloon_ok b" "airborne b" and k: "k < 64" "fallen k b" and f: "ApplyPhysics b = (b', False)"
  shows "fallen (Suc k) b'"
proof -
  define vy where "vy = b_VY b - Gravity"
  define y where "y = b_Y b + vy"
  have fin: "fin64 (b_VY b)" "btw 0 1 (b_Y b)" using b by (auto simp: balloon_ok_def airborne_def btw_def)
  have vy: "fin64 vy" using fin_sub [OF fin(1) const_btw(1)] by (simp add: vy_def)
  have y: "fin64 y" using fin_add [OF vy fin(2)] fadd_commute [of "b_Y b" vy] vy fin(2) by (simp add: y_def btw_def)
  have fl: "isfloat (- of_int (int (Suc k)) / 2 ^ 11)"
    using isfloat_dyadic [of "- int (Suc k)" 11] k(1) by simp
  have "val (b_VY b) - val Gravity \<le> - of_int (int (Suc k)) / 2 ^ 11"
    using k(2) Gravity_lower by (simp add: fallen_def field_simps)
  from sub_upper [OF fin(1) const_fin(1) vy [unfolded vy_def] fl this] have vy': "val vy \<le> - of_int (int (Suc k)) / 2 ^ 11"
    by (simp add: vy_def)
  define h where "h = 1 - of_int (int (Suc k * (Suc k + 1))) / (2 ^ 12 :: rat)"
  have kk: "Suc k * (Suc k + 1) \<le> 64 * 65" using k(1) by (intro mult_le_mono) auto
  define m where "m = 2 ^ 12 - int (Suc k * (Suc k + 1))"
  have "\<bar>2 ^ 12 - j\<bar> \<le> 2 ^ 53" if "0 \<le> j" "j \<le> 4160" for j :: int using that by auto
  from this [of "int (Suc k * (Suc k + 1))"] have "\<bar>m\<bar> \<le> 2 ^ 53" using kk unfolding m_def by linarith
  from isfloat_dyadic [OF this, of 12] have "isfloat (of_int m / 2 ^ 12)" by simp
  moreover have "h = of_int m / 2 ^ 12" by (simp add: h_def m_def field_simps)
  ultimately have fh: "isfloat h" by metis
  have "val (b_Y b) + val vy \<le> h"
  proof -
    have "1 - of_int (int (k * (k + 1))) / 2 ^ 12 + - of_int (int (Suc k)) / 2 ^ 11 = h" by (simp add: h_def field_simps)
    then show ?thesis using k(2) vy' unfolding fallen_def by linarith
  qed
  from add_upper [OF btw_fin [OF fin(2)] vy y [unfolded y_def] fh this] have y': "val y \<le> h" by (simp add: y_def)
  have "(0 :: rat) < of_int (int (Suc k * (Suc k + 1)))" by (simp only: of_int_0_less_iff of_nat_0_less_iff) simp
  then have "h < 1" unfolding h_def by (simp del: of_nat_mult of_nat_Suc of_int_of_nat_eq)
  then have "\<not> flit 1 \<le> y" using y' fle_fin [OF const_fin(17) y] by simp
  then have "b_Y b' = y \<and> b_VY b' = vy"
    using f unfolding ApplyPhysics_eq vy_def [symmetric] y_def [symmetric] Let_def by (auto split: if_splits prod.splits)
  then show ?thesis using vy' y' by (simp add: fallen_def h_def)
qed

fun untapped :: "nat \<Rightarrow> mathlib \<Rightarrow> game_state \<Rightarrow> rng \<Rightarrow> byte option" where
  "untapped 0 ml s g = None"
| "untapped (Suc n) ml s g = (case tick_physics ml s g of
      (s, g, Some reason) \<Rightarrow> Some reason
    | (s, g, None) \<Rightarrow> untapped n ml s g)"

lemma UpdateWind_vertical:
  "b_Y (Balloon (fst (UpdateWind s g))) = b_Y (Balloon s)" "b_VY (Balloon (fst (UpdateWind s g))) = b_VY (Balloon s)"
  by (simp_all add: UpdateWind_def Let_def split_def)

lemma no_ghost_hit: "\<not> snd (CheckGhostCollision ml s) \<Longrightarrow> fst (CheckGhostCollision ml s) = s"
  by (auto simp: CheckGhostCollision_def Let_def split: if_splits)

lemma tick_vertical:
  assumes t: "tick_physics ml s g = (s', g', None)"
  obtains b where "ApplyPhysics (Balloon s) = (b, False)" "b_Y (Balloon s') = b_Y b" "b_VY (Balloon s') = b_VY b"
proof -
  obtain b ov where b: "ApplyPhysics (Balloon s) = (b, ov)" by fastforce
  define s1 where "s1 = s\<lparr>TickCount := TickCount s + 1, Balloon := b\<rparr>"
  define w where "w = UpdateWind s1 g"
  define d where "d = UpdateBirdAI (Bird (fst w)) (Balloon (fst w)) (TickCount (fst w)) (snd w)"
  define h where "h = updateGhost ml (Balloon (fst w)) (TickCount (fst w)) (Ghost (fst w)) (snd d)"
  define s4 where "s4 = (fst w)\<lparr>Bird := fst d, Ghost := fst h\<rparr>"
  define c where "c = CheckGhostCollision ml s4"
  have "(s', g', None) = (if ov then (s1, g, Some EndReasonGround)
     else if snd c then (fst c, snd h, Some EndReasonGhost)
     else if CheckBirdCollision (Bird (fst c)) (Balloon (fst c)) then (fst c, snd h, Some EndReasonBird) else (fst c, snd h, None))"
    using t [symmetric] b
    by (simp add: tick_physics_def Let_def UpdateGhostAI_def split_def s1_def w_def d_def h_def s4_def c_def)
  then have "\<not> ov" "\<not> snd c" "s' = fst c" by (auto split: if_splits)
  moreover have "fst c = s4" using no_ghost_hit \<open>\<not> snd c\<close> unfolding c_def by blast
  moreover have "b_Y (Balloon s4) = b_Y b" "b_VY (Balloon s4) = b_VY b"
    using UpdateWind_vertical [of s1 g] by (simp_all add: s4_def w_def s1_def)
  ultimately show ?thesis using that b by simp
qed

lemma untapped_ends:
  assumes "mathlib_ok ml"
  shows "world_ok s \<Longrightarrow> Phase s = PhasePlaying \<Longrightarrow> rng_ok g \<Longrightarrow> fallen k (Balloon s) \<Longrightarrow> k \<le> 64 \<Longrightarrow> untapped (64 - k) ml s g \<noteq> None"
proof (induction "64 - k" arbitrary: k s g)
  case 0
  then have "k = 64" by simp
  then have "\<not> airborne (Balloon s)" using 0 by (simp add: fallen_def airborne_def)
  then show ?case using 0 by (simp add: world_ok_def phys_ok_def)
next
  case (Suc n)
  obtain s' g' ov where t: "tick_physics ml s g = (s', g', ov)" by (metis prod_cases3)
  note ok = tick_physics_ok [OF Suc.prems(1,2) assms Suc.prems(3) t]
  have n: "64 - k = Suc (64 - Suc k)" "k < 64" using Suc(2) by auto
  show ?case
  proof (cases ov)
    case None
    from tick_vertical [OF t [unfolded None]] obtain b where b: "ApplyPhysics (Balloon s) = (b, False)"
      "b_Y (Balloon s') = b_Y b" "b_VY (Balloon s') = b_VY b" .
    have "balloon_ok (Balloon s)" "airborne (Balloon s)" using Suc.prems(1,2) by (simp_all add: world_ok_def phys_ok_def)
    from ApplyPhysics_falls [OF this n(2) Suc.prems(4) b(1)] have "fallen (Suc k) (Balloon s')" using b by (simp add: fallen_def)
    then have "untapped (64 - Suc k) ml s' g' \<noteq> None"
      using Suc.hyps(1) [of "Suc k" s' g'] Suc.hyps(2) ok None n(2) by simp
    then show ?thesis using t None by (simp add: n(1))
  next
    case (Some x)
    then show ?thesis using t by (simp add: n(1))
  qed
qed

text \<open>C16: A round in which nobody taps ends: from any state of play in which the balloon is not rising, the ground, the
  bird or the ghost has ended the round after at most 64 ticks, whatever the wind and the random source do.\<close>

theorem untapped_round_ends:
  assumes "mathlib_ok ml" "world_ok s" "Phase s = PhasePlaying" "rng_ok g" "val (b_VY (Balloon s)) \<le> 0"
  shows "untapped 64 ml s g \<noteq> None"
proof -
  have "val (b_Y (Balloon s)) \<le> 1" using assms(2) by (simp add: world_ok_def phys_ok_def balloon_ok_def)
  then show ?thesis using untapped_ends [OF assms(1-4), of 0] assms(5) by (simp add: fallen_def)
qed

theorem untapped_round_ends_witness:
  "untapped 64 zero_math ((fst (NewGameState 0 [] 0 zero_rng))\<lparr>Phase := PhasePlaying\<rparr>) zero_rng \<noteq> None"
proof (rule untapped_round_ends [OF zero_math_ok _ _ zero_rng_ok])
  show "world_ok ((fst (NewGameState 0 [] 0 zero_rng))\<lparr>Phase := PhasePlaying\<rparr>)"
    using NewGameState_ok(1) [OF zero_rng_ok, of 0 "[]" 0] NewGameState_frame [of 0 "[]" 0 zero_rng] createInitial_ok
    by (simp add: world_ok_def phys_ok_def wind_ok_def)
  show "val (b_VY (Balloon ((fst (NewGameState 0 [] 0 zero_rng))\<lparr>Phase := PhasePlaying\<rparr>))) \<le> 0"
    by (simp add: NewGameState_frame createInitialBalloon_def)
qed simp

end
