(* ===== verification/Token_Store.thy ===== *)
theory Token_Store
  imports Redis_Cache
begin

text \<open>
  The stores of authentication in Redis (\<^verbatim>\<open>store/redis_stores.go\<close>): revoked tokens, login locks, admin sessions, magic
  links, rate limits, and the addresses of a user.

  \<^item> The key space maps a key to a value and the time at which it expires, in milliseconds. A command runs at the time
    that the clock of the server shows, \<open>tk_clock\<close>, and sees the keys that have not expired (\<open>alive\<close>). A counter is
    kept as a number; no key is used both as a counter and as a string.
  \<^item> As in \<open>Redis_Cache\<close>, \<open>attempt\<close> says whether a command runs and whether its answer arrives. The commands of a
    pipeline run one after the other (\<open>pipe\<close>), a script or a transaction runs as one command (\<open>multi\<close>).
\<close>

section \<open>Commands\<close>

datatype tvalue = TStr gostring | TNum int | TSet "gostring list"

type_synonym tspace = "gostring \<rightharpoonup> tvalue \<times> int option"
type_synonym 'a tcmd = "int \<Rightarrow> tspace \<Rightarrow> (redis_error + 'a) \<times> tspace"

record token_redis =
  tk_kv :: tspace
  tk_clock :: "nat \<Rightarrow> int"
  tk_attempts :: "nat \<Rightarrow> attempt"
  tk_pos :: nat

definition alive :: "int \<Rightarrow> tspace \<Rightarrow> tspace" where
  "alive now s = (\<lambda>k. case s k of
       None \<Rightarrow> None
     | Some (v, None) \<Rightarrow> Some (v, None)
     | Some (v, Some t) \<Rightarrow> if now < t then Some (v, Some t) else None)"

definition tk_now :: "token_redis \<Rightarrow> int" where
  "tk_now rd = tk_clock rd (tk_pos rd)"

definition tk_exec :: "'a tcmd \<Rightarrow> token_redis \<Rightarrow> (redis_error + 'a) \<times> token_redis" where
  "tk_exec f rd =
     (let s = alive (tk_now rd) (tk_kv rd); (res, s') = f (tk_now rd) s; rd' = rd\<lparr>tk_pos := Suc (tk_pos rd)\<rparr>
      in case tk_attempts rd (tk_pos rd) of
           Runs \<Rightarrow> (res, rd'\<lparr>tk_kv := s'\<rparr>)
         | Fails _ \<Rightarrow> (Inl RedisDown, rd')
         | Lost _ \<Rightarrow> (Inl RedisDown, rd'\<lparr>tk_kv := s'\<rparr>))"

definition expires :: "int \<Rightarrow> int \<Rightarrow> int option" where
  "expires now ttl = (if ttl > 0 then Some (now + ttl) else None)"

definition t_get :: "gostring \<Rightarrow> gostring option tcmd" where
  "t_get k now s = (case s k of
       None \<Rightarrow> (Inr None, s)
     | Some (TStr v, _) \<Rightarrow> (Inr (Some v), s)
     | Some (TNum n, _) \<Rightarrow> (Inr (Some (Sprint_int n)), s)
     | Some (TSet _, _) \<Rightarrow> (Inl WrongType, s))"

definition t_set :: "gostring \<Rightarrow> gostring \<Rightarrow> int \<Rightarrow> unit tcmd" where
  "t_set k v ttl now s = (Inr (), s(k \<mapsto> (TStr v, expires now ttl)))"

definition t_incr :: "gostring \<Rightarrow> int tcmd" where
  "t_incr k now s = (case s k of
       None \<Rightarrow> (Inr 1, s(k \<mapsto> (TNum 1, None)))
     | Some (TNum n, e) \<Rightarrow> if n + 1 \<ge> 2 ^ 63 then (Inl BadData, s) else (Inr (n + 1), s(k \<mapsto> (TNum (n + 1), e)))
     | Some (TStr _, _) \<Rightarrow> (Inl BadData, s)
     | Some (TSet _, _) \<Rightarrow> (Inl WrongType, s))"

definition t_expire :: "gostring \<Rightarrow> int \<Rightarrow> unit tcmd" where
  "t_expire k ttl now s = (case s k of
       None \<Rightarrow> (Inr (), s)
     | Some (v, _) \<Rightarrow> (Inr (), if ttl > 0 then s(k \<mapsto> (v, Some (now + ttl))) else s(k := None)))"

definition t_exists :: "gostring \<Rightarrow> bool tcmd" where
  "t_exists k now s = (Inr (s k \<noteq> None), s)"

definition t_del :: "gostring list \<Rightarrow> unit tcmd" where
  "t_del ks now s = (Inr (), \<lambda>k. if k \<in> set ks then None else s k)"

definition t_sadd :: "gostring \<Rightarrow> gostring \<Rightarrow> unit tcmd" where
  "t_sadd k m now s = (case s k of
       None \<Rightarrow> (Inr (), s(k \<mapsto> (TSet [m], None)))
     | Some (TSet ms, e) \<Rightarrow> (Inr (), s(k \<mapsto> (TSet (List.insert m ms), e)))
     | Some _ \<Rightarrow> (Inl WrongType, s))"

definition t_srem :: "gostring \<Rightarrow> gostring \<Rightarrow> unit tcmd" where
  "t_srem k m now s = (case s k of
       None \<Rightarrow> (Inr (), s)
     | Some (TSet ms, e) \<Rightarrow> (Inr (), if removeAll m ms = [] then s(k := None) else s(k \<mapsto> (TSet (removeAll m ms), e)))
     | Some _ \<Rightarrow> (Inl WrongType, s))"

definition t_smembers :: "gostring \<Rightarrow> gostring list tcmd" where
  "t_smembers k now s = (case s k of
       None \<Rightarrow> (Inr [], s) | Some (TSet ms, _) \<Rightarrow> (Inr ms, s) | Some _ \<Rightarrow> (Inl WrongType, s))"

definition t_bind :: "'a tcmd \<Rightarrow> ('a \<Rightarrow> 'b tcmd) \<Rightarrow> 'b tcmd" where
  "t_bind f g now s = (case f now s of (Inl e, s) \<Rightarrow> (Inl e, s) | (Inr a, s) \<Rightarrow> g a now s)"

definition t_return :: "'a \<Rightarrow> 'a tcmd" where
  "t_return a now s = (Inr a, s)"

text \<open>All commands of a pipeline are sent; the first error is reported.\<close>

fun pipe :: "unit tcmd list \<Rightarrow> token_redis \<Rightarrow> (redis_error + unit) \<times> token_redis" where
  "pipe [] rd = (Inr (), rd)"
| "pipe (f # fs) rd = (let (r, rd) = tk_exec f rd; (r', rd) = pipe fs rd in (case r of Inl e \<Rightarrow> Inl e | Inr _ \<Rightarrow> r', rd))"

fun multi :: "unit tcmd list \<Rightarrow> unit tcmd" where
  "multi [] now s = (Inr (), s)"
| "multi (f # fs) now s = (let (r, s) = f now s; (r', s) = multi fs now s in (case r of Inl e \<Rightarrow> Inl e | Inr _ \<Rightarrow> r', s))"

section \<open>Sessions\<close>

definition adminFailKeyPrefix :: gostring where "adminFailKeyPrefix = str ''admin:login:fail:''"
definition adminLockKeyPrefix :: gostring where "adminLockKeyPrefix = str ''admin:login:lock:''"
definition adminAcctFailPrefix :: gostring where "adminAcctFailPrefix = str ''admin:login:acct_fail:''"
definition adminAcctLockPrefix :: gostring where "adminAcctLockPrefix = str ''admin:login:acct_lock:''"
definition adminActiveJTISetKey :: gostring where "adminActiveJTISetKey = str ''admin:active-jtis''"

definition jwtRevokedKey :: "gostring \<Rightarrow> gostring" where
  "jwtRevokedKey jti = str ''jwt_revoked:'' @ jti"

definition RevokeJWT :: "gostring \<Rightarrow> int \<Rightarrow> token_redis \<Rightarrow> (redis_error + unit) \<times> token_redis" where
  "RevokeJWT jti ttl rd = tk_exec (t_set (jwtRevokedKey jti) (str ''1'') ttl) rd"

definition IsJWTRevoked :: "gostring \<Rightarrow> token_redis \<Rightarrow> (redis_error + bool) \<times> token_redis" where
  "IsJWTRevoked jti rd = (case tk_exec (t_get (jwtRevokedKey jti)) rd of
       (Inl e, rd) \<Rightarrow> (Inl e, rd)
     | (Inr None, rd) \<Rightarrow> (Inr False, rd)
     | (Inr (Some v), rd) \<Rightarrow> (Inr (v \<noteq> []), rd))"

definition incrementFailedLoginScript :: "gostring \<Rightarrow> gostring \<Rightarrow> int \<Rightarrow> (int \<times> int) tcmd" where
  "incrementFailedLoginScript ipKey acctKey seconds =
     t_bind (t_incr ipKey) (\<lambda>ipCount. t_bind (t_incr acctKey) (\<lambda>acctCount.
       t_bind (if ipCount = 1 then t_expire ipKey (seconds * 1000) else t_return ()) (\<lambda>_.
       t_bind (if acctCount = 1 then t_expire acctKey (seconds * 1000) else t_return ()) (\<lambda>_.
       t_return (ipCount, acctCount)))))"

definition IncrementFailedLogin :: "gostring \<Rightarrow> gostring \<Rightarrow> token_redis \<Rightarrow> (redis_error + int \<times> int) \<times> token_redis" where
  "IncrementFailedLogin ip account rd =
     tk_exec (incrementFailedLoginScript (adminFailKeyPrefix @ ip) (adminAcctFailPrefix @ account) 900) rd"

definition IsLoginLocked :: "gostring \<Rightarrow> gostring \<Rightarrow> token_redis \<Rightarrow> (redis_error + bool) \<times> token_redis" where
  "IsLoginLocked ip account rd =
     (let (ipLock, rd) = tk_exec (t_exists (adminLockKeyPrefix @ ip)) rd;
          (acctLock, rd) = tk_exec (t_exists (adminAcctLockPrefix @ account)) rd
      in (case (ipLock, acctLock) of
            (Inl e, _) \<Rightarrow> Inl e | (_, Inl e) \<Rightarrow> Inl e | (Inr a, Inr b) \<Rightarrow> Inr (a \<or> b), rd))"

definition SetLoginLock :: "gostring \<Rightarrow> gostring \<Rightarrow> int \<Rightarrow> token_redis \<Rightarrow> (redis_error + unit) \<times> token_redis" where
  "SetLoginLock ip account ttl rd =
     pipe [t_set (adminLockKeyPrefix @ ip) (str ''1'') ttl, t_set (adminAcctLockPrefix @ account) (str ''1'') ttl] rd"

definition ResetFailedLogin :: "gostring \<Rightarrow> gostring \<Rightarrow> token_redis \<Rightarrow> (redis_error + unit) \<times> token_redis" where
  "ResetFailedLogin ip account rd =
     pipe [t_del [adminFailKeyPrefix @ ip, adminLockKeyPrefix @ ip],
           t_del [adminAcctFailPrefix @ account, adminAcctLockPrefix @ account]] rd"

definition AddAdminJTI :: "gostring \<Rightarrow> int \<Rightarrow> token_redis \<Rightarrow> (redis_error + unit) \<times> token_redis" where
  "AddAdminJTI jti ttl rd = pipe [t_sadd adminActiveJTISetKey jti, t_expire adminActiveJTISetKey ttl] rd"

definition RemoveAdminJTI :: "gostring \<Rightarrow> token_redis \<Rightarrow> (redis_error + unit) \<times> token_redis" where
  "RemoveAdminJTI jti rd = tk_exec (t_srem adminActiveJTISetKey jti) rd"

definition GetAllAdminJTIs :: "token_redis \<Rightarrow> (redis_error + gostring list) \<times> token_redis" where
  "GetAllAdminJTIs rd = tk_exec (t_smembers adminActiveJTISetKey) rd"

section \<open>Magic links\<close>

definition magicTokenKey :: "gostring \<Rightarrow> gostring" where
  "magicTokenKey hash = str ''magic:'' @ hash"

definition StoreMagicToken :: "gostring \<Rightarrow> gostring \<Rightarrow> int \<Rightarrow> token_redis \<Rightarrow> (redis_error + unit) \<times> token_redis" where
  "StoreMagicToken hash data ttl rd = tk_exec (t_set (magicTokenKey hash) data ttl) rd"

text \<open>The read is retried, at most as often as the policy grants (\<open>n\<close>), after an error that counts as transient.\<close>

fun tk_retry :: "nat \<Rightarrow> 'a tcmd \<Rightarrow> token_redis \<Rightarrow> (redis_error + 'a) \<times> token_redis" where
  "tk_retry n f rd =
     (let again = (case tk_attempts rd (tk_pos rd) of Runs \<Rightarrow> False | Fails b \<Rightarrow> b | Lost b \<Rightarrow> b)
      in if again \<and> n > 0 then tk_retry (n - 1) f (snd (tk_exec f rd)) else tk_exec f rd)"

declare tk_retry.simps [simp del]

definition GetMagicToken :: "nat \<Rightarrow> gostring \<Rightarrow> token_redis \<Rightarrow> (redis_error + gostring option) \<times> token_redis" where
  "GetMagicToken n hash rd = tk_retry n (t_get (magicTokenKey hash)) rd"

definition consumeMagicTokenScript :: "gostring \<Rightarrow> gostring option tcmd" where
  "consumeMagicTokenScript k = t_bind (t_get k) (\<lambda>res.
     case res of None \<Rightarrow> t_return None | Some v \<Rightarrow> t_bind (t_del [k]) (\<lambda>_. t_return (Some v)))"

text \<open>The client library reports the nil reply of a script as an error, so that a missing token is one.\<close>

definition ConsumeMagicToken :: "gostring \<Rightarrow> token_redis \<Rightarrow> (redis_error + gostring) \<times> token_redis" where
  "ConsumeMagicToken hash rd = (case tk_exec (consumeMagicTokenScript (magicTokenKey hash)) rd of
       (Inl e, rd) \<Rightarrow> (Inl e, rd)
     | (Inr None, rd) \<Rightarrow> (Inl NilReply, rd)
     | (Inr (Some v), rd) \<Rightarrow> (Inr v, rd))"

definition DeleteMagicToken :: "gostring \<Rightarrow> token_redis \<Rightarrow> (redis_error + unit) \<times> token_redis" where
  "DeleteMagicToken hash rd = tk_exec (t_del [magicTokenKey hash]) rd"

section \<open>Rate limits\<close>

definition rateLimitKey :: "gostring \<Rightarrow> gostring" where
  "rateLimitKey key = str ''rl:'' @ key"

definition rateLimitScript :: "gostring \<Rightarrow> int \<Rightarrow> (int \<times> int) tcmd" where
  "rateLimitScript k seconds = t_bind (t_incr k) (\<lambda>n.
     if n = 1 then t_bind (t_expire k (seconds * 1000)) (\<lambda>_. t_return (n, 1)) else t_return (n, 0))"

text \<open>The window in milliseconds; the script gets whole seconds.\<close>

definition CheckRateLimit :: "gostring \<Rightarrow> int \<Rightarrow> int \<Rightarrow> token_redis \<Rightarrow> (redis_error + bool) \<times> token_redis" where
  "CheckRateLimit key maxCount window rd = (case tk_exec (rateLimitScript (rateLimitKey key) (window div 1000)) rd of
       (Inl e, rd) \<Rightarrow> (Inl e, rd)
     | (Inr (n, _), rd) \<Rightarrow> (Inr (n \<le> maxCount), rd))"

text \<open>The addresses from which a user was seen in the last hour.\<close>

definition multiIPLoginScript :: "gostring \<Rightarrow> gostring \<Rightarrow> int \<Rightarrow> int tcmd" where
  "multiIPLoginScript k ip seconds = t_bind (t_sadd k ip) (\<lambda>_. t_bind (t_expire k (seconds * 1000)) (\<lambda>_.
     t_bind (t_smembers k) (\<lambda>ms. t_return (int (length ms)))))"

definition TrackUserIPs :: "gostring \<Rightarrow> gostring \<Rightarrow> token_redis \<Rightarrow> (redis_error + int) \<times> token_redis" where
  "TrackUserIPs userID clientIP rd = tk_exec (multiIPLoginScript (str ''user:ips:'' @ userID) clientIP 3600) rd"

section \<open>What a command leaves alone\<close>

lemma alive_simps:
  "alive now s k = None \<longleftrightarrow> (case s k of None \<Rightarrow> True | Some (v, None) \<Rightarrow> False | Some (v, Some t) \<Rightarrow> t \<le> now)"
  "alive now s k = Some x \<longleftrightarrow> s k = Some x \<and> (case snd x of None \<Rightarrow> True | Some t \<Rightarrow> now < t)"
  by (auto simp: alive_def split: option.splits)

lemma tk_exec_time [simp]:
  "tk_clock (snd (tk_exec f rd)) = tk_clock rd" "tk_attempts (snd (tk_exec f rd)) = tk_attempts rd"
  "tk_pos (snd (tk_exec f rd)) = Suc (tk_pos rd)"
  by (simp_all add: tk_exec_def Let_def split_def split: attempt.split)

lemma tk_exec_runs:
  "tk_exec f rd = (Inr a, rd') \<Longrightarrow>
     f (tk_now rd) (alive (tk_now rd) (tk_kv rd)) = (Inr a, tk_kv rd') \<and> tk_attempts rd (tk_pos rd) = Runs"
  by (auto simp: tk_exec_def Let_def split_def prod_eq_iff split: attempt.splits)

lemma tk_exec_kv:
  "tk_kv (snd (tk_exec f rd)) = tk_kv rd
   \<or> tk_kv (snd (tk_exec f rd)) = snd (f (tk_now rd) (alive (tk_now rd) (tk_kv rd)))"
  by (auto simp: tk_exec_def Let_def split_def split: attempt.splits)

section \<open>The limit in any window\<close>

text \<open>A sequence of requests: when each of them was made, with which key, and what the limiter said.\<close>

fun rate_run :: "gostring list \<Rightarrow> int \<Rightarrow> int \<Rightarrow> token_redis \<Rightarrow> (int \<times> gostring \<times> (redis_error + bool)) list" where
  "rate_run [] maxCount window rd = []"
| "rate_run (key # ks) maxCount window rd =
     (tk_now rd, key, fst (CheckRateLimit key maxCount window rd)) # rate_run ks maxCount window (snd (CheckRateLimit key maxCount window rd))"

definition counter_ok :: "(tvalue \<times> int option) option \<Rightarrow> bool" where
  "counter_ok x \<longleftrightarrow> x = None \<or> (\<exists>n t. x = Some (TNum n, Some t) \<and> 1 \<le> n)"

definition admitted :: "gostring \<Rightarrow> int \<Rightarrow> int \<Rightarrow> (int \<times> gostring \<times> (redis_error + bool)) list \<Rightarrow> nat" where
  "admitted key from to xs = length (filter (\<lambda>(t, k, res). k = key \<and> res = Inr True \<and> from \<le> t \<and> t < to) xs)"

lemma CheckRateLimit_snd: "snd (CheckRateLimit key m w rd) = snd (tk_exec (rateLimitScript (rateLimitKey key) (w div 1000)) rd)"
  by (auto simp: CheckRateLimit_def split_def split: sum.split prod.split)

text \<open>What one request does to the counter of a key, and when it is admitted.\<close>

definition counted :: "int \<Rightarrow> (tvalue \<times> int option) option \<Rightarrow> int \<times> (tvalue \<times> int option)" where
  "counted expiry x = (case x of Some (TNum n, e) \<Rightarrow> (n + 1, TNum (n + 1), e) | _ \<Rightarrow> (1, TNum 1, Some expiry))"

lemma alive_counter: "counter_ok (s k) \<Longrightarrow> counter_ok (alive now s k)"
  by (auto simp: counter_ok_def alive_def split: option.splits)

lemma rate_script:
  assumes "counter_ok (s k)" "0 < c"
  shows "rateLimitScript k c now s = (Inl BadData, s)
    \<or> (\<exists>b. rateLimitScript k c now s = (Inr (fst (counted (now + c * 1000) (s k)), b), s(k \<mapsto> snd (counted (now + c * 1000) (s k)))))"
proof (cases "s k")
  case None
  then show ?thesis using assms(2)
    by (simp add: rateLimitScript_def t_bind_def t_incr_def t_expire_def t_return_def counted_def)
next
  case (Some x)
  then obtain n t where "s k = Some (TNum n, Some t)" "1 \<le> n" using assms(1) by (auto simp: counter_ok_def)
  then show ?thesis
    by (cases "2 ^ 63 \<le> n + 1") (auto simp: rateLimitScript_def t_bind_def t_incr_def t_return_def counted_def)
qed

lemma rate_script_other: "k' \<noteq> k \<Longrightarrow> snd (rateLimitScript k c now s) k' = s k'"
  by (auto simp: rateLimitScript_def t_bind_def t_incr_def t_expire_def t_return_def split: option.split tvalue.split)

lemma rate_other:
  assumes "k \<noteq> key"
  shows "tk_kv (snd (CheckRateLimit k m w rd)) (rateLimitKey key) \<in> {tk_kv rd (rateLimitKey key), alive (tk_now rd) (tk_kv rd) (rateLimitKey key)}"
  using tk_exec_kv [of "rateLimitScript (rateLimitKey k) (w div 1000)" rd] rate_script_other [of "rateLimitKey key" "rateLimitKey k"] assms
  by (auto simp: CheckRateLimit_snd rateLimitKey_def)

lemma rate_step:
  assumes "counter_ok (tk_kv rd (rateLimitKey key))" "1000 \<le> w"
  obtains (quiet) "tk_kv (snd (CheckRateLimit key m w rd)) (rateLimitKey key) \<in> {tk_kv rd (rateLimitKey key), alive (tk_now rd) (tk_kv rd) (rateLimitKey key)}"
      "fst (CheckRateLimit key m w rd) \<noteq> Inr True"
    | (count) x where "x = counted (tk_now rd + w div 1000 * 1000) (alive (tk_now rd) (tk_kv rd) (rateLimitKey key))"
      "tk_kv (snd (CheckRateLimit key m w rd)) (rateLimitKey key) = Some (snd x)"
      "fst (CheckRateLimit key m w rd) = Inr True \<Longrightarrow> fst x \<le> m"
proof -
  let ?s = "alive (tk_now rd) (tk_kv rd)" and ?k = "rateLimitKey key"
  have c: "0 < w div 1000" using assms(2) by simp
  note script = rate_script [of ?s ?k "w div 1000" "tk_now rd", OF alive_counter [of "tk_kv rd" "rateLimitKey key", OF assms(1)] c]
  show ?thesis
  proof (cases "rateLimitScript ?k (w div 1000) (tk_now rd) ?s = (Inl BadData, ?s)")
    case True
    then show ?thesis by (intro quiet) (auto simp: CheckRateLimit_def tk_exec_def Let_def split: attempt.split)
  next
    case False
    then obtain b where b: "rateLimitScript ?k (w div 1000) (tk_now rd) ?s
        = (Inr (fst (counted (tk_now rd + w div 1000 * 1000) (?s ?k)), b), ?s(?k \<mapsto> snd (counted (tk_now rd + w div 1000 * 1000) (?s ?k))))"
      using script by blast
    show ?thesis
    proof (cases "tk_attempts rd (tk_pos rd)")
      case (Fails t)
      then show ?thesis by (intro quiet) (simp_all add: CheckRateLimit_def tk_exec_def b Let_def)
    qed (intro count [OF refl]; simp add: CheckRateLimit_def tk_exec_def b Let_def)+
  qed
qed

text \<open>How many more requests can be admitted before \<open>b\<close>, the end of a window that began at \<open>a\<close>.\<close>

definition budget :: "int \<Rightarrow> int \<Rightarrow> int \<Rightarrow> int \<Rightarrow> (tvalue \<times> int option) option \<Rightarrow> int" where
  "budget a b m now x =
     (if b \<le> now then 0
      else if now < a then 2 * m
      else case x of
          Some (TNum n, Some t) \<Rightarrow> if t \<le> now then m else max 0 (m - n) + (if b \<le> t then 0 else m)
        | _ \<Rightarrow> m)"

lemma budget_bounds: "0 \<le> m \<Longrightarrow> counter_ok x \<Longrightarrow> 0 \<le> budget a b m now x \<and> budget a b m now x \<le> 2 * m"
  by (auto simp: budget_def counter_ok_def)

text \<open>Time passes and the counter may be dropped when it has expired: the budget does not grow.\<close>

lemma budget_later:
  assumes "0 \<le> m" "counter_ok x" "now \<le> now'" "y = x \<or> y = None \<and> (\<exists>v t. x = Some (v, Some t) \<and> t \<le> now)"
  shows "budget a b m now' y \<le> budget a b m now x"
  using assms by (auto simp: budget_def counter_ok_def)

lemma budget_counted:
  assumes "0 \<le> m" "counter_ok x" "now \<le> now'" "b = a + W" "a \<le> now" "now < b" "n \<le> m"
    and "(n, y) = counted (now + W) (if (\<exists>v t. x = Some (v, Some t) \<and> t \<le> now) then None else x)"
  shows "budget a b m now' (Some y) + 1 \<le> budget a b m now x"
  using assms by (auto simp: budget_def counter_ok_def counted_def split: if_splits)

lemma budget_refused:
  assumes "0 \<le> m" "counter_ok x" "now \<le> now'" "b = a + W" "0 < W"
    and "(n, y) = counted (now + W) (if (\<exists>v t. x = Some (v, Some t) \<and> t \<le> now) then None else x)"
  shows "counter_ok (Some y) \<and> budget a b m now' (Some y) \<le> budget a b m now x"
  using assms by (auto simp: budget_def counter_ok_def counted_def split: if_splits)

lemma alive_drop:
  "counter_ok (s k) \<Longrightarrow> alive now s k = (if \<exists>v t. s k = Some (v, Some t) \<and> t \<le> now then None else s k)"
  by (auto simp: alive_def counter_ok_def split: option.split)

lemma admitted_budget:
  assumes "0 \<le> m" "1000 \<le> w" "b = a + w div 1000 * 1000"
  shows "counter_ok (tk_kv rd (rateLimitKey key)) \<Longrightarrow> mono (tk_clock rd) \<Longrightarrow>
    int (admitted key a b (rate_run ks m w rd)) \<le> budget a b m (tk_now rd) (tk_kv rd (rateLimitKey key))"
proof (induction ks arbitrary: rd)
  case Nil
  then show ?case using budget_bounds [OF assms(1) Nil.prems(1)] by (simp add: admitted_def)
next
  case (Cons k ks)
  let ?rd = "snd (CheckRateLimit k m w rd)" and ?x = "tk_kv rd (rateLimitKey key)"
  let ?y = "tk_kv ?rd (rateLimitKey key)" and ?res = "fst (CheckRateLimit k m w rd)"
  have W: "0 < w div 1000 * 1000" using assms(2) by simp
  have later: "tk_now rd \<le> tk_now ?rd" and clock: "mono (tk_clock ?rd)"
    using monoD [OF Cons.prems(2), of "tk_pos rd" "Suc (tk_pos rd)"] Cons.prems(2) by (simp_all add: CheckRateLimit_snd tk_now_def)
  define hit where "hit \<longleftrightarrow> k = key \<and> ?res = Inr True \<and> a \<le> tk_now rd \<and> tk_now rd < b"
  have step: "counter_ok ?y \<and> budget a b m (tk_now ?rd) ?y + (if hit then 1 else 0) \<le> budget a b m (tk_now rd) ?x"
  proof -
    have kept: "counter_ok ?y \<and> budget a b m (tk_now ?rd) ?y \<le> budget a b m (tk_now rd) ?x"
      if "?y \<in> {?x, alive (tk_now rd) (tk_kv rd) (rateLimitKey key)}"
    proof
      have y: "?y = ?x \<or> ?y = None \<and> (\<exists>v t. ?x = Some (v, Some t) \<and> t \<le> tk_now rd)"
        using that alive_drop [of "tk_kv rd" "rateLimitKey key" "tk_now rd", OF Cons.prems(1)] by (auto split: if_splits)
      then show "counter_ok ?y" using Cons.prems(1) by (auto simp: counter_ok_def)
      show "budget a b m (tk_now ?rd) ?y \<le> budget a b m (tk_now rd) ?x" by (rule budget_later [OF assms(1) Cons.prems(1) later y])
    qed
    show ?thesis
    proof (cases "k = key")
      case False
      then show ?thesis using kept [OF rate_other [OF False]] by (simp add: hit_def)
    next
      case True
      show ?thesis
      proof (cases rule: rate_step [OF Cons.prems(1) assms(2), of m, case_names quiet count])
        case quiet
        then show ?thesis using kept True by (simp add: hit_def)
      next
        case (count x)
        obtain n y where x: "x = (n, y)" by (cases x) blast
        have c: "(n, y) = counted (tk_now rd + w div 1000 * 1000) (if \<exists>v t. ?x = Some (v, Some t) \<and> t \<le> tk_now rd then None else ?x)"
          using count(1) alive_drop [of "tk_kv rd" "rateLimitKey key", OF Cons.prems(1)] x by simp
        have y: "?y = Some y" using count(2) x True by simp
        show ?thesis
        proof (cases hit)
          case True
          then have "n \<le> m" using count(3) x by (auto simp: hit_def)
          then show ?thesis
            using budget_counted [OF assms(1) Cons.prems(1) later assms(3) _ _ _ c] budget_refused [OF assms(1) Cons.prems(1) later assms(3) W c] True y
            by (auto simp: hit_def)
        qed (use budget_refused [OF assms(1) Cons.prems(1) later assms(3) W c] y in simp)
      qed
    qed
  qed
  have "int (admitted key a b (rate_run (k # ks) m w rd)) = int (admitted key a b (rate_run ks m w ?rd)) + (if hit then 1 else 0)"
    by (auto simp: admitted_def hit_def)
  then show ?case using Cons.IH [OF _ clock] step by fastforce
qed

text \<open>C34: Whatever requests are made and whatever faults happen, in no span of time as long as the window does the limiter
  admit more than twice the number of requests it is configured for, under any key; in the first such span, which
  begins without counters, it admits at most that number.\<close>

theorem rate_limit_any_window:
  assumes "0 \<le> m" "1000 \<le> w" "mono (tk_clock rd)" "tk_kv rd = Map.empty"
  shows "int (admitted key a (a + w div 1000 * 1000) (rate_run ks m w rd)) \<le> 2 * m
    \<and> int (admitted key (tk_now rd) (tk_now rd + w div 1000 * 1000) (rate_run ks m w rd)) \<le> m"
proof -
  have c: "counter_ok (tk_kv rd (rateLimitKey key))" using assms(4) by (simp add: counter_ok_def)
  note b = admitted_budget [OF assms(1,2) refl c assms(3), of _ ks]
  have "budget (tk_now rd) (tk_now rd + w div 1000 * 1000) m (tk_now rd) (tk_kv rd (rateLimitKey key)) \<le> m"
    using assms(1,4) by (simp add: budget_def)
  then show ?thesis using b budget_bounds [OF assms(1) c] by (blast intro: order_trans)
qed

definition demo_tokens :: token_redis where
  "demo_tokens = \<lparr>tk_kv = Map.empty, tk_clock = int, tk_attempts = (\<lambda>_. Runs), tk_pos = 0\<rparr>"

theorem rate_limit_any_window_witness:
  "int (admitted [1] 0 60000 (rate_run [[1], [1], [2], [1]] 2 60000 demo_tokens)) \<le> 2
    \<and> map (snd \<circ> snd) (rate_run [[1], [1], [2], [1]] 2 60000 demo_tokens) = [Inr True, Inr True, Inr True, Inr False]"
proof -
  have "mono (tk_clock demo_tokens)" "tk_kv demo_tokens = Map.empty" "tk_now demo_tokens = 0"
    by (simp_all add: demo_tokens_def mono_def tk_now_def)
  then have "int (admitted [1] 0 60000 (rate_run [[1], [1], [2], [1]] 2 60000 demo_tokens)) \<le> 2"
    using rate_limit_any_window [of 2 60000 demo_tokens "[1]" 0 "[[1], [1], [2], [1]]"] by simp
  moreover have "map (snd \<circ> snd) (rate_run [[1], [1], [2], [1]] 2 60000 demo_tokens) = [Inr True, Inr True, Inr True, Inr False]"
    by code_simp
  ultimately show ?thesis by blast
qed

end
