(* ===== verification/Refresh_Tokens.thy ===== *)
theory Refresh_Tokens
  imports Token_Store
begin

text \<open>
  The life of refresh tokens (\<^verbatim>\<open>RefreshTokenManager\<close> in \<^verbatim>\<open>auth/token_lifecycle.go\<close>): a token is 32 random bytes in hexadecimal,
  stored with its user for seven days and listed in a set of the user. Using it consumes it and leaves a marker, so that a
  second use is noticed.

  The random bytes of a call are an argument, \<open>None\<close> when the source fails. The token manager shares Redis with other
  code; \<open>rt_step\<close> is one operation of the manager or of the others.
\<close>

section \<open>Operations\<close>

datatype auth_error = ErrRandom | ErrStore redis_error | ErrInvalidToken | ErrUnexpected

definition refreshTokenExpiry :: int where "refreshTokenExpiry = 7 * 24 * 3600 * 1000"
definition refreshTokenPrefix :: gostring where "refreshTokenPrefix = str ''refresh_token:''"
definition refreshTokenReusePrefix :: gostring where "refreshTokenReusePrefix = str ''refresh_token:reuse:''"
definition userTokensSetPrefix :: gostring where "userTokensSetPrefix = str ''refresh_tokens:user:''"

definition generateSecureToken :: "byte list option \<Rightarrow> auth_error + gostring" where
  "generateSecureToken rand = (case rand of None \<Rightarrow> Inl ErrRandom | Some bs \<Rightarrow> Inr (hex bs))"

definition Generate :: "byte list option \<Rightarrow> gostring \<Rightarrow> token_redis \<Rightarrow> (auth_error + gostring) \<times> token_redis" where
  "Generate rand userID rd = (case generateSecureToken rand of
       Inl e \<Rightarrow> (Inl e, rd)
     | Inr token \<Rightarrow>
         (case tk_exec (multi [t_set (refreshTokenPrefix @ token) userID refreshTokenExpiry,
                               t_sadd (userTokensSetPrefix @ userID) token,
                               t_expire (userTokensSetPrefix @ userID) refreshTokenExpiry]) rd of
            (Inl e, rd) \<Rightarrow> (Inl (ErrStore e), rd)
          | (Inr _, rd) \<Rightarrow> (Inr token, rd)))"

definition consumeRefreshTokenScript :: "gostring \<Rightarrow> gostring \<Rightarrow> int \<Rightarrow> (int \<times> gostring option) tcmd" where
  "consumeRefreshTokenScript k1 k2 seconds = t_bind (t_get k1) (\<lambda>userID. case userID of
       Some u \<Rightarrow> t_bind (t_del [k1]) (\<lambda>_. t_bind (t_set k2 u (seconds * 1000)) (\<lambda>_. t_return (1, Some u)))
     | None \<Rightarrow> t_bind (t_get k2) (\<lambda>reuseUserID. case reuseUserID of
           Some u \<Rightarrow> t_return (0, Some u)
         | None \<Rightarrow> t_return (- 1, None)))"

record consume_result =
  cr_UserID :: gostring
  cr_Reused :: bool

definition ConsumeRefreshToken :: "gostring \<Rightarrow> token_redis \<Rightarrow> (auth_error + consume_result) \<times> token_redis" where
  "ConsumeRefreshToken token rd =
     (case tk_exec (consumeRefreshTokenScript (refreshTokenPrefix @ token) (refreshTokenReusePrefix @ token) (refreshTokenExpiry div 1000)) rd of
        (Inl e, rd) \<Rightarrow> (Inl (ErrStore e), rd)
      | (Inr (status, user), rd) \<Rightarrow>
          (if status = - 1 then Inl ErrInvalidToken
           else if status = 0 \<or> status = 1
           then (case user of
               None \<Rightarrow> Inl ErrUnexpected
             | Some u \<Rightarrow> if u = [] then Inl ErrUnexpected else Inr \<lparr>cr_UserID = u, cr_Reused = (status = 0)\<rparr>)
           else Inl ErrUnexpected, rd))"

definition RemoveFromUserSet :: "gostring \<Rightarrow> gostring \<Rightarrow> token_redis \<Rightarrow> (redis_error + unit) \<times> token_redis" where
  "RemoveFromUserSet userID token rd = tk_exec (t_srem (userTokensSetPrefix @ userID) token) rd"

definition Validate :: "gostring \<Rightarrow> token_redis \<Rightarrow> (auth_error + gostring) \<times> token_redis" where
  "Validate token rd = (case tk_exec (t_get (refreshTokenPrefix @ token)) rd of
       (Inl e, rd) \<Rightarrow> (Inl (ErrStore e), rd)
     | (Inr None, rd) \<Rightarrow> (Inl ErrInvalidToken, rd)
     | (Inr (Some u), rd) \<Rightarrow> (Inr u, rd))"

definition Revoke :: "gostring \<Rightarrow> token_redis \<Rightarrow> (redis_error + unit) \<times> token_redis" where
  "Revoke token rd = tk_exec (t_del [refreshTokenPrefix @ token]) rd"

definition revokeAllForUserScript :: "gostring \<Rightarrow> gostring \<Rightarrow> int tcmd" where
  "revokeAllForUserScript k prefix = t_bind (t_smembers k) (\<lambda>tokens.
     t_bind (t_del (map (\<lambda>token. prefix @ token) tokens)) (\<lambda>_.
     t_bind (t_del [k]) (\<lambda>_. t_return (int (length tokens)))))"

definition RevokeAllForUser :: "gostring \<Rightarrow> token_redis \<Rightarrow> (redis_error + unit) \<times> token_redis" where
  "RevokeAllForUser userID rd =
     (let (res, rd) = tk_exec (revokeAllForUserScript (userTokensSetPrefix @ userID) refreshTokenPrefix) rd
      in (map_sum id (\<lambda>_. ()) res, rd))"

section \<open>Keys\<close>

text \<open>What a token that was issued looks like; what is presented may be any string.\<close>

definition hex_char :: "byte \<Rightarrow> bool" where
  "hex_char b \<longleftrightarrow> (48 \<le> unat b \<and> unat b \<le> 57) \<or> (97 \<le> unat b \<and> unat b \<le> 102)"

definition token_format :: "gostring \<Rightarrow> bool" where
  "token_format t \<longleftrightarrow> list_all hex_char t"

lemma hex_digit_char: "n < 16 \<Longrightarrow> hex_char (hex_digit n)"
  by (auto simp: hex_char_def hex_digit_def unat_of_nat_byte simp del: of_nat_add)

lemma hex_format: "token_format (hex bs)"
proof -
  have "hex_char (hex_digit (unat b div 16))" "hex_char (hex_digit (unat b mod 16))" for b :: byte
    using unsigned_less [of b, where 'a = nat] by (auto intro!: hex_digit_char simp: less_mult_imp_div_less)
  then show ?thesis by (auto simp: token_format_def hex_def list_all_iff)
qed

lemma keys_apart [simp]:
  "refreshTokenPrefix @ t \<noteq> userTokensSetPrefix @ u" "userTokensSetPrefix @ u \<noteq> refreshTokenPrefix @ t"
  "refreshTokenReusePrefix @ t \<noteq> userTokensSetPrefix @ u" "userTokensSetPrefix @ u \<noteq> refreshTokenReusePrefix @ t"
  "refreshTokenPrefix \<noteq> refreshTokenReusePrefix"
  by (auto simp: refreshTokenPrefix_def refreshTokenReusePrefix_def userTokensSetPrefix_def str_def)

lemma marker_apart [simp]: "token_format t \<Longrightarrow> refreshTokenPrefix @ t \<noteq> refreshTokenReusePrefix @ t'"
proof -
  have "\<not> hex_char 114" by (simp add: hex_char_def)
  then show "token_format t \<Longrightarrow> refreshTokenPrefix @ t \<noteq> refreshTokenReusePrefix @ t'"
    by (cases t) (auto simp: token_format_def refreshTokenPrefix_def refreshTokenReusePrefix_def str_def)
qed

section \<open>The token machine\<close>

record rt_system =
  rt_redis :: token_redis
  rt_issued :: "gostring set"
  rt_accepted :: "(gostring \<times> gostring) list"

definition token_key :: "gostring \<Rightarrow> bool" where
  "token_key k \<longleftrightarrow> take 13 k = str ''refresh_token''"

text \<open>A new token differs from all earlier ones, as 32 random bytes do. A token is taken off the set of its user only after it
  was accepted. Other code may do anything to keys that are not of the token manager, and time passes.\<close>

inductive rt_step :: "rt_system \<Rightarrow> rt_system \<Rightarrow> bool" where
  issues: "hex bs \<notin> rt_issued S \<Longrightarrow>
    rt_step S (S\<lparr>rt_redis := snd (Generate (Some bs) u (rt_redis S)), rt_issued := insert (hex bs) (rt_issued S)\<rparr>)"
| consumes: "ConsumeRefreshToken t (rt_redis S) = (res, rd) \<Longrightarrow>
    rt_step S (S\<lparr>rt_redis := rd, rt_accepted := (case res of
        Inr r \<Rightarrow> if cr_Reused r then rt_accepted S else (t, cr_UserID r) # rt_accepted S
      | Inl _ \<Rightarrow> rt_accepted S)\<rparr>)"
| removes: "(t, u) \<in> set (rt_accepted S) \<Longrightarrow> rt_step S (S\<lparr>rt_redis := snd (RemoveFromUserSet u t (rt_redis S))\<rparr>)"
| revokes: "rt_step S (S\<lparr>rt_redis := snd (Revoke t (rt_redis S))\<rparr>)"
| revokes_all: "rt_step S (S\<lparr>rt_redis := snd (RevokeAllForUser u (rt_redis S))\<rparr>)"
| others: "tk_pos (rt_redis S) \<le> n \<Longrightarrow> (\<And>k. token_key k \<Longrightarrow> s k = tk_kv (rt_redis S) k) \<Longrightarrow>
    rt_step S (S\<lparr>rt_redis := (rt_redis S)\<lparr>tk_pos := n, tk_kv := s\<rparr>\<rparr>)"

inductive_cases rt_stepE: "rt_step S S'"

definition rt_init :: "rt_system \<Rightarrow> bool" where
  "rt_init S \<longleftrightarrow> mono (tk_clock (rt_redis S)) \<and> (\<forall>k. token_key k \<longrightarrow> tk_kv (rt_redis S) k = None) \<and> rt_issued S = {} \<and> rt_accepted S = []"

section \<open>Invariant\<close>

text \<open>Accepted tokens are gone. A token that is stored was issued and is listed in the set of its user, which does not
  expire before the token does.\<close>

definition set_ok :: "int \<Rightarrow> tspace \<Rightarrow> gostring \<Rightarrow> bool" where
  "set_ok now s u \<longleftrightarrow> s (userTokensSetPrefix @ u) = None
     \<or> (\<exists>ms y. s (userTokensSetPrefix @ u) = Some (TSet ms, Some y) \<and> y \<le> now + refreshTokenExpiry)"

definition listed :: "tspace \<Rightarrow> gostring \<Rightarrow> gostring \<Rightarrow> int \<Rightarrow> bool" where
  "listed s t u x \<longleftrightarrow> (\<exists>ms y. s (userTokensSetPrefix @ u) = Some (TSet ms, Some y) \<and> t \<in> set ms \<and> x \<le> y)"

definition stored_ok :: "gostring set \<Rightarrow> tspace \<Rightarrow> gostring \<Rightarrow> bool" where
  "stored_ok I s t \<longleftrightarrow> s (refreshTokenPrefix @ t) = None
     \<or> t \<in> I \<and> (\<exists>u x. s (refreshTokenPrefix @ t) = Some (TStr u, Some x) \<and> listed s t u x)"

definition space_inv :: "gostring set \<Rightarrow> gostring set \<Rightarrow> int \<Rightarrow> tspace \<Rightarrow> bool" where
  "space_inv I A now s \<longleftrightarrow> (\<forall>u. set_ok now s u)
     \<and> (\<forall>t. token_format t \<longrightarrow> stored_ok I s t \<and> (t \<in> A \<longrightarrow> t \<in> I \<and> s (refreshTokenPrefix @ t) = None))"

lemma space_later: "space_inv I A now s \<Longrightarrow> now \<le> now' \<Longrightarrow> space_inv I A now' s"
  by (fastforce simp: space_inv_def set_ok_def)

lemma space_shrink:
  assumes "space_inv I A now s" "\<And>u. set_ok now s' u"
    and "\<And>t. token_format t \<Longrightarrow> s' (refreshTokenPrefix @ t) = s (refreshTokenPrefix @ t) \<or> s' (refreshTokenPrefix @ t) = None"
    and "\<And>t u x. token_format t \<Longrightarrow> s' (refreshTokenPrefix @ t) = Some (TStr u, Some x) \<Longrightarrow> listed s t u x \<Longrightarrow> listed s' t u x"
  shows "space_inv I A now s'"
  unfolding space_inv_def
proof (intro conjI allI impI)
  fix t assume t: "token_format t"
  then have s: "stored_ok I s t" "t \<in> A \<longrightarrow> t \<in> I \<and> s (refreshTokenPrefix @ t) = None" using assms(1) by (auto simp: space_inv_def)
  show "stored_ok I s' t" using s(1) assms(3) [OF t] assms(4) [OF t] unfolding stored_ok_def by (metis option.distinct(1))
  show "t \<in> I" "s' (refreshTokenPrefix @ t) = None" if "t \<in> A" using that s(2) assms(3) [OF t] by auto
qed (rule assms(2))

lemma space_set: "space_inv I A now s \<Longrightarrow> set_ok now s u"
  by (simp add: space_inv_def)

lemma space_alive: "space_inv I A now s \<Longrightarrow> space_inv I A now (alive now s)"
proof (rule space_shrink, assumption)
  show "space_inv I A now s \<Longrightarrow> set_ok now (alive now s) u" for u
    using space_set [of I A now s u] by (auto simp: set_ok_def alive_def)
  show "listed (alive now s) t u x" if "alive now s (refreshTokenPrefix @ t) = Some (TStr u, Some x)" "listed s t u x" for t u x
    using that by (auto simp: listed_def alive_simps)
qed (auto simp: alive_def split: option.split)

lemma space_frame:
  assumes "space_inv I A now s" "\<And>k. token_key k \<Longrightarrow> s' k = s k"
  shows "space_inv I A now s'"
proof -
  have "token_key (refreshTokenPrefix @ t)" "token_key (userTokensSetPrefix @ t)" for t
    by (simp_all add: token_key_def refreshTokenPrefix_def userTokensSetPrefix_def str_def)
  then show ?thesis using assms by (simp add: space_inv_def set_ok_def stored_ok_def listed_def)
qed

text \<open>A command that keeps the invariant keeps it whatever happens to its execution.\<close>

lemma space_exec:
  assumes "space_inv I A (tk_now rd) (tk_kv rd)" "mono (tk_clock rd)" "I \<subseteq> J"
    and "\<And>s. space_inv I A (tk_now rd) s \<Longrightarrow> space_inv J A (tk_now rd) (snd (f (tk_now rd) s))"
  shows "space_inv J A (tk_now (snd (tk_exec f rd))) (tk_kv (snd (tk_exec f rd)))"
proof -
  have "tk_now rd \<le> tk_now (snd (tk_exec f rd))" using assms(2) by (simp add: tk_now_def mono_def)
  moreover have "space_inv J A (tk_now rd) (tk_kv rd)" using assms(1,3) by (auto simp: space_inv_def stored_ok_def)
  then have "space_inv J A (tk_now rd) (tk_kv (snd (tk_exec f rd)))"
    using tk_exec_kv [of f rd] assms(4) [OF space_alive [OF assms(1)]] by auto
  ultimately show ?thesis using space_later by blast
qed

section \<open>Each operation keeps it\<close>

lemma revoke_space:
  assumes "space_inv I A now s"
  shows "space_inv I A now (snd (t_del [refreshTokenPrefix @ t] now s))"
proof (rule space_shrink [OF assms])
  show "set_ok now (snd (t_del [refreshTokenPrefix @ t] now s)) u" for u
    using space_set [OF assms, of u] by (simp add: t_del_def set_ok_def)
qed (auto simp: t_del_def listed_def)

lemma remove_space:
  assumes "space_inv I A now s" "t \<in> A"
  shows "space_inv I A now (snd (t_srem (userTokensSetPrefix @ u) t now s))"
  using assms(1)
proof (rule space_shrink)
  let ?s = "snd (t_srem (userTokensSetPrefix @ u) t now s)"
  note u = space_set [OF assms(1)]
  show "set_ok now ?s v" for v
    using u [of v] u [of u] by (cases "v = u") (auto simp: set_ok_def t_srem_def split: option.split tvalue.split)
  show "token_format t' \<Longrightarrow> ?s (refreshTokenPrefix @ t') = s (refreshTokenPrefix @ t') \<or> ?s (refreshTokenPrefix @ t') = None" for t'
    by (auto simp: t_srem_def split: option.split tvalue.split)
  show "listed ?s t' v x" if "token_format t'" "?s (refreshTokenPrefix @ t') = Some (TStr v, Some x)" "listed s t' v x" for t' v x
  proof -
    have "t' \<noteq> t" using that(1,2) assms by (auto simp: space_inv_def t_srem_def split: option.splits tvalue.splits if_splits)
    then show ?thesis using that(3) u [of u]
      by (auto simp: listed_def t_srem_def set_ok_def removeAll_filter_not_eq filter_empty_conv split: option.split tvalue.split)
  qed
qed

lemma revoke_all_effect:
  assumes "set_ok now s u"
  defines "s' \<equiv> snd (revokeAllForUserScript (userTokensSetPrefix @ u) refreshTokenPrefix now s)"
  shows "s' (userTokensSetPrefix @ u) = None" "v \<noteq> u \<Longrightarrow> s' (userTokensSetPrefix @ v) = s (userTokensSetPrefix @ v)"
    "s' (refreshTokenPrefix @ t) = (if \<exists>x. listed s t u x then None else s (refreshTokenPrefix @ t))"
  using assms(1) unfolding s'_def
  by (auto simp: set_ok_def revokeAllForUserScript_def t_bind_def t_smembers_def t_del_def t_return_def listed_def split: if_splits)

lemma revoke_all_space:
  assumes "space_inv I A now s"
  shows "space_inv I A now (snd (revokeAllForUserScript (userTokensSetPrefix @ u) refreshTokenPrefix now s))"
  using assms
proof (rule space_shrink)
  note e = revoke_all_effect [OF space_set [OF assms, of u]]
  show "set_ok now (snd (revokeAllForUserScript (userTokensSetPrefix @ u) refreshTokenPrefix now s)) v" for v
    using e(1,2) space_set [OF assms, of v] by (cases "v = u") (auto simp: set_ok_def)
  show "listed (snd (revokeAllForUserScript (userTokensSetPrefix @ u) refreshTokenPrefix now s)) t v x"
    if "snd (revokeAllForUserScript (userTokensSetPrefix @ u) refreshTokenPrefix now s) (refreshTokenPrefix @ t) = Some (TStr v, Some x)" "listed s t v x" for t v x
    using that e by (cases "v = u") (auto simp: listed_def split: if_splits)
qed (use revoke_all_effect [OF space_set [OF assms, of u]] in auto)

lemma consume_space:
  assumes "space_inv I A now s"
  shows "space_inv I A now (snd (consumeRefreshTokenScript (refreshTokenPrefix @ t) (refreshTokenReusePrefix @ t) c now s))"
proof (rule space_shrink [OF assms])
  show "set_ok now (snd (consumeRefreshTokenScript (refreshTokenPrefix @ t) (refreshTokenReusePrefix @ t) c now s)) u" for u
    using space_set [OF assms, of u]
    by (auto simp: set_ok_def consumeRefreshTokenScript_def t_bind_def t_get_def t_del_def t_set_def t_return_def split: option.split tvalue.split)
qed (auto simp: listed_def consumeRefreshTokenScript_def t_bind_def t_get_def t_del_def t_set_def t_return_def
      split: option.split tvalue.split if_splits)

lemma generate_effect:
  fixes t :: gostring
  assumes "set_ok now s u"
  defines "s' \<equiv> snd (multi [t_set (refreshTokenPrefix @ t) u refreshTokenExpiry, t_sadd (userTokensSetPrefix @ u) t,
    t_expire (userTokensSetPrefix @ u) refreshTokenExpiry] now s)"
  shows "s' (refreshTokenPrefix @ t') = (if t' = t then Some (TStr u, Some (now + refreshTokenExpiry)) else s (refreshTokenPrefix @ t'))"
    "v \<noteq> u \<Longrightarrow> s' (userTokensSetPrefix @ v) = s (userTokensSetPrefix @ v)"
    "\<exists>ms. s' (userTokensSetPrefix @ u) = Some (TSet ms, Some (now + refreshTokenExpiry)) \<and> t \<in> set ms
       \<and> (\<forall>t' x. listed s t' u x \<longrightarrow> t' \<in> set ms)"
proof -
  have e: "0 < refreshTokenExpiry" by (simp add: refreshTokenExpiry_def)
  consider "s (userTokensSetPrefix @ u) = None" | ms y where "s (userTokensSetPrefix @ u) = Some (TSet ms, Some y)"
    using assms(1) by (auto simp: set_ok_def)
  then show "s' (refreshTokenPrefix @ t') = (if t' = t then Some (TStr u, Some (now + refreshTokenExpiry)) else s (refreshTokenPrefix @ t'))"
    "v \<noteq> u \<Longrightarrow> s' (userTokensSetPrefix @ v) = s (userTokensSetPrefix @ v)"
    "\<exists>ms. s' (userTokensSetPrefix @ u) = Some (TSet ms, Some (now + refreshTokenExpiry)) \<and> t \<in> set ms
       \<and> (\<forall>t' x. listed s t' u x \<longrightarrow> t' \<in> set ms)"
    using e unfolding s'_def
    by (cases; auto simp: t_set_def t_sadd_def t_expire_def expires_def listed_def Let_def)+
qed

lemma generate_space:
  assumes "space_inv I A now s" "t \<notin> I"
  shows "space_inv (insert t I) A now (snd (multi [t_set (refreshTokenPrefix @ t) u refreshTokenExpiry,
    t_sadd (userTokensSetPrefix @ u) t, t_expire (userTokensSetPrefix @ u) refreshTokenExpiry] now s))"
proof -
  define s' where "s' = snd (multi [t_set (refreshTokenPrefix @ t) u refreshTokenExpiry,
    t_sadd (userTokensSetPrefix @ u) t, t_expire (userTokensSetPrefix @ u) refreshTokenExpiry] now s)"
  note e = generate_effect [OF space_set [OF assms(1), of u], where t = t, folded s'_def]
  obtain ms where ms: "s' (userTokensSetPrefix @ u) = Some (TSet ms, Some (now + refreshTokenExpiry))" "t \<in> set ms"
    "\<And>t' x. listed s t' u x \<Longrightarrow> t' \<in> set ms" using e(3) by blast
  have sets: "set_ok now s' v" for v using e(2) [of v] ms(1) space_set [OF assms(1), of v] unfolding set_ok_def by (cases "v = u") auto
  have list: "listed s' t' v x" if "listed s t' v x" for t' v x
  proof (cases "v = u")
    case True
    then have "x \<le> now + refreshTokenExpiry" using that space_set [OF assms(1), of u] unfolding listed_def set_ok_def by auto
    then show ?thesis using True ms(1) ms(3) [of t' x] that unfolding listed_def by auto
  qed (use that e(2) in \<open>simp add: listed_def\<close>)
  have stored: "stored_ok (insert t I) s' t'" if "token_format t'" for t'
  proof (cases "t' = t")
    case True
    then show ?thesis using ms(1,2) unfolding stored_ok_def listed_def e(1) by auto
  next
    case False
    have "stored_ok I s t'" using assms(1) that by (simp add: space_inv_def)
    then show ?thesis using False list unfolding stored_ok_def e(1) by auto
  qed
  have "t' \<in> I \<and> s' (refreshTokenPrefix @ t') = None" if "token_format t'" "t' \<in> A" for t'
  proof -
    have "t' \<in> I" "s (refreshTokenPrefix @ t') = None" using assms(1) that by (auto simp: space_inv_def)
    then show ?thesis using assms(2) unfolding e(1) by auto
  qed
  then show ?thesis unfolding s'_def [symmetric] space_inv_def using sets stored by auto
qed

section \<open>Acceptance\<close>

lemma consume_accepts:
  assumes "ConsumeRefreshToken t rd = (Inr r, rd')" "\<not> cr_Reused r"
  shows "tk_kv rd' (refreshTokenPrefix @ t) = None"
    "tk_kv rd' (refreshTokenReusePrefix @ t) = Some (TStr (cr_UserID r), Some (tk_now rd + refreshTokenExpiry))"
    "\<exists>v e. alive (tk_now rd) (tk_kv rd) (refreshTokenPrefix @ t) = Some (v, e) \<and> (\<forall>u. v = TStr u \<longrightarrow> u = cr_UserID r)"
    "cr_UserID r \<noteq> []"
proof -
  obtain status user where x: "tk_exec (consumeRefreshTokenScript (refreshTokenPrefix @ t) (refreshTokenReusePrefix @ t) (refreshTokenExpiry div 1000)) rd
      = (Inr (status, user), rd')" "status = 1" "user = Some (cr_UserID r)" "cr_UserID r \<noteq> []"
    using assms by (auto simp: ConsumeRefreshToken_def split: prod.splits sum.splits option.splits if_splits)
  have k: "refreshTokenReusePrefix @ t \<noteq> refreshTokenPrefix @ t" by (metis append_same_eq keys_apart(5))
  let ?c = "consumeRefreshTokenScript (refreshTokenPrefix @ t) (refreshTokenReusePrefix @ t) (refreshTokenExpiry div 1000) (tk_now rd)
      (alive (tk_now rd) (tk_kv rd))"
  have kv: "tk_kv rd' = snd ?c" and res: "fst ?c = Inr (1, Some (cr_UserID r))" using tk_exec_runs [OF x(1)] x(2,3) by simp_all
  show "tk_kv rd' (refreshTokenPrefix @ t) = None"
    "tk_kv rd' (refreshTokenReusePrefix @ t) = Some (TStr (cr_UserID r), Some (tk_now rd + refreshTokenExpiry))"
    "\<exists>v e. alive (tk_now rd) (tk_kv rd) (refreshTokenPrefix @ t) = Some (v, e) \<and> (\<forall>u. v = TStr u \<longrightarrow> u = cr_UserID r)"
    using res k unfolding kv
    by (auto simp: consumeRefreshTokenScript_def t_bind_def t_get_def t_del_def t_set_def t_return_def expires_def refreshTokenExpiry_def
        split: option.splits tvalue.splits prod.splits)
  show "cr_UserID r \<noteq> []" by (rule x(4))
qed

lemma consume_redis:
  "snd (ConsumeRefreshToken t rd) =
     snd (tk_exec (consumeRefreshTokenScript (refreshTokenPrefix @ t) (refreshTokenReusePrefix @ t) (refreshTokenExpiry div 1000)) rd)"
  by (auto simp: ConsumeRefreshToken_def split: prod.split sum.split)

lemma generate_redis:
  "snd (Generate (Some bs) u rd) = snd (tk_exec (multi [t_set (refreshTokenPrefix @ hex bs) u refreshTokenExpiry,
     t_sadd (userTokensSetPrefix @ u) (hex bs), t_expire (userTokensSetPrefix @ u) refreshTokenExpiry]) rd)"
  by (auto simp: Generate_def generateSecureToken_def simp del: multi.simps split: prod.split sum.split)

lemma revoke_all_redis:
  "snd (RevokeAllForUser u rd) = snd (tk_exec (revokeAllForUserScript (userTokensSetPrefix @ u) refreshTokenPrefix) rd)"
  by (simp add: RevokeAllForUser_def split_def Let_def)

lemmas op_redis = consume_redis generate_redis revoke_all_redis RemoveFromUserSet_def Revoke_def

section \<open>Reachable states\<close>

definition rt_inv :: "rt_system \<Rightarrow> bool" where
  "rt_inv S \<longleftrightarrow> mono (tk_clock (rt_redis S)) \<and> distinct (filter token_format (map fst (rt_accepted S)))
     \<and> space_inv (rt_issued S) (fst ` set (rt_accepted S)) (tk_now (rt_redis S)) (tk_kv (rt_redis S))"

lemma space_accepted:
  assumes "space_inv I A now s" "token_format t \<Longrightarrow> t \<in> I \<and> s (refreshTokenPrefix @ t) = None"
  shows "space_inv I (insert t A) now s"
  using assms by (auto simp: space_inv_def)

lemma rt_step_inv:
  assumes "rt_inv S" "rt_step S S'"
  shows "rt_inv S'"
  using assms(2)
proof (cases rule: rt_step.cases)
  note inv = assms(1) [unfolded rt_inv_def]
  note inv' = inv [THEN conjunct2, THEN conjunct2]
  note ex = space_exec [OF inv' inv [THEN conjunct1]]
  {
    case (issues bs u)
    have "space_inv (insert (hex bs) (rt_issued S)) (fst ` set (rt_accepted S)) (tk_now (snd (Generate (Some bs) u (rt_redis S))))
        (tk_kv (snd (Generate (Some bs) u (rt_redis S))))"
      unfolding generate_redis by (rule ex [OF subset_insertI]) (rule generate_space [OF _ issues(2)])
    then show ?thesis using inv
      by (simp add: issues(1) rt_inv_def op_redis del: multi.simps)
  next
    case (consumes t res rd)
    have rd: "rd = snd (ConsumeRefreshToken t (rt_redis S))" by (simp add: consumes(2))
    have s: "space_inv (rt_issued S) (fst ` set (rt_accepted S)) (tk_now rd) (tk_kv rd)"
      unfolding rd consume_redis by (rule ex [OF subset_refl]) (rule consume_space)
    have m: "mono (tk_clock rd)" using inv by (simp add: rd op_redis)
    show ?thesis
    proof (cases "\<exists>r. res = Inr r \<and> \<not> cr_Reused r")
      case False
      then show ?thesis using inv s m by (auto simp: consumes(1) rt_inv_def split: sum.split)
    next
      case True
      then obtain r where r: "res = Inr r" "\<not> cr_Reused r" by blast
      note a = consume_accepts [OF consumes(2) [unfolded r(1)] r(2)]
      have i: "t \<in> rt_issued S \<and> t \<notin> fst ` set (rt_accepted S)" if "token_format t"
        using inv a(3) that by (auto simp: space_inv_def stored_ok_def alive_simps)
      show ?thesis using inv m i space_accepted [OF s, of t] a(1) r by (auto simp: consumes(1) rt_inv_def)
    qed
  next
    case (removes t u)
    then have "t \<in> fst ` set (rt_accepted S)" by force
    then have "space_inv (rt_issued S) (fst ` set (rt_accepted S)) (tk_now (snd (RemoveFromUserSet u t (rt_redis S))))
        (tk_kv (snd (RemoveFromUserSet u t (rt_redis S))))"
      unfolding RemoveFromUserSet_def by (intro ex [OF subset_refl] remove_space)
    then show ?thesis using inv by (simp add: removes(1) rt_inv_def op_redis)
  next
    case (revokes t)
    have "space_inv (rt_issued S) (fst ` set (rt_accepted S)) (tk_now (snd (Revoke t (rt_redis S)))) (tk_kv (snd (Revoke t (rt_redis S))))"
      unfolding Revoke_def by (intro ex [OF subset_refl] revoke_space)
    then show ?thesis using inv by (simp add: revokes(1) rt_inv_def op_redis)
  next
    case (revokes_all u)
    have "space_inv (rt_issued S) (fst ` set (rt_accepted S)) (tk_now (snd (RevokeAllForUser u (rt_redis S))))
        (tk_kv (snd (RevokeAllForUser u (rt_redis S))))"
      unfolding revoke_all_redis by (intro ex [OF subset_refl] revoke_all_space)
    then show ?thesis using inv by (simp add: revokes_all(1) rt_inv_def op_redis)
  next
    case (others n s)
    have "tk_now (rt_redis S) \<le> tk_clock (rt_redis S) n" using inv others(2) by (simp add: tk_now_def mono_def)
    then show ?thesis using inv space_later [OF space_frame [OF inv' others(3)]]
      by (simp add: others(1) rt_inv_def tk_now_def)
  }
qed

lemma rt_init_inv: "rt_init S \<Longrightarrow> rt_inv S"
proof -
  have "token_key (refreshTokenPrefix @ t)" "token_key (userTokensSetPrefix @ t)" for t
    by (simp_all add: token_key_def refreshTokenPrefix_def userTokensSetPrefix_def str_def)
  then show "rt_init S \<Longrightarrow> rt_inv S" by (simp add: rt_init_def rt_inv_def space_inv_def set_ok_def stored_ok_def)
qed

interpretation tokens: transition_system rt_init rt_step rt_inv
  by unfold_locales (auto intro: rt_init_inv rt_step_inv)

text \<open>C9: A refresh token is good for one use: in every state that the manager reaches, whatever tokens are presented and
  whatever faults happen, no issued token was accepted twice.\<close>

theorem refresh_token_single_use:
  assumes "rt_init S" "rt_step\<^sup>*\<^sup>* S S'"
  shows "distinct (filter token_format (map fst (rt_accepted S')))"
  using tokens.reachable_inv [OF assms(2,1)] by (simp add: rt_inv_def)

lemma alive_cases: "alive now s k = s k \<or> alive now s k = None"
  by (auto simp: alive_def split: option.split)

section \<open>Revocation is final\<close>

text \<open>Nothing binds an issued token again: its key keeps its value or goes.\<close>

lemma key_exec:
  assumes "\<And>s. snd (f (tk_now rd) s) k = s k \<or> snd (f (tk_now rd) s) k = None"
  shows "tk_kv (snd (tk_exec f rd)) k = tk_kv rd k \<or> tk_kv (snd (tk_exec f rd)) k = None"
  using tk_exec_kv [of f rd] assms [of "alive (tk_now rd) (tk_kv rd)"] alive_cases [of "tk_now rd" "tk_kv rd" k] by metis

lemma multi_state: "snd (multi [] now s) = s" "snd (multi (f # fs) now s) = snd (multi fs now (snd (f now s)))"
  by (simp_all add: Let_def split_def)

lemma command_frames:
  "k \<noteq> k' \<Longrightarrow> snd (t_set k' v ttl now s) k = s k" "k \<noteq> k' \<Longrightarrow> snd (t_sadd k' m now s) k = s k"
  "k \<noteq> k' \<Longrightarrow> snd (t_expire k' ttl now s) k = s k"
  by (auto simp: t_set_def t_sadd_def t_expire_def split: option.split tvalue.split)

lemma script_keys:
  "token_format t \<Longrightarrow> snd (consumeRefreshTokenScript (refreshTokenPrefix @ t') (refreshTokenReusePrefix @ t') c now s) (refreshTokenPrefix @ t)
     \<in> {s (refreshTokenPrefix @ t), None}"
  "snd (revokeAllForUserScript (userTokensSetPrefix @ u) refreshTokenPrefix now s) (refreshTokenPrefix @ t) \<in> {s (refreshTokenPrefix @ t), None}"
  "snd (t_srem (userTokensSetPrefix @ u) t' now s) (refreshTokenPrefix @ t) \<in> {s (refreshTokenPrefix @ t), None}"
  "snd (t_del ks now s) k \<in> {s k, None}"
  by (auto simp: consumeRefreshTokenScript_def revokeAllForUserScript_def t_bind_def t_get_def t_del_def t_set_def t_return_def
      t_smembers_def t_srem_def split: option.split tvalue.split if_splits)

lemma rt_step_key:
  assumes "rt_step S S'" "token_format t" "t \<in> rt_issued S"
  shows "t \<in> rt_issued S' \<and> (tk_kv (rt_redis S') (refreshTokenPrefix @ t) = tk_kv (rt_redis S) (refreshTokenPrefix @ t)
    \<or> tk_kv (rt_redis S') (refreshTokenPrefix @ t) = None)"
  using assms(1)
proof (cases rule: rt_step.cases)
  case (issues bs u)
  then have "t \<noteq> hex bs" using assms(3) by auto
  then show ?thesis using assms(3) unfolding issues(1) generate_redis
    by (auto intro!: key_exec simp: multi_state command_frames simp del: multi.simps)
next
  case (consumes t' res rd)
  have rd: "rd = snd (ConsumeRefreshToken t' (rt_redis S))" by (simp add: consumes(2))
  have "tk_kv rd (refreshTokenPrefix @ t) = tk_kv (rt_redis S) (refreshTokenPrefix @ t) \<or> tk_kv rd (refreshTokenPrefix @ t) = None"
    unfolding rd consume_redis by (rule key_exec) (use script_keys(1) [OF assms(2)] in simp)
  then show ?thesis using assms(3) by (simp add: consumes(1))
next
  case (others n s)
  have "token_key (refreshTokenPrefix @ t)" by (simp add: token_key_def refreshTokenPrefix_def str_def)
  then show ?thesis using assms(3) by (simp add: others)
qed (use assms(3) script_keys(2-4) in \<open>simp_all add: op_redis key_exec\<close>)

lemma rt_steps_key:
  assumes "rt_step\<^sup>*\<^sup>* S S'" "token_format t" "t \<in> rt_issued S"
  shows "t \<in> rt_issued S' \<and> (tk_kv (rt_redis S') (refreshTokenPrefix @ t) = tk_kv (rt_redis S) (refreshTokenPrefix @ t)
    \<or> tk_kv (rt_redis S') (refreshTokenPrefix @ t) = None)"
  using assms
proof (induction rule: rtranclp_induct)
  case (step S1 S2)
  then show ?case using rt_step_key [OF step.hyps(2) assms(2)] by auto
qed simp

lemma revoke_all_unbound:
  assumes "rt_inv S" "RevokeAllForUser u (rt_redis S) = (Inr (), rd)" "token_format t"
  shows "tk_kv rd (refreshTokenPrefix @ t) \<noteq> Some (TStr u, x)"
proof
  let ?s = "alive (tk_now (rt_redis S)) (tk_kv (rt_redis S))"
  assume a: "tk_kv rd (refreshTokenPrefix @ t) = Some (TStr u, x)"
  obtain n where "tk_exec (revokeAllForUserScript (userTokensSetPrefix @ u) refreshTokenPrefix) (rt_redis S) = (Inr n, rd)"
    using assms(2) by (auto simp: RevokeAllForUser_def Let_def split: prod.splits) (metis (full_types) Inl_Inr_False map_sum.simps(1) sumE)
  then have kv: "tk_kv rd = snd (revokeAllForUserScript (userTokensSetPrefix @ u) refreshTokenPrefix (tk_now (rt_redis S)) ?s)"
    using tk_exec_runs by (metis snd_conv)
  have inv: "space_inv (rt_issued S) (fst ` set (rt_accepted S)) (tk_now (rt_redis S)) ?s"
    using assms(1) space_alive by (simp add: rt_inv_def)
  note e = revoke_all_effect(3) [OF space_set [OF inv, of u], of t, folded kv]
  have "?s (refreshTokenPrefix @ t) = Some (TStr u, x)" "\<nexists>y. listed ?s t u y" using a e by (auto split: if_splits)
  moreover have "stored_ok (rt_issued S) ?s t" using inv assms(3) by (simp add: space_inv_def)
  ultimately show False by (auto simp: stored_ok_def)
qed

text \<open>C29: When all tokens of a user were revoked, no token issued before is ever accepted for the user again, whatever happens
  afterwards.\<close>

theorem revoke_all_complete:
  assumes "rt_init S0" "rt_step\<^sup>*\<^sup>* S0 S" "RevokeAllForUser u (rt_redis S) = (Inr (), rd)"
    and "rt_step\<^sup>*\<^sup>* (S\<lparr>rt_redis := rd\<rparr>) S'" "token_format t" "t \<in> rt_issued S"
    and "ConsumeRefreshToken t (rt_redis S') = (Inr r, rd')" "cr_UserID r = u"
  shows "cr_Reused r"
proof (rule ccontr)
  assume n: "\<not> cr_Reused r"
  note inv = tokens.reachable_inv [OF assms(2,1)]
  have S1: "rt_step S (S\<lparr>rt_redis := rd\<rparr>)" using revokes_all [of S u] by (simp add: assms(3))
  have i: "t \<in> rt_issued (S\<lparr>rt_redis := rd\<rparr>)" using assms(6) by simp
  have "rt_step\<^sup>*\<^sup>* S0 S'" using assms(2,4) S1 by (meson converse_rtranclp_into_rtranclp rtranclp_trans)
  then have inv': "rt_inv S'" using assms(1) by (rule tokens.reachable_inv)
  obtain v e where a: "tk_kv (rt_redis S') (refreshTokenPrefix @ t) = Some (v, e)" "\<And>u'. v = TStr u' \<Longrightarrow> u' = u"
    using consume_accepts(3) [OF assms(7) n] assms(8) by (auto simp: alive_simps)
  moreover have "stored_ok (rt_issued S') (tk_kv (rt_redis S')) t" using inv' assms(5) by (simp add: rt_inv_def space_inv_def)
  ultimately have "v = TStr u" by (auto simp: stored_ok_def)
  then have "tk_kv rd (refreshTokenPrefix @ t) = Some (TStr u, e)" using rt_steps_key [OF assms(4,5) i] a(1) by auto
  then show False using revoke_all_unbound [OF inv assms(3,5)] by blast
qed

section \<open>The markers of used tokens\<close>

text \<open>C31: The marker of a used token is itself a token key: whoever presents the used token with \<^verbatim>\<open>reuse:\<close> in front of it is accepted as
  the user, and not as a reuse, as long as the marker lives.\<close>

theorem reuse_marker_redeemable:
  assumes "ConsumeRefreshToken t rd = (Inr r, rd')" "\<not> cr_Reused r"
    and "tk_attempts rd' (tk_pos rd') = Runs" "tk_now rd' < tk_now rd + refreshTokenExpiry"
  shows "fst (ConsumeRefreshToken (str ''reuse:'' @ t) rd') = Inr r"
proof -
  have k: "refreshTokenPrefix @ str ''reuse:'' @ t = refreshTokenReusePrefix @ t"
    by (simp add: refreshTokenPrefix_def refreshTokenReusePrefix_def str_def)
  note a = consume_accepts [OF assms(1,2)]
  have "alive (tk_now rd') (tk_kv rd') (refreshTokenReusePrefix @ t) = Some (TStr (cr_UserID r), Some (tk_now rd + refreshTokenExpiry))"
    using a(2) assms(4) by (simp add: alive_simps)
  then show ?thesis using assms(2,3) a(4) unfolding ConsumeRefreshToken_def k
    by (simp add: tk_exec_def consumeRefreshTokenScript_def t_bind_def t_get_def t_del_def t_set_def t_return_def Let_def)
qed

section \<open>Instances\<close>

definition demo_rt :: rt_system where
  "demo_rt = \<lparr>rt_redis = demo_tokens, rt_issued = {}, rt_accepted = []\<rparr>"

lemma demo_rt_init: "rt_init demo_rt"
  by (simp add: rt_init_def demo_rt_def demo_tokens_def mono_def)

text \<open>A token is issued, accepted, presented again, and all tokens of its user are revoked.\<close>

definition demo_issued :: token_redis where "demo_issued = snd (Generate (Some [7, 255]) [65] demo_tokens)"
definition demo_used :: token_redis where "demo_used = snd (ConsumeRefreshToken (hex [7, 255]) demo_issued)"

lemma demo_outcomes:
  "fst (Generate (Some [7, 255]) [65] demo_tokens) = Inr (str ''07ff'')"
  "fst (ConsumeRefreshToken (hex [7, 255]) demo_issued) = Inr \<lparr>cr_UserID = [65], cr_Reused = False\<rparr>"
  "fst (ConsumeRefreshToken (hex [7, 255]) demo_used) = Inr \<lparr>cr_UserID = [65], cr_Reused = True\<rparr>"
  "fst (RevokeAllForUser [65] demo_used) = Inr ()"
  "fst (ConsumeRefreshToken (hex [7, 255]) (snd (RevokeAllForUser [65] demo_used))) = Inr \<lparr>cr_UserID = [65], cr_Reused = True\<rparr>"
  by code_simp+

lemma demo_steps: "rt_step\<^sup>*\<^sup>* demo_rt \<lparr>rt_redis = demo_used, rt_issued = {hex [7, 255]}, rt_accepted = [(hex [7, 255], [65])]\<rparr>"
proof -
  have "rt_step demo_rt \<lparr>rt_redis = demo_issued, rt_issued = {hex [7, 255]}, rt_accepted = []\<rparr>" (is "rt_step _ ?S")
    using issues [of "[7, 255]" demo_rt "[65]"] by (simp add: demo_rt_def demo_issued_def)
  moreover have "ConsumeRefreshToken (hex [7, 255]) demo_issued = (Inr \<lparr>cr_UserID = [65], cr_Reused = False\<rparr>, demo_used)"
    using demo_outcomes(2) by (simp add: demo_used_def prod_eq_iff)
  then have "rt_step ?S \<lparr>rt_redis = demo_used, rt_issued = {hex [7, 255]}, rt_accepted = [(hex [7, 255], [65])]\<rparr>"
    using consumes [of "hex [7, 255]" ?S] by simp
  ultimately show ?thesis by (meson converse_rtranclp_into_rtranclp r_into_rtranclp)
qed

theorem refresh_token_single_use_witness:
  "rt_init demo_rt \<and> distinct (filter token_format [hex [7, 255]]) \<and> filter token_format [hex [7, 255]] \<noteq> []"
  using refresh_token_single_use [OF demo_rt_init demo_steps] demo_rt_init by (simp add: hex_format)

theorem revoke_all_complete_witness:
  "cr_Reused \<lparr>cr_UserID = [65], cr_Reused = True\<rparr>
    \<and> fst (ConsumeRefreshToken (hex [7, 255]) (snd (RevokeAllForUser [65] demo_used))) = Inr \<lparr>cr_UserID = [65], cr_Reused = True\<rparr>"
proof -
  let ?S = "\<lparr>rt_redis = demo_used, rt_issued = {hex [7, 255]}, rt_accepted = [(hex [7, 255], [65])]\<rparr>"
  let ?rd = "snd (RevokeAllForUser [65] demo_used)"
  have "RevokeAllForUser [65] (rt_redis ?S) = (Inr (), ?rd)" using demo_outcomes(4) by (simp add: prod_eq_iff)
  moreover have "ConsumeRefreshToken (hex [7, 255]) (rt_redis (?S\<lparr>rt_redis := ?rd\<rparr>))
      = (Inr \<lparr>cr_UserID = [65], cr_Reused = True\<rparr>, snd (ConsumeRefreshToken (hex [7, 255]) ?rd))"
    using demo_outcomes(5) by (simp add: prod_eq_iff)
  ultimately show ?thesis
    using revoke_all_complete [OF demo_rt_init demo_steps _ rtranclp.rtrancl_refl hex_format] demo_outcomes(5) by simp
qed

theorem reuse_marker_redeemable_witness:
  "fst (ConsumeRefreshToken (str ''reuse:'' @ hex [7, 255]) demo_used) = Inr \<lparr>cr_UserID = [65], cr_Reused = False\<rparr>"
proof (rule reuse_marker_redeemable)
  show "ConsumeRefreshToken (hex [7, 255]) demo_issued = (Inr \<lparr>cr_UserID = [65], cr_Reused = False\<rparr>, demo_used)"
    using demo_outcomes(2) by (simp add: demo_used_def prod_eq_iff)
  show "tk_attempts demo_used (tk_pos demo_used) = Runs" by (simp add: demo_used_def demo_issued_def op_redis demo_tokens_def)
  show "tk_now demo_used < tk_now demo_issued + refreshTokenExpiry"
    by (simp add: tk_now_def refreshTokenExpiry_def demo_used_def demo_issued_def op_redis demo_tokens_def del: multi.simps)
qed simp

end
