(* ===== verification/Crypto_Storage.thy ===== *)
theory Crypto_Storage
  imports Refresh_Tokens
begin

text \<open>
  Encryption of stored fields (\<^verbatim>\<open>crypto/aes.go\<close>). The ciphers of the standard library are parameters: \<open>c_seal\<close> and \<open>c_open\<close>
  stand for AES-GCM under a key and a nonce, \<open>c_sha256\<close> for SHA-256, and \<open>c_lower\<close> for the case table of Unicode beyond
  ASCII. All that is used of them is that opening undoes sealing (\<open>cipher_ok\<close>).
\<close>

section \<open>Keys\<close>

record cipher =
  c_seal :: "byte list \<Rightarrow> byte list \<Rightarrow> byte list \<Rightarrow> byte list"
  c_open :: "byte list \<Rightarrow> byte list \<Rightarrow> byte list \<Rightarrow> byte list option"
  c_sha256 :: "byte list \<Rightarrow> byte list"
  c_lower :: "nat \<Rightarrow> nat"

definition cipher_ok :: "cipher \<Rightarrow> bool" where
  "cipher_ok cp \<longleftrightarrow> (\<forall>k n p. c_open cp k n (c_seal cp k n p) = Some p)"

datatype crypto_error = NotHex | KeyLength nat | KeyMissing | KeyUnset | CipherFailed | NonceFailed | TooShort | NotAuthentic

text \<open>\<^verbatim>\<open>hex.DecodeString\<close>\<close>

definition from_hex :: "byte \<Rightarrow> nat option" where
  "from_hex b =
     (let n = unat b
      in if 48 \<le> n \<and> n \<le> 57 then Some (n - 48) else if 97 \<le> n \<and> n \<le> 102 then Some (n - 87)
         else if 65 \<le> n \<and> n \<le> 70 then Some (n - 55) else None)"

fun DecodeString :: "gostring \<Rightarrow> byte list option" where
  "DecodeString [] = Some []"
| "DecodeString [x] = None"
| "DecodeString (x # y # s) = (case (from_hex x, from_hex y, DecodeString s) of
       (Some a, Some b, Some bs) \<Rightarrow> Some (of_nat (16 * a + b) # bs) | _ \<Rightarrow> None)"

type_synonym enc_key = "byte list option"

definition Init :: "gostring \<Rightarrow> enc_key \<Rightarrow> (crypto_error + unit) \<times> enc_key" where
  "Init encryptionKey encKey = (case DecodeString encryptionKey of
       None \<Rightarrow> (Inl NotHex, encKey)
     | Some key \<Rightarrow> if length key \<noteq> 32 then (Inl (KeyLength (length key)), encKey) else (Inr (), Some key))"

definition InitFromEnv :: "(gostring \<Rightarrow> gostring) \<Rightarrow> enc_key \<Rightarrow> (crypto_error + unit) \<times> enc_key" where
  "InitFromEnv getenv encKey =
     (let keyHex = getenv (str ''ENCRYPTION_KEY'') in if keyHex = [] then (Inl KeyMissing, encKey) else Init keyHex encKey)"

text \<open>\<^verbatim>\<open>aes.NewCipher\<close> accepts keys of 16, 24 and 32 bytes.\<close>

definition newGCM :: "enc_key \<Rightarrow> crypto_error + byte list" where
  "newGCM encKey = (case encKey of
       None \<Rightarrow> Inl KeyUnset
     | Some key \<Rightarrow> if length key \<in> {16, 24, 32} then Inr key else Inl CipherFailed)"

section \<open>Encryption\<close>

definition NonceSize :: nat where "NonceSize = 12"
definition versionPrefix :: gostring where "versionPrefix = str ''v1:''"

definition Encrypt :: "cipher \<Rightarrow> enc_key \<Rightarrow> byte list option \<Rightarrow> gostring \<Rightarrow> crypto_error + gostring" where
  "Encrypt cp encKey rand plaintext = (case newGCM encKey of
       Inl e \<Rightarrow> Inl e
     | Inr key \<Rightarrow> (case rand of
           None \<Rightarrow> Inl NonceFailed
         | Some nonce \<Rightarrow> Inr (versionPrefix @ hex (nonce @ c_seal cp key nonce plaintext))))"

definition TrimPrefix :: "gostring \<Rightarrow> gostring \<Rightarrow> gostring" where
  "TrimPrefix s p = (if take (length p) s = p then drop (length p) s else s)"

definition Decrypt :: "cipher \<Rightarrow> enc_key \<Rightarrow> gostring \<Rightarrow> crypto_error + gostring" where
  "Decrypt cp encKey encoded = (case DecodeString (TrimPrefix encoded versionPrefix) of
       None \<Rightarrow> Inl NotHex
     | Some ciphertext \<Rightarrow> (case newGCM encKey of
           Inl e \<Rightarrow> Inl e
         | Inr key \<Rightarrow>
             if length ciphertext < NonceSize then Inl TooShort
             else (case c_open cp key (take NonceSize ciphertext) (drop NonceSize ciphertext) of
                     None \<Rightarrow> Inl NotAuthentic | Some plaintext \<Rightarrow> Inr plaintext)))"

text \<open>\<^verbatim>\<open>strings.ToLower\<close>\<close>

definition rune_lower :: "cipher \<Rightarrow> nat \<Rightarrow> nat" where
  "rune_lower cp r = (if r < 128 then if 65 \<le> r \<and> r \<le> 90 then r + 32 else r else c_lower cp r)"

definition ToLower :: "cipher \<Rightarrow> gostring \<Rightarrow> gostring" where
  "ToLower cp s = string_of_runes (map (rune_lower cp) (runes s))"

definition EmailHMAC :: "cipher \<Rightarrow> gostring \<Rightarrow> gostring" where
  "EmailHMAC cp email = hex (c_sha256 cp (ToLower cp (TrimSpace email)))"

definition EncryptPIIForStorage :: "cipher \<Rightarrow> enc_key \<Rightarrow> byte list option \<Rightarrow> gostring \<Rightarrow> crypto_error + gostring" where
  "EncryptPIIForStorage cp encKey rand plaintext = (if encKey = None then Inr plaintext else Encrypt cp encKey rand plaintext)"

definition DecryptEmailFromStorage :: "cipher \<Rightarrow> enc_key \<Rightarrow> gostring \<Rightarrow> crypto_error + gostring" where
  "DecryptEmailFromStorage cp encKey stored =
     (if stored = [] \<or> take 3 stored \<noteq> versionPrefix then Inr stored else Decrypt cp encKey stored)"

section \<open>Round trips\<close>

lemma from_hex_digit: "n < 16 \<Longrightarrow> from_hex (hex_digit n) = Some n"
  by (auto simp: from_hex_def hex_digit_def Let_def unat_of_nat_byte simp del: of_nat_add)

lemma DecodeString_hex [simp]: "DecodeString (hex bs) = Some bs"
proof (induction bs)
  case (Cons b bs)
  have "unat b div 16 < 16" "unat b mod 16 < 16" using unsigned_less [of b, where 'a = nat] by (auto simp: less_mult_imp_div_less)
  moreover have "(of_nat (16 * (unat b div 16) + unat b mod 16) :: byte) = b" by (simp del: of_nat_add of_nat_mult)
  ultimately show ?case using Cons by (simp add: hex_def from_hex_digit del: of_nat_add of_nat_mult)
qed (simp add: hex_def)

lemma TrimPrefix_append [simp]: "TrimPrefix (p @ s) p = s"
  by (simp add: TrimPrefix_def)

lemma versionPrefix_length [simp]: "length versionPrefix = 3" "versionPrefix \<noteq> []"
  by (simp_all add: versionPrefix_def str_def)

text \<open>C38: A key that \<^verbatim>\<open>Init\<close> accepted decrypts what was encrypted under it, whatever the text and the nonce.\<close>

theorem decrypt_encrypt:
  assumes "cipher_ok cp" "Init keyHex old = (Inr (), encKey)" "length nonce = NonceSize"
  shows "\<exists>c. Encrypt cp encKey (Some nonce) plaintext = Inr c \<and> Decrypt cp encKey c = Inr plaintext
    \<and> DecryptEmailFromStorage cp encKey c = Inr plaintext"
proof -
  obtain key where key: "encKey = Some key" "length key = 32" using assms(2)
    by (auto simp: Init_def split: option.splits if_splits) metis
  let ?c = "versionPrefix @ hex (nonce @ c_seal cp key nonce plaintext)"
  have "Encrypt cp encKey (Some nonce) plaintext = Inr ?c" by (simp add: Encrypt_def newGCM_def key)
  moreover have "Decrypt cp encKey ?c = Inr plaintext"
    using assms(1,3) by (simp add: Decrypt_def newGCM_def key cipher_ok_def)
  ultimately show ?thesis by (intro exI [of _ ?c]) (simp add: DecryptEmailFromStorage_def)
qed

lemma stored_email_roundtrip:
  assumes "cipher_ok cp" "EncryptPIIForStorage cp (Some key) rand email = Inr c" "\<And>n. rand = Some n \<Longrightarrow> length n = NonceSize"
  shows "DecryptEmailFromStorage cp (Some key) c = Inr email"
proof -
  obtain nonce where n: "rand = Some nonce" "length key \<in> {16, 24, 32}" "c = versionPrefix @ hex (nonce @ c_seal cp key nonce email)"
    using assms(2) by (auto simp: EncryptPIIForStorage_def Encrypt_def newGCM_def split: option.splits if_splits)
  show ?thesis using n assms(1) assms(3) [OF n(1)]
    by (auto simp: DecryptEmailFromStorage_def Decrypt_def newGCM_def cipher_ok_def)
qed

text \<open>A cipher for instances.\<close>

definition demo_cipher :: cipher where
  "demo_cipher = \<lparr>c_seal = (\<lambda>k n p. map (\<lambda>b. b + 1) p), c_open = (\<lambda>k n c. Some (map (\<lambda>b. b - 1) c)), c_sha256 = id, c_lower = id\<rparr>"

lemma demo_cipher_ok: "cipher_ok demo_cipher"
  by (simp add: cipher_ok_def demo_cipher_def comp_def)

theorem decrypt_encrypt_witness:
  "\<exists>c. Encrypt demo_cipher (Some (replicate 32 0xab)) (Some (replicate 12 7)) (str ''secret'') = Inr c
     \<and> Decrypt demo_cipher (Some (replicate 32 0xab)) c = Inr (str ''secret'')
     \<and> DecryptEmailFromStorage demo_cipher (Some (replicate 32 0xab)) c = Inr (str ''secret'')"
proof (rule decrypt_encrypt [OF demo_cipher_ok])
  show "Init (hex (replicate 32 0xab)) None = (Inr (), Some (replicate 32 0xab))" by (simp add: Init_def)
qed (simp add: NonceSize_def)

end
