(* ===== verification/User_Repository.thy ===== *)
theory User_Repository
  imports Crypto_Storage
begin

text \<open>
  The repositories of users and of the configuration (\<^verbatim>\<open>store/user_repository.go\<close>, \<^verbatim>\<open>store/config_repository.go\<close>), over the tables,
  attempts and retries of \<open>Game_Repository\<close>.

  \<^item> The environment of a call is its database, the cipher with the key in use (\<open>storage\<close>), and the nonces that the random
    source delivers. A query without an order returns rows in the order of the table.
  \<^item> A function that runs several statements, or collects rows, under one retry is a \<open>prog\<close>: each statement has an attempt
    of its own, and what an attempt left behind is there when the next one starts.
  \<^item> JSON text of the configuration is represented by what it denotes (\<open>config_json\<close>); names of fields that differ from
    the ones of the program only in case do not occur. Audit records are not modelled. Days are days of UTC.
\<close>

section \<open>Users\<close>

record user =
  usr_ID :: gostring
  usr_Email :: gostring
  usr_Nickname :: gostring
  usr_Palette :: int
  usr_CreatedAt :: int
  usr_LastLogin :: "int option"

record storage =
  st_cipher :: cipher
  st_key :: enc_key

datatype user_error = ErrCrypto crypto_error | ErrDomain domain_error | ErrStorage db_error

definition prepareEmailForStorage :: "storage \<Rightarrow> byte list option \<Rightarrow> gostring \<Rightarrow> crypto_error + gostring \<times> gostring" where
  "prepareEmailForStorage st rand email = (case EncryptPIIForStorage (st_cipher st) (st_key st) rand email of
       Inl e \<Rightarrow> Inl e | Inr stored \<Rightarrow> Inr (EmailHMAC (st_cipher st) email, stored))"

definition emailFromStorage :: "storage \<Rightarrow> gostring \<Rightarrow> crypto_error + gostring" where
  "emailFromStorage st stored = DecryptEmailFromStorage (st_cipher st) (st_key st) stored"

text \<open>The transaction of \<^verbatim>\<open>CreateUser\<close>: the primary key and the unique index on \<^verbatim>\<open>email_hash\<close> refuse a row.\<close>

definition insert_user :: "user_row \<Rightarrow> outbox_row \<Rightarrow> unit stmt" where
  "insert_user r ox t =
     (if list_ex (\<lambda>x. u_ID x = u_ID r \<or> u_EmailHash x \<noteq> None \<and> u_EmailHash x = u_EmailHash r) (users t) then (Inl Duplicate, t)
      else (Inr (), t\<lparr>users := users t @ [r], outbox_events := outbox_events t @ [ox]\<rparr>))"

definition new_user_row :: "user \<Rightarrow> gostring \<Rightarrow> gostring \<Rightarrow> user_row" where
  "new_user_row u stored hash =
     \<lparr>u_ID = usr_ID u, u_Email = stored, u_EmailHash = Some hash, u_Nickname = usr_Nickname u, u_Palette = usr_Palette u,
      u_CreatedAt = usr_CreatedAt u, u_LastLogin = usr_LastLogin u, u_DeletedAt = None, u_EmailAnonymized = False\<rparr>"

text \<open>The transaction runs under the circuit breaker, without retries.\<close>

definition CreateUser :: "storage \<Rightarrow> (nat \<Rightarrow> byte list option) \<Rightarrow> user \<Rightarrow> database \<Rightarrow> (user_error + unit) \<times> database" where
  "CreateUser st nonce u d = (case prepareEmailForStorage st (nonce 0) (usr_Email u) of
       Inl e \<Rightarrow> (Inl (ErrCrypto e), d)
     | Inr (hash, stored) \<Rightarrow> (case EncryptPIIForStorage (st_cipher st) (st_key st) (nonce 1) (usr_Email u) of
           Inl e \<Rightarrow> (Inl (ErrCrypto e), d)
         | Inr outboxEmail \<Rightarrow> (case EncryptPIIForStorage (st_cipher st) (st_key st) (nonce 2) (usr_Nickname u) of
               Inl e \<Rightarrow> (Inl (ErrCrypto e), d)
             | Inr outboxNickname \<Rightarrow>
                 (case retry_loop 0 (insert_user (new_user_row u stored hash)
                         \<lparr>ox_AggregateType = str ''user'', ox_AggregateID = usr_ID u,
                          ox_Payload = UserCreated (usr_ID u) outboxEmail outboxNickname (usr_CreatedAt u), ox_ProcessedAt = None\<rparr>) d of
                    (Inl Duplicate, d) \<Rightarrow> (Inl (ErrDomain ErrDuplicateUser), d)
                  | (Inl e, d) \<Rightarrow> (Inl (ErrStorage e), d)
                  | (Inr _, d) \<Rightarrow> (Inr (), d)))))"

definition scan_user :: "storage \<Rightarrow> user_row \<Rightarrow> user_error + user" where
  "scan_user st r = (case emailFromStorage st (u_Email r) of
       Inl e \<Rightarrow> Inl (ErrCrypto e)
     | Inr plain \<Rightarrow> Inr \<lparr>usr_ID = u_ID r, usr_Email = plain, usr_Nickname = u_Nickname r, usr_Palette = u_Palette r,
                           usr_CreatedAt = u_CreatedAt r, usr_LastLogin = u_LastLogin r\<rparr>)"

definition select_user :: "(user_row \<Rightarrow> bool) \<Rightarrow> user_row option stmt" where
  "select_user P t = (Inr (find (\<lambda>r. P r \<and> u_DeletedAt r = None) (users t)), t)"

definition query_user :: "storage \<Rightarrow> (user_row \<Rightarrow> bool) \<Rightarrow> database \<Rightarrow> (user_error + user option) \<times> database" where
  "query_user st P d = (case withRetry (select_user P) d of
       (Inl e, d) \<Rightarrow> (Inl (ErrStorage e), d)
     | (Inr None, d) \<Rightarrow> (Inr None, d)
     | (Inr (Some r), d) \<Rightarrow> (case scan_user st r of Inl e \<Rightarrow> (Inl e, d) | Inr u \<Rightarrow> (Inr (Some u), d)))"

definition by_email :: "storage \<Rightarrow> gostring \<Rightarrow> user_row \<Rightarrow> bool" where
  "by_email st email r \<longleftrightarrow> u_EmailHash r = Some (EmailHMAC (st_cipher st) email) \<or> u_EmailHash r = None \<and> u_Email r = email"

definition GetUserByEmail :: "storage \<Rightarrow> gostring \<Rightarrow> database \<Rightarrow> (user_error + user option) \<times> database" where
  "GetUserByEmail st email d = query_user st (by_email st email) d"

definition GetUserByID :: "storage \<Rightarrow> gostring \<Rightarrow> database \<Rightarrow> (user_error + user option) \<times> database" where
  "GetUserByID st userID d = query_user st (\<lambda>r. u_ID r = userID) d"

text \<open>\<open>now\<close> is the time of the database in milliseconds.\<close>

definition update_user :: "gostring \<Rightarrow> (user_row \<Rightarrow> user_row) \<Rightarrow> unit stmt" where
  "update_user userID g t = (Inr (), t\<lparr>users := map (\<lambda>r. if u_ID r = userID then g r else r) (users t)\<rparr>)"

definition UpdateUserLastLogin :: "int \<Rightarrow> gostring \<Rightarrow> database \<Rightarrow> (db_error + unit) \<times> database" where
  "UpdateUserLastLogin now userID d = withRetry (update_user userID (\<lambda>r. r\<lparr>u_LastLogin := Some now\<rparr>)) d"

section \<open>Programs under a retry\<close>

type_synonym ('s, 'a) prog = "'s \<Rightarrow> ((db_error \<times> bool) + 'a) \<times> 's"

fun retry_prog :: "nat \<Rightarrow> ('s, 'a) prog \<Rightarrow> 's \<Rightarrow> (db_error + 'a) \<times> 's" where
  "retry_prog n p s = (case p s of
       (Inr a, s) \<Rightarrow> (Inr a, s)
     | (Inl (e, transient), s) \<Rightarrow> if transient \<and> n > 0 then retry_prog (n - 1) p s else (Inl e, s))"

declare retry_prog.simps [simp del]

definition once :: "'a stmt \<Rightarrow> (database, 'a) prog" where
  "once f d = (case db_attempts d (db_pos d) of
       Runs \<Rightarrow> let (res, t) = f (db d) in (map_sum (\<lambda>e. (e, False)) id res, (db_tick d)\<lparr>db := t\<rparr>)
     | Fails transient \<Rightarrow> (Inl (Unavailable, transient), db_tick d)
     | Lost transient \<Rightarrow> (Inl (Unavailable, transient), (db_tick d)\<lparr>db := snd (f (db d))\<rparr>))"

definition andThen :: "('s, 'a) prog \<Rightarrow> ('s, 'b) prog \<Rightarrow> ('s, 'b) prog" where
  "andThen p q s = (case p s of (Inl e, s) \<Rightarrow> (Inl e, s) | (Inr _, s) \<Rightarrow> q s)"

definition anonEmail :: "gostring \<Rightarrow> gostring" where
  "anonEmail userID = str ''deleted_'' @ userID @ str ''@anonymized''"

definition anonymize_row :: "gostring \<Rightarrow> gostring \<Rightarrow> int \<Rightarrow> user_row \<Rightarrow> user_row" where
  "anonymize_row stored hash now r = r\<lparr>u_Email := stored, u_EmailHash := Some hash, u_Nickname := str ''Deleted User'',
     u_DeletedAt := Some now, u_EmailAnonymized := True\<rparr>"

text \<open>The unique index applies to the hash of the placeholder too.\<close>

definition anonymize_users :: "gostring \<Rightarrow> gostring \<Rightarrow> gostring \<Rightarrow> int \<Rightarrow> unit stmt" where
  "anonymize_users userID stored hash now t =
     (if list_ex (\<lambda>x. u_ID x = userID) (users t) \<and> list_ex (\<lambda>x. u_ID x \<noteq> userID \<and> u_EmailHash x = Some hash) (users t) then (Inl Violation, t)
      else update_user userID (anonymize_row stored hash now) t)"

definition anonymize_outbox :: "gostring \<Rightarrow> unit stmt" where
  "anonymize_outbox userID t = (Inr (), t\<lparr>outbox_events := map (\<lambda>x.
     if ox_AggregateType x = str ''user'' \<and> ox_AggregateID x = userID \<and> ox_ProcessedAt x = None
     then x\<lparr>ox_Payload := AnonymizedPayload\<rparr> else x) (outbox_events t)\<rparr>)"

text \<open>\<open>now\<close> in seconds.\<close>

definition AnonymizeUser :: "storage \<Rightarrow> byte list option \<Rightarrow> int \<Rightarrow> gostring \<Rightarrow> database \<Rightarrow> (user_error + unit) \<times> database" where
  "AnonymizeUser st rand now userID d =
     (let hash = EmailHMAC (st_cipher st) (anonEmail userID)
      in case EncryptPIIForStorage (st_cipher st) (st_key st) rand (anonEmail userID) of
           Inl e \<Rightarrow> (Inl (ErrCrypto e), d)
         | Inr stored \<Rightarrow>
             (case retry_prog (db_budget d (db_pos d)) (andThen (once (anonymize_users userID stored hash now)) (once (anonymize_outbox userID))) d of
                (Inl e, d) \<Rightarrow> (Inl (ErrStorage e), d)
              | (Inr _, d) \<Rightarrow> (Inr (), d)))"

text \<open>The delete cascades from users to their sessions and results, and from sessions to results.\<close>

definition past_cutoff :: "int \<Rightarrow> user_row \<Rightarrow> bool" where
  "past_cutoff cutoff r \<longleftrightarrow> (case u_DeletedAt r of None \<Rightarrow> False | Some w \<Rightarrow> w < cutoff)"

definition delete_expired :: "int \<Rightarrow> int stmt" where
  "delete_expired cutoff t =
     (let gone = u_ID ` set (filter (past_cutoff cutoff) (users t));
          sessions = filter (\<lambda>gs. case gs_CreatedBy gs of None \<Rightarrow> True | Some u \<Rightarrow> u \<notin> gone) (game_sessions t);
          dropped = gs_ID ` set (filter (\<lambda>gs. case gs_CreatedBy gs of None \<Rightarrow> False | Some u \<Rightarrow> u \<in> gone) (game_sessions t))
      in (Inr (int (length (filter (past_cutoff cutoff) (users t)))),
          t\<lparr>users := filter (\<lambda>r. \<not> past_cutoff cutoff r) (users t), game_sessions := sessions,
            game_results := filter (\<lambda>r. res_UserID r \<notin> gone \<and> res_SessionID r \<notin> dropped) (game_results t)\<rparr>))"

definition HardDeleteExpiredUsers :: "int \<Rightarrow> int \<Rightarrow> database \<Rightarrow> (db_error + int) \<times> database" where
  "HardDeleteExpiredUsers now retentionDays d =
     (let retentionDays = (if retentionDays \<le> 0 then 30 else retentionDays); cutoff = now - retentionDays * 86400
      in withRetry (delete_expired cutoff) d)"

section \<open>Rows that are collected\<close>

text \<open>The slice that collects the rows outlives an attempt: \<open>seen\<close> says how many rows arrive before an answer is lost.\<close>

definition collect_rows :: "(nat \<Rightarrow> nat) \<Rightarrow> (tables \<Rightarrow> 'r list) \<Rightarrow> (database \<times> 'r list, unit) prog" where
  "collect_rows seen q = (\<lambda>(d, rows). case db_attempts d (db_pos d) of
       Runs \<Rightarrow> (Inr (), db_tick d, rows @ q (db d))
     | Fails transient \<Rightarrow> (Inl (Unavailable, transient), db_tick d, rows)
     | Lost transient \<Rightarrow> (Inl (Unavailable, transient), db_tick d, rows @ take (seen (db_pos d)) (q (db d))))"

definition query_rows :: "(nat \<Rightarrow> nat) \<Rightarrow> (tables \<Rightarrow> 'r list) \<Rightarrow> database \<Rightarrow> (db_error + 'r list) \<times> database" where
  "query_rows seen q d = (case retry_prog (db_budget d (db_pos d)) (collect_rows seen q) (d, []) of
       (Inl e, d, _) \<Rightarrow> (Inl e, d) | (Inr _, d, rows) \<Rightarrow> (Inr rows, d))"

definition results_of :: "gostring \<Rightarrow> tables \<Rightarrow> result_row list" where
  "results_of userID t = take 100 (sort_key (\<lambda>r. - res_CreatedAt r) (filter (\<lambda>r. res_UserID r = userID) (game_results t)))"

definition GetGameResultsByUserID :: "(nat \<Rightarrow> nat) \<Rightarrow> gostring \<Rightarrow> database \<Rightarrow> (db_error + result_row list) \<times> database" where
  "GetGameResultsByUserID seen userID d = query_rows seen (results_of userID) d"

definition sessions_of :: "gostring \<Rightarrow> tables \<Rightarrow> session_row list" where
  "sessions_of userID t = sort_key (\<lambda>gs. - (case gs_StartedAt gs of None \<Rightarrow> 0 | Some w \<Rightarrow> w))
     (filter (\<lambda>gs. gs_CreatedBy gs = Some userID) (game_sessions t))"

definition GetGameSessionsByUserID :: "(nat \<Rightarrow> nat) \<Rightarrow> gostring \<Rightarrow> database \<Rightarrow> (db_error + session_row list) \<times> database" where
  "GetGameSessionsByUserID seen userID d = query_rows seen (sessions_of userID) d"

section \<open>Configuration\<close>

record app_config =
  cfg_ID :: gostring
  cfg_Config :: config_json
  cfg_UpdatedAt :: int
  cfg_EmailEnabled :: bool
  cfg_EmailFrom :: gostring

text \<open>\<^verbatim>\<open>UnmarshalConfig\<close> into a struct: a field that is missing or null keeps its zero value, a value of another type is an error.\<close>

definition field_str :: "config_json \<Rightarrow> gostring \<Rightarrow> gostring option" where
  "field_str j k = (case j of
       NotObject \<Rightarrow> None
     | NullJSON \<Rightarrow> Some []
     | ConfigJSON al \<Rightarrow> (case map_of al k of
           None \<Rightarrow> Some [] | Some CNull \<Rightarrow> Some [] | Some (CStr s) \<Rightarrow> Some s | Some _ \<Rightarrow> None))"

definition field_bool :: "config_json \<Rightarrow> gostring \<Rightarrow> bool option" where
  "field_bool j k = (case j of
       NotObject \<Rightarrow> None
     | NullJSON \<Rightarrow> Some False
     | ConfigJSON al \<Rightarrow> (case map_of al k of
           None \<Rightarrow> Some False | Some CNull \<Rightarrow> Some False | Some (CBool b) \<Rightarrow> Some b | Some _ \<Rightarrow> None))"

definition select_config :: "gostring \<Rightarrow> config_row option stmt" where
  "select_config cfgID t = (Inr (find (\<lambda>r. ac_ID r = cfgID) (admin_config t)), t)"

definition scan_config :: "config_row \<Rightarrow> app_config" where
  "scan_config r =
     (let cfg = \<lparr>cfg_ID = ac_ID r, cfg_Config = ac_Config r, cfg_UpdatedAt = ac_UpdatedAt r, cfg_EmailEnabled = False, cfg_EmailFrom = []\<rparr>
      in case (field_bool (ac_Config r) (str ''email_enabled''), field_str (ac_Config r) (str ''email_from'')) of
           (Some b, Some f) \<Rightarrow> cfg\<lparr>cfg_EmailEnabled := b, cfg_EmailFrom := f\<rparr> | _ \<Rightarrow> cfg)"

definition GetConfig :: "gostring \<Rightarrow> database \<Rightarrow> (db_error + app_config option) \<times> database" where
  "GetConfig cfgID d = (case withRetry (select_config cfgID) d of
       (Inl e, d) \<Rightarrow> (Inl e, d) | (Inr r, d) \<Rightarrow> (Inr (map_option scan_config r), d))"

definition upsert_config :: "config_row \<Rightarrow> unit stmt" where
  "upsert_config c t =
     (if list_ex (\<lambda>r. ac_ID r = ac_ID c) (admin_config t)
      then (Inr (), t\<lparr>admin_config := map (\<lambda>r. if ac_ID r = ac_ID c
              then r\<lparr>ac_Config := ac_Config c, ac_UpdatedAt := ac_UpdatedAt c\<rparr> else r) (admin_config t)\<rparr>)
      else (Inr (), t\<lparr>admin_config := admin_config t @ [c]\<rparr>))"

definition SaveConfig :: "app_config \<Rightarrow> database \<Rightarrow> (db_error + unit) \<times> database" where
  "SaveConfig c d = withRetry (upsert_config \<lparr>ac_ID = cfg_ID c, ac_Config = cfg_Config c, ac_UpdatedAt = cfg_UpdatedAt c\<rparr>) d"

section \<open>Faults and retries\<close>

text \<open>Statements whose second execution leaves the tables alone, though it may report something else.\<close>

locale settled =
  fixes stmt :: "'a stmt"
  assumes settles: "snd (stmt (snd (stmt t))) = snd (stmt t)"
begin

lemma retry_loop_settled:
  "db (snd (retry_loop n stmt d)) = db d \<or> db (snd (retry_loop n stmt d)) = snd (stmt (db d))"
proof (induction n arbitrary: d)
  case (Suc n d)
  show ?case
    using Suc.IH [of "db_tick d"] Suc.IH [of "(db_tick d)\<lparr>db := snd (stmt (db d))\<rparr>"] settles
    by (cases "db_attempts d (db_pos d)") (auto simp: retry_loop.simps [of "Suc n"] db_tick_def Let_def split_def)
qed (auto simp: retry_loop.simps [of 0] db_tick_def Let_def split_def split: attempt.split)

lemma retry_loop_ran:
  "retry_loop n stmt d = (Inr a, d') \<Longrightarrow> db d' = snd (stmt (db d))"
proof (induction n arbitrary: d)
  case 0
  then show ?case by (auto simp: retry_loop.simps [of 0] Let_def split_def split: attempt.splits)
next
  case (Suc n d)
  show ?case
    using Suc.prems Suc.IH [of "db_tick d"] Suc.IH [of "(db_tick d)\<lparr>db := snd (stmt (db d))\<rparr>"] settles
    by (cases "db_attempts d (db_pos d)") (auto simp: retry_loop.simps [of "Suc n"] db_tick_def Let_def split_def split: if_splits)
qed

lemma withRetry_ran: "withRetry stmt d = (Inr a, d') \<Longrightarrow> db d' = snd (stmt (db d))"
  using retry_loop_ran by (simp add: withRetry_def)

end

interpretation deletion: settled "delete_expired c" for c
proof unfold_locales
  fix t show "snd (delete_expired c (snd (delete_expired c t))) = snd (delete_expired c t)"
  proof -
    let ?t = "snd (delete_expired c t)"
    have "filter (past_cutoff c) (users ?t) = []" by (simp add: delete_expired_def Let_def filter_empty_conv)
    moreover have "filter (\<lambda>r. \<not> past_cutoff c r) (users ?t) = users ?t" by (simp add: delete_expired_def Let_def)
    moreover have "case_option True (\<lambda>u. u \<notin> {}) x" "\<not> case_option False (\<lambda>u. u \<in> {}) x" for x :: "gostring option" by (auto split: option.split)
    ultimately show ?thesis by (simp add: delete_expired_def [of c ?t] Let_def)
  qed
qed

interpretation user_read: repeatable "select_user P" for P
  by unfold_locales (simp add: select_user_def)

interpretation config_read: repeatable "select_config c" for c
  by unfold_locales (simp add: select_config_def)

interpretation config_write: repeatable "upsert_config c" for c
proof unfold_locales
  fix t
  let ?P = "\<lambda>r. ac_ID r = ac_ID c" and ?f = "\<lambda>r. if ac_ID r = ac_ID c then r\<lparr>ac_Config := ac_Config c, ac_UpdatedAt := ac_UpdatedAt c\<rparr> else r"
  have p: "list_ex ?P (map ?f xs) = list_ex ?P xs" "map ?f (map ?f xs) = map ?f xs" for xs by (induction xs) auto
  have own: "map ?f (xs @ [c]) = xs @ [c]" if "\<not> list_ex ?P xs" for xs using that by (induction xs) auto
  show "upsert_config c (snd (upsert_config c t)) = upsert_config c t"
    using own [of "admin_config t"] by (cases "list_ex ?P (admin_config t)") (simp_all add: upsert_config_def p)
qed

lemma retry_prog_cases:
  assumes "retry_prog n p s = (res, s')" "P s" "\<And>s. P s \<Longrightarrow> P (snd (p s))"
  shows "P s'" "res = Inr a \<Longrightarrow> \<exists>s0. P s0 \<and> p s0 = (Inr a, s')"
proof -
  have "P s' \<and> (res = Inr a \<longrightarrow> (\<exists>s0. P s0 \<and> p s0 = (Inr a, s')))"
    using assms(1,2)
  proof (induction n arbitrary: s)
    case 0
    then show ?case using assms(3) [of s] by (auto simp: retry_prog.simps [of 0] split: prod.splits sum.splits)
  next
    case (Suc n s)
    show ?case using Suc.prems Suc.IH [of "snd (p s)"] assms(3) [of s]
      by (auto simp: retry_prog.simps [of "Suc n"] split: prod.splits sum.splits if_splits)
  qed
  then show "P s'" "res = Inr a \<Longrightarrow> \<exists>s0. P s0 \<and> p s0 = (Inr a, s')" by auto
qed

lemma once_state: "db (snd (once f d)) = db d \<or> db (snd (once f d)) = snd (f (db d))"
  by (auto simp: once_def db_tick_def Let_def split_def split: attempt.split)

lemma once_ran: "once f d = (Inr a, d') \<Longrightarrow> f (db d) = (Inr a, db d')"
  by (auto simp: once_def db_tick_def Let_def split_def prod_eq_iff split: attempt.splits sum.splits) (cases "fst (f (db d))"; simp)+

section \<open>Users that were created\<close>

lemma find_last: "P y \<Longrightarrow> (\<And>x. x \<in> set xs \<Longrightarrow> \<not> P x) \<Longrightarrow> find P (xs @ [y]) = Some y"
  by (induction xs) auto

lemma query_user_found:
  assumes "find (\<lambda>r. P r \<and> u_DeletedAt r = None) (users (db d)) = Some r" "scan_user st r = Inr u"
  shows "fst (query_user st P d) = Inr x \<Longrightarrow> x = Some u"
    "db_attempts d (db_pos d) = Runs \<Longrightarrow> fst (query_user st P d) = Inr (Some u)"
proof -
  obtain res d' where w: "withRetry (select_user P) d = (res, d')" by (cases "withRetry (select_user P) d")
  then show "fst (query_user st P d) = Inr x \<Longrightarrow> x = Some u"
    using user_read.withRetry_once [OF w] assms by (auto simp: query_user_def select_user_def split: sum.splits)
  show "db_attempts d (db_pos d) = Runs \<Longrightarrow> fst (query_user st P d) = Inr (Some u)"
    using assms by (simp add: query_user_def withRetry_def retry_loop.simps select_user_def)
qed

lemma query_user_missing:
  assumes "\<And>r. r \<in> set (users (db d)) \<Longrightarrow> P r \<Longrightarrow> u_DeletedAt r \<noteq> None" "fst (query_user st P d) = Inr x"
  shows "x = None"
proof -
  have f: "find (\<lambda>r. P r \<and> u_DeletedAt r = None) (users (db d)) = None" using assms(1) by (auto simp: find_None_iff)
  obtain res d' where w: "withRetry (select_user P) d = (res, d')" by (cases "withRetry (select_user P) d")
  then show ?thesis using user_read.withRetry_once [OF w] assms(2) f
    by (auto simp: query_user_def select_user_def split: sum.splits)
qed

lemma CreateUser_row:
  assumes "CreateUser st nonce u d = (Inr (), d')"
  shows "\<exists>hash stored ox. prepareEmailForStorage st (nonce 0) (usr_Email u) = Inr (hash, stored)
    \<and> insert_user (new_user_row u stored hash) ox (db d) = (Inr (), db d')"
  using assms
  by (auto simp: CreateUser_def retry_loop.simps db_tick_def Let_def split_def prod_eq_iff
      split: sum.splits prod.splits attempt.splits db_error.splits if_splits)

lemma scan_new_user:
  assumes "cipher_ok (st_cipher st)" "st_key st \<noteq> None" "\<And>n. rand = Some n \<Longrightarrow> length n = NonceSize"
    and "prepareEmailForStorage st rand (usr_Email u) = Inr (hash, stored)"
  shows "scan_user st (new_user_row u stored hash) = Inr u" "hash = EmailHMAC (st_cipher st) (usr_Email u)"
proof -
  obtain key where k: "st_key st = Some key" using assms(2) by blast
  have "EncryptPIIForStorage (st_cipher st) (Some key) rand (usr_Email u) = Inr stored"
    "hash = EmailHMAC (st_cipher st) (usr_Email u)" using assms(4) k by (auto simp: prepareEmailForStorage_def split: sum.splits)
  then show "scan_user st (new_user_row u stored hash) = Inr u" "hash = EmailHMAC (st_cipher st) (usr_Email u)"
    using stored_email_roundtrip [OF assms(1) _ assms(3)] k by (simp_all add: scan_user_def emailFromStorage_def new_user_row_def)
qed

text \<open>A user that was created is found again, with the address in plain text, by the identifier and by every spelling of the
  address that has the same normal form; faults can delay the answer or replace it by an error, but not change it.\<close>

theorem created_user_found:
  assumes "cipher_ok (st_cipher st)" "st_key st \<noteq> None" "\<And>i n. nonce i = Some n \<Longrightarrow> length n = NonceSize"
    and "\<forall>r \<in> set (users (db d)). u_EmailHash r \<noteq> None"
    and "CreateUser st nonce u d = (Inr (), d')" "EmailHMAC (st_cipher st) email = EmailHMAC (st_cipher st) (usr_Email u)"
  shows "(fst (GetUserByID st (usr_ID u) d') = Inr x \<or> fst (GetUserByEmail st email d') = Inr x \<longrightarrow> x = Some u)
    \<and> (db_attempts d' (db_pos d') = Runs \<longrightarrow>
        fst (GetUserByID st (usr_ID u) d') = Inr (Some u) \<and> fst (GetUserByEmail st email d') = Inr (Some u))"
proof -
  obtain hash stored ox where p: "prepareEmailForStorage st (nonce 0) (usr_Email u) = Inr (hash, stored)"
    and i: "insert_user (new_user_row u stored hash) ox (db d) = (Inr (), db d')" using CreateUser_row [OF assms(5)] by blast
  have n: "nonce 0 = Some n \<Longrightarrow> length n = NonceSize" for n by (rule assms(3))
  let ?r = "new_user_row u stored hash"
  have s: "scan_user st ?r = Inr u" "hash = EmailHMAC (st_cipher st) (usr_Email u)" using scan_new_user [OF assms(1,2) n p] by auto
  have t: "users (db d') = users (db d) @ [?r]" "\<And>x. x \<in> set (users (db d)) \<Longrightarrow> u_ID x \<noteq> usr_ID u \<and> u_EmailHash x \<noteq> Some hash"
    using i by (auto simp: insert_user_def list_ex_iff new_user_row_def dest!: sym [of _ "db d'"] split: if_splits)
  have last: "find P (users (db d')) = Some ?r" if "P ?r" "\<And>x. x \<in> set (users (db d)) \<Longrightarrow> \<not> P x" for P
    using that by (simp add: t(1) find_last)
  have a: "find (\<lambda>r. u_ID r = usr_ID u \<and> u_DeletedAt r = None) (users (db d')) = Some ?r"
    by (rule last) (use t(2) in \<open>auto simp: new_user_row_def\<close>)
  have b: "find (\<lambda>r. by_email st email r \<and> u_DeletedAt r = None) (users (db d')) = Some ?r"
    by (rule last) (use t(2) s(2) assms(4,6) in \<open>auto simp: new_user_row_def by_email_def\<close>)
  show ?thesis using query_user_found [OF a s(1)] query_user_found [OF b s(1)] unfolding GetUserByID_def GetUserByEmail_def by blast
qed

section \<open>Users that were deleted\<close>

text \<open>What an erased user leaves in the tables.\<close>

definition erased :: "gostring \<Rightarrow> tables \<Rightarrow> bool" where
  "erased userID t \<longleftrightarrow>
     (\<forall>r \<in> set (users t). u_ID r = userID \<longrightarrow> u_DeletedAt r \<noteq> None \<and> u_Nickname r = str ''Deleted User'' \<and> u_EmailAnonymized r)
     \<and> (\<forall>x \<in> set (outbox_events t). ox_AggregateType x = str ''user'' \<and> ox_AggregateID x = userID \<and> ox_ProcessedAt x = None
          \<longrightarrow> ox_Payload x = AnonymizedPayload)"

text \<open>What erasing a user must not touch.\<close>

definition kept_rows :: "gostring \<Rightarrow> tables \<Rightarrow> user_row list \<times> session_row list \<times> result_row list" where
  "kept_rows userID t = (filter (\<lambda>r. u_ID r \<noteq> userID) (users t), game_sessions t, game_results t)"

lemma filter_update_other: "(\<And>r. u_ID (g r) = u_ID r) \<Longrightarrow>
    filter (\<lambda>r. u_ID r \<noteq> userID) (map (\<lambda>r. if u_ID r = userID then g r else r) rs) = filter (\<lambda>r. u_ID r \<noteq> userID) rs"
  by (induction rs) auto

lemma anonymize_keeps:
  "kept_rows userID (snd (anonymize_users userID stored hash now t)) = kept_rows userID t"
  "kept_rows userID (snd (anonymize_outbox userID t)) = kept_rows userID t"
  by (auto simp: kept_rows_def anonymize_users_def anonymize_outbox_def update_user_def filter_update_other anonymize_row_def)

lemma anonymize_erases:
  assumes "anonymize_users userID stored hash now t = (Inr (), t1)" "anonymize_outbox userID t1 = (Inr (), t2)"
  shows "erased userID t2" "\<forall>r \<in> set (users t2). u_ID r = userID \<longrightarrow> u_Email r = stored \<and> u_EmailHash r = Some hash"
proof -
  have 1: "users t1 = map (\<lambda>r. if u_ID r = userID then anonymize_row stored hash now r else r) (users t)"
    using assms(1) by (auto simp: anonymize_users_def update_user_def split: if_splits)
  have 2: "t2 = snd (anonymize_outbox userID t1)" using assms(2) by simp
  have u: "users t2 = map (\<lambda>r. if u_ID r = userID then anonymize_row stored hash now r else r) (users t)"
    by (simp add: 2 anonymize_outbox_def 1)
  have row: "u_DeletedAt r = Some now \<and> u_Nickname r = str ''Deleted User'' \<and> u_EmailAnonymized r \<and> u_Email r = stored \<and> u_EmailHash r = Some hash"
    if r: "r \<in> set (users t2)" "u_ID r = userID" for r
  proof -
    obtain x where "r = (if u_ID x = userID then anonymize_row stored hash now x else x)"
      using r(1) unfolding u set_map image_iff by blast
    then show ?thesis using r(2) by (cases "u_ID x = userID") (simp_all add: anonymize_row_def)
  qed
  show "erased userID t2" unfolding erased_def
  proof
    have o: "outbox_events t2 = map (\<lambda>x. if ox_AggregateType x = str ''user'' \<and> ox_AggregateID x = userID \<and> ox_ProcessedAt x = None
        then x\<lparr>ox_Payload := AnonymizedPayload\<rparr> else x) (outbox_events t1)" by (simp add: 2 anonymize_outbox_def)
    show "\<forall>x \<in> set (outbox_events t2). ox_AggregateType x = str ''user'' \<and> ox_AggregateID x = userID \<and> ox_ProcessedAt x = None
        \<longrightarrow> ox_Payload x = AnonymizedPayload" unfolding o set_map ball_simps by simp force
  qed (simp add: row)
  show "\<forall>r \<in> set (users t2). u_ID r = userID \<longrightarrow> u_Email r = stored \<and> u_EmailHash r = Some hash" using row by blast
qed

lemma AnonymizeUser_erases:
  assumes "AnonymizeUser st rand now userID d = (Inr (), d')"
  shows "erased userID (db d')" "kept_rows userID (db d') = kept_rows userID (db d)"
    "\<forall>r \<in> set (users (db d')). u_ID r = userID \<longrightarrow> u_EmailHash r = Some (EmailHMAC (st_cipher st) (anonEmail userID))
       \<and> EncryptPIIForStorage (st_cipher st) (st_key st) rand (anonEmail userID) = Inr (u_Email r)"
proof -
  obtain stored where enc: "EncryptPIIForStorage (st_cipher st) (st_key st) rand (anonEmail userID) = Inr stored"
    and r: "retry_prog (db_budget d (db_pos d)) (andThen (once (anonymize_users userID stored (EmailHMAC (st_cipher st) (anonEmail userID)) now))
      (once (anonymize_outbox userID))) d = (Inr (), d')" (is "retry_prog _ ?p d = _")
    using assms by (auto simp: AnonymizeUser_def Let_def split: sum.splits prod.splits)
  have keep: "kept_rows userID (db (snd (?p s))) = kept_rows userID (db s)" for s
    using once_state [of "anonymize_users userID stored (EmailHMAC (st_cipher st) (anonEmail userID)) now" s]
      once_state [of "anonymize_outbox userID" "snd (once (anonymize_users userID stored (EmailHMAC (st_cipher st) (anonEmail userID)) now) s)"]
      anonymize_keeps
    by (auto simp: andThen_def split: prod.splits sum.splits)
  note c = retry_prog_cases [OF r, where P = "\<lambda>s. kept_rows userID (db s) = kept_rows userID (db d)"]
  show "kept_rows userID (db d') = kept_rows userID (db d)" by (rule c(1)) (simp_all add: keep)
  obtain s0 where "?p s0 = (Inr (), d')" using c(2) keep by auto
  then obtain s1 where a: "once (anonymize_users userID stored (EmailHMAC (st_cipher st) (anonEmail userID)) now) s0 = (Inr (), s1)"
    and b: "once (anonymize_outbox userID) s1 = (Inr (), d')" by (auto simp: andThen_def split: prod.splits sum.splits)
  note e = anonymize_erases [OF once_ran [OF a] once_ran [OF b]]
  show "erased userID (db d')" by (rule e(1))
  show "\<forall>r \<in> set (users (db d')). u_ID r = userID \<longrightarrow> u_EmailHash r = Some (EmailHMAC (st_cipher st) (anonEmail userID))
       \<and> EncryptPIIForStorage (st_cipher st) (st_key st) rand (anonEmail userID) = Inr (u_Email r)"
    using e(2) enc by simp
qed


text \<open>The keys of the schema.\<close>

definition tables_ok :: "tables \<Rightarrow> bool" where
  "tables_ok t \<longleftrightarrow> distinct (map u_ID (users t))
     \<and> (\<forall>gs \<in> set (game_sessions t). case gs_CreatedBy gs of None \<Rightarrow> True | Some u \<Rightarrow> u \<in> u_ID ` set (users t))
     \<and> (\<forall>r \<in> set (game_results t). res_UserID r \<in> u_ID ` set (users t) \<and> res_SessionID r \<in> gs_ID ` set (game_sessions t))
     \<and> distinct (map gs_ID (game_sessions t))"

lemma delete_expired_ok: "tables_ok t \<Longrightarrow> tables_ok (snd (delete_expired c t))"
proof -
  assume ok: "tables_ok t"
  let ?gone = "u_ID ` set (filter (past_cutoff c) (users t))"
  have stays: "u \<in> u_ID ` set (filter (\<lambda>r. \<not> past_cutoff c r) (users t))" if "u \<in> u_ID ` set (users t)" "u \<notin> ?gone" for u using that by auto
  have 1: "distinct (map u_ID (filter (\<lambda>r. \<not> past_cutoff c r) (users t)))" "distinct (map gs_ID (filter P (game_sessions t)))" for P
    using ok by (auto simp: tables_ok_def distinct_map_filter)
  show ?thesis using ok 1 stays
    unfolding tables_ok_def delete_expired_def Let_def by (fastforce split: option.splits)
qed

text \<open>C37: The cleanup deletes exactly the users whose deletion lies before the cutoff, thirty days when no other number was
  given; with them go their sessions, and the results that are theirs or belong to these sessions; nothing else goes,
  no reference is left dangling, and this holds however often the statement had to be repeated.\<close>

theorem hard_delete_exact:
  assumes "HardDeleteExpiredUsers now days d = (Inr n, d')" "tables_ok (db d)"
  defines "gone \<equiv> {u_ID r | r. r \<in> set (users (db d)) \<and> (\<exists>w. u_DeletedAt r = Some w \<and> w < now - (if days \<le> 0 then 30 else days) * 86400)}"
  shows "tables_ok (db d') \<and> users (db d') = filter (\<lambda>r. u_ID r \<notin> gone) (users (db d))
    \<and> game_sessions (db d') = filter (\<lambda>gs. gs_CreatedBy gs \<notin> Some ` gone) (game_sessions (db d))
    \<and> set (game_results (db d')) = {r \<in> set (game_results (db d)). res_UserID r \<notin> gone \<and> res_SessionID r \<in> gs_ID ` set (game_sessions (db d'))}"
proof -
  let ?c = "now - (if days \<le> 0 then 30 else days) * 86400"
  have d': "db d' = snd (delete_expired ?c (db d))"
    using assms(1) by (intro deletion.withRetry_ran) (simp add: HardDeleteExpiredUsers_def Let_def)
  have g: "u_ID ` set (filter (past_cutoff ?c) (users (db d))) = gone"
    unfolding gone_def by (auto simp: past_cutoff_def split: option.splits)
  have e: "past_cutoff ?c r \<longleftrightarrow> u_ID r \<in> gone" if "r \<in> set (users (db d))" for r
  proof
    assume "u_ID r \<in> gone"
    then obtain r' where "r' \<in> set (users (db d))" "past_cutoff ?c r'" "u_ID r' = u_ID r" unfolding g [symmetric] by auto
    then show "past_cutoff ?c r" using assms(2) that by (auto simp: tables_ok_def distinct_map inj_on_def)
  qed (use that g in auto)
  have u: "users (db d') = filter (\<lambda>r. u_ID r \<notin> gone) (users (db d))"
    by (simp add: d' delete_expired_def Let_def e cong: filter_cong)
  have s: "game_sessions (db d') = filter (\<lambda>gs. gs_CreatedBy gs \<notin> Some ` gone) (game_sessions (db d))"
    by (auto simp: d' delete_expired_def Let_def g [symmetric] split: option.splits intro!: filter_cong)
  have r: "game_results (db d') = filter (\<lambda>r. res_UserID r \<notin> gone
      \<and> res_SessionID r \<notin> gs_ID ` {gs \<in> set (game_sessions (db d)). gs_CreatedBy gs \<in> Some ` gone}) (game_results (db d))"
    by (auto simp: d' delete_expired_def Let_def g [symmetric] split: option.splits intro!: filter_cong)
  have "res_SessionID x \<in> gs_ID ` set (game_sessions (db d')) \<longleftrightarrow>
      res_SessionID x \<notin> gs_ID ` {gs \<in> set (game_sessions (db d)). gs_CreatedBy gs \<in> Some ` gone}" if "x \<in> set (game_results (db d))" for x
  proof -
    have "res_SessionID x \<in> gs_ID ` set (game_sessions (db d))" using assms(2) that unfolding tables_ok_def by blast
    then obtain gs where gs: "gs \<in> set (game_sessions (db d))" "gs_ID gs = res_SessionID x" by auto
    have one: "gs' = gs" if "gs' \<in> set (game_sessions (db d))" "gs_ID gs' = res_SessionID x" for gs'
      using assms(2) that gs by (auto simp: tables_ok_def distinct_map inj_on_def)
    have "res_SessionID x \<in> gs_ID ` {g \<in> set (game_sessions (db d)). Q g} \<longleftrightarrow> Q gs" for Q
      using gs one by (metis (mono_tags, lifting) imageE image_eqI mem_Collect_eq)
    then show ?thesis unfolding s set_filter by simp
  qed
  then show ?thesis using delete_expired_ok [OF assms(2)] u s r d' by auto
qed

section \<open>Rows that are collected twice\<close>

text \<open>When the connection breaks while the results of a user are read and the read is repeated, the rows that had arrived
  stay in the list: the answer has them twice.\<close>

theorem results_collected_twice:
  assumes "db_attempts d (db_pos d) = Lost True" "db_attempts d (Suc (db_pos d)) = Runs" "0 < db_budget d (db_pos d)"
  shows "fst (GetGameResultsByUserID seen userID d) = Inr (take (seen (db_pos d)) (results_of userID (db d)) @ results_of userID (db d))"
proof -
  obtain n where "db_budget d (db_pos d) = Suc n" using assms(3) by (cases "db_budget d (db_pos d)") auto
  then show ?thesis using assms(1,2)
    by (simp add: GetGameResultsByUserID_def query_rows_def retry_prog.simps collect_rows_def db_tick_def)
qed

lemma results_capped:
  "db_attempts d (db_pos d) = Runs \<Longrightarrow> fst (GetGameResultsByUserID seen userID d) = Inr (results_of userID (db d))"
  "length (results_of userID t) = min 100 (length (filter (\<lambda>r. res_UserID r = userID) (game_results t)))"
  by (simp_all add: GetGameResultsByUserID_def query_rows_def retry_prog.simps collect_rows_def results_of_def)

section \<open>Instances\<close>

definition demo_storage :: storage where
  "demo_storage = \<lparr>st_cipher = demo_cipher, st_key = Some (replicate 32 0xab)\<rparr>"

definition demo_users_db :: database where
  "demo_users_db = \<lparr>db = \<lparr>users = [], lobby_states = [], game_sessions = [], game_results = [], outbox_events = [], admin_config = [], reltuples = 0\<rparr>,
     db_attempts = (\<lambda>_. Runs), db_budget = (\<lambda>_. 0), db_pos = 0\<rparr>"

definition demo_account :: user where
  "demo_account = \<lparr>usr_ID = str ''7'', usr_Email = [97], usr_Nickname = str ''Ann'', usr_Palette = 0, usr_CreatedAt = 1, usr_LastLogin = None\<rparr>"

definition demo_nonces :: "nat \<Rightarrow> byte list option" where
  "demo_nonces i = Some (replicate 12 (of_nat i))"

definition demo_registered :: database where
  "demo_registered = snd (CreateUser demo_storage demo_nonces demo_account demo_users_db)"

lemma demo_created: "CreateUser demo_storage demo_nonces demo_account demo_users_db = (Inr (), demo_registered)"
proof -
  have "fst (CreateUser demo_storage demo_nonces demo_account demo_users_db) = Inr ()"
    by (simp add: CreateUser_def prepareEmailForStorage_def EncryptPIIForStorage_def Encrypt_def newGCM_def demo_storage_def demo_nonces_def
        retry_loop.simps demo_users_db_def insert_user_def)
  then show ?thesis by (simp add: demo_registered_def prod_eq_iff)
qed

lemma demo_registered_runs: "db_attempts demo_registered (db_pos demo_registered) = Runs"
  by (simp add: demo_registered_def CreateUser_def prepareEmailForStorage_def EncryptPIIForStorage_def Encrypt_def newGCM_def demo_storage_def
      demo_nonces_def retry_loop.simps demo_users_db_def insert_user_def db_tick_def)

theorem created_user_found_witness:
  "fst (GetUserByID demo_storage (str ''7'') demo_registered) = Inr (Some demo_account)
    \<and> fst (GetUserByEmail demo_storage [65, 32] demo_registered) = Inr (Some demo_account)"
proof -
  have c: "cipher_ok (st_cipher demo_storage)" "st_key demo_storage \<noteq> None" by (simp_all add: demo_storage_def demo_cipher_ok)
  have n: "length n = NonceSize" if "demo_nonces i = Some n" for i n using that by (auto simp: demo_nonces_def NonceSize_def)
  have l: "\<forall>r \<in> set (users (db demo_users_db)). u_EmailHash r \<noteq> None" by (simp add: demo_users_db_def)
  have e: "EmailHMAC (st_cipher demo_storage) [65, 32] = EmailHMAC (st_cipher demo_storage) (usr_Email demo_account)" by code_simp
  have "usr_ID demo_account = str ''7''" by (simp add: demo_account_def)
  then show ?thesis using created_user_found [OF c n l demo_created e, THEN conjunct2] demo_registered_runs by simp
qed

definition demo_plain :: storage where
  "demo_plain = demo_storage\<lparr>st_key := None\<rparr>"

definition demo_row :: user_row where
  "demo_row = new_user_row demo_account [97] [1]"

definition demo_one :: database where
  "demo_one = demo_users_db\<lparr>db := (db demo_users_db)\<lparr>users := [demo_row]\<rparr>\<rparr>"

lemma demo_anonymized: "fst (AnonymizeUser demo_plain None 5 (usr_ID demo_account) demo_one) = Inr ()"
  by (simp add: AnonymizeUser_def demo_plain_def EncryptPIIForStorage_def retry_prog.simps andThen_def once_def demo_one_def demo_users_db_def
      Let_def db_tick_def demo_row_def new_user_row_def anonymize_users_def update_user_def anonymize_outbox_def)


definition demo_deleted :: database where
  "demo_deleted = demo_users_db\<lparr>db := (db demo_users_db)\<lparr>users := [demo_row\<lparr>u_DeletedAt := Some 5\<rparr>]\<rparr>\<rparr>"

theorem hard_delete_exact_witness:
  "fst (HardDeleteExpiredUsers 10000000 0 demo_deleted) = Inr 1 \<and> tables_ok (db (snd (HardDeleteExpiredUsers 10000000 0 demo_deleted)))
    \<and> users (db (snd (HardDeleteExpiredUsers 10000000 0 demo_deleted))) = []"
proof -
  have e: "fst (HardDeleteExpiredUsers 10000000 0 demo_deleted) = Inr 1" "users (db (snd (HardDeleteExpiredUsers 10000000 0 demo_deleted))) = []"
    by (simp_all add: HardDeleteExpiredUsers_def withRetry_def retry_loop.simps demo_deleted_def demo_users_db_def delete_expired_def past_cutoff_def db_tick_def Let_def)
  have "tables_ok (db demo_deleted)" by (simp add: tables_ok_def demo_deleted_def demo_users_db_def)
  then show ?thesis using hard_delete_exact [of 10000000 0 demo_deleted 1] e by (simp add: prod_eq_iff)
qed

definition demo_shaky :: database where
  "demo_shaky = demo_users_db\<lparr>db := (db demo_users_db)\<lparr>game_results := [\<lparr>res_ID = [1], res_SessionID = [2], res_UserID = [7], res_Nickname = [], res_Score = 3,
     res_Taps = 4, res_CreatedAt = 5\<rparr>]\<rparr>, db_attempts := (\<lambda>n. if n = 0 then Lost True else Runs), db_budget := (\<lambda>_. 3)\<rparr>"

theorem results_collected_twice_witness:
  "map_sum id length (fst (GetGameResultsByUserID (\<lambda>_. 1) [7] demo_shaky)) = Inr 2 \<and> length (game_results (db demo_shaky)) = 1"
proof -
  have "length (results_of [7] (db demo_shaky)) = 1" "length (game_results (db demo_shaky)) = 1" by code_simp+
  then show ?thesis using results_collected_twice [of demo_shaky "\<lambda>_. 1" "[7]"] by (simp add: demo_shaky_def demo_users_db_def)
qed

end
