(* ===== verification/Strconv.thy ===== *)
theory Strconv
  imports Repository_Properties
begin

text \<open>
  Functions of Go's \<^verbatim>\<open>strconv\<close> and \<^verbatim>\<open>strings\<close> that several packages use, on byte strings.
\<close>

text \<open>\<^verbatim>\<open>strconv.Atoi\<close> of a 64-bit platform.\<close>

definition Atoi :: "gostring \<Rightarrow> int option" where
  "Atoi s =
     (let neg = (s \<noteq> [] \<and> hd s = 45); ds = (if s \<noteq> [] \<and> (hd s = 45 \<or> hd s = 43) then tl s else s);
          n = (if neg then - digits_value ds else digits_value ds)
      in if ds = [] \<or> \<not> list_all is_digit ds \<or> n < - (2 ^ 63) \<or> n \<ge> 2 ^ 63 then None else Some n)"

definition HasPrefix :: "gostring \<Rightarrow> gostring \<Rightarrow> bool" where
  "HasPrefix s p \<longleftrightarrow> take (length p) s = p"

fun Contains :: "gostring \<Rightarrow> gostring \<Rightarrow> bool" where
  "Contains [] p = (p = [])"
| "Contains (b # s) p = (HasPrefix (b # s) p \<or> Contains s p)"

text \<open>\<^verbatim>\<open>strings.EqualFold\<close> with a text \<open>t\<close> of small ASCII letters: besides the capitals, two other runes fold to such a letter,
  the long s and the Kelvin sign.\<close>

definition fold_rune :: "nat \<Rightarrow> nat" where
  "fold_rune r = (if 65 \<le> r \<and> r \<le> 90 then r + 32 else if r = 0x17F then 115 else if r = 0x212A then 107 else r)"

definition EqualFold :: "gostring \<Rightarrow> gostring \<Rightarrow> bool" where
  "EqualFold s t \<longleftrightarrow> map fold_rune (runes s) = map unat t"

lemma Atoi_Sprint:
  assumes "0 \<le> n" "n < 2 ^ 63"
  shows "Atoi (Sprint_int n) = Some n"
proof -
  have d: "list_all is_digit (Itoa (nat n))" "Itoa (nat n) \<noteq> []" using Itoa_digits by simp_all
  then have "is_digit (hd (Itoa (nat n)))" by (cases "Itoa (nat n)") auto
  then have "hd (Itoa (nat n)) \<noteq> 45" "hd (Itoa (nat n)) \<noteq> 43" by (auto simp: is_digit_def)
  then show ?thesis using assms d by (simp add: Atoi_def Sprint_int_def Let_def digits_value_Itoa)
qed

end
