(* ===== verification/Auth.thy ===== *)
theory Auth
  imports User_Repository Strconv
begin

text \<open>
  Authentication: signed access tokens (\<^verbatim>\<open>auth/jwt.go\<close>), sessions (\<^verbatim>\<open>auth/auth.go\<close>, \<^verbatim>\<open>RevokeAllTokens\<close> in
  \<^verbatim>\<open>auth/token_lifecycle.go\<close>) and the HTTP handlers over them (\<^verbatim>\<open>handler/auth.go\<close>).

  \<^item> \<open>services\<close> is what a handler can change: database, the Redis of sessions and the one of rate limits, and the random
    sources. The \<open>i\<close>-th read of \<open>n\<close> random bytes
    gives \<open>sv_rand s i n\<close>, \<open>None\<close> when it fails. \<open>now\<close> is the time of the request, in milliseconds.
  \<^item> The JWT library is the parameter \<open>jwt_lib\<close>, with the key of a manager: \<open>jl_sign\<close> signs claims with ES256, \<open>jl_alg\<close> is the
    method that the header of a token names, \<open>jl_parse\<close> is \<^verbatim>\<open>ParseWithClaims\<close> at a time, with the options for issuer and
    audience. \<open>jwt_lib_ok\<close> is what it documents.
  \<^item> A panic is \<open>None\<close>. A JWT manager is always there; \<open>ae_hasDB\<close>, \<open>ae_hasRedis\<close> and \<open>ae_hasRefresh\<close> say whether the other
    dependencies are. Traces and audit records are not modelled.
\<close>

section \<open>Requests and services\<close>

record request =
  rq_Method :: gostring
  rq_Cookies :: "(gostring \<times> gostring) list"
  rq_Header :: "(gostring \<times> gostring) list"
  rq_TLS :: bool
  rq_RemoteAddr :: gostring
  rq_Trusted :: "bool option"
  rq_UserID :: "gostring option"
  rq_Nickname :: "gostring option"
  rq_JTI :: "gostring option"
  rq_Role :: "gostring option"

record services =
  sv_db :: database
  sv_redis :: token_redis
  sv_limits :: token_redis
  sv_rand :: "nat \<Rightarrow> nat \<Rightarrow> byte list option"
  sv_draws :: nat
  sv_names :: crand

definition draw :: "nat \<Rightarrow> services \<Rightarrow> byte list option \<times> services" where
  "draw n s = (sv_rand s (sv_draws s) n, s\<lparr>sv_draws := Suc (sv_draws s)\<rparr>)"

definition on_redis :: "(token_redis \<Rightarrow> 'a \<times> token_redis) \<Rightarrow> services \<Rightarrow> 'a \<times> services" where
  "on_redis f s = (let (a, rd) = f (sv_redis s) in (a, s\<lparr>sv_redis := rd\<rparr>))"

definition on_db :: "(database \<Rightarrow> 'a \<times> database) \<Rightarrow> services \<Rightarrow> 'a \<times> services" where
  "on_db f s = (let (a, d) = f (sv_db s) in (a, s\<lparr>sv_db := d\<rparr>))"

section \<open>Access tokens\<close>

record jwt_claims =
  jc_ID :: gostring
  jc_Subject :: gostring
  jc_Nickname :: gostring
  jc_Role :: gostring
  jc_Issuer :: gostring
  jc_Audience :: "gostring list"
  jc_IssuedAt :: int
  jc_ExpiresAt :: int

datatype jwt_alg = ES256 | ES384 | ES512 | OtherAlg

record jwt_lib =
  jl_sign :: "jwt_claims \<Rightarrow> gostring option"
  jl_alg :: "gostring \<Rightarrow> jwt_alg option"
  jl_parse :: "int \<Rightarrow> (gostring \<times> gostring) option \<Rightarrow> gostring \<Rightarrow> jwt_claims option"

text \<open>A token that was signed is accepted until it expires, no token is accepted after that, and the claims of a token are
  those that are written in it. The library itself would accept a signed token that has no expiry; but a token is accepted only with a
  signature of the key of the manager, and all that this key signs (\<^verbatim>\<open>SignTokenWithRole\<close>, \<^verbatim>\<open>signAdminTokenDefault\<close>) has one. So the
  expiry is always there, and the hypothesis includes that nobody else has the key.\<close>

definition jwt_lib_ok :: "jwt_lib \<Rightarrow> bool" where
  "jwt_lib_ok jl \<longleftrightarrow>
     (\<forall>c tok. jl_sign jl c = Some tok \<longrightarrow> jl_alg jl tok = Some ES256 \<and> (\<forall>now opts. now < jc_ExpiresAt c * 1000
        \<and> (case opts of None \<Rightarrow> True | Some (i, a) \<Rightarrow> jc_Issuer c = i \<and> a \<in> set (jc_Audience c)) \<longrightarrow> jl_parse jl now opts tok = Some c))
     \<and> (\<forall>tok now opts c. jl_parse jl now opts tok = Some c \<longrightarrow> now < jc_ExpiresAt c * 1000)
     \<and> (\<forall>tok now opts c now' opts' c'. jl_parse jl now opts tok = Some c \<and> jl_parse jl now' opts' tok = Some c' \<longrightarrow> c = c')"

definition AccessTokenTTL :: int where "AccessTokenTTL = 15 * 60 * 1000"
definition RefreshTokenTTL :: int where "RefreshTokenTTL = 7 * 24 * 3600 * 1000"
definition CookieMaxAge :: int where "CookieMaxAge = 900"
definition JWTIssuer :: gostring where "JWTIssuer = str ''balloon-game''"
definition JWTAudience :: gostring where "JWTAudience = str ''balloon-game-users''"
definition RoleUser :: gostring where "RoleUser = str ''user''"
definition RoleAdmin :: gostring where "RoleAdmin = str ''admin''"

datatype session_error = ErrToken auth_error | ErrSign | ErrVerify | ErrReused | ErrUser user_error | ErrNoUser

definition generateJTI :: "services \<Rightarrow> (session_error + gostring) \<times> services" where
  "generateJTI s = (case draw 16 s of (None, s) \<Rightarrow> (Inl (ErrToken ErrRandom), s) | (Some b, s) \<Rightarrow> (Inr (hex b), s))"

definition SignTokenWithRole :: "jwt_lib \<Rightarrow> int \<Rightarrow> gostring \<Rightarrow> gostring \<Rightarrow> gostring \<Rightarrow> services \<Rightarrow> (session_error + gostring) \<times> services" where
  "SignTokenWithRole jl now userId nickname role s = (case generateJTI s of
       (Inl e, s) \<Rightarrow> (Inl e, s)
     | (Inr jti, s) \<Rightarrow>
         (case jl_sign jl \<lparr>jc_ID = jti, jc_Subject = userId, jc_Nickname = nickname, jc_Role = role, jc_Issuer = JWTIssuer,
                          jc_Audience = [JWTAudience], jc_IssuedAt = now div 1000, jc_ExpiresAt = (now + AccessTokenTTL) div 1000\<rparr> of
            None \<Rightarrow> (Inl ErrSign, s) | Some tok \<Rightarrow> (Inr tok, s)))"

definition SignToken :: "jwt_lib \<Rightarrow> int \<Rightarrow> gostring \<Rightarrow> gostring \<Rightarrow> services \<Rightarrow> (session_error + gostring) \<times> services" where
  "SignToken jl now userId nickname s = SignTokenWithRole jl now userId nickname RoleUser s"

definition VerifyToken :: "jwt_lib \<Rightarrow> int \<Rightarrow> gostring \<Rightarrow> session_error + gostring \<times> gostring \<times> gostring \<times> gostring" where
  "VerifyToken jl now tokenStr =
     (if jl_alg jl tokenStr \<noteq> Some ES256 then Inl ErrVerify
      else case jl_parse jl now (Some (JWTIssuer, JWTAudience)) tokenStr of
             None \<Rightarrow> Inl ErrVerify
           | Some c \<Rightarrow> Inr (jc_Subject c, jc_Nickname c, jc_ID c, if jc_Role c = [] then RoleUser else jc_Role c))"

section \<open>Cookies\<close>

record cookie =
  ck_Name :: gostring
  ck_Value :: gostring
  ck_MaxAge :: int
  ck_HttpOnly :: bool
  ck_Secure :: bool

definition BuildAuthCookie :: "gostring \<Rightarrow> gostring \<Rightarrow> int \<Rightarrow> bool \<Rightarrow> cookie" where
  "BuildAuthCookie name v maxAge secure = \<lparr>ck_Name = name, ck_Value = v, ck_MaxAge = maxAge, ck_HttpOnly = True, ck_Secure = secure\<rparr>"

definition SessionCookie :: gostring where "SessionCookie = str ''session''"
definition QuickplayCookie :: gostring where "QuickplayCookie = str ''quickplay''"
definition RefreshCookieName :: gostring where "RefreshCookieName = str ''refresh''"

definition BuildRefreshCookie :: "gostring \<Rightarrow> bool \<Rightarrow> cookie" where
  "BuildRefreshCookie v secure = BuildAuthCookie RefreshCookieName v (if v = [] then - 1 else RefreshTokenTTL div 1000) secure"

definition Cookie :: "request \<Rightarrow> gostring \<Rightarrow> gostring option" where
  "Cookie r name = map_of (rq_Cookies r) name"

definition RefreshTokenFromRequest :: "request \<Rightarrow> gostring" where
  "RefreshTokenFromRequest r = (case Cookie r RefreshCookieName of None \<Rightarrow> [] | Some v \<Rightarrow> v)"

definition ParseAuthCookie :: "jwt_lib \<Rightarrow> int \<Rightarrow> request \<Rightarrow> gostring \<Rightarrow> session_error + gostring \<times> gostring \<times> gostring \<times> gostring" where
  "ParseAuthCookie jl now r name = (case Cookie r name of None \<Rightarrow> Inl ErrVerify | Some v \<Rightarrow> VerifyToken jl now v)"

definition Header_Get :: "request \<Rightarrow> gostring \<Rightarrow> gostring" where
  "Header_Get r name = (case map_of (rq_Header r) name of None \<Rightarrow> [] | Some v \<Rightarrow> v)"

definition IsTrustedProxy :: "request \<Rightarrow> bool" where
  "IsTrustedProxy r \<longleftrightarrow> rq_Trusted r = Some True"

definition IsSecure :: "request \<Rightarrow> bool" where
  "IsSecure r \<longleftrightarrow> IsTrustedProxy r \<and> EqualFold (Header_Get r (str ''X-Forwarded-Proto'')) (str ''https'') \<or> rq_TLS r"

section \<open>Who makes a request\<close>

definition tryCookie :: "jwt_lib \<Rightarrow> int \<Rightarrow> request \<Rightarrow> gostring \<Rightarrow> gostring \<times> gostring \<times> gostring \<times> gostring" where
  "tryCookie jl now r name = (case Cookie r name of
       None \<Rightarrow> ([], [], [], [])
     | Some v \<Rightarrow> if v = [] then ([], [], [], []) else (case VerifyToken jl now v of Inl _ \<Rightarrow> ([], [], [], []) | Inr x \<Rightarrow> x))"

definition GetAuthenticatedUser :: "request \<Rightarrow> (gostring \<times> gostring) option" where
  "GetAuthenticatedUser r = (case (rq_UserID r, rq_Nickname r) of
       (Some uid, Some nick) \<Rightarrow> if uid = [] then None else Some (uid, nick) | _ \<Rightarrow> None)"

definition GetJTI :: "request \<Rightarrow> gostring" where
  "GetJTI r = (case rq_JTI r of None \<Rightarrow> [] | Some jti \<Rightarrow> jti)"

definition WithJTI :: "gostring \<Rightarrow> request \<Rightarrow> request" where
  "WithJTI jti r = r\<lparr>rq_JTI := Some jti\<rparr>"

definition WithAuthenticatedUser :: "gostring \<Rightarrow> gostring \<Rightarrow> request \<Rightarrow> request" where
  "WithAuthenticatedUser userId nickname r = r\<lparr>rq_UserID := Some userId, rq_Nickname := Some nickname\<rparr>"

text \<open>The cookies are tried in order; the check for revocation is skipped without Redis, and a cookie that it does not clear is
  passed over.\<close>

fun from_cookies :: "jwt_lib \<Rightarrow> bool \<Rightarrow> int \<Rightarrow> request \<Rightarrow> gostring list \<Rightarrow> token_redis \<Rightarrow> (gostring \<times> gostring) option \<times> token_redis" where
  "from_cookies jl chk now r [] rd = (None, rd)"
| "from_cookies jl chk now r (name # names) rd =
     (let (uid, nick, jti, _) = tryCookie jl now r name
      in if uid = [] then from_cookies jl chk now r names rd
         else if chk
         then (case IsJWTRevoked jti rd of
                 (Inr False, rd) \<Rightarrow> (Some (uid, nick), rd)
               | (_, rd) \<Rightarrow> from_cookies jl chk now r names rd)
         else (Some (uid, nick), rd))"

definition authenticatedUserFromCookies :: "jwt_lib \<Rightarrow> bool \<Rightarrow> int \<Rightarrow> request \<Rightarrow> token_redis \<Rightarrow> (gostring \<times> gostring) option \<times> token_redis" where
  "authenticatedUserFromCookies jl chk now r rd = (case GetAuthenticatedUser r of
       Some u \<Rightarrow> (Some u, rd)
     | None \<Rightarrow> from_cookies jl chk now r [SessionCookie, QuickplayCookie] rd)"

section \<open>Sessions\<close>

record auth_env =
  ae_storage :: storage
  ae_jwt :: jwt_lib
  ae_hasDB :: bool
  ae_hasRedis :: bool
  ae_hasRefresh :: bool
  ae_letter :: "nat \<Rightarrow> bool"
  ae_digit :: "nat \<Rightarrow> bool"
  ae_seen :: "nat \<Rightarrow> nat"

definition issue_refresh :: "gostring \<Rightarrow> services \<Rightarrow> (session_error + gostring) \<times> services" where
  "issue_refresh userID s =
     (let (bytes, s) = draw 32 s; (res, s) = on_redis (Generate bytes userID) s in (map_sum ErrToken id res, s))"

text \<open>Both kinds of credentials: the name of the cookie is the only difference. The result is the cookie with the access token
  and the refresh token.\<close>

definition issueQuickPlayCredentials ::
    "auth_env \<Rightarrow> int \<Rightarrow> gostring \<Rightarrow> gostring \<Rightarrow> request \<Rightarrow> services \<Rightarrow> (session_error + cookie \<times> gostring) \<times> services" where
  "issueQuickPlayCredentials e now userID nickname r s = (case SignToken (ae_jwt e) now userID nickname s of
       (Inl err, s) \<Rightarrow> (Inl err, s)
     | (Inr token, s) \<Rightarrow> (case issue_refresh userID s of
           (Inl err, s) \<Rightarrow> (Inl err, s)
         | (Inr refreshToken, s) \<Rightarrow> (Inr (BuildAuthCookie QuickplayCookie token CookieMaxAge (IsSecure r), refreshToken), s)))"

definition prepareQuickPlayNickname :: "gostring \<Rightarrow> services \<Rightarrow> gostring \<times> services" where
  "prepareQuickPlayNickname nickname s =
     (let nickname = SanitizeNickname nickname
      in if nickname = [] then let (n, g) = GenerateRandom {} (sv_names s) in (n, s\<lparr>sv_names := g\<rparr>) else (nickname, s))"

definition create_user :: "auth_env \<Rightarrow> user \<Rightarrow> services \<Rightarrow> (user_error + unit) \<times> services" where
  "create_user e u s =
     (let (res, s') = on_db (CreateUser (ae_storage e) (\<lambda>i. sv_rand s (sv_draws s + i) NonceSize) u) s
      in (res, s'\<lparr>sv_draws := sv_draws s + 3\<rparr>))"

definition QuickPlay ::
    "auth_env \<Rightarrow> int \<Rightarrow> gostring \<Rightarrow> request \<Rightarrow> services \<Rightarrow> ((session_error + cookie \<times> gostring \<times> gostring \<times> gostring) \<times> services) option" where
  "QuickPlay e now nickname r s =
     (case on_redis (authenticatedUserFromCookies (ae_jwt e) (ae_hasRedis e) now r) s of
        (Some (uid, nick), s) \<Rightarrow>
          (case on_db (GetUserByID (ae_storage e) uid) s of
             (Inl err, s) \<Rightarrow> Some (Inl (ErrUser err), s)
           | (Inr user, s) \<Rightarrow>
               let nick = (case user of None \<Rightarrow> nick | Some u \<Rightarrow> usr_Nickname u); (res, s) = issueQuickPlayCredentials e now uid nick r s
               in Some (map_sum id (\<lambda>(c, t). (c, uid, nick, t)) res, s))
      | (None, s) \<Rightarrow>
          let (nickname, s) = prepareQuickPlayNickname nickname s; (bytes, s) = draw 16 s
          in case bytes of
               None \<Rightarrow> None
             | Some b \<Rightarrow>
                 let userId = UUID b;
                     (res, s) = create_user e \<lparr>usr_ID = userId, usr_Email = userId @ str ''@quickplay'', usr_Nickname = nickname, usr_Palette = 0,
                                              usr_CreatedAt = now div 1000, usr_LastLogin = None\<rparr> s
                 in if res = Inr () \<or> res = Inl (ErrDomain ErrDuplicateUser)
                    then let (res, s) = issueQuickPlayCredentials e now userId nickname r s
                         in Some (map_sum id (\<lambda>(c, t). (c, userId, nickname, t)) res, s)
                    else Some (Inl (ErrUser (projl res)), s))"

text \<open>The text before the first \<^verbatim>\<open>@\<close>, unless it is empty.\<close>

definition nickname_of_email :: "gostring \<Rightarrow> gostring" where
  "nickname_of_email email =
     (let p = takeWhile (\<lambda>b. b \<noteq> 64) email in if p = [] then email else p)"

definition findOrCreateUserByEmail :: "auth_env \<Rightarrow> int \<Rightarrow> gostring \<Rightarrow> services \<Rightarrow> ((user_error + user) \<times> services) option" where
  "findOrCreateUserByEmail e now email s = (case on_db (GetUserByEmail (ae_storage e) email) s of
       (Inl err, s) \<Rightarrow> Some (Inl err, s)
     | (Inr (Some u), s) \<Rightarrow> Some (Inr u, s)
     | (Inr None, s) \<Rightarrow>
         let (bytes, s) = draw 16 s
         in case bytes of
              None \<Rightarrow> None
            | Some b \<Rightarrow>
                let u = \<lparr>usr_ID = UUID b, usr_Email = email, usr_Nickname = nickname_of_email email, usr_Palette = 0,
                         usr_CreatedAt = now div 1000, usr_LastLogin = None\<rparr>
                in (case create_user e u s of (Inl err, s) \<Rightarrow> Some (Inl err, s) | (Inr _, s) \<Rightarrow> Some (Inr u, s)))"

definition issueMagicLinkSession :: "auth_env \<Rightarrow> int \<Rightarrow> user \<Rightarrow> request \<Rightarrow> services \<Rightarrow> (session_error + cookie \<times> gostring) \<times> services" where
  "issueMagicLinkSession e now u r s =
     (let (_, s) = on_db (UpdateUserLastLogin now (usr_ID u)) s
      in case SignToken (ae_jwt e) now (usr_ID u) (usr_Nickname u) s of
           (Inl err, s) \<Rightarrow> (Inl err, s)
         | (Inr token, s) \<Rightarrow> (case issue_refresh (usr_ID u) s of
               (Inl err, s) \<Rightarrow> (Inl err, s)
             | (Inr refreshToken, s) \<Rightarrow> (Inr (BuildAuthCookie SessionCookie token CookieMaxAge (IsSecure r), refreshToken), s)))"

definition RefreshSession :: "auth_env \<Rightarrow> int \<Rightarrow> gostring \<Rightarrow> services \<Rightarrow> (session_error + gostring \<times> gostring) \<times> services" where
  "RefreshSession e now oldToken s = (case on_redis (ConsumeRefreshToken oldToken) s of
       (Inl err, s) \<Rightarrow> (Inl (ErrToken err), s)
     | (Inr result, s) \<Rightarrow>
         if cr_Reused result then (Inl ErrReused, snd (on_redis (RevokeAllForUser (cr_UserID result)) s))
         else (case on_db (GetUserByID (ae_storage e) (cr_UserID result)) s of
             (Inl err, s) \<Rightarrow> (Inl (ErrUser err), s)
           | (Inr None, s) \<Rightarrow> (Inl ErrNoUser, s)
           | (Inr (Some u), s) \<Rightarrow>
               let (_, s) = on_redis (RemoveFromUserSet (cr_UserID result) oldToken) s
               in case SignToken (ae_jwt e) now (cr_UserID result) (usr_Nickname u) s of
                    (Inl err, s) \<Rightarrow> (Inl err, s)
                  | (Inr accessToken, s) \<Rightarrow> (case issue_refresh (cr_UserID result) s of
                        (Inl err, s) \<Rightarrow> (Inl err, s) | (Inr newRefresh, s) \<Rightarrow> (Inr (accessToken, newRefresh), s))))"

text \<open>The user of the last cookie that verifies; the tokens of both are revoked, and errors of that are ignored.\<close>

fun revoke_cookies :: "jwt_lib \<Rightarrow> bool \<Rightarrow> int \<Rightarrow> request \<Rightarrow> gostring list \<Rightarrow> gostring \<Rightarrow> token_redis \<Rightarrow> gostring \<times> token_redis" where
  "revoke_cookies jl tokens now r [] userID rd = (userID, rd)"
| "revoke_cookies jl tokens now r (name # names) userID rd = (case Cookie r name of
       None \<Rightarrow> revoke_cookies jl tokens now r names userID rd
     | Some v \<Rightarrow>
         if v = [] then revoke_cookies jl tokens now r names userID rd
         else (case VerifyToken jl now v of
             Inl _ \<Rightarrow> revoke_cookies jl tokens now r names userID rd
           | Inr (uid, _, jti, _) \<Rightarrow>
               let userID = (if uid \<noteq> [] then uid else userID);
                   rd = (if jti \<noteq> [] \<and> tokens then snd (RevokeJWT jti AccessTokenTTL rd) else rd)
               in revoke_cookies jl tokens now r names userID rd))"

definition RevokeAllTokens :: "auth_env \<Rightarrow> int \<Rightarrow> request \<Rightarrow> token_redis \<Rightarrow> (redis_error + unit) \<times> token_redis" where
  "RevokeAllTokens e now r rd =
     (let (userID, rd) = revoke_cookies (ae_jwt e) (ae_hasRedis e) now r [SessionCookie, QuickplayCookie] [] rd;
          refreshToken = RefreshTokenFromRequest r;
          (userID, rd) = (if userID = [] \<and> ae_hasRefresh e \<and> refreshToken \<noteq> []
            then (case ConsumeRefreshToken refreshToken rd of (Inl _, rd) \<Rightarrow> (userID, rd) | (Inr res, rd) \<Rightarrow> (cr_UserID res, rd))
            else (userID, rd))
      in if ae_hasRefresh e \<and> userID \<noteq> [] then RevokeAllForUser userID rd else (Inr (), rd))"

definition anonymize :: "auth_env \<Rightarrow> int \<Rightarrow> gostring \<Rightarrow> services \<Rightarrow> (user_error + unit) \<times> services" where
  "anonymize e now userID s = (let (nonce, s) = draw NonceSize s in on_db (AnonymizeUser (ae_storage e) nonce (now div 1000) userID) s)"

definition DeleteUserData :: "auth_env \<Rightarrow> int \<Rightarrow> gostring \<Rightarrow> request \<Rightarrow> services \<Rightarrow> (user_error + unit) \<times> services" where
  "DeleteUserData e now userID r s =
     (let s = (if ae_hasRefresh e then snd (on_redis (RevokeAllForUser userID) s) else s);
          (_, s) = on_redis (RevokeAllTokens e now r) s
      in if ae_hasDB e then anonymize e now userID s else (Inr (), s))"

record export_data =
  ex_User :: user
  ex_Results :: "result_row list"
  ex_Sessions :: "session_row list"

definition ExportUserData :: "auth_env \<Rightarrow> gostring \<Rightarrow> database \<Rightarrow> (user_error + export_data) \<times> database" where
  "ExportUserData e userID d = (case GetUserByID (ae_storage e) userID d of
       (Inl err, d) \<Rightarrow> (Inl err, d)
     | (Inr None, d) \<Rightarrow> (Inl (ErrDomain ErrNotFound), d)
     | (Inr (Some u), d) \<Rightarrow> (case GetGameResultsByUserID (ae_seen e) userID d of
           (Inl err, d) \<Rightarrow> (Inl (ErrStorage err), d)
         | (Inr results, d) \<Rightarrow> (case GetGameSessionsByUserID (ae_seen e) userID d of
               (Inl err, d) \<Rightarrow> (Inl (ErrStorage err), d)
             | (Inr sessions, d) \<Rightarrow> (Inr \<lparr>ex_User = u, ex_Results = results, ex_Sessions = sessions\<rparr>, d))))"

end
