(* ===== verification/Auth_Handler.thy ===== *)
theory Auth_Handler
  imports Auth
begin

text \<open>The HTTP handlers of authentication (\<^verbatim>\<open>handler/auth.go\<close>). The body of a request is what the JSON decoder makes of it.\<close>

section \<open>Responses\<close>

datatype 'a body = NoBody | BadBody | JSONBody 'a

datatype resp_body =
    ProblemBody problem_details
  | DegradedBody string
  | AuthBody gostring gostring gostring bool
  | RefreshedBody
  | UserIDBody gostring
  | MessageBody string
  | ExportBody "user option" "result_row list"
  | ConfigBody bool gostring gostring
  | StatsBody "int list"
  | BoardBody gostring "leaderboard_entry list"
  | TextBody string
  | CodeBody string gostring
  | RoomBody room_info
  | LobbyListBody lobby_list_result
  | NoLobbiesBody
  | EmptyContent

record response =
  rs_Status :: int
  rs_Cookies :: "cookie list"
  rs_Header :: "(gostring \<times> gostring) list"
  rs_Body :: resp_body

definition problem :: "problem_details \<Rightarrow> response" where
  "problem p = \<lparr>rs_Status = pd_Status p, rs_Cookies = [], rs_Header = [], rs_Body = ProblemBody p\<rparr>"

definition WriteDegradedJSON :: "int \<Rightarrow> string \<Rightarrow> response" where
  "WriteDegradedJSON status msg = \<lparr>rs_Status = status, rs_Cookies = [], rs_Header = [], rs_Body = DegradedBody msg\<rparr>"

definition writeJSON :: "cookie list \<Rightarrow> resp_body \<Rightarrow> response" where
  "writeJSON cs b = \<lparr>rs_Status = 200, rs_Cookies = cs, rs_Header = [], rs_Body = b\<rparr>"

definition isSecure :: "request \<Rightarrow> bool" where
  "isSecure r \<longleftrightarrow> rq_TLS r \<or> Header_Get r (str ''X-Forwarded-Proto'') = str ''https''"

definition clearAuthCookies :: "bool \<Rightarrow> cookie list" where
  "clearAuthCookies secure =
     [BuildAuthCookie QuickplayCookie [] (- 1) secure, BuildAuthCookie SessionCookie [] (- 1) secure, BuildRefreshCookie [] secure]"

definition writeAuthCookies :: "request \<Rightarrow> cookie \<Rightarrow> gostring \<Rightarrow> cookie list" where
  "writeAuthCookies r accessCookie refreshToken =
     accessCookie # (if refreshToken \<noteq> [] then [BuildRefreshCookie refreshToken (isSecure r)] else [])"

definition RequireRedis :: "auth_env \<Rightarrow> response option" where
  "RequireRedis e = (if ae_hasRedis e then None else Some (WriteDegradedJSON 503 ''Cache temporarily unavailable''))"

definition RequireDB :: "auth_env \<Rightarrow> response option" where
  "RequireDB e = (if ae_hasDB e then None else Some (WriteDegradedJSON 503 ''Database temporarily unavailable''))"

section \<open>Handlers\<close>

definition parseQuickPlayRequest :: "auth_env \<Rightarrow> gostring body \<Rightarrow> problem_details + gostring" where
  "parseQuickPlayRequest e b = (case b of
       JSONBody raw \<Rightarrow>
         (let nickname = TrimSpace raw; n = rune_count nickname
          in if nickname = [] then Inr nickname
             else if n < 2 \<or> n > 20 then Inl (New 400 ''Invalid nickname'' ''nickname must be 2-20 characters'')
             else if list_ex (\<lambda>c. \<not> ae_letter e c \<and> \<not> ae_digit e c \<and> c \<noteq> 95) (runes nickname)
             then Inl (New 400 ''Invalid nickname'' ''nickname contains invalid characters'')
             else Inr nickname)
     | _ \<Rightarrow> Inl (BadRequest ''invalid request body''))"

definition authenticate :: "auth_env \<Rightarrow> int \<Rightarrow> request \<Rightarrow> services \<Rightarrow> (gostring \<times> gostring) option \<times> services" where
  "authenticate e now r s = on_redis (authenticatedUserFromCookies (ae_jwt e) (ae_hasRedis e) now r) s"

text \<open>\<^verbatim>\<open>GetUserByID\<close> reports a missing user by a nil pointer, which is followed here.\<close>

definition CheckAuth :: "auth_env \<Rightarrow> int \<Rightarrow> request \<Rightarrow> services \<Rightarrow> (response \<times> services) option" where
  "CheckAuth e now r s = (case authenticate e now r s of
       (None, s) \<Rightarrow> Some (problem (Unauthorized ''''), s)
     | (Some (userId, nickname), s) \<Rightarrow>
         if userId = [] then Some (problem (Unauthorized ''''), s)
         else if \<not> ae_hasDB e then Some (writeJSON [] (AuthBody userId nickname [] True), s)
         else (case on_db (GetUserByID (ae_storage e) userId) s of
             (Inl _, s) \<Rightarrow> Some (writeJSON [] (AuthBody userId nickname [] True), s)
           | (Inr None, s) \<Rightarrow> None
           | (Inr (Some u), s) \<Rightarrow> Some (writeJSON [] (AuthBody (usr_ID u) (usr_Nickname u) (usr_Email u) False), s)))"

definition body_token :: "request \<Rightarrow> gostring body \<Rightarrow> gostring" where
  "body_token r b =
     (let refreshToken = RefreshTokenFromRequest r
      in if refreshToken = [] then (case b of JSONBody t \<Rightarrow> t | _ \<Rightarrow> []) else refreshToken)"

definition RefreshToken :: "auth_env \<Rightarrow> int \<Rightarrow> request \<Rightarrow> gostring body \<Rightarrow> services \<Rightarrow> (response \<times> services) option" where
  "RefreshToken e now r b s =
     (if b = BadBody then Some (problem (BadRequest ''Invalid request body''), s)
      else if body_token r b = [] then Some (problem (BadRequest ''refresh token is required''), s)
      else case RequireRedis e of Some resp \<Rightarrow> Some (resp, s)
      | None \<Rightarrow> (case RequireDB e of Some resp \<Rightarrow> Some (resp, s)
      | None \<Rightarrow> if \<not> ae_hasRefresh e then None
        else (case RefreshSession e now (body_token r b) s of
          (Inl _, s) \<Rightarrow> Some (problem (Unauthorized ''Invalid or expired refresh token''), s)
        | (Inr (accessToken, refreshToken), s) \<Rightarrow>
            let cookieName = (if Cookie r QuickplayCookie \<noteq> None then QuickplayCookie else SessionCookie)
            in Some (writeJSON (writeAuthCookies r (BuildAuthCookie cookieName accessToken CookieMaxAge (isSecure r)) refreshToken) RefreshedBody, s))))"

definition QuickPlay_handler :: "auth_env \<Rightarrow> int \<Rightarrow> request \<Rightarrow> gostring body \<Rightarrow> services \<Rightarrow> (response \<times> services) option" where
  "QuickPlay_handler e now r b s = (case parseQuickPlayRequest e b of
       Inl apiErr \<Rightarrow> Some (problem apiErr, s)
     | Inr nickname \<Rightarrow>
         if \<not> ae_hasDB e \<or> \<not> ae_hasRefresh e then Some (problem (InternalError ''Internal server error''), s)
         else Option.bind (QuickPlay e now nickname r s) (\<lambda>(res, s). case res of
             Inl _ \<Rightarrow> Some (problem (InternalError ''Internal server error''), s)
           | Inr (c, userId, _, refreshToken) \<Rightarrow>
               Some (writeJSON (writeAuthCookies r (BuildAuthCookie QuickplayCookie (ck_Value c) CookieMaxAge (isSecure r)) refreshToken)
                       (UserIDBody userId), s)))"

definition Logout :: "auth_env \<Rightarrow> int \<Rightarrow> request \<Rightarrow> gostring body \<Rightarrow> services \<Rightarrow> response \<times> services" where
  "Logout e now r b s =
     (if b = BadBody then (problem (BadRequest ''Invalid request body''), s)
      else let s = (if body_token r b \<noteq> [] \<and> ae_hasRefresh e then snd (on_redis (Revoke (body_token r b)) s) else s);
               s = snd (on_redis (RevokeAllTokens e now r) s)
           in (writeJSON (clearAuthCookies (isSecure r)) (MessageBody ''Logged out''), s))"

definition ExportUserData_handler :: "auth_env \<Rightarrow> int \<Rightarrow> request \<Rightarrow> services \<Rightarrow> response \<times> services" where
  "ExportUserData_handler e now r s = (case authenticate e now r s of
       (None, s) \<Rightarrow> (problem (Unauthorized ''''), s)
     | (Some (userId, _), s) \<Rightarrow>
         if userId = [] then (problem (Unauthorized ''''), s)
         else (case RequireDB e of Some resp \<Rightarrow> (resp, s)
         | None \<Rightarrow> (case on_db (GetUserByID (ae_storage e) userId) s of
             (Inl err, s) \<Rightarrow>
               (if err = ErrDomain ErrNotFound then problem (NotFound ''User not found'')
                else problem (InternalError ''Failed to export user data''), s)
           | (Inr None, s) \<Rightarrow> (writeJSON [] (ExportBody None []), s)
           | (Inr (Some u), s) \<Rightarrow> (case on_db (GetGameResultsByUserID (ae_seen e) userId) s of
                 (Inl _, s) \<Rightarrow> (writeJSON [] (ExportBody (Some u) []), s)
               | (Inr results, s) \<Rightarrow> (writeJSON [] (ExportBody (Some u) results), s)))))"

definition DeleteUserData_handler :: "auth_env \<Rightarrow> int \<Rightarrow> request \<Rightarrow> services \<Rightarrow> response \<times> services" where
  "DeleteUserData_handler e now r s = (case authenticate e now r s of
       (None, s) \<Rightarrow> (problem (Unauthorized ''''), s)
     | (Some (userId, _), s) \<Rightarrow>
         if userId = [] then (problem (Unauthorized ''''), s)
         else (case DeleteUserData e now userId r s of
             (Inl _, s) \<Rightarrow> (problem (InternalError ''Failed to delete user data''), s)
           | (Inr _, s) \<Rightarrow> (writeJSON (clearAuthCookies (isSecure r))
                 (MessageBody ''User data deletion scheduled. All sessions have been revoked.''), s)))"

end
