(* ===== verification/Access.thy ===== *)
theory Access
  imports Auth_Handler
begin

text \<open>
  What stands in front of the handlers: the middlewares (\<^verbatim>\<open>middleware/middleware.go\<close>, \<^verbatim>\<open>auth_middleware.go\<close>, \<^verbatim>\<open>ratelimit.go\<close>)
  and the roles (\<^verbatim>\<open>rbac/rbac.go\<close>).

  \<^item> A handler takes a request and the services to a response; a panic is \<open>None\<close>. A middleware takes a handler to a handler.
  \<^item> Addresses are parsed by the standard library: \<open>net_lib\<close> says which texts are networks and addresses, and which address
    is in which network.
  \<^item> Logs, metrics, traces and audit records are not modelled.
\<close>

section \<open>Addresses\<close>

type_synonym handler = "request \<Rightarrow> services \<Rightarrow> (response \<times> services) option"

record net_lib =
  nl_ParseCIDR :: "gostring \<Rightarrow> bool"
  nl_ParseIP :: "gostring \<Rightarrow> bool"
  nl_Contains :: "gostring \<Rightarrow> gostring \<Rightarrow> bool"

definition colon :: byte where "colon = 58"
definition comma :: byte where "comma = 44"

definition index :: "byte \<Rightarrow> gostring \<Rightarrow> nat option" where
  "index b s = (if b \<in> set s then Some (length (takeWhile (\<lambda>x. x \<noteq> b) s)) else None)"

definition last_index :: "byte \<Rightarrow> gostring \<Rightarrow> nat option" where
  "last_index b s = map_option (\<lambda>i. length s - 1 - i) (index b (rev s))"

text \<open>\<^verbatim>\<open>net.SplitHostPort\<close>: the host, or an error.\<close>

definition SplitHostPort :: "gostring \<Rightarrow> gostring option" where
  "SplitHostPort s = (case last_index colon s of
       None \<Rightarrow> None
     | Some i \<Rightarrow>
         if hd s = 91
         then (case index 93 s of
                 None \<Rightarrow> None
               | Some e \<Rightarrow> if e + 1 = i \<and> 91 \<notin> set (drop 1 s) \<and> 93 \<notin> set (drop (e + 1) s) then Some (take (e - 1) (drop 1 s)) else None)
         else if colon \<in> set (take i s) \<or> 91 \<in> set s \<or> 93 \<in> set s then None
         else Some (take i s))"

definition peer :: "request \<Rightarrow> gostring" where
  "peer r = (case SplitHostPort (rq_RemoteAddr r) of None \<Rightarrow> rq_RemoteAddr r | Some ip \<Rightarrow> ip)"

definition ExtractClientIP :: "request \<Rightarrow> gostring" where
  "ExtractClientIP r =
     (if \<not> IsTrustedProxy r then peer r
      else let ip = TrimSpace (takeWhile (\<lambda>b. b \<noteq> comma) (Header_Get r (str ''X-Forwarded-For''))) in if ip \<noteq> [] then ip else peer r)"

text \<open>\<^verbatim>\<open>strings.Split\<close> at commas.\<close>

fun Split :: "gostring \<Rightarrow> gostring list" where
  "Split [] = [[]]"
| "Split (b # s) = (if b = comma then [] # Split s else (case Split s of [] \<Rightarrow> [[b]] | p # ps \<Rightarrow> (b # p) # ps))"

definition parseTrustedCIDRs :: "net_lib \<Rightarrow> gostring \<Rightarrow> gostring list" where
  "parseTrustedCIDRs nl raw =
     (if TrimSpace raw = [] then []
      else filter (nl_ParseCIDR nl) (map (\<lambda>part.
             if 47 \<in> set part then part else if colon \<in> set part then part @ str ''/128'' else part @ str ''/32'')
             (filter (\<lambda>part. part \<noteq> []) (map TrimSpace (Split raw)))))"

definition isTrustedPeer :: "net_lib \<Rightarrow> request \<Rightarrow> gostring list \<Rightarrow> bool" where
  "isTrustedPeer nl r nets \<longleftrightarrow> nets \<noteq> [] \<and> nl_ParseIP nl (peer r) \<and> list_ex (\<lambda>n. nl_Contains nl n (peer r)) nets"

definition TrustedProxy :: "net_lib \<Rightarrow> gostring \<Rightarrow> handler \<Rightarrow> handler" where
  "TrustedProxy nl trustedCIDRs next r s =
     (let trusted = isTrustedPeer nl r (parseTrustedCIDRs nl trustedCIDRs);
          r = (if trusted then r else r\<lparr>rq_Header := filter (\<lambda>(k, _).
                 k \<notin> {str ''X-Forwarded-For'', str ''X-Forwarded-Proto'', str ''X-Forwarded-Host''}) (rq_Header r)\<rparr>)
      in next (r\<lparr>rq_Trusted := Some trusted\<rparr>) s)"

section \<open>Origins and headers\<close>

definition IsOriginAllowed :: "gostring \<Rightarrow> gostring list \<Rightarrow> bool" where
  "IsOriginAllowed origin allowedOrigins \<longleftrightarrow> origin \<noteq> [] \<and> origin \<in> set allowedOrigins"

definition AllowedOriginsFromEnv :: "gostring \<Rightarrow> gostring list" where
  "AllowedOriginsFromEnv v = (if v = [] then [] else filter (\<lambda>p. p \<noteq> []) (map TrimSpace (Split v)))"

definition with_headers :: "(gostring \<times> gostring) list \<Rightarrow> response \<Rightarrow> response" where
  "with_headers hs resp = resp\<lparr>rs_Header := hs @ rs_Header resp\<rparr>"

definition CORS :: "gostring list \<Rightarrow> handler \<Rightarrow> handler" where
  "CORS allowedOrigins next r s =
     (let origin = Header_Get r (str ''Origin'');
          hs = (if IsOriginAllowed origin allowedOrigins
                then [(str ''Access-Control-Allow-Origin'', origin), (str ''Access-Control-Allow-Credentials'', str ''true''),
                      (str ''Access-Control-Allow-Methods'', str ''GET, POST, PUT, PATCH, DELETE, OPTIONS''),
                      (str ''Access-Control-Allow-Headers'', str ''Content-Type, Authorization''), (str ''Vary'', str ''Origin'')]
                else [])
      in if rq_Method r = str ''OPTIONS''
         then Some (with_headers hs \<lparr>rs_Status = 204, rs_Cookies = [], rs_Header = [], rs_Body = TextBody ''''\<rparr>, s)
         else map_option (\<lambda>(resp, s). (with_headers hs resp, s)) (next r s))"

definition generateNonce :: "services \<Rightarrow> gostring \<times> services" where
  "generateNonce s = (case draw 16 s of (Some b, s) \<Rightarrow> (hex b, s) | (None, s) \<Rightarrow> (hex (replicate 16 0), s))"

definition quoted :: "gostring \<Rightarrow> gostring" where
  "quoted s = [39] @ s @ [39]"

text \<open>\<open>isDevMode\<close> is \<^verbatim>\<open>ENABLE_HSTS == "false"\<close>.\<close>

definition SecurityHeaders :: "bool \<Rightarrow> handler \<Rightarrow> handler" where
  "SecurityHeaders isDevMode next r s =
     (let (nonce, s) = generateNonce s;
          csp = str ''script-src '' @ quoted (str ''self'') @ str '' '' @ quoted (str ''nonce-'' @ nonce)
                @ str ''; style-src '' @ quoted (str ''self'') @ (if isDevMode then str '' '' @ quoted (str ''unsafe-inline'') else [])
                @ str ''; connect-src '' @ quoted (str ''self'') @ (if isDevMode then str '' wss: ws:'' else [])
                @ str ''; img-src '' @ quoted (str ''self'') @ str '' data:; default-src '' @ quoted (str ''self'');
          hs = (if isDevMode then [] else [(str ''Strict-Transport-Security'', str ''max-age=31536000; includeSubDomains; preload'')])
               @ [(str ''X-Content-Type-Options'', str ''nosniff''), (str ''X-Frame-Options'', str ''DENY''),
                  (str ''Referrer-Policy'', str ''strict-origin-when-cross-origin''),
                  (str ''Permissions-Policy'', str ''camera=(), microphone=(), geolocation=()''), (str ''Content-Security-Policy'', csp)]
      in map_option (\<lambda>(resp, s). (with_headers hs resp, s)) (next r s))"

section \<open>Users\<close>

definition maxIPsPerHour :: int where "maxIPsPerHour = 3"

text \<open>Whether the login is suspicious; it is counted and logged.\<close>

definition detectMultiIPLogin :: "gostring \<Rightarrow> gostring \<Rightarrow> services \<Rightarrow> bool \<times> services" where
  "detectMultiIPLogin userID clientIP s =
     (if userID = [] \<or> clientIP = [] then (False, s)
      else case on_redis (TrackUserIPs userID clientIP) s of
             (Inl _, s) \<Rightarrow> (False, s) | (Inr ipCount, s) \<Rightarrow> (ipCount > maxIPsPerHour, s))"

definition authenticated_request :: "gostring \<Rightarrow> gostring \<Rightarrow> gostring \<Rightarrow> gostring \<Rightarrow> request \<Rightarrow> request" where
  "authenticated_request userId nickname jti role r =
     r\<lparr>rq_UserID := Some userId, rq_Nickname := Some nickname, rq_JTI := Some jti, rq_Role := Some role\<rparr>"

text \<open>The first cookie with a token that verifies decides. \<open>revoker\<close>: a checker of revocations is given; \<open>scripter\<close>: it can also
  run scripts.\<close>

fun auth_cookies :: "jwt_lib \<Rightarrow> bool \<Rightarrow> bool \<Rightarrow> int \<Rightarrow> handler \<Rightarrow> gostring list \<Rightarrow> handler" where
  "auth_cookies jl revoker scripter now next [] r s = Some (problem (Unauthorized ''Unauthorized''), s)"
| "auth_cookies jl revoker scripter now next (name # names) r s =
     (let (userId, nickname, jti, role) = tryCookie jl now r name
      in if userId = [] then auth_cookies jl revoker scripter now next names r s
         else if revoker
         then (case on_redis (IsJWTRevoked jti) s of
                 (Inr False, s) \<Rightarrow>
                   let s = (if scripter then snd (detectMultiIPLogin userId (ExtractClientIP r) s) else s)
                   in next (authenticated_request userId nickname jti role r) s
               | (_, s) \<Rightarrow> Some (problem (Unauthorized ''Unauthorized''), s))
         else next (authenticated_request userId nickname jti role r) s)"

definition AuthMiddleware :: "jwt_lib \<Rightarrow> bool \<Rightarrow> bool \<Rightarrow> int \<Rightarrow> handler \<Rightarrow> handler" where
  "AuthMiddleware jl revoker scripter now next r s = auth_cookies jl revoker scripter now next [SessionCookie, QuickplayCookie] r s"

text \<open>\<^verbatim>\<open>RedisStore\<close> has no methods to run scripts.\<close>

definition authMiddlewareWrapper :: "jwt_lib \<Rightarrow> int \<Rightarrow> handler \<Rightarrow> handler" where
  "authMiddlewareWrapper jl now next = AuthMiddleware jl True False now next"

section \<open>Rate limits\<close>

record rate_config =
  rl_Requests :: int
  rl_Window :: int
  rl_FailClosed :: bool

definition rate :: "int \<Rightarrow> bool \<Rightarrow> rate_config" where
  "rate n failClosed = \<lparr>rl_Requests = n, rl_Window = 60000, rl_FailClosed = failClosed\<rparr>"

definition EndpointAuthQuickplay :: gostring where "EndpointAuthQuickplay = str ''auth:quickplay''"
definition EndpointRegistryCreate :: gostring where "EndpointRegistryCreate = str ''registry:create''"

definition DefaultEndpointRateLimits :: "(gostring \<times> rate_config) list" where
  "DefaultEndpointRateLimits =
     [(EndpointAuthQuickplay, rate 10 True), (str ''auth:request'', rate 5 True), (str ''auth:verify'', rate 10 True),
      (EndpointRegistryCreate, rate 5 False), (str ''registry:check'', rate 30 False), (str ''registry:lobbies'', rate 30 False),
      (str ''registry:match'', rate 10 False), (str ''stats:leaderboard'', rate 60 False), (str ''admin:login'', rate 5 True),
      (str ''default'', rate 60 True)]"

definition InitRateLimits :: "int \<Rightarrow> int \<Rightarrow> (gostring \<times> rate_config) list \<Rightarrow> (gostring \<times> rate_config) list" where
  "InitRateLimits requests window limits =
     (let zero = \<lparr>rl_Requests = 0, rl_Window = 0, rl_FailClosed = False\<rparr>;
          current = (\<lambda>limits. case map_of limits (str ''default'') of None \<Rightarrow> zero | Some c \<Rightarrow> c);
          limits = (if requests > 0 then AList.update (str ''default'') ((current limits)\<lparr>rl_Requests := requests\<rparr>) limits else limits)
      in if window > 0 then AList.update (str ''default'') ((current limits)\<lparr>rl_Window := window\<rparr>) limits else limits)"

definition setRateLimitHeaders :: "int \<Rightarrow> int \<Rightarrow> response \<Rightarrow> response" where
  "setRateLimitHeaders limit window resp =
     with_headers [(str ''Retry-After'', Sprint_int (window div 1000)), (str ''X-RateLimit-Limit'', Sprint_int limit)] resp"

definition limited :: "gostring \<Rightarrow> rate_config \<Rightarrow> handler \<Rightarrow> handler" where
  "limited key cfg next r s =
     (let (res, lim) = CheckRateLimit key (rl_Requests cfg) (rl_Window cfg) (sv_limits s); s = s\<lparr>sv_limits := lim\<rparr>;
          refuse = (\<lambda>msg. Some (setRateLimitHeaders (rl_Requests cfg) (rl_Window cfg) (problem (TooManyRequests msg)), s))
      in case res of
           Inl _ \<Rightarrow> if rl_FailClosed cfg then refuse ''Service temporarily unavailable. Please try again later.'' else next r s
         | Inr allowed \<Rightarrow> if \<not> allowed then refuse ''Too many requests. Please try again later.'' else next r s)"

definition RateLimit :: "rate_config \<Rightarrow> handler \<Rightarrow> handler" where
  "RateLimit cfg next r s = limited (ExtractClientIP r) cfg next r s"

text \<open>The identity in the key: the user of the context, or of a cookie whose token verifies, or none.\<close>

definition first_cookie_user :: "jwt_lib \<Rightarrow> int \<Rightarrow> request \<Rightarrow> gostring option" where
  "first_cookie_user jl now r =
     (let user = (\<lambda>name. case ParseAuthCookie jl now r name of Inr (uid, _) \<Rightarrow> if uid \<noteq> [] then Some uid else None | Inl _ \<Rightarrow> None)
      in case user SessionCookie of Some uid \<Rightarrow> Some uid | None \<Rightarrow> user QuickplayCookie)"

definition endpoint_key :: "jwt_lib \<Rightarrow> int \<Rightarrow> request \<Rightarrow> gostring \<Rightarrow> gostring" where
  "endpoint_key jl now r endpoint =
     (let ip = ExtractClientIP r; who = (case GetAuthenticatedUser r of Some (uid, _) \<Rightarrow> Some uid | None \<Rightarrow> first_cookie_user jl now r)
      in case who of Some uid \<Rightarrow> endpoint @ [colon] @ uid @ [colon] @ ip | None \<Rightarrow> endpoint @ [colon] @ ip)"

definition endpoint_config :: "(gostring \<times> rate_config) list \<Rightarrow> gostring \<Rightarrow> rate_config" where
  "endpoint_config limits endpoint = (case map_of limits endpoint of
       Some cfg \<Rightarrow> cfg
     | None \<Rightarrow> (case map_of limits (str ''default'') of Some cfg \<Rightarrow> cfg | None \<Rightarrow> \<lparr>rl_Requests = 0, rl_Window = 0, rl_FailClosed = False\<rparr>))"

definition EndpointRateLimit :: "(gostring \<times> rate_config) list \<Rightarrow> jwt_lib \<Rightarrow> int \<Rightarrow> gostring \<Rightarrow> handler \<Rightarrow> handler" where
  "EndpointRateLimit limits jl now endpoint next r s = limited (endpoint_key jl now r endpoint) (endpoint_config limits endpoint) next r s"

section \<open>Roles\<close>

definition RoleGuest :: gostring where "RoleGuest = str ''guest''"

definition permissions :: "(gostring \<times> (gostring \<times> gostring list) list) list" where
  "permissions =
     [(RoleAdmin, [(str ''config'', [str ''read'', str ''write'']), (str ''users'', [str ''read'', str ''write'']),
                   (str ''lobby'', [str ''create'', str ''join'', str ''read'']), (str ''user_data'', [str ''read'', str ''delete''])]),
      (RoleUser, [(str ''lobby'', [str ''create'', str ''join'', str ''read'']), (str ''user_data'', [str ''read'', str ''delete''])]),
      (RoleGuest, [(str ''lobby'', [str ''read''])])]"

definition CheckPermission :: "gostring \<Rightarrow> gostring \<Rightarrow> gostring \<Rightarrow> bool" where
  "CheckPermission role resource action = (case map_of permissions role of
       None \<Rightarrow> False
     | Some resources \<Rightarrow> (case map_of resources resource of None \<Rightarrow> False | Some actions \<Rightarrow> list_ex (\<lambda>a. a = action) actions))"

definition request_role :: "request \<Rightarrow> gostring" where
  "request_role r = (case rq_Role r of None \<Rightarrow> RoleGuest | Some role \<Rightarrow> if role = [] then RoleGuest else role)"

definition rbac_Middleware :: "gostring \<Rightarrow> gostring \<Rightarrow> handler \<Rightarrow> handler" where
  "rbac_Middleware resource action next r s =
     (if \<not> CheckPermission (request_role r) resource action then Some (problem (Forbidden ''insufficient permissions''), s) else next r s)"

end
