(* ===== verification/Admin.thy ===== *)
theory Admin
  imports Access
begin

text \<open>
  The administration (\<^verbatim>\<open>handler/admin.go\<close>, \<^verbatim>\<open>handler/admin_management.go\<close>, \<^verbatim>\<open>adminAuthMiddleware\<close> in \<^verbatim>\<open>server/routes.go\<close>): login with
  a password and its lock, sessions, and the configuration.

  \<^item> bcrypt is a parameter: \<open>bc_generate\<close> hashes a password with cost 12, with the salt that a draw delivers, \<open>bc_compare\<close>
    compares a hash and a password. \<^verbatim>\<open>uuid.NewString\<close> is the parameter \<open>ad_uuid\<close> over 16 random bytes.
  \<^item> The configuration is the JSON object of its row (\<open>config_json\<close>); a null document decodes to a nil map, and writing to
    it is a panic (\<open>None\<close>). Audit records and metrics are not modelled.
\<close>

section \<open>Environment\<close>

record admin_env =
  ad_jwt :: jwt_lib
  ad_storage :: storage
  ad_hasRedis :: bool
  ad_uuid :: "byte list \<Rightarrow> gostring"
  bc_generate :: "byte list \<Rightarrow> gostring \<Rightarrow> gostring option"
  bc_compare :: "gostring \<Rightarrow> gostring \<Rightarrow> bool"

definition AdminTokenTTL :: int where "AdminTokenTTL = 30 * 60 * 1000"
definition BcryptMaxLen :: nat where "BcryptMaxLen = 72"
definition maxFailedLoginAttempts :: int where "maxFailedLoginAttempts = 5"
definition loginLockDuration :: int where "loginLockDuration = AdminTokenTTL"
definition adminRole :: gostring where "adminRole = str ''admin''"
definition adminCookie :: gostring where "adminCookie = str ''admin_token''"
definition adminPasswordKey :: gostring where "adminPasswordKey = str ''admin_password''"
definition resendAPIKey :: gostring where "resendAPIKey = str ''resend_api_key''"

text \<open>Eight bullets in UTF-8.\<close>

definition maskedKey :: gostring where
  "maskedKey = concat (replicate 8 [0xE2, 0x80, 0xA2])"

section \<open>Passwords\<close>

definition isBcryptHash :: "gostring \<Rightarrow> bool" where
  "isBcryptHash s \<longleftrightarrow> length s = 60 \<and> take 4 s \<in> {str ''$2a$'', str ''$2b$'', str ''$2y$''}"

definition compareAdminPassword :: "admin_env \<Rightarrow> gostring \<Rightarrow> gostring \<Rightarrow> bool" where
  "compareAdminPassword a plaintext stored \<longleftrightarrow> isBcryptHash stored \<and> bc_compare a stored plaintext"

definition hashAdminPassword :: "admin_env \<Rightarrow> gostring \<Rightarrow> services \<Rightarrow> gostring option \<times> services" where
  "hashAdminPassword a password s = (case draw 16 s of
       (None, s) \<Rightarrow> (None, s) | (Some salt, s) \<Rightarrow> (bc_generate a salt password, s))"

definition getStoredAdminPassword :: "services \<Rightarrow> (response + gostring) \<times> services" where
  "getStoredAdminPassword s = (case on_db (GetConfig (str ''global'')) s of
       (Inr (Some cfg), s) \<Rightarrow> (case field_str (cfg_Config cfg) adminPasswordKey of
           None \<Rightarrow> (Inl (problem (InternalError ''Internal server error'')), s)
         | Some p \<Rightarrow> (if p = [] then Inl (problem (Forbidden ''Admin password not configured'')) else Inr p, s))
     | (_, s) \<Rightarrow> (Inl (problem (Forbidden ''Admin not configured'')), s))"

section \<open>Sessions\<close>

text \<open>When the random source fails, \<^verbatim>\<open>uuid.NewString\<close> panics. \<^verbatim>\<open>Recovery\<close> in \<^verbatim>\<open>middleware/middleware.go\<close>, which is in front
  of every handler, then answers with a text of its own.\<close>

datatype sign_error = SignFailed | SignPanics

definition signAdminToken :: "admin_env \<Rightarrow> int \<Rightarrow> services \<Rightarrow> (sign_error + gostring \<times> gostring) \<times> services" where
  "signAdminToken a now s = (case draw 16 s of
       (None, s) \<Rightarrow> (Inl SignPanics, s)
     | (Some b, s) \<Rightarrow>
         let jti = ad_uuid a b
         in (case jl_sign (ad_jwt a)
               \<lparr>jc_ID = jti, jc_Subject = adminRole, jc_Nickname = [], jc_Role = adminRole, jc_Issuer = [], jc_Audience = [],
                jc_IssuedAt = now div 1000, jc_ExpiresAt = (now + AdminTokenTTL) div 1000\<rparr> of
               None \<Rightarrow> (Inl SignFailed, s) | Some tok \<Rightarrow> (Inr (tok, jti), s)))"

definition recovered :: response where
  "recovered = \<lparr>rs_Status = 500, rs_Cookies = [], rs_Header = [], rs_Body = TextBody ''Internal Server Error''\<rparr>"

definition revokeAdminJTI :: "gostring \<Rightarrow> token_redis \<Rightarrow> token_redis" where
  "revokeAdminJTI jti rd = snd (RemoveAdminJTI jti (snd (RevokeJWT jti AdminTokenTTL rd)))"

definition revokeAllAdminSessions :: "token_redis \<Rightarrow> token_redis" where
  "revokeAllAdminSessions rd = (case GetAllAdminJTIs rd of (Inl _, rd) \<Rightarrow> rd | (Inr jtis, rd) \<Rightarrow> fold revokeAdminJTI jtis rd)"

text \<open>The verifier takes any ECDSA method, and asks for no issuer and no audience.\<close>

definition VerifyAdminTokenClaims :: "admin_env \<Rightarrow> int \<Rightarrow> request \<Rightarrow> services \<Rightarrow> jwt_claims option \<times> services" where
  "VerifyAdminTokenClaims a now r s = (case Cookie r adminCookie of
       None \<Rightarrow> (None, s)
     | Some v \<Rightarrow>
         if jl_alg (ad_jwt a) v \<notin> {Some ES256, Some ES384, Some ES512} then (None, s)
         else (case jl_parse (ad_jwt a) now None v of
             None \<Rightarrow> (None, s)
           | Some c \<Rightarrow>
               if jc_Role c \<noteq> adminRole then (None, s)
               else if ad_hasRedis a \<and> jc_ID c \<noteq> []
               then (case on_redis (IsJWTRevoked (jc_ID c)) s of (Inr False, s) \<Rightarrow> (Some c, s) | (_, s) \<Rightarrow> (None, s))
               else (Some c, s)))"

definition VerifyAdminToken :: "admin_env \<Rightarrow> int \<Rightarrow> request \<Rightarrow> services \<Rightarrow> bool \<times> services" where
  "VerifyAdminToken a now r s = (let (c, s) = VerifyAdminTokenClaims a now r s in (c \<noteq> None, s))"

definition adminAuthMiddleware :: "admin_env \<Rightarrow> int \<Rightarrow> handler \<Rightarrow> handler" where
  "adminAuthMiddleware a now next r s = (case VerifyAdminTokenClaims a now r s of
       (None, s) \<Rightarrow> Some (problem (Unauthorized ''Unauthorized''), s)
     | (Some c, s) \<Rightarrow> next (WithJTI (jc_ID c) (r\<lparr>rq_Role := Some RoleAdmin\<rparr>)) s)"

section \<open>Login\<close>

definition isLoginLocked :: "admin_env \<Rightarrow> gostring \<Rightarrow> gostring \<Rightarrow> services \<Rightarrow> response option \<times> services" where
  "isLoginLocked a clientIP account s =
     (let unavailable = problem (New 503 ''Service Unavailable'' ''Login temporarily unavailable, please retry later'')
      in if \<not> ad_hasRedis a then (Some unavailable, s)
         else case on_redis (IsLoginLocked clientIP account) s of
                (Inl _, s) \<Rightarrow> (Some unavailable, s)
              | (Inr locked, s) \<Rightarrow>
                  (if locked then Some (problem (TooManyRequests ''too many failed login attempts, try again later'')) else None, s))"

definition handleFailedLogin :: "admin_env \<Rightarrow> gostring \<Rightarrow> gostring \<Rightarrow> services \<Rightarrow> services" where
  "handleFailedLogin a clientIP account s =
     (if \<not> ad_hasRedis a then s
      else case on_redis (IncrementFailedLogin clientIP account) s of
             (Inl _, s) \<Rightarrow> s
           | (Inr (ipCount, acctCount), s) \<Rightarrow>
               if ipCount \<ge> maxFailedLoginAttempts \<or> acctCount \<ge> maxFailedLoginAttempts
               then snd (on_redis (SetLoginLock clientIP account loginLockDuration) s) else s)"

definition completeAdminLogin :: "admin_env \<Rightarrow> int \<Rightarrow> request \<Rightarrow> gostring \<Rightarrow> gostring \<Rightarrow> services \<Rightarrow> response \<times> services" where
  "completeAdminLogin a now r clientIP account s =
     (let s = (if ad_hasRedis a then snd (on_redis (ResetFailedLogin clientIP account) s) else s)
      in case signAdminToken a now s of
           (Inl SignFailed, s) \<Rightarrow> (problem (InternalError ''Internal server error''), s)
         | (Inl SignPanics, s) \<Rightarrow> (recovered, s)
         | (Inr (token, jti), s) \<Rightarrow>
             let s = (if ad_hasRedis a \<and> jti \<noteq> [] then snd (on_redis (AddAdminJTI jti AdminTokenTTL) s) else s)
             in (writeJSON [BuildAuthCookie adminCookie token (AdminTokenTTL div 1000) (isSecure r)] (MessageBody ''Logged in''), s))"

definition Login :: "admin_env \<Rightarrow> int \<Rightarrow> request \<Rightarrow> gostring body \<Rightarrow> services \<Rightarrow> response \<times> services" where
  "Login a now r b s = (case b of
       JSONBody password \<Rightarrow>
         if length password > BcryptMaxLen then (problem (BadRequest ''password too long (max 72 bytes)''), s)
         else let clientIP = ExtractClientIP r
              in (case isLoginLocked a clientIP adminRole s of
                    (Some resp, s) \<Rightarrow> (resp, s)
                  | (None, s) \<Rightarrow> (case getStoredAdminPassword s of
                        (Inl resp, s) \<Rightarrow> (resp, s)
                      | (Inr storedPassword, s) \<Rightarrow>
                          if \<not> compareAdminPassword a password storedPassword
                          then (problem (Unauthorized ''Wrong password''), handleFailedLogin a clientIP adminRole s)
                          else completeAdminLogin a now r clientIP adminRole s))
     | _ \<Rightarrow> (problem (BadRequest ''Invalid request body''), s))"

definition AdminLogout :: "admin_env \<Rightarrow> request \<Rightarrow> services \<Rightarrow> response \<times> services" where
  "AdminLogout a r s =
     (let jti = GetJTI r; s = (if jti \<noteq> [] \<and> ad_hasRedis a then s\<lparr>sv_redis := revokeAdminJTI jti (sv_redis s)\<rparr> else s)
      in (writeJSON [BuildAuthCookie adminCookie [] (- 1) (isSecure r)] (MessageBody ''Logged out''), s))"

section \<open>Configuration\<close>

record config_updates =
  up_EmailEnabled :: "bool option"
  up_ResendApiKey :: "gostring option"
  up_EmailFrom :: "gostring option"
  up_AdminPassword :: "gostring option"
  up_OldPassword :: "gostring option"

definition maskSensitiveFields :: "(gostring \<times> config_value) list \<Rightarrow> (gostring \<times> config_value) list" where
  "maskSensitiveFields cfg = map (\<lambda>(k, v). (k, if k = adminPasswordKey \<or> k = resendAPIKey then CStr maskedKey else v)) cfg"

definition load_config :: "services \<Rightarrow> (response + app_config) \<times> services" where
  "load_config s = (case on_db (GetConfig (str ''global'')) s of
       (Inl _, s) \<Rightarrow> (Inl (problem (InternalError ''Failed to load config'')), s)
     | (Inr None, s) \<Rightarrow> (Inl (problem (NotFound ''Config not found'')), s)
     | (Inr (Some cfg), s) \<Rightarrow> (Inr cfg, s))"

definition AdminGetConfig :: "services \<Rightarrow> response \<times> services" where
  "AdminGetConfig s = (case load_config s of
       (Inl resp, s) \<Rightarrow> (resp, s)
     | (Inr cfg, s) \<Rightarrow>
         (case (field_bool (cfg_Config cfg) (str ''email_enabled''), field_str (cfg_Config cfg) resendAPIKey,
                field_str (cfg_Config cfg) (str ''email_from''), field_str (cfg_Config cfg) adminPasswordKey) of
            (Some enabled, Some key, Some emailFrom, Some _) \<Rightarrow>
              writeJSON [] (ConfigBody enabled (if key \<noteq> [] then maskedKey else []) emailFrom)
          | _ \<Rightarrow> problem (InternalError ''Internal server error''), s))"

text \<open>A nil map takes no entries.\<close>

definition put :: "gostring \<Rightarrow> config_value \<Rightarrow> (gostring \<times> config_value) list option \<Rightarrow> (gostring \<times> config_value) list option option" where
  "put k v m = (case m of None \<Rightarrow> None | Some al \<Rightarrow> Some (Some (AList.update k v al)))"

definition change_password :: "admin_env \<Rightarrow> gostring \<Rightarrow> gostring option \<Rightarrow> (gostring \<times> config_value) list option \<Rightarrow> services
    \<Rightarrow> ((response + (gostring \<times> config_value) list option) \<times> services) option" where
  "change_password a newPassword oldPassword storedConfig s = (case oldPassword of
       None \<Rightarrow> Some (Inl (problem (BadRequest ''oldPassword required to change adminPassword'')), s)
     | Some old \<Rightarrow>
         let currentPwd = (case Option.bind storedConfig (\<lambda>al. map_of al adminPasswordKey) of Some (CStr p) \<Rightarrow> p | _ \<Rightarrow> [])
         in if \<not> compareAdminPassword a old currentPwd then Some (Inl (problem (Unauthorized ''wrong old password'')), s)
            else (case hashAdminPassword a newPassword s of
                (None, s) \<Rightarrow> Some (Inl (problem (InternalError ''Failed to hash password'')), s)
              | (Some hashed, s) \<Rightarrow> Option.bind (put adminPasswordKey (CStr hashed) storedConfig) (\<lambda>storedConfig.
                  Some (Inr storedConfig, if ad_hasRedis a then s\<lparr>sv_redis := revokeAllAdminSessions (sv_redis s)\<rparr> else s))))"

definition applyConfigUpdates :: "admin_env \<Rightarrow> (gostring \<times> config_value) list option \<Rightarrow> config_updates \<Rightarrow> services
    \<Rightarrow> ((response + (gostring \<times> config_value) list option) \<times> services) option" where
  "applyConfigUpdates a m upd s =
     Option.bind (case up_EmailEnabled upd of None \<Rightarrow> Some m | Some b \<Rightarrow> put (str ''email_enabled'') (CBool b) m) (\<lambda>m.
     let setFrom = (\<lambda>m s. Option.bind (case up_EmailFrom upd of None \<Rightarrow> Some m | Some f \<Rightarrow> put (str ''email_from'') (CStr f) m) (\<lambda>m.
           case up_AdminPassword upd of None \<Rightarrow> Some (Inr m, s) | Some p \<Rightarrow> change_password a p (up_OldPassword upd) m s))
     in case up_ResendApiKey upd of
          None \<Rightarrow> setFrom m s
        | Some key \<Rightarrow>
            if key = maskedKey then setFrom m s
            else let (nonce, s) = draw NonceSize s
                 in (case Encrypt (st_cipher (ad_storage a)) (st_key (ad_storage a)) nonce key of
                       Inl _ \<Rightarrow> Some (Inl (problem (InternalError ''Failed to encrypt API key'')), s)
                     | Inr encrypted \<Rightarrow> Option.bind (put resendAPIKey (CStr encrypted) m) (\<lambda>m. setFrom m s)))"

text \<open>\<^verbatim>\<open>json.Unmarshal\<close> into the map: nil for null, an empty map when the document is not an object.\<close>

definition config_map :: "config_json \<Rightarrow> (gostring \<times> config_value) list option" where
  "config_map j = (case j of NullJSON \<Rightarrow> None | ConfigJSON al \<Rightarrow> Some al | NotObject \<Rightarrow> Some [])"

definition saveConfig :: "int \<Rightarrow> app_config \<Rightarrow> (gostring \<times> config_value) list option \<Rightarrow> services \<Rightarrow> (db_error + unit) \<times> services" where
  "saveConfig now cfg m s =
     on_db (SaveConfig (cfg\<lparr>cfg_Config := (case m of None \<Rightarrow> NullJSON | Some al \<Rightarrow> ConfigJSON al), cfg_UpdatedAt := now\<rparr>)) s"

definition UpdateConfig :: "admin_env \<Rightarrow> int \<Rightarrow> config_updates body \<Rightarrow> services \<Rightarrow> (response \<times> services) option" where
  "UpdateConfig a now b s = (case b of
       JSONBody upd \<Rightarrow> (case load_config s of
           (Inl resp, s) \<Rightarrow> Some (resp, s)
         | (Inr cfg, s) \<Rightarrow> Option.bind (applyConfigUpdates a (config_map (cfg_Config cfg)) upd s) (\<lambda>(res, s). case res of
               Inl resp \<Rightarrow> Some (resp, s)
             | Inr m \<Rightarrow> (case saveConfig now cfg m s of
                   (Inl _, s) \<Rightarrow> Some (problem (InternalError ''Failed to save config''), s)
                 | (Inr _, s) \<Rightarrow> Some (writeJSON [] (MessageBody ''Config updated''), s))))
     | _ \<Rightarrow> Some (problem (BadRequest ''Invalid request body''), s))"

end
