(* ===== verification/Routes.thy ===== *)
theory Routes
  imports Admin
begin

text \<open>
  The routes of the API (\<^verbatim>\<open>server/routes.go\<close>) with the middlewares in front of each handler, and what a request needs to get
  through: \<open>admit\<close> is the decision that a chain of middlewares takes, \<open>serve_is_admit\<close> that the chain does just that.
\<close>

section \<open>Chains of middlewares\<close>

datatype guard = LimitBy gostring | NeedUser | NeedAdmin | Permit gostring gostring

record server_env =
  se_limits :: "(gostring \<times> rate_config) list"
  se_jwt :: jwt_lib
  se_admin :: admin_env
  se_net :: net_lib
  se_AllowedOrigins :: gostring
  se_TrustedProxyCIDRs :: gostring
  se_dev :: bool

fun middleware :: "server_env \<Rightarrow> int \<Rightarrow> guard \<Rightarrow> handler \<Rightarrow> handler" where
  "middleware se now (LimitBy endpoint) = EndpointRateLimit (se_limits se) (se_jwt se) now endpoint"
| "middleware se now NeedUser = authMiddlewareWrapper (se_jwt se) now"
| "middleware se now NeedAdmin = adminAuthMiddleware (se_admin se) now"
| "middleware se now (Permit resource action) = rbac_Middleware resource action"

fun chain :: "server_env \<Rightarrow> int \<Rightarrow> guard list \<Rightarrow> handler \<Rightarrow> handler" where
  "chain se now [] h = h"
| "chain se now (g # gs) h = middleware se now g (chain se now gs h)"

text \<open>\<^verbatim>\<open>setupMiddleware\<close>, without the middlewares that only log, count and trace.\<close>

definition setupMiddleware :: "server_env \<Rightarrow> handler \<Rightarrow> handler" where
  "setupMiddleware se h =
     CORS (AllowedOriginsFromEnv (se_AllowedOrigins se)) (TrustedProxy (se_net se) (se_TrustedProxyCIDRs se) (SecurityHeaders (se_dev se) h))"

section \<open>Routes\<close>

definition routes :: "((gostring \<times> gostring) \<times> guard list) list" where
  "routes = map (\<lambda>(m, p, gs). ((str m, str p), gs))
     [(''POST'', ''/api/v1/auth/quickplay'', [LimitBy EndpointAuthQuickplay]),
      (''GET'', ''/api/v1/auth/check'', []),
      (''POST'', ''/api/v1/auth/refresh'', [LimitBy (str ''auth:refresh'')]),
      (''POST'', ''/api/v1/auth/logout'', []),
      (''GET'', ''/api/v1/user/data'', [LimitBy (str ''user:data''), NeedUser, Permit (str ''user_data'') (str ''read'')]),
      (''DELETE'', ''/api/v1/user/data'', [LimitBy (str ''user:data''), NeedUser, Permit (str ''user_data'') (str ''delete'')]),
      (''GET'', ''/api/v1/stats/public'', [LimitBy (str ''stats:public'')]),
      (''GET'', ''/api/v1/leaderboard'', [LimitBy (str ''stats:leaderboard'')]),
      (''GET'', ''/api/v1/user/stats'', [LimitBy (str ''user:stats''), NeedUser, Permit (str ''user_data'') (str ''read'')]),
      (''POST'', ''/api/v1/registry/create'', [LimitBy EndpointRegistryCreate, NeedUser, Permit (str ''lobby'') (str ''create'')]),
      (''GET'', ''/api/v1/registry/check/{code}'', [LimitBy (str ''registry:check''), Permit (str ''lobby'') (str ''read'')]),
      (''GET'', ''/api/v1/registry/lobbies'', [LimitBy (str ''registry:lobbies''), Permit (str ''lobby'') (str ''read'')]),
      (''POST'', ''/api/v1/registry/match'', [LimitBy (str ''registry:match''), NeedUser, Permit (str ''lobby'') (str ''join'')]),
      (''GET'', ''/api/v1/lobby/{code}/ws'', [NeedUser, Permit (str ''lobby'') (str ''join'')]),
      (''POST'', ''/api/v1/admin/login'', [LimitBy (str ''admin:login'')]),
      (''POST'', ''/api/v1/admin/logout'', [NeedAdmin]),
      (''GET'', ''/api/v1/admin/config'', [NeedAdmin, Permit (str ''config'') (str ''read'')]),
      (''PATCH'', ''/api/v1/admin/config'', [NeedAdmin, Permit (str ''config'') (str ''write'')]),
      (''PUT'', ''/api/v1/admin/config'', [NeedAdmin, Permit (str ''config'') (str ''write'')])]"

section \<open>Who gets through\<close>

text \<open>What a middleware decides: a response of its own, or the request and the services that it hands on.\<close>

fun admit_user :: "jwt_lib \<Rightarrow> int \<Rightarrow> gostring list \<Rightarrow> request \<Rightarrow> services \<Rightarrow> (response + request) \<times> services" where
  "admit_user jl now [] r s = (Inl (problem (Unauthorized ''Unauthorized'')), s)"
| "admit_user jl now (name # names) r s =
     (let (userId, nickname, jti, role) = tryCookie jl now r name
      in if userId = [] then admit_user jl now names r s
         else case on_redis (IsJWTRevoked jti) s of
                (Inr False, s) \<Rightarrow> (Inr (authenticated_request userId nickname jti role r), s)
              | (_, s) \<Rightarrow> (Inl (problem (Unauthorized ''Unauthorized'')), s))"

fun admit1 :: "server_env \<Rightarrow> int \<Rightarrow> guard \<Rightarrow> request \<Rightarrow> services \<Rightarrow> (response + request) \<times> services" where
  "admit1 se now (LimitBy endpoint) r s =
     (let cfg = endpoint_config (se_limits se) endpoint;
          (res, lim) = CheckRateLimit (endpoint_key (se_jwt se) now r endpoint) (rl_Requests cfg) (rl_Window cfg) (sv_limits s);
          refuse = (\<lambda>msg. Inl (setRateLimitHeaders (rl_Requests cfg) (rl_Window cfg) (problem (TooManyRequests msg))))
      in (case res of
            Inl _ \<Rightarrow> if rl_FailClosed cfg then refuse ''Service temporarily unavailable. Please try again later.'' else Inr r
          | Inr allowed \<Rightarrow> if allowed then Inr r else refuse ''Too many requests. Please try again later.'',
          s\<lparr>sv_limits := lim\<rparr>))"
| "admit1 se now NeedUser r s = admit_user (se_jwt se) now [SessionCookie, QuickplayCookie] r s"
| "admit1 se now NeedAdmin r s = (case VerifyAdminTokenClaims (se_admin se) now r s of
       (None, s) \<Rightarrow> (Inl (problem (Unauthorized ''Unauthorized'')), s)
     | (Some c, s) \<Rightarrow> (Inr (WithJTI (jc_ID c) (r\<lparr>rq_Role := Some RoleAdmin\<rparr>)), s))"
| "admit1 se now (Permit resource action) r s =
     ((if CheckPermission (request_role r) resource action then Inr r else Inl (problem (Forbidden ''insufficient permissions''))), s)"

fun admit :: "server_env \<Rightarrow> int \<Rightarrow> guard list \<Rightarrow> request \<Rightarrow> services \<Rightarrow> (response + request) \<times> services" where
  "admit se now [] r s = (Inr r, s)"
| "admit se now (g # gs) r s = (case admit1 se now g r s of (Inl resp, s) \<Rightarrow> (Inl resp, s) | (Inr r, s) \<Rightarrow> admit se now gs r s)"

definition decide :: "handler \<Rightarrow> (response + request) \<times> services \<Rightarrow> (response \<times> services) option" where
  "decide h x = (case x of (Inl resp, s) \<Rightarrow> Some (resp, s) | (Inr r, s) \<Rightarrow> h r s)"

lemma auth_cookies_admit: "auth_cookies jl True False now h names r s = decide h (admit_user jl now names r s)"
proof (induction names)
  case (Cons name names)
  then show ?case by (auto simp: decide_def Let_def split: prod.split sum.split bool.split)
qed (simp add: decide_def)

lemma middleware_admit: "middleware se now g h r s = decide h (admit1 se now g r s)"
  by (cases g) (auto simp: decide_def EndpointRateLimit_def limited_def authMiddlewareWrapper_def AuthMiddleware_def auth_cookies_admit
      adminAuthMiddleware_def rbac_Middleware_def Let_def simp del: auth_cookies.simps admit_user.simps split: prod.split sum.split option.split)

lemma serve_is_admit: "chain se now gs h r s = decide h (admit se now gs r s)"
proof (induction gs arbitrary: r s)
  case (Cons g gs)
  then show ?case by (auto simp: middleware_admit decide_def simp del: middleware.simps admit1.simps split: prod.split sum.split)
qed (simp add: decide_def)

end
