(* ===== verification/Auth_Properties.thy ===== *)
theory Auth_Properties
  imports Auth_Handler
begin

text \<open>
  What authentication guarantees: no user without a token that verifies and that Redis has cleared; a logout that holds
  whatever happens later; credentials that work; and the detection of refresh tokens that are used twice.
\<close>

section \<open>No user without a cleared token\<close>

text \<open>A later state of Redis after commands that only read: what is still alive then is the same.\<close>

definition reads :: "token_redis \<Rightarrow> token_redis \<Rightarrow> bool" where
  "reads rd rd' \<longleftrightarrow> tk_clock rd' = tk_clock rd \<and> tk_attempts rd' = tk_attempts rd \<and> tk_pos rd \<le> tk_pos rd' \<and> alive (tk_now rd') (tk_kv rd') = alive (tk_now rd') (tk_kv rd)"

lemma alive_alive: "t \<le> t' \<Longrightarrow> alive t' (alive t s) = alive t' s"
  by (rule ext) (auto simp: alive_def split: option.split)

lemma reads_refl [simp]: "reads rd rd"
  by (simp add: reads_def)

lemma reads_trans:
  assumes "mono (tk_clock rd)" "reads rd rd1" "reads rd1 rd2"
  shows "reads rd rd2"
proof -
  have "tk_now rd1 \<le> tk_now rd2" using assms by (simp add: reads_def tk_now_def mono_def)
  then have "alive (tk_now rd2) (tk_kv rd1) = alive (tk_now rd2) (tk_kv rd)"
    using assms(2) alive_alive [of "tk_now rd1" "tk_now rd2"] unfolding reads_def by metis
  then show ?thesis using assms by (simp add: reads_def)
qed

lemma IsJWTRevoked_redis: "snd (IsJWTRevoked jti rd) = snd (tk_exec (t_get (jwtRevokedKey jti)) rd)"
  by (auto simp: IsJWTRevoked_def split: prod.split sum.split option.split)

lemma IsJWTRevoked_reads:
  assumes "mono (tk_clock rd)"
  shows "reads rd (snd (IsJWTRevoked jti rd))"
proof -
  have now: "tk_now rd \<le> tk_now (snd (tk_exec (t_get (jwtRevokedKey jti)) rd))" using assms by (simp add: tk_now_def mono_def)
  have "snd (t_get k n s) = s" for k n s by (auto simp: t_get_def split: option.split tvalue.split)
  then show ?thesis unfolding IsJWTRevoked_redis reads_def using tk_exec_kv [of "t_get (jwtRevokedKey jti)" rd] alive_alive [OF now] by auto
qed

lemma IsJWTRevoked_pos: "tk_pos (snd (IsJWTRevoked jti rd)) = Suc (tk_pos rd)"
  by (simp add: IsJWTRevoked_redis)

lemma IsJWTRevoked_cleared:
  "fst (IsJWTRevoked jti rd) = Inr False \<Longrightarrow> tk_attempts rd (tk_pos rd) = Runs \<and>
     (\<forall>v x. alive (tk_now rd) (tk_kv rd) (jwtRevokedKey jti) = Some (TStr v, x) \<longrightarrow> v = [])"
  by (auto simp: IsJWTRevoked_def tk_exec_def t_get_def Let_def split: attempt.splits option.splits tvalue.splits prod.splits)

lemma IsJWTRevoked_empty:
  "fst (IsJWTRevoked jti rd) = Inr False \<Longrightarrow> alive (tk_now rd) (tk_kv rd) (jwtRevokedKey jti) \<in> insert None (range (\<lambda>x. Some (TStr [], x)))"
proof -
  have "Sprint_int n \<noteq> []" for n using Itoa_digits by (simp add: Sprint_int_def)
  then show "fst (IsJWTRevoked jti rd) = Inr False \<Longrightarrow> alive (tk_now rd) (tk_kv rd) (jwtRevokedKey jti) \<in> insert None (range (\<lambda>x. Some (TStr [], x)))"
    by (auto simp: IsJWTRevoked_def tk_exec_def t_get_def Let_def split: attempt.splits option.splits tvalue.splits prod.splits)
qed

text \<open>A token of the request that verifies, and that Redis has answered not to be revoked: the answer came at the latest with the
  command that belongs to the place of the cookie.\<close>

definition cleared :: "jwt_lib \<Rightarrow> int \<Rightarrow> request \<Rightarrow> gostring list \<Rightarrow> token_redis \<Rightarrow> gostring \<Rightarrow> gostring \<Rightarrow> bool" where
  "cleared jl now r names rd uid nick \<longleftrightarrow> uid \<noteq> [] \<and> (\<exists>i v jti role rd1. i < length names \<and> Cookie r (names ! i) = Some v
     \<and> VerifyToken jl now v = Inr (uid, nick, jti, role) \<and> reads rd rd1
     \<and> tk_pos rd1 \<le> tk_pos rd + i \<and> fst (IsJWTRevoked jti rd1) = Inr False)"

lemma from_cookies_cleared:
  assumes "fst (from_cookies jl True now r names rd) = Some (uid, nick)" "mono (tk_clock rd)"
  shows "cleared jl now r names rd uid nick"
  using assms
proof (induction names arbitrary: rd)
  case (Cons name names)
  obtain u n jti role where t: "tryCookie jl now r name = (u, n, jti, role)" by (cases "tryCookie jl now r name")
  obtain res rd1 where c: "IsJWTRevoked jti rd = (res, rd1)" by (cases "IsJWTRevoked jti rd")
  have rd1: "reads rd rd1" "tk_pos rd1 = Suc (tk_pos rd)" using IsJWTRevoked_reads [OF Cons.prems(2), of jti] IsJWTRevoked_pos [of jti rd] c by simp_all
  have IH: ?case if f: "fst (from_cookies jl True now r names rd2) = Some (uid, nick)" "reads rd rd2" "tk_pos rd2 \<le> Suc (tk_pos rd)" for rd2
  proof -
    have "mono (tk_clock rd2)" using Cons.prems(2) f(2) by (simp add: reads_def)
    from Cons.IH [OF f(1) this] obtain i v jti role rd3 where g: "uid \<noteq> []" "i < length names" "Cookie r (names ! i) = Some v"
      "VerifyToken jl now v = Inr (uid, nick, jti, role)" "reads rd2 rd3" "tk_pos rd3 \<le> tk_pos rd2 + i" "fst (IsJWTRevoked jti rd3) = Inr False"
      unfolding cleared_def by blast
    have "Suc i < length (name # names)" "Cookie r ((name # names) ! Suc i) = Some v" "tk_pos rd3 \<le> tk_pos rd + Suc i"
      using g(2,3,6) f(3) by simp_all
    then show ?thesis using g(1,4,7) reads_trans [OF Cons.prems(2) f(2) g(5)] unfolding cleared_def by blast
  qed
  show ?case
  proof (cases "u = []")
    case True
    then show ?thesis using Cons.prems(1) t IH [of rd] by simp
  next
    case False
    then obtain v where v: "Cookie r name = Some v" "VerifyToken jl now v = Inr (u, n, jti, role)"
      using t by (auto simp: tryCookie_def split: option.splits if_splits sum.splits)
    show ?thesis
    proof (cases "res = Inr False")
      case True
      then show ?thesis using Cons.prems(1) t False c v unfolding cleared_def
        by (intro conjI exI [of _ 0] exI [of _ v] exI [of _ jti] exI [of _ role] exI [of _ rd]) auto
    next
      case no: False
      then have "fst (from_cookies jl True now r names rd1) = Some (uid, nick)"
        using Cons.prems(1) t False c by (auto split: sum.splits bool.splits)
      then show ?thesis using IH rd1 by simp
    qed
  qed
qed simp

text \<open>Where the cookies are the two of the server: which of the next two commands has given the answer, and what it was.\<close>

lemma user_cleared_at:
  assumes "fst (authenticatedUserFromCookies jl True now r rd) = Some (uid, nick)" "GetAuthenticatedUser r = None" "mono (tk_clock rd)"
  obtains name v jti role k where "uid \<noteq> []" "name = SessionCookie \<and> k = 0 \<or> name = QuickplayCookie \<and> k \<le> 1" "Cookie r name = Some v"
    "VerifyToken jl now v = Inr (uid, nick, jti, role)" "tk_attempts rd (tk_pos rd + k) = Runs"
    "alive (tk_clock rd (tk_pos rd + k)) (tk_kv rd) (jwtRevokedKey jti) \<in> insert None (range (\<lambda>x. Some (TStr [], x)))"
proof -
  have "cleared jl now r [SessionCookie, QuickplayCookie] rd uid nick"
    using from_cookies_cleared assms by (simp add: authenticatedUserFromCookies_def)
  then obtain i v jti role rd1 where c: "uid \<noteq> []" "i < 2" "Cookie r ([SessionCookie, QuickplayCookie] ! i) = Some v"
    "VerifyToken jl now v = Inr (uid, nick, jti, role)" "reads rd rd1" "tk_pos rd1 \<le> tk_pos rd + i" "fst (IsJWTRevoked jti rd1) = Inr False"
    by (simp add: cleared_def eval_nat_numeral) blast
  define k where "k = tk_pos rd1 - tk_pos rd"
  have k: "tk_pos rd1 = tk_pos rd + k" "k \<le> i" using c(5,6) by (simp_all add: k_def reads_def)
  have n1: "tk_now rd1 = tk_clock rd (tk_pos rd + k)" using c(5) k(1) by (simp add: reads_def tk_now_def)
  have a: "alive (tk_now rd1) (tk_kv rd1) = alive (tk_clock rd (tk_pos rd + k)) (tk_kv rd)" "tk_attempts rd1 = tk_attempts rd"
    using c(5) unfolding n1 [symmetric] by (simp_all add: reads_def)
  have n: "[SessionCookie, QuickplayCookie] ! i = SessionCookie \<and> k = 0 \<or> [SessionCookie, QuickplayCookie] ! i = QuickplayCookie \<and> k \<le> 1"
    using c(2) k(2) by (cases i) auto
  note cl = IsJWTRevoked_cleared [OF c(7)]
  show thesis
  proof (rule that [OF c(1) n c(3,4)])
    show "tk_attempts rd (tk_pos rd + k) = Runs" using cl a k(1) by simp
    show "alive (tk_clock rd (tk_pos rd + k)) (tk_kv rd) (jwtRevokedKey jti) \<in> insert None (range (\<lambda>x. Some (TStr [], x)))"
      using IsJWTRevoked_empty [OF c(7)] unfolding a .
  qed
qed

text \<open>C28: A request is attributed to a user only on the strength of a cookie whose token verifies for this user and for which Redis
  has answered that it is not revoked. The answer is that of the next command, or for the second cookie of the one after it; this
  command has run, and at its time the key of the revocation was not there, or empty. So the request has no user when neither of the
  two commands runs, nor when the keys of all its tokens are set throughout.\<close>

theorem authentication_fails_closed:
  assumes "GetAuthenticatedUser r = None" "mono (tk_clock rd)"
  shows "(fst (authenticatedUserFromCookies jl True now r rd) = Some (uid, nick) \<longrightarrow>
      uid \<noteq> [] \<and> (\<exists>name v jti role k. (name = SessionCookie \<and> k = 0 \<or> name = QuickplayCookie \<and> k \<le> 1) \<and> Cookie r name = Some v
        \<and> VerifyToken jl now v = Inr (uid, nick, jti, role) \<and> tk_attempts rd (tk_pos rd + k) = Runs
        \<and> (alive (tk_clock rd (tk_pos rd + k)) (tk_kv rd) (jwtRevokedKey jti) = None
           \<or> (\<exists>x. alive (tk_clock rd (tk_pos rd + k)) (tk_kv rd) (jwtRevokedKey jti) = Some (TStr [], x)))))
    \<and> (tk_attempts rd (tk_pos rd) \<noteq> Runs \<and> tk_attempts rd (Suc (tk_pos rd)) \<noteq> Runs \<longrightarrow>
        fst (authenticatedUserFromCookies jl True now r rd) = None)
    \<and> ((\<forall>name v uid nick jti role k. Cookie r name = Some v \<and> VerifyToken jl now v = Inr (uid, nick, jti, role) \<and> k \<le> 1 \<longrightarrow>
          (\<exists>w x. w \<noteq> [] \<and> alive (tk_clock rd (tk_pos rd + k)) (tk_kv rd) (jwtRevokedKey jti) = Some (TStr w, x))) \<longrightarrow>
        fst (authenticatedUserFromCookies jl True now r rd) = None)"
proof (intro conjI impI)
  assume "fst (authenticatedUserFromCookies jl True now r rd) = Some (uid, nick)"
  from user_cleared_at [OF this assms] show "uid \<noteq> []" by metis
next
  assume "fst (authenticatedUserFromCookies jl True now r rd) = Some (uid, nick)"
  from user_cleared_at [OF this assms] show "\<exists>name v jti role k. (name = SessionCookie \<and> k = 0 \<or> name = QuickplayCookie \<and> k \<le> 1) \<and> Cookie r name = Some v
        \<and> VerifyToken jl now v = Inr (uid, nick, jti, role) \<and> tk_attempts rd (tk_pos rd + k) = Runs
        \<and> (alive (tk_clock rd (tk_pos rd + k)) (tk_kv rd) (jwtRevokedKey jti) = None
           \<or> (\<exists>x. alive (tk_clock rd (tk_pos rd + k)) (tk_kv rd) (jwtRevokedKey jti) = Some (TStr [], x)))"
    unfolding insert_iff image_iff by metis
next
  assume out: "tk_attempts rd (tk_pos rd) \<noteq> Runs \<and> tk_attempts rd (Suc (tk_pos rd)) \<noteq> Runs"
  show "fst (authenticatedUserFromCookies jl True now r rd) = None"
  proof (rule ccontr)
    assume "fst (authenticatedUserFromCookies jl True now r rd) \<noteq> None"
    then obtain u n where "fst (authenticatedUserFromCookies jl True now r rd) = Some (u, n)" by auto
    from user_cleared_at [OF this assms] obtain k where "k \<le> 1" "tk_attempts rd (tk_pos rd + k) = Runs" by (metis le0)
    then show False using out by (cases k) auto
  qed
next
  assume rev: "\<forall>name v uid nick jti role k. Cookie r name = Some v \<and> VerifyToken jl now v = Inr (uid, nick, jti, role) \<and> k \<le> 1 \<longrightarrow>
          (\<exists>w x. w \<noteq> [] \<and> alive (tk_clock rd (tk_pos rd + k)) (tk_kv rd) (jwtRevokedKey jti) = Some (TStr w, x))"
  show "fst (authenticatedUserFromCookies jl True now r rd) = None"
  proof (rule ccontr)
    assume "fst (authenticatedUserFromCookies jl True now r rd) \<noteq> None"
    then obtain u n where "fst (authenticatedUserFromCookies jl True now r rd) = Some (u, n)" by auto
    from user_cleared_at [OF this assms] obtain name v jti role k where k: "k \<le> 1" "Cookie r name = Some v" "VerifyToken jl now v = Inr (u, n, jti, role)"
      "alive (tk_clock rd (tk_pos rd + k)) (tk_kv rd) (jwtRevokedKey jti) \<in> insert None (range (\<lambda>x. Some (TStr [], x)))" by (metis le0)
    then show False using rev [rule_format, of name v u n jti role k] by auto
  qed
qed

section \<open>Logout\<close>

text \<open>The key is set until \<open>x\<close>, or this time has come; a token is marked when the key of its revocation is.\<close>

definition key_held :: "gostring \<Rightarrow> int \<Rightarrow> token_redis \<Rightarrow> bool" where
  "key_held k x rd \<longleftrightarrow> (\<exists>y \<ge> x. tk_kv rd k = Some (TStr (str ''1''), Some y)) \<or> x \<le> tk_now rd"

definition marked :: "gostring \<Rightarrow> int \<Rightarrow> token_redis \<Rightarrow> bool" where
  "marked jti = key_held (jwtRevokedKey jti)"

lemma jwt_apart [simp]:
  "jwtRevokedKey j \<noteq> refreshTokenPrefix @ t" "jwtRevokedKey j \<noteq> refreshTokenReusePrefix @ t" "jwtRevokedKey j \<noteq> userTokensSetPrefix @ t"
  "jwtRevokedKey j = jwtRevokedKey j' \<longleftrightarrow> j = j'"
  by (auto simp: jwtRevokedKey_def refreshTokenPrefix_def refreshTokenReusePrefix_def userTokensSetPrefix_def str_def)

lemma held_exec:
  assumes "key_held k x rd" "mono (tk_clock rd)" "\<And>s. snd (f (tk_now rd) s) k = s k"
  shows "key_held k x (snd (tk_exec f rd))"
proof -
  have n: "tk_now rd \<le> tk_now (snd (tk_exec f rd))" using assms(2) by (simp add: tk_now_def mono_def)
  consider "tk_kv (snd (tk_exec f rd)) k = tk_kv rd k" | "tk_kv (snd (tk_exec f rd)) k = alive (tk_now rd) (tk_kv rd) k"
    using tk_exec_kv [of f rd] assms(3) by auto
  then show ?thesis using assms(1) n by cases (auto simp: key_held_def alive_def split: if_splits)
qed

lemma held_set:
  assumes "mono (tk_clock rd)" "x \<le> tk_now rd + ttl" "0 < ttl"
  shows "key_held k x rd \<Longrightarrow> key_held k x (snd (tk_exec (t_set k (str ''1'') ttl) rd))"
    "tk_attempts rd (tk_pos rd) = Runs \<Longrightarrow> key_held k x (snd (tk_exec (t_set k (str ''1'') ttl) rd))"
proof -
  let ?rd = "snd (tk_exec (t_set k (str ''1'') ttl) rd)"
  have n: "tk_now rd \<le> tk_now ?rd" using assms(1) by (simp add: tk_now_def mono_def)
  have e: "expires n ttl = Some (n + ttl)" for n using assms(3) by (simp add: expires_def)
  show "key_held k x rd \<Longrightarrow> key_held k x ?rd"
    using tk_exec_kv [of "t_set k (str ''1'') ttl" rd] n assms(2) by (auto simp: key_held_def t_set_def e)
  show "tk_attempts rd (tk_pos rd) = Runs \<Longrightarrow> key_held k x ?rd"
    using assms(2) by (simp add: tk_exec_def key_held_def t_set_def e Let_def)
qed

lemma RevokeJWT_marks:
  assumes "mono (tk_clock rd)" "x \<le> tk_now rd + ttl" "0 < ttl"
  shows "marked jti x rd \<Longrightarrow> marked jti x (snd (RevokeJWT jti' ttl rd))"
    "tk_attempts rd (tk_pos rd) = Runs \<Longrightarrow> marked jti x (snd (RevokeJWT jti ttl rd))"
proof -
  show "marked jti x (snd (RevokeJWT jti' ttl rd))" if m: "marked jti x rd"
  proof (cases "jti' = jti")
    case True
    then show ?thesis using held_set(1) [OF assms] m by (simp add: RevokeJWT_def marked_def)
  next
    case False
    then show ?thesis using m unfolding RevokeJWT_def marked_def by (intro held_exec assms(1)) (simp_all add: t_set_def)
  qed
  show "tk_attempts rd (tk_pos rd) = Runs \<Longrightarrow> marked jti x (snd (RevokeJWT jti ttl rd))"
    using held_set(2) [OF assms] by (simp add: RevokeJWT_def marked_def)
qed

lemma RevokeJWT_time [simp]: "tk_clock (snd (RevokeJWT jti ttl rd)) = tk_clock rd" "tk_attempts (snd (RevokeJWT jti ttl rd)) = tk_attempts rd"
  "tk_pos (snd (RevokeJWT jti ttl rd)) = Suc (tk_pos rd)"
  by (simp_all add: RevokeJWT_def)

definition presents :: "jwt_lib \<Rightarrow> int \<Rightarrow> request \<Rightarrow> gostring \<Rightarrow> gostring \<Rightarrow> bool" where
  "presents jl now r jti name \<longleftrightarrow> jti \<noteq> []
     \<and> (\<exists>v uid nick role. Cookie r name = Some v \<and> v \<noteq> [] \<and> VerifyToken jl now v = Inr (uid, nick, jti, role))"

lemma AccessTokenTTL_pos: "0 < AccessTokenTTL"
  by (simp add: AccessTokenTTL_def)

lemma revoke_cookies_marks:
  assumes "mono (tk_clock rd)" "x \<le> tk_now rd + AccessTokenTTL" "\<And>n. tk_attempts rd n = Runs"
    and "marked jti x rd \<or> (\<exists>name \<in> set names. presents jl now r jti name)"
  shows "marked jti x (snd (revoke_cookies jl True now r names u rd)) \<and> tk_clock (snd (revoke_cookies jl True now r names u rd)) = tk_clock rd"
  using assms
proof (induction names arbitrary: u rd)
  case (Cons name names)
  show ?case
  proof (cases "\<exists>v uid nick j role. Cookie r name = Some v \<and> v \<noteq> [] \<and> VerifyToken jl now v = Inr (uid, nick, j, role)")
    case False
    then have "revoke_cookies jl True now r (name # names) u rd = revoke_cookies jl True now r names u rd"
      by (auto split: option.split sum.split)
    moreover have "marked jti x rd \<or> (\<exists>name \<in> set names. presents jl now r jti name)" 
    proof -
      have "\<not> presents jl now r jti name" using False by (auto simp: presents_def)
      then show ?thesis using Cons.prems(4) by auto
    qed
    ultimately show ?thesis using Cons.prems(1-3) Cons.IH [of rd u] by presburger
  next
    case True
    then obtain v uid nick j role where v: "Cookie r name = Some v" "v \<noteq> []" "VerifyToken jl now v = Inr (uid, nick, j, role)" by blast
    define rd1 where "rd1 = (if j \<noteq> [] then snd (RevokeJWT j AccessTokenTTL rd) else rd)"
    have f: "tk_clock rd1 = tk_clock rd" "tk_attempts rd1 = tk_attempts rd" "tk_now rd \<le> tk_now rd1"
      using Cons.prems(1) by (auto simp: rd1_def tk_now_def mono_def)
    have "presents jl now r jti name \<Longrightarrow> j = jti \<and> j \<noteq> []" using v by (auto simp: presents_def)
    then have m: "marked jti x rd1 \<or> (\<exists>name \<in> set names. presents jl now r jti name)"
      using Cons.prems(3,4) RevokeJWT_marks [OF Cons.prems(1,2) AccessTokenTTL_pos] by (auto simp: rd1_def)
    have x: "x \<le> tk_now rd1 + AccessTokenTTL" using Cons.prems(2) f(3) by simp
    show ?thesis using v Cons.IH [of rd1 "if uid \<noteq> [] then uid else u"] Cons.prems f m x by (simp add: rd1_def)
  qed
qed simp

lemma consume_keeps_revoked:
  "snd (consumeRefreshTokenScript (refreshTokenPrefix @ t) (refreshTokenReusePrefix @ t) c n s) (jwtRevokedKey jti) = s (jwtRevokedKey jti)"
  by (auto simp: consumeRefreshTokenScript_def t_bind_def t_get_def t_del_def t_set_def t_return_def split: option.split tvalue.split)

lemma revoke_all_keeps_revoked:
  "snd (revokeAllForUserScript (userTokensSetPrefix @ u) refreshTokenPrefix n s) (jwtRevokedKey jti) = s (jwtRevokedKey jti)"
  by (auto simp: revokeAllForUserScript_def t_bind_def t_smembers_def t_del_def t_return_def split: option.split tvalue.split)

lemma RevokeAllTokens_marks:
  assumes "mono (tk_clock rd)" "x \<le> tk_now rd + AccessTokenTTL" "\<And>n. tk_attempts rd n = Runs" "ae_hasRedis e"
    and "name \<in> {SessionCookie, QuickplayCookie}" "Cookie r name = Some v" "v \<noteq> []"
    and "VerifyToken (ae_jwt e) now v = Inr (uid, nick, jti, role)" "jti \<noteq> []"
  shows "marked jti x (snd (RevokeAllTokens e now r rd))"
proof -
  obtain u rd1 where c: "revoke_cookies (ae_jwt e) True now r [SessionCookie, QuickplayCookie] [] rd = (u, rd1)"
    by (cases "revoke_cookies (ae_jwt e) True now r [SessionCookie, QuickplayCookie] [] rd")
  have p: "presents (ae_jwt e) now r jti name" "name \<in> set [SessionCookie, QuickplayCookie]" using assms(5-9) by (auto simp: presents_def)
  have m: "marked jti x rd1" "mono (tk_clock rd1)"
    using revoke_cookies_marks [OF assms(1-3) disjI2, OF bexI, OF p, where u = "[]"] assms(1) c by (simp_all del: revoke_cookies.simps)
  have cons: "marked jti x (snd (ConsumeRefreshToken t rd1))" "mono (tk_clock (snd (ConsumeRefreshToken t rd1)))" for t
    using m by (auto simp: consume_redis marked_def intro: held_exec simp: consume_keeps_revoked)
  have all: "marked jti x (snd (RevokeAllForUser w rd2))" if "marked jti x rd2" "mono (tk_clock rd2)" for w rd2
    using that unfolding revoke_all_redis marked_def by (rule held_exec) (rule revoke_all_keeps_revoked)
  show ?thesis using c m cons all assms(4) by (auto simp: RevokeAllTokens_def Let_def split: prod.splits sum.splits) (metis snd_conv)+
qed

lemma Logout_marks:
  assumes "mono (tk_clock (sv_redis s))" "\<And>n. tk_attempts (sv_redis s) n = Runs" "ae_hasRedis e" "b \<noteq> BadBody"
    and "name \<in> {SessionCookie, QuickplayCookie}" "Cookie r name = Some v" "v \<noteq> []"
    and "VerifyToken (ae_jwt e) now v = Inr (uid, nick, jti, role)" "jti \<noteq> []"
  shows "marked jti (tk_now (sv_redis s) + AccessTokenTTL) (sv_redis (snd (Logout e now r b s)))"
proof -
  let ?rd = "if body_token r b \<noteq> [] \<and> ae_hasRefresh e then snd (Revoke (body_token r b) (sv_redis s)) else sv_redis s"
  have "tk_clock ?rd = tk_clock (sv_redis s)" "tk_attempts ?rd = tk_attempts (sv_redis s)" "tk_now (sv_redis s) \<le> tk_now ?rd"
    using assms(1) by (auto simp: Revoke_def tk_now_def mono_def)
  moreover have "sv_redis (snd (Logout e now r b s)) = snd (RevokeAllTokens e now r ?rd)"
    using assms(4) by (simp add: Logout_def on_redis_def Let_def split_def)
  ultimately show ?thesis using RevokeAllTokens_marks [of ?rd _ e name r v now uid nick jti role] assms by simp
qed

text \<open>C10: A logout is final: once a request with the cookie of a session was answered by \<^verbatim>\<open>Logout\<close>, and Redis worked meanwhile, no later
  request that presents this cookie has a user, whatever Redis does then; the list of revoked tokens outlives the token.
  The clocks of the server and of Redis may run apart by the \<open>age\<close> that the token had.\<close>

theorem logout_final:
  assumes "jwt_lib_ok (ae_jwt e)" "ae_hasRedis e" "b \<noteq> BadBody" "mono (tk_clock (sv_redis s))" "\<And>n. tk_attempts (sv_redis s) n = Runs"
    and "name \<in> {SessionCookie, QuickplayCookie}" "Cookie r name = Some v" "v \<noteq> []"
    and "jl_alg (ae_jwt e) v = Some ES256" "jl_parse (ae_jwt e) now (Some (JWTIssuer, JWTAudience)) v = Some c" "jc_ID c \<noteq> []"
    and "jc_ExpiresAt c * 1000 + age \<le> now + AccessTokenTTL"
    and "Logout e now r b s = (resp, s')" "tk_kv rd (jwtRevokedKey (jc_ID c)) = tk_kv (sv_redis s') (jwtRevokedKey (jc_ID c))"
    and "mono (tk_clock rd)" "tk_now (sv_redis s') \<le> tk_now rd" "tk_clock rd (Suc (tk_pos rd)) - tk_now (sv_redis s) \<le> now' - now + age"
    and "GetAuthenticatedUser r' = None" "\<And>n w. n \<in> {SessionCookie, QuickplayCookie} \<Longrightarrow> Cookie r' n = Some w \<Longrightarrow> w = v"
  shows "fst (authenticatedUserFromCookies (ae_jwt e) True now' r' rd) = None"
proof (rule ccontr)
  assume "fst (authenticatedUserFromCookies (ae_jwt e) True now' r' rd) \<noteq> None"
  then obtain uid nick where a: "fst (from_cookies (ae_jwt e) True now' r' [SessionCookie, QuickplayCookie] rd) = Some (uid, nick)"
    using assms(18) by (auto simp: authenticatedUserFromCookies_def)
  from from_cookies_cleared [OF a assms(15)] obtain i w jti role rd1 where i: "i < length [SessionCookie, QuickplayCookie]" "Cookie r' ([SessionCookie, QuickplayCookie] ! i) = Some w"
    and c3: "VerifyToken (ae_jwt e) now' w = Inr (uid, nick, jti, role)" "reads rd rd1" "tk_pos rd1 \<le> tk_pos rd + i" "fst (IsJWTRevoked jti rd1) = Inr False"
    unfolding cleared_def by blast
  define n where "n = [SessionCookie, QuickplayCookie] ! i"
  have n: "n \<in> {SessionCookie, QuickplayCookie}" "tk_pos rd1 < tk_pos rd + 2" using i(1) c3(3) by (auto simp: n_def nth_Cons split: nat.split)
  note c = n(1) i(2) [folded n_def] c3(1,2) n(2) c3(4)
  have w: "w = v" by (rule assms(19) [OF c(1,2)])
  obtain c' where c': "jl_parse (ae_jwt e) now' (Some (JWTIssuer, JWTAudience)) v = Some c'" "jti = jc_ID c'"
    using c(3) w by (auto simp: VerifyToken_def split: if_splits option.splits)
  have j: "jti = jc_ID c" "now' < jc_ExpiresAt c * 1000" using assms(1,10) c' unfolding jwt_lib_ok_def by blast+
  have v: "VerifyToken (ae_jwt e) now v = Inr (jc_Subject c, jc_Nickname c, jc_ID c, if jc_Role c = [] then RoleUser else jc_Role c)"
    using assms(9,10) by (simp add: VerifyToken_def)
  have m: "marked (jc_ID c) (tk_now (sv_redis s) + AccessTokenTTL) (sv_redis s')"
    using Logout_marks [OF assms(4,5,2,3,6-8) v assms(11)] assms(13) by simp
  have "tk_now rd1 \<le> tk_clock rd (Suc (tk_pos rd))" using c(4,5) assms(15) by (auto simp: reads_def tk_now_def mono_def)
  then have t: "tk_now rd1 < tk_now (sv_redis s) + AccessTokenTTL" using assms(12,17) j(2) by linarith
  have "tk_now (sv_redis s') \<le> tk_now rd1" using assms(15,16) c(4) by (auto simp: reads_def tk_now_def mono_def intro: order_trans)
  then obtain y where y: "tk_now (sv_redis s) + AccessTokenTTL \<le> y" "tk_kv rd (jwtRevokedKey (jc_ID c)) = Some (TStr (str ''1''), Some y)"
    using m t assms(14) by (auto simp: marked_def key_held_def)
  then have "alive (tk_now rd1) (tk_kv rd1) (jwtRevokedKey jti) = Some (TStr (str ''1''), Some y)"
    using c(4) t j(1) by (simp add: reads_def alive_simps)
  then show False using IsJWTRevoked_cleared [OF c(6)] by (auto simp: str_def)
qed

section \<open>Credentials\<close>

text \<open>What a user can do with an access token and a refresh token.\<close>

definition access_works :: "jwt_lib \<Rightarrow> int \<Rightarrow> gostring \<Rightarrow> gostring \<Rightarrow> gostring \<Rightarrow> bool" where
  "access_works jl now token uid nick \<longleftrightarrow>
     (\<forall>now' < (now + AccessTokenTTL) div 1000 * 1000. \<exists>jti. VerifyToken jl now' token = Inr (uid, nick, jti, RoleUser))"

definition refresh_works :: "gostring \<Rightarrow> gostring \<Rightarrow> int \<Rightarrow> token_redis \<Rightarrow> bool" where
  "refresh_works t uid x rd \<longleftrightarrow> (tk_attempts rd (tk_pos rd) = Runs \<and> tk_now rd < x \<longrightarrow>
     fst (ConsumeRefreshToken t rd) = Inr \<lparr>cr_UserID = uid, cr_Reused = False\<rparr>)"

lemma SignToken_works:
  assumes "jwt_lib_ok jl" "SignToken jl now uid nick s = (Inr tok, s')"
  shows "access_works jl now tok uid nick" "sv_redis s' = sv_redis s" "sv_db s' = sv_db s"
proof -
  obtain jti where "jl_sign jl \<lparr>jc_ID = jti, jc_Subject = uid, jc_Nickname = nick, jc_Role = RoleUser, jc_Issuer = JWTIssuer,
      jc_Audience = [JWTAudience], jc_IssuedAt = now div 1000, jc_ExpiresAt = (now + AccessTokenTTL) div 1000\<rparr> = Some tok" (is "jl_sign jl ?c = _")
    using assms(2) by (auto simp: SignToken_def SignTokenWithRole_def split: prod.splits sum.splits option.splits)
  then have "jl_alg jl tok = Some ES256 \<and> (\<forall>now opts. now < jc_ExpiresAt ?c * 1000 \<and> (case opts of None \<Rightarrow> True | Some (i, a) \<Rightarrow>
      jc_Issuer ?c = i \<and> a \<in> set (jc_Audience ?c)) \<longrightarrow> jl_parse jl now opts tok = Some ?c)" using assms(1) unfolding jwt_lib_ok_def by blast
  then show "access_works jl now tok uid nick" by (auto simp: access_works_def VerifyToken_def RoleUser_def str_def)
  show "sv_redis s' = sv_redis s" "sv_db s' = sv_db s"
    using assms(2) by (auto simp: SignToken_def SignTokenWithRole_def generateJTI_def draw_def split: prod.splits sum.splits option.splits)
qed

lemma consume_alive:
  assumes "alive (tk_now rd) (tk_kv rd) (refreshTokenPrefix @ t) = Some (TStr u, x)" "u \<noteq> []" "tk_attempts rd (tk_pos rd) = Runs"
  shows "fst (ConsumeRefreshToken t rd) = Inr \<lparr>cr_UserID = u, cr_Reused = False\<rparr>"
  using assms by (simp add: ConsumeRefreshToken_def tk_exec_def consumeRefreshTokenScript_def t_bind_def t_get_def t_del_def
      t_set_def t_return_def Let_def)

lemma Generate_works:
  assumes "Generate (Some bs) uid rd = (Inr t, rd')" "uid \<noteq> []"
  shows "refresh_works t uid (tk_now rd + refreshTokenExpiry) rd'"
proof -
  have x: "tk_exec (multi [t_set (refreshTokenPrefix @ hex bs) uid refreshTokenExpiry, t_sadd (userTokensSetPrefix @ uid) (hex bs),
      t_expire (userTokensSetPrefix @ uid) refreshTokenExpiry]) rd = (Inr (), rd')" "t = hex bs"
    using assms(1) by (auto simp: Generate_def generateSecureToken_def simp del: multi.simps split: prod.splits sum.splits)
  have e: "0 < refreshTokenExpiry" by (simp add: refreshTokenExpiry_def)
  have "tk_kv rd' = snd (multi [t_set (refreshTokenPrefix @ hex bs) uid refreshTokenExpiry, t_sadd (userTokensSetPrefix @ uid) (hex bs),
      t_expire (userTokensSetPrefix @ uid) refreshTokenExpiry] (tk_now rd) (alive (tk_now rd) (tk_kv rd)))"
    using tk_exec_runs [OF x(1)] by (metis snd_conv)
  then have "tk_kv rd' (refreshTokenPrefix @ t) = Some (TStr uid, Some (tk_now rd + refreshTokenExpiry))"
    using e x(2) by (simp add: multi_state command_frames t_set_def expires_def del: multi.simps)
  then have "alive (tk_now rd') (tk_kv rd') (refreshTokenPrefix @ t) = Some (TStr uid, Some (tk_now rd + refreshTokenExpiry))"
    if "tk_now rd' < tk_now rd + refreshTokenExpiry" using that by (simp add: alive_simps)
  then show ?thesis using consume_alive [OF _ assms(2)] by (simp add: refresh_works_def)
qed

lemma issue_refresh_works:
  assumes "issue_refresh uid s = (Inr t, s')" "uid \<noteq> []"
  shows "refresh_works t uid (tk_now (sv_redis s) + refreshTokenExpiry) (sv_redis s')"
proof -
  have "Generate None uid rd = (Inl ErrRandom, rd)" for rd by (simp add: Generate_def generateSecureToken_def)
  then obtain bs where bs: "sv_rand s (sv_draws s) 32 = Some bs"
    using assms(1) by (cases "sv_rand s (sv_draws s) 32") (auto simp: issue_refresh_def draw_def on_redis_def)
  obtain res rd where g: "Generate (Some bs) uid (sv_redis s) = (res, rd)" by (cases "Generate (Some bs) uid (sv_redis s)")
  have "res = Inr t" "sv_redis s' = rd" using assms(1) bs g
    by (auto simp: issue_refresh_def draw_def on_redis_def map_sum_def split: sum.splits)
  with g have "Generate (Some bs) uid (sv_redis s) = (Inr t, rd)" "sv_redis s' = rd" by simp_all
  then show ?thesis using Generate_works assms(2) by simp
qed

lemma issue_works:
  assumes "issueQuickPlayCredentials e now uid nick r s = (Inr (c, t), s')" "jwt_lib_ok (ae_jwt e)" "uid \<noteq> []"
  shows "access_works (ae_jwt e) now (ck_Value c) uid nick" "refresh_works t uid (tk_now (sv_redis s) + refreshTokenExpiry) (sv_redis s')"
    "ck_Name c = QuickplayCookie" "ck_HttpOnly c"
proof -
  obtain tok s1 where s1: "SignToken (ae_jwt e) now uid nick s = (Inr tok, s1)" "issue_refresh uid s1 = (Inr t, s')"
    "c = BuildAuthCookie QuickplayCookie tok CookieMaxAge (IsSecure r)"
    using assms(1) by (auto simp: issueQuickPlayCredentials_def split: prod.splits sum.splits)
  show "access_works (ae_jwt e) now (ck_Value c) uid nick" "refresh_works t uid (tk_now (sv_redis s) + refreshTokenExpiry) (sv_redis s')"
    "ck_Name c = QuickplayCookie" "ck_HttpOnly c"
    using SignToken_works [OF assms(2) s1(1)] issue_refresh_works [OF s1(2) assms(3)] s1(3) by (simp_all add: BuildAuthCookie_def)
qed

lemma from_cookies_nonempty: "fst (from_cookies jl chk now r names rd) = Some (uid, nick) \<Longrightarrow> uid \<noteq> []"
proof (induction names arbitrary: rd)
  case (Cons name names)
  then show ?case by (auto simp: Let_def split: prod.splits if_splits sum.splits bool.splits)
qed simp

lemma authenticated_nonempty: "fst (authenticatedUserFromCookies jl chk now r rd) = Some (uid, nick) \<Longrightarrow> uid \<noteq> []"
  by (auto simp: authenticatedUserFromCookies_def GetAuthenticatedUser_def simp del: from_cookies.simps
      dest: from_cookies_nonempty split: option.splits if_splits)

lemma UUID_nonempty: "UUID b \<noteq> []"
  by (simp add: UUID_def Let_def str_def)

lemma services_frame [simp]:
  "sv_redis (snd (draw n s)) = sv_redis s" "sv_redis (snd (on_db f s)) = sv_redis s"
  "sv_redis (snd (create_user e u s)) = sv_redis s" "sv_redis (snd (prepareQuickPlayNickname nick s)) = sv_redis s"
  "sv_redis (snd (on_redis g s)) = snd (g (sv_redis s))" "fst (on_redis g s) = fst (g (sv_redis s))"
  by (simp_all add: draw_def on_db_def create_user_def prepareQuickPlayNickname_def on_redis_def Let_def split_def)

lemma from_cookies_clock:
  "tk_clock (snd (from_cookies jl chk now r names rd)) = tk_clock rd \<and> tk_pos rd \<le> tk_pos (snd (from_cookies jl chk now r names rd))"
proof (induction names arbitrary: rd)
  case (Cons name names)
  obtain u n jti role where t: "tryCookie jl now r name = (u, n, jti, role)" by (cases "tryCookie jl now r name")
  obtain res rd1 where c: "IsJWTRevoked jti rd = (res, rd1)" by (cases "IsJWTRevoked jti rd")
  have "tk_clock rd1 = tk_clock rd" "tk_pos rd1 = Suc (tk_pos rd)"
    using arg_cong [OF IsJWTRevoked_redis [of jti rd], of tk_clock] IsJWTRevoked_pos [of jti rd] c by simp_all
  then show ?case using Cons [of rd] Cons [of rd1] t c by (auto split: sum.split bool.split)
qed simp

lemma authenticated_clock:
  "tk_clock (snd (authenticatedUserFromCookies jl chk now r rd)) = tk_clock rd \<and> tk_pos rd \<le> tk_pos (snd (authenticatedUserFromCookies jl chk now r rd))"
  using from_cookies_clock [of jl chk now r "[SessionCookie, QuickplayCookie]" rd]
  by (auto simp: authenticatedUserFromCookies_def simp del: from_cookies.simps split: option.split)

lemma QuickPlay_issues:
  assumes "QuickPlay e now nickname r s = Some (Inr (c, uid, nick, t), s')"
  shows "\<exists>s2. issueQuickPlayCredentials e now uid nick r s2 = (Inr (c, t), s') \<and> uid \<noteq> []
    \<and> sv_redis s2 = snd (authenticatedUserFromCookies (ae_jwt e) (ae_hasRedis e) now r (sv_redis s))"
proof -
  obtain who s1 where a: "on_redis (authenticatedUserFromCookies (ae_jwt e) (ae_hasRedis e) now r) s = (who, s1)"
    by (cases "on_redis (authenticatedUserFromCookies (ae_jwt e) (ae_hasRedis e) now r) s")
  have s1: "sv_redis s1 = snd (authenticatedUserFromCookies (ae_jwt e) (ae_hasRedis e) now r (sv_redis s))"
    "who = fst (authenticatedUserFromCookies (ae_jwt e) (ae_hasRedis e) now r (sv_redis s))"
    using services_frame(5,6) [of "authenticatedUserFromCookies (ae_jwt e) (ae_hasRedis e) now r" s] a by simp_all
  show ?thesis
  proof (cases who)
    case None
    obtain b where b: "sv_rand (snd (prepareQuickPlayNickname nickname s1)) (sv_draws (snd (prepareQuickPlayNickname nickname s1))) 16 = Some b"
      using assms a None by (auto simp: QuickPlay_def draw_def Let_def split_def split: option.splits)
    define s2 where "s2 = snd (create_user e \<lparr>usr_ID = UUID b, usr_Email = UUID b @ str ''@quickplay'',
        usr_Nickname = fst (prepareQuickPlayNickname nickname s1), usr_Palette = 0, usr_CreatedAt = now div 1000, usr_LastLogin = None\<rparr>
        (snd (draw 16 (snd (prepareQuickPlayNickname nickname s1)))))"
    have "issueQuickPlayCredentials e now uid nick r s2 = (Inr (c, t), s')" "uid = UUID b"
      using assms a None b by (auto simp: QuickPlay_def draw_def Let_def split_def map_sum_def s2_def prod_eq_iff split: if_splits sum.splits)
    moreover have "sv_redis s2 = sv_redis s1" by (simp add: s2_def)
    ultimately show ?thesis using s1(1) UUID_nonempty [of b] by auto
  next
    case (Some x)
    then obtain w n where x: "who = Some (w, n)" by (cases x) auto
    then have "w \<noteq> []" using authenticated_nonempty s1(2) by metis
    moreover have "issueQuickPlayCredentials e now uid nick r (snd (on_db (GetUserByID (ae_storage e) w) s1)) = (Inr (c, t), s')" "uid = w"
      using assms a x by (auto simp: QuickPlay_def Let_def split_def map_sum_def prod_eq_iff split: prod.splits sum.splits)
    ultimately show ?thesis using s1(1) by auto
  qed
qed

text \<open>Whoever plays, as a new user or again, gets credentials that work: the token in the cookie verifies for the user, with the
  role of a user, until it expires, and the refresh token is accepted once within seven days.\<close>

theorem quickplay_credentials_work:
  assumes "jwt_lib_ok (ae_jwt e)" "QuickPlay e now nickname r s = Some (Inr (c, uid, nick, t), s')"
  shows "access_works (ae_jwt e) now (ck_Value c) uid nick \<and> ck_Name c = QuickplayCookie \<and> ck_HttpOnly c
    \<and> (\<exists>x. refresh_works t uid (x + refreshTokenExpiry) (sv_redis s') \<and> (mono (tk_clock (sv_redis s)) \<longrightarrow> tk_now (sv_redis s) \<le> x))"
proof -
  obtain s2 where s2: "issueQuickPlayCredentials e now uid nick r s2 = (Inr (c, t), s')" "uid \<noteq> []"
    "sv_redis s2 = snd (authenticatedUserFromCookies (ae_jwt e) (ae_hasRedis e) now r (sv_redis s))" using QuickPlay_issues [OF assms(2)] by blast
  have "tk_now (sv_redis s) \<le> tk_now (sv_redis s2)" if "mono (tk_clock (sv_redis s))"
    using that authenticated_clock [of "ae_jwt e" "ae_hasRedis e" now r "sv_redis s"] unfolding s2(3) tk_now_def mono_def by simp
  then show ?thesis using issue_works [OF s2(1) assms(1) s2(2)] by blast
qed

section \<open>Rotation\<close>

text \<open>A token that was accepted is afterwards known as used, as long as the marker lives.\<close>

lemma marker_reports:
  assumes "tk_kv rd (refreshTokenPrefix @ t) = None" "tk_kv rd (refreshTokenReusePrefix @ t) = Some (TStr u, Some x)" "u \<noteq> []"
    and "tk_attempts rd (tk_pos rd) = Runs" "tk_now rd < x"
  shows "fst (ConsumeRefreshToken t rd) = Inr \<lparr>cr_UserID = u, cr_Reused = True\<rparr>"
proof -
  have "alive (tk_now rd) (tk_kv rd) (refreshTokenPrefix @ t) = None" using assms(1) by (simp add: alive_simps)
  moreover have "alive (tk_now rd) (tk_kv rd) (refreshTokenReusePrefix @ t) = Some (TStr u, Some x)" using assms(2,5) by (simp add: alive_simps)
  ultimately show ?thesis using assms(3,4)
    by (simp add: ConsumeRefreshToken_def tk_exec_def consumeRefreshTokenScript_def t_bind_def t_get_def t_return_def Let_def)
qed

text \<open>C30: When a refresh token that was used already is presented again, no new tokens are issued; and if the command that
  revokes the tokens of its user runs, no refresh token of the form that is issued is accepted for the user any more. (An error of this
  command is ignored by the code. Access tokens are not touched: they last until they expire. A marker of a used token can still be
  redeemed, see C31.)\<close>

theorem reuse_revokes_all:
  assumes "rt_init S0" "rt_step\<^sup>*\<^sup>* S0 S" "sv_redis s = rt_redis S" "RefreshSession e now t s = (res, s')"
    and "ConsumeRefreshToken t (sv_redis s) = (Inr result, rd)" "cr_Reused result"
    and "tk_attempts (sv_redis s) (Suc (tk_pos (sv_redis s))) = Runs"
  shows "res = Inl ErrReused \<and> (\<forall>t' r' rd'. token_format t' \<and> ConsumeRefreshToken t' (sv_redis s') = (Inr r', rd')
    \<and> cr_UserID r' = cr_UserID result \<longrightarrow> cr_Reused r')"
proof (intro conjI allI impI)
  have c: "on_redis (ConsumeRefreshToken t) s = (Inr result, s\<lparr>sv_redis := rd\<rparr>)" using assms(5) by (simp add: on_redis_def)
  have r: "res = Inl ErrReused" "sv_redis s' = snd (RevokeAllForUser (cr_UserID result) rd)"
    using assms(4,6) c by (auto simp: RefreshSession_def)
  show "res = Inl ErrReused" by (rule r(1))
  let ?S = "S\<lparr>rt_redis := rd\<rparr>"
  have "rt_step S ?S" using consumes [of t S "Inr result" rd] assms(3,5,6) by simp
  then have inv: "rt_inv ?S" by (rule rt_step_inv [OF tokens.reachable_inv [OF assms(2,1)]])
  have runs: "tk_attempts rd (tk_pos rd) = Runs"
    using assms(5,7) arg_cong [OF consume_redis [of t "sv_redis s"], of tk_attempts] arg_cong [OF consume_redis [of t "sv_redis s"], of tk_pos] by simp
  have "set_ok (tk_now rd) (alive (tk_now rd) (tk_kv rd)) (cr_UserID result)"
    using inv space_set [OF space_alive] unfolding rt_inv_def by fastforce
  then have "fst (RevokeAllForUser (cr_UserID result) rd) = Inr ()"
    using runs by (auto simp: RevokeAllForUser_def tk_exec_def set_ok_def revokeAllForUserScript_def t_bind_def t_smembers_def t_del_def t_return_def Let_def)
  then have a: "RevokeAllForUser (cr_UserID result) (rt_redis ?S) = (Inr (), sv_redis s')" using r(2) by (simp add: prod_eq_iff)
  have "rt_step ?S (?S\<lparr>rt_redis := sv_redis s'\<rparr>)" using revokes_all [of ?S "cr_UserID result"] a by simp
  then have inv': "rt_inv (?S\<lparr>rt_redis := sv_redis s'\<rparr>)" by (rule rt_step_inv [OF inv])
  fix t' r' rd' assume t': "token_format t' \<and> ConsumeRefreshToken t' (sv_redis s') = (Inr r', rd') \<and> cr_UserID r' = cr_UserID result"
  show "cr_Reused r'"
  proof (rule ccontr)
    assume n: "\<not> cr_Reused r'"
    obtain v x where "tk_kv (sv_redis s') (refreshTokenPrefix @ t') = Some (v, x)" "\<forall>u. v = TStr u \<longrightarrow> u = cr_UserID result"
      using consume_accepts(3) [OF _ n, of t' "sv_redis s'" rd'] t' by (auto simp: alive_simps)
    moreover have "stored_ok (rt_issued S) (tk_kv (sv_redis s')) t'" using inv' t' by (simp add: rt_inv_def space_inv_def)
    ultimately show False using revoke_all_unbound [OF inv a, of t'] t' by (auto simp: stored_ok_def)
  qed
qed

text \<open>A refresh that succeeds hands out a working pair of tokens for the user who owned the old one.\<close>

theorem refresh_session_rotates:
  assumes "jwt_lib_ok (ae_jwt e)" "RefreshSession e now old s = (Inr (a, t), s')"
  shows "\<exists>uid nick x. ConsumeRefreshToken old (sv_redis s) = (Inr \<lparr>cr_UserID = uid, cr_Reused = False\<rparr>, snd (ConsumeRefreshToken old (sv_redis s)))
    \<and> access_works (ae_jwt e) now a uid nick \<and> refresh_works t uid (x + refreshTokenExpiry) (sv_redis s')
    \<and> (mono (tk_clock (sv_redis s)) \<longrightarrow> tk_now (sv_redis s) \<le> x)"
proof -
  obtain result s1 where c: "on_redis (ConsumeRefreshToken old) s = (Inr result, s1)" "\<not> cr_Reused result"
    using assms(2) by (auto simp: RefreshSession_def split: prod.splits sum.splits if_splits)
  have c': "ConsumeRefreshToken old (sv_redis s) = (Inr result, sv_redis s1)" using c(1) by (auto simp: on_redis_def Let_def split: prod.splits)
  let ?u = "cr_UserID result"
  obtain u s2 s3 where d: "on_db (GetUserByID (ae_storage e) ?u) s1 = (Inr (Some u), s2)"
    and g: "SignToken (ae_jwt e) now ?u (usr_Nickname u) (snd (on_redis (RemoveFromUserSet ?u old) s2)) = (Inr a, s3)" "issue_refresh ?u s3 = (Inr t, s')"
    using assms(2) c by (auto simp: RefreshSession_def Let_def split: prod.splits sum.splits option.splits)
  have rd: "sv_redis s3 = snd (RemoveFromUserSet ?u old (sv_redis s1))"
    using SignToken_works(2) [OF assms(1) g(1)] services_frame(2) [of "GetUserByID (ae_storage e) ?u" s1] d by simp
  have "sv_redis s1 = snd (ConsumeRefreshToken old (sv_redis s))" by (simp add: c')
  then have "tk_clock (sv_redis s3) = tk_clock (sv_redis s)" "tk_pos (sv_redis s3) = Suc (Suc (tk_pos (sv_redis s)))"
    unfolding rd RemoveFromUserSet_def by (simp_all add: consume_redis)
  then have "mono (tk_clock (sv_redis s)) \<longrightarrow> tk_now (sv_redis s) \<le> tk_now (sv_redis s3)" by (simp add: tk_now_def mono_def)
  moreover have "result = \<lparr>cr_UserID = ?u, cr_Reused = False\<rparr>" using c(2) by simp
  ultimately show ?thesis
    using SignToken_works(1) [OF assms(1) g(1)] issue_refresh_works [OF g(2) consume_accepts(4) [OF c' c(2)]] c' by (metis snd_conv)
qed

lemma exec_alive:
  assumes "tk_now rd \<le> n" "\<And>s. snd (f (tk_now rd) s) k = s k"
  shows "alive n (tk_kv (snd (tk_exec f rd))) k = alive n (tk_kv rd) k"
  using tk_exec_kv [of f rd]
proof
  assume "tk_kv (snd (tk_exec f rd)) = snd (f (tk_now rd) (alive (tk_now rd) (tk_kv rd)))"
  then have "alive n (tk_kv (snd (tk_exec f rd))) k = alive n (alive (tk_now rd) (tk_kv rd)) k" using assms(2) by (simp add: alive_def)
  then show ?thesis by (simp add: alive_alive [OF assms(1)])
qed simp

section \<open>Where the handlers fall short\<close>

text \<open>\<^verbatim>\<open>CheckAuth\<close> panics for a user who was deleted while an access token is still valid: the repository reports the missing user by
  a nil pointer without an error.\<close>

theorem check_auth_panics_for_deleted_user:
  assumes "fst (authenticatedUserFromCookies (ae_jwt e) (ae_hasRedis e) now r (sv_redis s)) = Some (uid, nick)" "ae_hasDB e"
    and "\<And>u. u \<in> set (users (db (sv_db s))) \<Longrightarrow> u_ID u = uid \<Longrightarrow> u_DeletedAt u \<noteq> None"
    and "db_attempts (sv_db s) (db_pos (sv_db s)) = Runs"
  shows "CheckAuth e now r s = None"
proof -
  obtain s1 where a: "authenticate e now r s = (Some (uid, nick), s1)" "sv_db s1 = sv_db s"
    using assms(1) by (auto simp: authenticate_def on_redis_def Let_def split_def)
  have "find (\<lambda>u. u_ID u = uid \<and> u_DeletedAt u = None) (users (db (sv_db s))) = None" using assms(3) by (auto simp: find_None_iff)
  then have "fst (on_db (GetUserByID (ae_storage e) uid) s1) = Inr None"
    using assms(4) a(2) by (simp add: on_db_def GetUserByID_def query_user_def withRetry_def retry_loop.simps select_user_def Let_def)
  then show ?thesis using a(1) assms(2) authenticated_nonempty [OF assms(1)]
    by (auto simp: CheckAuth_def split: prod.splits)
qed

text \<open>\<^verbatim>\<open>Logout\<close> deletes the refresh token of the cookie before it looks up whose token it was. When the access token has expired,
  the user is then unknown, and the other refresh tokens of the user stay valid.\<close>

theorem logout_misses_other_sessions:
  assumes "Cookie r RefreshCookieName = Some t" "t \<noteq> []" "ae_hasRefresh e" "b \<noteq> BadBody" "Cookie r SessionCookie = None" "Cookie r QuickplayCookie = None"
    and "\<And>n. tk_attempts (sv_redis s) n = Runs" "mono (tk_clock (sv_redis s))" "tk_kv (sv_redis s) (refreshTokenReusePrefix @ t) = None"
    and "tk_kv (sv_redis s) (refreshTokenPrefix @ t2) = Some (TStr u, Some x)" "token_format t2" "t2 \<noteq> t" "u \<noteq> []"
  shows "refresh_works t2 u x (sv_redis (snd (Logout e now r b s)))"
proof -
  let ?rd = "snd (Revoke t (sv_redis s))"
  let ?rd2 = "snd (ConsumeRefreshToken t ?rd)"
  have k: "tk_kv ?rd (refreshTokenPrefix @ t) = None" "tk_kv ?rd (refreshTokenReusePrefix @ t) = None"
    using assms(7,9) by (auto simp: Revoke_def tk_exec_def t_del_def Let_def alive_def)
  have a: "alive n (tk_kv ?rd) (refreshTokenPrefix @ t) = None" "alive n (tk_kv ?rd) (refreshTokenReusePrefix @ t) = None" for n
    using k by (simp_all add: alive_simps)
  have "tk_attempts ?rd (tk_pos ?rd) = Runs" using assms(7) by (simp add: Revoke_def)
  then have i: "fst (ConsumeRefreshToken t ?rd) = Inl ErrInvalidToken"
    by (simp add: ConsumeRefreshToken_def tk_exec_def consumeRefreshTokenScript_def t_bind_def t_get_def t_return_def a Let_def)
  have l: "sv_redis (snd (Logout e now r b s)) = ?rd2"
    using assms(1-6) i by (simp add: Logout_def RevokeAllTokens_def on_redis_def body_token_def RefreshTokenFromRequest_def Let_def split_def)
  have n: "tk_now (sv_redis s) \<le> tk_now ?rd2" "tk_now ?rd \<le> tk_now ?rd2"
    using assms(8) by (simp_all add: consume_redis Revoke_def tk_now_def mono_def)
  have "alive (tk_now ?rd2) (tk_kv ?rd2) (refreshTokenPrefix @ t2) = alive (tk_now ?rd2) (tk_kv ?rd) (refreshTokenPrefix @ t2)"
    unfolding consume_redis using n(2) assms(11,12)
    by (intro exec_alive) (auto simp: consume_redis consumeRefreshTokenScript_def t_bind_def t_get_def t_del_def t_set_def t_return_def split: option.split tvalue.split)
  also have "\<dots> = alive (tk_now ?rd2) (tk_kv (sv_redis s)) (refreshTokenPrefix @ t2)"
    unfolding Revoke_def using n(1) assms(12) by (intro exec_alive) (auto simp: Revoke_def t_del_def)
  finally have "alive (tk_now ?rd2) (tk_kv ?rd2) (refreshTokenPrefix @ t2) = Some (TStr u, Some x)" if "tk_now ?rd2 < x"
    using assms(10) that by (simp add: alive_simps)
  then show ?thesis using consume_alive [OF _ assms(13)] unfolding l refresh_works_def by blast
qed

section \<open>Instances\<close>

text \<open>A library that signs one set of claims.\<close>

definition demo_jwt :: "jwt_claims \<Rightarrow> jwt_lib" where
  "demo_jwt c0 = \<lparr>jl_sign = (\<lambda>c. if c = c0 then Some [9] else None), jl_alg = (\<lambda>tok. if tok = [9] then Some ES256 else None),
     jl_parse = (\<lambda>now opts tok. if tok = [9] \<and> now < jc_ExpiresAt c0 * 1000
       \<and> (case opts of None \<Rightarrow> True | Some (i, a) \<Rightarrow> jc_Issuer c0 = i \<and> a \<in> set (jc_Audience c0)) then Some c0 else None)\<rparr>"

lemma demo_jwt_ok: "jwt_lib_ok (demo_jwt c0)"
  by (auto simp: jwt_lib_ok_def demo_jwt_def split: if_splits option.splits)

definition demo_claims :: "gostring \<Rightarrow> gostring \<Rightarrow> gostring \<Rightarrow> jwt_claims" where
  "demo_claims jti uid nick = \<lparr>jc_ID = jti, jc_Subject = uid, jc_Nickname = nick, jc_Role = RoleUser, jc_Issuer = JWTIssuer,
     jc_Audience = [JWTAudience], jc_IssuedAt = 0, jc_ExpiresAt = 900\<rparr>"

definition demo_auth_env :: "jwt_claims \<Rightarrow> auth_env" where
  "demo_auth_env c0 = \<lparr>ae_storage = demo_storage, ae_jwt = demo_jwt c0, ae_hasDB = True, ae_hasRedis = True, ae_hasRefresh = True,
     ae_letter = (\<lambda>_. True), ae_digit = (\<lambda>_. True), ae_seen = (\<lambda>_. 0)\<rparr>"

definition demo_request :: "(gostring \<times> gostring) list \<Rightarrow> request" where
  "demo_request cs = \<lparr>rq_Method = str ''GET'', rq_Cookies = cs, rq_Header = [], rq_TLS = True, rq_RemoteAddr = [], rq_Trusted = None, rq_UserID = None,
     rq_Nickname = None, rq_JTI = None, rq_Role = None\<rparr>"

definition demo_services :: "token_redis \<Rightarrow> services" where
  "demo_services rd = \<lparr>sv_db = demo_users_db, sv_redis = rd, sv_limits = demo_tokens, sv_rand = (\<lambda>i n. Some (replicate n 0)), sv_draws = 0, sv_names = failing_crand\<rparr>"

lemma demo_verify:
  "now < 900000 \<Longrightarrow> VerifyToken (demo_jwt (demo_claims jti uid nick)) now [9] = Inr (uid, nick, jti, RoleUser)"
  by (simp add: VerifyToken_def demo_jwt_def demo_claims_def RoleUser_def str_def)

theorem authentication_fails_closed_witness:
  "fst (authenticatedUserFromCookies (demo_jwt (demo_claims [1] [2] [3])) True 0 (demo_request [(SessionCookie, [9])]) demo_tokens) = Some ([2], [3])
    \<and> fst (authenticatedUserFromCookies (demo_jwt (demo_claims [1] [2] [3])) True 0 (demo_request [(SessionCookie, [9])])
        (demo_tokens\<lparr>tk_attempts := (\<lambda>_. Fails True)\<rparr>)) = None"
proof -
  have "fst (authenticatedUserFromCookies (demo_jwt (demo_claims [1] [2] [3])) True 0 (demo_request [(SessionCookie, [9])]) demo_tokens) = Some ([2], [3])"
    by (simp add: authenticatedUserFromCookies_def GetAuthenticatedUser_def demo_request_def tryCookie_def Cookie_def demo_verify
        IsJWTRevoked_def tk_exec_def demo_tokens_def alive_def t_get_def Let_def)
  then show ?thesis
    using authentication_fails_closed [of "demo_request [(SessionCookie, [9])]" "demo_tokens\<lparr>tk_attempts := (\<lambda>_. Fails True)\<rparr>"
        "demo_jwt (demo_claims [1] [2] [3])" 0]
    by (simp add: GetAuthenticatedUser_def demo_request_def demo_tokens_def mono_def)
qed

definition demo_logout :: services where
  "demo_logout = snd (Logout (demo_auth_env (demo_claims [1] [2] [3])) 0 (demo_request [(SessionCookie, [9])]) NoBody (demo_services demo_tokens))"

lemma demo_logout_clock: "tk_clock (sv_redis demo_logout) = int" "tk_pos (sv_redis demo_logout) = 2" 
  by (simp_all add: demo_logout_def Logout_def RevokeAllTokens_def on_redis_def body_token_def RefreshTokenFromRequest_def Cookie_def demo_request_def
      demo_services_def demo_auth_env_def demo_verify SessionCookie_def QuickplayCookie_def RefreshCookieName_def str_def revoke_all_redis
      demo_tokens_def Let_def split_def)

theorem logout_final_witness:
  "fst (authenticatedUserFromCookies (demo_jwt (demo_claims [1] [2] [3])) True 800000 (demo_request [(QuickplayCookie, [9])]) (sv_redis demo_logout)) = None"
proof -
  let ?c = "demo_claims [1] [2] [3]" and ?r = "demo_request [(SessionCookie, [9])]" and ?r' = "demo_request [(QuickplayCookie, [9])]"
  have "fst (authenticatedUserFromCookies (ae_jwt (demo_auth_env ?c)) True 800000 ?r' (sv_redis demo_logout)) = None"
  proof (rule logout_final [where c = ?c and r = ?r and v = "[9]" and name = SessionCookie and age = 0 and now = 0 and b = NoBody
        and s = "demo_services demo_tokens" and s' = demo_logout])
    show "Logout (demo_auth_env ?c) 0 ?r NoBody (demo_services demo_tokens)
        = (fst (Logout (demo_auth_env ?c) 0 ?r NoBody (demo_services demo_tokens)), demo_logout)" by (simp add: demo_logout_def)
    show "tk_clock (sv_redis demo_logout) (Suc (tk_pos (sv_redis demo_logout))) - tk_now (sv_redis (demo_services demo_tokens)) \<le> 800000 - 0 + 0"
      by (simp add: demo_logout_clock tk_now_def demo_services_def demo_tokens_def)
    show "jwt_lib_ok (ae_jwt (demo_auth_env ?c))" by (simp add: demo_auth_env_def demo_jwt_ok)
    show "w = [9]" if "n \<in> {SessionCookie, QuickplayCookie}" "Cookie ?r' n = Some w" for n w
      using that by (auto simp: Cookie_def demo_request_def split: if_splits)
    show "jl_parse (ae_jwt (demo_auth_env ?c)) 0 (Some (JWTIssuer, JWTAudience)) [9] = Some ?c"
      by (simp add: demo_auth_env_def demo_jwt_def demo_claims_def)
  qed (simp_all add: demo_auth_env_def demo_logout_clock demo_services_def demo_tokens_def mono_def Cookie_def demo_request_def
      demo_jwt_def demo_claims_def AccessTokenTTL_def GetAuthenticatedUser_def)
  then show ?thesis by (simp add: demo_auth_env_def)
qed

text \<open>A visitor without cookies, whose nickname is empty, in a world where every random byte is zero.\<close>

definition demo_visitor :: jwt_claims where
  "demo_visitor = demo_claims (hex (replicate 16 0)) (UUID (replicate 16 0)) (fst (GenerateRandom {} failing_crand))"

lemma demo_quickplay:
  "\<exists>s'. QuickPlay (demo_auth_env demo_visitor) 0 [] (demo_request []) (demo_services demo_tokens)
     = Some (Inr (BuildAuthCookie QuickplayCookie [9] CookieMaxAge True, UUID (replicate 16 0), fst (GenerateRandom {} failing_crand), hex (replicate 32 0)), s')"
proof -
  have a: "authenticatedUserFromCookies jl chk 0 (demo_request []) rd = (None, rd)" for jl chk rd
    by (simp add: authenticatedUserFromCookies_def GetAuthenticatedUser_def demo_request_def tryCookie_def Cookie_def)
  have sign: "SignToken (demo_jwt demo_visitor) 0 (UUID (replicate 16 0)) (fst (GenerateRandom {} failing_crand)) s = (Inr [9], s\<lparr>sv_draws := Suc (sv_draws s)\<rparr>)"
    if "sv_rand s = (\<lambda>i n. Some (replicate n 0))" for s
    using that by (simp add: SignToken_def SignTokenWithRole_def generateJTI_def draw_def demo_jwt_def demo_visitor_def demo_claims_def AccessTokenTTL_def)
  have refresh: "fst (issue_refresh u s) = Inr (hex (replicate 32 0))" if "sv_rand s = (\<lambda>i n. Some (replicate n 0))" "sv_redis s = demo_tokens" for u s
  proof -
    have "fst (Generate (Some (replicate 32 0)) u demo_tokens) = Inr (hex (replicate 32 0))"
      by (simp add: Generate_def generateSecureToken_def tk_exec_def demo_tokens_def t_set_def t_sadd_def t_expire_def alive_def Let_def)
    then show ?thesis using that by (simp add: issue_refresh_def draw_def on_redis_def Let_def split_def)
  qed
  have secure: "IsSecure (demo_request [])" by (simp add: IsSecure_def demo_request_def)
  show ?thesis
    by (auto simp: QuickPlay_def on_redis_def a prepareQuickPlayNickname_def draw_def create_user_def on_db_def CreateUser_def prepareEmailForStorage_def
        EncryptPIIForStorage_def Encrypt_def newGCM_def demo_auth_env_def demo_storage_def retry_loop.simps demo_users_db_def insert_user_def Let_def split_def
        demo_services_def issueQuickPlayCredentials_def sign refresh secure prod_eq_iff split: sum.split)
qed

theorem quickplay_credentials_work_witness:
  "access_works (demo_jwt demo_visitor) 0 [9] (UUID (replicate 16 0)) (fst (GenerateRandom {} failing_crand))
    \<and> ck_HttpOnly (BuildAuthCookie QuickplayCookie [9] CookieMaxAge True)"
proof -
  obtain s' where "QuickPlay (demo_auth_env demo_visitor) 0 [] (demo_request []) (demo_services demo_tokens)
     = Some (Inr (BuildAuthCookie QuickplayCookie [9] CookieMaxAge True, UUID (replicate 16 0), fst (GenerateRandom {} failing_crand), hex (replicate 32 0)), s')"
    using demo_quickplay by blast
  from quickplay_credentials_work [OF _ this] show ?thesis by (simp add: demo_auth_env_def demo_jwt_ok BuildAuthCookie_def)
qed

lemma demo_time: "tk_clock demo_used = int" "tk_attempts demo_used = (\<lambda>_. Runs)" "tk_clock demo_issued = int" "tk_attempts demo_issued = (\<lambda>_. Runs)"
  by (simp_all add: demo_used_def demo_issued_def op_redis demo_tokens_def del: multi.simps)

theorem reuse_revokes_all_witness:
  "fst (RefreshSession (demo_auth_env demo_visitor) 0 (hex [7, 255]) (demo_services demo_used)) = Inl ErrReused"
proof -
  let ?S = "\<lparr>rt_redis = demo_used, rt_issued = {hex [7, 255]}, rt_accepted = [(hex [7, 255], [65])]\<rparr>" and ?s = "demo_services demo_used"
  obtain res s' where r: "RefreshSession (demo_auth_env demo_visitor) 0 (hex [7, 255]) ?s = (res, s')"
    by (cases "RefreshSession (demo_auth_env demo_visitor) 0 (hex [7, 255]) ?s")
  have "ConsumeRefreshToken (hex [7, 255]) (sv_redis ?s)
      = (Inr \<lparr>cr_UserID = [65], cr_Reused = True\<rparr>, snd (ConsumeRefreshToken (hex [7, 255]) (sv_redis ?s)))"
    using demo_outcomes(3) by (simp add: demo_services_def prod_eq_iff)
  from reuse_revokes_all [OF demo_rt_init demo_steps _ r this] show ?thesis using r by (simp add: demo_services_def demo_time)
qed

text \<open>The user of the token.\<close>

definition demo_owner :: services where
  "demo_owner = (demo_services demo_issued)\<lparr>sv_db := demo_users_db\<lparr>db := (db demo_users_db)\<lparr>users := [demo_row\<lparr>u_ID := [65]\<rparr>]\<rparr>\<rparr>\<rparr>"

definition demo_owner_claims :: jwt_claims where
  "demo_owner_claims = demo_claims (hex (replicate 16 0)) [65] (str ''Ann'')"

lemma demo_refresh: "fst (RefreshSession (demo_auth_env demo_owner_claims) 0 (hex [7, 255]) demo_owner) = Inr ([9], hex (replicate 32 0))"
proof -
  have c: "ConsumeRefreshToken (hex [7, 255]) demo_issued = (Inr \<lparr>cr_UserID = [65], cr_Reused = False\<rparr>, demo_used)"
    using demo_outcomes(2) by (simp add: demo_used_def prod_eq_iff)
  have u: "\<exists>u. fst (GetUserByID demo_storage [65] (sv_db demo_owner)) = Inr (Some u) \<and> usr_Nickname u = str ''Ann''"
    by (simp add: GetUserByID_def query_user_def withRetry_def retry_loop.simps select_user_def demo_owner_def demo_users_db_def scan_user_def
        emailFromStorage_def DecryptEmailFromStorage_def demo_row_def new_user_row_def demo_account_def versionPrefix_def str_def Let_def)
  then obtain u where u: "fst (GetUserByID demo_storage [65] (sv_db demo_owner)) = Inr (Some u)" "usr_Nickname u = str ''Ann''" by blast
  have g: "fst (Generate (Some (replicate 32 0)) [65] (snd (RemoveFromUserSet [65] (hex [7, 255]) demo_used))) = Inr (hex (replicate 32 0))"
    by code_simp
  have "SignToken (demo_jwt demo_owner_claims) 0 [65] (str ''Ann'') s = (Inr [9], s\<lparr>sv_draws := Suc (sv_draws s)\<rparr>)"
    if "sv_rand s = (\<lambda>i n. Some (replicate n 0))" for s
    using that by (simp add: SignToken_def SignTokenWithRole_def generateJTI_def draw_def demo_jwt_def demo_owner_claims_def demo_claims_def AccessTokenTTL_def)
  then show ?thesis using c u g
    by (simp add: RefreshSession_def on_redis_def on_db_def demo_owner_def demo_services_def demo_auth_env_def issue_refresh_def draw_def Let_def split_def)
qed

theorem refresh_session_rotates_witness:
  "\<exists>uid nick. access_works (demo_jwt demo_owner_claims) 0 [9] uid nick"
proof -
  obtain s' where "RefreshSession (demo_auth_env demo_owner_claims) 0 (hex [7, 255]) demo_owner = (Inr ([9], hex (replicate 32 0)), s')"
    using demo_refresh by (cases "RefreshSession (demo_auth_env demo_owner_claims) 0 (hex [7, 255]) demo_owner") auto
  from refresh_session_rotates [OF _ this] show ?thesis by (auto simp: demo_auth_env_def demo_jwt_ok)
qed

theorem check_auth_panics_for_deleted_user_witness:
  "CheckAuth (demo_auth_env (demo_claims [1] [2] [3])) 0 (demo_request [(SessionCookie, [9])]) (demo_services demo_tokens) = None"
proof (rule check_auth_panics_for_deleted_user)
  show "fst (authenticatedUserFromCookies (ae_jwt (demo_auth_env (demo_claims [1] [2] [3]))) (ae_hasRedis (demo_auth_env (demo_claims [1] [2] [3]))) 0
      (demo_request [(SessionCookie, [9])]) (sv_redis (demo_services demo_tokens))) = Some ([2], [3])"
    by (simp add: authenticatedUserFromCookies_def GetAuthenticatedUser_def demo_request_def tryCookie_def Cookie_def demo_verify demo_auth_env_def
        demo_services_def IsJWTRevoked_def tk_exec_def demo_tokens_def alive_def t_get_def Let_def)
qed (simp_all add: demo_auth_env_def demo_services_def demo_users_db_def)

theorem logout_misses_other_sessions_witness:
  "refresh_works (hex [7, 255]) [65] refreshTokenExpiry
     (sv_redis (snd (Logout (demo_auth_env demo_visitor) 0 (demo_request [(RefreshCookieName, [1])]) NoBody (demo_services demo_issued))))"
proof (rule logout_misses_other_sessions)
  show "tk_kv (sv_redis (demo_services demo_issued)) (refreshTokenPrefix @ hex [7, 255]) = Some (TStr [65], Some refreshTokenExpiry)"
    "tk_kv (sv_redis (demo_services demo_issued)) (refreshTokenReusePrefix @ [1]) = None" by code_simp+
  show "hex [7, 255] \<noteq> [1]" by code_simp
qed (simp_all add: hex_format demo_services_def demo_time mono_def demo_auth_env_def Cookie_def demo_request_def RefreshCookieName_def
    SessionCookie_def QuickplayCookie_def str_def)

end
