(* ===== verification/Admin_Properties.thy ===== *)
theory Admin_Properties
  imports Admin Auth_Properties
begin

text \<open>
  What the administration guarantees: a lock after five wrong passwords, a password that changes only for who knows the old one, and
  sessions that end when it does.
\<close>

section \<open>The lock\<close>

text \<open>A run of logins, one after the other.\<close>

fun logins :: "admin_env \<Rightarrow> (int \<times> request \<times> gostring body) list \<Rightarrow> services \<Rightarrow> response list \<times> services" where
  "logins a [] s = ([], s)"
| "logins a ((now, r, b) # reqs) s =
     (let (resp, s) = Login a now r b s; (resps, s) = logins a reqs s in (resp # resps, s))"

text \<open>A counter of \<open>n\<close> failures that lives until \<open>T\<close> at least.\<close>

definition counter_at :: "gostring \<Rightarrow> int \<Rightarrow> int \<Rightarrow> token_redis \<Rightarrow> bool" where
  "counter_at k n T rd \<longleftrightarrow> (if n = 0 then tk_kv rd k = None else \<exists>t \<ge> T. tk_kv rd k = Some (TNum n, Some t))"

definition failures :: "int \<Rightarrow> int \<Rightarrow> token_redis \<Rightarrow> bool" where
  "failures k T rd \<longleftrightarrow> counter_at (adminAcctFailPrefix @ adminRole) k T rd
     \<and> (\<forall>ip. \<exists>n. 0 \<le> n \<and> n \<le> k \<and> counter_at (adminFailKeyPrefix @ ip) n T rd)"

lemma admin_keys_apart [simp]:
  "adminAcctFailPrefix @ a \<noteq> adminFailKeyPrefix @ b" "adminAcctFailPrefix @ a \<noteq> adminLockKeyPrefix @ b" "adminAcctFailPrefix @ a \<noteq> adminAcctLockPrefix @ b"
  "adminFailKeyPrefix @ b \<noteq> adminAcctFailPrefix @ a" "adminFailKeyPrefix @ a \<noteq> adminLockKeyPrefix @ b" "adminFailKeyPrefix @ a \<noteq> adminAcctLockPrefix @ b"
  "adminLockKeyPrefix @ a \<noteq> adminAcctLockPrefix @ b" "adminAcctLockPrefix @ b \<noteq> adminLockKeyPrefix @ a"
  "adminAcctLockPrefix @ b \<noteq> adminFailKeyPrefix @ a" "adminAcctLockPrefix @ b \<noteq> adminAcctFailPrefix @ a"
  by (simp_all add: adminAcctFailPrefix_def adminFailKeyPrefix_def adminLockKeyPrefix_def adminAcctLockPrefix_def str_def)

lemma exec_runs: "tk_attempts rd (tk_pos rd) = Runs \<Longrightarrow> tk_exec f rd = (fst (f (tk_now rd) (alive (tk_now rd) (tk_kv rd))),
    rd\<lparr>tk_kv := snd (f (tk_now rd) (alive (tk_now rd) (tk_kv rd))), tk_pos := Suc (tk_pos rd)\<rparr>)"
  by (simp add: tk_exec_def Let_def split_def)

lemma counter_alive: "counter_at k n T rd \<Longrightarrow> now < T \<Longrightarrow> alive now (tk_kv rd) k = tk_kv rd k"
  by (auto simp: counter_at_def alive_def split: if_splits)

lemma IsLoginLocked_snd:
  assumes "\<And>i. tk_attempts rd i = Runs"
  shows "snd (IsLoginLocked ip account rd)
    = rd\<lparr>tk_kv := alive (tk_clock rd (Suc (tk_pos rd))) (alive (tk_now rd) (tk_kv rd)), tk_pos := Suc (Suc (tk_pos rd))\<rparr>"
  using assms by (simp add: IsLoginLocked_def exec_runs t_exists_def tk_now_def Let_def)

lemma failures_reads:
  assumes "failures k T rd" "\<And>i. tk_attempts rd i = Runs" "mono (tk_clock rd)" "tk_clock rd (Suc (tk_pos rd)) < T"
  shows "failures k T (snd (IsLoginLocked ip account rd))"
proof -
  have "tk_now rd < T" using assms(3,4) monoD [OF assms(3), of "tk_pos rd" "Suc (tk_pos rd)"] by (simp add: tk_now_def)
  then have "counter_at key n T (snd (IsLoginLocked ip account rd))" if "counter_at key n T rd" for key n
    using that assms(4) unfolding IsLoginLocked_snd [OF assms(2)] by (auto simp: counter_at_def alive_def split: if_splits)
  then show ?thesis using assms(1) unfolding failures_def by blast
qed

lemma increment_counts:
  assumes "\<And>i. tk_attempts rd i = Runs" "failures k T rd" "tk_now rd < T" "T \<le> tk_now rd + 900000" "0 \<le> k" "k < 5"
  shows "\<exists>i. fst (IncrementFailedLogin ip adminRole rd) = Inr (i, k + 1) \<and> i \<le> k + 1 \<and> failures (k + 1) T (snd (IncrementFailedLogin ip adminRole rd))"
proof -
  let ?ipk = "adminFailKeyPrefix @ ip" and ?ack = "adminAcctFailPrefix @ adminRole" and ?s = "alive (tk_now rd) (tk_kv rd)"
  obtain n where n: "0 \<le> n" "n \<le> k" "counter_at ?ipk n T rd" using assms(2) by (auto simp: failures_def)
  have c: "counter_at ?ack k T rd" using assms(2) by (simp add: failures_def)
  have si: "?s ?ipk = tk_kv rd ?ipk" "?s ?ack = tk_kv rd ?ack" using counter_alive [OF n(3) assms(3)] counter_alive [OF c assms(3)] by simp_all
  define ei where "ei = (if n = 0 then tk_now rd + 900000 else the (snd (the (tk_kv rd ?ipk))))"
  define ea where "ea = (if k = 0 then tk_now rd + 900000 else the (snd (the (tk_kv rd ?ack))))"
  have e: "T \<le> ei" "T \<le> ea" using n(3) c assms(4) by (auto simp: ei_def ea_def counter_at_def split: if_splits)
  have run: "incrementFailedLoginScript ?ipk ?ack 900 (tk_now rd) ?s
      = (Inr (n + 1, k + 1), ?s(?ipk \<mapsto> (TNum (n + 1), Some ei), ?ack \<mapsto> (TNum (k + 1), Some ea)))"
    using n c si assms(5,6) by (auto simp: incrementFailedLoginScript_def t_bind_def t_incr_def t_expire_def t_return_def counter_at_def ei_def ea_def
        fun_upd_twist split: if_splits)
  let ?rd = "snd (IncrementFailedLogin ip adminRole rd)"
  have other: "counter_at (adminFailKeyPrefix @ ip') m T ?rd" if "counter_at (adminFailKeyPrefix @ ip') m T rd" "ip' \<noteq> ip" for ip' m
    using that counter_alive [OF that(1) assms(3)] by (simp add: IncrementFailedLogin_def exec_runs assms(1) run counter_at_def)
  have own: "counter_at ?ipk (n + 1) T ?rd" "counter_at ?ack (k + 1) T ?rd"
    using n(1) assms(5) e by (simp_all add: IncrementFailedLogin_def exec_runs assms(1) run counter_at_def)
  have "\<exists>m. 0 \<le> m \<and> m \<le> k + 1 \<and> counter_at (adminFailKeyPrefix @ ip') m T ?rd" for ip'
  proof (cases "ip' = ip")
    case True
    then show ?thesis using own(1) n(1,2) by (intro exI [of _ "n + 1"]) simp
  next
    case False
    obtain m where "0 \<le> m" "m \<le> k" "counter_at (adminFailKeyPrefix @ ip') m T rd" using assms(2) by (auto simp: failures_def)
    then show ?thesis using other [OF _ False] by (intro exI [of _ m]) simp
  qed
  then have "failures (k + 1) T ?rd" using own(2) by (simp add: failures_def)
  then show ?thesis using n(2) by (simp add: IncrementFailedLogin_def exec_runs assms(1) run)
qed

text \<open>A wrong password.\<close>

lemma Login_wrong:
  assumes "Login a now r b s = (resp, s')" "rs_Status resp = 401" "ad_hasRedis a"
  shows "fst (IsLoginLocked (ExtractClientIP r) adminRole (sv_redis s)) = Inr False
    \<and> sv_redis s' = (let (res, rd) = IncrementFailedLogin (ExtractClientIP r) adminRole (snd (IsLoginLocked (ExtractClientIP r) adminRole (sv_redis s)))
        in case res of Inl _ \<Rightarrow> rd
           | Inr (i, c) \<Rightarrow> if 5 \<le> i \<or> 5 \<le> c then snd (SetLoginLock (ExtractClientIP r) adminRole loginLockDuration rd) else rd)"
proof -
  obtain res s1 where l: "on_redis (IsLoginLocked (ExtractClientIP r) adminRole) s = (res, s1)"
    by (cases "on_redis (IsLoginLocked (ExtractClientIP r) adminRole) s")
  obtain st s2 where g: "getStoredAdminPassword s1 = (st, s2)" by (cases "getStoredAdminPassword s1")
  have s1: "res = fst (IsLoginLocked (ExtractClientIP r) adminRole (sv_redis s))" "sv_redis s1 = snd (IsLoginLocked (ExtractClientIP r) adminRole (sv_redis s))"
    using l by (auto simp: on_redis_def Let_def split_def)
  have s2: "sv_redis s2 = sv_redis s1" using g unfolding getStoredAdminPassword_def
    by (auto simp: on_db_def Let_def split_def split: sum.splits option.splits if_splits)
  have wrong: "rs_Status (problem (Unauthorized m)) = 401" "rs_Status (problem (BadRequest m)) = 400" "rs_Status (problem (InternalError m)) = 500"
    "rs_Status (problem (Forbidden m)) = 403" "rs_Status (problem (TooManyRequests m)) = 429" "rs_Status (problem (New 503 m m')) = 503" for m m'
    by (simp_all add: problem_def Unauthorized_def BadRequest_def InternalError_def Forbidden_def TooManyRequests_def New_def)
  have good: "rs_Status (fst (completeAdminLogin a now r ip ac s)) \<noteq> 401" for ip ac s
    by (auto simp: completeAdminLogin_def writeJSON_def recovered_def wrong Let_def split: prod.split sum.split sign_error.split)
  obtain password where b: "b = JSONBody password" "length password \<le> BcryptMaxLen"
    using assms(1,2) by (cases b) (auto simp: Login_def wrong split: if_splits)
  have locked: "isLoginLocked a (ExtractClientIP r) adminRole s
      = (case res of Inl _ \<Rightarrow> (Some (problem (New 503 ''Service Unavailable'' ''Login temporarily unavailable, please retry later'')), s1)
         | Inr x \<Rightarrow> (if x then Some (problem (TooManyRequests ''too many failed login attempts, try again later'')) else None, s1))"
    using l assms(3) by (simp add: isLoginLocked_def Let_def)
  have r0: "res = Inr False" using assms(1,2) unfolding Login_def b(1) body.case using b(2) locked
    by (cases res) (auto simp: Let_def wrong split: if_splits)
  have rest: "(case st of Inl resp \<Rightarrow> (resp, s2) | Inr stored \<Rightarrow>
      if \<not> compareAdminPassword a password stored then (problem (Unauthorized ''Wrong password''), handleFailedLogin a (ExtractClientIP r) adminRole s2)
      else completeAdminLogin a now r (ExtractClientIP r) adminRole s2) = (resp, s')"
    using assms(1) b locked r0 g by (simp add: Login_def Let_def)
  have st: "rs_Status resp = 401 \<Longrightarrow> st = Inl resp \<Longrightarrow> False" using g unfolding getStoredAdminPassword_def
    by (auto simp: wrong split: prod.splits sum.splits option.splits if_splits)
  have "s' = handleFailedLogin a (ExtractClientIP r) adminRole s2"
    using rest st assms(2) good [of "ExtractClientIP r" adminRole s2] by (auto split: sum.splits if_splits)
  then have "sv_redis s' = (let (res, rd) = IncrementFailedLogin (ExtractClientIP r) adminRole (sv_redis s2)
      in case res of Inl _ \<Rightarrow> rd | Inr (i, c) \<Rightarrow> if 5 \<le> i \<or> 5 \<le> c then snd (SetLoginLock (ExtractClientIP r) adminRole loginLockDuration rd) else rd)"
    using assms(3) by (auto simp: handleFailedLogin_def on_redis_def maxFailedLoginAttempts_def Let_def split: prod.split sum.split)
  then show ?thesis using r0 s1 s2 by simp
qed

lemma login_time [simp]:
  "tk_clock (snd (IncrementFailedLogin ip ac rd)) = tk_clock rd" "tk_attempts (snd (IncrementFailedLogin ip ac rd)) = tk_attempts rd"
  "tk_pos (snd (IncrementFailedLogin ip ac rd)) = Suc (tk_pos rd)"
  "tk_clock (snd (SetLoginLock ip ac ttl rd)) = tk_clock rd" "tk_attempts (snd (SetLoginLock ip ac ttl rd)) = tk_attempts rd"
  "tk_pos (snd (SetLoginLock ip ac ttl rd)) = Suc (Suc (tk_pos rd))"
  "tk_clock (snd (IsLoginLocked ip ac rd)) = tk_clock rd" "tk_attempts (snd (IsLoginLocked ip ac rd)) = tk_attempts rd"
  "tk_pos (snd (IsLoginLocked ip ac rd)) = Suc (Suc (tk_pos rd))"
  by (simp_all add: IncrementFailedLogin_def SetLoginLock_def IsLoginLocked_def Let_def split_def)

abbreviation lockKey :: gostring where "lockKey \<equiv> adminAcctLockPrefix @ adminRole"

lemma SetLoginLock_holds:
  assumes "\<And>i. tk_attempts rd i = Runs"
  shows "key_held lockKey (tk_clock rd (Suc (tk_pos rd)) + loginLockDuration) (snd (SetLoginLock ip adminRole loginLockDuration rd))"
  using assms by (simp add: SetLoginLock_def exec_runs key_held_def t_set_def expires_def loginLockDuration_def AdminTokenTTL_def tk_now_def Let_def split_def)

text \<open>A later state of the same Redis.\<close>

definition later :: "token_redis \<Rightarrow> token_redis \<Rightarrow> bool" where
  "later rd rd' \<longleftrightarrow> tk_clock rd' = tk_clock rd \<and> tk_attempts rd' = tk_attempts rd \<and> tk_pos rd \<le> tk_pos rd'"

lemma later_refl [simp]: "later rd rd"
  by (simp add: later_def)

lemma later_trans [trans]: "later rd rd1 \<Longrightarrow> later rd1 rd2 \<Longrightarrow> later rd rd2"
  by (simp add: later_def)

lemma later_now: "later rd rd' \<Longrightarrow> mono (tk_clock rd) \<Longrightarrow> tk_now rd \<le> tk_now rd'"
  by (simp add: later_def tk_now_def mono_def)

lemma later_pipe [simp]: "later rd (snd (pipe fs rd))"
proof (induction fs arbitrary: rd)
  case (Cons f fs)
  have "later rd (snd (tk_exec f rd))" by (simp add: later_def)
  then show ?case using Cons.IH [of "snd (tk_exec f rd)"] by (simp add: Let_def split_def later_trans)
qed simp

lemma services_redis [simp]:
  "sv_redis (snd (getStoredAdminPassword s)) = sv_redis s" "sv_redis (snd (signAdminToken a now s)) = sv_redis s"
  by (auto simp: getStoredAdminPassword_def signAdminToken_def draw_def on_db_def Let_def split_def split: sum.split option.split)

lemma later_complete: "later (sv_redis s) (sv_redis (snd (completeAdminLogin a now r ip ac s)))"
proof -
  let ?s = "if ad_hasRedis a then snd (on_redis (ResetFailedLogin ip ac) s) else s"
  have "later (sv_redis s) (sv_redis ?s)" by (simp add: ResetFailedLogin_def del: pipe.simps)
  also have "later (sv_redis ?s) (sv_redis (snd (completeAdminLogin a now r ip ac s)))"
    using services_redis(2) [of a now ?s] by (auto simp: completeAdminLogin_def AddAdminJTI_def Let_def simp del: pipe.simps services_redis
        split: prod.split sum.split sign_error.split)
  finally show ?thesis .
qed

lemma later_locked: "later (sv_redis s) (sv_redis (snd (isLoginLocked a ip ac s)))"
  by (auto simp: isLoginLocked_def on_redis_def later_def Let_def split_def split: sum.split)

lemma later_failed: "later (sv_redis s) (sv_redis (handleFailedLogin a ip ac s))"
  by (auto simp: handleFailedLogin_def on_redis_def later_def Let_def split_def split: sum.split)

lemma Login_checks_lock:
  assumes "length password \<le> BcryptMaxLen" "ad_hasRedis a"
  shows "later (snd (IsLoginLocked (ExtractClientIP r) adminRole (sv_redis s))) (sv_redis (snd (Login a now r (JSONBody password) s)))"
    "fst (IsLoginLocked (ExtractClientIP r) adminRole (sv_redis s)) = Inr True \<Longrightarrow>
       rs_Status (fst (Login a now r (JSONBody password) s)) = 429
         \<and> sv_redis (snd (Login a now r (JSONBody password) s)) = snd (IsLoginLocked (ExtractClientIP r) adminRole (sv_redis s))"
proof -
  let ?ip = "ExtractClientIP r"
  obtain x s1 where l: "isLoginLocked a ?ip adminRole s = (x, s1)" by (cases "isLoginLocked a ?ip adminRole s")
  obtain y s2 where g: "getStoredAdminPassword s1 = (y, s2)" by (cases "getStoredAdminPassword s1")
  have s1: "sv_redis s1 = snd (IsLoginLocked ?ip adminRole (sv_redis s))"
    using l assms(2) by (auto simp: isLoginLocked_def on_redis_def Let_def split_def split: sum.splits)
  moreover have s2: "sv_redis s2 = sv_redis s1" using services_redis(1) [of s1] g by simp
  ultimately have "later (snd (IsLoginLocked ?ip adminRole (sv_redis s))) (sv_redis (handleFailedLogin a ?ip adminRole s2))"
    "later (snd (IsLoginLocked ?ip adminRole (sv_redis s))) (sv_redis (snd (completeAdminLogin a now r ?ip adminRole s2)))"
    using later_failed later_complete by metis+
  then show "later (snd (IsLoginLocked ?ip adminRole (sv_redis s))) (sv_redis (snd (Login a now r (JSONBody password) s)))"
    using s1 s2 assms(1) by (simp add: Login_def l g Let_def split: option.split sum.split)
  assume "fst (IsLoginLocked ?ip adminRole (sv_redis s)) = Inr True"
  then have "x = Some (problem (TooManyRequests ''too many failed login attempts, try again later''))"
    using l assms(2) by (auto simp: isLoginLocked_def on_redis_def Let_def split_def split: sum.splits)
  then show "rs_Status (fst (Login a now r (JSONBody password) s)) = 429
      \<and> sv_redis (snd (Login a now r (JSONBody password) s)) = snd (IsLoginLocked ?ip adminRole (sv_redis s))"
    using s1 assms(1) l by (simp add: Login_def Let_def problem_def TooManyRequests_def New_def)
qed

lemma Login_later: "later (sv_redis s) (sv_redis (snd (Login a now r b s)))"
proof (cases b)
  case (JSONBody password)
  let ?ip = "ExtractClientIP r"
  obtain x s1 where l: "isLoginLocked a ?ip adminRole s = (x, s1)" by (cases "isLoginLocked a ?ip adminRole s")
  obtain y s2 where g: "getStoredAdminPassword s1 = (y, s2)" by (cases "getStoredAdminPassword s1")
  have s1: "later (sv_redis s) (sv_redis s1)" using later_locked [of s a ?ip adminRole] l by simp
  moreover have s2: "sv_redis s2 = sv_redis s1" using services_redis(1) [of s1] g by simp
  ultimately have "later (sv_redis s) (sv_redis (handleFailedLogin a ?ip adminRole s2))"
    "later (sv_redis s) (sv_redis (snd (completeAdminLogin a now r ?ip adminRole s2)))"
    using later_failed later_complete later_trans by metis+
  then show ?thesis using s1 s2 by (simp add: Login_def JSONBody l g Let_def split: option.split sum.split)
qed (simp_all add: Login_def)

lemma logins_later: "later (sv_redis s) (sv_redis (snd (logins a reqs s)))"
proof (induction reqs arbitrary: s)
  case (Cons q reqs)
  obtain now r b where q: "q = (now, r, b)" by (cases q)
  have "later (sv_redis s) (sv_redis (snd (logins a reqs (snd (Login a now r b s)))))"
    by (rule later_trans [OF Login_later Cons.IH])
  then show ?case by (simp add: q Let_def split_def)
qed simp

text \<open>The next wrong password counts, and the fifth locks.\<close>

lemma wrong_step:
  assumes "Login a now r b s = (resp, s')" "rs_Status resp = 401" "ad_hasRedis a" "\<And>i. tk_attempts (sv_redis s) i = Runs" "mono (tk_clock (sv_redis s))"
    and "failures k T (sv_redis s)" "0 \<le> k" "k < 5" "T \<le> tk_now (sv_redis s) + 900000" "tk_now (sv_redis s') < T"
  shows "if k < 4 then failures (k + 1) T (sv_redis s')
     else key_held lockKey (tk_clock (sv_redis s') (tk_pos (sv_redis s') - 1) + loginLockDuration) (sv_redis s')"
proof -
  let ?ip = "ExtractClientIP r" and ?rd = "sv_redis s"
  define rd1 where "rd1 = snd (IsLoginLocked ?ip adminRole ?rd)"
  define rd2 where "rd2 = snd (IncrementFailedLogin ?ip adminRole rd1)"
  have rd1: "tk_attempts rd1 = tk_attempts ?rd" "tk_clock rd1 = tk_clock ?rd" "tk_pos rd1 = Suc (Suc (tk_pos ?rd))"
    by (simp_all add: rd1_def)
  have rd2: "tk_attempts rd2 = tk_attempts ?rd" "tk_clock rd2 = tk_clock ?rd" "tk_pos rd2 = Suc (tk_pos rd1)"
    by (simp_all add: rd2_def rd1)
  have runs: "tk_attempts rd1 i = Runs" "tk_attempts rd2 i = Runs" for i using assms(4) rd1(1) rd2(1) by simp_all
  obtain res where res: "IncrementFailedLogin ?ip adminRole rd1 = (res, rd2)" by (cases "IncrementFailedLogin ?ip adminRole rd1") (simp add: rd2_def)
  have after: "sv_redis s' = (case res of Inl _ \<Rightarrow> rd2
      | Inr (i, c) \<Rightarrow> if 5 \<le> i \<or> 5 \<le> c then snd (SetLoginLock ?ip adminRole loginLockDuration rd2) else rd2)"
    using Login_wrong [OF assms(1-3)] res by (simp add: rd1_def)
  have pos: "tk_attempts (sv_redis s') = tk_attempts ?rd" "tk_clock (sv_redis s') = tk_clock ?rd" "Suc (tk_pos rd1) \<le> tk_pos (sv_redis s')"
    unfolding after by (simp_all add: rd1 rd2 split: sum.split prod.split)
  have t: "tk_clock ?rd (Suc (tk_pos ?rd)) < T" "tk_now rd1 < T" "tk_now ?rd \<le> tk_now rd1"
    using assms(10) pos rd1(2,3) monoD [OF assms(5), of _ "tk_pos (sv_redis s')"] monoD [OF assms(5), of "tk_pos ?rd" "tk_pos rd1"]
    by (auto simp: tk_now_def intro!: le_less_trans [OF monoD [OF assms(5), of _ "tk_pos (sv_redis s')"]])
  have f: "failures k T rd1" unfolding rd1_def by (rule failures_reads [OF assms(6,4,5) t(1)])
  obtain i where i: "res = Inr (i, k + 1)" "i \<le> k + 1" "failures (k + 1) T rd2"
    using increment_counts [OF runs(1) f t(2) _ assms(7,8), of ?ip] assms(9) t(3) res by auto
  show "if k < 4 then failures (k + 1) T (sv_redis s')
     else key_held lockKey (tk_clock (sv_redis s') (tk_pos (sv_redis s') - 1) + loginLockDuration) (sv_redis s')"
  proof (cases "k < 4")
    case False
    then have s': "sv_redis s' = snd (SetLoginLock ?ip adminRole loginLockDuration rd2)" using after i assms(8) by simp
    then show ?thesis using False SetLoginLock_holds [OF runs(2), of ?ip] by (simp add: s')
  qed (use after i in simp)
qed

lemma wrong_run:
  assumes "logins a reqs s = (resps, s')" "\<forall>resp \<in> set resps. rs_Status resp = 401" "ad_hasRedis a"
    and "\<And>i. tk_attempts (sv_redis s) i = Runs" "mono (tk_clock (sv_redis s))" "failures k T (sv_redis s)" "0 \<le> k"
    and "T \<le> tk_now (sv_redis s) + 900000" "tk_now (sv_redis s') < T" "k + int (length reqs) = 5" "reqs \<noteq> []"
  shows "key_held lockKey (tk_clock (sv_redis s') (tk_pos (sv_redis s') - 1) + loginLockDuration) (sv_redis s')"
  using assms
proof (induction reqs arbitrary: k s resps)
  case (Cons q reqs)
  obtain now r b where q: "q = (now, r, b)" by (cases q)
  obtain resp s1 where l: "Login a now r b s = (resp, s1)" by (cases "Login a now r b s")
  obtain resps1 where rest: "logins a reqs s1 = (resps1, s')" "resps = resp # resps1"
    using Cons.prems(1) q l by (auto simp: Let_def split: prod.splits)
  have later: "later (sv_redis s) (sv_redis s1)" "later (sv_redis s1) (sv_redis s')"
    using Login_later [of s a now r b] logins_later [of s1 a reqs] l rest(1) by simp_all
  then have same: "tk_clock (sv_redis s1) = tk_clock (sv_redis s)" "tk_attempts (sv_redis s1) = tk_attempts (sv_redis s)" by (simp_all add: later_def)
  have t: "tk_now (sv_redis s1) < T" "T \<le> tk_now (sv_redis s1) + 900000"
    using later_now [OF later(1)] later_now [OF later(2)] same Cons.prems(5,8,9) by auto
  have step: "if k < 4 then failures (k + 1) T (sv_redis s1)
      else key_held lockKey (tk_clock (sv_redis s1) (tk_pos (sv_redis s1) - 1) + loginLockDuration) (sv_redis s1)"
    using wrong_step [OF l _ Cons.prems(3-7) _ Cons.prems(8) t(1)] Cons.prems(2,10) rest(2) by simp
  show ?case
  proof (cases "reqs = []")
    case True
    then show ?thesis using step rest(1) Cons.prems(10) by simp
  next
    case False
    then have "k < 4" using Cons.prems(10) by (cases reqs) simp_all
    then have "failures (k + 1) T (sv_redis s1)" using step by simp
    moreover have "mono (tk_clock (sv_redis s1))" "tk_attempts (sv_redis s1) i = Runs" "k + 1 + int (length reqs) = 5" for i
      using same Cons.prems(4,5,10) by simp_all
    ultimately show ?thesis using Cons.IH [OF rest(1) _ Cons.prems(3)] Cons.prems(2,7,9) rest(2) t(2) False by simp
  qed
qed simp

text \<open>While the lock holds every login is refused, and the lock is left alone.\<close>

lemma held_pipe:
  assumes "key_held k x rd" "mono (tk_clock rd)" "\<And>f n s. f \<in> set fs \<Longrightarrow> snd (f n s) k = s k"
  shows "key_held k x (snd (pipe fs rd))"
  using assms
proof (induction fs arbitrary: rd)
  case (Cons f fs)
  have "key_held k x (snd (tk_exec f rd))" by (rule held_exec) (use Cons.prems in auto)
  then show ?case using Cons.IH [of "snd (tk_exec f rd)"] Cons.prems(2,3) by (simp add: Let_def split_def)
qed simp

lemma held_locked:
  assumes "key_held lockKey x rd" "mono (tk_clock rd)" "\<And>i. tk_attempts rd i = Runs"
  shows "key_held lockKey x (snd (IsLoginLocked ip adminRole rd))"
    "tk_clock rd (Suc (tk_pos rd)) < x \<Longrightarrow> fst (IsLoginLocked ip adminRole rd) = Inr True"
proof -
  let ?rd = "snd (tk_exec (t_exists (adminLockKeyPrefix @ ip)) rd)"
  have h: "key_held lockKey x ?rd" by (rule held_exec [OF assms(1,2)]) (simp add: t_exists_def)
  have "key_held lockKey x (snd (tk_exec (t_exists lockKey) ?rd))" by (rule held_exec [OF h]) (simp_all add: t_exists_def assms(2))
  then show "key_held lockKey x (snd (IsLoginLocked ip adminRole rd))" by (simp add: IsLoginLocked_def Let_def split_def)
  assume t: "tk_clock rd (Suc (tk_pos rd)) < x"
  then obtain y where "x \<le> y" "tk_kv ?rd lockKey = Some (TStr (str ''1''), Some y)" using h by (auto simp: key_held_def tk_now_def)
  then have "alive (tk_now ?rd) (tk_kv ?rd) lockKey \<noteq> None" using t by (simp add: alive_simps tk_now_def)
  then show "fst (IsLoginLocked ip adminRole rd) = Inr True"
    using assms(3) by (simp add: IsLoginLocked_def exec_runs t_exists_def tk_now_def Let_def)
qed

lemma Login_held:
  assumes "key_held lockKey x (sv_redis s)" "mono (tk_clock (sv_redis s))" "\<And>i. tk_attempts (sv_redis s) i = Runs" "ad_hasRedis a"
  shows "key_held lockKey x (sv_redis (snd (Login a now r b s)))"
proof (cases "\<exists>password. b = JSONBody password \<and> length password \<le> BcryptMaxLen")
  case True
  then obtain password where b: "b = JSONBody password" "length password \<le> BcryptMaxLen" by blast
  note h = held_locked [OF assms(1-3), of "ExtractClientIP r"]
  show ?thesis
  proof (cases "tk_clock (sv_redis s) (Suc (tk_pos (sv_redis s))) < x")
    case True
    then show ?thesis using Login_checks_lock(2) [OF b(2) assms(4) h(2)] h(1) by (simp add: b(1))
  next
    case False
    have l: "later (snd (IsLoginLocked (ExtractClientIP r) adminRole (sv_redis s))) (sv_redis (snd (Login a now r b s)))"
      using Login_checks_lock(1) [OF b(2) assms(4)] by (simp add: b(1))
    have "tk_clock (sv_redis s) (Suc (tk_pos (sv_redis s))) \<le> tk_now (sv_redis (snd (Login a now r b s)))"
      using l assms(2) by (auto simp: later_def tk_now_def mono_def)
    then show ?thesis using False by (simp add: key_held_def)
  qed
next
  case False
  then have "sv_redis (snd (Login a now r b s)) = sv_redis s" by (cases b) (auto simp: Login_def)
  then show ?thesis using assms(1) by simp
qed

lemma logins_held:
  assumes "key_held lockKey x (sv_redis s)" "mono (tk_clock (sv_redis s))" "\<And>i. tk_attempts (sv_redis s) i = Runs" "ad_hasRedis a"
  shows "key_held lockKey x (sv_redis (snd (logins a reqs s)))"
  using assms
proof (induction reqs arbitrary: s)
  case (Cons q reqs)
  obtain now r b where q: "q = (now, r, b)" by (cases q)
  let ?s = "snd (Login a now r b s)"
  have "later (sv_redis s) (sv_redis ?s)" by (rule Login_later)
  then have "key_held lockKey x (sv_redis (snd (logins a reqs ?s)))"
    using Cons.prems by (intro Cons.IH Login_held) (auto simp: later_def)
  then show ?case by (simp add: q Let_def split_def)
qed simp


section \<open>The password\<close>

definition password_in :: "(gostring \<times> config_value) list option \<Rightarrow> config_value option" where
  "password_in m = Option.bind m (\<lambda>al. map_of al adminPasswordKey)"

definition password_on_record :: "database \<Rightarrow> config_value option" where
  "password_on_record d = (case find (\<lambda>r. ac_ID r = str ''global'') (admin_config (db d)) of
       None \<Rightarrow> None | Some r \<Rightarrow> password_in (config_map (ac_Config r)))"

text \<open>The password changed from one to another, and the old one was given.\<close>

definition password_changed :: "admin_env \<Rightarrow> config_updates \<Rightarrow> config_value option \<Rightarrow> config_value option \<Rightarrow> bool" where
  "password_changed a upd before after \<longleftrightarrow> (\<exists>new old current salt hashed. up_AdminPassword upd = Some new \<and> up_OldPassword upd = Some old
     \<and> before = Some (CStr current) \<and> compareAdminPassword a old current \<and> bc_generate a salt new = Some hashed \<and> after = Some (CStr hashed))"

lemma put_password: "put k v m = Some m' \<Longrightarrow> k \<noteq> adminPasswordKey \<Longrightarrow> password_in m' = password_in m"
  by (auto simp: put_def password_in_def update_conv' split: option.splits)

lemma config_keys_apart [simp]: "str ''email_enabled'' \<noteq> adminPasswordKey" "str ''email_from'' \<noteq> adminPasswordKey" "resendAPIKey \<noteq> adminPasswordKey"
  by (simp_all add: adminPasswordKey_def resendAPIKey_def str_def)

lemma change_password_checks:
  assumes "change_password a new (up_OldPassword upd) m s = Some (Inr m', s')" "up_AdminPassword upd = Some new"
  shows "password_changed a upd (password_in m) (password_in m')" "sv_db s' = sv_db s"
    "sv_redis s' = (if ad_hasRedis a then revokeAllAdminSessions (sv_redis s) else sv_redis s)"
proof -
  obtain old where old: "up_OldPassword upd = Some old" using assms(1) by (auto simp: change_password_def split: option.splits)
  define cur where "cur = (case password_in m of Some (CStr p) \<Rightarrow> p | _ \<Rightarrow> [])"
  have run: "change_password a new (up_OldPassword upd) m s = (if \<not> compareAdminPassword a old cur then Some (Inl (problem (Unauthorized ''wrong old password'')), s)
      else (case hashAdminPassword a new s of (None, s) \<Rightarrow> Some (Inl (problem (InternalError ''Failed to hash password'')), s)
        | (Some hashed, s) \<Rightarrow> Option.bind (put adminPasswordKey (CStr hashed) m) (\<lambda>m. Some (Inr m,
            if ad_hasRedis a then s\<lparr>sv_redis := revokeAllAdminSessions (sv_redis s)\<rparr> else s))))"
    unfolding change_password_def old option.case cur_def password_in_def Let_def ..
  then have c: "compareAdminPassword a old cur" using assms(1) by (auto split: if_splits)
  then have "password_in m = Some (CStr cur)" by (auto simp: cur_def compareAdminPassword_def isBcryptHash_def split: option.splits config_value.splits)
  moreover obtain hashed s1 where h1: "hashAdminPassword a new s = (Some hashed, s1)"
    using assms(1) run c by (cases "hashAdminPassword a new s" rule: prod.exhaust) (auto split: option.splits)
  then obtain salt where h: "bc_generate a salt new = Some hashed" "s1 = snd (draw 16 s)"
    by (auto simp: hashAdminPassword_def draw_def split: option.splits)
  moreover have s': "put adminPasswordKey (CStr hashed) m = Some m'" "s' = (if ad_hasRedis a then s1\<lparr>sv_redis := revokeAllAdminSessions (sv_redis s1)\<rparr> else s1)"
    using assms(1) run c h1 by (cases "put adminPasswordKey (CStr hashed) m"; simp)+
  moreover have "password_in m' = Some (CStr hashed)" using s'(1) by (auto simp: put_def password_in_def update_conv' split: option.splits)
  ultimately show "password_changed a upd (password_in m) (password_in m')" using c old assms(2) unfolding password_changed_def by blast
  show "sv_db s' = sv_db s" "sv_redis s' = (if ad_hasRedis a then revokeAllAdminSessions (sv_redis s) else sv_redis s)"
    by (simp_all add: s'(2) h(2) draw_def)
qed

lemma put_opt_password:
  "(case x of None \<Rightarrow> Some m | Some v \<Rightarrow> put k (f v) m) = Some m' \<Longrightarrow> k \<noteq> adminPasswordKey \<Longrightarrow> password_in m' = password_in m"
  by (cases x) (auto dest: put_password)

text \<open>An update that is refused leaves the database alone.\<close>

lemma change_password_refuses:
  "change_password a new old m s = Some (Inl resp, s') \<Longrightarrow> sv_db s' = sv_db s \<and> rs_Status resp \<noteq> 200"
  by (auto simp: change_password_def hashAdminPassword_def draw_def problem_def BadRequest_def Unauthorized_def InternalError_def New_def Let_def
      bind_eq_Some_conv simp del: compareAdminPassword_def split: option.splits if_splits)

text \<open>An update fails for the key, or the password stays, or \<open>change_password\<close> decides.\<close>

lemma applyConfigUpdates_cases:
  assumes "applyConfigUpdates a m upd s = Some (x, s')"
  shows "(\<exists>resp. x = Inl resp \<and> rs_Status resp \<noteq> 200 \<and> sv_db s' = sv_db s)
    \<or> (\<exists>m1 s1. password_in m1 = password_in m \<and> sv_db s1 = sv_db s \<and> sv_redis s1 = sv_redis s
        \<and> (case up_AdminPassword upd of None \<Rightarrow> x = Inr m1 \<and> s' = s1 | Some new \<Rightarrow> change_password a new (up_OldPassword upd) m1 s1 = Some (x, s')))"
proof -
  define setFrom where "setFrom m s = Option.bind (case up_EmailFrom upd of None \<Rightarrow> Some m | Some f \<Rightarrow> put (str ''email_from'') (CStr f) m) (\<lambda>m.
      case up_AdminPassword upd of None \<Rightarrow> Some (Inr m, s) | Some p \<Rightarrow> change_password a p (up_OldPassword upd) m s)" for m s
  obtain m1 where m1: "(case up_EmailEnabled upd of None \<Rightarrow> Some m | Some b \<Rightarrow> put (str ''email_enabled'') (CBool b) m) = Some m1"
    and r: "(case up_ResendApiKey upd of None \<Rightarrow> setFrom m1 s
        | Some key \<Rightarrow> if key = maskedKey then setFrom m1 s else let (nonce, s) = draw NonceSize s
            in (case Encrypt (st_cipher (ad_storage a)) (st_key (ad_storage a)) nonce key of
                  Inl _ \<Rightarrow> Some (Inl (problem (InternalError ''Failed to encrypt API key'')), s)
                | Inr encrypted \<Rightarrow> Option.bind (put resendAPIKey (CStr encrypted) m1) (\<lambda>m. setFrom m s))) = Some (x, s')"
    using assms unfolding applyConfigUpdates_def Let_def setFrom_def [symmetric] by (auto simp: bind_eq_Some_conv)
  have rest: "\<exists>m3. password_in m3 = password_in m2 \<and> (case up_AdminPassword upd of None \<Rightarrow> x = Inr m3 \<and> s' = s2
      | Some new \<Rightarrow> change_password a new (up_OldPassword upd) m3 s2 = Some (x, s'))" if run: "setFrom m2 s2 = Some (x, s')" for m2 s2
  proof -
    obtain m3 where m3: "(case up_EmailFrom upd of None \<Rightarrow> Some m2 | Some f \<Rightarrow> put (str ''email_from'') (CStr f) m2) = Some m3"
      "(case up_AdminPassword upd of None \<Rightarrow> Some (Inr m3, s2) | Some p \<Rightarrow> change_password a p (up_OldPassword upd) m3 s2) = Some (x, s')"
      using run unfolding setFrom_def by (auto simp: bind_eq_Some_conv)
    then show ?thesis using put_opt_password [OF m3(1)] by (cases "up_AdminPassword upd") auto
  qed
  have "(\<exists>resp. x = Inl resp \<and> rs_Status resp \<noteq> 200 \<and> sv_db s' = sv_db s)
    \<or> (\<exists>m2 s2. password_in m2 = password_in m1 \<and> sv_db s2 = sv_db s \<and> sv_redis s2 = sv_redis s \<and> setFrom m2 s2 = Some (x, s'))"
  proof (cases "up_ResendApiKey upd")
    case (Some key)
    then show ?thesis
    proof (cases "key = maskedKey")
      case False
      let ?enc = "Encrypt (st_cipher (ad_storage a)) (st_key (ad_storage a)) (sv_rand s (sv_draws s) NonceSize) key" and ?s = "snd (draw NonceSize s)"
      have d: "draw NonceSize s = (sv_rand s (sv_draws s) NonceSize, ?s)" by (simp add: draw_def)
      have r': "(case ?enc of Inl _ \<Rightarrow> Some (Inl (problem (InternalError ''Failed to encrypt API key'')), ?s)
          | Inr encrypted \<Rightarrow> Option.bind (put resendAPIKey (CStr encrypted) m1) (\<lambda>m. setFrom m ?s)) = Some (x, s')"
        using r unfolding Some option.case if_not_P [OF False] by (subst (asm) d) simp
      show ?thesis
      proof (cases ?enc)
        case (Inr enc)
        then obtain m2 where "put resendAPIKey (CStr enc) m1 = Some m2" "setFrom m2 ?s = Some (x, s')" using r' by (auto simp: bind_eq_Some_conv)
        then show ?thesis using put_password by (intro disjI2 exI [of _ m2] exI [of _ ?s]) (auto simp: draw_def)
      qed (use r' in \<open>auto simp: draw_def problem_def InternalError_def New_def\<close>)
    qed (use r in auto)
  qed (use r in auto)
  then show ?thesis using rest put_opt_password [OF m1] by fastforce
qed

lemma applyConfigUpdates_refuses:
  assumes "applyConfigUpdates a m upd s = Some (Inl resp, s')"
  shows "sv_db s' = sv_db s \<and> rs_Status resp \<noteq> 200"
  using applyConfigUpdates_cases [OF assms] change_password_refuses by (fastforce split: option.splits)

lemma applyConfigUpdates_runs:
  assumes "applyConfigUpdates a m upd s = Some (Inr m', s')"
  shows "\<exists>m1 s1. password_in m1 = password_in m \<and> sv_db s1 = sv_db s \<and> sv_redis s1 = sv_redis s
    \<and> (case up_AdminPassword upd of None \<Rightarrow> m' = m1 \<and> s' = s1 | Some new \<Rightarrow> change_password a new (up_OldPassword upd) m1 s1 = Some (Inr m', s'))"
  using applyConfigUpdates_cases [OF assms] by (fastforce split: option.splits)

lemma load_config_frame:
  assumes "load_config s = (res, s1)"
  shows "password_on_record (sv_db s1) = password_on_record (sv_db s)" "sv_redis s1 = sv_redis s"
    "res = Inr cfg \<Longrightarrow> cfg_ID cfg = str ''global'' \<and> password_on_record (sv_db s) = password_in (config_map (cfg_Config cfg))
       \<and> find (\<lambda>r. ac_ID r = str ''global'') (admin_config (db (sv_db s1))) \<noteq> None"
proof -
  obtain x d where w: "withRetry (select_config (str ''global'')) (sv_db s) = (x, d)" by (cases "withRetry (select_config (str ''global'')) (sv_db s)")
  have o: "case x of Inr r \<Rightarrow> select_config (str ''global'') (db (sv_db s)) = (Inr r, db d)
      | Inl e \<Rightarrow> db d = db (sv_db s) \<or> db d = snd (select_config (str ''global'') (db (sv_db s)))" by (rule config_read.withRetry_once [OF w])
  have l: "load_config s = (case x of Inl _ \<Rightarrow> Inl (problem (InternalError ''Failed to load config''))
      | Inr None \<Rightarrow> Inl (problem (NotFound ''Config not found'')) | Inr (Some r) \<Rightarrow> Inr (scan_config r), s\<lparr>sv_db := d\<rparr>)"
    using w by (simp add: load_config_def on_db_def GetConfig_def split: sum.split option.split)
  have d: "db d = db (sv_db s)" using o by (cases x) (auto simp: select_config_def)
  have s1: "s1 = s\<lparr>sv_db := d\<rparr>" using assms l by simp
  show "password_on_record (sv_db s1) = password_on_record (sv_db s)" "sv_redis s1 = sv_redis s"
    using d by (simp_all add: s1 password_on_record_def)
  assume "res = Inr cfg"
  then obtain r where r: "x = Inr (Some r)" "cfg = scan_config r" using assms l by (auto split: sum.splits option.splits)
  then have f: "find (\<lambda>r. ac_ID r = str ''global'') (admin_config (db (sv_db s))) = Some r" using o unfolding r(1) d by (simp add: select_config_def)
  then have "ac_ID r = str ''global''" by (auto simp: find_Some_iff)
  then show "cfg_ID cfg = str ''global'' \<and> password_on_record (sv_db s) = password_in (config_map (cfg_Config cfg))
       \<and> find (\<lambda>r. ac_ID r = str ''global'') (admin_config (db (sv_db s1))) \<noteq> None"
    using f d by (auto simp: s1 r(2) scan_config_def password_on_record_def Let_def split: option.split)
qed

lemma find_update: "find P xs \<noteq> None \<Longrightarrow> (\<And>r. P r \<Longrightarrow> P (f r)) \<Longrightarrow> find P (map (\<lambda>r. if P r then f r else r) xs) = map_option f (find P xs)"
  by (induction xs) auto

lemma saveConfig_frame:
  assumes "saveConfig now cfg m s = (res, s')" "cfg_ID cfg = str ''global''" "find (\<lambda>r. ac_ID r = str ''global'') (admin_config (db (sv_db s))) \<noteq> None"
  shows "password_on_record (sv_db s') \<in> {password_on_record (sv_db s), password_in m}" "sv_redis s' = sv_redis s"
proof -
  define row where "row = \<lparr>ac_ID = cfg_ID cfg, ac_Config = (case m of None \<Rightarrow> NullJSON | Some al \<Rightarrow> ConfigJSON al), ac_UpdatedAt = now\<rparr>"
  obtain x d where w: "withRetry (upsert_config row) (sv_db s) = (x, d)" by (cases "withRetry (upsert_config row) (sv_db s)")
  have s': "s' = s\<lparr>sv_db := d\<rparr>" using assms(1) w by (auto simp: saveConfig_def SaveConfig_def on_db_def row_def)
  have "db d = db (sv_db s) \<or> db d = snd (upsert_config row (db (sv_db s)))" using config_write.withRetry_once [OF w] by (auto split: sum.splits)
  moreover have "password_on_record (s'_db) = password_in m" if "db s'_db = snd (upsert_config row (db (sv_db s)))" for s'_db
  proof -
    let ?P = "\<lambda>r. ac_ID r = str ''global''" and ?f = "\<lambda>r. r\<lparr>ac_Config := ac_Config row, ac_UpdatedAt := ac_UpdatedAt row\<rparr>"
    have "ac_ID row = str ''global''" "config_map (ac_Config row) = m"
      using assms(2) by (simp_all add: row_def config_map_def split: option.split)
    moreover have "list_ex ?P (admin_config (db (sv_db s)))" using assms(3) by (auto simp: find_None_iff list_ex_iff)
    moreover obtain r where "find ?P (admin_config (db (sv_db s))) = Some r" using assms(3) by blast
    moreover have "find ?P (map (\<lambda>r. if ?P r then ?f r else r) (admin_config (db (sv_db s)))) = map_option ?f (find ?P (admin_config (db (sv_db s))))"
      by (rule find_update [OF assms(3)]) simp
    ultimately show ?thesis by (simp add: password_on_record_def that upsert_config_def)
  qed
  ultimately show "password_on_record (sv_db s') \<in> {password_on_record (sv_db s), password_in m}"
    by (auto simp: s' password_on_record_def)
  show "sv_redis s' = sv_redis s" by (simp add: s')
qed

lemma UpdateConfig_cases:
  assumes "UpdateConfig a now b s = Some (resp, s')"
  obtains (refused) "password_on_record (sv_db s') = password_on_record (sv_db s)" "rs_Status resp \<noteq> 200"
    | (saved) upd cfg s1 m s2 res where "b = JSONBody upd" "load_config s = (Inr cfg, s1)"
        "applyConfigUpdates a (config_map (cfg_Config cfg)) upd s1 = Some (Inr m, s2)" "saveConfig now cfg m s2 = (res, s')"
proof (cases b)
  case (JSONBody upd)
  obtain l s1 where l: "load_config s = (l, s1)" by (cases "load_config s")
  note frame = load_config_frame(1) [OF l]
  show thesis
  proof (cases l)
    case (Inl r)
    then have "resp = r" "s' = s1" using assms l JSONBody by (simp_all add: UpdateConfig_def)
    moreover have "rs_Status r \<noteq> 200" using l Inl
      by (auto simp: load_config_def problem_def InternalError_def NotFound_def New_def split: prod.splits sum.splits option.splits)
    ultimately show thesis using refused frame by simp
  next
    case (Inr cfg)
    obtain x s2 where x: "applyConfigUpdates a (config_map (cfg_Config cfg)) upd s1 = Some (x, s2)"
      using assms l JSONBody Inr by (auto simp: UpdateConfig_def bind_eq_Some_conv)
    show thesis
    proof (cases x)
      case (Inl r)
      then have "resp = r" "s' = s2" using assms l JSONBody \<open>l = Inr cfg\<close> x by (simp_all add: UpdateConfig_def)
      then show thesis using applyConfigUpdates_refuses [OF x [unfolded Inl]] refused frame by (simp add: password_on_record_def)
    next
      case x': (Inr m)
      then have "\<exists>res. saveConfig now cfg m s2 = (res, s')"
        using assms l JSONBody Inr x by (auto simp: UpdateConfig_def split: prod.splits sum.splits)
      then show thesis using saved JSONBody l Inr x x' by blast
    qed
  qed
qed (use assms refused in \<open>auto simp: UpdateConfig_def problem_def BadRequest_def New_def\<close>)

text \<open>C32: Whatever an update asks for, whatever faults happen, the password of the administrator on record changes only when the update names the
  current password, and then to a hash of the new one.\<close>

theorem password_needs_old_password:
  assumes "UpdateConfig a now b s = Some (resp, s')"
  shows "password_on_record (sv_db s') = password_on_record (sv_db s)
    \<or> (\<exists>upd. b = JSONBody upd \<and> password_changed a upd (password_on_record (sv_db s)) (password_on_record (sv_db s')))"
  using assms
proof (cases rule: UpdateConfig_cases)
  case (saved upd cfg s1 m s2 res)
  note l = load_config_frame [OF saved(2)]
  obtain m1 s3 where m1: "password_in m1 = password_in (config_map (cfg_Config cfg))" "sv_db s3 = sv_db s1"
    "case up_AdminPassword upd of None \<Rightarrow> m = m1 \<and> s2 = s3 | Some new \<Rightarrow> change_password a new (up_OldPassword upd) m1 s3 = Some (Inr m, s2)"
    using applyConfigUpdates_runs [OF saved(3)] by blast
  have c: "sv_db s2 = sv_db s1 \<and> (password_in m = password_in m1 \<or> password_changed a upd (password_in m1) (password_in m))"
    using m1(2,3) change_password_checks(1,2) [of a _ upd m1 s3 m s2] by (cases "up_AdminPassword upd") auto
  then have "password_on_record (sv_db s') \<in> {password_on_record (sv_db s), password_in m}"
    using saveConfig_frame(1) [OF saved(4)] l(1) l(3) [OF refl] by simp
  then show ?thesis using c m1(1) l(3) [OF refl] saved(1) by auto
qed simp

section \<open>Sessions\<close>

lemma admin_verified:
  assumes "VerifyAdminTokenClaims a now r s = (Some c, s')"
  shows "\<exists>v. Cookie r adminCookie = Some v \<and> jl_parse (ad_jwt a) now None v = Some c \<and> jc_Role c = adminRole
    \<and> (ad_hasRedis a \<and> jc_ID c \<noteq> [] \<longrightarrow> fst (IsJWTRevoked (jc_ID c) (sv_redis s)) = Inr False)"
proof -
  obtain v where v: "Cookie r adminCookie = Some v" using assms by (auto simp: VerifyAdminTokenClaims_def split: option.splits)
  obtain res s1 where c: "on_redis (IsJWTRevoked (jc_ID c)) s = (res, s1)" by (cases "on_redis (IsJWTRevoked (jc_ID c)) s")
  then have "res = fst (IsJWTRevoked (jc_ID c) (sv_redis s))" by (auto simp: on_redis_def Let_def split_def)
  moreover have "jl_parse (ad_jwt a) now None v = Some c \<and> jc_Role c = adminRole \<and> (ad_hasRedis a \<and> jc_ID c \<noteq> [] \<longrightarrow> res = Inr False)"
    using assms v c by (auto simp: VerifyAdminTokenClaims_def split: option.splits if_splits sum.splits bool.splits prod.splits)
  ultimately show ?thesis using v by simp
qed

lemma saveConfig_redis: "sv_redis (snd (saveConfig now cfg m s)) = sv_redis s"
  by (simp add: saveConfig_def)

lemma revokeAdminJTI_marks:
  assumes "mono (tk_clock rd)" "\<And>i. tk_attempts rd i = Runs" "x \<le> tk_now rd + AdminTokenTTL"
  shows "marked jti x rd \<or> jti = jti' \<Longrightarrow> marked jti x (revokeAdminJTI jti' rd)" "later rd (revokeAdminJTI jti' rd)"
proof -
  let ?rd = "snd (RevokeJWT jti' AdminTokenTTL rd)"
  have ttl: "0 < AdminTokenTTL" by (simp add: AdminTokenTTL_def)
  have apart: "jwtRevokedKey j \<noteq> adminActiveJTISetKey" for j by (simp add: jwtRevokedKey_def adminActiveJTISetKey_def str_def)
  have keep: "snd (t_srem adminActiveJTISetKey m n s) (jwtRevokedKey jti) = s (jwtRevokedKey jti)" for m n s
    using apart by (auto simp: t_srem_def split: option.split tvalue.split)
  assume "marked jti x rd \<or> jti = jti'"
  then have "marked jti x ?rd" using RevokeJWT_marks [OF assms(1,3) ttl] assms(2) by blast
  then show "marked jti x (revokeAdminJTI jti' rd)" unfolding revokeAdminJTI_def RemoveAdminJTI_def marked_def
    using assms(1) by (intro held_exec) (simp_all add: keep)
next
  show "later rd (revokeAdminJTI jti' rd)" by (simp add: revokeAdminJTI_def RemoveAdminJTI_def later_def)
qed

lemma revoke_list_marks:
  assumes "mono (tk_clock rd)" "\<And>i. tk_attempts rd i = Runs" "x \<le> tk_now rd + AdminTokenTTL" "marked jti x rd \<or> jti \<in> set jtis"
  shows "marked jti x (fold revokeAdminJTI jtis rd) \<and> later rd (fold revokeAdminJTI jtis rd)"
  using assms
proof (induction jtis arbitrary: rd)
  case (Cons j jtis)
  let ?rd = "revokeAdminJTI j rd"
  have l: "later rd ?rd" by (rule revokeAdminJTI_marks(2) [OF Cons.prems(1-3)])
  have "marked jti x ?rd \<or> jti \<in> set jtis" using Cons.prems(4) revokeAdminJTI_marks(1) [OF Cons.prems(1-3)] by auto
  moreover have "tk_now rd \<le> tk_now ?rd" by (rule later_now [OF l Cons.prems(1)])
  ultimately have "marked jti x (fold revokeAdminJTI jtis ?rd) \<and> later ?rd (fold revokeAdminJTI jtis ?rd)"
    using Cons.IH [of ?rd] Cons.prems(1-3) l by (simp add: later_def)
  then show ?case using l later_trans by fastforce
qed simp

text \<open>C33: When the password is changed, every session of the administrator ends: no token that is on the list of active sessions is accepted any more,
  whatever happens later, until it has expired by itself.\<close>

theorem password_change_ends_sessions:
  assumes "UpdateConfig a now (JSONBody upd) s = Some (resp, s')" "rs_Status resp = 200" "up_AdminPassword upd = Some new" "ad_hasRedis a"
    and "mono (tk_clock (sv_redis s))" "\<And>i. tk_attempts (sv_redis s) i = Runs"
    and "alive (tk_now (sv_redis s)) (tk_kv (sv_redis s)) adminActiveJTISetKey = Some (TSet jtis, e)" "jc_ID c \<in> set jtis" "jc_ID c \<noteq> []"
    and "Cookie r adminCookie = Some v" "jl_parse (ad_jwt a) now' None v = Some c"
    and "tk_kv (sv_redis s2) (jwtRevokedKey (jc_ID c)) = tk_kv (sv_redis s') (jwtRevokedKey (jc_ID c))"
    and "tk_now (sv_redis s') \<le> tk_now (sv_redis s2)" "tk_now (sv_redis s2) < tk_now (sv_redis s) + AdminTokenTTL"
  shows "fst (VerifyAdminTokenClaims a now' r s2) = None"
proof -
  obtain cfg s1 m s3 res where u: "load_config s = (Inr cfg, s1)" "applyConfigUpdates a (config_map (cfg_Config cfg)) upd s1 = Some (Inr m, s3)"
    "saveConfig now cfg m s3 = (res, s')" using UpdateConfig_cases [OF assms(1)] assms(2) by (metis body.inject)
  obtain m1 s4 where p: "sv_redis s4 = sv_redis s1" "change_password a new (up_OldPassword upd) m1 s4 = Some (Inr m, s3)"
    using applyConfigUpdates_runs [OF u(2)] assms(3) by auto
  have rd: "sv_redis s' = revokeAllAdminSessions (sv_redis s)"
    using saveConfig_redis [of now cfg m s3] u(3) load_config_frame(2) [OF u(1)] change_password_checks(3) [OF p(2) assms(3)] p(1) assms(4) by simp
  let ?rd = "snd (GetAllAdminJTIs (sv_redis s))"
  have g: "fst (GetAllAdminJTIs (sv_redis s)) = Inr jtis" using assms(6,7) by (simp add: GetAllAdminJTIs_def exec_runs t_smembers_def)
  have l: "later (sv_redis s) ?rd" by (simp add: GetAllAdminJTIs_def later_def)
  have "marked (jc_ID c) (tk_now (sv_redis s) + AdminTokenTTL) (fold revokeAdminJTI jtis ?rd) \<and> later ?rd (fold revokeAdminJTI jtis ?rd)"
    using revoke_list_marks [of ?rd "tk_now (sv_redis s) + AdminTokenTTL" "jc_ID c" jtis] l later_now [OF l assms(5)] assms(5,6,8) by (simp add: later_def)
  moreover have "sv_redis s' = fold revokeAdminJTI jtis ?rd" using g by (simp add: rd revokeAllAdminSessions_def split_def split: sum.split)
  ultimately have "marked (jc_ID c) (tk_now (sv_redis s) + AdminTokenTTL) (sv_redis s')" by simp
  then obtain y where y: "tk_now (sv_redis s2) < y" "tk_kv (sv_redis s2) (jwtRevokedKey (jc_ID c)) = Some (TStr (str ''1''), Some y)"
    using assms(12-14) by (auto simp: marked_def key_held_def)
  then have "fst (IsJWTRevoked (jc_ID c) (sv_redis s2)) \<noteq> Inr False" using IsJWTRevoked_cleared [of "jc_ID c" "sv_redis s2"]
    by (auto simp: alive_simps str_def)
  then show ?thesis using admin_verified [of a now' r s2] assms(4,9-11)
    by (cases "VerifyAdminTokenClaims a now' r s2" rule: prod.exhaust, cases "fst (VerifyAdminTokenClaims a now' r s2)") auto
qed

lemma Login_succeeds:
  assumes "Login a now r (JSONBody password) s = (resp, s')" "rs_Status resp = 200" "ad_hasRedis a"
  obtains stored s1 where "fst (IsLoginLocked (ExtractClientIP r) adminRole (sv_redis s)) = Inr False"
    "fst (getStoredAdminPassword s) = Inr stored" "compareAdminPassword a password stored"
    "sv_redis s1 = snd (IsLoginLocked (ExtractClientIP r) adminRole (sv_redis s))"
    "completeAdminLogin a now r (ExtractClientIP r) adminRole s1 = (resp, s')"
proof -
  let ?ip = "ExtractClientIP r"
  obtain x s1 where l: "isLoginLocked a ?ip adminRole s = (x, s1)" by (cases "isLoginLocked a ?ip adminRole s")
  obtain y s2 where g: "getStoredAdminPassword s1 = (y, s2)" by (cases "getStoredAdminPassword s1")
  have bad: "rs_Status (problem (Unauthorized m)) \<noteq> 200" "rs_Status (problem (BadRequest m)) \<noteq> 200" "rs_Status (problem (InternalError m)) \<noteq> 200"
    "rs_Status (problem (Forbidden m)) \<noteq> 200" "rs_Status (problem (TooManyRequests m)) \<noteq> 200" "rs_Status (problem (New 503 m m')) \<noteq> 200" for m m'
    by (simp_all add: problem_def Unauthorized_def BadRequest_def InternalError_def Forbidden_def TooManyRequests_def New_def)
  have len: "\<not> length password > BcryptMaxLen" using assms(1,2) bad by (auto simp: Login_def split: if_splits)
  have x: "x = None" using assms(1,2) l len bad
    by (auto simp: Login_def isLoginLocked_def on_redis_def Let_def split_def split: sum.splits if_splits)
  have s1: "sv_redis s1 = snd (IsLoginLocked ?ip adminRole (sv_redis s))" "fst (IsLoginLocked ?ip adminRole (sv_redis s)) = Inr False" "sv_db s1 = sv_db s"
    using l x assms(3) by (auto simp: isLoginLocked_def on_redis_def Let_def split_def split: sum.splits if_splits)
  have run: "(case y of Inl resp \<Rightarrow> (resp, s2) | Inr stored \<Rightarrow>
      if \<not> compareAdminPassword a password stored then (problem (Unauthorized ''Wrong password''), handleFailedLogin a ?ip adminRole s2)
      else completeAdminLogin a now r ?ip adminRole s2) = (resp, s')"
    using assms(1) len l x g by (simp add: Login_def Let_def)
  have "y \<noteq> Inl resp" using g assms(2) bad unfolding getStoredAdminPassword_def by (auto split: prod.splits sum.splits option.splits if_splits)
  then obtain stored where st: "y = Inr stored" using run by (cases y) auto
  then have c: "compareAdminPassword a password stored" "completeAdminLogin a now r ?ip adminRole s2 = (resp, s')"
    using run assms(2) bad by (auto split: if_splits)
  have "fst (getStoredAdminPassword s1) = fst (getStoredAdminPassword s)"
    using s1(3) by (simp add: getStoredAdminPassword_def on_db_def Let_def split_def split: sum.split option.split)
  then have "fst (getStoredAdminPassword s) = Inr stored" using g st by simp
  moreover have "sv_redis s2 = sv_redis s1" using services_redis(1) [of s1] g by simp
  ultimately show thesis using that [OF s1(2) _ c(1) _ c(2)] s1(1) by simp
qed

text \<open>A login that succeeds was made with the password on record and without a lock, and hands out, in a cookie that scripts cannot read, a token that
  verifies as the administrator's for thirty minutes.\<close>

theorem admin_login_works:
  assumes "jwt_lib_ok (ad_jwt a)" "Login a now r (JSONBody password) s = (resp, s')" "rs_Status resp = 200" "ad_hasRedis a"
  shows "\<exists>stored token. fst (getStoredAdminPassword s) = Inr stored \<and> compareAdminPassword a password stored
    \<and> fst (IsLoginLocked (ExtractClientIP r) adminRole (sv_redis s)) = Inr False
    \<and> (\<exists>ck. rs_Cookies resp = [ck] \<and> ck_Name ck = adminCookie \<and> ck_Value ck = token \<and> ck_HttpOnly ck)
    \<and> (\<forall>now' r' s2. now' < (now + AdminTokenTTL) div 1000 * 1000 \<and> Cookie r' adminCookie = Some token
        \<and> (\<forall>jti. fst (IsJWTRevoked jti (sv_redis s2)) = Inr False) \<longrightarrow> fst (VerifyAdminToken a now' r' s2))"
proof -
  let ?ip = "ExtractClientIP r"
  obtain stored s1 where l: "fst (IsLoginLocked ?ip adminRole (sv_redis s)) = Inr False" "fst (getStoredAdminPassword s) = Inr stored"
    "compareAdminPassword a password stored" "completeAdminLogin a now r ?ip adminRole s1 = (resp, s')"
    using Login_succeeds [OF assms(2-4)] by metis
  have bad: "rs_Status (problem (InternalError m)) \<noteq> 200" for m by (simp add: problem_def InternalError_def New_def)
  define s2 where "s2 = snd (on_redis (ResetFailedLogin ?ip adminRole) s1)"
  obtain token jti s3 where t: "signAdminToken a now s2 = (Inr (token, jti), s3)"
    using l(4) assms(3,4) bad by (cases "signAdminToken a now s2" rule: prod.exhaust, cases "fst (signAdminToken a now s2)")
      (auto simp: completeAdminLogin_def recovered_def s2_def [symmetric] Let_def split: sign_error.splits)
  have ck: "rs_Cookies resp = [BuildAuthCookie adminCookie token (AdminTokenTTL div 1000) (isSecure r)]"
    using l(4) t assms(4) by (auto simp: completeAdminLogin_def s2_def [symmetric] writeJSON_def Let_def)
  obtain c where c: "jl_sign (ad_jwt a) c = Some token" "jc_Role c = adminRole" "jc_ExpiresAt c = (now + AdminTokenTTL) div 1000"
    using t by (auto simp: signAdminToken_def draw_def Let_def split: option.splits)
  have tok: "jl_alg (ad_jwt a) token = Some ES256" "\<And>now'. now' < (now + AdminTokenTTL) div 1000 * 1000 \<Longrightarrow> jl_parse (ad_jwt a) now' None token = Some c"
    using assms(1) c unfolding jwt_lib_ok_def by fastforce+
  have "fst (VerifyAdminToken a now' r' s4)" if "now' < (now + AdminTokenTTL) div 1000 * 1000" "Cookie r' adminCookie = Some token"
      "\<forall>jti. fst (IsJWTRevoked jti (sv_redis s4)) = Inr False" for now' r' s4
  proof -
    have "fst (on_redis (IsJWTRevoked (jc_ID c)) s4) = Inr False" using that(3) by simp
    then show ?thesis using that(2) tok(1) tok(2) [OF that(1)] c(2)
      by (auto simp: VerifyAdminToken_def VerifyAdminTokenClaims_def Let_def split_def split: prod.split sum.split bool.split)
  qed
  then show ?thesis using l(1-3) ck by (intro exI [of _ stored] exI [of _ token]) (auto simp: BuildAuthCookie_def)
qed

section \<open>Instances\<close>

text \<open>A hash that is the password itself, padded.\<close>

definition demo_hash :: "gostring \<Rightarrow> gostring" where
  "demo_hash p = str ''$2a$'' @ take 56 (p @ replicate 56 0)"

definition demo_admin_claims :: jwt_claims where
  "demo_admin_claims = \<lparr>jc_ID = replicate 16 0, jc_Subject = adminRole, jc_Nickname = [], jc_Role = adminRole, jc_Issuer = [], jc_Audience = [],
     jc_IssuedAt = 0, jc_ExpiresAt = 1800\<rparr>"

definition demo_admin_env :: admin_env where
  "demo_admin_env = \<lparr>ad_jwt = demo_jwt demo_admin_claims, ad_storage = demo_storage, ad_hasRedis = True, ad_uuid = (\<lambda>b. b),
     bc_generate = (\<lambda>salt p. Some (demo_hash p)), bc_compare = (\<lambda>h p. h = demo_hash p)\<rparr>"

definition demo_admin :: services where
  "demo_admin = (demo_services demo_tokens)\<lparr>sv_db := demo_users_db\<lparr>db := (db demo_users_db)\<lparr>admin_config :=
     [\<lparr>ac_ID = str ''global'', ac_Config = ConfigJSON [(adminPasswordKey, CStr (demo_hash [7]))], ac_UpdatedAt = 0\<rparr>]\<rparr>\<rparr>\<rparr>"

definition wrong_logins :: "(int \<times> request \<times> gostring body) list" where
  "wrong_logins = replicate 5 (0, demo_request [], JSONBody [8])"

definition demo_after :: "nat \<Rightarrow> services" where
  "demo_after k = demo_admin\<lparr>sv_db := (sv_db demo_admin)\<lparr>db_pos := k\<rparr>, sv_redis := demo_tokens\<lparr>tk_pos := 3 * k,
     tk_kv := (if k = 0 then Map.empty else [adminFailKeyPrefix \<mapsto> (TNum (int k), Some 900002), adminAcctFailPrefix @ adminRole \<mapsto> (TNum (int k), Some 900002)])\<rparr>\<rparr>"

lemma alive_fresh: "n < 900002 \<Longrightarrow> alive n [a \<mapsto> (v, Some 900002), b \<mapsto> (w, Some 900002)] = [a \<mapsto> (v, Some 900002), b \<mapsto> (w, Some 900002)]"
  "alive n Map.empty = Map.empty"
  by (auto simp: alive_def fun_eq_iff)

lemma demo_peer: "ExtractClientIP (demo_request cs) = []"
  by (simp add: ExtractClientIP_def IsTrustedProxy_def demo_request_def peer_def SplitHostPort_def last_index_def index_def)

lemma demo_stored:
  "getStoredAdminPassword (demo_admin\<lparr>sv_db := (sv_db demo_admin)\<lparr>db_pos := k\<rparr>, sv_redis := rd\<rparr>)
     = (Inr (demo_hash [7]), demo_admin\<lparr>sv_db := (sv_db demo_admin)\<lparr>db_pos := Suc k\<rparr>, sv_redis := rd\<rparr>)"
  by (simp add: getStoredAdminPassword_def on_db_def GetConfig_def withRetry_def retry_loop.simps select_config_def demo_admin_def demo_users_db_def
      scan_config_def field_str_def field_bool_def db_tick_def demo_hash_def str_def demo_services_def adminPasswordKey_def Let_def)

lemma demo_compare: "compareAdminPassword demo_admin_env [8] (demo_hash [7]) = False" "compareAdminPassword demo_admin_env [7] (demo_hash [7]) = True"
  by code_simp+

lemma admin_keys_apart' [simp]: "adminFailKeyPrefix \<noteq> adminAcctFailPrefix @ a" "adminAcctFailPrefix @ a \<noteq> adminFailKeyPrefix"
  "adminAcctLockPrefix \<noteq> adminAcctFailPrefix" "adminLockKeyPrefix \<noteq> adminAcctFailPrefix @ a" "adminLockKeyPrefix \<noteq> adminFailKeyPrefix" "adminAcctLockPrefix @ a \<noteq> adminFailKeyPrefix"
  by (simp_all add: adminFailKeyPrefix_def adminAcctFailPrefix_def adminLockKeyPrefix_def adminAcctLockPrefix_def str_def)

lemma demo_count: "1 + int k = int k + 1" "3 + 3 * k = Suc (Suc (Suc (3 * k)))"
  by simp_all

lemmas demo_login_simps = Login_def demo_peer BcryptMaxLen_def isLoginLocked_def demo_admin_env_def IsLoginLocked_def on_redis_def demo_after_def
  exec_runs demo_tokens_def alive_fresh t_exists_def tk_now_def demo_stored demo_compare [unfolded demo_admin_env_def] handleFailedLogin_def
  IncrementFailedLogin_def incrementFailedLoginScript_def t_bind_def t_incr_def t_expire_def t_return_def maxFailedLoginAttempts_def Let_def demo_count

lemma demo_step: "k < 4 \<Longrightarrow> Login demo_admin_env 0 (demo_request []) (JSONBody [8]) (demo_after k)
    = (problem (Unauthorized ''Wrong password''), demo_after (Suc k))"
  by (cases "k = 0") (simp_all add: demo_login_simps fun_upd_twist)

definition demo_locked :: services where
  "demo_locked = snd (Login demo_admin_env 0 (demo_request []) (JSONBody [8]) (demo_after 4))"

lemma demo_fifth: "Login demo_admin_env 0 (demo_request []) (JSONBody [8]) (demo_after 4) = (problem (Unauthorized ''Wrong password''), demo_locked)"
  "tk_pos (sv_redis demo_locked) = 17" "tk_clock (sv_redis demo_locked) = int"
  by (simp_all add: demo_locked_def demo_login_simps SetLoginLock_def split_def)


definition demo_right :: services where
  "demo_right = demo_admin\<lparr>sv_db := (sv_db demo_admin)\<lparr>db_pos := 1\<rparr>, sv_redis := demo_tokens\<lparr>tk_pos := 2\<rparr>\<rparr>"

lemma demo_right_login: "Login demo_admin_env 0 (demo_request []) (JSONBody [7]) (demo_after 0) = completeAdminLogin demo_admin_env 0 (demo_request []) [] adminRole demo_right"
proof -
  have tk: "demo_tokens\<lparr>tk_kv := Map.empty\<rparr> = demo_tokens" by (simp add: demo_tokens_def)
  have "isLoginLocked demo_admin_env [] adminRole (demo_after 0) = (None, demo_admin\<lparr>sv_db := (sv_db demo_admin)\<lparr>db_pos := 0\<rparr>, sv_redis := demo_tokens\<lparr>tk_pos := 2\<rparr>\<rparr>)"
    by (simp add: demo_login_simps)
  then show ?thesis by (simp add: Login_def demo_peer BcryptMaxLen_def demo_stored demo_compare demo_right_def)
qed

lemma demo_admin_login:
  "rs_Status (fst (Login demo_admin_env 0 (demo_request []) (JSONBody [7]) (demo_after 0))) = 200"
  "rs_Cookies (fst (Login demo_admin_env 0 (demo_request []) (JSONBody [7]) (demo_after 0))) = [BuildAuthCookie adminCookie [9] 1800 True]"
  unfolding demo_right_login
  by (simp_all add: demo_right_def demo_admin_env_def completeAdminLogin_def ResetFailedLogin_def exec_runs demo_tokens_def t_del_def signAdminToken_def draw_def
      on_redis_def demo_admin_def demo_services_def demo_jwt_def demo_admin_claims_def AdminTokenTTL_def writeJSON_def isSecure_def demo_request_def Let_def split_def)

theorem admin_login_works_witness:
  "fst (VerifyAdminToken demo_admin_env 1000 (demo_request [(adminCookie, [9])]) (demo_services demo_tokens))"
proof -
  obtain resp s' where l: "Login demo_admin_env 0 (demo_request []) (JSONBody [7]) (demo_after 0) = (resp, s')"
    by (cases "Login demo_admin_env 0 (demo_request []) (JSONBody [7]) (demo_after 0)")
  have "jwt_lib_ok (ad_jwt demo_admin_env)" "ad_hasRedis demo_admin_env" by (simp_all add: demo_admin_env_def demo_jwt_ok)
  from admin_login_works [OF this(1) l _ this(2)] obtain token where t: "\<And>ck. rs_Cookies resp = [ck] \<Longrightarrow> ck_Value ck = token"
    and v: "\<And>now' r' s2. now' < (0 + AdminTokenTTL) div 1000 * 1000 \<Longrightarrow> Cookie r' adminCookie = Some token
      \<Longrightarrow> (\<forall>jti. fst (IsJWTRevoked jti (sv_redis s2)) = Inr False) \<Longrightarrow> fst (VerifyAdminToken demo_admin_env now' r' s2)"
    using demo_admin_login(1) l by auto
  have "token = [9]" using t demo_admin_login(2) l by (simp add: BuildAuthCookie_def)
  then show ?thesis
    by (intro v) (auto simp: AdminTokenTTL_def Cookie_def demo_request_def demo_services_def demo_tokens_def IsJWTRevoked_def exec_runs t_get_def alive_def)
qed

text \<open>A session is on the list.\<close>

definition demo_session :: services where
  "demo_session = demo_admin\<lparr>sv_redis := demo_tokens\<lparr>tk_kv := [adminActiveJTISetKey \<mapsto> (TSet [replicate 16 0], Some 1800000)]\<rparr>\<rparr>"

definition demo_change :: config_updates where
  "demo_change = \<lparr>up_EmailEnabled = None, up_ResendApiKey = None, up_EmailFrom = None, up_AdminPassword = Some [5], up_OldPassword = Some [7]\<rparr>"

definition demo_cfg :: app_config where
  "demo_cfg = \<lparr>cfg_ID = str ''global'', cfg_Config = ConfigJSON [(adminPasswordKey, CStr (demo_hash [7]))], cfg_UpdatedAt = 0,
     cfg_EmailEnabled = False, cfg_EmailFrom = []\<rparr>"

definition demo_loaded :: services where
  "demo_loaded = demo_session\<lparr>sv_db := (sv_db demo_session)\<lparr>db_pos := 1\<rparr>\<rparr>"

lemma demo_load: "load_config demo_session = (Inr demo_cfg, demo_loaded)"
  by (simp add: load_config_def on_db_def GetConfig_def withRetry_def retry_loop.simps select_config_def demo_loaded_def demo_cfg_def
      demo_session_def demo_admin_def demo_users_db_def demo_services_def scan_config_def field_str_def field_bool_def db_tick_def adminPasswordKey_def str_def Let_def)

definition demo_revoked :: services where
  "demo_revoked = demo_loaded\<lparr>sv_draws := 1, sv_redis := revokeAllAdminSessions (sv_redis demo_session)\<rparr>"

lemma demo_draw: "sv_rand demo_loaded 0 16 = Some (replicate 16 0)" "sv_draws demo_loaded = 0"
  "sv_redis demo_loaded = sv_redis demo_session"
  by (simp_all add: demo_loaded_def demo_session_def demo_admin_def demo_services_def)

lemma demo_apply: "applyConfigUpdates demo_admin_env (Some [(adminPasswordKey, CStr (demo_hash [7]))]) demo_change demo_loaded
    = Some (Inr (Some [(adminPasswordKey, CStr (demo_hash [5]))]), demo_revoked)"
proof -
  have "hashAdminPassword demo_admin_env [5] demo_loaded = (Some (demo_hash [5]), demo_loaded\<lparr>sv_draws := 1\<rparr>)"
    by (simp add: hashAdminPassword_def draw_def demo_draw) (simp add: demo_admin_env_def)
  moreover have "ad_hasRedis demo_admin_env" by (simp add: demo_admin_env_def)
  ultimately show ?thesis
    by (simp add: applyConfigUpdates_def demo_change_def change_password_def demo_compare put_def demo_revoked_def demo_draw Let_def)
qed

definition demo_changed :: services where
  "demo_changed = snd (saveConfig 0 demo_cfg (Some [(adminPasswordKey, CStr (demo_hash [5]))]) demo_revoked)"

lemma demo_update: "UpdateConfig demo_admin_env 0 (JSONBody demo_change) demo_session = Some (writeJSON [] (MessageBody ''Config updated''), demo_changed)"
proof -
  have "fst (saveConfig 0 demo_cfg m demo_revoked) = Inr ()" for m
    by (simp add: saveConfig_def SaveConfig_def on_db_def withRetry_def retry_loop.simps upsert_config_def demo_revoked_def demo_loaded_def
      demo_session_def demo_admin_def demo_users_db_def demo_services_def demo_cfg_def Let_def)
  then have "saveConfig 0 demo_cfg (Some [(adminPasswordKey, CStr (demo_hash [5]))]) demo_revoked = (Inr (), demo_changed)"
    by (simp add: demo_changed_def prod_eq_iff)
  moreover have "config_map (cfg_Config demo_cfg) = Some [(adminPasswordKey, CStr (demo_hash [7]))]" by (simp add: config_map_def demo_cfg_def)
  ultimately show ?thesis by (simp add: UpdateConfig_def demo_load demo_apply)
qed

lemma demo_revoked_time: "tk_clock (sv_redis demo_changed) = int" "tk_pos (sv_redis demo_changed) = 3"
proof -
  have "GetAllAdminJTIs (sv_redis demo_session) = (Inr [replicate 16 0], (sv_redis demo_session)\<lparr>tk_pos := 1\<rparr>)"
    by (simp add: GetAllAdminJTIs_def exec_runs demo_session_def demo_tokens_def t_smembers_def alive_def tk_now_def fun_eq_iff)
  then show "tk_clock (sv_redis demo_changed) = int" "tk_pos (sv_redis demo_changed) = 3"
    by (simp_all add: demo_changed_def saveConfig_redis demo_revoked_def revokeAllAdminSessions_def revokeAdminJTI_def RemoveAdminJTI_def)
      (simp add: demo_session_def demo_tokens_def)
qed

theorem password_needs_old_password_witness:
  "password_on_record (sv_db demo_changed) = Some (CStr (demo_hash [7]))
    \<or> password_changed demo_admin_env demo_change (Some (CStr (demo_hash [7]))) (password_on_record (sv_db demo_changed))"
  using password_needs_old_password [OF demo_update]
  by (simp add: demo_session_def demo_admin_def password_on_record_def config_map_def password_in_def)

theorem password_change_ends_sessions_witness:
  "fst (VerifyAdminTokenClaims demo_admin_env 1000 (demo_request [(adminCookie, [9])]) demo_changed) = None"
proof (rule password_change_ends_sessions [OF demo_update])
  show "jc_ID demo_admin_claims \<in> set [replicate 16 0]" by (simp add: demo_admin_claims_def)
  show "up_AdminPassword demo_change = Some [5]" by (simp add: demo_change_def)
  show "alive (tk_now (sv_redis demo_session)) (tk_kv (sv_redis demo_session)) adminActiveJTISetKey = Some (TSet [replicate 16 0], Some 1800000)"
    by (simp add: demo_session_def demo_tokens_def alive_def tk_now_def)
qed (simp_all add: demo_revoked_time demo_admin_env_def demo_session_def demo_tokens_def mono_def writeJSON_def tk_now_def Cookie_def demo_request_def
    demo_jwt_def demo_admin_claims_def AdminTokenTTL_def)

end
