(* ===== verification/Routes_Properties.thy ===== *)
theory Routes_Properties
  imports Routes Admin_Properties
begin

text \<open>
  What the routes promise (\<^verbatim>\<open>server/routes.go\<close>): no handler runs without the credentials and the permission of its route; which
  limits stay closed when Redis is down; and when the header of a proxy decides the address that is limited.
\<close>

section \<open>What a request needs\<close>

lemma admit_user_cleared:
  assumes "admit_user jl now names r s = (Inr r', s')"
  shows "\<exists>name v uid nick jti role. name \<in> set names \<and> Cookie r name = Some v \<and> VerifyToken jl now v = Inr (uid, nick, jti, role) \<and> uid \<noteq> []
    \<and> fst (IsJWTRevoked jti (sv_redis s)) = Inr False \<and> r' = authenticated_request uid nick jti role r"
  using assms
proof (induction names)
  case (Cons name names)
  obtain u n jti role where t: "tryCookie jl now r name = (u, n, jti, role)" by (cases "tryCookie jl now r name")
  show ?case
  proof (cases "u = []")
    case True
    then have "admit_user jl now names r s = (Inr r', s')" using Cons.prems t by simp
    then show ?thesis using Cons.IH by fastforce
  next
    case False
    then obtain v where v: "Cookie r name = Some v" "VerifyToken jl now v = Inr (u, n, jti, role)"
      using t by (auto simp: tryCookie_def split: option.splits if_splits sum.splits)
    obtain res s1 where c: "on_redis (IsJWTRevoked jti) s = (res, s1)" by (cases "on_redis (IsJWTRevoked jti) s")
    then have "res = fst (IsJWTRevoked jti (sv_redis s))" by (auto simp: on_redis_def Let_def split_def)
    moreover have "res = Inr False" "r' = authenticated_request u n jti role r"
      using Cons.prems t False c by (auto split: sum.splits bool.splits)
    ultimately have "name \<in> set (name # names) \<and> Cookie r name = Some v \<and> VerifyToken jl now v = Inr (u, n, jti, role) \<and> u \<noteq> []
        \<and> fst (IsJWTRevoked jti (sv_redis s)) = Inr False \<and> r' = authenticated_request u n jti role r" using v False by simp
    then show ?thesis by blast
  qed
qed simp

lemma admit_limit: "admit1 se now (LimitBy e) r s = (Inr r', s') \<Longrightarrow> r' = r \<and> sv_redis s' = sv_redis s"
  by (auto simp: Let_def split: prod.splits sum.splits if_splits)

lemma admit_append: "admit se now (gs @ hs) r s = (case admit se now gs r s of (Inl resp, s) \<Rightarrow> (Inl resp, s) | (Inr r, s) \<Rightarrow> admit se now hs r s)"
proof (induction gs arbitrary: r s)
  case (Cons g gs)
  then show ?case by (auto simp del: admit1.simps split: prod.split sum.split)
qed simp

lemma admit_limits:
  "admit se now (map LimitBy es) r s = (Inr r', s') \<Longrightarrow> r' = r \<and> sv_redis s' = sv_redis s"
proof (induction es arbitrary: s)
  case (Cons e es)
  then show ?case using admit_limit [of se now e r s] by (auto simp del: admit1.simps split: prod.splits sum.splits)
qed simp

text \<open>The limits come first, then who makes the request, and at last whether the role may do it.\<close>

fun is_limit :: "guard \<Rightarrow> bool" where
  "is_limit (LimitBy e) = True" | "is_limit _ = False"

fun is_permits :: "guard list \<Rightarrow> bool" where
  "is_permits [] = True" | "is_permits [Permit res act] = True" | "is_permits _ = False"

fun is_tail :: "guard list \<Rightarrow> bool" where
  "is_tail (NeedUser # gs) = is_permits gs" | "is_tail (NeedAdmin # gs) = is_permits gs" | "is_tail gs = is_permits gs"

lemma routes_shape: "(mp, gs) \<in> set routes \<Longrightarrow> is_tail (dropWhile is_limit gs)"
proof -
  have "list_all (\<lambda>(mp, gs). is_tail (dropWhile is_limit gs)) routes" by (simp add: routes_def)
  then show "(mp, gs) \<in> set routes \<Longrightarrow> is_tail (dropWhile is_limit gs)" by (auto simp: list_all_iff)
qed

lemma limits_list: "list_all is_limit gs \<Longrightarrow> \<exists>es. gs = map LimitBy es"
proof (induction gs)
  case (Cons g gs)
  then obtain es where "gs = map LimitBy es" by auto
  moreover obtain e where "g = LimitBy e" using Cons.prems by (cases g) auto
  ultimately show ?case by (intro exI [of _ "e # es"]) simp
qed simp

lemma permits_cases: "is_permits gs \<Longrightarrow> gs = [] \<or> (\<exists>res act. gs = [Permit res act])"
  by (cases gs rule: is_permits.cases) auto

lemma tail_cases: "is_tail gs \<Longrightarrow> \<exists>who permit. who \<in> {[], [NeedUser], [NeedAdmin]} \<and> is_permits permit \<and> gs = who @ permit"
  by (cases gs rule: is_tail.cases) (simp_all only: is_tail.simps, auto intro: exI [of _ "[]"])

lemma route_parts:
  assumes "(mp, gs) \<in> set routes"
  obtains es who permit where "gs = map LimitBy es @ who @ permit" "who \<in> {[], [NeedUser], [NeedAdmin]}" "permit = [] \<or> (\<exists>res act. permit = [Permit res act])"
proof -
  have "list_all is_limit (takeWhile is_limit gs)" by (auto simp: list_all_iff dest: set_takeWhileD)
  then obtain es where es: "takeWhile is_limit gs = map LimitBy es" using limits_list by blast
  obtain who permit where w: "who \<in> {[], [NeedUser], [NeedAdmin]}" "is_permits permit" "dropWhile is_limit gs = who @ permit"
    using tail_cases [OF routes_shape [OF assms]] by blast
  have "gs = map LimitBy es @ who @ permit" using es w(3) takeWhile_dropWhile_id [of is_limit gs] by simp
  then show thesis using that w(1) permits_cases [OF w(2)] by blast
qed

text \<open>A guard refuses with 401, 403 or 429.\<close>

lemma admit_user_refuses: "admit_user jl now names r s = (Inl resp, s') \<Longrightarrow> rs_Status resp = 401"
  by (induction names) (auto simp: problem_def Unauthorized_def New_def Let_def split: prod.splits sum.splits bool.splits if_splits)

lemma admit1_refuses: "admit1 se now g r s = (Inl resp, s') \<Longrightarrow> rs_Status resp \<in> {401, 403, 429}"
  by (cases g) (auto simp: problem_def Unauthorized_def Forbidden_def TooManyRequests_def New_def setRateLimitHeaders_def with_headers_def Let_def simp del: admit_user.simps dest: admit_user_refuses
      split: prod.splits sum.splits bool.splits if_splits option.splits)

lemma admit_refuses: "admit se now gs r s = (Inl resp, s') \<Longrightarrow> rs_Status resp \<in> {401, 403, 429}"
proof (induction gs arbitrary: r s)
  case (Cons g gs)
  then show ?case using admit1_refuses [of se now g r s] by (auto simp del: admit1.simps split: prod.splits sum.splits)
qed simp

definition user_cleared :: "server_env \<Rightarrow> int \<Rightarrow> request \<Rightarrow> request \<Rightarrow> services \<Rightarrow> bool" where
  "user_cleared se now r r' s \<longleftrightarrow> (\<exists>name v uid nick jti role. name \<in> {SessionCookie, QuickplayCookie} \<and> Cookie r name = Some v
      \<and> VerifyToken (se_jwt se) now v = Inr (uid, nick, jti, role) \<and> fst (IsJWTRevoked jti (sv_redis s)) = Inr False
      \<and> GetAuthenticatedUser r' = Some (uid, nick) \<and> rq_Role r' = Some role)"

definition admin_cleared :: "server_env \<Rightarrow> int \<Rightarrow> request \<Rightarrow> services \<Rightarrow> bool" where
  "admin_cleared se now r s \<longleftrightarrow> (\<exists>v c. Cookie r adminCookie = Some v \<and> jl_parse (ad_jwt (se_admin se)) now None v = Some c \<and> jc_Role c = adminRole
      \<and> (ad_hasRedis (se_admin se) \<and> jc_ID c \<noteq> [] \<longrightarrow> fst (IsJWTRevoked (jc_ID c) (sv_redis s)) = Inr False))"

lemma who_clears:
  assumes "admit se now who r s1 = (Inr r', s2)" "sv_redis s1 = sv_redis s"
  shows "who = [NeedUser] \<Longrightarrow> user_cleared se now r r' s"
    and "who = [NeedAdmin] \<Longrightarrow> admin_cleared se now r s \<and> request_role r' = str ''admin''"
proof -
  assume "who = [NeedUser]"
  then have "admit_user (se_jwt se) now [SessionCookie, QuickplayCookie] r s1 = (Inr r', s2)"
    using assms(1) by (auto simp del: admit_user.simps split: prod.splits sum.splits)
  from admit_user_cleared [OF this] show "user_cleared se now r r' s"
    unfolding user_cleared_def by (fastforce simp: authenticated_request_def GetAuthenticatedUser_def assms(2))
next
  assume who: "who = [NeedAdmin]"
  obtain c s3 where v: "VerifyAdminTokenClaims (se_admin se) now r s1 = (c, s3)" by (cases "VerifyAdminTokenClaims (se_admin se) now r s1")
  then obtain c' where c': "c = Some c'" using assms(1) who by (cases c) simp_all
  have "admin_cleared se now r s" using admin_verified [of "se_admin se" now r s1] v c' assms(2) unfolding admin_cleared_def by fastforce
  moreover have "request_role r' = str ''admin''" using assms(1) who v c' by (auto simp: request_role_def WithJTI_def RoleAdmin_def str_def)
  ultimately show "admin_cleared se now r s \<and> request_role r' = str ''admin''" ..
qed

lemma admit_route:
  assumes "(mp, gs) \<in> set routes" "admit se now gs r s = (Inr r', s')"
  shows "(NeedUser \<in> set gs \<longrightarrow> user_cleared se now r r' s)
    \<and> (NeedAdmin \<in> set gs \<longrightarrow> admin_cleared se now r s \<and> request_role r' = str ''admin'')
    \<and> (\<forall>res act. Permit res act \<in> set gs \<longrightarrow> CheckPermission (request_role r') res act)"
proof -
  obtain es who permit where p: "gs = map LimitBy es @ who @ permit" "who \<in> {[], [NeedUser], [NeedAdmin]}"
    "permit = [] \<or> (\<exists>res act. permit = [Permit res act])" using route_parts [OF assms(1)] by blast
  obtain x1 s1 where a1: "admit se now (map LimitBy es) r s = (x1, s1)" by (cases "admit se now (map LimitBy es) r s")
  obtain x2 s2 where a2: "admit se now who r s1 = (x2, s2)" by (cases "admit se now who r s1")
  obtain r1 where "x1 = Inr r1" using assms(2) a1 by (cases x1) (simp_all add: p(1) admit_append)
  then have r1: "x1 = Inr r" "sv_redis s1 = sv_redis s" using admit_limits [of se now es r s] a1 by auto
  have w: "(case x2 of Inl resp \<Rightarrow> (Inl resp, s2) | Inr r \<Rightarrow> admit se now permit r s2) = (Inr r', s')"
    using assms(2) unfolding p(1) admit_append a1 r1(1) prod.case sum.case a2 by simp
  then obtain r2 where r2: "x2 = Inr r2" "admit se now permit r2 s2 = (Inr r', s')" by (cases x2) auto
  have role: "r' = r2 \<and> (\<forall>res act. Permit res act \<in> set permit \<longrightarrow> CheckPermission (request_role r') res act)"
    using p(3) r2(2) by (elim disjE exE) (auto split: if_splits)
  have "NeedUser \<in> set gs \<Longrightarrow> who = [NeedUser]" "NeedAdmin \<in> set gs \<Longrightarrow> who = [NeedAdmin]"
    "\<And>res act. Permit res act \<in> set gs \<Longrightarrow> Permit res act \<in> set permit" using p by auto
  then show ?thesis using who_clears [OF a2 [unfolded r2(1)] r1(2)] role by blast
qed

text \<open>Which roles have a permission that a route asks for.\<close>

lemma role_permitted:
  "CheckPermission role (str ''user_data'') act \<Longrightarrow> role \<in> {str ''user'', str ''admin''}"
  "CheckPermission role (str ''lobby'') (str ''create'') \<Longrightarrow> role \<in> {str ''user'', str ''admin''}"
  "CheckPermission role (str ''lobby'') (str ''join'') \<Longrightarrow> role \<in> {str ''user'', str ''admin''}"
proof -
  have n: "str ''user_data'' \<noteq> str ''config''" "str ''user_data'' \<noteq> str ''users''" "str ''user_data'' \<noteq> str ''lobby''"
    "str ''lobby'' \<noteq> str ''config''" "str ''lobby'' \<noteq> str ''users''" "str ''create'' \<noteq> str ''read''" "str ''join'' \<noteq> str ''read''"
    by (simp_all add: str_def)
  show "CheckPermission role (str ''user_data'') act \<Longrightarrow> role \<in> {str ''user'', str ''admin''}"
    "CheckPermission role (str ''lobby'') (str ''create'') \<Longrightarrow> role \<in> {str ''user'', str ''admin''}"
    "CheckPermission role (str ''lobby'') (str ''join'') \<Longrightarrow> role \<in> {str ''user'', str ''admin''}"
    using n by (auto simp: CheckPermission_def permissions_def RoleUser_def RoleAdmin_def split: if_splits)
qed

text \<open>The paths that everybody may ask for, and those of the administrator; all others are those of a player.\<close>

definition public_paths :: "gostring list" where
  "public_paths = map str [''/api/v1/auth/quickplay'', ''/api/v1/auth/check'', ''/api/v1/auth/refresh'', ''/api/v1/auth/logout'',
     ''/api/v1/stats/public'', ''/api/v1/leaderboard'', ''/api/v1/registry/check/{code}'', ''/api/v1/registry/lobbies'', ''/api/v1/admin/login'']"

definition admin_paths :: "gostring list" where
  "admin_paths = map str [''/api/v1/admin/logout'', ''/api/v1/admin/config'']"

fun of_players :: "guard \<Rightarrow> bool" where
  "of_players (Permit res act) \<longleftrightarrow> res = str ''user_data'' \<or> res = str ''lobby'' \<and> (act = str ''create'' \<or> act = str ''join'')"
| "of_players _ \<longleftrightarrow> False"

lemma routes_policy:
  assumes "((m, p), gs) \<in> set routes" "p \<notin> set public_paths"
  shows "if p \<in> set admin_paths then NeedAdmin \<in> set gs else NeedUser \<in> set gs \<and> list_ex of_players gs"
proof -
  have "list_all (\<lambda>((m, p), gs). p \<in> set public_paths \<or>
    (if p \<in> set admin_paths then NeedAdmin \<in> set gs else NeedUser \<in> set gs \<and> list_ex of_players gs)) routes" by code_simp
  then show ?thesis using assms by (auto simp: list_all_iff)
qed

text \<open>C4: No request reaches the handler of a route that is not public without the credentials of the route. The public routes are
  those for getting, checking, renewing and dropping a session, the public statistics, the leaderboard, the two listings of rooms,
  and the login of the administrator. On every other route, whatever the handler is, the request is either refused with 401, 403 or
  429, or handed on: to the routes of the administrator with a token of the administrator that verifies and that, where it has an
  identifier and there is a Redis, Redis has answered not to be revoked; to all others (the data and the statistics of a user,
  creating, matching and joining a room) with a cookie whose token verifies and that Redis has answered not to be revoked, and
  the handler sees the user of this token, with the role of a user or an administrator.\<close>

theorem route_authorization:
  assumes "((m, p), gs) \<in> set routes"
    and "p \<notin> set (map str [''/api/v1/auth/quickplay'', ''/api/v1/auth/check'', ''/api/v1/auth/refresh'', ''/api/v1/auth/logout'',
      ''/api/v1/stats/public'', ''/api/v1/leaderboard'', ''/api/v1/registry/check/{code}'', ''/api/v1/registry/lobbies'', ''/api/v1/admin/login''])"
  shows "(\<exists>resp s'. (\<forall>h. chain se now gs h r s = Some (resp, s')) \<and> rs_Status resp \<in> {401, 403, 429})
    \<or> (\<exists>r' s'. (\<forall>h. chain se now gs h r s = h r' s')
        \<and> (if p \<in> {str ''/api/v1/admin/logout'', str ''/api/v1/admin/config''}
           then admin_cleared se now r s \<and> request_role r' = str ''admin''
           else user_cleared se now r r' s \<and> request_role r' \<in> {str ''user'', str ''admin''}))"
proof -
  obtain x s' where a: "admit se now gs r s = (x, s')" by (cases "admit se now gs r s")
  have c: "chain se now gs h r s = decide h (x, s')" for h by (simp add: serve_is_admit a)
  have "p \<notin> set public_paths" using assms(2) unfolding public_paths_def .
  note pol = routes_policy [OF assms(1) this]
  have ad: "p \<in> {str ''/api/v1/admin/logout'', str ''/api/v1/admin/config''} \<longleftrightarrow> p \<in> set admin_paths" by (auto simp: admin_paths_def)
  show ?thesis
  proof (cases x)
    case (Inl resp)
    then show ?thesis using c admit_refuses [of se now gs r s] a by (intro disjI1) (auto simp: decide_def)
  next
    case (Inr r')
    note f = admit_route [OF assms(1), of se now r s r' s', unfolded a, OF arg_cong2 [of _ _ _ _ Pair, OF Inr refl]]
    have "request_role r' \<in> {str ''user'', str ''admin''}" if "list_ex of_players gs"
    proof -
      obtain g where g: "g \<in> set gs" "of_players g" using \<open>list_ex of_players gs\<close> by (auto simp: list_ex_iff)
      obtain res act where "g = Permit res act" using g(2) by (cases g) simp_all
      then have "CheckPermission (request_role r') res act" "of_players (Permit res act)" using f g by blast+
      then show ?thesis using role_permitted [of "request_role r'"] by auto
    qed
    then show ?thesis using c Inr f pol unfolding ad
      by (intro disjI2 exI [of _ r'] exI [of _ s']) (simp add: decide_def split: if_splits)
  qed
qed

section \<open>The limiter without Redis\<close>

lemma rate_down:
  assumes "tk_attempts rd (tk_pos rd) \<noteq> Runs"
  shows "fst (CheckRateLimit key m w rd) = Inl RedisDown"
  using assms by (cases "tk_attempts rd (tk_pos rd)")
    (auto simp: CheckRateLimit_def tk_exec_def Let_def split_def)

definition fail_open :: "gostring set" where
  "fail_open = {EndpointRegistryCreate, str ''registry:check'', str ''registry:lobbies'', str ''registry:match'', str ''stats:leaderboard''}"

fun first_limit :: "guard list \<Rightarrow> gostring option" where
  "first_limit (LimitBy endpoint # gs) = Some endpoint"
| "first_limit _ = None"

lemma limited_endpoints:
  assumes "(mp, LimitBy endpoint # gs) \<in> set routes"
  shows "endpoint \<in> set [EndpointAuthQuickplay, str ''auth:refresh'', str ''user:data'', str ''stats:public'', str ''stats:leaderboard'',
    str ''user:stats'', EndpointRegistryCreate, str ''registry:check'', str ''registry:lobbies'', str ''registry:match'', str ''admin:login'']"
proof -
  have "set (List.map_filter (first_limit \<circ> snd) routes) = set [EndpointAuthQuickplay, str ''auth:refresh'', str ''user:data'', str ''stats:public'',
    str ''stats:leaderboard'', str ''user:stats'', EndpointRegistryCreate, str ''registry:check'', str ''registry:lobbies'', str ''registry:match'',
    str ''admin:login'']" by (simp add: routes_def List.map_filter_def)
  moreover have "endpoint \<in> set (List.map_filter (first_limit \<circ> snd) routes)"
    using assms by (force simp: List.map_filter_def)
  ultimately show ?thesis by simp
qed

lemma default_policy: "rl_FailClosed (endpoint_config (InitRateLimits n w DefaultEndpointRateLimits) endpoint) \<longleftrightarrow>
  (case map_of DefaultEndpointRateLimits endpoint of None \<Rightarrow> True | Some cfg \<Rightarrow> rl_FailClosed cfg)"
proof -
  have d: "map_of DefaultEndpointRateLimits (str ''default'') = Some (rate 60 True)" by code_simp
  show ?thesis
    by (cases "endpoint = str ''default''")
      (auto simp: endpoint_config_def InitRateLimits_def update_conv' d rate_def Let_def split: option.split)
qed

lemma route_limit_policy:
  assumes "(mp, LimitBy endpoint # gs) \<in> set routes"
  shows "rl_FailClosed (endpoint_config (InitRateLimits n w DefaultEndpointRateLimits) endpoint) \<longleftrightarrow> endpoint \<notin> fail_open"
proof -
  have "\<forall>e \<in> set [EndpointAuthQuickplay, str ''auth:refresh'', str ''user:data'', str ''stats:public'', str ''stats:leaderboard'',
    str ''user:stats'', EndpointRegistryCreate, str ''registry:check'', str ''registry:lobbies'', str ''registry:match'', str ''admin:login''].
    (case map_of DefaultEndpointRateLimits e of None \<Rightarrow> True | Some cfg \<Rightarrow> rl_FailClosed cfg) \<longleftrightarrow> e \<notin> fail_open" by code_simp
  then show ?thesis unfolding default_policy using limited_endpoints [OF assms] by blast
qed

text \<open>When Redis does not answer the limiter, the routes that hand out credentials, read or delete a user's data, show the public statistics or let the
  administrator in refuse with 429, whatever limits are configured, and the routes of the lobbies and the leaderboard serve without a limit.\<close>

theorem limiter_failure_policy:
  assumes "(mp, LimitBy endpoint # gs) \<in> set routes" "se_limits se = InitRateLimits n w DefaultEndpointRateLimits"
    and "tk_attempts (sv_limits s) (tk_pos (sv_limits s)) \<noteq> Runs"
  shows "\<exists>rd resp. rs_Status resp = 429 \<and> (\<forall>h. chain se now (LimitBy endpoint # gs) h r s =
    (if endpoint \<in> {EndpointRegistryCreate, str ''registry:check'', str ''registry:lobbies'', str ''registry:match'', str ''stats:leaderboard''}
     then chain se now gs h r (s\<lparr>sv_limits := rd\<rparr>) else Some (resp, s\<lparr>sv_limits := rd\<rparr>)))"
proof -
  define cfg where "cfg = endpoint_config (se_limits se) endpoint"
  obtain res rd where c: "CheckRateLimit (endpoint_key (se_jwt se) now r endpoint) (rl_Requests cfg) (rl_Window cfg) (sv_limits s) = (res, rd)"
    by (cases "CheckRateLimit (endpoint_key (se_jwt se) now r endpoint) (rl_Requests cfg) (rl_Window cfg) (sv_limits s)")
  then have res: "res = Inl RedisDown" using rate_down [OF assms(3)] by (metis fst_conv)
  have f: "rl_FailClosed cfg \<longleftrightarrow> endpoint \<notin> fail_open" unfolding cfg_def assms(2) by (rule route_limit_policy [OF assms(1)])
  let ?resp = "setRateLimitHeaders (rl_Requests cfg) (rl_Window cfg) (problem (TooManyRequests ''Service temporarily unavailable. Please try again later.''))"
  have "rs_Status ?resp = 429" by (simp add: setRateLimitHeaders_def with_headers_def problem_def TooManyRequests_def New_def)
  moreover have "chain se now (LimitBy endpoint # gs) h r s =
    (if endpoint \<in> fail_open then chain se now gs h r (s\<lparr>sv_limits := rd\<rparr>) else Some (?resp, s\<lparr>sv_limits := rd\<rparr>))" for h
    using c res f by (simp add: EndpointRateLimit_def limited_def cfg_def [symmetric])
  ultimately show ?thesis unfolding fail_open_def by blast
qed

section \<open>Headers of a proxy\<close>

definition forwarded :: "gostring set" where
  "forwarded = {str ''X-Forwarded-For'', str ''X-Forwarded-Proto'', str ''X-Forwarded-Host''}"

text \<open>C35: What a client that is no trusted proxy claims in the headers of a proxy changes nothing: two requests that differ in these headers
  only are served alike, whatever the handler does with the request it gets; it gets the address of the peer.\<close>

theorem forwarded_headers_ignored:
  assumes "\<not> isTrustedPeer (se_net se) r (parseTrustedCIDRs (se_net se) (se_TrustedProxyCIDRs se))"
    and "filter (\<lambda>(k, _). k \<notin> forwarded) hs = filter (\<lambda>(k, _). k \<notin> forwarded) (rq_Header r)"
  shows "setupMiddleware se h (r\<lparr>rq_Header := hs\<rparr>) s = setupMiddleware se h r s
    \<and> setupMiddleware se (\<lambda>r. h (r\<lparr>rq_UserID := Some (ExtractClientIP r)\<rparr>)) r s = setupMiddleware se (\<lambda>r'. h (r'\<lparr>rq_UserID := Some (peer r)\<rparr>)) r s"
proof -
  have get: "map_of hs k = map_of (filter (\<lambda>(k, _). k \<notin> forwarded) hs) k" if "k \<notin> forwarded" for k and hs :: "(gostring \<times> gostring) list"
    using that by (induction hs) auto
  have "str ''Origin'' \<notin> forwarded" by (simp add: forwarded_def str_def)
  then have o: "Header_Get (r\<lparr>rq_Header := hs\<rparr>) (str ''Origin'') = Header_Get r (str ''Origin'')"
    using get [of "str ''Origin''" hs] get [of "str ''Origin''" "rq_Header r"] assms(2) by (simp add: Header_Get_def)
  have p: "peer (r\<lparr>rq_Header := hs\<rparr>) = peer r" by (simp add: peer_def split: option.split)
  have n: "\<not> isTrustedPeer (se_net se) (r\<lparr>rq_Header := hs\<rparr>) (parseTrustedCIDRs (se_net se) (se_TrustedProxyCIDRs se))"
    using assms(1) by (simp add: isTrustedPeer_def p)
  have d: "TrustedProxy (se_net se) (se_TrustedProxyCIDRs se) g r s
      = g (r\<lparr>rq_Header := filter (\<lambda>(k, _). k \<notin> forwarded) (rq_Header r), rq_Trusted := Some False\<rparr>) s"
    if "\<not> isTrustedPeer (se_net se) r (parseTrustedCIDRs (se_net se) (se_TrustedProxyCIDRs se))" for g r s
    using that by (simp only: TrustedProxy_def Let_def if_False forwarded_def)
  have e: "ExtractClientIP (r\<lparr>rq_Header := x, rq_Trusted := Some False\<rparr>) = peer r" for x
    by (simp add: ExtractClientIP_def IsTrustedProxy_def peer_def split: option.split)
  have t: "TrustedProxy (se_net se) (se_TrustedProxyCIDRs se) g (r\<lparr>rq_Header := hs\<rparr>) s = TrustedProxy (se_net se) (se_TrustedProxyCIDRs se) g r s" for g s
    unfolding d [OF n] d [OF assms(1)] using assms(2) by simp
  have same: "setupMiddleware se h (r\<lparr>rq_Header := hs\<rparr>) s = setupMiddleware se h r s"
    unfolding setupMiddleware_def CORS_def o t by simp
  have addr: "TrustedProxy (se_net se) (se_TrustedProxyCIDRs se) (SecurityHeaders (se_dev se) (\<lambda>r. h (r\<lparr>rq_UserID := Some (ExtractClientIP r)\<rparr>))) r s
     = TrustedProxy (se_net se) (se_TrustedProxyCIDRs se) (SecurityHeaders (se_dev se) (\<lambda>r'. h (r'\<lparr>rq_UserID := Some (peer r)\<rparr>))) r s" for s
    unfolding d [OF assms(1)] SecurityHeaders_def e ..
  show ?thesis by (intro conjI same) (simp only: setupMiddleware_def CORS_def addr)
qed

section \<open>Instances\<close>

definition demo_server :: server_env where
  "demo_server = \<lparr>se_limits = InitRateLimits 60 60000 DefaultEndpointRateLimits, se_jwt = demo_jwt (demo_claims [1] [2] [3]), se_admin = demo_admin_env,
     se_net = \<lparr>nl_ParseCIDR = (\<lambda>_. True), nl_ParseIP = (\<lambda>_. True), nl_Contains = (\<lambda>_ _. False)\<rparr>,
     se_AllowedOrigins = [], se_TrustedProxyCIDRs = [], se_dev = False\<rparr>"

theorem route_authorization_witness:
  "\<exists>resp s'. (\<forall>h. chain demo_server 0 [LimitBy (str ''user:data''), NeedUser, Permit (str ''user_data'') (str ''delete'')] h
       (demo_request []) (demo_services demo_tokens) = Some (resp, s'))
     \<and> rs_Status resp \<in> {401, 403, 429}"
proof -
  have "((str ''DELETE'', str ''/api/v1/user/data''), [LimitBy (str ''user:data''), NeedUser, Permit (str ''user_data'') (str ''delete'')]) \<in> set routes"
    by (simp add: routes_def)
  moreover have "str ''/api/v1/user/data'' \<notin> set (map str [''/api/v1/auth/quickplay'', ''/api/v1/auth/check'', ''/api/v1/auth/refresh'',
      ''/api/v1/auth/logout'', ''/api/v1/stats/public'', ''/api/v1/leaderboard'', ''/api/v1/registry/check/{code}'', ''/api/v1/registry/lobbies'',
      ''/api/v1/admin/login''])" by code_simp
  ultimately have "(\<exists>resp s'. (\<forall>h. chain demo_server 0 [LimitBy (str ''user:data''), NeedUser, Permit (str ''user_data'') (str ''delete'')] h
        (demo_request []) (demo_services demo_tokens) = Some (resp, s')) \<and> rs_Status resp \<in> {401, 403, 429})
    \<or> (\<exists>r' s'. (\<forall>h. chain demo_server 0 [LimitBy (str ''user:data''), NeedUser, Permit (str ''user_data'') (str ''delete'')] h
        (demo_request []) (demo_services demo_tokens) = h r' s')
        \<and> (if str ''/api/v1/user/data'' \<in> {str ''/api/v1/admin/logout'', str ''/api/v1/admin/config''}
           then admin_cleared demo_server 0 (demo_request []) (demo_services demo_tokens) \<and> request_role r' = str ''admin''
           else user_cleared demo_server 0 (demo_request []) r' (demo_services demo_tokens) \<and> request_role r' \<in> {str ''user'', str ''admin''}))"
    by (rule route_authorization)
  moreover have "\<not> user_cleared demo_server 0 (demo_request []) r' (demo_services demo_tokens)"
    "\<not> admin_cleared demo_server 0 (demo_request []) (demo_services demo_tokens)" for r'
    by (simp_all add: user_cleared_def admin_cleared_def Cookie_def demo_request_def)
  ultimately show ?thesis by (auto simp del: chain.simps split: if_splits)
qed

text \<open>Redis fails on every command of the limiter.\<close>

definition demo_outage :: services where
  "demo_outage = (demo_services demo_tokens)\<lparr>sv_limits := demo_tokens\<lparr>tk_attempts := (\<lambda>_. Fails True)\<rparr>\<rparr>"

theorem limiter_failure_policy_witness:
  "\<exists>rd resp. rs_Status resp = 429
     \<and> (\<forall>h. chain demo_server 0 [LimitBy (str ''admin:login'')] h (demo_request []) demo_outage = Some (resp, demo_outage\<lparr>sv_limits := rd\<rparr>))"
proof -
  have "((str ''POST'', str ''/api/v1/admin/login''), [LimitBy (str ''admin:login'')]) \<in> set routes" by (simp add: routes_def)
  from limiter_failure_policy [OF this, of demo_server 60 60000 demo_outage 0 "demo_request []"]
  show ?thesis by (simp add: demo_server_def demo_outage_def EndpointRegistryCreate_def str_def del: chain.simps)
qed

theorem forwarded_headers_ignored_witness:
  "\<forall>h s. setupMiddleware demo_server h ((demo_request [])\<lparr>rq_Header := [(str ''X-Forwarded-For'', str ''10.0.0.1'')]\<rparr>) s
     = setupMiddleware demo_server h (demo_request []) s"
  by (intro allI, rule conjunct1 [OF forwarded_headers_ignored])
    (simp_all add: isTrustedPeer_def parseTrustedCIDRs_def demo_server_def TrimSpace_def forwarded_def demo_request_def)

end
