(* ===== verification/Email_Queue.thy ===== *)
theory Email_Queue
  imports Redis_Cache Strconv "HOL-Library.Sublist"
begin

text \<open>
  The e-mail queue: a Redis stream with one consumer group (\<^verbatim>\<open>EnqueueEmail\<close> in \<^verbatim>\<open>store/redis_stores.go\<close>) and the worker that
  takes messages from it (\<^verbatim>\<open>worker/email_worker.go\<close>, \<^verbatim>\<open>email_resend.go\<close>, \<^verbatim>\<open>retry.go\<close>, \<^verbatim>\<open>common.go\<close>).

  \<^item> \<open>mr_log\<close> holds every entry that was ever added to the stream; the stream has those from \<open>mr_cut\<close> on. Ids are positions. The
    group has delivered the ids below \<open>mr_read\<close>, and \<open>mr_pending\<close> are those that were delivered and not acknowledged.
    Acknowledging does not take an entry out of the stream: only the limit of \<^verbatim>\<open>XADD\<close> does, from the oldest on. The limit is
    approximate: how many entries go is \<open>mr_trim\<close>, up to those beyond the limit. \<open>mr_dead\<close> are the dead letters ever added.
  \<^item> As in \<open>Redis_Cache\<close>, \<open>attempt\<close> says whether a command runs and whether its answer arrives; an open circuit breaker is a
    command that does not run.
  \<^item> The mail service is \<open>ma_outcomes\<close>: what the circuit breaker and the service make of each request. \<open>ma_requests\<close> are the e-mails
    with their outcomes. Decoding the JSON of a payload is \<open>ew_decode\<close>. A panic is \<open>None\<close>. Logs and metrics are not modelled.
\<close>

section \<open>The stream\<close>

record xmessage =
  xm_ID :: nat
  xm_Payload :: "gostring option"
  xm_RetryCount :: "gostring option"

datatype dead_letter = Exhausted xmessage | PermanentError "gostring option" nat gostring

record mail_redis =
  mr_log :: "xmessage list"
  mr_cut :: nat
  mr_read :: "nat option"
  mr_pending :: "nat list"
  mr_dead :: "dead_letter list"
  mr_trim :: "nat \<Rightarrow> nat"
  mr_attempts :: "nat \<Rightarrow> attempt"
  mr_pos :: nat

type_synonym 'a xcmd = "mail_redis \<Rightarrow> (redis_error + 'a) \<times> mail_redis"

definition x_exec :: "'a xcmd \<Rightarrow> 'a xcmd" where
  "x_exec f rd =
     (let (res, rd') = f rd; tick = mr_pos_update Suc
      in case mr_attempts rd (mr_pos rd) of
           Runs \<Rightarrow> (res, tick rd')
         | Fails _ \<Rightarrow> (Inl RedisDown, tick rd)
         | Lost _ \<Rightarrow> (Inl RedisDown, tick rd'))"

text \<open>\<^verbatim>\<open>XADD\<close> with \<^verbatim>\<open>MAXLEN ~\<close>.\<close>

definition XAdd :: "nat \<Rightarrow> gostring option \<Rightarrow> gostring option \<Rightarrow> unit xcmd" where
  "XAdd maxLen payload retryCount rd =
     (let log = mr_log rd @ [\<lparr>xm_ID = length (mr_log rd), xm_Payload = payload, xm_RetryCount = retryCount\<rparr>];
          excess = length log - mr_cut rd - maxLen
      in (Inr (), rd\<lparr>mr_log := log, mr_cut := mr_cut rd + min (mr_trim rd (mr_pos rd)) excess\<rparr>))"

definition XAdd_dead :: "dead_letter \<Rightarrow> unit xcmd" where
  "XAdd_dead d rd = (Inr (), rd\<lparr>mr_dead := mr_dead rd @ [d]\<rparr>)"

definition XAck :: "nat \<Rightarrow> unit xcmd" where
  "XAck i rd = (Inr (), rd\<lparr>mr_pending := removeAll i (mr_pending rd)\<rparr>)"

text \<open>The group starts behind the last entry (\<^verbatim>\<open>$\<close>).\<close>

definition XGroupCreateMkStream :: "unit xcmd" where
  "XGroupCreateMkStream rd = (case mr_read rd of
       Some _ \<Rightarrow> (Inl BadData, rd) | None \<Rightarrow> (Inr (), rd\<lparr>mr_read := Some (length (mr_log rd))\<rparr>))"

definition XReadGroup :: "nat \<Rightarrow> xmessage list xcmd" where
  "XReadGroup n rd = (case mr_read rd of
       None \<Rightarrow> (Inl BadData, rd)
     | Some i \<Rightarrow>
         let ms = take n (drop (max i (mr_cut rd)) (mr_log rd))
         in (Inr ms, if ms = [] then rd
                     else rd\<lparr>mr_read := Some (Suc (xm_ID (last ms))), mr_pending := mr_pending rd @ map xm_ID ms\<rparr>))"

text \<open>\<open>idle\<close>: the entries that no consumer has touched for five minutes. Entries that are no longer in the stream are dropped.\<close>

definition XAutoClaim :: "(nat \<Rightarrow> bool) \<Rightarrow> nat \<Rightarrow> xmessage list xcmd" where
  "XAutoClaim idle n rd =
     (let is = take n (filter idle (mr_pending rd)); kept = (\<lambda>i. mr_cut rd \<le> i \<and> i < length (mr_log rd))
      in (Inr (map (\<lambda>i. mr_log rd ! i) (filter kept is)),
          rd\<lparr>mr_pending := filter (\<lambda>i. kept i \<or> i \<notin> set is) (mr_pending rd)\<rparr>))"

definition EnqueueEmail :: "gostring \<Rightarrow> unit xcmd" where
  "EnqueueEmail payload = x_exec (XAdd 100000 (Some payload) None)"

section \<open>Sending\<close>

record email_payload =
  ep_To :: gostring
  ep_Subject :: gostring
  ep_Body :: gostring

datatype api_outcome = BreakerOpen | RequestFailed | Responded int
datatype send_error = PermanentEmail | TransientEmail

record mail_api =
  ma_outcomes :: "nat \<Rightarrow> api_outcome"
  ma_pos :: nat
  ma_requests :: "(email_payload \<times> api_outcome) list"

record mail_state =
  ms_redis :: mail_redis
  ms_api :: mail_api

definition on_mail :: "'a xcmd \<Rightarrow> mail_state \<Rightarrow> (redis_error + 'a) \<times> mail_state" where
  "on_mail f s = (let (res, rd) = x_exec f (ms_redis s) in (res, s\<lparr>ms_redis := rd\<rparr>))"

definition sendEmail :: "email_payload \<Rightarrow> mail_api \<Rightarrow> send_error option \<times> mail_api" where
  "sendEmail p a =
     (let out = ma_outcomes a (ma_pos a);
          a' = a\<lparr>ma_pos := Suc (ma_pos a), ma_requests := ma_requests a @ [(p, out)]\<rparr>
      in case out of
           BreakerOpen \<Rightarrow> (Some TransientEmail, a')
         | RequestFailed \<Rightarrow> (Some TransientEmail, a')
         | Responded st \<Rightarrow>
             if st \<ge> 500 then (Some TransientEmail, a')
             else if st = 429 then (Some TransientEmail, a')
             else if st \<ge> 400 then (Some PermanentEmail, a')
             else (None, a'))"

definition IsPermanentEmailError :: "send_error \<Rightarrow> bool" where
  "IsPermanentEmailError e \<longleftrightarrow> e = PermanentEmail"

definition redactEmail :: "gostring \<Rightarrow> gostring" where
  "redactEmail email = (if length email \<le> 3 then str ''***'' else take 3 email @ str ''***'')"

section \<open>Retries\<close>

definition parseRetryCount :: "xmessage \<Rightarrow> int" where
  "parseRetryCount m = (case Option.bind (xm_RetryCount m) Atoi of None \<Rightarrow> 0 | Some n \<Rightarrow> n)"

text \<open>In milliseconds; shifting by a negative count is a panic.\<close>

definition retry_delay :: "int \<Rightarrow> int option" where
  "retry_delay retryCount =
     (let shift = (if retryCount > 30 then 30 else retryCount) in if shift < 0 then None else Some (2 ^ nat shift * 100))"

definition moveToDeadLetter :: "xmessage \<Rightarrow> mail_state \<Rightarrow> bool \<times> mail_state" where
  "moveToDeadLetter m s = (case on_mail (XAdd_dead (Exhausted m)) s of
       (Inl _, s) \<Rightarrow> (False, s) | (Inr _, s) \<Rightarrow> (True, snd (on_mail (XAck (xm_ID m)) s)))"

text \<open>\<open>stopping\<close>: the worker is shut down while it waits.\<close>

definition reenqueueWithBackoff :: "bool \<Rightarrow> xmessage \<Rightarrow> int \<Rightarrow> mail_state \<Rightarrow> (bool \<times> mail_state) option" where
  "reenqueueWithBackoff stopping m retryCount s =
     Option.bind (retry_delay retryCount) (\<lambda>_.
       if stopping then Some (False, s)
       else (case on_mail (XAdd 10000 (xm_Payload m) (Some (Sprint_int (retryCount + 1)))) s of
               (Inl _, s) \<Rightarrow> Some (False, s) | (Inr _, s) \<Rightarrow> Some (False, snd (on_mail (XAck (xm_ID m)) s))))"

definition handleRetry :: "bool \<Rightarrow> int \<Rightarrow> xmessage \<Rightarrow> mail_state \<Rightarrow> (bool \<times> mail_state) option" where
  "handleRetry stopping maxRetries m s =
     (let retryCount = parseRetryCount m
      in if retryCount \<ge> maxRetries then Some (moveToDeadLetter m s) else reenqueueWithBackoff stopping m retryCount s)"

section \<open>The worker\<close>

record email_worker =
  ew_decode :: "gostring \<Rightarrow> email_payload option"
  ew_apiKey :: gostring

definition maxRetries :: int where "maxRetries = 5"

definition handleSendFailure :: "bool \<Rightarrow> xmessage \<Rightarrow> email_payload \<Rightarrow> send_error \<Rightarrow> mail_state \<Rightarrow> mail_state option" where
  "handleSendFailure stopping m p e s =
     (if IsPermanentEmailError e
      then let (_, s) = on_mail (XAdd_dead (PermanentError (xm_Payload m) (xm_ID m) (redactEmail (ep_To p)))) s
           in Some (snd (on_mail (XAck (xm_ID m)) s))
      else map_option snd (handleRetry stopping maxRetries m s))"

definition processMessage :: "email_worker \<Rightarrow> bool \<Rightarrow> xmessage \<Rightarrow> mail_state \<Rightarrow> mail_state option" where
  "processMessage w stopping m s = (case xm_Payload m of
       None \<Rightarrow> Some (snd (on_mail (XAck (xm_ID m)) s))
     | Some payload \<Rightarrow> (case ew_decode w payload of
           None \<Rightarrow> Some (snd (on_mail (XAck (xm_ID m)) s))
         | Some p \<Rightarrow>
             if ew_apiKey w = [] then Some s
             else (case sendEmail p (ms_api s) of
                     (Some e, a) \<Rightarrow> handleSendFailure stopping m p e (s\<lparr>ms_api := a\<rparr>)
                   | (None, a) \<Rightarrow> Some (snd (on_mail (XAck (xm_ID m)) (s\<lparr>ms_api := a\<rparr>))))))"

text \<open>One turn of the loop of \<^verbatim>\<open>Start\<close>: how long it waits after an error, in milliseconds, and the messages to process.\<close>

definition initialBackoff :: int where "initialBackoff = 100"
definition maxBackoff :: int where "maxBackoff = 10000"

definition poll :: "int \<Rightarrow> mail_state \<Rightarrow> int \<times> xmessage list \<times> mail_state" where
  "poll backoff s = (case on_mail (XReadGroup 10) s of
       (Inl _, s) \<Rightarrow> (min maxBackoff (backoff * 2), [], s) | (Inr ms, s) \<Rightarrow> (initialBackoff, ms, s))"

text \<open>One tick of \<^verbatim>\<open>runClaimPendingMessages\<close>.\<close>

definition claim :: "(nat \<Rightarrow> bool) \<Rightarrow> mail_state \<Rightarrow> xmessage list \<times> mail_state" where
  "claim idle s = (case on_mail (XAutoClaim idle 100) s of (Inl _, s) \<Rightarrow> ([], s) | (Inr ms, s) \<Rightarrow> (ms, s))"

section \<open>The system\<close>

text \<open>\<open>ml_hand\<close>: the messages that some worker has taken and not finished; \<open>ml_taken\<close>: the payloads whose enqueuing was
  confirmed. Workers may stop at any time and start again. Processing one message is one step, with its commands in the order of
  the code; several workers may have the same message in hand.\<close>

record mail_system =
  ml_state :: mail_state
  ml_hand :: "xmessage list"
  ml_taken :: "gostring set"

inductive mail_step :: "email_worker \<Rightarrow> mail_system \<Rightarrow> mail_system \<Rightarrow> bool" for w where
  enqueue: "EnqueueEmail x (ms_redis (ml_state S)) = (res, rd) \<Longrightarrow>
    mail_step w S (S\<lparr>ml_state := (ml_state S)\<lparr>ms_redis := rd\<rparr>, ml_taken := (if res = Inr () then insert x (ml_taken S) else ml_taken S)\<rparr>)"
| polls: "poll b (ml_state S) = (b', ms, s) \<Longrightarrow> mail_step w S (S\<lparr>ml_state := s, ml_hand := ml_hand S @ ms\<rparr>)"
| claims: "claim idle (ml_state S) = (ms, s) \<Longrightarrow> mail_step w S (S\<lparr>ml_state := s, ml_hand := ml_hand S @ ms\<rparr>)"
| processes: "m \<in> set (ml_hand S) \<Longrightarrow> processMessage w stopping m (ml_state S) = Some s \<Longrightarrow>
    mail_step w S (S\<lparr>ml_state := s, ml_hand := remove1 m (ml_hand S)\<rparr>)"
| crashes: "mail_step w S (S\<lparr>ml_hand := []\<rparr>)"
| starts: "mail_step w S (S\<lparr>ml_state := snd (on_mail XGroupCreateMkStream (ml_state S))\<rparr>)"

inductive_cases mail_stepE: "mail_step w S S'"

text \<open>The first worker has started before anything is enqueued.\<close>

definition mail_init :: "mail_system \<Rightarrow> bool" where
  "mail_init S \<longleftrightarrow> mr_log (ms_redis (ml_state S)) = [] \<and> mr_cut (ms_redis (ml_state S)) = 0
     \<and> mr_read (ms_redis (ml_state S)) = Some 0 \<and> ml_hand S = [] \<and> ml_taken S = {}"

section \<open>What becomes of an e-mail\<close>

definition waiting :: "gostring \<Rightarrow> mail_redis \<Rightarrow> bool" where
  "waiting x rd \<longleftrightarrow> (\<exists>i < length (mr_log rd). xm_Payload (mr_log rd ! i) = Some x \<and> mr_cut rd \<le> i
     \<and> (\<exists>r. mr_read rd = Some r \<and> (r \<le> i \<or> i \<in> set (mr_pending rd))))"

definition overtaken :: "gostring \<Rightarrow> mail_redis \<Rightarrow> bool" where
  "overtaken x rd \<longleftrightarrow> (\<exists>i. xm_Payload (mr_log rd ! i) = Some x \<and> i + 10000 \<le> length (mr_log rd))"

definition redis_faulty :: "mail_redis \<Rightarrow> bool" where
  "redis_faulty rd \<longleftrightarrow> (\<exists>k < mr_pos rd. mr_attempts rd k \<noteq> Runs)"

definition accepted_mail :: "email_payload \<Rightarrow> mail_state \<Rightarrow> bool" where
  "accepted_mail p s \<longleftrightarrow> (\<exists>st. st < 400 \<and> (p, Responded st) \<in> set (ma_requests (ms_api s)))"

definition refused_mail :: "email_payload \<Rightarrow> mail_state \<Rightarrow> bool" where
  "refused_mail p s \<longleftrightarrow> (\<exists>st. 400 \<le> st \<and> st < 500 \<and> st \<noteq> 429 \<and> (p, Responded st) \<in> set (ma_requests (ms_api s)))"

definition dead_lettered :: "gostring \<Rightarrow> mail_redis \<Rightarrow> bool" where
  "dead_lettered x rd \<longleftrightarrow> (\<exists>m. Exhausted m \<in> set (mr_dead rd) \<and> xm_Payload m = Some x)
     \<or> (\<exists>i to. PermanentError (Some x) i to \<in> set (mr_dead rd))"

definition settled_mail :: "email_worker \<Rightarrow> gostring \<Rightarrow> mail_state \<Rightarrow> bool" where
  "settled_mail w x s \<longleftrightarrow> dead_lettered x (ms_redis s)
     \<or> (case ew_decode w x of None \<Rightarrow> True
        | Some p \<Rightarrow> accepted_mail p s \<or> refused_mail p s \<and> redis_faulty (ms_redis s))"

section \<open>What commands keep\<close>

text \<open>Ids are positions, retry counts stay between none and five, at most the entries beyond the last ten thousand are cut.\<close>

definition redis_ok :: "mail_redis \<Rightarrow> bool" where
  "redis_ok rd \<longleftrightarrow>
     (\<forall>i < length (mr_log rd). xm_ID (mr_log rd ! i) = i \<and> 0 \<le> parseRetryCount (mr_log rd ! i) \<and> parseRetryCount (mr_log rd ! i) \<le> maxRetries)
     \<and> (mr_cut rd = 0 \<or> mr_cut rd + 10000 \<le> length (mr_log rd)) \<and> (\<exists>r \<le> length (mr_log rd). mr_read rd = Some r)"

text \<open>From one state of Redis to a later one: nothing is taken back, and what was waiting waits or is overtaken, except for the
  payloads \<open>Y\<close>.\<close>

definition moves :: "gostring set \<Rightarrow> mail_redis \<Rightarrow> mail_redis \<Rightarrow> bool" where
  "moves Y rd rd' \<longleftrightarrow> redis_ok rd' \<and> prefix (mr_log rd) (mr_log rd') \<and> set (mr_dead rd) \<subseteq> set (mr_dead rd')
     \<and> mr_pos rd \<le> mr_pos rd' \<and> mr_attempts rd' = mr_attempts rd
     \<and> (\<forall>x. x \<notin> Y \<longrightarrow> waiting x rd \<longrightarrow> waiting x rd' \<or> overtaken x rd')"

lemma overtaken_later: "overtaken x rd \<Longrightarrow> prefix (mr_log rd) (mr_log rd') \<Longrightarrow> overtaken x rd'"
  by (fastforce simp: overtaken_def prefix_def nth_append)

lemma moves_refl: "redis_ok rd \<Longrightarrow> moves Y rd rd"
  by (simp add: moves_def)

lemma moves_trans: "moves Y rd rd1 \<Longrightarrow> moves Y rd1 rd2 \<Longrightarrow> moves Y rd rd2"
  by (auto simp: moves_def intro: prefix_order.trans) (meson overtaken_later)

lemma moves_mono: "moves Y rd rd' \<Longrightarrow> Y \<subseteq> Z \<Longrightarrow> moves Z rd rd'"
  by (auto simp: moves_def)

lemma pos_frame [simp]:
  "waiting x (mr_pos_update g rd) = waiting x rd" "overtaken x (mr_pos_update g rd) = overtaken x rd"
  "redis_ok (mr_pos_update g rd) = redis_ok rd" "dead_lettered x (mr_pos_update g rd) = dead_lettered x rd"
  by (simp_all add: waiting_def overtaken_def redis_ok_def dead_lettered_def)

lemma moves_tick: "moves Y rd (mr_pos_update Suc rd') = (moves Y rd rd' \<or> moves Y rd (mr_pos_update Suc rd'))"
  by (auto simp: moves_def)

lemma moves_exec:
  assumes "redis_ok rd" "moves Y rd (snd (f rd))"
  shows "moves Y rd (snd (x_exec f rd))"
proof -
  have "moves Y rd (mr_pos_update Suc rd)" "moves Y rd (mr_pos_update Suc (snd (f rd)))"
    using assms by (auto simp: moves_def)
  then show ?thesis by (auto simp: x_exec_def split_def Let_def split: attempt.split)
qed

lemma x_exec_runs: "fst (x_exec f rd) = Inr v \<Longrightarrow> fst (f rd) = Inr v \<and> snd (x_exec f rd) = mr_pos_update Suc (snd (f rd))"
  by (auto simp: x_exec_def split_def Let_def split: attempt.splits)

lemma waitingI: "i < length (mr_log rd) \<Longrightarrow> xm_Payload (mr_log rd ! i) = Some x \<Longrightarrow> mr_cut rd \<le> i \<Longrightarrow> mr_read rd = Some r
    \<Longrightarrow> r \<le> i \<or> i \<in> set (mr_pending rd) \<Longrightarrow> waiting x rd"
  by (auto simp: waiting_def)

lemma add_moves:
  assumes "redis_ok rd" "10000 \<le> maxLen" "0 \<le> parseRetryCount m" "parseRetryCount m \<le> maxRetries"
    and m: "m = \<lparr>xm_ID = length (mr_log rd), xm_Payload = payload, xm_RetryCount = rc\<rparr>"
  shows "moves Y rd (snd (XAdd maxLen payload rc rd))" "payload = Some x \<Longrightarrow> waiting x (snd (XAdd maxLen payload rc rd)\<lparr>mr_pending := P\<rparr>)"
proof -
  define k where "k = min (mr_trim rd (mr_pos rd)) (length (mr_log rd) + 1 - mr_cut rd - maxLen)"
  let ?rd = "snd (XAdd maxLen payload rc rd)"
  have f: "mr_log ?rd = mr_log rd @ [m]" "mr_cut ?rd = mr_cut rd + k" "mr_read ?rd = mr_read rd" "mr_pending ?rd = mr_pending rd"
    "mr_dead ?rd = mr_dead rd" "mr_pos ?rd = mr_pos rd" "mr_attempts ?rd = mr_attempts rd"
    by (simp_all add: XAdd_def Let_def k_def m)
  have cut: "mr_cut rd + k = mr_cut rd \<or> mr_cut rd + k + 10000 \<le> length (mr_log rd) + 1"
    using assms(1,2) unfolding k_def by (auto simp: redis_ok_def min_def)
  have ok: "redis_ok ?rd"
    using assms(1,3,4) cut by (auto simp: redis_ok_def f nth_append less_Suc_eq m)
  have "waiting x ?rd \<or> overtaken x ?rd" if w: "waiting x rd" for x
  proof -
    obtain i r where i: "i < length (mr_log rd)" "xm_Payload (mr_log rd ! i) = Some x" "mr_cut rd \<le> i" "mr_read rd = Some r"
      "r \<le> i \<or> i \<in> set (mr_pending rd)" using w by (auto simp: waiting_def)
    show ?thesis
    proof (cases "mr_cut rd + k \<le> i")
      case True
      then show ?thesis using i by (auto simp: f nth_append intro!: waitingI [of i])
    next
      case False
      then have "i + 10000 \<le> length (mr_log rd) + 1" using cut i(3) by auto
      then show ?thesis using i by (auto simp: f overtaken_def nth_append intro!: exI [of _ i])
    qed
  qed
  then show "moves Y rd ?rd" using ok by (simp add: moves_def f)
  assume "payload = Some x"
  then have pm: "xm_Payload m = Some x" by (simp add: m)
  obtain r where r: "mr_read rd = Some r" "r \<le> length (mr_log rd)" using assms(1) by (auto simp: redis_ok_def)
  have "mr_cut rd + k \<le> length (mr_log rd)" using cut assms(1) by (auto simp: redis_ok_def)
  then show "waiting x (?rd\<lparr>mr_pending := P\<rparr>)" using r by (intro waitingI [of "length (mr_log rd)" _ _ r]) (simp_all add: f pm)
qed

lemma dead_moves: "redis_ok rd \<Longrightarrow> moves Y rd (snd (XAdd_dead d rd))"
  by (auto simp: moves_def XAdd_dead_def redis_ok_def waiting_def)

lemma group_moves: "redis_ok rd \<Longrightarrow> moves Y rd (snd (XGroupCreateMkStream rd))"
  by (auto simp: XGroupCreateMkStream_def redis_ok_def moves_def)

lemma ack_moves:
  assumes "redis_ok rd" "m \<in> set (mr_log rd)"
  shows "moves {x. xm_Payload m = Some x} rd (snd (XAck (xm_ID m) rd))"
proof -
  have m: "mr_log rd ! xm_ID m = m" using assms by (auto simp: in_set_conv_nth redis_ok_def)
  have "waiting x (rd\<lparr>mr_pending := removeAll (xm_ID m) (mr_pending rd)\<rparr>)" if "waiting x rd" "xm_Payload m \<noteq> Some x" for x
    using that m by (fastforce simp: waiting_def)
  then show ?thesis using assms(1) by (auto simp: moves_def XAck_def redis_ok_def)
qed

lemma read_moves:
  assumes "redis_ok rd"
  shows "moves Y rd (snd (XReadGroup n rd))" "fst (XReadGroup n rd) = Inr ms \<Longrightarrow> set ms \<subseteq> set (mr_log rd)"
proof -
  obtain r where r: "mr_read rd = Some r" "r \<le> length (mr_log rd)" using assms by (auto simp: redis_ok_def)
  define q where "q = max r (mr_cut rd)"
  define l where "l = take n (drop q (mr_log rd))"
  have res: "XReadGroup n rd = (Inr l, if l = [] then rd else rd\<lparr>mr_read := Some (Suc (xm_ID (last l))), mr_pending := mr_pending rd @ map xm_ID l\<rparr>)"
    by (simp add: XReadGroup_def r l_def q_def Let_def)
  show "fst (XReadGroup n rd) = Inr ms \<Longrightarrow> set ms \<subseteq> set (mr_log rd)"
    using res by (auto simp: l_def dest: in_set_takeD in_set_dropD)
  show "moves Y rd (snd (XReadGroup n rd))"
  proof (cases "l = []")
    case False
    have len: "q + length l \<le> length (mr_log rd)" "0 < length l" using False by (auto simp: l_def)
    have nth: "l ! j = mr_log rd ! (q + j)" "xm_ID (l ! j) = q + j" if "j < length l" for j
      using that assms len by (auto simp: l_def redis_ok_def)
    have last: "Suc (xm_ID (last l)) = q + length l" using nth(2) [of "length l - 1"] len False by (simp add: last_conv_nth)
    have delivered: "i \<in> set (map xm_ID l)" if "q \<le> i" "i < q + length l" for i
      using nth(2) [of "i - q"] that by (auto intro!: image_eqI [of _ _ "l ! (i - q)"])
    have "waiting x (snd (XReadGroup n rd))" if w: "waiting x rd" for x
    proof -
      obtain i where i: "i < length (mr_log rd)" "xm_Payload (mr_log rd ! i) = Some x" "mr_cut rd \<le> i" "r \<le> i \<or> i \<in> set (mr_pending rd)"
        using w r by (auto simp: waiting_def)
      then show ?thesis using delivered [of i] last False res
        by (intro waitingI [of i]) (auto simp: q_def not_le)
    qed
    then show ?thesis using assms len last False res by (auto simp: moves_def redis_ok_def)
  qed (simp add: res moves_refl assms)
qed

lemma claim_moves:
  assumes "redis_ok rd"
  shows "moves Y rd (snd (XAutoClaim idle n rd))" "fst (XAutoClaim idle n rd) = Inr ms \<Longrightarrow> set ms \<subseteq> set (mr_log rd)"
  using assms by (auto simp: moves_def redis_ok_def XAutoClaim_def Let_def waiting_def)

section \<open>What processing a message achieves\<close>

text \<open>From one state of the worker to a later one: Redis moves on, and requests are only added.\<close>

definition progress :: "gostring set \<Rightarrow> mail_state \<Rightarrow> mail_state \<Rightarrow> bool" where
  "progress Y s s' \<longleftrightarrow> moves Y (ms_redis s) (ms_redis s') \<and> set (ma_requests (ms_api s)) \<subseteq> set (ma_requests (ms_api s'))"

definition cared_for :: "email_worker \<Rightarrow> gostring \<Rightarrow> mail_state \<Rightarrow> bool" where
  "cared_for w x s \<longleftrightarrow> waiting x (ms_redis s) \<or> overtaken x (ms_redis s) \<or> settled_mail w x s"

lemma progress_trans: "progress Y s s1 \<Longrightarrow> progress Y s1 s2 \<Longrightarrow> progress Y s s2"
  by (auto simp: progress_def intro: moves_trans)

lemma settled_later:
  assumes "settled_mail w x s" "progress Y s s'"
  shows "settled_mail w x s'"
proof -
  have "dead_lettered x (ms_redis s) \<Longrightarrow> dead_lettered x (ms_redis s')" "accepted_mail p s \<Longrightarrow> accepted_mail p s'"
    "refused_mail p s \<Longrightarrow> refused_mail p s'" "redis_faulty (ms_redis s) \<Longrightarrow> redis_faulty (ms_redis s')" for p
    using assms(2) unfolding progress_def moves_def dead_lettered_def accepted_mail_def refused_mail_def redis_faulty_def
    by (blast | (simp, meson order_less_le_trans))+
  then show ?thesis using assms(1) by (auto simp: settled_mail_def split: option.splits)
qed

lemma cared_later:
  assumes "cared_for w x s" "progress Y s s'" "x \<in> Y \<Longrightarrow> cared_for w x s'"
  shows "cared_for w x s'"
  using assms settled_later [of w x s Y s'] overtaken_later [of x "ms_redis s" "ms_redis s'"]
  by (cases "x \<in> Y") (auto simp: cared_for_def progress_def moves_def)

lemma on_mail_state: "ms_api (snd (on_mail f s)) = ms_api s" "ms_redis (snd (on_mail f s)) = snd (x_exec f (ms_redis s))"
  "fst (on_mail f s) = fst (x_exec f (ms_redis s))"
  by (simp_all add: on_mail_def split_def Let_def)

lemma progress_on_mail:
  "redis_ok (ms_redis s) \<Longrightarrow> moves Y (ms_redis s) (snd (f (ms_redis s))) \<Longrightarrow> progress Y s (snd (on_mail f s))"
  by (simp add: progress_def on_mail_state moves_exec)

lemma progress_ok: "progress Y s s' \<Longrightarrow> redis_ok (ms_redis s')" "progress Y s s' \<Longrightarrow> m \<in> set (mr_log (ms_redis s)) \<Longrightarrow> m \<in> set (mr_log (ms_redis s'))"
  by (auto simp: progress_def moves_def dest: set_mono_prefix)

definition own :: "xmessage \<Rightarrow> gostring set" where
  "own m = {x. xm_Payload m = Some x}"

lemma ack_progress:
  "redis_ok (ms_redis s) \<Longrightarrow> m \<in> set (mr_log (ms_redis s)) \<Longrightarrow> progress (own m) s (snd (on_mail (XAck (xm_ID m)) s))"
  using ack_moves [of "ms_redis s" m] by (simp add: progress_on_mail own_def)

text \<open>Something is done to the queue or to the dead letters, then the message is acknowledged.\<close>

lemma then_ack:
  assumes "redis_ok (ms_redis s)" "m \<in> set (mr_log (ms_redis s))" "moves {} (ms_redis s) (snd (f (ms_redis s)))"
  shows "progress (own m) s (snd (on_mail (XAck (xm_ID m)) (snd (on_mail f s))))"
proof -
  have "progress {} s (snd (on_mail f s))" using assms by (intro progress_on_mail) auto
  moreover from this have "progress (own m) s (snd (on_mail f s))" by (auto simp: progress_def intro: moves_mono)
  ultimately show ?thesis using assms by (blast intro: progress_trans ack_progress dest: progress_ok)
qed

lemma retry_text:
  assumes "0 \<le> n" "n < maxRetries"
  shows "parseRetryCount \<lparr>xm_ID = i, xm_Payload = p, xm_RetryCount = Some (Sprint_int (n + 1))\<rparr> = n + 1"
  using assms by (simp add: parseRetryCount_def maxRetries_def Atoi_Sprint)

lemma ack_anyway:
  assumes "\<And>P. waiting x (rd\<lparr>mr_pending := P\<rparr>)"
  shows "waiting x (snd (x_exec (XAck i) rd))"
  using assms [of "mr_pending rd"] assms [of "removeAll i (mr_pending rd)"]
  by (simp add: x_exec_def XAck_def Let_def waiting_def split: attempt.split)

lemma ack_dead: "mr_dead (snd (x_exec (XAck i) rd)) = mr_dead rd"
  by (simp add: x_exec_def XAck_def Let_def split: attempt.split)

lemma dead_then_ack:
  "fst (on_mail (XAdd_dead d) s) = Inr () \<Longrightarrow> d \<in> set (mr_dead (ms_redis (snd (on_mail (XAck i) (snd (on_mail (XAdd_dead d) s))))))"
  using x_exec_runs [of "XAdd_dead d" "ms_redis s"] by (simp add: on_mail_state ack_dead XAdd_dead_def)

lemma dead_fails: "fst (on_mail (XAdd_dead d) s) = Inl e \<Longrightarrow> redis_faulty (ms_redis (snd (on_mail (XAdd_dead d) s)))"
  by (auto simp: on_mail_state x_exec_def XAdd_dead_def redis_faulty_def Let_def split: attempt.splits)

lemma unacked: "progress {} s s' \<Longrightarrow> waiting x (ms_redis s) \<Longrightarrow> cared_for w x s'"
  by (rule cared_later [of w x s "{}"]) (auto simp: cared_for_def)

lemma progress_mono: "progress {} s s' \<Longrightarrow> progress Y s s'"
  by (auto simp: progress_def intro: moves_mono)

lemma retry_count_ok: "redis_ok rd \<Longrightarrow> m \<in> set (mr_log rd) \<Longrightarrow> 0 \<le> parseRetryCount m \<and> parseRetryCount m \<le> maxRetries"
  by (auto simp: redis_ok_def in_set_conv_nth)

lemma exhausted_effect:
  assumes "redis_ok (ms_redis s)" "m \<in> set (mr_log (ms_redis s))" "moveToDeadLetter m s = (b, s')"
  shows "progress (own m) s s'" "xm_Payload m = Some x \<Longrightarrow> waiting x (ms_redis s) \<Longrightarrow> cared_for w x s'"
proof -
  obtain res s1 where d: "on_mail (XAdd_dead (Exhausted m)) s = (res, s1)" by (cases "on_mail (XAdd_dead (Exhausted m)) s")
  have p: "progress {} s s1" using progress_on_mail [of s "{}" "XAdd_dead (Exhausted m)"] assms(1) d by (simp add: dead_moves)
  show "progress (own m) s s'"
    using assms d p then_ack [of s m "XAdd_dead (Exhausted m)", OF assms(1,2) dead_moves [OF assms(1)]]
    by (auto simp: moveToDeadLetter_def split: sum.splits intro: progress_mono)
  assume x: "xm_Payload m = Some x" "waiting x (ms_redis s)"
  show "cared_for w x s'"
  proof (cases res)
    case (Inl e)
    then show ?thesis using assms(3) d unacked [OF p x(2)] by (simp add: moveToDeadLetter_def)
  next
    case (Inr u)
    then show ?thesis using assms(3) d dead_then_ack [of "Exhausted m" s "xm_ID m"] x(1)
      by (auto simp: moveToDeadLetter_def cared_for_def settled_mail_def dead_lettered_def)
  qed
qed

lemma reenqueue_effect:
  assumes "redis_ok (ms_redis s)" "m \<in> set (mr_log (ms_redis s))" "parseRetryCount m < maxRetries"
  obtains s' where "reenqueueWithBackoff stopping m (parseRetryCount m) s = Some (False, s')" "progress (own m) s s'"
    "\<And>x. xm_Payload m = Some x \<Longrightarrow> waiting x (ms_redis s) \<Longrightarrow> cared_for w x s'"
proof (cases stopping)
  case True
  then have "reenqueueWithBackoff stopping m (parseRetryCount m) s = Some (False, s)"
    using retry_count_ok [OF assms(1,2)] by (simp add: reenqueueWithBackoff_def retry_delay_def)
  then show thesis using that [of s] assms(1) by (simp add: progress_def moves_refl cared_for_def)
next
  case False
  let ?n = "parseRetryCount m" let ?add = "XAdd 10000 (xm_Payload m) (Some (Sprint_int (?n + 1)))"
  obtain res s1 where d: "on_mail ?add s = (res, s1)" by (cases "on_mail ?add s")
  let ?s2 = "snd (on_mail (XAck (xm_ID m)) s1)"
  have run: "reenqueueWithBackoff stopping m ?n s = Some (False, case res of Inl _ \<Rightarrow> s1 | Inr _ \<Rightarrow> ?s2)"
    using False d retry_count_ok [OF assms(1,2)] by (auto simp: reenqueueWithBackoff_def retry_delay_def split: sum.splits)
  have c: "parseRetryCount \<lparr>xm_ID = i, xm_Payload = p, xm_RetryCount = Some (Sprint_int (?n + 1))\<rparr> = ?n + 1" for i p
    using retry_text retry_count_ok [OF assms(1,2)] assms(3) by blast
  have a: "moves {} (ms_redis s) (snd (?add (ms_redis s)))" "xm_Payload m = Some x \<Longrightarrow> waiting x (snd (?add (ms_redis s))\<lparr>mr_pending := P\<rparr>)" for x P
    using assms(3) retry_count_ok [OF assms(1,2)]
    by (auto intro!: add_moves [OF assms(1) _ _ _ refl] simp: c)
  have p: "progress {} s s1" using progress_on_mail [of s "{}" ?add, OF assms(1) a(1)] d by simp
  have q: "progress (own m) s ?s2" using then_ack [of s m ?add, OF assms(1,2) a(1)] d by simp
  have w: "waiting x (ms_redis ?s2)" if "res = Inr ()" "xm_Payload m = Some x" for x
  proof -
    have "ms_redis s1 = mr_pos_update Suc (snd (?add (ms_redis s)))"
      using that(1) d x_exec_runs [of ?add "ms_redis s" "()"] by (auto simp: on_mail_state prod_eq_iff)
    then show ?thesis using a(2) [OF that(2)] unfolding on_mail_state by (intro ack_anyway) (simp add: waiting_def)
  qed
  show thesis
  proof (cases res)
    case (Inl e)
    then show thesis using that run p unacked [OF p] by (auto intro: progress_mono)
  next
    case (Inr u)
    then show thesis using that run q w by (auto simp: cared_for_def)
  qed
qed

definition handled :: "email_worker \<Rightarrow> xmessage \<Rightarrow> mail_state \<Rightarrow> mail_state \<Rightarrow> bool" where
  "handled w m s s' \<longleftrightarrow> progress (own m) s s' \<and> (\<forall>x. xm_Payload m = Some x \<longrightarrow> waiting x (ms_redis s) \<longrightarrow> cared_for w x s')"

lemma handled_after:
  "handled w m (s\<lparr>ms_api := a\<rparr>) s' \<Longrightarrow> set (ma_requests (ms_api s)) \<subseteq> set (ma_requests a) \<Longrightarrow> handled w m s s'"
  by (auto simp: handled_def progress_def)

lemma retry_effect:
  assumes "redis_ok (ms_redis s)" "m \<in> set (mr_log (ms_redis s))"
  obtains b s' where "handleRetry stopping maxRetries m s = Some (b, s')" "handled w m s s'"
proof (cases "parseRetryCount m < maxRetries")
  case False
  obtain b s' where d: "moveToDeadLetter m s = (b, s')" by (cases "moveToDeadLetter m s")
  then show thesis using that False exhausted_effect [OF assms d] by (simp add: handleRetry_def handled_def)
next
  case True
  obtain s' where "reenqueueWithBackoff stopping m (parseRetryCount m) s = Some (False, s')" "progress (own m) s s'"
    "\<And>x. xm_Payload m = Some x \<Longrightarrow> waiting x (ms_redis s) \<Longrightarrow> cared_for w x s'"
    using reenqueue_effect [OF assms True] by blast
  then show thesis using that [of False s'] True by (simp add: handleRetry_def handled_def)
qed

lemma sent_effect:
  assumes "sendEmail p a = (e, a')"
  shows "set (ma_requests a) \<subseteq> set (ma_requests a')"
    and "e = None \<Longrightarrow> \<exists>st. st < 400 \<and> (p, Responded st) \<in> set (ma_requests a')"
    and "e = Some PermanentEmail \<Longrightarrow> \<exists>st. 400 \<le> st \<and> st < 500 \<and> st \<noteq> 429 \<and> (p, Responded st) \<in> set (ma_requests a')"
  using assms by (auto simp: sendEmail_def Let_def not_le split: api_outcome.splits if_splits)

lemma permanent_effect:
  assumes "redis_ok (ms_redis s)" "m \<in> set (mr_log (ms_redis s))" "xm_Payload m = Some x" "ew_decode w x = Some p" "refused_mail p s"
  obtains s' where "handleSendFailure stopping m p PermanentEmail s = Some s'" "progress (own m) s s'" "settled_mail w x s'"
proof -
  let ?d = "PermanentError (xm_Payload m) (xm_ID m) (redactEmail (ep_To p))"
  obtain res s1 where d: "on_mail (XAdd_dead ?d) s = (res, s1)" by (cases "on_mail (XAdd_dead ?d) s")
  let ?s2 = "snd (on_mail (XAck (xm_ID m)) s1)"
  have run: "handleSendFailure stopping m p PermanentEmail s = Some ?s2"
    using d by (simp add: handleSendFailure_def IsPermanentEmailError_def)
  have q: "progress (own m) s ?s2" using then_ack [of s m "XAdd_dead ?d", OF assms(1,2) dead_moves [OF assms(1)]] d by simp
  have s1: "progress {} s s1" using progress_on_mail [of s "{}" "XAdd_dead ?d", OF assms(1) dead_moves [OF assms(1)]] d by simp
  have "settled_mail w x ?s2"
  proof (cases res)
    case (Inl e)
    then have "settled_mail w x s1"
      using d dead_fails [of ?d s e] s1 assms(4,5) by (auto simp: settled_mail_def refused_mail_def progress_def)
    then show ?thesis using settled_later ack_progress [of s1 m] progress_ok [OF s1] assms(2) by blast
  next
    case (Inr u)
    then show ?thesis using dead_then_ack [of ?d s "xm_ID m"] d assms(3) by (auto simp: settled_mail_def dead_lettered_def)
  qed
  then show thesis using that run q by blast
qed

lemma ack_handled:
  assumes "redis_ok (ms_redis s)" "m \<in> set (mr_log (ms_redis s))" "\<And>x. xm_Payload m = Some x \<Longrightarrow> settled_mail w x s"
  shows "handled w m s (snd (on_mail (XAck (xm_ID m)) s))"
  using ack_progress [OF assms(1,2)] assms(3) by (auto simp: handled_def cared_for_def dest: settled_later)

text \<open>A worker never panics over a message of the queue, and it either leaves the message or takes care of its e-mail.\<close>

lemma process_effect:
  assumes "redis_ok (ms_redis s)" "m \<in> set (mr_log (ms_redis s))"
  obtains s' where "processMessage w stopping m s = Some s'" "handled w m s s'"
proof (cases "\<exists>x p. xm_Payload m = Some x \<and> ew_decode w x = Some p \<and> ew_apiKey w \<noteq> []")
  case False
  have "handled w m s s" using assms(1) by (simp add: handled_def progress_def moves_refl cared_for_def)
  moreover have "handled w m s (snd (on_mail (XAck (xm_ID m)) s))" if "\<And>x. xm_Payload m = Some x \<Longrightarrow> ew_decode w x = None"
    using that ack_handled [OF assms] by (simp add: settled_mail_def)
  ultimately have "\<exists>s'. processMessage w stopping m s = Some s' \<and> handled w m s s'"
    using False by (cases "xm_Payload m"; cases "ew_decode w (the (xm_Payload m))") (auto simp: processMessage_def)
  then show thesis using that by blast
next
  case True
  then obtain x p where x: "xm_Payload m = Some x" "ew_decode w x = Some p" "ew_apiKey w \<noteq> []" by auto
  obtain e a where e: "sendEmail p (ms_api s) = (e, a)" by (cases "sendEmail p (ms_api s)")
  let ?s = "s\<lparr>ms_api := a\<rparr>"
  have s: "redis_ok (ms_redis ?s)" "m \<in> set (mr_log (ms_redis ?s))" using assms by simp_all
  note after = handled_after [where s = s and a = a, OF _ sent_effect(1) [OF e]]
  consider "e = None" | "e = Some PermanentEmail" | "e = Some TransientEmail" by (metis option.exhaust send_error.exhaust)
  then show thesis
  proof cases
    case 1
    then have "settled_mail w x ?s" using sent_effect(2) [OF e] x by (auto simp: settled_mail_def accepted_mail_def)
    then have "handled w m ?s (snd (on_mail (XAck (xm_ID m)) ?s))" using ack_handled [OF s] x by simp
    then show thesis using that after 1 x e by (simp add: processMessage_def)
  next
    case 2
    then have "refused_mail p ?s" using sent_effect(3) [OF e] by (simp add: refused_mail_def)
    then obtain s' where r: "handleSendFailure stopping m p PermanentEmail ?s = Some s'" "progress (own m) ?s s'" "settled_mail w x s'"
      using permanent_effect [OF s x(1,2)] by blast
    then have "handled w m ?s s'" using x by (simp add: handled_def cared_for_def)
    then show thesis using that after 2 x e r(1) by (simp add: processMessage_def)
  next
    case 3
    obtain b s' where r: "handleRetry stopping maxRetries m ?s = Some (b, s')" "handled w m ?s s'"
      using retry_effect [OF s] by blast
    then show thesis using that after 3 x e by (simp add: processMessage_def handleSendFailure_def IsPermanentEmailError_def)
  qed
qed

section \<open>No e-mail is lost\<close>

definition mail_inv :: "email_worker \<Rightarrow> mail_system \<Rightarrow> bool" where
  "mail_inv w S \<longleftrightarrow> redis_ok (ms_redis (ml_state S)) \<and> set (ml_hand S) \<subseteq> set (mr_log (ms_redis (ml_state S)))
     \<and> (\<forall>x \<in> ml_taken S. cared_for w x (ml_state S))"

lemma mail_init_inv: "mail_init S \<Longrightarrow> mail_inv w S"
  by (simp add: mail_init_def mail_inv_def redis_ok_def)

text \<open>A step that makes progress keeps the invariant when it cares for what it acknowledges and for what it takes.\<close>

lemma mail_inv_progress:
  assumes "mail_inv w S" "progress Y (ml_state S) s" "set h \<subseteq> set (ml_hand S) \<union> set (mr_log (ms_redis s))"
    and "\<And>x. x \<in> T \<Longrightarrow> x \<in> ml_taken S \<and> x \<notin> Y \<or> cared_for w x s"
  shows "mail_inv w (S\<lparr>ml_state := s, ml_hand := h, ml_taken := T\<rparr>)"
proof -
  have "cared_for w x s" if "x \<in> T" for x
    using assms(1) assms(4) [OF that] cared_later [OF _ assms(2), of w x] by (auto simp: mail_inv_def)
  then show ?thesis using assms(1,3) progress_ok [OF assms(2)] by (auto simp: mail_inv_def)
qed

lemma enqueue_inv:
  assumes "mail_inv w S" "EnqueueEmail x (ms_redis (ml_state S)) = (res, rd)"
  shows "mail_inv w (S\<lparr>ml_state := (ml_state S)\<lparr>ms_redis := rd\<rparr>, ml_taken := (if res = Inr () then insert x (ml_taken S) else ml_taken S)\<rparr>)"
proof -
  let ?rd = "ms_redis (ml_state S)" let ?s = "(ml_state S)\<lparr>ms_redis := rd\<rparr>" let ?add = "XAdd 100000 (Some x) None"
  let ?T = "if res = Inr () then insert x (ml_taken S) else ml_taken S"
  have ok: "redis_ok ?rd" using assms(1) by (simp add: mail_inv_def)
  have rd: "res = fst (x_exec ?add ?rd)" "rd = snd (x_exec ?add ?rd)" using assms(2) by (simp_all add: EnqueueEmail_def)
  have add: "moves {} ?rd (snd (?add ?rd))" "waiting x (snd (?add ?rd)\<lparr>mr_pending := P\<rparr>)" for P
    using add_moves [where maxLen = 100000 and payload = "Some x" and rc = None, OF ok _ _ _ refl]
    by (simp_all add: parseRetryCount_def maxRetries_def)
  have p: "progress {} (ml_state S) ?s" using moves_exec [where f = ?add, OF ok add(1)] by (simp add: progress_def rd)
  have "waiting x rd" if "res = Inr ()"
    using x_exec_runs [of ?add ?rd "()"] add(2) [of "mr_pending (snd (?add ?rd))"] that by (simp add: rd)
  then have "mail_inv w (S\<lparr>ml_state := ?s, ml_hand := ml_hand S, ml_taken := ?T\<rparr>)"
    by (intro mail_inv_progress [OF assms(1) p]) (auto simp: cared_for_def split: if_splits)
  then show ?thesis by simp
qed

lemma take_inv:
  assumes "mail_inv w S" "on_mail f (ml_state S) = (res, s)" "ms = (case res of Inl _ \<Rightarrow> [] | Inr ms \<Rightarrow> ms)"
    and "\<And>rd. redis_ok rd \<Longrightarrow> moves {} rd (snd (f rd))" "\<And>rd ms. redis_ok rd \<Longrightarrow> fst (f rd) = Inr ms \<Longrightarrow> set ms \<subseteq> set (mr_log rd)"
  shows "mail_inv w (S\<lparr>ml_state := s, ml_hand := ml_hand S @ ms\<rparr>)"
proof -
  let ?rd = "ms_redis (ml_state S)"
  have ok: "redis_ok ?rd" using assms(1) by (simp add: mail_inv_def)
  have p: "progress {} (ml_state S) s" using progress_on_mail [where f = f, OF ok assms(4) [OF ok]] assms(2) by simp
  have "set ms \<subseteq> set (mr_log ?rd)"
    using assms(2,3,5) ok x_exec_runs [of f ?rd ms] by (auto simp: on_mail_def split_def Let_def split: sum.splits)
  then have "set ms \<subseteq> set (mr_log (ms_redis s))" using progress_ok(2) [OF p] by blast
  then have "mail_inv w (S\<lparr>ml_state := s, ml_hand := ml_hand S @ ms, ml_taken := ml_taken S\<rparr>)"
    by (intro mail_inv_progress [OF assms(1) p]) auto
  then show ?thesis by simp
qed

lemma process_inv:
  assumes "mail_inv w S" "m \<in> set (ml_hand S)" "processMessage w stopping m (ml_state S) = Some s"
  shows "mail_inv w (S\<lparr>ml_state := s, ml_hand := remove1 m (ml_hand S)\<rparr>)"
proof -
  have ok: "redis_ok (ms_redis (ml_state S))" "m \<in> set (mr_log (ms_redis (ml_state S)))"
    using assms(1,2) by (auto simp: mail_inv_def)
  have h: "handled w m (ml_state S) s" using process_effect [OF ok, of w stopping] assms(3) by fastforce
  then have p: "progress (own m) (ml_state S) s" by (simp add: handled_def)
  have "cared_for w x s" if "x \<in> ml_taken S" for x
  proof -
    have "cared_for w x (ml_state S)" using assms(1) that by (simp add: mail_inv_def)
    then consider "waiting x (ms_redis (ml_state S))" | "overtaken x (ms_redis (ml_state S))" | "settled_mail w x (ml_state S)"
      by (auto simp: cared_for_def)
    then show ?thesis
    proof cases
      case 1
      then have "x \<in> own m \<Longrightarrow> cared_for w x s" using h by (simp add: handled_def own_def)
      moreover have "cared_for w x (ml_state S)" using 1 by (simp add: cared_for_def)
      ultimately show ?thesis using cared_later [OF _ p] by blast
    next
      case 2
      then have "overtaken x (ms_redis s)" by (rule overtaken_later) (use p in \<open>simp add: progress_def moves_def\<close>)
      then show ?thesis by (simp add: cared_for_def)
    next
      case 3
      then show ?thesis using settled_later [OF _ p] by (simp add: cared_for_def)
    qed
  qed
  then have "mail_inv w (S\<lparr>ml_state := s, ml_hand := remove1 m (ml_hand S), ml_taken := ml_taken S\<rparr>)"
    using set_remove1_subset [of m "ml_hand S"] by (intro mail_inv_progress [OF assms(1) p]) auto
  then show ?thesis by simp
qed

lemma start_inv:
  assumes "mail_inv w S"
  shows "mail_inv w (S\<lparr>ml_state := snd (on_mail XGroupCreateMkStream (ml_state S))\<rparr>)"
proof -
  let ?s = "snd (on_mail XGroupCreateMkStream (ml_state S))"
  have p: "progress {} (ml_state S) ?s"
    using assms(1) by (intro progress_on_mail group_moves) (simp_all add: mail_inv_def)
  have "mail_inv w (S\<lparr>ml_state := ?s, ml_hand := ml_hand S, ml_taken := ml_taken S\<rparr>)"
    by (intro mail_inv_progress [OF assms(1) p]) auto
  then show ?thesis by simp
qed

lemma mail_inv_step:
  assumes "mail_inv w S" "mail_step w S S'"
  shows "mail_inv w S'"
  using assms(2)
proof (cases rule: mail_step.cases)
  case (enqueue x res rd)
  then show ?thesis using enqueue_inv [OF assms(1)] by simp
next
  case (polls b b' ms s)
  then show ?thesis
    using take_inv [OF assms(1), of "XReadGroup 10" "fst (on_mail (XReadGroup 10) (ml_state S))" s ms] read_moves
    by (auto simp: poll_def split: prod.splits sum.splits)
next
  case (claims idle ms s)
  then show ?thesis
    using take_inv [OF assms(1), of "XAutoClaim idle 100" "fst (on_mail (XAutoClaim idle 100) (ml_state S))" s ms] claim_moves
    by (auto simp: claim_def split: prod.splits sum.splits)
next
  case (processes m stopping s)
  then show ?thesis using process_inv [OF assms(1)] by simp
next
  case crashes
  then show ?thesis using assms(1) by (simp add: mail_inv_def)
next
  case starts
  then show ?thesis using start_inv [OF assms(1)] by simp
qed

interpretation mail: transition_system mail_init "mail_step w" "mail_inv w" for w
  by unfold_locales (auto intro: mail_init_inv mail_inv_step)

text \<open>C11: Every e-mail whose enqueuing was confirmed is still waiting in the queue, was overtaken by ten thousand later entries, was
  accepted by the mail service, is a dead letter, or has a payload that cannot be read; it can only vanish after a refusal of the
  service when a command to Redis has failed. This holds for every order of reading, claiming, crashing and processing.
  Processing a message never panics, and no entry is ever retried more than five times.\<close>

theorem no_email_lost:
  assumes "mail_init S" "(mail_step w)\<^sup>*\<^sup>* S T"
  shows "(\<forall>x. x \<in> ml_taken T \<longrightarrow> waiting x (ms_redis (ml_state T)) \<or> overtaken x (ms_redis (ml_state T)) \<or> settled_mail w x (ml_state T))
    \<and> (\<forall>m. m \<in> set (ml_hand T) \<longrightarrow> processMessage w stopping m (ml_state T) \<noteq> None)
    \<and> (\<forall>m. m \<in> set (mr_log (ms_redis (ml_state T))) \<longrightarrow> parseRetryCount m \<le> maxRetries)"
proof -
  have inv: "mail_inv w T" using mail.reachable_inv [OF assms(2,1)] .
  have "processMessage w stopping m (ml_state T) \<noteq> None" if "m \<in> set (ml_hand T)" for m
  proof -
    have "redis_ok (ms_redis (ml_state T))" "m \<in> set (mr_log (ms_redis (ml_state T)))" using inv that by (auto simp: mail_inv_def)
    then show ?thesis by (rule process_effect [of _ _ w stopping]) simp
  qed
  then show ?thesis using inv retry_count_ok by (auto simp: mail_inv_def cared_for_def)
qed

section \<open>Instance\<close>

definition demo_worker :: email_worker where
  "demo_worker = \<lparr>ew_decode = (\<lambda>x. Some \<lparr>ep_To = x, ep_Subject = [], ep_Body = []\<rparr>), ew_apiKey = [75]\<rparr>"

text \<open>The log, the cursor, the pending entries, the commands so far; then the mail system around it.\<close>

definition demo_stream :: "xmessage list \<Rightarrow> nat \<Rightarrow> nat list \<Rightarrow> nat \<Rightarrow> mail_redis" where
  "demo_stream ms r pending n = \<lparr>mr_log = ms, mr_cut = 0, mr_read = Some r, mr_pending = pending, mr_dead = [], mr_trim = (\<lambda>_. 0),
     mr_attempts = (\<lambda>_. Runs), mr_pos = n\<rparr>"

definition demo_mail :: "mail_redis \<Rightarrow> (email_payload \<times> api_outcome) list \<Rightarrow> xmessage list \<Rightarrow> gostring set \<Rightarrow> mail_system" where
  "demo_mail rd rs h xs =
     \<lparr>ml_state = \<lparr>ms_redis = rd, ms_api = \<lparr>ma_outcomes = (\<lambda>k. if k = 0 then Responded 503 else Responded 200), ma_pos = length rs, ma_requests = rs\<rparr>\<rparr>,
      ml_hand = h, ml_taken = xs\<rparr>"

definition demo_message :: xmessage where
  "demo_message = \<lparr>xm_ID = 0, xm_Payload = Some [65], xm_RetryCount = None\<rparr>"

definition demo_retried :: xmessage where
  "demo_retried = \<lparr>xm_ID = 1, xm_Payload = Some [65], xm_RetryCount = Some (Sprint_int 1)\<rparr>"

definition demo_mailed :: mail_system where
  "demo_mailed = demo_mail (demo_stream [demo_message, demo_retried] 1 [] 4) [(\<lparr>ep_To = [65], ep_Subject = [], ep_Body = []\<rparr>, Responded 503)] [] {[65]}"

lemmas demo_mail_simps = demo_mail_def demo_stream_def demo_message_def demo_retried_def demo_worker_def x_exec_def on_mail_def
  XAdd_def XAck_def XReadGroup_def EnqueueEmail_def poll_def Let_def

lemma demo_mail_steps: "(mail_step demo_worker)\<^sup>*\<^sup>* (demo_mail (demo_stream [] 0 [] 0) [] [] {}) demo_mailed"
proof -
  let ?S0 = "demo_mail (demo_stream [] 0 [] 0) [] [] {}" let ?S1 = "demo_mail (demo_stream [demo_message] 0 [] 1) [] [] {[65]}"
  let ?S2 = "demo_mail (demo_stream [demo_message] 1 [0] 2) [] [demo_message] {[65]}"
  have "EnqueueEmail [65] (ms_redis (ml_state ?S0)) = (Inr (), demo_stream [demo_message] 0 [] 1)" by (simp add: demo_mail_simps)
  then have 1: "mail_step demo_worker ?S0 ?S1" using enqueue [of "[65]" ?S0 "Inr ()"] by (simp add: demo_mail_def)
  have "poll 100 (ml_state ?S1) = (initialBackoff, [demo_message], ml_state ?S2)" by (simp add: demo_mail_simps)
  then have 2: "mail_step demo_worker ?S1 ?S2" using polls [of 100 ?S1] by (simp add: demo_mail_def)
  have "processMessage demo_worker False demo_message (ml_state ?S2) = Some (ml_state demo_mailed)"
    by (simp add: demo_mail_simps demo_mailed_def processMessage_def sendEmail_def handleSendFailure_def IsPermanentEmailError_def
        handleRetry_def reenqueueWithBackoff_def retry_delay_def parseRetryCount_def maxRetries_def)
  then have 3: "mail_step demo_worker ?S2 demo_mailed"
    using processes [of demo_message ?S2 demo_worker False] by (simp add: demo_mail_def demo_mailed_def)
  show ?thesis using 1 2 3 by (meson converse_rtranclp_into_rtranclp r_into_rtranclp)
qed

theorem no_email_lost_witness:
  "ml_taken demo_mailed = {[65]} \<and> (waiting [65] (ms_redis (ml_state demo_mailed)) \<or> overtaken [65] (ms_redis (ml_state demo_mailed))
     \<or> settled_mail demo_worker [65] (ml_state demo_mailed)) \<and> parseRetryCount demo_retried \<le> maxRetries"
proof -
  have "mail_init (demo_mail (demo_stream [] 0 [] 0) [] [] {})" by (simp add: mail_init_def demo_mail_simps)
  note lost = no_email_lost [OF this demo_mail_steps, of False]
  have "[65] \<in> ml_taken demo_mailed" "demo_retried \<in> set (mr_log (ms_redis (ml_state demo_mailed)))"
    by (simp_all add: demo_mailed_def demo_mail_def demo_stream_def)
  then show ?thesis using lost by (simp add: demo_mailed_def demo_mail_def)
qed

end
