(* ===== verification/Config.thy ===== *)
theory Config
  imports Strconv Access
begin

text \<open>
  The configuration (\<^verbatim>\<open>config/config.go\<close>): reading the environment, and what is checked before the server starts.

  \<^item> The environment is \<open>getenv\<close>, with the empty text for what is not set. \<^verbatim>\<open>time.ParseDuration\<close>, \<^verbatim>\<open>strconv.ParseFloat\<close>
    and \<^verbatim>\<open>url.Parse\<close> are parameters; \<open>url\<close> has the fields that the code reads. Durations are nanoseconds.
\<close>

section \<open>Variables\<close>

type_synonym env_vars = "gostring \<Rightarrow> gostring"

definition GetEnv :: "env_vars \<Rightarrow> string \<Rightarrow> gostring \<Rightarrow> gostring" where
  "GetEnv getenv key def = (if getenv (str key) \<noteq> [] then getenv (str key) else def)"

definition GetEnvInt :: "env_vars \<Rightarrow> string \<Rightarrow> int \<Rightarrow> int" where
  "GetEnvInt getenv key def =
     (let v = getenv (str key) in if v = [] then def else case Atoi v of None \<Rightarrow> def | Some n \<Rightarrow> n)"

definition GetEnvIntPositive :: "env_vars \<Rightarrow> string \<Rightarrow> int \<Rightarrow> int" where
  "GetEnvIntPositive getenv key def = (let n = GetEnvInt getenv key def in if n \<le> 0 then def else n)"

text \<open>Multiplication of durations wraps.\<close>

definition wrap64 :: "int \<Rightarrow> int" where
  "wrap64 n = (n + 2 ^ 63) mod 2 ^ 64 - 2 ^ 63"

definition GetEnvDuration :: "(gostring \<Rightarrow> int option) \<Rightarrow> env_vars \<Rightarrow> string \<Rightarrow> int \<Rightarrow> int" where
  "GetEnvDuration parseDuration getenv key def =
     (let v = getenv (str key)
      in if v = [] then def
         else case parseDuration v of
             Some d \<Rightarrow> if d > 0 then d else def
           | None \<Rightarrow> (case Atoi v of
               Some seconds \<Rightarrow> if seconds > 0 then wrap64 (seconds * 1000000000) else def
             | None \<Rightarrow> def))"

definition getEnvFloat64 :: "(gostring \<Rightarrow> f64 option) \<Rightarrow> env_vars \<Rightarrow> string \<Rightarrow> f64 \<Rightarrow> f64" where
  "getEnvFloat64 parseFloat getenv key def =
     (let v = getenv (str key) in if v \<noteq> [] then (case parseFloat v of Some f \<Rightarrow> f | None \<Rightarrow> def) else def)"

section \<open>The configuration\<close>

record server_config =
  c_JWTPrivateKey :: gostring
  c_JWTPublicKey :: gostring
  c_AdminJWTPrivateKey :: gostring
  c_AdminJWTPublicKey :: gostring
  c_DatabaseURL :: gostring
  c_RedisURL :: gostring
  c_RedisEphemeralURL :: gostring
  c_RedisRegionURL :: gostring
  c_RedisPubSubURL :: gostring
  c_EncryptionKey :: gostring
  c_ResendAPIKey :: gostring
  c_EmailFrom :: gostring
  c_AdminPassword :: gostring
  c_AuditSecret :: gostring
  c_TrustedProxyCIDRs :: gostring
  c_AllowedOrigins :: gostring
  c_Port :: gostring
  c_FrontendDir :: gostring
  c_MigrationsDir :: gostring
  c_EnableHSTS :: bool
  c_Environment :: gostring
  c_MaxWSConnections :: int
  c_MaxPlayersPerRoom :: int
  c_MetricsUser :: gostring
  c_MetricsPassword :: gostring
  c_OTLPEndpoint :: gostring
  c_OTLPInsecure :: bool
  c_OTELSampleRatio :: f64
  c_CloudRegion :: gostring
  c_EnableEmbeddedWorkers :: bool

definition Load :: "(gostring \<Rightarrow> f64 option) \<Rightarrow> env_vars \<Rightarrow> server_config" where
  "Load parseFloat getenv = \<lparr>
     c_JWTPrivateKey = getenv (str ''JWT_PRIVATE_KEY''),
     c_JWTPublicKey = getenv (str ''JWT_PUBLIC_KEY''),
     c_AdminJWTPrivateKey = getenv (str ''ADMIN_JWT_PRIVATE_KEY''),
     c_AdminJWTPublicKey = getenv (str ''ADMIN_JWT_PUBLIC_KEY''),
     c_DatabaseURL = getenv (str ''DATABASE_URL''),
     c_RedisURL = GetEnv getenv ''REDIS_URL'' (str ''localhost:6379''),
     c_RedisEphemeralURL = GetEnv getenv ''REDIS_EPHEMERAL_URL'' [],
     c_RedisRegionURL = GetEnv getenv ''REDIS_REGIONAL_URL'' [],
     c_RedisPubSubURL = GetEnv getenv ''REDIS_PUBSUB_URL'' [],
     c_EncryptionKey = getenv (str ''ENCRYPTION_KEY''),
     c_ResendAPIKey = getenv (str ''RESEND_API_KEY''),
     c_EmailFrom = getenv (str ''EMAIL_FROM''),
     c_AdminPassword = getenv (str ''ADMIN_PASSWORD''),
     c_AuditSecret = getenv (str ''AUDIT_SECRET''),
     c_TrustedProxyCIDRs = getenv (str ''TRUSTED_PROXY_CIDRS''),
     c_AllowedOrigins = getenv (str ''ALLOWED_ORIGINS''),
     c_Port = GetEnv getenv ''PORT'' (str ''8080''),
     c_FrontendDir = getenv (str ''FRONTEND_DIR''),
     c_MigrationsDir = GetEnv getenv ''MIGRATIONS_DIR'' (str ''migrations''),
     c_EnableHSTS = (\<not> EqualFold (getenv (str ''ENABLE_HSTS'')) (str ''false'')),
     c_Environment = getenv (str ''ENV''),
     c_MaxWSConnections = GetEnvInt getenv ''MAX_WS_CONNECTIONS'' 1000,
     c_MaxPlayersPerRoom = GetEnvInt getenv ''MAX_PLAYERS_PER_ROOM'' 50,
     c_MetricsUser = getenv (str ''METRICS_USER''),
     c_MetricsPassword = getenv (str ''METRICS_PASSWORD''),
     c_OTLPEndpoint = getenv (str ''OTLP_ENDPOINT''),
     c_OTLPInsecure = EqualFold (getenv (str ''OTLP_INSECURE'')) (str ''true''),
     c_OTELSampleRatio = getEnvFloat64 parseFloat getenv ''OTEL_SAMPLE_RATIO'' (flit (1/10)),
     c_CloudRegion = getenv (str ''CLOUD_REGION''),
     c_EnableEmbeddedWorkers = (\<not> EqualFold (getenv (str ''ENABLE_EMBEDDED_WORKERS'')) (str ''false'')
       \<and> getenv (str ''ENABLE_EMBEDDED_WORKERS'') \<noteq> str ''0'')\<rparr>"

definition IsProduction :: "server_config \<Rightarrow> bool" where
  "IsProduction e \<longleftrightarrow> c_Environment e = str ''production''"

definition GetRedisStatefulURL :: "server_config \<Rightarrow> gostring" where
  "GetRedisStatefulURL e = (if c_RedisRegionURL e \<noteq> [] then c_RedisRegionURL e else c_RedisURL e)"

definition GetRedisEphemeralURL :: "server_config \<Rightarrow> gostring" where
  "GetRedisEphemeralURL e = (if c_RedisEphemeralURL e \<noteq> [] then c_RedisEphemeralURL e else GetRedisStatefulURL e)"

definition GetRedisPubSubURL :: "server_config \<Rightarrow> gostring" where
  "GetRedisPubSubURL e = (if c_RedisPubSubURL e \<noteq> [] then c_RedisPubSubURL e else GetRedisStatefulURL e)"

definition GetAdminJWTPrivateKey :: "server_config \<Rightarrow> gostring" where
  "GetAdminJWTPrivateKey e = (if c_AdminJWTPrivateKey e \<noteq> [] then c_AdminJWTPrivateKey e else c_JWTPrivateKey e)"

definition AuditSecretOrJWT :: "server_config \<Rightarrow> gostring" where
  "AuditSecretOrJWT e = (if c_AuditSecret e \<noteq> [] then c_AuditSecret e else c_JWTPrivateKey e)"

section \<open>Checks\<close>

record url =
  ur_Host :: gostring
  ur_Password :: gostring
  ur_Path :: gostring
  ur_sslmode :: "gostring list"

datatype config_error = WeakKey | MissingVars "string list" | BadDatabaseURL | WeakSSLMode gostring
  | EmptyProxies | InvalidCIDR gostring | NoProxies | EmptyRedisURL | BadRedisURL | MissingHost | InvalidDB gostring

definition isWeakJWTSecret :: "gostring \<Rightarrow> bool" where
  "isWeakJWTSecret secret \<longleftrightarrow> length secret < 32 \<or> Contains secret (str ''DEV_ONLY'') \<or> Contains secret (str ''change-in-production'')"

definition validateDatabaseURLSSLModes :: "(gostring \<Rightarrow> url option) \<Rightarrow> gostring \<Rightarrow> config_error option" where
  "validateDatabaseURLSSLModes parse dbURL =
     (if \<not> HasPrefix dbURL (str ''postgres://'') \<and> \<not> HasPrefix dbURL (str ''postgresql://'') then None
      else case parse dbURL of
          None \<Rightarrow> Some BadDatabaseURL
        | Some u \<Rightarrow>
            if ur_sslmode u = [] then None
            else if last (ur_sslmode u) \<in> {str ''disable'', str ''allow'', str ''prefer''} then Some (WeakSSLMode (last (ur_sslmode u)))
            else None)"

fun check_proxies :: "net_lib \<Rightarrow> nat \<Rightarrow> gostring list \<Rightarrow> config_error option" where
  "check_proxies nl valid [] = (if valid = 0 then Some NoProxies else None)"
| "check_proxies nl valid (p # ps) =
     (let part = TrimSpace p
      in if part = [] then check_proxies nl valid ps
         else if \<not> nl_ParseCIDR nl (if 47 \<in> set part then part else part @ str ''/32'') then Some (InvalidCIDR part)
         else check_proxies nl (Suc valid) ps)"

definition validateTrustedProxyCIDRs :: "net_lib \<Rightarrow> gostring \<Rightarrow> config_error option" where
  "validateTrustedProxyCIDRs nl raw =
     (let raw = TrimSpace raw in if raw = [] then Some EmptyProxies else check_proxies nl 0 (Split raw))"

definition missing_vars :: "server_config \<Rightarrow> string list" where
  "missing_vars e =
     (if c_JWTPrivateKey e = [] \<and> IsProduction e then [''JWT_PRIVATE_KEY''] else [])
     @ (if IsProduction e \<and> c_JWTPublicKey e = [] then [''JWT_PUBLIC_KEY''] else [])
     @ (if c_DatabaseURL e = [] then [''DATABASE_URL''] else [])
     @ (if IsProduction e \<and> c_EncryptionKey e = [] then [''ENCRYPTION_KEY''] else [])
     @ (if IsProduction e \<and> c_AuditSecret e = [] then [''AUDIT_SECRET''] else [])
     @ (if IsProduction e \<and> TrimSpace (c_TrustedProxyCIDRs e) = [] then [''TRUSTED_PROXY_CIDRS''] else [])"

definition validate_config :: "net_lib \<Rightarrow> (gostring \<Rightarrow> url option) \<Rightarrow> server_config \<Rightarrow> config_error option" where
  "validate_config nl parse e =
     (if c_JWTPrivateKey e \<noteq> [] \<and> IsProduction e \<and> isWeakJWTSecret (c_JWTPrivateKey e) then Some WeakKey
      else case (if IsProduction e then validateDatabaseURLSSLModes parse (c_DatabaseURL e) else None) of
          Some err \<Rightarrow> Some err
        | None \<Rightarrow>
            if missing_vars e \<noteq> [] then Some (MissingVars (missing_vars e))
            else if IsProduction e then validateTrustedProxyCIDRs nl (c_TrustedProxyCIDRs e) else None)"

section \<open>The address of Redis\<close>

record redis_conn =
  rc_Addr :: gostring
  rc_Password :: gostring
  rc_DB :: int

definition ParseRedisURL :: "(gostring \<Rightarrow> url option) \<Rightarrow> gostring \<Rightarrow> config_error + redis_conn" where
  "ParseRedisURL parse raw =
     (let raw = TrimSpace raw
      in if raw = [] then Inl EmptyRedisURL
         else if \<not> HasPrefix raw (str ''redis://'') \<and> \<not> HasPrefix raw (str ''rediss://'')
         then Inr \<lparr>rc_Addr = raw, rc_Password = [], rc_DB = 0\<rparr>
         else case parse raw of
             None \<Rightarrow> Inl BadRedisURL
           | Some u \<Rightarrow>
               if ur_Host u = [] then Inl MissingHost
               else if ur_Path u \<noteq> [] \<and> ur_Path u \<noteq> str ''/''
               then (let dbStr = TrimPrefix (ur_Path u) (str ''/'')
                     in case Atoi dbStr of
                          Some n \<Rightarrow> if n < 0 then Inl (InvalidDB dbStr) else Inr \<lparr>rc_Addr = ur_Host u, rc_Password = ur_Password u, rc_DB = n\<rparr>
                        | None \<Rightarrow> Inl (InvalidDB dbStr))
               else Inr \<lparr>rc_Addr = ur_Host u, rc_Password = ur_Password u, rc_DB = 0\<rparr>)"

section \<open>Timeouts\<close>

record timeout_config =
  PGConnectTimeout :: int
  PGQueryTimeout :: int
  PGRequestTimeout :: int
  RedisConnectTimeout :: int
  RedisReadTimeout :: int
  RedisWriteTimeout :: int
  HTTPConnectTimeout :: int
  HTTPRequestTimeout :: int
  WSWriteTimeout :: int
  WSPongTimeout :: int
  WSPingInterval :: int
  WSHandlerTimeout :: int

definition second :: int where "second = 1000000000"

definition DefaultTimeoutConfig :: "(gostring \<Rightarrow> int option) \<Rightarrow> env_vars \<Rightarrow> timeout_config" where
  "DefaultTimeoutConfig pd getenv = \<lparr>
     PGConnectTimeout = GetEnvDuration pd getenv ''PG_CONNECT_TIMEOUT'' (5 * second),
     PGQueryTimeout = GetEnvDuration pd getenv ''PG_QUERY_TIMEOUT'' (10 * second),
     PGRequestTimeout = GetEnvDuration pd getenv ''PG_REQUEST_TIMEOUT'' (30 * second),
     RedisConnectTimeout = GetEnvDuration pd getenv ''REDIS_CONNECT_TIMEOUT'' (3 * second),
     RedisReadTimeout = GetEnvDuration pd getenv ''REDIS_READ_TIMEOUT'' (3 * second),
     RedisWriteTimeout = GetEnvDuration pd getenv ''REDIS_WRITE_TIMEOUT'' (3 * second),
     HTTPConnectTimeout = GetEnvDuration pd getenv ''HTTP_CONNECT_TIMEOUT'' (5 * second),
     HTTPRequestTimeout = GetEnvDuration pd getenv ''HTTP_REQUEST_TIMEOUT'' (10 * second),
     WSWriteTimeout = GetEnvDuration pd getenv ''WS_WRITE_TIMEOUT'' (10 * second),
     WSPongTimeout = GetEnvDuration pd getenv ''WS_PONG_TIMEOUT'' (60 * second),
     WSPingInterval = GetEnvDuration pd getenv ''WS_PING_INTERVAL'' (30 * second),
     WSHandlerTimeout = GetEnvDuration pd getenv ''WS_HANDLER_TIMEOUT'' (7200 * second)\<rparr>"

section \<open>What a checked configuration has\<close>

definition proxy_entries :: "gostring \<Rightarrow> gostring list" where
  "proxy_entries raw = filter (\<lambda>part. part \<noteq> []) (map TrimSpace (Split raw))"

lemma check_proxies_iff:
  "check_proxies nl n ps = None \<longleftrightarrow>
     (\<forall>p \<in> set (filter (\<lambda>part. part \<noteq> []) (map TrimSpace ps)). nl_ParseCIDR nl (if 47 \<in> set p then p else p @ str ''/32''))
     \<and> (0 < n \<or> filter (\<lambda>part. part \<noteq> []) (map TrimSpace ps) \<noteq> [])"
  by (induction ps arbitrary: n) (auto simp: Let_def)

text \<open>An address without a prefix length: what the check appends and what the middleware appends are accepted alike.\<close>

definition single_addresses :: "net_lib \<Rightarrow> bool" where
  "single_addresses nl \<longleftrightarrow> (\<forall>p. colon \<in> set p \<longrightarrow> 47 \<notin> set p \<longrightarrow> nl_ParseCIDR nl (p @ str ''/32'') = nl_ParseCIDR nl (p @ str ''/128''))"

lemma length_filter_all: "length (filter P xs) = length xs \<longleftrightarrow> (\<forall>x \<in> set xs. P x)"
  by (metis filter_True length_filter_less less_irrefl)

lemma proxies_checked:
  assumes "single_addresses nl" "TrimSpace raw = raw"
  shows "validateTrustedProxyCIDRs nl raw = None
    \<longleftrightarrow> proxy_entries raw \<noteq> [] \<and> length (parseTrustedCIDRs nl raw) = length (proxy_entries raw)"
proof (cases "raw = []")
  case True
  then show ?thesis using assms(2) by (simp add: validateTrustedProxyCIDRs_def proxy_entries_def)
next
  case False
  let ?g = "\<lambda>part. if 47 \<in> set part then part else if colon \<in> set part then part @ str ''/128'' else part @ str ''/32''"
  have "nl_ParseCIDR nl (if 47 \<in> set p then p else p @ str ''/32'') = nl_ParseCIDR nl (?g p)" for p
    using assms(1) by (simp add: single_addresses_def)
  then have "validateTrustedProxyCIDRs nl raw = None \<longleftrightarrow> (\<forall>p \<in> set (proxy_entries raw). nl_ParseCIDR nl (?g p)) \<and> proxy_entries raw \<noteq> []"
    using False assms(2) by (simp add: validateTrustedProxyCIDRs_def check_proxies_iff proxy_entries_def)
  moreover have "parseTrustedCIDRs nl raw = filter (nl_ParseCIDR nl) (map ?g (proxy_entries raw))"
    using False assms(2) by (simp add: parseTrustedCIDRs_def proxy_entries_def)
  ultimately show ?thesis
    using length_filter_all [of "nl_ParseCIDR nl" "map ?g (proxy_entries raw)"] by auto
qed

text \<open>What the two checks of single variables ask, in terms of the text.\<close>

lemma Contains_iff: "Contains s p \<longleftrightarrow> (\<exists>a b. s = a @ p @ b)"
proof
  show "Contains s p \<Longrightarrow> \<exists>a b. s = a @ p @ b"
  proof (induction s)
    case (Cons x s)
    show ?case
    proof (cases "HasPrefix (x # s) p")
      case True
      then have "x # s = [] @ p @ drop (length p) (x # s)" by (metis HasPrefix_def append_Nil append_take_drop_id)
      then show ?thesis by blast
    next
      case False
      then obtain a b where "s = a @ p @ b" using Cons by auto
      then have "x # s = (x # a) @ p @ b" by simp
      then show ?thesis by blast
    qed
  qed simp
  have "Contains (p @ b) p" for b by (cases p; cases b) (simp_all add: HasPrefix_def)
  then have "Contains (a @ p @ b) p" for a b by (induction a) simp_all
  then show "\<exists>a b. s = a @ p @ b \<Longrightarrow> Contains s p" by blast
qed

lemma HasPrefix_iff: "HasPrefix s p \<longleftrightarrow> (\<exists>rest. s = p @ rest)"
  by (metis HasPrefix_def append_eq_conv_conj append_take_drop_id)

definition postgres_url :: "gostring \<Rightarrow> bool" where
  "postgres_url s \<longleftrightarrow> (\<exists>rest. s = str ''postgres://'' @ rest \<or> s = str ''postgresql://'' @ rest)"

lemma ssl_mode_checked:
  "validateDatabaseURLSSLModes parse s = None \<longleftrightarrow>
     (postgres_url s \<longrightarrow> (\<exists>u. parse s = Some u
        \<and> (\<forall>modes mode. ur_sslmode u = modes @ [mode] \<longrightarrow> mode \<notin> {str ''disable'', str ''allow'', str ''prefer''})))"
proof -
  have p: "postgres_url s \<longleftrightarrow> HasPrefix s (str ''postgres://'') \<or> HasPrefix s (str ''postgresql://'')"
    by (auto simp: postgres_url_def HasPrefix_iff)
  have l: "(\<forall>modes mode. ms = modes @ [mode] \<longrightarrow> mode \<notin> A) \<longleftrightarrow> ms = [] \<or> last ms \<notin> A" for ms :: "gostring list" and A
    by (cases ms rule: rev_cases) auto
  show ?thesis unfolding p l by (auto simp: validateDatabaseURLSSLModes_def split: option.split)
qed


text \<open>An address of the database that is not a URL passes whatever its SSL mode is.\<close>

lemma keyword_address_unchecked:
  "validateDatabaseURLSSLModes parse (str ''host=db sslmode=disable'') = None"
proof -
  have "\<not> HasPrefix (str ''host=db sslmode=disable'') (str ''postgres://'')" "\<not> HasPrefix (str ''host=db sslmode=disable'') (str ''postgresql://'')"
    by code_simp+
  then show ?thesis by (simp add: validateDatabaseURLSSLModes_def)
qed

text \<open>The URLs of Redis always name a data base that is not negative; a text without a scheme is an address.\<close>

lemma redis_url_db: "ParseRedisURL parse raw = Inr c \<Longrightarrow> 0 \<le> rc_DB c"
  by (auto simp: ParseRedisURL_def Let_def split: if_splits option.splits)

text \<open>Durations are meant to be positive, but plain seconds can overflow.\<close>

lemma duration_overflows:
  assumes "getenv (str key) = Sprint_int 10000000000" "parseDuration (Sprint_int 10000000000) = None"
  shows "GetEnvDuration parseDuration getenv key def = - 8446744073709551616"
proof -
  have "Atoi (Sprint_int 10000000000) = Some 10000000000" by (rule Atoi_Sprint) simp_all
  moreover have "Sprint_int 10000000000 \<noteq> []" using Itoa_digits by (simp add: Sprint_int_def)
  ultimately show ?thesis using assms by (simp add: GetEnvDuration_def wrap64_def)
qed

section \<open>Instance\<close>

definition demo_config :: server_config where
  "demo_config = \<lparr>c_JWTPrivateKey = replicate 32 65, c_JWTPublicKey = [65], c_AdminJWTPrivateKey = [], c_AdminJWTPublicKey = [],
     c_DatabaseURL = str ''postgres://db'', c_RedisURL = [], c_RedisEphemeralURL = [], c_RedisRegionURL = [], c_RedisPubSubURL = [],
     c_EncryptionKey = [65], c_ResendAPIKey = [], c_EmailFrom = [], c_AdminPassword = [], c_AuditSecret = [65],
     c_TrustedProxyCIDRs = [49, 47, 56], c_AllowedOrigins = [], c_Port = [], c_FrontendDir = [], c_MigrationsDir = [],
     c_EnableHSTS = True, c_Environment = str ''production'', c_MaxWSConnections = 50, c_MaxPlayersPerRoom = 50,
     c_MetricsUser = [], c_MetricsPassword = [], c_OTLPEndpoint = [], c_OTLPInsecure = True, c_OTELSampleRatio = flit 1,
     c_CloudRegion = [], c_EnableEmbeddedWorkers = True\<rparr>"

definition demo_config_net :: net_lib where
  "demo_config_net = \<lparr>nl_ParseCIDR = (\<lambda>_. True), nl_ParseIP = (\<lambda>_. True), nl_Contains = (\<lambda>_ _. False)\<rparr>"

lemma Contains_set: "Contains s p \<Longrightarrow> set p \<subseteq> set s"
proof (induction s p rule: Contains.induct)
  case (2 b s p)
  then show ?case using set_take_subset [of "length p" "b # s"] by (auto simp: HasPrefix_def)
qed simp

definition demo_url :: url where
  "demo_url = \<lparr>ur_Host = [], ur_Password = [], ur_Path = [], ur_sslmode = [str ''disable'', str ''require'']\<rparr>"


end
