(* ===== verification/Handlers.thy ===== *)
theory Handlers
  imports Config Hub_Properties
begin

text \<open>
  The handlers of rooms, statistics and readiness (\<^verbatim>\<open>handler/lobby.go\<close>, \<^verbatim>\<open>handler/stats.go\<close>, \<^verbatim>\<open>health/health.go\<close>).

  \<^item> The hub, where the code may have none, is an option. The parameters of the path and the query are arguments, with the
    empty text for what is missing.
  \<^item> Marshalling a list, SHA-256 and the format of a date are the parameter \<open>encodings\<close>.
  \<^item> \<open>WebSocket\<close> is the whole life of a connection, from the request to the release of its slot; the upgrader yields a
    connection or fails. What other goroutines do to the room meanwhile, between its operations, is the argument \<open>others\<close>; what
    they do to the rest of the hub is not part of it (the slots under all interleavings of requests are the subject of
    \<open>WS_Limiter\<close>). Logs and metrics are not modelled.
\<close>

section \<open>Rooms\<close>

record encodings =
  en_marshal :: "lobby_list_result \<Rightarrow> gostring option"
  en_sha256 :: "gostring \<Rightarrow> byte list"
  en_httpTime :: "int \<Rightarrow> gostring"

record registry_params =
  rp_unavailMsg :: string
  rp_degradedMsg :: string
  rp_responseField :: string

definition handleRegistryRoom :: "registry_params \<Rightarrow> (hub \<Rightarrow> (hub_error + gostring) \<times> hub) \<Rightarrow> hub option \<Rightarrow> response \<times> hub option" where
  "handleRegistryRoom p f hb = (case hb of
       None \<Rightarrow> (WriteDegradedJSON 503 (rp_unavailMsg p), hb)
     | Some h \<Rightarrow> (case f h of
           (Inl e, h) \<Rightarrow> (if e = ErrRoomCodeConflict then problem (Conflict ''Room code conflict, please retry'')
                          else WriteDegradedJSON 503 (rp_degradedMsg p), Some h)
         | (Inr code, h) \<Rightarrow> (writeJSON [] (CodeBody (rp_responseField p) code), Some h)))"

definition CreateRoom_handler :: "(int \<Rightarrow> rng) \<Rightarrow> hub option \<Rightarrow> response \<times> hub option" where
  "CreateRoom_handler seeded = handleRegistryRoom
     \<lparr>rp_unavailMsg = ''Room service temporarily unavailable, please retry'',
      rp_degradedMsg = ''Room creation temporarily unavailable, please retry'', rp_responseField = ''code''\<rparr> (CreateRoom seeded)"

definition MatchRoom_handler :: "(int \<Rightarrow> rng) \<Rightarrow> hub option \<Rightarrow> response \<times> hub option" where
  "MatchRoom_handler seeded = handleRegistryRoom
     \<lparr>rp_unavailMsg = ''Room match temporarily unavailable, please retry'',
      rp_degradedMsg = ''Room match temporarily unavailable, please retry'', rp_responseField = ''lobbyCode''\<rparr> (MatchRoom seeded)"

definition CheckRoom_handler :: "encodings \<Rightarrow> (int \<Rightarrow> rng) \<Rightarrow> gostring \<Rightarrow> hub option \<Rightarrow> response \<times> hub option" where
  "CheckRoom_handler en seeded code hb =
     (if code = [] then (problem (BadRequest ''Room code is required''), hb)
      else case NewRoomCode code of
          Inl _ \<Rightarrow> (problem (BadRequest (if length code \<noteq> 5 then ''invalid room code'' else ''invalid room code charset'')), hb)
        | Inr _ \<Rightarrow> (case hb of
              None \<Rightarrow> (WriteDegradedJSON 503 ''Room check temporarily unavailable'', hb)
            | Some h \<Rightarrow> (case CheckRoomCached seeded code h of
                  (Inl _, h) \<Rightarrow> (WriteDegradedJSON 503 ''Room check temporarily unavailable'', Some h)
                | (Inr None, h) \<Rightarrow> (problem (NotFound ''Room not found''), Some h)
                | (Inr (Some info), h) \<Rightarrow>
                    (with_headers [(str ''Last-Modified'', en_httpTime en (ri_CreatedAt info))] (writeJSON [] (RoomBody info)), Some h))))"

definition writeDegradedLobbyList :: response where
  "writeDegradedLobbyList = writeJSON [] NoLobbiesBody"

definition page_limit :: "gostring \<Rightarrow> int" where
  "page_limit l = (if l = [] then 50 else case Atoi l of None \<Rightarrow> 50 | Some v \<Rightarrow> if v > 0 \<and> v \<le> 100 then v else 50)"

definition etag_of :: "encodings \<Rightarrow> gostring \<Rightarrow> gostring" where
  "etag_of en body = [34] @ hex (take 16 (en_sha256 en body)) @ [34]"

definition ListLobbies :: "encodings \<Rightarrow> collation \<Rightarrow> gostring \<Rightarrow> gostring \<Rightarrow> request \<Rightarrow> hub \<Rightarrow> response \<times> hub" where
  "ListLobbies en clt limit cursor r h = (case ListLobbiesCached clt (page_limit limit) cursor h of
       (Inl _, h) \<Rightarrow> (writeDegradedLobbyList, h)
     | (Inr result, h) \<Rightarrow> (case en_marshal en result of
           None \<Rightarrow> (writeDegradedLobbyList, h)
         | Some body \<Rightarrow>
             let etag = etag_of en body
             in (if Header_Get r (str ''If-None-Match'') = etag
                 then \<lparr>rs_Status = 304, rs_Cookies = [], rs_Header = [(str ''ETag'', etag)], rs_Body = EmptyContent\<rparr>
                 else with_headers [(str ''ETag'', etag)] (writeJSON [] (LobbyListBody result)), h)))"

section \<open>Connections\<close>

definition authenticateWSRequest :: "request \<Rightarrow> response + gostring" where
  "authenticateWSRequest r = (case GetAuthenticatedUser r of
       Some (uid, _) \<Rightarrow> if uid = [] then Inl (problem (Unauthorized ''Unauthorized'')) else Inr uid
     | None \<Rightarrow> Inl (problem (Unauthorized ''Unauthorized'')))"

definition validateWSOrigin :: "gostring list \<Rightarrow> request \<Rightarrow> response option" where
  "validateWSOrigin allowed r =
     (if \<not> IsOriginAllowed (Header_Get r (str ''Origin'')) allowed then Some (problem (Forbidden ''origin not allowed'')) else None)"

definition reserveWSConnection :: "hub \<Rightarrow> response option \<times> hub" where
  "reserveWSConnection h = (let (ok, w) = TryReserveWSConnection (h_wsLimiter h); h = h\<lparr>h_wsLimiter := w\<rparr>
     in (if \<not> ok then Some (problem (ServiceUnavailable ''WebSocket connection limit reached, please try again later'')) else None, h))"

datatype ws_outcome = Refused response | UpgradeFailed | SessionOver "room_error option" | SessionPanicked

definition release :: "hub \<Rightarrow> hub" where
  "release h = h\<lparr>h_wsLimiter := DecrementWSConnection (h_wsLimiter h)\<rparr>"

text \<open>The upgrader checks the origin once more. A room that is in the map is updated in place. The slot is not released in a deferred
  function: when the join panics it stays taken, and what the join had done to the room before is not represented.\<close>

definition WebSocket :: "mathlib \<Rightarrow> (int \<Rightarrow> rng) \<Rightarrow> (nat \<Rightarrow> room \<Rightarrow> room) \<Rightarrow> gostring list \<Rightarrow> request \<Rightarrow> gostring \<Rightarrow> nat option \<Rightarrow> byte list list
    \<Rightarrow> hub \<Rightarrow> ws_outcome \<times> hub" where
  "WebSocket ml seeded others allowed r code upgrade ms h =
     (if code = [] then (Refused (problem (BadRequest ''Room code is required'')), h)
      else case authenticateWSRequest r of
        Inl resp \<Rightarrow> (Refused resp, h)
      | Inr userId \<Rightarrow> (case validateWSOrigin allowed r of
          Some resp \<Rightarrow> (Refused resp, h)
        | None \<Rightarrow> (case getRoom seeded code h of
            (None, h) \<Rightarrow> (Refused (problem (NotFound ''Room not found'')), h)
          | (Some room, h) \<Rightarrow> (case reserveWSConnection h of
              (Some resp, h) \<Rightarrow> (Refused resp, h)
            | (None, h) \<Rightarrow> (case (if IsOriginAllowed (Header_Get r (str ''Origin'')) allowed then upgrade else None) of
                None \<Rightarrow> (UpgradeFailed, release h)
              | Some conn \<Rightarrow> (case RunSession ml others userId conn ms room of
                    None \<Rightarrow> (SessionPanicked, h)
                  | Some (e, room) \<Rightarrow> (SessionOver e, release (put_room code room h))))))))"

section \<open>Statistics\<close>

definition board_limit :: "gostring \<Rightarrow> int" where
  "board_limit raw =
     (let n = (if raw = [] then 50 else case Atoi raw of None \<Rightarrow> 50 | Some n \<Rightarrow> if n > 0 then n else 50)
      in if n > 100 then 100 else n)"

definition GetLeaderboard_handler :: "bool \<Rightarrow> int \<Rightarrow> gostring \<Rightarrow> gostring \<Rightarrow> database \<Rightarrow> response \<times> database" where
  "GetLeaderboard_handler hasDB now scope limit d =
     (if \<not> hasDB then (WriteDegradedJSON 503 ''Database temporarily unavailable'', d)
      else let scope = (if scope = [] then str ''global'' else scope)
      in if scope \<noteq> str ''global'' \<and> scope \<noteq> str ''weekly'' then (problem (BadRequest ''invalid scope''), d)
      else case GetLeaderboard now scope (board_limit limit) d of
          (Inl _, d) \<Rightarrow> (problem (InternalError ''failed to load leaderboard''), d)
        | (Inr entries, d) \<Rightarrow> (writeJSON [] (BoardBody scope entries), d))"

definition GetUserStats :: "bool \<Rightarrow> request \<Rightarrow> database \<Rightarrow> response \<times> database" where
  "GetUserStats hasDB r d =
     (if \<not> hasDB then (WriteDegradedJSON 503 ''Database temporarily unavailable'', d)
      else case GetAuthenticatedUser r of
        None \<Rightarrow> (problem (Unauthorized ''''), d)
      | Some (userID, _) \<Rightarrow>
          if userID = [] then (problem (Unauthorized ''''), d)
          else (case GetUserBestScore userID d of
              (Inl _, d) \<Rightarrow> (problem (InternalError ''failed to load stats''), d)
            | (Inr (best, games), d) \<Rightarrow> (writeJSON [] (StatsBody [best, games, if games > 0 then 1 else 0]), d)))"

definition GetPublicStats :: "bool \<Rightarrow> int \<Rightarrow> hub option \<Rightarrow> database \<Rightarrow> response \<times> database" where
  "GetPublicStats hasDB now hb d =
     (if \<not> hasDB then (WriteDegradedJSON 503 ''Database temporarily unavailable'', d)
      else let online = (case hb of None \<Rightarrow> 0 | Some h \<Rightarrow> PlayerCount h); active = (case hb of None \<Rightarrow> 0 | Some h \<Rightarrow> RoomCount h)
      in case GetGamesTodayCount now d of
          (Inl _, d) \<Rightarrow> (problem (InternalError ''failed to load stats''), d)
        | (Inr gamesToday, d) \<Rightarrow> (case GetBestScore d of
              (Inl _, d) \<Rightarrow> (problem (InternalError ''failed to load stats''), d)
            | (Inr best, d) \<Rightarrow> (writeJSON [] (StatsBody [online, gamesToday, best, active]), d)))"

section \<open>Readiness\<close>

datatype breaker_state = StateClosed | StateHalfOpen | StateOpen

definition IsDegraded :: "breaker_state option list \<Rightarrow> bool" where
  "IsDegraded cbs \<longleftrightarrow> list_ex (\<lambda>cb. cb = Some StateOpen \<or> cb = Some StateHalfOpen) cbs"

text \<open>The pings are \<open>None\<close> without a pool or a client.\<close>

definition ReadyHandler :: "bool option \<Rightarrow> bool option \<Rightarrow> ws_limiter option \<Rightarrow> breaker_state option list \<Rightarrow> response" where
  "ReadyHandler pgPing redisPing ws cbs =
     (let pgOK = (pgPing \<noteq> Some False); redisOK = (redisPing \<noteq> Some False);
          wsOK = (case ws of None \<Rightarrow> True | Some w \<Rightarrow> CanAcceptWSConnection w); cbOK = (\<not> IsDegraded cbs)
      in if \<not> pgOK \<or> \<not> wsOK \<or> \<not> cbOK then \<lparr>rs_Status = 503, rs_Cookies = [], rs_Header = [], rs_Body = TextBody ''not ready''\<rparr>
         else if \<not> redisOK then \<lparr>rs_Status = 503, rs_Cookies = [], rs_Header = [], rs_Body = TextBody ''degraded''\<rparr>
         else \<lparr>rs_Status = 200, rs_Cookies = [], rs_Header = [], rs_Body = TextBody ''ready''\<rparr>)"

section \<open>Properties\<close>

lemma page_limit_bounds: "1 \<le> page_limit l" "page_limit l \<le> 100"
  by (auto simp: page_limit_def split: option.splits)

lemma board_limit_bounds: "1 \<le> board_limit l" "board_limit l \<le> 100"
  by (auto simp: board_limit_def Let_def split: option.splits)

lemma ready_iff: "rs_Status (ReadyHandler pg rd ws cbs) = 200 \<longleftrightarrow>
    pg \<noteq> Some False \<and> rd \<noteq> Some False \<and> (\<forall>w. ws = Some w \<longrightarrow> CanAcceptWSConnection w) \<and> (\<forall>cb. Some cb \<in> set cbs \<longrightarrow> cb = StateClosed)"
proof -
  have "IsDegraded cbs \<longleftrightarrow> (\<exists>cb. Some cb \<in> set cbs \<and> cb \<noteq> StateClosed)"
    using breaker_state.exhaust by (auto simp: IsDegraded_def list_ex_iff)
  then show ?thesis by (auto simp: ReadyHandler_def Let_def split: option.splits)
qed

lemma reserve_outcome:
  "TryReserveWSConnection w = (if wsConnCount w \<ge> maxWSConnections w then (False, w) else (True, w\<lparr>wsConnCount := wsConnCount w + 1\<rparr>))"
  by (simp add: TryReserveWSConnection_def reserve_load_def reserve_cas_def)

lemma authenticated_ws: "authenticateWSRequest r = Inr uid \<longleftrightarrow> (\<exists>nick. GetAuthenticatedUser r = Some (uid, nick)) \<and> uid \<noteq> []"
  by (auto simp: authenticateWSRequest_def split: option.splits)

definition ws_user :: "request \<Rightarrow> gostring option" where
  "ws_user r = (case GetAuthenticatedUser r of None \<Rightarrow> None | Some (uid, nick) \<Rightarrow> if uid = [] then None else Some uid)"

lemma auth_ws: "authenticateWSRequest r = (case ws_user r of None \<Rightarrow> Inl (problem (Unauthorized ''Unauthorized'')) | Some uid \<Rightarrow> Inr uid)"
  by (auto simp: authenticateWSRequest_def ws_user_def split: option.split)

lemma same_limiter: "same_hub h h' \<Longrightarrow> h_wsLimiter h' = h_wsLimiter h"
  by (simp add: same_hub_def)

lemma getRoom_limiter: "getRoom seeded code h = (found, h') \<Longrightarrow> h_wsLimiter h' = h_wsLimiter h"
proof -
  have mine: "h_wsLimiter (snd (shouldLocalMaterializeRoom code h)) = h_wsLimiter h" by (rule same_limiter [OF same_hub_should])
  have mat: "h_wsLimiter (snd (deserializeAndMaterialize seeded code js x)) = h_wsLimiter x" for js x
    by (simp add: deserializeAndMaterialize_def materializeRoom_def new_room_def hub_tick_def hub_now_def Let_def split_def split: option.split)
  have load: "h_wsLimiter (snd (load_room seeded code h)) = h_wsLimiter h"
    using mine mat by (auto simp: load_room_def Let_def split_def split: option.split sum.split)
  have reg: "h_wsLimiter (snd (register_loaded code x y)) = h_wsLimiter y" for x y
    using same_limiter [OF same_hub_cache(4)]
    by (simp add: register_loaded_def registerRoomLocked_def put_room_def Let_def split_def split: option.split)
  assume "getRoom seeded code h = (found, h')"
  then show ?thesis using load reg by (auto simp: getRoom_def loadOrMaterializeRoom_def Let_def split: option.splits prod.splits; metis snd_conv)
qed

text \<open>When a request gets a session.\<close>

definition admits_ws :: "gostring list \<Rightarrow> request \<Rightarrow> gostring \<Rightarrow> room option \<Rightarrow> hub \<Rightarrow> bool" where
  "admits_ws allowed r code found h \<longleftrightarrow> code \<noteq> [] \<and> ws_user r \<noteq> None \<and> IsOriginAllowed (Header_Get r (str ''Origin'')) allowed
     \<and> found \<noteq> None \<and> wsConnCount (h_wsLimiter h) < maxWSConnections (h_wsLimiter h)"

definition refusal_status :: "gostring list \<Rightarrow> request \<Rightarrow> gostring \<Rightarrow> room option \<Rightarrow> int" where
  "refusal_status allowed r code found = (if code = [] then 400 else if ws_user r = None then 401
     else if \<not> IsOriginAllowed (Header_Get r (str ''Origin'')) allowed then 403 else if found = None then 404 else 503)"

lemma refused_ws:
  assumes "getRoom seeded code h = (found, h1)" "\<not> admits_ws allowed r code found h"
  shows "\<exists>resp h'. WebSocket ml seeded others allowed r code upgrade ms h = (Refused resp, h') \<and> h_wsLimiter h' = h_wsLimiter h
    \<and> rs_Status resp = refusal_status allowed r code found"
proof -
  have l: "h_wsLimiter h1 = h_wsLimiter h" by (rule getRoom_limiter [OF assms(1)])
  have s: "rs_Status (problem (BadRequest m)) = 400" "rs_Status (problem (Unauthorized m)) = 401" "rs_Status (problem (Forbidden m)) = 403"
    "rs_Status (problem (NotFound m)) = 404" "rs_Status (problem (ServiceUnavailable m)) = 503" for m
    by (simp_all add: problem_def BadRequest_def Unauthorized_def Forbidden_def NotFound_def ServiceUnavailable_def New_def)
  show ?thesis using assms l s
    by (auto simp: WebSocket_def refusal_status_def admits_ws_def auth_ws validateWSOrigin_def reserveWSConnection_def reserve_outcome Let_def
        split: option.split)
qed

lemma admitted_ws:
  assumes "getRoom seeded code h = (Some room, h1)" "admits_ws allowed r code (Some room) h" "ws_user r = Some uid"
  shows "\<exists>h2. h_wsLimiter h2 = (h_wsLimiter h)\<lparr>wsConnCount := wsConnCount (h_wsLimiter h) + 1\<rparr> \<and>
    WebSocket ml seeded others allowed r code upgrade ms h = (case upgrade of
      None \<Rightarrow> (UpgradeFailed, release h2)
    | Some conn \<Rightarrow> (case RunSession ml others uid conn ms room of
          None \<Rightarrow> (SessionPanicked, h2)
        | Some (e, room) \<Rightarrow> (SessionOver e, release (put_room code room h2))))"
proof -
  let ?h = "h1\<lparr>h_wsLimiter := (h_wsLimiter h)\<lparr>wsConnCount := wsConnCount (h_wsLimiter h) + 1\<rparr>\<rparr>"
  have "reserveWSConnection h1 = (None, ?h)"
    using assms(2) getRoom_limiter [OF assms(1)] by (simp add: admits_ws_def reserveWSConnection_def reserve_outcome Let_def)
  moreover have "validateWSOrigin allowed r = None" "IsOriginAllowed (Header_Get r (str ''Origin'')) allowed" "code \<noteq> []"
    using assms(2) by (simp_all add: admits_ws_def validateWSOrigin_def)
  ultimately show ?thesis
    using assms(1,3) by (intro exI [of _ ?h]) (simp add: WebSocket_def auth_ws split: option.split)
qed

text \<open>The slot of a session whose join panics (a room can be closed between the lookup and the join) is never given back.\<close>

lemma panicked_join_keeps_slot:
  assumes "getRoom seeded code h = (Some room, h1)" "admits_ws allowed r code (Some room) h" "ws_user r = Some uid"
    and "HandleJoin uid conn (others (Suc (length ms)) room) = None"
  shows "\<exists>h'. WebSocket ml seeded others allowed r code (Some conn) ms h = (SessionPanicked, h')
    \<and> wsConnCount (h_wsLimiter h') = wsConnCount (h_wsLimiter h) + 1"
  using admitted_ws [OF assms(1-3), of ml others "Some conn" ms] assms(4) by (auto simp: RunSession_def)

text \<open>C14: A request for a connection is refused with 400 without a room code, with 401 without a user, with 403 from a foreign origin,
  with 404 when no room is found and with 503 when no slot is free, in this order, and in no other case. Otherwise the upgrade
  fails, or a session runs, while other goroutines do to the room what keeps it well formed: it does not panic, and the room is well
  formed when it ends. Then its connection is closed; a player who is still in the room is marked as disconnected and
  has no connection, and a join that was refused has left no connection. In all of these cases the slot is free again. (A room
  that is closed after it was found does not stay well formed, and then the slot can be lost: \<open>panicked_join_keeps_slot\<close>.)\<close>

theorem websocket_admission:
  assumes "mathlib_ok ml" "\<And>k s. room_inv s \<Longrightarrow> room_inv (others k s)"
    and "getRoom seeded code h = (found, h1)" "\<And>room. found = Some room \<Longrightarrow> room_inv room"
  shows "\<exists>out h'. WebSocket ml seeded others allowed r code upgrade ms h = (out, h') \<and> h_wsLimiter h' = h_wsLimiter h
    \<and> (case out of
         Refused resp \<Rightarrow> \<not> admits_ws allowed r code found h \<and> rs_Status resp = refusal_status allowed r code found
       | UpgradeFailed \<Rightarrow> admits_ws allowed r code found h \<and> upgrade = None
       | SessionOver e \<Rightarrow> admits_ws allowed r code found h \<and> (\<exists>uid conn room'. ws_user r = Some uid \<and> upgrade = Some conn
           \<and> map_of (h_rooms h') code = Some room' \<and> room_inv room'
           \<and> (if e = None then session_over uid conn room' else join_refused uid conn room'))
       | SessionPanicked \<Rightarrow> False)"
proof (cases "admits_ws allowed r code found h")
  case False
  then show ?thesis using refused_ws [OF assms(3) False, of ml others upgrade ms] by auto
next
  case True
  then obtain uid room where u: "ws_user r = Some uid" "found = Some room" by (auto simp: admits_ws_def)
  obtain h2 where ws: "h_wsLimiter h2 = (h_wsLimiter h)\<lparr>wsConnCount := wsConnCount (h_wsLimiter h) + 1\<rparr>"
    "WebSocket ml seeded others allowed r code upgrade ms h = (case upgrade of
      None \<Rightarrow> (UpgradeFailed, release h2)
    | Some conn \<Rightarrow> (case RunSession ml others uid conn ms room of
          None \<Rightarrow> (SessionPanicked, h2)
        | Some (e, room) \<Rightarrow> (SessionOver e, release (put_room code room h2))))"
    using admitted_ws assms(3) True u by blast
  have l: "h_wsLimiter (release h2) = h_wsLimiter h" "h_wsLimiter (release (put_room code x h2)) = h_wsLimiter h" for x
    using ws(1) by (simp_all add: release_def DecrementWSConnection_def put_room_def)
  show ?thesis
  proof (cases upgrade)
    case None
    then show ?thesis using ws(2) True l by simp
  next
    case (Some conn)
    obtain e room' where s: "RunSession ml others uid conn ms room = Some (e, room')" "room_inv room'"
      "if e = None then session_over uid conn room' else join_refused uid conn room'"
      using RunSession_keeps [where others = others and pid = uid and conn = conn and ms = ms, OF assms(1,2) assms(4) [OF u(2)]] by (auto simp: returns_def)
    then show ?thesis using ws(2) True Some u l by (simp add: release_def put_room_def update_conv)
  qed
qed

text \<open>A room that was created by a request is found by the next one, with no players and waiting.\<close>

lemma created_room_checks:
  assumes "hub_ok h" "seeded_ok seeded" "h_cache h = Some rd" "up rd" "checks_sane rd"
    and "CreateRoom_handler seeded (Some h) = (resp, Some h1)" "rs_Body resp = CodeBody ''code'' code"
  shows "\<exists>info h2 resp2. rs_Status resp = 200 \<and> CheckRoom_handler en seeded code (Some h1) = (resp2, Some h2) \<and> rs_Status resp2 = 200
    \<and> rs_Body resp2 = RoomBody info \<and> ri_Code info = code \<and> ri_Phase info = PhaseWaiting \<and> ri_PlayerCount info = 0"
proof -
  have c: "CreateRoom seeded h = (Inr code, h1)" and st: "rs_Status resp = 200"
    using assms(6,7) by (auto simp: CreateRoom_handler_def handleRegistryRoom_def problem_def WriteDegradedJSON_def writeJSON_def
        split: prod.splits sum.splits if_splits)
  then obtain v where "code \<noteq> []" "NewRoomCode code = Inr v"
    by (auto simp: CreateRoom_def Let_def split_def split: if_splits sum.splits)
  moreover obtain info h2 where "CheckRoomCached seeded code h1 = (Inr (Some info), h2)" "ri_Code info = code" "ri_Phase info = PhaseWaiting"
    "ri_PlayerCount info = 0" using created_room_is_found [OF assms(1,2) c assms(3,4,5)] by blast
  ultimately show ?thesis using st by (simp add: CheckRoom_handler_def with_headers_def writeJSON_def)
qed

section \<open>Instance\<close>

definition demo_ws_request :: request where
  "demo_ws_request = \<lparr>rq_Method = str ''GET'', rq_Cookies = [], rq_Header = [(str ''Origin'', [1])], rq_TLS = True, rq_RemoteAddr = [],
     rq_Trusted = None, rq_UserID = Some [7], rq_Nickname = Some [8], rq_JTI = None, rq_Role = None\<rparr>"

theorem websocket_admission_witness:
  "\<exists>e h'. WebSocket zero_math zero_seeded (\<lambda>k s. HandleDisconnect [of_nat k] s) [[1]] demo_ws_request (str ''ABCDE'') (Some 3) []
       (put_room (str ''ABCDE'') demo_room demo_hub)
     = (SessionOver e, h') \<and> h_wsLimiter h' = h_wsLimiter (put_room (str ''ABCDE'') demo_room demo_hub)"
proof -
  let ?h = "put_room (str ''ABCDE'') demo_room demo_hub" and ?others = "\<lambda>k s. HandleDisconnect [of_nat k] s"
  have g: "getRoom zero_seeded (str ''ABCDE'') ?h = (Some demo_room, ?h)" by (simp add: getRoom_def put_room_def update_conv)
  have "room_inv (?others k s)" if "room_inv s" for k s by (rule quiet_inv [OF HandleDisconnect_quiet [OF that]])
  moreover have "admits_ws [[1]] demo_ws_request (str ''ABCDE'') (Some demo_room) ?h"
    by (simp add: admits_ws_def demo_ws_request_def ws_user_def GetAuthenticatedUser_def IsOriginAllowed_def str_def
        Header_Get_def put_room_def demo_hub_def NewHub_def NewWSLimiter_def defaultMaxWSConnections_def)
  ultimately show ?thesis
    using websocket_admission [OF zero_math_ok _ g, of ?others "[[1]]" demo_ws_request "Some 3" "[]"] demo_inv
    by (fastforce split: ws_outcome.splits)
qed

end
