(* ===== verification/Audit_Log.thy ===== *)
theory Audit_Log
  imports Game_Repository "HOL-Library.Multiset"
begin

text \<open>
  The audit trail (\<^verbatim>\<open>audit/audit.go\<close>): every entry goes to the standard output, and to a table through a channel with a single
  writer.

  \<^item> The retry policy is a third-party object that the logger keeps for its whole life (\<^verbatim>\<open>store.DefaultDBRetry\<close>: three retries).
    \<open>al_shared\<close> says whether it counts the retries of all writes together, as \<^verbatim>\<open>WithMaxRetries\<close> of \<^verbatim>\<open>go-retry\<close> does, or anew
    for each write, as the comment in \<^verbatim>\<open>writeToDB\<close> has it; \<open>al_retries\<close> is what is left of a common count.
  \<^item> \<open>attempt\<close> is as in \<open>Game_Repository\<close>; \<open>al_expired\<close> says that the time limit of a write has passed before an attempt.
  \<^item> A write with its retries is one step. \<open>InitDBLogger\<close> is called once, before there is a logger.
  \<^item> HMAC and SHA-256 are parameters. What \<open>before\<close> and \<open>after\<close> hold is their JSON text.
  \<^item> \<open>al_written\<close> are the entries whose writing was confirmed, \<open>al_failed\<close> those that the metric of failures counted.
\<close>

section \<open>Entries\<close>

record audit_entry =
  au_Action :: gostring
  au_ActorType :: gostring
  au_ActorID :: gostring
  au_ActorIP :: gostring
  au_Resource :: gostring
  au_Before :: "gostring option"
  au_After :: "gostring option"
  au_RequestID :: gostring
  au_TraceID :: gostring

record mac_lib =
  ml_hmac :: "gostring \<Rightarrow> gostring \<Rightarrow> byte list"
  ml_sha256 :: "gostring \<Rightarrow> byte list"

datatype logger_state = Absent | Open | Closing

record audit_log =
  al_state :: logger_state
  al_secret :: gostring
  al_queue :: "audit_entry list"
  al_busy :: "audit_entry option"
  al_stdout :: "audit_entry list"
  al_rows :: "audit_entry list"
  al_written :: "audit_entry list"
  al_failed :: "audit_entry list"
  al_shared :: bool
  al_retries :: nat
  al_attempts :: "nat \<Rightarrow> attempt"
  al_expired :: "nat \<Rightarrow> bool"
  al_pos :: nat

definition InitDBLogger :: "bool \<Rightarrow> gostring \<Rightarrow> audit_log \<Rightarrow> audit_log" where
  "InitDBLogger hasPool secret s =
     (if \<not> hasPool \<or> secret = [] then s else s\<lparr>al_state := Open, al_secret := secret, al_queue := [], al_busy := None\<rparr>)"

definition hashActorIP :: "mac_lib \<Rightarrow> gostring \<Rightarrow> audit_log \<Rightarrow> gostring" where
  "hashActorIP ml ip s =
     (if ip = [] then [] else if al_state s \<noteq> Absent then hex (ml_hmac ml (al_secret s) ip) else hex (ml_sha256 ml ip))"

section \<open>Writing\<close>

text \<open>An answer that is lost leaves a row behind; the statement is not repeatable, so that a retry adds another.\<close>

fun write_loop :: "nat \<Rightarrow> audit_entry \<Rightarrow> audit_log \<Rightarrow> bool \<times> audit_log" where
  "write_loop n e s =
     (let t = s\<lparr>al_pos := Suc (al_pos s), al_retries := n\<rparr>
      in if al_expired s (al_pos s) then (False, t)
         else case al_attempts s (al_pos s) of
             Runs \<Rightarrow> (True, t\<lparr>al_rows := al_rows t @ [e]\<rparr>)
           | Fails again \<Rightarrow> (case n of 0 \<Rightarrow> (False, t) | Suc n \<Rightarrow> if again then write_loop n e t else (False, t))
           | Lost again \<Rightarrow> let t = t\<lparr>al_rows := al_rows t @ [e]\<rparr>
               in (case n of 0 \<Rightarrow> (False, t) | Suc n \<Rightarrow> if again then write_loop n e t else (False, t)))"

declare write_loop.simps [simp del]

definition dbRetryAttempts :: nat where "dbRetryAttempts = 3"

definition writeToDB :: "audit_entry \<Rightarrow> audit_log \<Rightarrow> audit_log" where
  "writeToDB e s = (let (ok, s) = write_loop (if al_shared s then al_retries s else dbRetryAttempts) e s
     in if ok then s\<lparr>al_written := al_written s @ [e]\<rparr> else s\<lparr>al_failed := al_failed s @ [e]\<rparr>)"

text \<open>\<^verbatim>\<open>Log\<close> up to the point where it has taken the logger; \<open>Some\<close> entry is then to be sent. The identifiers are those of the
  context. While the logger is closing, its lock is held.\<close>

definition Log_begin :: "mac_lib \<Rightarrow> gostring \<Rightarrow> gostring \<Rightarrow> audit_entry \<Rightarrow> audit_log \<Rightarrow> audit_entry \<times> audit_log" where
  "Log_begin ml requestID traceID e s =
     (let e = (if au_RequestID e = [] then e\<lparr>au_RequestID := requestID\<rparr> else e);
          e = (if au_TraceID e = [] then e\<lparr>au_TraceID := traceID\<rparr> else e);
          e = e\<lparr>au_ActorIP := hashActorIP ml (au_ActorIP e) s\<rparr>
      in (e, s\<lparr>al_stdout := al_stdout s @ [e]\<rparr>))"

definition queueSize :: nat where "queueSize = 1024"

text \<open>The rest of it. A channel that was closed meanwhile is a panic.\<close>

definition Log_send :: "audit_entry \<Rightarrow> audit_log \<Rightarrow> audit_log option" where
  "Log_send e s =
     (if al_state s \<noteq> Open then None
      else if length (al_queue s) < queueSize then Some (s\<lparr>al_queue := al_queue s @ [e]\<rparr>)
      else Some (writeToDB e s))"

text \<open>One round of \<^verbatim>\<open>processLoop\<close>: taking an entry, then writing it.\<close>

definition loop_take :: "audit_log \<Rightarrow> audit_log" where
  "loop_take s = (case (al_busy s, al_queue s) of (None, e # es) \<Rightarrow> s\<lparr>al_busy := Some e, al_queue := es\<rparr> | _ \<Rightarrow> s)"

definition loop_write :: "audit_log \<Rightarrow> audit_log" where
  "loop_write s = (case al_busy s of None \<Rightarrow> s | Some e \<Rightarrow> (writeToDB e s)\<lparr>al_busy := None\<rparr>)"

text \<open>\<^verbatim>\<open>CloseDBLogger\<close> closes the channel, and forgets the logger when the loop has drained it.\<close>

definition close_channel :: "audit_log \<Rightarrow> audit_log" where
  "close_channel s = (if al_state s = Open then s\<lparr>al_state := Closing\<rparr> else s)"

definition close_done :: "audit_log \<Rightarrow> audit_log" where
  "close_done s = (if al_state s = Closing \<and> al_queue s = [] \<and> al_busy s = None then s\<lparr>al_state := Absent\<rparr> else s)"

section \<open>The system\<close>

text \<open>\<open>as_flying\<close>: the entries of callers that have taken the logger and not sent yet; \<open>as_accepted\<close>: all that were taken on;
  \<open>as_lost\<close>: those whose callers panicked.\<close>

record audit_system =
  as_log :: audit_log
  as_flying :: "audit_entry list"
  as_accepted :: "audit_entry list"
  as_lost :: "audit_entry list"

inductive audit_step :: "mac_lib \<Rightarrow> audit_system \<Rightarrow> audit_system \<Rightarrow> bool" for ml where
  logs_only: "al_state (as_log S) = Absent \<Longrightarrow> Log_begin ml rid tid e (as_log S) = (e', s) \<Longrightarrow> audit_step ml S (S\<lparr>as_log := s\<rparr>)"
| begins: "al_state (as_log S) = Open \<Longrightarrow> Log_begin ml rid tid e (as_log S) = (e', s) \<Longrightarrow>
    audit_step ml S (S\<lparr>as_log := s, as_flying := e' # as_flying S, as_accepted := e' # as_accepted S\<rparr>)"
| sends: "e \<in> set (as_flying S) \<Longrightarrow> Log_send e (as_log S) = Some s \<Longrightarrow>
    audit_step ml S (S\<lparr>as_log := s, as_flying := remove1 e (as_flying S)\<rparr>)"
| panics: "e \<in> set (as_flying S) \<Longrightarrow> Log_send e (as_log S) = None \<Longrightarrow>
    audit_step ml S (S\<lparr>as_flying := remove1 e (as_flying S), as_lost := e # as_lost S\<rparr>)"
| takes: "audit_step ml S (S\<lparr>as_log := loop_take (as_log S)\<rparr>)"
| writes: "audit_step ml S (S\<lparr>as_log := loop_write (as_log S)\<rparr>)"
| closes: "audit_step ml S (S\<lparr>as_log := close_channel (as_log S)\<rparr>)"
| closed: "audit_step ml S (S\<lparr>as_log := close_done (as_log S)\<rparr>)"

definition audit_init :: "audit_system \<Rightarrow> bool" where
  "audit_init S \<longleftrightarrow> as_flying S = [] \<and> as_accepted S = [] \<and> as_lost S = [] \<and> al_queue (as_log S) = [] \<and> al_busy (as_log S) = None
     \<and> al_rows (as_log S) = [] \<and> al_written (as_log S) = [] \<and> al_failed (as_log S) = [] \<and> al_retries (as_log S) = dbRetryAttempts \<and> al_pos (as_log S) = 0"

section \<open>Invariant\<close>

definition audit_inv :: "audit_system \<Rightarrow> bool" where
  "audit_inv S \<longleftrightarrow> (let s = as_log S in
     mset (as_accepted S) = mset (as_flying S) + mset (al_queue s) + mset (case al_busy s of None \<Rightarrow> [] | Some e \<Rightarrow> [e])
       + mset (al_failed s) + mset (al_written s) + mset (as_lost S)
     \<and> mset (al_written s) \<subseteq># mset (al_rows s)
     \<and> length (al_queue s) \<le> queueSize
     \<and> (if al_shared s then al_pos s + al_retries s = length (al_written s) + length (al_failed s) + 3
        else al_pos s \<le> 4 * length (al_written s) + 4 * length (al_failed s))
     \<and> (al_state s = Open \<longrightarrow> as_lost S = []))"

lemma write_loop_effect:
  "write_loop n e s = (ok, t) \<Longrightarrow> al_written t = al_written s \<and> al_failed t = al_failed s \<and> al_queue t = al_queue s
     \<and> al_busy t = al_busy s \<and> al_state t = al_state s \<and> al_shared t = al_shared s \<and> al_pos t + al_retries t = Suc (al_pos s + n)
     \<and> (\<exists>k. al_rows t = al_rows s @ replicate k e \<and> (ok \<longrightarrow> 0 < k))"
proof (induction n arbitrary: s)
  case 0
  then show ?case
    by (auto simp: write_loop.simps [of 0] Let_def split: if_splits attempt.splits intro: exI [of _ 0] exI [of _ 1])
next
  case (Suc n)
  let ?t = "s\<lparr>al_pos := Suc (al_pos s), al_retries := Suc n\<rparr>"
  have "(ok, t) = (False, ?t) \<or> (ok, t) = (True, ?t\<lparr>al_rows := al_rows s @ [e]\<rparr>) \<or> (ok, t) = (False, ?t\<lparr>al_rows := al_rows s @ [e]\<rparr>)
    \<or> write_loop n e ?t = (ok, t) \<or> write_loop n e (?t\<lparr>al_rows := al_rows s @ [e]\<rparr>) = (ok, t)"
    using Suc.prems by (simp add: write_loop.simps [of "Suc n"] Let_def split: if_splits attempt.splits)
  then show ?case
  proof (elim disjE)
    assume "write_loop n e (?t\<lparr>al_rows := al_rows s @ [e]\<rparr>) = (ok, t)"
    then obtain k where "al_rows t = al_rows s @ replicate (Suc k) e"
      using Suc.IH [of "?t\<lparr>al_rows := al_rows s @ [e]\<rparr>"] by auto
    then show ?thesis
      using Suc.IH [of "?t\<lparr>al_rows := al_rows s @ [e]\<rparr>"] \<open>write_loop n e (?t\<lparr>al_rows := al_rows s @ [e]\<rparr>) = (ok, t)\<close> by fastforce
  qed (use Suc.IH [of ?t] in \<open>fastforce intro: exI [of _ 0] exI [of _ 1]\<close>)+
qed

lemma writeToDB_effect:
  "al_queue (writeToDB e s) = al_queue s" "al_busy (writeToDB e s) = al_busy s" "al_state (writeToDB e s) = al_state s"
  "al_written (writeToDB e s) = al_written s @ [e] \<and> al_failed (writeToDB e s) = al_failed s
     \<or> al_written (writeToDB e s) = al_written s \<and> al_failed (writeToDB e s) = al_failed s @ [e]"
  "al_shared (writeToDB e s) = al_shared s"
  "if al_shared s then al_pos (writeToDB e s) + al_retries (writeToDB e s) = Suc (al_pos s + al_retries s) else al_pos (writeToDB e s) \<le> al_pos s + 4"
  "mset (al_written s) \<subseteq># mset (al_rows s) \<Longrightarrow> mset (al_written (writeToDB e s)) \<subseteq># mset (al_rows (writeToDB e s))"
proof -
  obtain ok t where w: "write_loop (if al_shared s then al_retries s else dbRetryAttempts) e s = (ok, t)" by fastforce
  note f = write_loop_effect [OF w]
  have d: "writeToDB e s = (if ok then t\<lparr>al_written := al_written t @ [e]\<rparr> else t\<lparr>al_failed := al_failed t @ [e]\<rparr>)"
    by (simp add: writeToDB_def w)
  show "al_queue (writeToDB e s) = al_queue s" "al_busy (writeToDB e s) = al_busy s" "al_state (writeToDB e s) = al_state s"
    "al_written (writeToDB e s) = al_written s @ [e] \<and> al_failed (writeToDB e s) = al_failed s
       \<or> al_written (writeToDB e s) = al_written s \<and> al_failed (writeToDB e s) = al_failed s @ [e]"
    "al_shared (writeToDB e s) = al_shared s"
    "if al_shared s then al_pos (writeToDB e s) + al_retries (writeToDB e s) = Suc (al_pos s + al_retries s) else al_pos (writeToDB e s) \<le> al_pos s + 4"
    using f by (auto simp: d dbRetryAttempts_def split: if_splits)
  assume sub: "mset (al_written s) \<subseteq># mset (al_rows s)"
  obtain k where k: "al_rows t = al_rows s @ replicate k e" "ok \<longrightarrow> 0 < k" using f by blast
  then have rows: "mset (al_rows t) = mset (al_rows s) + replicate_mset k e" by simp
  show "mset (al_written (writeToDB e s)) \<subseteq># mset (al_rows (writeToDB e s))"
  proof (cases ok)
    case True
    then have "{#e#} \<subseteq># replicate_mset k e" using k(2) by (cases k) auto
    then have "mset (al_written s) + {#e#} \<subseteq># mset (al_rows s) + replicate_mset k e" by (rule subset_mset.add_mono [OF sub])
    then show ?thesis using True f rows by (simp add: d)
  next
    case False
    then show ?thesis using f rows subset_mset.add_increasing2 [OF _ sub] by (simp add: d)
  qed
qed

lemma loop_take_effect:
  "mset (al_queue (loop_take s)) + mset (case al_busy (loop_take s) of None \<Rightarrow> [] | Some e \<Rightarrow> [e])
     = mset (al_queue s) + mset (case al_busy s of None \<Rightarrow> [] | Some e \<Rightarrow> [e])"
  "length (al_queue (loop_take s)) \<le> length (al_queue s)" "al_written (loop_take s) = al_written s" "al_failed (loop_take s) = al_failed s"
  "al_rows (loop_take s) = al_rows s" "al_pos (loop_take s) = al_pos s" "al_retries (loop_take s) = al_retries s" "al_state (loop_take s) = al_state s"
  "al_shared (loop_take s) = al_shared s"
  by (auto simp: loop_take_def split: option.split list.split)

lemma Log_begin_frame:
  assumes "Log_begin ml rid tid e s = (e', s')"
  shows "\<exists>xs. s' = s\<lparr>al_stdout := xs\<rparr>"
  using assms by (auto simp: Log_begin_def Let_def)

lemma send_inv:
  assumes "audit_inv S" "e \<in> set (as_flying S)" "Log_send e (as_log S) = Some s"
  shows "audit_inv (S\<lparr>as_log := s, as_flying := remove1 e (as_flying S)\<rparr>)"
proof -
  have fl: "mset (as_flying S) = {#e#} + mset (remove1 e (as_flying S))" using assms(2) by simp
  show ?thesis
  proof (cases "length (al_queue (as_log S)) < queueSize")
    case True
    then have "s = (as_log S)\<lparr>al_queue := al_queue (as_log S) @ [e]\<rparr>" using assms(3) by (auto simp: Log_send_def split: if_splits)
    then show ?thesis using assms(1) True unfolding audit_inv_def Let_def fl by simp
  next
    case False
    then have "s = writeToDB e (as_log S)" using assms(3) by (auto simp: Log_send_def split: if_splits)
    then show ?thesis using assms(1) writeToDB_effect [where e = e and s = "as_log S"] unfolding audit_inv_def Let_def fl by (auto split: if_splits)
  qed
qed

lemma write_inv:
  assumes "audit_inv S"
  shows "audit_inv (S\<lparr>as_log := loop_write (as_log S)\<rparr>)"
proof (cases "al_busy (as_log S)")
  case None
  then show ?thesis using assms by (simp add: loop_write_def)
next
  case (Some e)
  then show ?thesis using assms writeToDB_effect [where e = e and s = "as_log S"] by (auto simp: audit_inv_def Let_def loop_write_def split: if_splits)
qed

lemma audit_inv_step:
  assumes "audit_inv S" "audit_step ml S S'"
  shows "audit_inv S'"
  using assms(2)
proof (cases rule: audit_step.cases)
  case (logs_only rid tid e e' s)
  then show ?thesis using assms(1) Log_begin_frame [OF logs_only(3)] by (auto simp: audit_inv_def Let_def)
next
  case (begins rid tid e e' s)
  then show ?thesis using assms(1) Log_begin_frame [OF begins(3)] by (auto simp: audit_inv_def Let_def)
next
  case (sends e s)
  then show ?thesis using send_inv [OF assms(1)] by simp
next
  case (panics e)
  then have "al_state (as_log S) \<noteq> Open" by (auto simp: Log_send_def split: if_splits)
  moreover have "mset (as_flying S) = {#e#} + mset (remove1 e (as_flying S))" using panics(2) by simp
  ultimately show ?thesis using assms(1) panics(1) by (simp add: audit_inv_def Let_def)
next
  case takes
  then show ?thesis using assms(1) loop_take_effect [of "as_log S"] by (auto simp: audit_inv_def Let_def)
next
  case writes
  then show ?thesis using write_inv [OF assms(1)] by simp
next
  case closes
  then show ?thesis using assms(1) by (auto simp: audit_inv_def Let_def close_channel_def)
next
  case closed
  then show ?thesis using assms(1) by (auto simp: audit_inv_def Let_def close_done_def)
qed

interpretation trail: transition_system audit_init "audit_step ml" audit_inv for ml
proof
  show "audit_init S \<Longrightarrow> audit_inv S" for S by (simp add: audit_init_def audit_inv_def dbRetryAttempts_def)
  show "audit_inv S \<Longrightarrow> audit_step ml S T \<Longrightarrow> audit_inv T" for S T by (rule audit_inv_step)
qed


text \<open>Once the common retries are used up, the first fault that could be retried makes every later entry a failure.\<close>

lemma retries_used_up:
  assumes "al_shared s" "al_retries s = 0" "al_attempts s (al_pos s) \<noteq> Runs"
  shows "al_failed (writeToDB e s) = al_failed s @ [e]"
  using assms write_loop.simps [of 0 e s] by (auto simp: writeToDB_def Let_def split: attempt.splits if_splits)

section \<open>Instance\<close>

definition demo_entry :: audit_entry where
  "demo_entry = \<lparr>au_Action = [1], au_ActorType = [2], au_ActorID = [3], au_ActorIP = [], au_Resource = [4], au_Before = None, au_After = None,
     au_RequestID = [5], au_TraceID = [6]\<rparr>"

text \<open>The first attempt fails in a way that can be retried.\<close>

definition demo_log :: "audit_entry list \<Rightarrow> audit_entry option \<Rightarrow> audit_entry list \<Rightarrow> audit_entry list \<Rightarrow> nat \<Rightarrow> nat \<Rightarrow> audit_log" where
  "demo_log q b out rows r n = \<lparr>al_state = Open, al_secret = [9], al_queue = q, al_busy = b, al_stdout = out, al_rows = rows, al_written = rows,
     al_failed = [], al_shared = True, al_retries = r, al_attempts = (\<lambda>k. if k = 0 then Fails True else Runs), al_expired = (\<lambda>_. False), al_pos = n\<rparr>"

definition demo_audit :: "audit_log \<Rightarrow> audit_entry list \<Rightarrow> audit_entry list \<Rightarrow> audit_system" where
  "demo_audit s fl ac = \<lparr>as_log = s, as_flying = fl, as_accepted = ac, as_lost = []\<rparr>"

definition demo_mac :: mac_lib where
  "demo_mac = \<lparr>ml_hmac = (\<lambda>_ _. []), ml_sha256 = (\<lambda>_. [])\<rparr>"

definition demo_audited :: audit_system where
  "demo_audited = demo_audit (demo_log [] None [demo_entry] [demo_entry] 2 2) [] [demo_entry]"

lemma demo_audit_steps: "(audit_step demo_mac)\<^sup>*\<^sup>* (demo_audit (demo_log [] None [] [] 3 0) [] []) demo_audited"
proof -
  let ?S0 = "demo_audit (demo_log [] None [] [] 3 0) [] []"
  let ?S1 = "demo_audit (demo_log [] None [demo_entry] [] 3 0) [demo_entry] [demo_entry]"
  let ?S2 = "demo_audit (demo_log [demo_entry] None [demo_entry] [] 3 0) [] [demo_entry]"
  let ?S3 = "demo_audit (demo_log [] (Some demo_entry) [demo_entry] [] 3 0) [] [demo_entry]"
  have "Log_begin demo_mac [] [] demo_entry (as_log ?S0) = (demo_entry, as_log ?S1)"
    by (simp add: Log_begin_def demo_entry_def hashActorIP_def demo_audit_def demo_log_def Let_def)
  then have 1: "audit_step demo_mac ?S0 ?S1"
    using begins [of ?S0 demo_mac "[]" "[]" demo_entry] by (simp add: demo_audit_def demo_log_def)
  have "Log_send demo_entry (as_log ?S1) = Some (as_log ?S2)" by (simp add: Log_send_def demo_audit_def demo_log_def queueSize_def)
  then have 2: "audit_step demo_mac ?S1 ?S2" using sends [of demo_entry ?S1] by (simp add: demo_audit_def)
  have "loop_take (as_log ?S2) = as_log ?S3" by (simp add: loop_take_def demo_audit_def demo_log_def)
  then have 3: "audit_step demo_mac ?S2 ?S3" using takes [of demo_mac ?S2] by (simp add: demo_audit_def)
  have "write_loop 3 demo_entry (as_log ?S3) = (True, (demo_log [] (Some demo_entry) [demo_entry] [demo_entry] 2 2)\<lparr>al_written := []\<rparr>)"
    by (simp add: write_loop.simps demo_audit_def demo_log_def numeral_eq_Suc Let_def)
  then have "loop_write (as_log ?S3) = as_log demo_audited"
    by (simp add: loop_write_def writeToDB_def demo_audited_def demo_audit_def demo_log_def)
  then have 4: "audit_step demo_mac ?S3 demo_audited" using writes [of demo_mac ?S3] by (simp add: demo_audited_def demo_audit_def)
  show ?thesis using 1 2 3 4 by (meson converse_rtranclp_into_rtranclp r_into_rtranclp)
qed


end
