(* ===== verification/Spec2Isabelle.thy ===== *)
theory Spec2Isabelle
  imports Hub_Restore Room_Liveness Routes_Properties Email_Queue Handlers Audit_Log
begin

text \<open>
  \<^bold>\<open>A model of the server of Uppy, a multiplayer balloon game\<close>

  Players join a room with a five-letter code over a WebSocket and keep a balloon in the air by tapping; the server
  runs the physics, broadcasts snapshots in a binary format, ends the round when the balloon meets the ground, a bird or
  a ghost, and restarts it when everybody agrees. Rooms live in the memory of one server instance (the hub), are
  written to PostgreSQL, and are registered in Redis. A player signs in with a nickname and carries access and refresh
  tokens in cookies; an administrator signs in with a password and changes the configuration. This development translates
  the Go code of \<^verbatim>\<open>src/backend/internal\<close> that does this, and the part of the browser client that reads and writes its messages.

  \<^bold>\<open>Theories and sources\<close>, from the bottom to the top; a definition keeps the name of the function it translates.

  \<^item> \<open>Prelude\<close>: byte strings, maps as association lists, \<open>returns\<close> for functions that may panic, little-endian words.
    \<open>Text\<close>: UTF-8 as Go decodes it, runes, trimming and the character classes of the regular expressions.
    \<open>Float64\<close>, \<open>Float_Bounds\<close>: IEEE doubles and floats with correct rounding, and the interval lemmas of the physics.
    \<open>Random_Source\<close>: \<^verbatim>\<open>RNGSource\<close> as an interface (locale \<open>random_source\<close>) and its model.
  \<^item> \<open>Domain\<close> (\<^verbatim>\<open>domain/domain.go\<close>, \<^verbatim>\<open>domain/room.go\<close>, \<^verbatim>\<open>domain/game_state.go\<close>): constants, errors, room codes, the
    nickname sanitizer, the records of the game. What a room code and a sanitized nickname are.
  \<^item> \<open>Protocol\<close> (\<^verbatim>\<open>protocol/*.go\<close>) and \<open>Client_Codec\<close> (\<^verbatim>\<open>frontend/src/game/message_codec.ts\<close>, \<^verbatim>\<open>input.ts\<close>): the encoders
    and decoders of both sides over bytes. Round trips in both directions; sizes; when an encoder panics.
  \<^item> \<open>Nicknames\<close> (\<^verbatim>\<open>nicknames/*.go\<close>): the generator of random names, its freshness and its bounds.
  \<^item> \<open>Game_State\<close> (\<^verbatim>\<open>game/state.go\<close>), \<open>Physics\<close> and \<open>Physics_Ranges\<close> (\<^verbatim>\<open>game/physics.go\<close>): construction and reset of the
    game, gravity, taps, wind, bird and ghost; every quantity stays finite and in its range.
  \<^item> \<open>Room_State\<close> (\<^verbatim>\<open>game/room.go\<close>, \<^verbatim>\<open>game/ws_session.go\<close>, \<^verbatim>\<open>game/room_persist.go\<close>): the record of a room, its connections,
    the outbound queue with its delivery, the persistence queue, snapshots. \<open>Room\<close> (\<^verbatim>\<open>game/room_lifecycle.go\<close>,
    \<^verbatim>\<open>room_tick.go\<close>, \<^verbatim>\<open>room_restart_voting.go\<close>): every handler, timer callback and the tick.
  \<^item> \<open>Room_Queues\<close>, \<open>Room_Invariant\<close>, \<open>Room_Safety\<close>: the invariant \<open>room_inv\<close> of a room, and for each handler one
    lemma that it returns, keeps the invariant and moves the phase only as allowed. \<open>Room_Machine\<close>: a room with its
    pending timers and the sections of its closing as a step relation (locale \<open>transition_system\<close>), reachability, and the
    invariant by rule induction.
    \<open>Room_Behaviour\<close>, \<open>Room_Rounds\<close>: what the handlers do, branch by branch. \<open>Room_Liveness\<close>: a round ends.
  \<^item> \<open>WS_Limiter\<close> (\<^verbatim>\<open>game/hub.go\<close>, \<^verbatim>\<open>game/ws_session.go\<close>, \<^verbatim>\<open>handler/lobby.go\<close>): the lock-free connection limiter under every
    interleaving, as a refinement of a counting semaphore, and the session that holds a slot.
  \<^item> \<open>Game_Repository\<close>, \<open>Repository_Properties\<close> (\<^verbatim>\<open>store/game_repository.go\<close>, \<^verbatim>\<open>store/postgres.go\<close>): statements on tables,
    executed under retries that may fail or lose the answer; the locale \<open>repeatable\<close> is what makes retries harmless, and
    it is interpreted for each statement. Round trips, pagination, idempotence, the leaderboard.
  \<^item> \<open>Redis_Cache\<close> (\<^verbatim>\<open>store/redis.go\<close>): the room registry and the read caches; locale \<open>keyed_cache\<close>.
  \<^item> \<open>Hub\<close>, \<open>Hub_Properties\<close>, \<open>Hub_Restore\<close> (\<^verbatim>\<open>game/hub.go\<close>, \<^verbatim>\<open>hub_helpers.go\<close>, \<^verbatim>\<open>hub_cleanup.go\<close>): the hub over rooms, database
    and cache: creating, finding, matching, removing, cleaning up and restoring rooms.
  \<^item> \<open>Token_Store\<close>, \<open>Refresh_Tokens\<close> (\<^verbatim>\<open>store/redis_stores.go\<close>, \<^verbatim>\<open>store/redis.go\<close>): Redis with values, sets, counters and expiry;
    the scripts of the refresh tokens, revoked identifiers, login failures and rate windows; the tokens of all users under
    every order of operations (locale \<open>transition_system\<close>). \<open>Crypto_Storage\<close> (\<^verbatim>\<open>crypto/aes.go\<close>): the stored form of secrets.
  \<^item> \<open>User_Repository\<close> (\<^verbatim>\<open>store/user_repository.go\<close>, \<^verbatim>\<open>store/config_repository.go\<close>): users, anonymization, retention and the
    configuration table, on the database model of \<open>Game_Repository\<close>.
  \<^item> \<open>Auth\<close> (\<^verbatim>\<open>auth/auth.go\<close>, \<^verbatim>\<open>auth/jwt.go\<close>, \<^verbatim>\<open>auth/token_lifecycle.go\<close>), \<open>Auth_Handler\<close> (\<^verbatim>\<open>handler/auth.go\<close>): quick play, issuing,
    rotating and revoking tokens, and the handlers with their cookies. \<open>Auth_Properties\<close>: what signing in, refreshing and
    signing out guarantee.
  \<^item> \<open>Access\<close> (\<^verbatim>\<open>middleware/*.go\<close>, \<^verbatim>\<open>rbac/rbac.go\<close>): each middleware as a function on handlers. \<open>Admin\<close>, \<open>Admin_Properties\<close>
    (\<^verbatim>\<open>handler/admin.go\<close>, \<^verbatim>\<open>handler/admin_management.go\<close>): sign-in and lock-out of administrators, configuration, passwords.
    \<open>Routes\<close>, \<open>Routes_Properties\<close> (\<^verbatim>\<open>server/routes.go\<close>): the routes with their chains of middlewares, and who gets through.
  \<^item> \<open>Config\<close> (\<^verbatim>\<open>config/config.go\<close>): the environment, the checks before start-up, the addresses of Redis. \<open>Strconv\<close>: number
    and text functions that several packages use.
  \<^item> \<open>Handlers\<close> (\<^verbatim>\<open>handler/lobby.go\<close>, \<^verbatim>\<open>handler/stats.go\<close>, \<^verbatim>\<open>health/health.go\<close>): the handlers of rooms, connections, statistics
    and readiness over the hub, the limiter and the repositories.
  \<^item> \<open>Email_Queue\<close> (\<^verbatim>\<open>worker/email_worker.go\<close>, \<^verbatim>\<open>email_resend.go\<close>, \<^verbatim>\<open>retry.go\<close>): the stream of e-mails, the worker with its retries
    and dead letters as a step relation, and what becomes of an e-mail. \<open>Audit_Log\<close> (\<^verbatim>\<open>audit/audit.go\<close>): the audit trail with its
    channel, its writer and its retries, in the same way.

  \<^bold>\<open>How the code is represented\<close>

  \<^item> A handler that holds the lock of a room is one function on the record \<open>room\<close>. Timers, the tick, deliveries and
    writes are steps that may happen at any time, in any order, as long as they are pending (\<open>sys_step\<close>): the theorems
    about reachable rooms hold for every schedule. \<^verbatim>\<open>Close\<close> and the callback of the end-of-game timer let go of the lock on their
    way: they are sequences of sections (\<open>close_plan\<close>, \<open>alarm_section\<close>) between which any other step may come; undisturbed
    they are the functions \<open>Close\<close> and \<open>alarm_act\<close> (\<open>Close_acts\<close>, \<open>alarm_act_sections\<close>). The callback does not look again
    whether the room is closed once it has decided. Steps end with \<^verbatim>\<open>stopPersist\<close>, the last section of \<^verbatim>\<open>Close\<close>: a later operation
    that stores the state panics (\<open>join_closed_room_panics\<close>). Other places where a lock is released are operations of their own
    too (\<open>runLoop_round\<close>, \<open>register_loaded\<close>, the load and the swap of the limiter). A session and the closing of a room are
    stated with what other goroutines do to the room in between as an argument (\<open>others\<close>). The tick is one step, although its broadcast and its
    saving follow after the lock is released.
  \<^item> Rooms are those of \<^verbatim>\<open>NewRoom\<close> with at most 95 players: the constant of the source is 50, and only the variable
    \<^verbatim>\<open>MAX_PLAYERS_PER_ROOM\<close>, which has no upper bound, can exceed it. Beyond 95 the names of the generator may run out, and
    beyond 255 the encoder of snapshots panics.
  \<^item> Clock, identifiers and the outcome of a time-limited wait come from the environment, as sequences without any
    assumption. The random source, the cryptographic source, the mathematical library (sine, cosine, logarithm), the text
    decoder of the browser, the collation of the database and the hash of \<^verbatim>\<open>uuid.NewSHA1\<close> are parameters; what is assumed
    of them (\<open>rng_ok\<close>, \<open>mathlib_ok\<close>, \<open>text_decoder\<close>, \<open>collated\<close>) is documented behaviour, and each theorem that assumes it
    has an instance.
  \<^item> A panic is \<open>None\<close>, an error a value of a sum or of an option. Go's \<^verbatim>\<open>int\<close> and \<^verbatim>\<open>int64\<close> are integers, since the
    quantities of the game stay far below their limits; what goes on the wire is a word of its width, with truncation.
  \<^item> Requests to the handlers of \<open>Auth_Handler\<close> and \<open>Admin\<close> are handled one after the other; time passes between the commands
    to Redis, by an amount that the environment chooses. Signing and parsing tokens, password hashes, the cipher, the
    hash of an address and the parsing of addresses are parameters (\<open>jwt_lib\<close>, \<open>admin_env\<close>, \<open>net_lib\<close>) with named laws. Of the
    JWT library it is assumed that a token it accepts has an expiry that is not over: all that is signed with the key has one.
  \<^item> SQL statements and Redis commands are the functions that their text denotes, with the keys and checks of the
    schema; whether an execution happens and whether its answer arrives is up to the environment.
  \<^item> JSON text of a state is represented by the state, and marshalling fails exactly on infinities and \<open>NaN\<close>.
  \<^item> Loops are structural recursions, or have fuel where the code loops until a condition holds: \<open>RestoreRooms\<close> takes
    the number of pages, and one page more than is read suffices in both of its theorems; \<open>follow_pages\<close> needs one page more
    than there are lobbies; \<open>untapped\<close> runs 64 ticks. A persistence loop is drained with one round per queued job and one for the end.
    The retry loop of the database recurs on the number of retries that it is granted.
  \<^item> The retry policy of the audit trail is a value of a library outside the repository: the flag \<open>al_shared\<close> says whether it counts
    its attempts for the life of the logger, as that library does, or for each write, as the comment in the source has it.
  \<^item> The worker for e-mails has made its group of consumers before anything is enqueued (\<open>mail_init\<close>); the group begins at the
    end of the stream, so e-mails from before its creation are never read.

  \<^bold>\<open>What is shown\<close>

  \<^item> The room: the aggregate invariant, freedom from panics and the allowed phase changes for every reachable room; taps,
    votes, rate limit, reconnection within the grace period, clean-up, slow clients, closing, and that an untapped round ends.
  \<^item> The wire: what the client decodes is the state of the room; messages of the client arrive as they were sent.
  \<^item> The limiter: bounded count, no leaked slot without a panic, refinement of a semaphore; sessions come back.
  \<^item> The repositories: saved is loaded, results are recorded once, pages list everything, the leaderboard is ranked.
  \<^item> The hub: fresh codes, matching, ownership, clean-up, and restoring rooms, with the limit at which restoring stops.
  \<^item> Access: no route runs its handler without the credentials and the permission it asks for, and when Redis cannot be asked
    nobody is admitted; a refresh token is redeemed once, its reuse revokes the refresh tokens of its user, signing out and changing a password
    are final; five wrong passwords lock the account; rate limits hold over every window, and which of them fail closed.
  \<^item> Requests and configuration: a connection is admitted or refused by the right status and gives its slot back; a production
    configuration passes the checks exactly when its secrets, its address of the database and its trusted proxies are as required.
  \<^item> Audit: every entry is accounted for, and the attempts to write are bounded under both readings of the retry policy.
  \<^item> E-mail: whatever is enqueued waits, is delivered, is a dead letter or was overtaken by ten thousand entries.
  \<^item> Personal data: anonymizing erases it, retention deletes exactly what is due, and encrypted secrets come back.

  \<^bold>\<open>Not modelled\<close>: start-up and shutdown of the process, metrics, tracing and logs,
  parsing of signing keys, the serving of static files, code generation, seeding and migrations, and the rendering of the
  client: they are input and output of the process, or call code outside the repository. Deadlines and
  pings of a connection appear as its end. Requests that run at the same time interleave in the model only where the code
  shares memory (rooms, hub, limiter) or tokens in Redis (\<open>Refresh_Tokens\<close>), not inside one HTTP handler.
\<close>

end
